(* ===== verification/Mbs_Prelude.thy ===== *)
theory Mbs_Prelude
  imports Complex_Main "HOL-Library.Char_ord" "HOL-Library.List_Lexorder"
    "HOL-Library.Product_Lexorder"
begin

text \<open>
  Shared vocabulary of the development: the types that stand for the platform's scalar columns
  (identifiers, UTC timestamps), results of fallible calls, the Python string operations that the
  modelled modules use, and association tables (lists of rows with a key) with the laws of the
  conditional \<open>UPDATE ... WHERE\<close> statement. Everything the component theories share
  is here, so that no component inlines it.

  Strings are lists of characters with code points below 256. The modelled code treats its strings
  as ASCII (identifiers, severities, template names, host names), and the case mapping and
  white-space tests below are Python's on that range.
\<close>

section \<open>Scalar types\<close>

text \<open>Primary keys are UUIDs: only their identity matters, so they are numbers.\<close>

type_synonym uuid = nat

text \<open>UTC timestamps in microseconds (the resolution of the database's \<open>DATETIME(6)\<close>).\<close>

type_synonym time = int

text \<open>
  A Python \<open>datetime\<close> is naive or carries an offset from UTC; the services normalise it
  with \<open>replace(tzinfo=utc)\<close> when naive and \<open>astimezone(utc)\<close>.
\<close>

datatype py_datetime = Naive time | Aware time (utc_offset: time)

fun to_utc :: "py_datetime \<Rightarrow> time" where
  "to_utc (Naive t) = t"
| "to_utc (Aware t off) = t - off"

text \<open>
  An f-string is kept as its list of fragments: the literal text and the interpolated values.
  Two f-strings with the same fragments print the same text.
\<close>

datatype frag = Lit string | Uid uuid | Ts time | Num int

type_synonym fstring = "frag list"

section \<open>Results of fallible calls\<close>

definition res_bind :: "'e + 'a \<Rightarrow> ('a \<Rightarrow> 'e + 'b) \<Rightarrow> 'e + 'b" where
  "res_bind r f = (case r of Inl e \<Rightarrow> Inl e | Inr x \<Rightarrow> f x)"

lemma res_bind_simps [simp]:
  "res_bind (Inl e) f = Inl e"
  "res_bind (Inr x) f = f x"
  by (simp_all add: res_bind_def)

lemma res_bind_Inr_iff: "res_bind r f = Inr y \<longleftrightarrow> (\<exists>x. r = Inr x \<and> f x = Inr y)"
  by (cases r) auto

lemma res_bind_InrE:
  assumes "res_bind r f = Inr y"
  obtains x where "r = Inr x" and "f x = Inr y"
  using assms by (auto simp: res_bind_Inr_iff)

definition is_ok :: "'e + 'a \<Rightarrow> bool" where
  "is_ok r = (case r of Inl _ \<Rightarrow> False | Inr _ \<Rightarrow> True)"

lemma is_ok_simps [simp]: "\<not> is_ok (Inl e)" "is_ok (Inr x)"
  by (simp_all add: is_ok_def)

lemma is_ok_iff: "is_ok r \<longleftrightarrow> (\<exists>x. r = Inr x)"
  by (cases r) auto

section \<open>Python truthiness of optional text\<close>

definition truthy :: "string option \<Rightarrow> bool" where
  "truthy s = (case s of None \<Rightarrow> False | Some t \<Rightarrow> t \<noteq> [])"

definition or_empty :: "string option \<Rightarrow> string" where
  "or_empty s = (case s of None \<Rightarrow> [] | Some t \<Rightarrow> t)"

lemma truthy_simps [simp]: "\<not> truthy None" "truthy (Some t) \<longleftrightarrow> t \<noteq> []"
  by (simp_all add: truthy_def)

lemma or_empty_simps [simp]: "or_empty None = []" "or_empty (Some t) = t"
  by (simp_all add: or_empty_def)

lemma truthy_or_empty: "truthy s \<longleftrightarrow> or_empty s \<noteq> []"
  by (cases s) auto

section \<open>Python string operations\<close>

definition lower_char :: "char \<Rightarrow> char" where
  "lower_char c =
     (if 65 \<le> (of_char c :: nat) \<and> (of_char c :: nat) \<le> 90 then char_of (of_char c + (32 :: nat)) else c)"

definition py_lower :: "string \<Rightarrow> string" where
  "py_lower s = map lower_char s"

text \<open>\<open>str.isspace\<close> on the ASCII range: tab to carriage return, the four separators, space.\<close>

definition is_space :: "char \<Rightarrow> bool" where
  "is_space c = (let n = (of_char c :: nat) in (9 \<le> n \<and> n \<le> 13) \<or> (28 \<le> n \<and> n \<le> 32))"

definition py_lstrip :: "string \<Rightarrow> string" where
  "py_lstrip s = dropWhile is_space s"

definition py_strip :: "string \<Rightarrow> string" where
  "py_strip s = rev (dropWhile is_space (rev (py_lstrip s)))"

definition py_rstrip_char :: "char \<Rightarrow> string \<Rightarrow> string" where
  "py_rstrip_char c s = rev (dropWhile (\<lambda>x. x = c) (rev s))"

fun py_startswith :: "string \<Rightarrow> string \<Rightarrow> bool" where
  "py_startswith s [] = True"
| "py_startswith [] (p # ps) = False"
| "py_startswith (c # s) (p # ps) = (c = p \<and> py_startswith s ps)"

definition py_endswith :: "string \<Rightarrow> string \<Rightarrow> bool" where
  "py_endswith s t = py_startswith (rev s) (rev t)"

fun py_contains :: "string \<Rightarrow> string \<Rightarrow> bool" where
  "py_contains sub [] = (sub = [])"
| "py_contains sub (c # s) = (py_startswith (c # s) sub \<or> py_contains sub s)"

text \<open>\<open>str.split(c)\<close> on one separator character: always at least one part.\<close>

fun split_char :: "char \<Rightarrow> string \<Rightarrow> string list" where
  "split_char c [] = [[]]"
| "split_char c (x # xs) =
     (if x = c then [] # split_char c xs
      else (case split_char c xs of [] \<Rightarrow> [[x]] | p # ps \<Rightarrow> (x # p) # ps))"

text \<open>\<open>str.split()\<close> with no separator: runs of white space, no empty part.\<close>

fun split_ws_acc :: "string \<Rightarrow> string \<Rightarrow> string list" where
  "split_ws_acc acc [] = (if acc = [] then [] else [rev acc])"
| "split_ws_acc acc (x # xs) =
     (if is_space x then (if acc = [] then split_ws_acc [] xs else rev acc # split_ws_acc [] xs)
      else split_ws_acc (x # acc) xs)"

definition split_ws :: "string \<Rightarrow> string list" where
  "split_ws s = split_ws_acc [] s"

text \<open>\<open>str.partition(c)\<close>: the text before the first \<open>c\<close> and, if it occurs, the text after it.\<close>

fun partition_char :: "char \<Rightarrow> string \<Rightarrow> string \<times> string option" where
  "partition_char c [] = ([], None)"
| "partition_char c (x # xs) =
     (if x = c then ([], Some xs) else (let (a, b) = partition_char c xs in (x # a, b)))"

definition before_char :: "char \<Rightarrow> string \<Rightarrow> string" where
  "before_char c s = takeWhile (\<lambda>x. x \<noteq> c) s"

text \<open>\<open>s.rsplit(c, 1)[1]\<close>, the text after the last \<open>c\<close> (all of \<open>s\<close> when it does not occur).\<close>

definition after_last_char :: "char \<Rightarrow> string \<Rightarrow> string" where
  "after_last_char c s = rev (takeWhile (\<lambda>x. x \<noteq> c) (rev s))"

text \<open>\<open>s.split(sep, 1)[1]\<close> for a separator that occurs in \<open>s\<close>.\<close>

fun after_sub :: "string \<Rightarrow> string \<Rightarrow> string" where
  "after_sub sep [] = []"
| "after_sub sep (c # s) =
     (if py_startswith (c # s) sep then drop (length sep) (c # s) else after_sub sep s)"

fun py_join :: "string \<Rightarrow> string list \<Rightarrow> string" where
  "py_join sep [] = []"
| "py_join sep [s] = s"
| "py_join sep (s # t # ss) = s @ sep @ py_join sep (t # ss)"

definition is_digit_char :: "char \<Rightarrow> bool" where
  "is_digit_char c = (48 \<le> (of_char c :: nat) \<and> (of_char c :: nat) \<le> 57)"

named_theorems py_str \<open>Definitions of the Python string operations.\<close>

lemmas py_str_defs [py_str] =
  py_lower_def lower_char_def py_strip_def py_lstrip_def is_space_def py_rstrip_char_def
  py_endswith_def split_ws_def before_char_def after_last_char_def is_digit_char_def

lemma py_startswith_iff: "py_startswith s p \<longleftrightarrow> (\<exists>t. s = p @ t)"
  by (induction s p rule: py_startswith.induct) auto

lemma py_contains_iff: "py_contains sub s \<longleftrightarrow> (\<exists>a b. s = a @ sub @ b)"
proof (induction s)
  case Nil
  then show ?case by auto
next
  case (Cons c s)
  have "(\<exists>a b. c # s = a @ sub @ b) \<longleftrightarrow> (\<exists>b. c # s = sub @ b) \<or> (\<exists>a b. s = a @ sub @ b)"
    by (metis append_Cons append_Nil neq_Nil_conv list.inject)
  with Cons show ?case by (auto simp: py_startswith_iff)
qed

lemma lower_char_idem [simp]: "lower_char (lower_char c) = lower_char c"
proof -
  have "of_char (char_of (of_char c + (32 :: nat)) :: char) = of_char c + (32 :: nat)"
    if "of_char c \<le> (90 :: nat)"
    using that by (simp add: take_bit_nat_eq_self)
  then show ?thesis by (auto simp: lower_char_def)
qed

lemma is_space_lower [simp]: "is_space (lower_char c) = is_space c"
proof -
  have "of_char (char_of (of_char c + (32 :: nat)) :: char) = of_char c + (32 :: nat)"
    if "of_char c \<le> (90 :: nat)"
    using that by (simp add: take_bit_nat_eq_self)
  then show ?thesis by (auto simp: lower_char_def is_space_def Let_def)
qed

lemma py_lower_idem [simp]: "py_lower (py_lower s) = py_lower s"
  by (simp add: py_lower_def comp_def)

lemma py_lower_Nil [simp]: "py_lower [] = []"
  by (simp add: py_lower_def)

lemma py_lower_eq_Nil [simp]: "py_lower s = [] \<longleftrightarrow> s = []"
  by (simp add: py_lower_def)

section \<open>First maximum by key\<close>

text \<open>\<open>max(xs, key=f)\<close>: the first element whose key no later element exceeds.\<close>

fun py_max_by :: "('a \<Rightarrow> 'b :: linorder) \<Rightarrow> 'a \<Rightarrow> 'a list \<Rightarrow> 'a" where
  "py_max_by f m [] = m"
| "py_max_by f m (x # xs) = py_max_by f (if f m < f x then x else m) xs"

lemma py_max_by_in: "py_max_by f m xs \<in> insert m (set xs)"
proof (induction xs arbitrary: m)
  case (Cons x xs)
  show ?case using Cons.IH [of "if f m < f x then x else m"] by (auto split: if_splits)
qed simp

lemma py_max_by_ge: "y \<in> insert m (set xs) \<Longrightarrow> f y \<le> f (py_max_by f m xs)"
proof (induction xs arbitrary: m y)
  case (Cons x xs)
  let ?m = "if f m < f x then x else m"
  have "f ?m \<le> f (py_max_by f ?m xs)" using Cons.IH [of ?m ?m] by simp
  moreover have "f m \<le> f ?m" and "f x \<le> f ?m" by auto
  ultimately have "f m \<le> f (py_max_by f ?m xs)" and "f x \<le> f (py_max_by f ?m xs)"
    by (meson order_trans)+
  moreover have "y \<in> set xs \<Longrightarrow> f y \<le> f (py_max_by f ?m xs)"
    using Cons.IH [of y ?m] by simp
  ultimately show ?case using Cons.prems by auto
qed auto

section \<open>Tables: rows with a key\<close>

text \<open>
  \<open>find_row\<close> is a \<open>SELECT\<close> that returns the first row meeting a condition;
  \<open>update_where\<close> is one \<open>UPDATE ... WHERE\<close> statement and \<open>count_where\<close> its \<open>rowcount\<close>.
\<close>

definition find_row :: "('r \<Rightarrow> bool) \<Rightarrow> 'r list \<Rightarrow> 'r option" where
  "find_row P rows = List.find P rows"

definition update_where :: "('r \<Rightarrow> bool) \<Rightarrow> ('r \<Rightarrow> 'r) \<Rightarrow> 'r list \<Rightarrow> 'r list" where
  "update_where P f rows = map (\<lambda>r. if P r then f r else r) rows"

definition count_where :: "('r \<Rightarrow> bool) \<Rightarrow> 'r list \<Rightarrow> nat" where
  "count_where P rows = length (filter P rows)"

definition unique_key :: "('r \<Rightarrow> 'k) \<Rightarrow> 'r list \<Rightarrow> bool" where
  "unique_key key rows = distinct (map key rows)"

lemma find_row_Some: "find_row P rows = Some r \<Longrightarrow> r \<in> set rows \<and> P r"
  by (auto simp: find_row_def find_Some_iff)

lemma find_row_None: "find_row P rows = None \<longleftrightarrow> (\<forall>r \<in> set rows. \<not> P r)"
  by (auto simp: find_row_def find_None_iff)

lemma find_row_key:
  assumes "unique_key key rows" and "r \<in> set rows"
  shows "find_row (\<lambda>x. key x = key r) rows = Some r"
  using assms by (induction rows) (auto simp: find_row_def unique_key_def)

lemma unique_key_eq:
  "unique_key key rows \<Longrightarrow> r \<in> set rows \<Longrightarrow> s \<in> set rows \<Longrightarrow> key r = key s \<Longrightarrow> r = s"
  unfolding unique_key_def by (metis (full_types) distinct_map inj_on_def)

lemma set_update_where: "set (update_where P f rows) = (\<lambda>r. if P r then f r else r) ` set rows"
  by (simp add: update_where_def)

lemma map_update_where_key:
  "(\<And>r. P r \<Longrightarrow> key (f r) = key r) \<Longrightarrow> map key (update_where P f rows) = map key rows"
  by (auto simp: update_where_def)

lemma unique_key_update_where:
  "(\<And>r. P r \<Longrightarrow> key (f r) = key r) \<Longrightarrow> unique_key key (update_where P f rows) = unique_key key rows"
  by (simp add: unique_key_def map_update_where_key)

lemma update_where_none: "\<forall>r \<in> set rows. \<not> P r \<Longrightarrow> update_where P f rows = rows"
  by (induction rows) (auto simp: update_where_def)

lemma count_where_0: "count_where P rows = 0 \<longleftrightarrow> (\<forall>r \<in> set rows. \<not> P r)"
  by (auto simp: count_where_def filter_empty_conv)

text \<open>The key selects at most one row, so a keyed \<open>UPDATE\<close> touches one row or none.\<close>

lemma count_where_key_le1:
  assumes "unique_key key rows"
  shows "count_where (\<lambda>r. key r = k \<and> P r) rows \<le> 1"
  using assms
proof (induction rows)
  case (Cons a rows)
  show ?case
  proof (cases "key a = k \<and> P a")
    case True
    with Cons.prems have "\<forall>r \<in> set rows. \<not> (key r = k \<and> P r)"
      unfolding unique_key_def by (metis distinct.simps(2) image_eqI list.set_map list.simps(9))
    then have "count_where (\<lambda>r. key r = k \<and> P r) rows = 0" by (simp add: count_where_0)
    then show ?thesis using True by (simp add: count_where_def)
  next
    case False
    with Cons show ?thesis by (auto simp: count_where_def unique_key_def)
  qed
qed (simp add: count_where_def)

lemma count_where_key_1:
  assumes "unique_key key rows"
  shows "count_where (\<lambda>r. key r = k \<and> P r) rows = 1 \<longleftrightarrow> (\<exists>r \<in> set rows. key r = k \<and> P r)"
proof -
  let ?n = "count_where (\<lambda>r. key r = k \<and> P r) rows"
  have "?n \<le> 1" by (rule count_where_key_le1 [OF assms])
  moreover have "?n = 0 \<longleftrightarrow> \<not> (\<exists>r \<in> set rows. key r = k \<and> P r)"
    by (simp add: count_where_0)
  ultimately show ?thesis by linarith
qed

lemma find_row_key_iff:
  "unique_key key rows \<Longrightarrow> find_row (\<lambda>x. key x = k) rows = Some r \<longleftrightarrow> r \<in> set rows \<and> key r = k"
  using find_row_key [of key rows r] find_row_Some [of "\<lambda>x. key x = k" rows r] by auto

lemma find_row_append:
  "find_row P (xs @ ys) = (case find_row P xs of None \<Rightarrow> find_row P ys | Some r \<Rightarrow> Some r)"
  by (induction xs) (auto simp: find_row_def)

lemma find_row_update_where_key:
  assumes "\<And>r. P r \<Longrightarrow> key (f r) = key r"
  shows "find_row (\<lambda>x. key x = k) (update_where P f rows) =
    map_option (\<lambda>r. if P r then f r else r) (find_row (\<lambda>x. key x = k) rows)"
  using assms by (induction rows) (auto simp: find_row_def update_where_def)

lemma update_where_twice:
  "(\<And>r. P r \<Longrightarrow> P (g r)) \<Longrightarrow>
    update_where P f (update_where P g rows) = update_where P (\<lambda>r. f (g r)) rows"
  by (auto simp: update_where_def)

lemma update_where_cong:
  "(\<And>r. r \<in> set rows \<Longrightarrow> (if P r then f r else r) = (if Q r then g r else r)) \<Longrightarrow>
    update_where P f rows = update_where Q g rows"
  by (simp add: update_where_def)

lemma unique_key_append:
  "unique_key key (rows @ [r]) \<longleftrightarrow> unique_key key rows \<and> key r \<notin> key ` set rows"
  by (auto simp: unique_key_def)

lemma update_where_ball:
  "(\<forall>q \<in> set (update_where P f rows). Q q) \<longleftrightarrow> (\<forall>r \<in> set rows. if P r then Q (f r) else Q r)"
  by (auto simp: set_update_where split: if_splits)

text \<open>
  A keyed conditional \<open>UPDATE\<close> is a compare-and-set on the one row with that key: it reports one
  row exactly when the row exists and meets the condition, and then writes that row.
\<close>

lemma keyed_update:
  assumes "unique_key key rows"
  shows "count_where (\<lambda>r. key r = k \<and> P r) rows = 1 \<longleftrightarrow>
      (\<exists>r. find_row (\<lambda>x. key x = k) rows = Some r \<and> P r)"
    and "find_row (\<lambda>x. key x = k) rows = Some r \<Longrightarrow> P r \<Longrightarrow>
      update_where (\<lambda>r. key r = k \<and> P r) f rows = update_where (\<lambda>r. key r = k) f rows"
proof -
  show "count_where (\<lambda>r. key r = k \<and> P r) rows = 1 \<longleftrightarrow>
      (\<exists>r. find_row (\<lambda>x. key x = k) rows = Some r \<and> P r)"
    unfolding count_where_key_1 [OF assms] find_row_key_iff [OF assms] by auto
  assume "find_row (\<lambda>x. key x = k) rows = Some r" and "P r"
  then show "update_where (\<lambda>r. key r = k \<and> P r) f rows = update_where (\<lambda>r. key r = k) f rows"
    using assms unique_key_eq [OF assms] by (intro update_where_cong) (auto simp: find_row_key_iff)
qed

end
