(* ===== verification/Issue_Classification.thy ===== *)
theory Issue_Classification
  imports Mbs_Prelude
begin

text \<open>
  Detection versus vulnerability, \<open>modules/reports/classification.py\<close>, and the fingerprint
  parser of \<open>modules/reports/data.py\<close>. A report row is the record \<open>finding\<close>; an attribute
  that a row-like object may lack (\<open>getattr\<close> with a default) is an option. Scores are reals:
  the code's floats without their rounding.
\<close>

section \<open>Report rows\<close>

text \<open>The \<open>tags\<close> attribute is a comma-separated string or a list of strings.\<close>

datatype tags = TagStr string | TagList "string list"

record finding =
  f_template_id :: "string option"
  f_title :: "string option"
  f_severity :: "string option"
  f_status :: "string option"
  f_matched_at :: "string option"
  f_cvss_score :: "real option"
  f_final_risk_score :: "real option"
  f_category :: "string option"
  f_tags :: "tags option"
  f_cve :: "string option"

section \<open>The classifier\<close>

definition VULNERABILITY :: string where "VULNERABILITY = ''vulnerability''"
definition DETECTION :: string where "DETECTION = ''detection''"

definition DETECTION_TEMPLATE_MARKERS :: "string list" where
  "DETECTION_TEMPLATE_MARKERS =
     [''detect'', ''fingerprint'', ''-eol'', ''-version'', ''version-detect'']"

definition DETECTION_TEMPLATE_PREFIXES :: "string list" where
  "DETECTION_TEMPLATE_PREFIXES = [''tech-'', ''waf-'']"

definition DETECTION_TAGS :: "string list" where
  "DETECTION_TAGS =
     [''tech'', ''detect'', ''detection'', ''waf'', ''fingerprint'', ''fingerprints'', ''favicon'']"

definition EXPLOIT_TAGS :: "string list" where
  "EXPLOIT_TAGS =
     [''sqli'', ''xss'', ''rce'', ''ssti'', ''lfi'', ''ssrf'', ''injection'', ''cve'', ''csrf'',
      ''auth-bypass'', ''default-login'', ''default-logins'', ''takeover'', ''deserialization'']"

definition norm_tags :: "tags option \<Rightarrow> string list" where
  "norm_tags tags =
     (let parts = (case tags of None \<Rightarrow> []
                   | Some (TagStr s) \<Rightarrow> split_ws (map (\<lambda>c. if c = CHR '','' then CHR '' '' else c) s)
                   | Some (TagList ts) \<Rightarrow> ts)
      in map (\<lambda>t. py_lower (py_strip t)) (filter (\<lambda>t. py_strip t \<noteq> []) parts))"

definition template_looks_like_detection :: "string option \<Rightarrow> bool" where
  "template_looks_like_detection template_id =
     (if \<not> truthy template_id then False
      else let t = py_lower (py_strip (or_empty template_id)) in
        if list_ex (\<lambda>p. py_startswith t p) DETECTION_TEMPLATE_PREFIXES then True
        else list_ex (\<lambda>m. py_contains m t) DETECTION_TEMPLATE_MARKERS)"

text \<open>
  \<open>_CVE_RE = cve[-_]\\d{4}[-_]\\d{4,7}\<close>, case-insensitive. \<open>match_cve\<close> is the match at
  the start of a string (greedy in the last group), \<open>cve_search\<close> the leftmost match.
\<close>

definition is_cve_sep :: "char \<Rightarrow> bool" where
  "is_cve_sep c = (c = CHR ''-'' \<or> c = CHR ''_'')"

definition match_cve :: "string \<Rightarrow> string option" where
  "match_cve s =
     (if 13 \<le> length s \<and> py_lower (take 3 s) = ''cve'' \<and> is_cve_sep (s ! 3)
         \<and> list_all is_digit_char (take 4 (drop 4 s)) \<and> is_cve_sep (s ! 8)
         \<and> list_all is_digit_char (take 4 (drop 9 s))
      then Some (take (9 + min 7 (length (takeWhile is_digit_char (drop 9 s)))) s) else None)"

fun cve_search :: "string \<Rightarrow> string option" where
  "cve_search [] = None"
| "cve_search (c # s) = (case match_cve (c # s) of Some m \<Rightarrow> Some m | None \<Rightarrow> cve_search s)"

fun recover_cve :: "string option list \<Rightarrow> string option" where
  "recover_cve [] = None"
| "recover_cve (value # candidates) =
     (if \<not> truthy value then recover_cve candidates
      else (case cve_search (or_empty value) of
              Some m \<Rightarrow> Some m | None \<Rightarrow> recover_cve candidates))"

text \<open>\<open>category\<close> (the CWE) is a parameter of \<open>classify\<close>, and no branch reads it.\<close>

definition classify ::
  "string option \<Rightarrow> real option \<Rightarrow> string option \<Rightarrow> tags option \<Rightarrow> string option \<Rightarrow> string" where
  "classify template_id cvss_score category tgs cve =
     (let tag_set = set (norm_tags tgs) in
      if (case cvss_score of None \<Rightarrow> False | Some v \<Rightarrow> 0 < v) then VULNERABILITY
      else if truthy cve then VULNERABILITY
      else if tag_set \<inter> set EXPLOIT_TAGS \<noteq> {} then VULNERABILITY
      else if template_looks_like_detection template_id then DETECTION
      else if tag_set \<noteq> {} \<and> tag_set \<subseteq> set DETECTION_TAGS then DETECTION
      else VULNERABILITY)"

definition classify_row :: "finding \<Rightarrow> string" where
  "classify_row row =
     (let cve = (if truthy (f_cve row) then f_cve row
                 else recover_cve [f_template_id row, f_title row])
      in classify (f_template_id row) (f_cvss_score row) (f_category row) (f_tags row) cve)"

section \<open>The fingerprint parser\<close>

text \<open>
  \<open>fingerprint.split("|", 2)\<close>: at most two splits, so the third part keeps its own pipes. An
  empty part reads as \<open>None\<close>.
\<close>

definition none_if_empty :: "string \<Rightarrow> string option" where
  "none_if_empty s = (if s = [] then None else Some s)"

definition parse_fingerprint ::
  "string option \<Rightarrow> string option \<times> string option \<times> string option" where
  "parse_fingerprint fingerprint =
     (if \<not> truthy fingerprint then (None, None, None)
      else let (p0, r0) = partition_char (CHR ''|'') (or_empty fingerprint) in
        (case r0 of None \<Rightarrow> (none_if_empty p0, None, None)
         | Some s1 \<Rightarrow>
           (let (p1, r1) = partition_char (CHR ''|'') s1 in
            (case r1 of None \<Rightarrow> (none_if_empty p0, none_if_empty p1, None)
             | Some s2 \<Rightarrow> (none_if_empty p0, none_if_empty p1, none_if_empty s2)))))"

section \<open>Properties\<close>

lemma classes_distinct [simp]: "VULNERABILITY \<noteq> DETECTION" "DETECTION \<noteq> VULNERABILITY"
  by (simp_all add: VULNERABILITY_def DETECTION_def)

lemma classify_cases: "classify t c k g e = VULNERABILITY \<or> classify t c k g e = DETECTION"
  by (simp add: classify_def Let_def)

lemma classify_DETECTION_iff:
  "classify t c k g e = DETECTION \<longleftrightarrow>
     (\<forall>v. c = Some v \<longrightarrow> v \<le> 0) \<and> \<not> truthy e \<and> set (norm_tags g) \<inter> set EXPLOIT_TAGS = {}
     \<and> (template_looks_like_detection t
        \<or> (norm_tags g \<noteq> [] \<and> set (norm_tags g) \<subseteq> set DETECTION_TAGS))"
  by (auto simp: classify_def Let_def not_less split: option.splits)

lemma classify_category_irrelevant: "classify t c k g e = classify t c k' g e"
  by (simp add: classify_def)

lemma recover_cve_matches:
  "recover_cve vs = Some m \<Longrightarrow> \<exists>v \<in> set vs. truthy v \<and> cve_search (or_empty v) = Some m"
  by (induction vs) (auto split: if_splits option.splits)

lemma match_cve_nonempty: "match_cve s = Some m \<Longrightarrow> 13 \<le> length m"
proof -
  assume a: "match_cve s = Some m"
  then have l: "13 \<le> length s" and d: "list_all is_digit_char (take 4 (drop 9 s))"
    and m: "m = take (9 + min 7 (length (takeWhile is_digit_char (drop 9 s)))) s"
    by (auto simp: match_cve_def split: if_splits)
  have "takeWhile is_digit_char (drop 9 s)
        = take 4 (drop 9 s) @ takeWhile is_digit_char (drop 4 (drop 9 s))"
    using d by (metis append_take_drop_id list_all_iff takeWhile_append2)
  then have "4 \<le> length (takeWhile is_digit_char (drop 9 s))" using l by simp
  then show ?thesis using l m by simp
qed

lemma cve_search_nonempty: "cve_search s = Some m \<Longrightarrow> m \<noteq> []"
  by (induction s) (auto split: option.splits dest: match_cve_nonempty)

text \<open>
  What \<open>_recover_cve\<close> is for: a CVE id anywhere in the template id or title makes the row a
  vulnerability, whatever its name and tags say.
\<close>

lemma classify_row_recovered_cve:
  assumes "recover_cve [f_template_id row, f_title row] = Some m"
  shows "classify_row row = VULNERABILITY"
proof -
  from assms obtain v where "cve_search (or_empty v) = Some m"
    using recover_cve_matches by blast
  then have "m \<noteq> []" by (rule cve_search_nonempty)
  then have "truthy (if truthy (f_cve row) then f_cve row
                     else recover_cve [f_template_id row, f_title row])"
    using assms by simp
  then show ?thesis
    unfolding classify_row_def classify_def Let_def by auto
qed

lemma partition_char_eq:
  "partition_char c s = (a, Some b) \<longleftrightarrow> s = a @ c # b \<and> c \<notin> set a"
proof (induction s arbitrary: a)
  case (Cons x s)
  show ?case using Cons.IH [of "tl a"]
    by (cases a; cases "partition_char c s") auto
qed auto

lemma partition_char_None: "partition_char c s = (a, None) \<longleftrightarrow> s = a \<and> c \<notin> set a"
proof (induction s arbitrary: a)
  case (Cons x s)
  show ?case using Cons.IH [of "tl a"]
    by (cases a; cases "partition_char c s") auto
qed auto

lemma none_if_empty_or_empty [simp]: "or_empty (none_if_empty s) = s"
  by (simp add: none_if_empty_def)

end
