(* ===== verification/Issue_Scoring.thy ===== *)
theory Issue_Scoring
  imports Issue_Classification "HOL-Library.Multiset"
begin

text \<open>
  The security score, \<open>modules/reports/scoring.py\<close>: which findings count, how occurrences
  are grouped into issues, what one issue costs and how the costs combine. Floats are reals, so
  the lemmas speak about the arithmetic before floating-point rounding; the final \<open>round\<close> is
  Python's, half to even.
\<close>

section \<open>Constants and factors\<close>

definition ACTIVE_STATUSES :: "string list" where
  "ACTIVE_STATUSES = [''open'', ''confirmed'', ''reopened'']"

definition BASE_PENALTY :: "(string \<times> real) list" where
  "BASE_PENALTY = [(''critical'', 40), (''high'', 25), (''medium'', 10), (''low'', 4)]"

definition UNKNOWN_SEVERITY_PENALTY :: real where "UNKNOWN_SEVERITY_PENALTY = 4"
definition CVSS_NEUTRAL :: real where "CVSS_NEUTRAL = 75 / 100"
definition CVSS_SLOPE :: real where "CVSS_SLOPE = 5 / 100"
definition RISK_NEUTRAL :: real where "RISK_NEUTRAL = 85 / 100"
definition RISK_SLOPE :: real where "RISK_SLOPE = 3 / 100"
definition LOCATION_SLOPE :: real where "LOCATION_SLOPE = 35 / 100"
definition MAX_ISSUE_PENALTY :: real where "MAX_ISSUE_PENALTY = 65"

named_theorems scoring_consts \<open>The constants of the scoring model.\<close>

lemmas scoring_consts_defs [scoring_consts] =
  UNKNOWN_SEVERITY_PENALTY_def CVSS_NEUTRAL_def CVSS_SLOPE_def RISK_NEUTRAL_def RISK_SLOPE_def
  LOCATION_SLOPE_def MAX_ISSUE_PENALTY_def

definition cvss_factor :: "real option \<Rightarrow> real" where
  "cvss_factor max_cvss =
     (case max_cvss of None \<Rightarrow> 1 | Some v \<Rightarrow> CVSS_NEUTRAL + CVSS_SLOPE * max 0 (min 10 v))"

definition risk_factor :: "real option \<Rightarrow> real" where
  "risk_factor max_risk =
     (case max_risk of None \<Rightarrow> 1 | Some v \<Rightarrow> RISK_NEUTRAL + RISK_SLOPE * max 0 (min 10 v))"

definition location_factor :: "nat \<Rightarrow> real" where
  "location_factor location_count = 1 + LOCATION_SLOPE * ln (real (max 1 location_count))"

definition severity_rank :: "string option \<Rightarrow> nat" where
  "severity_rank severity =
     (case map_of [(''critical'', 4), (''high'', 3), (''medium'', 2), (''low'', 1)]
             (py_lower (or_empty severity)) of None \<Rightarrow> 0 | Some n \<Rightarrow> n)"

definition base_penalty :: "string option \<Rightarrow> real" where
  "base_penalty severity =
     (case map_of BASE_PENALTY (py_lower (or_empty severity)) of
        None \<Rightarrow> UNKNOWN_SEVERITY_PENALTY | Some p \<Rightarrow> p)"

section \<open>Which findings count\<close>

definition is_active :: "finding \<Rightarrow> bool" where
  "is_active finding =
     (case f_status finding of None \<Rightarrow> False | Some s \<Rightarrow> List.member ACTIVE_STATUSES s)"

definition is_scorable :: "finding \<Rightarrow> bool" where
  "is_scorable finding =
     (let severity = py_lower (or_empty (f_severity finding)) in
      if \<not> is_active finding \<or> severity = ''info'' then False
      else classify_row finding \<noteq> DETECTION)"

definition issue_key :: "finding \<Rightarrow> string" where
  "issue_key finding =
     (if truthy (f_template_id finding) then ''template:'' @ or_empty (f_template_id finding)
      else ''title:'' @ or_empty (f_title finding))"

section \<open>Grouping\<close>

record scored_issue =
  si_key :: string
  si_title :: "string option"
  si_severity :: "string option"
  si_location_count :: nat
  si_occurrence_count :: nat
  si_max_cvss :: "real option"
  si_max_risk :: "real option"
  si_penalty :: real

text \<open>\<open>buckets.setdefault(key, []).append(f)\<close>: an insertion-ordered dict.\<close>

fun bucket_add :: "string \<Rightarrow> 'a \<Rightarrow> (string \<times> 'a list) list \<Rightarrow> (string \<times> 'a list) list" where
  "bucket_add k f [] = [(k, [f])]"
| "bucket_add k f ((k', ms) # bs) =
     (if k' = k then (k', ms @ [f]) # bs else (k', ms) # bucket_add k f bs)"

definition buckets_of :: "finding list \<Rightarrow> (string \<times> finding list) list" where
  "buckets_of findings =
     foldl (\<lambda>bs f. if is_scorable f then bucket_add (issue_key f) f bs else bs) [] findings"

fun max_opt :: "real list \<Rightarrow> real option" where
  "max_opt [] = None"
| "max_opt (v # vs) = Some (py_max_by (\<lambda>x. x) v vs)"

definition location_count :: "finding list \<Rightarrow> nat" where
  "location_count members =
     (let located = remdups (map f_matched_at (filter (\<lambda>m. truthy (f_matched_at m)) members));
          unlocated = length (filter (\<lambda>m. \<not> truthy (f_matched_at m)) members)
      in max 1 (length located + unlocated))"

definition issue_penalty :: "string option \<Rightarrow> real option \<Rightarrow> real option \<Rightarrow> nat \<Rightarrow> real" where
  "issue_penalty severity max_cvss max_risk locations =
     min MAX_ISSUE_PENALTY
       (base_penalty severity * cvss_factor max_cvss * risk_factor max_risk
        * location_factor locations)"

definition rep_key :: "finding \<Rightarrow> nat \<times> nat \<times> string" where
  "rep_key m = (severity_rank (f_severity m), length (or_empty (f_title m)), or_empty (f_title m))"

text \<open>One bucket. A bucket always has a first member \<open>m0\<close>, since it is created by an append.\<close>

definition mk_issue :: "string \<Rightarrow> finding \<Rightarrow> finding list \<Rightarrow> scored_issue" where
  "mk_issue key m0 ms =
     (let members = m0 # ms;
          severity = f_severity (py_max_by (\<lambda>m. severity_rank (f_severity m)) m0 ms);
          locations = location_count members;
          max_cvss = max_opt (List.map_filter f_cvss_score members);
          max_risk = max_opt (List.map_filter f_final_risk_score members);
          rep = py_max_by rep_key m0 ms
      in \<lparr>si_key = key, si_title = f_title rep, si_severity = severity,
          si_location_count = locations, si_occurrence_count = length members,
          si_max_cvss = max_cvss, si_max_risk = max_risk,
          si_penalty = issue_penalty severity max_cvss max_risk locations\<rparr>)"

fun issues_of :: "(string \<times> finding list) list \<Rightarrow> scored_issue list" where
  "issues_of [] = []"
| "issues_of ((k, []) # bs) = issues_of bs"
| "issues_of ((k, m # ms) # bs) = mk_issue k m ms # issues_of bs"

definition group_issues :: "finding list \<Rightarrow> scored_issue list" where
  "group_issues findings =
     sort_key (\<lambda>i. (- si_penalty i, si_key i)) (issues_of (buckets_of findings))"

section \<open>The score\<close>

definition py_round :: "real \<Rightarrow> int" where
  "py_round x =
     (let f = \<lfloor>x\<rfloor>; d = x - of_int f in
      if d < 1 / 2 then f else if 1 / 2 < d then f + 1 else if even f then f else f + 1)"

definition remaining_factor :: "real \<Rightarrow> real" where
  "remaining_factor penalty = 1 - min MAX_ISSUE_PENALTY (max 0 penalty) / 100"

definition score_from_issues :: "scored_issue list \<Rightarrow> int" where
  "score_from_issues issues =
     (let remaining = foldl (\<lambda>r i. r * remaining_factor (si_penalty i)) 1 issues
      in max 0 (min 100 (py_round (100 * remaining))))"

definition compute_security_score :: "finding list \<Rightarrow> int" where
  "compute_security_score findings = score_from_issues (group_issues findings)"

section \<open>Arithmetic of the score\<close>

lemma remaining_factor_bounds: "35 / 100 \<le> remaining_factor p" "remaining_factor p \<le> 1"
  by (auto simp: remaining_factor_def MAX_ISSUE_PENALTY_def)

lemma remaining_factor_pos: "0 < remaining_factor p"
  using remaining_factor_bounds(1) [of p] by linarith

lemma foldl_mult: "foldl (\<lambda>r i. r * g i) (a :: real) xs = a * prod_list (map g xs)"
  by (induction xs arbitrary: a) (simp_all add: mult.assoc)

lemma score_prod:
  "score_from_issues iss =
     max 0 (min 100 (py_round (100 * prod_list (map (\<lambda>i. remaining_factor (si_penalty i)) iss))))"
  by (simp add: score_from_issues_def foldl_mult)

lemma score_bounds: "0 \<le> score_from_issues iss" "score_from_issues iss \<le> 100"
  by (simp_all add: score_from_issues_def Let_def)

lemma py_round_cases: "py_round x = \<lfloor>x\<rfloor> \<or> py_round x = \<lfloor>x\<rfloor> + 1"
  by (simp add: py_round_def Let_def)

lemma py_round_mono: "x \<le> y \<Longrightarrow> py_round x \<le> py_round y"
proof -
  assume le: "x \<le> y"
  show ?thesis
  proof (cases "\<lfloor>x\<rfloor> = \<lfloor>y\<rfloor>")
    case True
    with le show ?thesis by (auto simp: py_round_def Let_def)
  next
    case False
    with le have "\<lfloor>x\<rfloor> + 1 \<le> \<lfloor>y\<rfloor>" using floor_mono [OF le] by linarith
    with py_round_cases [of x] py_round_cases [of y] show ?thesis by linarith
  qed
qed

lemma py_round_of_int [simp]: "py_round (of_int n) = n"
  by (simp add: py_round_def)

lemma prod_factors_pos: "0 < prod_list (map (\<lambda>i. remaining_factor (si_penalty i)) iss)"
  by (induction iss) (simp_all add: remaining_factor_pos)

lemma prod_factors_le_1: "prod_list (map (\<lambda>i. remaining_factor (si_penalty i)) iss) \<le> 1"
proof (induction iss)
  case (Cons i iss)
  then show ?case
    using remaining_factor_bounds(2) [of "si_penalty i"] remaining_factor_pos [of "si_penalty i"]
      prod_factors_pos [of iss]
    by (simp add: mult_le_one)
qed simp

lemma score_mset: "mset iss = mset js \<Longrightarrow> score_from_issues iss = score_from_issues js"
proof -
  assume eq: "mset iss = mset js"
  have "prod_list (map g xs) = prod_mset (image_mset g (mset xs))" for g :: "scored_issue \<Rightarrow> real" and xs
    by (simp add: prod_mset_prod_list [symmetric])
  with eq show ?thesis by (simp add: score_prod)
qed

lemma score_add_issue: "score_from_issues (i # iss) \<le> score_from_issues iss"
proof -
  let ?p = "prod_list (map (\<lambda>i. remaining_factor (si_penalty i)) iss)"
  have "remaining_factor (si_penalty i) * ?p \<le> 1 * ?p"
    using remaining_factor_bounds(2) prod_factors_pos by (intro mult_right_mono) (auto intro: less_imp_le)
  then have "py_round (100 * (remaining_factor (si_penalty i) * ?p)) \<le> py_round (100 * ?p)"
    by (intro py_round_mono) simp
  then show ?thesis by (simp add: score_prod)
qed

section \<open>The cost of one issue\<close>

lemma location_factor_ge_1: "1 \<le> location_factor n"
  by (simp add: location_factor_def LOCATION_SLOPE_def)

lemma location_factor_mono: "m \<le> n \<Longrightarrow> location_factor m \<le> location_factor n"
  by (auto simp: location_factor_def LOCATION_SLOPE_def max_def)

lemma factors_pos: "0 < cvss_factor c" "0 < risk_factor r" "0 < location_factor n"
  using location_factor_ge_1 [of n]
  by (auto simp: cvss_factor_def risk_factor_def scoring_consts max_def min_def
      split: option.splits)

definition rank_base :: "nat \<Rightarrow> real" where
  "rank_base n = (if n = 4 then 40 else if n = 3 then 25 else if n = 2 then 10 else 4)"

lemma base_penalty_rank: "base_penalty s = rank_base (severity_rank s)"
  unfolding base_penalty_def severity_rank_def rank_base_def BASE_PENALTY_def
    UNKNOWN_SEVERITY_PENALTY_def by (simp split: if_split)

lemma base_penalty_pos: "4 \<le> base_penalty s"
  by (simp add: base_penalty_rank rank_base_def)

lemma issue_penalty_bounds: "0 < issue_penalty s c r n" "issue_penalty s c r n \<le> 65"
  using base_penalty_pos [of s] factors_pos
  by (auto simp: issue_penalty_def MAX_ISSUE_PENALTY_def)

lemma issue_penalty_mono_locations: "m \<le> n \<Longrightarrow> issue_penalty s c r m \<le> issue_penalty s c r n"
proof -
  assume "m \<le> n"
  then have "base_penalty s * cvss_factor c * risk_factor r * location_factor m
      \<le> base_penalty s * cvss_factor c * risk_factor r * location_factor n"
    using base_penalty_pos [of s] factors_pos(1) [of c] factors_pos(2) [of r] location_factor_mono
    by (intro mult_left_mono) auto
  then show ?thesis by (simp add: issue_penalty_def min_def)
qed

text \<open>The cost of a bucket as a function of the SET of its members and their locations.\<close>

definition max_of :: "('a \<Rightarrow> real option) \<Rightarrow> 'a set \<Rightarrow> real option" where
  "max_of f A = (let V = {v. \<exists>a \<in> A. f a = Some v} in if V = {} then None else Some (Max V))"

definition issue_cost :: "finding list \<Rightarrow> real" where
  "issue_cost ms =
     min MAX_ISSUE_PENALTY
       (rank_base (Max ((\<lambda>m. severity_rank (f_severity m)) ` set ms))
        * cvss_factor (max_of f_cvss_score (set ms)) * risk_factor (max_of f_final_risk_score (set ms))
        * location_factor (location_count ms))"

lemma py_max_by_Max:
  "f (py_max_by f m xs) = Max (f ` insert m (set xs))" for f :: "'a \<Rightarrow> 'b :: linorder"
proof (rule Max_eqI [symmetric])
  show "f (py_max_by f m xs) \<in> f ` insert m (set xs)" using py_max_by_in by (rule imageI)
  fix y
  assume "y \<in> f ` insert m (set xs)"
  then obtain x where "x \<in> insert m (set xs)" and "y = f x" by (rule imageE)
  then show "y \<le> f (py_max_by f m xs)" by (simp only: py_max_by_ge)
qed simp

lemma max_opt_max_of: "max_opt (List.map_filter f xs) = max_of f (set xs)"
proof -
  have s: "set (List.map_filter f xs) = {v. \<exists>a \<in> set xs. f a = Some v}"
    by (force simp: List.map_filter_def)
  show ?thesis
  proof (cases "List.map_filter f xs")
    case Nil
    with s show ?thesis by (simp add: max_of_def Let_def)
  next
    case (Cons v vs)
    with s have "{v. \<exists>a \<in> set xs. f a = Some v} = insert v (set vs)" by simp
    with Cons show ?thesis
      using py_max_by_Max [of "\<lambda>x. x" v vs] by (simp add: max_of_def Let_def)
  qed
qed

lemma mk_issue_penalty: "si_penalty (mk_issue k m ms) = issue_cost (m # ms)"
  using py_max_by_Max [of "\<lambda>m. severity_rank (f_severity m)" m ms]
  by (simp add: mk_issue_def Let_def issue_penalty_def issue_cost_def base_penalty_rank max_opt_max_of
      del: list.map_comp)

lemma mk_issue_key [simp]: "si_key (mk_issue k m ms) = k"
  by (simp add: mk_issue_def Let_def)

lemma location_count_mset: "mset xs = mset ys \<Longrightarrow> location_count xs = location_count ys"
proof -
  assume eq: "mset xs = mset ys"
  have "length (filter P xs) = length (filter P ys)" for P
    using arg_cong [OF eq, of "\<lambda>M. size (filter_mset P M)"] by (simp flip: mset_filter)
  moreover have "set xs = set ys" using eq by (rule mset_eq_setD)
  ultimately show ?thesis by (simp add: location_count_def length_remdups_card_conv)
qed

lemma issue_cost_mset: "mset xs = mset ys \<Longrightarrow> issue_cost xs = issue_cost ys"
  using location_count_mset [of xs ys] mset_eq_setD [of xs ys] by (simp add: issue_cost_def)

section \<open>Grouping, as a function of the key\<close>

definition members_of :: "string \<Rightarrow> finding list \<Rightarrow> finding list" where
  "members_of k fs = filter (\<lambda>f. is_scorable f \<and> issue_key f = k) fs"

definition issue_keys :: "finding list \<Rightarrow> string set" where
  "issue_keys fs = issue_key ` set (filter is_scorable fs)"

lemma fst_bucket_add: "fst ` set (bucket_add k f bs) = insert k (fst ` set bs)"
  by (induction k f bs rule: bucket_add.induct) auto

lemma distinct_bucket_add: "distinct (map fst bs) \<Longrightarrow> distinct (map fst (bucket_add k f bs))"
proof (induction k f bs rule: bucket_add.induct)
  case (2 k f k' ms bs)
  have "k' \<notin> fst ` set (bucket_add k f bs)" if "k' \<noteq> k"
    using 2 that by (simp add: fst_bucket_add)
  then show ?case using 2 by (cases "k' = k") auto
qed simp

lemma map_of_bucket_add:
  "map_of (bucket_add k f bs) =
     (map_of bs)(k \<mapsto> (case map_of bs k of None \<Rightarrow> [] | Some ms \<Rightarrow> ms) @ [f])"
  by (induction k f bs rule: bucket_add.induct) (auto simp: fun_eq_iff)

lemma buckets_of_snoc:
  "buckets_of (fs @ [f]) =
     (if is_scorable f then bucket_add (issue_key f) f (buckets_of fs) else buckets_of fs)"
  by (simp add: buckets_of_def)

lemma distinct_buckets: "distinct (map fst (buckets_of fs))"
proof (induction fs rule: rev_induct)
  case (snoc f fs)
  then show ?case by (simp add: buckets_of_snoc distinct_bucket_add)
qed (simp add: buckets_of_def)

lemma map_of_buckets:
  "map_of (buckets_of fs) k = (if members_of k fs = [] then None else Some (members_of k fs))"
proof (induction fs arbitrary: k rule: rev_induct)
  case (snoc f fs)
  have "(case map_of (buckets_of fs) k of None \<Rightarrow> [] | Some ms \<Rightarrow> ms) = members_of k fs" for k
    using snoc [of k] by simp
  then show ?case using snoc by (auto simp: buckets_of_snoc map_of_bucket_add members_of_def)
qed (simp add: buckets_of_def members_of_def)

lemma set_buckets: "set (buckets_of fs) = (\<lambda>k. (k, members_of k fs)) ` issue_keys fs"
proof -
  have "(k, ms) \<in> set (buckets_of fs) \<longleftrightarrow> k \<in> issue_keys fs \<and> ms = members_of k fs" for k ms
  proof -
    have "(k, ms) \<in> set (buckets_of fs) \<longleftrightarrow> map_of (buckets_of fs) k = Some ms"
      using distinct_buckets by (simp add: map_of_eq_Some_iff)
    moreover have "members_of k fs \<noteq> [] \<longleftrightarrow> k \<in> issue_keys fs"
      by (auto simp: members_of_def issue_keys_def filter_empty_conv)
    ultimately show ?thesis by (auto simp: map_of_buckets)
  qed
  then show ?thesis by auto
qed

lemma issues_of_nonempty:
  "\<forall>(k, ms) \<in> set bs. ms \<noteq> [] \<Longrightarrow>
     map si_key (issues_of bs) = map fst bs \<and> map si_penalty (issues_of bs) = map (issue_cost \<circ> snd) bs"
  by (induction bs rule: issues_of.induct) (auto simp: mk_issue_penalty)

lemma buckets_nonempty: "\<forall>(k, ms) \<in> set (buckets_of fs). ms \<noteq> []"
  by (auto simp: set_buckets members_of_def issue_keys_def filter_empty_conv)

lemma issue_keys_empty: "issue_keys fs = {} \<Longrightarrow> group_issues fs = []"
proof -
  assume "issue_keys fs = {}"
  then have "buckets_of fs = []" using set_buckets [of fs] by simp
  then show ?thesis by (simp add: group_issues_def)
qed

lemma keys_group_issues: "distinct (map si_key (group_issues fs))" "si_key ` set (group_issues fs) = issue_keys fs"
proof -
  have k: "map si_key (issues_of (buckets_of fs)) = map fst (buckets_of fs)"
    using issues_of_nonempty [OF buckets_nonempty] by blast
  have m: "mset (group_issues fs) = mset (issues_of (buckets_of fs))"
    by (simp add: group_issues_def)
  have "mset (map si_key (group_issues fs)) = mset (map fst (buckets_of fs))"
    using k m by (metis mset_map)
  then show "distinct (map si_key (group_issues fs))"
    using distinct_buckets mset_eq_imp_distinct_iff by blast
  have "si_key ` set (group_issues fs) = fst ` set (buckets_of fs)"
    using k m by (metis image_set mset_eq_setD)
  then show "si_key ` set (group_issues fs) = issue_keys fs"
    by (simp add: set_buckets image_image)
qed

text \<open>The declarative score: one factor per distinct issue key, whatever the order of the rows.\<close>

definition score_spec :: "finding list \<Rightarrow> int" where
  "score_spec fs =
     max 0 (min 100 (py_round (100 * (\<Prod>k \<in> issue_keys fs. remaining_factor (issue_cost (members_of k fs))))))"

lemma compute_security_score_spec: "compute_security_score fs = score_spec fs"
proof -
  let ?bs = "buckets_of fs"
  have m: "mset (group_issues fs) = mset (issues_of ?bs)"
    by (simp add: group_issues_def)
  have p: "map si_penalty (issues_of ?bs) = map (issue_cost \<circ> snd) ?bs"
    using issues_of_nonempty [OF buckets_nonempty] by blast
  have "prod_list (map (\<lambda>i. remaining_factor (si_penalty i)) (issues_of ?bs))
      = prod_list (map remaining_factor (map si_penalty (issues_of ?bs)))" by (simp add: comp_def)
  also have "\<dots> = prod_list (map (\<lambda>b. remaining_factor (issue_cost (snd b))) ?bs)"
    by (simp add: p comp_def)
  also have "\<dots> = (\<Prod>b \<in> set ?bs. remaining_factor (issue_cost (snd b)))"
    using distinct_buckets [of fs] by (simp add: prod.distinct_set_conv_list distinct_map)
  also have "\<dots> = (\<Prod>k \<in> issue_keys fs. remaining_factor (issue_cost (members_of k fs)))"
    by (simp add: set_buckets prod.reindex inj_on_def)
  finally have "score_from_issues (issues_of ?bs) = score_spec fs"
    by (simp add: score_prod score_spec_def)
  with score_mset [OF m] show ?thesis by (simp add: compute_security_score_def)
qed

end
