(* ===== verification/Remediation_Lifecycle.thy ===== *)
theory Remediation_Lifecycle
  imports Mbs_Prelude
begin

text \<open>
  The remediation lifecycle as data: the status vocabulary of \<open>modules/remediation/models.py\<close>
  and the transition table of \<open>modules/remediation/state_machine.py\<close>. Statuses are the strings
  that the column and the API carry, so an unknown status is a value like any other and has no
  legal target.
\<close>

section \<open>Vocabulary\<close>

definition STATUS_PROPOSED :: string where "STATUS_PROPOSED = ''proposed''"
definition STATUS_ACCEPTED :: string where "STATUS_ACCEPTED = ''accepted''"
definition STATUS_IN_PROGRESS :: string where "STATUS_IN_PROGRESS = ''in_progress''"
definition STATUS_AWAITING_VERIFICATION :: string where
  "STATUS_AWAITING_VERIFICATION = ''awaiting_verification''"
definition STATUS_VERIFIED :: string where "STATUS_VERIFIED = ''verified''"
definition STATUS_CLOSED :: string where "STATUS_CLOSED = ''closed''"
definition STATUS_RISK_ACCEPTED :: string where "STATUS_RISK_ACCEPTED = ''risk_accepted''"
definition STATUS_REJECTED :: string where "STATUS_REJECTED = ''rejected''"
definition STATUS_REOPENED :: string where "STATUS_REOPENED = ''reopened''"

named_theorems status_consts \<open>The status literals.\<close>

lemmas status_consts_defs [status_consts] =
  STATUS_PROPOSED_def STATUS_ACCEPTED_def STATUS_IN_PROGRESS_def STATUS_AWAITING_VERIFICATION_def
  STATUS_VERIFIED_def STATUS_CLOSED_def STATUS_RISK_ACCEPTED_def STATUS_REJECTED_def
  STATUS_REOPENED_def

definition REMEDIATION_STATUSES :: "string list" where
  "REMEDIATION_STATUSES =
     [STATUS_PROPOSED, STATUS_ACCEPTED, STATUS_IN_PROGRESS, STATUS_AWAITING_VERIFICATION,
      STATUS_VERIFIED, STATUS_CLOSED, STATUS_RISK_ACCEPTED, STATUS_REJECTED, STATUS_REOPENED]"

definition OPEN_STATUSES :: "string list" where
  "OPEN_STATUSES =
     [STATUS_PROPOSED, STATUS_ACCEPTED, STATUS_IN_PROGRESS, STATUS_AWAITING_VERIFICATION,
      STATUS_REOPENED]"

text \<open>\<open>service._RESOLVED_STATUSES\<close>.\<close>

definition RESOLVED_STATUSES :: "string list" where
  "RESOLVED_STATUSES = [STATUS_VERIFIED, STATUS_CLOSED, STATUS_RISK_ACCEPTED]"

definition REMEDIATION_PRIORITIES :: "string list" where
  "REMEDIATION_PRIORITIES = [''critical'', ''high'', ''medium'', ''low'']"

section \<open>The transition table\<close>

definition LEGAL_TRANSITIONS :: "(string \<times> string list) list" where
  "LEGAL_TRANSITIONS =
     [(STATUS_PROPOSED, [STATUS_ACCEPTED, STATUS_RISK_ACCEPTED, STATUS_REJECTED]),
      (STATUS_ACCEPTED, [STATUS_IN_PROGRESS, STATUS_RISK_ACCEPTED, STATUS_REJECTED]),
      (STATUS_IN_PROGRESS, [STATUS_AWAITING_VERIFICATION, STATUS_RISK_ACCEPTED]),
      (STATUS_AWAITING_VERIFICATION, [STATUS_VERIFIED, STATUS_IN_PROGRESS]),
      (STATUS_VERIFIED, [STATUS_CLOSED, STATUS_REOPENED]),
      (STATUS_CLOSED, [STATUS_REOPENED]),
      (STATUS_REOPENED, [STATUS_ACCEPTED, STATUS_IN_PROGRESS, STATUS_RISK_ACCEPTED]),
      (STATUS_RISK_ACCEPTED, [STATUS_REOPENED, STATUS_IN_PROGRESS]),
      (STATUS_REJECTED, [STATUS_PROPOSED])]"

definition GUARDED_TARGETS :: "string list" where
  "GUARDED_TARGETS = [STATUS_VERIFIED, STATUS_RISK_ACCEPTED]"

definition allowed_targets :: "string \<Rightarrow> string list" where
  "allowed_targets from_status =
     (case map_of LEGAL_TRANSITIONS from_status of None \<Rightarrow> [] | Some ts \<Rightarrow> ts)"

definition is_legal :: "string \<Rightarrow> string \<Rightarrow> bool" where
  "is_legal from_status to_status = List.member (allowed_targets from_status) to_status"

section \<open>Facts about the table\<close>

lemma status_distinct: "distinct REMEDIATION_STATUSES"
  by (simp add: REMEDIATION_STATUSES_def status_consts)

lemma status_neq [simp]:
  "STATUS_VERIFIED \<noteq> STATUS_RISK_ACCEPTED" "STATUS_RISK_ACCEPTED \<noteq> STATUS_VERIFIED"
  "STATUS_VERIFIED \<noteq> STATUS_CLOSED" "STATUS_CLOSED \<noteq> STATUS_VERIFIED"
  "STATUS_REOPENED \<noteq> STATUS_VERIFIED" "STATUS_VERIFIED \<noteq> STATUS_REOPENED"
  "STATUS_REOPENED \<noteq> STATUS_CLOSED" "STATUS_CLOSED \<noteq> STATUS_REOPENED"
  "STATUS_REOPENED \<noteq> STATUS_RISK_ACCEPTED" "STATUS_RISK_ACCEPTED \<noteq> STATUS_REOPENED"
  "STATUS_PROPOSED \<noteq> STATUS_VERIFIED" "STATUS_PROPOSED \<noteq> STATUS_CLOSED"
  "STATUS_PROPOSED \<noteq> STATUS_RISK_ACCEPTED"
  "STATUS_IN_PROGRESS \<noteq> STATUS_VERIFIED" "STATUS_IN_PROGRESS \<noteq> STATUS_CLOSED"
  "STATUS_IN_PROGRESS \<noteq> STATUS_RISK_ACCEPTED"
  "STATUS_AWAITING_VERIFICATION \<noteq> STATUS_VERIFIED"
  "STATUS_AWAITING_VERIFICATION \<noteq> STATUS_CLOSED"
  "STATUS_AWAITING_VERIFICATION \<noteq> STATUS_RISK_ACCEPTED"
  "STATUS_AWAITING_VERIFICATION \<noteq> STATUS_IN_PROGRESS"
  "STATUS_CLOSED \<noteq> STATUS_RISK_ACCEPTED" "STATUS_RISK_ACCEPTED \<noteq> STATUS_CLOSED"
  by (simp_all add: status_consts)

text \<open>The twenty edges of the graph.\<close>

lemma legal_edges [simp]:
  "is_legal STATUS_PROPOSED STATUS_ACCEPTED"
  "is_legal STATUS_PROPOSED STATUS_RISK_ACCEPTED"
  "is_legal STATUS_PROPOSED STATUS_REJECTED"
  "is_legal STATUS_ACCEPTED STATUS_IN_PROGRESS"
  "is_legal STATUS_ACCEPTED STATUS_RISK_ACCEPTED"
  "is_legal STATUS_ACCEPTED STATUS_REJECTED"
  "is_legal STATUS_IN_PROGRESS STATUS_AWAITING_VERIFICATION"
  "is_legal STATUS_IN_PROGRESS STATUS_RISK_ACCEPTED"
  "is_legal STATUS_AWAITING_VERIFICATION STATUS_VERIFIED"
  "is_legal STATUS_AWAITING_VERIFICATION STATUS_IN_PROGRESS"
  "is_legal STATUS_VERIFIED STATUS_CLOSED"
  "is_legal STATUS_VERIFIED STATUS_REOPENED"
  "is_legal STATUS_CLOSED STATUS_REOPENED"
  "is_legal STATUS_REOPENED STATUS_ACCEPTED"
  "is_legal STATUS_REOPENED STATUS_IN_PROGRESS"
  "is_legal STATUS_REOPENED STATUS_RISK_ACCEPTED"
  "is_legal STATUS_RISK_ACCEPTED STATUS_REOPENED"
  "is_legal STATUS_RISK_ACCEPTED STATUS_IN_PROGRESS"
  "is_legal STATUS_REJECTED STATUS_PROPOSED"
  by (simp_all add: is_legal_def allowed_targets_def LEGAL_TRANSITIONS_def status_consts)

text \<open>The table as pairs, for case analysis on a legal transition.\<close>

lemma is_legal_iff:
  "is_legal f t \<longleftrightarrow> (\<exists>ts. (f, ts) \<in> set LEGAL_TRANSITIONS \<and> t \<in> set ts)"
proof -
  have "distinct (map fst LEGAL_TRANSITIONS)"
    by (simp add: LEGAL_TRANSITIONS_def status_consts)
  then have "map_of LEGAL_TRANSITIONS f = Some ts \<longleftrightarrow> (f, ts) \<in> set LEGAL_TRANSITIONS" for ts
    by (simp add: map_of_eq_Some_iff)
  then show ?thesis by (force simp: is_legal_def allowed_targets_def split: option.splits)
qed

lemma is_legal_cases:
  assumes "is_legal f t"
  obtains "f = STATUS_PROPOSED" "t \<in> {STATUS_ACCEPTED, STATUS_RISK_ACCEPTED, STATUS_REJECTED}"
  | "f = STATUS_ACCEPTED" "t \<in> {STATUS_IN_PROGRESS, STATUS_RISK_ACCEPTED, STATUS_REJECTED}"
  | "f = STATUS_IN_PROGRESS" "t \<in> {STATUS_AWAITING_VERIFICATION, STATUS_RISK_ACCEPTED}"
  | "f = STATUS_AWAITING_VERIFICATION" "t \<in> {STATUS_VERIFIED, STATUS_IN_PROGRESS}"
  | "f = STATUS_VERIFIED" "t \<in> {STATUS_CLOSED, STATUS_REOPENED}"
  | "f = STATUS_CLOSED" "t = STATUS_REOPENED"
  | "f = STATUS_REOPENED" "t \<in> {STATUS_ACCEPTED, STATUS_IN_PROGRESS, STATUS_RISK_ACCEPTED}"
  | "f = STATUS_RISK_ACCEPTED" "t \<in> {STATUS_REOPENED, STATUS_IN_PROGRESS}"
  | "f = STATUS_REJECTED" "t = STATUS_PROPOSED"
  using assms unfolding is_legal_iff LEGAL_TRANSITIONS_def by auto

lemma is_legal_statuses:
  "is_legal f t \<Longrightarrow> f \<in> set REMEDIATION_STATUSES \<and> t \<in> set REMEDIATION_STATUSES"
  by (erule is_legal_cases) (auto simp: REMEDIATION_STATUSES_def)

lemma is_legal_irrefl: "\<not> is_legal s s"
proof
  assume "is_legal s s"
  then show False by (cases rule: is_legal_cases) (auto simp: status_consts)
qed

lemma is_legal_to_verified: "is_legal f STATUS_VERIFIED \<longleftrightarrow> f = STATUS_AWAITING_VERIFICATION"
proof
  assume "is_legal f STATUS_VERIFIED"
  then show "f = STATUS_AWAITING_VERIFICATION" by (cases rule: is_legal_cases) (auto simp: status_consts)
qed auto

lemma is_legal_to_closed: "is_legal f STATUS_CLOSED \<longleftrightarrow> f = STATUS_VERIFIED"
proof
  assume "is_legal f STATUS_CLOSED"
  then show "f = STATUS_VERIFIED" by (cases rule: is_legal_cases) (auto simp: status_consts)
qed auto

lemma is_legal_to_awaiting:
  "is_legal f STATUS_AWAITING_VERIFICATION \<longleftrightarrow> f = STATUS_IN_PROGRESS"
proof
  assume "is_legal f STATUS_AWAITING_VERIFICATION"
  then show "f = STATUS_IN_PROGRESS" by (cases rule: is_legal_cases) (auto simp: status_consts)
qed auto

lemma is_legal_to_reopened:
  "is_legal f STATUS_REOPENED \<longleftrightarrow> f \<in> {STATUS_VERIFIED, STATUS_CLOSED, STATUS_RISK_ACCEPTED}"
proof
  assume "is_legal f STATUS_REOPENED"
  then show "f \<in> {STATUS_VERIFIED, STATUS_CLOSED, STATUS_RISK_ACCEPTED}"
    by (cases rule: is_legal_cases) (auto simp: status_consts)
qed auto

lemma open_resolved_disjoint: "set OPEN_STATUSES \<inter> set RESOLVED_STATUSES = {}"
  by (auto simp: OPEN_STATUSES_def RESOLVED_STATUSES_def status_consts)

lemma open_resolved_rejected_cover:
  "set REMEDIATION_STATUSES = set OPEN_STATUSES \<union> set RESOLVED_STATUSES \<union> {STATUS_REJECTED}"
  by (auto simp: REMEDIATION_STATUSES_def OPEN_STATUSES_def RESOLVED_STATUSES_def)

text \<open>Paths through the table, driven by any sequence of legal transitions.\<close>

inductive legal_path :: "string \<Rightarrow> string \<Rightarrow> bool" where
  here: "legal_path s s"
| there: "is_legal s t \<Longrightarrow> legal_path t u \<Longrightarrow> legal_path s u"

lemma legal_path_trans: "legal_path s t \<Longrightarrow> legal_path t u \<Longrightarrow> legal_path s u"
  by (induction rule: legal_path.induct) (auto intro: legal_path.intros)

lemma legal_path_statuses:
  "legal_path s t \<Longrightarrow> s \<in> set REMEDIATION_STATUSES \<Longrightarrow> t \<in> set REMEDIATION_STATUSES"
  by (induction rule: legal_path.induct) (auto dest: is_legal_statuses)

lemma legal_step: "is_legal s t \<Longrightarrow> legal_path s t"
  by (blast intro: legal_path.intros)

lemma closed_from_in_progress: "legal_path STATUS_IN_PROGRESS STATUS_CLOSED"
  by (meson legal_edges legal_path.intros)

text \<open>The one-step successor relation decides where every status can still go.\<close>

lemma closed_from_any:
  assumes "s \<in> set REMEDIATION_STATUSES"
  shows "legal_path s STATUS_CLOSED"
proof -
  note ip = closed_from_in_progress
  have ac: "legal_path STATUS_ACCEPTED STATUS_CLOSED"
    and re: "legal_path STATUS_REOPENED STATUS_CLOSED"
    and ra: "legal_path STATUS_RISK_ACCEPTED STATUS_CLOSED"
    using ip by (auto intro: legal_path.there [rotated])
  moreover have pr: "legal_path STATUS_PROPOSED STATUS_CLOSED"
    using ac by (auto intro: legal_path.there [rotated])
  moreover have "legal_path STATUS_REJECTED STATUS_CLOSED"
    using pr by (auto intro: legal_path.there [rotated])
  moreover have "legal_path STATUS_AWAITING_VERIFICATION STATUS_CLOSED"
    and "legal_path STATUS_VERIFIED STATUS_CLOSED"
    by (meson legal_edges legal_path.intros)+
  ultimately show ?thesis
    using assms ip legal_path.here by (auto simp: REMEDIATION_STATUSES_def)
qed

end
