(* ===== verification/Row_Interfaces.thy ===== *)
theory Row_Interfaces
  imports Mbs_Prelude
begin

text \<open>
  The interfaces that services of the platform offer each other over database rows: versioned rows
  under compare-and-set, append-only logs, and claim fences. Each is stated once, with what its
  clients derive from it; the components interpret them on their own operations.
\<close>

text \<open>
  A store of versioned rows under a compare-and-set discipline: a step leaves a row alone or moves
  it to a larger version. A client that read a row and later finds its version unchanged knows the
  whole row is unchanged, across any number of steps by others.
\<close>

locale versioned_rows =
  fixes row :: "'s \<Rightarrow> 'k \<Rightarrow> 'r option"
    and version :: "'r \<Rightarrow> int"
    and step :: "'s \<Rightarrow> 's \<Rightarrow> bool"
  assumes step_row:
    "step s t \<Longrightarrow> row s k = Some r \<Longrightarrow> \<exists>r'. row t k = Some r' \<and> (r' = r \<or> version r < version r')"
begin

lemma run_row:
  assumes "step\<^sup>*\<^sup>* s t" and "row s k = Some r"
  shows "\<exists>r'. row t k = Some r' \<and> (r' = r \<or> version r < version r')"
  using assms
proof (induction rule: rtranclp_induct)
  case (step t u)
  then obtain r' where r': "row t k = Some r'" "r' = r \<or> version r < version r'" by blast
  from step_row [OF step.hyps(2) r'(1)] obtain r'' where
    "row u k = Some r''" "r'' = r' \<or> version r' < version r''" by blast
  with r'(2) show ?case by auto
qed simp

lemma version_mono:
  "step\<^sup>*\<^sup>* s t \<Longrightarrow> row s k = Some r \<Longrightarrow> row t k = Some r' \<Longrightarrow> version r \<le> version r'"
  using run_row by fastforce

lemma same_version_same_row:
  "step\<^sup>*\<^sup>* s t \<Longrightarrow> row s k = Some r \<Longrightarrow> row t k = Some r' \<Longrightarrow> version r' = version r \<Longrightarrow> r' = r"
  using run_row by fastforce

end

text \<open>An append-only log: entries are never changed, removed or reordered.\<close>

locale append_only =
  fixes log_of :: "'s \<Rightarrow> 'e list"
    and step :: "'s \<Rightarrow> 's \<Rightarrow> bool"
  assumes step_extends: "step s t \<Longrightarrow> \<exists>es. log_of t = log_of s @ es"
begin

lemma run_extends: "step\<^sup>*\<^sup>* s t \<Longrightarrow> \<exists>es. log_of t = log_of s @ es"
proof (induction rule: rtranclp_induct)
  case (step t u)
  then show ?case using step_extends by (metis append.assoc)
qed simp

lemma entry_stable:
  "step\<^sup>*\<^sup>* s t \<Longrightarrow> i < length (log_of s) \<Longrightarrow> log_of t ! i = log_of s ! i"
  using run_extends by (metis nth_append)

end

text \<open>
  A claim fence: one conditional \<open>UPDATE\<close> whose row count tells the caller whether it won. The
  state is free at most once, so of any sequence of claimants the first wins and no other does.
\<close>

locale claim_fence =
  fixes claim :: "'t \<Rightarrow> 's \<Rightarrow> bool \<times> 's"
    and free :: "'s \<Rightarrow> bool"
    and good :: "'s \<Rightarrow> bool"
  assumes wins_iff_free: "good s \<Longrightarrow> fst (claim t s) \<longleftrightarrow> free s"
    and claimed_not_free: "good s \<Longrightarrow> \<not> free (snd (claim t s))"
    and claimed_good: "good s \<Longrightarrow> good (snd (claim t s))"
begin

fun race :: "'t list \<Rightarrow> 's \<Rightarrow> bool list" where
  "race [] s = []"
| "race (t # ts) s = fst (claim t s) # race ts (snd (claim t s))"

lemma race_not_free: "good s \<Longrightarrow> \<not> free s \<Longrightarrow> race ts s = replicate (length ts) False"
proof (induction ts arbitrary: s)
  case (Cons t ts)
  then show ?case using wins_iff_free claimed_not_free claimed_good by simp
qed simp

lemma race_free:
  "good s \<Longrightarrow> race (t # ts) s = free s # replicate (length ts) False"
  using race_not_free claimed_not_free wins_iff_free claimed_good by simp

lemma at_most_one_winner: "good s \<Longrightarrow> length (filter id (race ts s)) \<le> 1"
proof (cases ts)
  case (Cons t ts')
  assume "good s"
  with Cons race_free [of s t ts'] show ?thesis by (simp add: filter_replicate)
qed simp

end

text \<open>
  A table under a step relation: a step moves each row along \<open>nxt\<close>, keeps its key and its invariant,
  and may append rows with fresh keys. Rows are never deleted, so a row read once can be found again
  after any run, related by a path of \<open>nxt\<close>.
\<close>

locale keyed_rows =
  fixes rows :: "'s \<Rightarrow> 'r list"
    and key :: "'r \<Rightarrow> 'k"
    and nxt :: "'r \<Rightarrow> 'r \<Rightarrow> bool"
    and ok :: "'r \<Rightarrow> bool"
    and step :: "'s \<Rightarrow> 's \<Rightarrow> bool"
  assumes step_rows: "step s t \<Longrightarrow> \<exists>f new. rows t = map f (rows s) @ new \<and> (\<forall>r \<in> set (rows s). nxt r (f r))
      \<and> (\<forall>r \<in> set new. ok r \<and> key r \<notin> key ` set (rows s)) \<and> unique_key key new"
    and next_key: "nxt r r' \<Longrightarrow> key r' = key r"
    and next_ok: "nxt r r' \<Longrightarrow> ok r \<Longrightarrow> ok r'"
begin

lemma step_unique:
  assumes st: "step s t" and u: "unique_key key (rows s)"
  shows "unique_key key (rows t)"
proof -
  from step_rows [OF st] obtain f new where f: "rows t = map f (rows s) @ new"
    "\<And>r. r \<in> set (rows s) \<Longrightarrow> nxt r (f r)" "\<forall>r \<in> set new. key r \<notin> key ` set (rows s)" "unique_key key new"
    by blast
  have ids: "map (\<lambda>r. key (f r)) (rows s) = map key (rows s)"
    using f(2) next_key by simp
  have "(\<lambda>r. key (f r)) ` set (rows s) = key ` set (rows s)"
    using arg_cong [OF ids, of set] by simp
  then have "set (map (\<lambda>r. key (f r)) (rows s)) \<inter> set (map key new) = {}"
    using f(3) by (simp add: disjoint_iff) blast
  then show ?thesis
    using u f(4) unfolding unique_key_def f(1) by (simp only: map_append map_map comp_def ids distinct_append)
qed

lemma step_ok:
  "step s t \<Longrightarrow> \<forall>r \<in> set (rows s). ok r \<Longrightarrow> \<forall>r \<in> set (rows t). ok r"
  using step_rows [of s t] next_ok by (fastforce simp: image_iff)

lemma run_unique: "step\<^sup>*\<^sup>* s t \<Longrightarrow> unique_key key (rows s) \<Longrightarrow> unique_key key (rows t)"
  by (induction rule: rtranclp_induct) (auto intro: step_unique)

lemma run_ok: "step\<^sup>*\<^sup>* s t \<Longrightarrow> \<forall>r \<in> set (rows s). ok r \<Longrightarrow> \<forall>r \<in> set (rows t). ok r"
  by (induction rule: rtranclp_induct) (use step_ok in auto)

lemma run_row:
  assumes "step\<^sup>*\<^sup>* s t" and "r \<in> set (rows s)"
  shows "\<exists>r' \<in> set (rows t). nxt\<^sup>*\<^sup>* r r'"
  using assms
proof (induction rule: rtranclp_induct)
  case (step t u)
  then obtain r' where r': "r' \<in> set (rows t)" "nxt\<^sup>*\<^sup>* r r'" by blast
  from step_rows [OF step.hyps(2)] r'(1) obtain r'' where "r'' \<in> set (rows u)" "nxt r' r''" by fastforce
  with r'(2) show ?case by (meson rtranclp.rtrancl_into_rtrancl)
qed auto

lemma path_key: "nxt\<^sup>*\<^sup>* r r' \<Longrightarrow> key r' = key r"
  by (induction rule: rtranclp_induct) (auto dest: next_key)

lemma run_find:
  assumes "step\<^sup>*\<^sup>* s t" and "unique_key key (rows s)" and "find_row (\<lambda>r. key r = k) (rows s) = Some r"
  shows "\<exists>r'. find_row (\<lambda>r. key r = k) (rows t) = Some r' \<and> nxt\<^sup>*\<^sup>* r r'"
proof -
  have r: "r \<in> set (rows s)" "key r = k" using find_row_Some [OF assms(3)] by auto
  from run_row [OF assms(1) r(1)] obtain r' where r': "r' \<in> set (rows t)" "nxt\<^sup>*\<^sup>* r r'" by blast
  moreover have "key r' = k" using path_key [OF r'(2)] r(2) by simp
  ultimately show ?thesis
    using find_row_key_iff [OF run_unique [OF assms(1,2)]] by blast
qed

end

end
