(* ===== verification/Remediation_Store.thy ===== *)
theory Remediation_Store
  imports Issue_Scoring Remediation_Lifecycle Row_Interfaces
begin

text \<open>
  The rows that the remediation workflow reads and writes (\<open>modules/remediation/models.py\<close>,
  \<open>risk_models.py\<close>, and the columns it reads of \<open>scans\<close>, \<open>tool_runs\<close>,
  \<open>vulnerabilities\<close> and \<open>workspace_members\<close>), gathered in one database state.

  A service call is a function from the state to an error or a result with the new state. An
  error is a raise before \<open>commit\<close>: the session is rolled back, so there is no new state.
  Queries carry their explicit predicates. The workspace filter that the ORM adds to every query
  removes rows of other workspaces only; it is written out where a query relies on it.
\<close>

section \<open>Errors of a request\<close>

datatype http_error =
    Http404 string
  | Http400 string
  | Http409 string
  | StaleVersion int "int option"   \<comment> \<open>expected version, version found\<close>
  | IntegrityError string

section \<open>Rows\<close>

record rem_item =
  ri_id :: uuid
  ri_workspace_id :: uuid
  ri_project_id :: uuid
  ri_issue_key :: string
  ri_vulnerability_id :: "uuid option"
  ri_title :: "string option"
  ri_status :: string
  ri_priority :: string
  ri_assignee_user_id :: "uuid option"
  ri_due_date :: "time option"
  ri_notes :: "string option"
  ri_notes_source :: "string option"
  ri_source :: string
  ri_resolved_at :: "time option"
  ri_verified_at :: "time option"
  ri_version :: int
  ri_created_by :: "uuid option"
  ri_created_at :: time
  ri_updated_at :: time

record rem_event =
  ev_workspace_id :: uuid
  ev_item_id :: uuid
  ev_type :: string
  ev_from_status :: "string option"
  ev_to_status :: "string option"
  ev_actor_user_id :: "uuid option"
  ev_detail :: "fstring option"

record audit_row =
  au_workspace_id :: uuid
  au_actor_user_id :: "uuid option"
  au_action :: string
  au_resource_type :: string
  au_resource_id :: "uuid option"
  au_detail :: "fstring option"
  au_outcome :: "string option"

text \<open>The structured basis of a verdict, \<open>verification_requests.detail\<close>.\<close>

record verdict_detail =
  vd_scan_id :: uuid
  vd_issue_key :: string
  vd_live_locations :: nat
  vd_baseline_locations :: "string list"
  vd_coverage_ok :: bool
  vd_uncovered_locations :: "string list"
  vd_evaluated_at :: time

record verif_request =
  vr_id :: uuid
  vr_workspace_id :: uuid
  vr_item_id :: uuid
  vr_status :: string
  vr_result :: "string option"
  vr_scan_id :: "uuid option"
  vr_requested_by :: "uuid option"
  vr_claimed_by_token :: "uuid option"
  vr_claimed_at :: "time option"
  vr_completed_at :: "time option"
  vr_detail :: "verdict_detail option"
  vr_baseline_locations :: "string list"

record risk_acceptance =
  ra_id :: uuid
  ra_workspace_id :: uuid
  ra_project_id :: uuid
  ra_vulnerability_id :: uuid
  ra_item_id :: "uuid option"
  ra_justification :: string
  ra_accepted_by :: "uuid option"
  ra_approved_by :: "uuid option"
  ra_expires_at :: time
  ra_review_due_at :: "time option"
  ra_status :: string
  ra_revoked_by :: "uuid option"
  ra_revoked_at :: "time option"
  ra_revoke_reason :: "string option"
  ra_created_at :: time

record scan_row =
  sc_id :: uuid
  sc_workspace_id :: uuid
  sc_project_id :: uuid
  sc_status :: string

record tool_run_row =
  tr_scan_id :: uuid
  tr_tool_name :: string
  tr_status :: string

record vuln_row =
  vu_id :: uuid
  vu_project_id :: uuid
  vu_fingerprint :: "string option"
  vu_title :: "string option"
  vu_severity :: "string option"
  vu_status :: "string option"
  vu_cvss_score :: "real option"
  vu_category :: "string option"
  vu_last_seen_scan_id :: "uuid option"

text \<open>
  The database. The first block is owned by the workflow; the second is written by the scanner
  and by other modules and is only read here. \<open>db_next\<close> is the next unused primary key.
\<close>

record rem_db =
  db_items :: "rem_item list"
  db_events :: "rem_event list"
  db_audits :: "audit_row list"
  db_requests :: "verif_request list"
  db_acceptances :: "risk_acceptance list"
  db_next :: uuid
  db_members :: "(uuid \<times> uuid) list"      \<comment> \<open>workspace, user\<close>
  db_projects :: "(uuid \<times> uuid) list"     \<comment> \<open>project, workspace\<close>
  db_scans :: "scan_row list"
  db_tool_runs :: "tool_run_row list"
  db_vulns :: "vuln_row list"

section \<open>Audit\<close>

definition OUTCOME_SUCCESS :: string where "OUTCOME_SUCCESS = ''success''"
definition OUTCOME_FAILURE :: string where "OUTCOME_FAILURE = ''failure''"
definition OUTCOME_DENIED :: string where "OUTCOME_DENIED = ''denied''"

text \<open>
  \<open>audit.service.record\<close> appends one row in the caller's transaction. Its callers here pass only
  valid outcomes; the redaction of credentials in \<open>detail\<close> and the copy of the actor's email are
  not part of the workflow's state.
\<close>

definition audit_record ::
  "uuid \<Rightarrow> uuid option \<Rightarrow> string \<Rightarrow> string \<Rightarrow> uuid option \<Rightarrow> fstring option \<Rightarrow> string option
   \<Rightarrow> rem_db \<Rightarrow> rem_db" where
  "audit_record workspace actor action rtype rid detail outcome db =
     db\<lparr>db_audits := db_audits db @
          [\<lparr>au_workspace_id = workspace, au_actor_user_id = actor, au_action = action,
            au_resource_type = rtype, au_resource_id = rid, au_detail = detail,
            au_outcome = outcome\<rparr>]\<rparr>"

end
