(* ===== verification/Remediation_Service.thy ===== *)
theory Remediation_Service
  imports Remediation_Store
begin

text \<open>
  \<open>modules/remediation/service.py\<close>: the remediation workflow's shared write discipline
  (record, compare-and-set, flush), creation of items from the report's issues, the reads and the
  human mutations.

  Every mutation is split where the code is: the lookup reads a row from one state of the
  database (\<open>get_item\<close>), and the body works on that in-memory row and on the state the database
  has by then. Called on one state they give the request run alone; called on two they give the
  request interleaved with others. A request reads the clock once, \<open>now\<close>.
\<close>

section \<open>Writes\<close>

definition record_event ::
  "rem_item \<Rightarrow> string \<Rightarrow> uuid option \<Rightarrow> string option \<Rightarrow> string option \<Rightarrow> fstring option
   \<Rightarrow> rem_db \<Rightarrow> rem_db" where
  "record_event item event_type actor from_status to_status detail db =
     db\<lparr>db_events := db_events db @
          [\<lparr>ev_workspace_id = ri_workspace_id item, ev_item_id = ri_id item, ev_type = event_type,
            ev_from_status = from_status, ev_to_status = to_status, ev_actor_user_id = actor,
            ev_detail = detail\<rparr>]\<rparr>"

definition update_items :: "(rem_item \<Rightarrow> bool) \<Rightarrow> (rem_item \<Rightarrow> rem_item) \<Rightarrow> rem_db \<Rightarrow> rem_db" where
  "update_items P f db = db\<lparr>db_items := update_where P f (db_items db)\<rparr>"

definition item_row :: "rem_db \<Rightarrow> uuid \<Rightarrow> rem_item option" where
  "item_row db i = find_row (\<lambda>r. ri_id r = i) (db_items db)"

text \<open>The optimistic lock: one conditional \<open>UPDATE\<close>, decided by its row count.\<close>

definition bump_version :: "time \<Rightarrow> rem_item \<Rightarrow> int \<Rightarrow> rem_db \<Rightarrow> http_error + rem_db" where
  "bump_version now item expected db =
     (let P = (\<lambda>r. ri_id r = ri_id item \<and> ri_version r = expected) in
      if count_where P (db_items db) \<noteq> 1
      then Inl (StaleVersion expected (map_option ri_version (item_row db (ri_id item))))
      else Inr (update_items P (\<lambda>r. r\<lparr>ri_version := expected + 1, ri_updated_at := now\<rparr>) db))"

text \<open>
  The ORM's unit of work: \<open>UPDATE ... WHERE id\<close> with the attributes whose value differs from the
  one loaded, and only those. The version and the timestamps of the row are written by
  \<open>bump_version\<close>, in the same transaction.
\<close>

definition flush_row :: "rem_item \<Rightarrow> rem_item \<Rightarrow> rem_item \<Rightarrow> rem_item" where
  "flush_row loaded cur r =
     r\<lparr>ri_status := (if ri_status cur = ri_status loaded then ri_status r else ri_status cur),
       ri_priority := (if ri_priority cur = ri_priority loaded then ri_priority r else ri_priority cur),
       ri_assignee_user_id := (if ri_assignee_user_id cur = ri_assignee_user_id loaded
         then ri_assignee_user_id r else ri_assignee_user_id cur),
       ri_due_date := (if ri_due_date cur = ri_due_date loaded then ri_due_date r else ri_due_date cur),
       ri_notes := (if ri_notes cur = ri_notes loaded then ri_notes r else ri_notes cur),
       ri_notes_source := (if ri_notes_source cur = ri_notes_source loaded
         then ri_notes_source r else ri_notes_source cur),
       ri_resolved_at := (if ri_resolved_at cur = ri_resolved_at loaded
         then ri_resolved_at r else ri_resolved_at cur),
       ri_verified_at := (if ri_verified_at cur = ri_verified_at loaded
         then ri_verified_at r else ri_verified_at cur)\<rparr>"

definition orm_flush :: "rem_item \<Rightarrow> rem_item \<Rightarrow> rem_db \<Rightarrow> rem_db" where
  "orm_flush loaded cur db = update_items (\<lambda>r. ri_id r = ri_id loaded) (flush_row loaded cur) db"

text \<open>\<open>db.refresh(item)\<close> after the commit: the row as stored.\<close>

definition refresh :: "rem_item \<Rightarrow> rem_db \<Rightarrow> rem_item" where
  "refresh item db = (case item_row db (ri_id item) of None \<Rightarrow> item | Some r \<Rightarrow> r)"

section \<open>Resolution\<close>

definition require_workspace_member :: "uuid \<Rightarrow> uuid \<Rightarrow> rem_db \<Rightarrow> http_error + unit" where
  "require_workspace_member workspace user db =
     (if List.member (db_members db) (workspace, user) then Inr ()
      else Inl (Http400 ''Assignee must be a member of this workspace''))"

definition get_project :: "uuid \<Rightarrow> uuid \<Rightarrow> rem_db \<Rightarrow> http_error + unit" where
  "get_project workspace project db =
     (if List.member (db_projects db) (project, workspace) then Inr ()
      else Inl (Http404 ''Project not found''))"

definition get_item :: "uuid \<Rightarrow> uuid \<Rightarrow> uuid \<Rightarrow> rem_db \<Rightarrow> http_error + rem_item" where
  "get_item workspace project item_id db =
     (case find_row (\<lambda>r. ri_id r = item_id \<and> ri_project_id r = project \<and> ri_workspace_id r = workspace)
             (db_items db) of
        None \<Rightarrow> Inl (Http404 ''Remediation item not found'')
      | Some item \<Rightarrow> Inr item)"

section \<open>Creation from the report's issues\<close>

definition seed_priority :: "string option \<Rightarrow> string" where
  "seed_priority severity =
     (let sev = py_lower (or_empty severity) in
      if List.member REMEDIATION_PRIORITIES sev then sev else ''medium'')"

text \<open>\<open>rep_vuln_by_key.setdefault\<close>: the first scorable row of each issue.\<close>

fun rep_vulns :: "(uuid \<times> finding) list \<Rightarrow> (string \<times> uuid) list \<Rightarrow> (string \<times> uuid) list" where
  "rep_vulns [] reps = reps"
| "rep_vulns ((v, f) # rows) reps =
     rep_vulns rows
       (if \<not> is_scorable f then reps
        else (case map_of reps (issue_key f) of
                None \<Rightarrow> reps @ [(issue_key f, v)] | Some _ \<Rightarrow> reps))"

definition create_item ::
  "time \<Rightarrow> uuid \<Rightarrow> uuid \<Rightarrow> uuid option \<Rightarrow> (string \<times> uuid) list \<Rightarrow> scored_issue \<Rightarrow> rem_db
   \<Rightarrow> http_error + rem_item \<times> rem_db" where
  "create_item now workspace project actor reps issue db =
     (let item = \<lparr>ri_id = db_next db, ri_workspace_id = workspace, ri_project_id = project,
                  ri_issue_key = si_key issue, ri_vulnerability_id = map_of reps (si_key issue),
                  ri_title = si_title issue, ri_status = STATUS_PROPOSED,
                  ri_priority = seed_priority (si_severity issue), ri_assignee_user_id = None,
                  ri_due_date = None, ri_notes = None, ri_notes_source = None,
                  ri_source = ''system'', ri_resolved_at = None, ri_verified_at = None,
                  ri_version = 1, ri_created_by = actor, ri_created_at = now,
                  ri_updated_at = now\<rparr> in
      if find_row (\<lambda>r. ri_project_id r = project \<and> ri_issue_key r = si_key issue) (db_items db) \<noteq> None
      then Inl (IntegrityError ''uq_remediation_items_project_issue'')
      else Inr (item,
             record_event item ''created'' actor None (Some STATUS_PROPOSED)
               (Some [Lit ''issue_key='', Lit (si_key issue), Lit '' locations='',
                      Num (int (si_location_count issue))])
               (db\<lparr>db_items := db_items db @ [item], db_next := db_next db + 1\<rparr>)))"

fun create_items ::
  "time \<Rightarrow> uuid \<Rightarrow> uuid \<Rightarrow> uuid option \<Rightarrow> (string \<times> uuid) list \<Rightarrow> string list \<Rightarrow> scored_issue list
   \<Rightarrow> rem_db \<Rightarrow> http_error + rem_item list \<times> rem_db" where
  "create_items now workspace project actor reps existing [] db = Inr ([], db)"
| "create_items now workspace project actor reps existing (issue # iss) db =
     (if List.member existing (si_key issue)
      then create_items now workspace project actor reps existing iss db
      else res_bind (create_item now workspace project actor reps issue db) (\<lambda>(item, db1).
           res_bind (create_items now workspace project actor reps existing iss db1) (\<lambda>(items, db2).
           Inr (item # items, db2))))"

definition existing_keys :: "uuid \<Rightarrow> rem_db \<Rightarrow> string list" where
  "existing_keys project db =
     map ri_issue_key (filter (\<lambda>r. ri_project_id r = project) (db_items db))"

text \<open>\<open>rows\<close> is what \<open>gather_report_data\<close> returns for the project: vulnerability ids with findings.\<close>

definition sync_body ::
  "time \<Rightarrow> uuid \<Rightarrow> uuid \<Rightarrow> uuid option \<Rightarrow> (uuid \<times> finding) list \<Rightarrow> string list \<Rightarrow> rem_db
   \<Rightarrow> http_error + rem_item list \<times> rem_db" where
  "sync_body now workspace project actor rows existing db =
     (let issues = group_issues (map snd rows) in
      if issues = [] then Inr ([], db)
      else res_bind (create_items now workspace project actor (rep_vulns rows []) existing issues db)
             (\<lambda>(created, db1).
               Inr (created,
                 if created \<noteq> [] then
                   audit_record workspace actor ''remediation.items_synced'' ''remediation_item'' None
                     (Some [Lit ''project='', Uid project, Lit '' created='', Num (int (length created))])
                     None db1
                 else db1)))"

definition sync_items_for_project ::
  "time \<Rightarrow> uuid \<Rightarrow> uuid \<Rightarrow> uuid option \<Rightarrow> (uuid \<times> finding) list \<Rightarrow> rem_db
   \<Rightarrow> http_error + rem_item list \<times> rem_db" where
  "sync_items_for_project now workspace project actor rows db =
     res_bind (get_project workspace project db) (\<lambda>_.
       sync_body now workspace project actor rows (existing_keys project db) db)"

section \<open>Reads\<close>

text \<open>The overdue rule, in its pure form and as the predicate of the query.\<close>

definition is_overdue :: "time \<Rightarrow> rem_item \<Rightarrow> bool" where
  "is_overdue now item =
     (case ri_due_date item of
        None \<Rightarrow> False
      | Some due \<Rightarrow> if \<not> List.member OPEN_STATUSES (ri_status item) then False else due < now)"

record item_query =
  iq_status :: "string option"
  iq_priority :: "string option"
  iq_assignee :: "uuid option"
  iq_overdue :: "bool option"

definition sql_overdue :: "time \<Rightarrow> rem_item \<Rightarrow> bool" where
  "sql_overdue now r =
     (ri_due_date r \<noteq> None \<and> (case ri_due_date r of None \<Rightarrow> False | Some d \<Rightarrow> d < now)
      \<and> List.member OPEN_STATUSES (ri_status r))"

definition list_items ::
  "time \<Rightarrow> uuid \<Rightarrow> uuid \<Rightarrow> item_query \<Rightarrow> (nat \<times> nat) option \<Rightarrow> rem_db
   \<Rightarrow> http_error + rem_item list \<times> nat" where
  "list_items now workspace project q page db =
     res_bind (get_project workspace project db) (\<lambda>_.
       let matching = filter (\<lambda>r. ri_project_id r = project \<and> ri_workspace_id r = workspace
               \<and> (truthy (iq_status q) \<longrightarrow> Some (ri_status r) = iq_status q)
               \<and> (truthy (iq_priority q) \<longrightarrow> Some (ri_priority r) = iq_priority q)
               \<and> (iq_assignee q \<noteq> None \<longrightarrow> ri_assignee_user_id r = iq_assignee q)
               \<and> (iq_overdue q = Some True \<longrightarrow> sql_overdue now r)) (db_items db);
           (limit, offset) = (case page of None \<Rightarrow> (200, 0) | Some p \<Rightarrow> p)
       in Inr (take limit (drop offset (sort_key (\<lambda>r. (ri_created_at r, ri_id r)) matching)),
               length matching))"

record progress =
  pg_total :: nat
  pg_proposed :: nat
  pg_accepted :: nat
  pg_in_progress :: nat
  pg_awaiting_verification :: nat
  pg_verified :: nat
  pg_closed :: nat
  pg_risk_accepted :: nat
  pg_rejected :: nat
  pg_reopened :: nat
  pg_open :: nat
  pg_resolved :: nat
  pg_overdue :: nat
  pg_completion_percent :: int

definition progress_for_project :: "time \<Rightarrow> uuid \<Rightarrow> uuid \<Rightarrow> rem_db \<Rightarrow> progress" where
  "progress_for_project now workspace project db =
     (let rows = filter (\<lambda>r. ri_project_id r = project \<and> ri_workspace_id r = workspace) (db_items db);
          by_status = (\<lambda>s. length (filter (\<lambda>r. ri_status r = s) rows));
          overdue = length (filter (sql_overdue now) rows);
          total = (\<Sum>s \<leftarrow> remdups (map ri_status rows). by_status s);
          resolved = (\<Sum>s \<leftarrow> RESOLVED_STATUSES. by_status s)
      in \<lparr>pg_total = total, pg_proposed = by_status ''proposed'', pg_accepted = by_status ''accepted'',
          pg_in_progress = by_status ''in_progress'',
          pg_awaiting_verification = by_status ''awaiting_verification'',
          pg_verified = by_status ''verified'', pg_closed = by_status ''closed'',
          pg_risk_accepted = by_status ''risk_accepted'', pg_rejected = by_status ''rejected'',
          pg_reopened = by_status ''reopened'', pg_open = (\<Sum>s \<leftarrow> OPEN_STATUSES. by_status s),
          pg_resolved = resolved, pg_overdue = overdue,
          pg_completion_percent =
            (if total = 0 then 0 else py_round (real (100 * resolved) / real total))\<rparr>)"

section \<open>Field updates\<close>

record item_patch =
  pa_assignee :: "uuid option"
  pa_clear_assignee :: bool
  pa_due_date :: "py_datetime option"
  pa_clear_due_date :: bool
  pa_priority :: "string option"
  pa_notes :: "string option"

type_synonym change = "string \<times> fstring"

definition patch_assignee ::
  "uuid \<Rightarrow> item_patch \<Rightarrow> rem_db \<Rightarrow> rem_item \<Rightarrow> http_error + change list \<times> rem_item" where
  "patch_assignee workspace p db item =
     (if pa_clear_assignee p then
        Inr (if ri_assignee_user_id item \<noteq> None
             then ([(''assigned'', [Lit ''assignee cleared''])], item\<lparr>ri_assignee_user_id := None\<rparr>)
             else ([], item))
      else (case pa_assignee p of
          None \<Rightarrow> Inr ([], item)
        | Some u \<Rightarrow> res_bind (require_workspace_member workspace u db) (\<lambda>_.
            Inr (if ri_assignee_user_id item \<noteq> Some u
                 then ([(''assigned'', [Lit ''assignee -> '', Uid u])],
                       item\<lparr>ri_assignee_user_id := Some u\<rparr>)
                 else ([], item)))))"

definition patch_due_date :: "item_patch \<Rightarrow> rem_item \<Rightarrow> change list \<times> rem_item" where
  "patch_due_date p item =
     (if pa_clear_due_date p then
        (if ri_due_date item \<noteq> None
         then ([(''due_date_changed'', [Lit ''due date cleared''])], item\<lparr>ri_due_date := None\<rparr>)
         else ([], item))
      else (case pa_due_date p of
          None \<Rightarrow> ([], item)
        | Some d \<Rightarrow>
            (let due = to_utc d in
             if ri_due_date item \<noteq> Some due
             then ([(''due_date_changed'', [Lit ''due date -> '', Ts due])],
                   item\<lparr>ri_due_date := Some due\<rparr>)
             else ([], item))))"

definition patch_priority :: "item_patch \<Rightarrow> rem_item \<Rightarrow> http_error + change list \<times> rem_item" where
  "patch_priority p item =
     (case pa_priority p of
        None \<Rightarrow> Inr ([], item)
      | Some pr \<Rightarrow>
          if \<not> List.member REMEDIATION_PRIORITIES pr
          then Inl (Http400 ''priority must be one of: critical, high, low, medium'')
          else Inr (if ri_priority item \<noteq> pr
                    then ([(''priority_changed'', [Lit (ri_priority item), Lit '' -> '', Lit pr])],
                          item\<lparr>ri_priority := pr\<rparr>)
                    else ([], item)))"

definition patch_notes :: "item_patch \<Rightarrow> rem_item \<Rightarrow> change list \<times> rem_item" where
  "patch_notes p item =
     (case pa_notes p of
        None \<Rightarrow> ([], item)
      | Some n \<Rightarrow>
          if n \<noteq> or_empty (ri_notes item)
          then ([(''notes_changed'', [Lit ''notes updated''])],
                item\<lparr>ri_notes := Some n, ri_notes_source := Some ''human''\<rparr>)
          else ([], item))"

definition patch_item ::
  "uuid \<Rightarrow> item_patch \<Rightarrow> rem_db \<Rightarrow> rem_item \<Rightarrow> http_error + change list \<times> rem_item" where
  "patch_item workspace p db item =
     res_bind (patch_assignee workspace p db item) (\<lambda>(c1, item1).
       let (c2, item2) = patch_due_date p item1 in
       res_bind (patch_priority p item2) (\<lambda>(c3, item3).
         let (c4, item4) = patch_notes p item3 in
         Inr (c1 @ c2 @ c3 @ c4, item4)))"

fun join_details :: "change list \<Rightarrow> fstring" where
  "join_details [] = []"
| "join_details [(t, d)] = d"
| "join_details ((t, d) # c # cs) = d @ [Lit ''; ''] @ join_details (c # cs)"

definition record_changes :: "rem_item \<Rightarrow> uuid option \<Rightarrow> change list \<Rightarrow> rem_db \<Rightarrow> rem_db" where
  "record_changes item actor changes db =
     foldl (\<lambda>d (t, detail). record_event item t actor None None (Some detail) d) db changes"

definition update_body ::
  "time \<Rightarrow> uuid \<Rightarrow> uuid \<Rightarrow> int \<Rightarrow> item_patch \<Rightarrow> rem_item \<Rightarrow> rem_db
   \<Rightarrow> http_error + rem_item \<times> rem_db" where
  "update_body now workspace actor expected p item db =
     res_bind (patch_item workspace p db item) (\<lambda>(changes, item').
       if changes = [] then Inr (item, db)
       else res_bind (bump_version now item expected (orm_flush item item' db)) (\<lambda>db1.
         let db2 = record_changes item (Some actor) changes db1;
             db3 = audit_record workspace (Some actor) ''remediation.updated'' ''remediation_item''
                     (Some (ri_id item)) (Some (join_details changes)) None db2
         in Inr (refresh item db3, db3)))"

definition update_item ::
  "time \<Rightarrow> uuid \<Rightarrow> uuid \<Rightarrow> uuid \<Rightarrow> uuid \<Rightarrow> int \<Rightarrow> item_patch \<Rightarrow> rem_db
   \<Rightarrow> http_error + rem_item \<times> rem_db" where
  "update_item now workspace project item_id actor expected p db =
     res_bind (get_item workspace project item_id db) (\<lambda>item.
       update_body now workspace actor expected p item db)"

section \<open>Status changes\<close>

definition set_status :: "time \<Rightarrow> string \<Rightarrow> rem_item \<Rightarrow> rem_item" where
  "set_status now to_status item =
     (let item1 = item\<lparr>ri_status := to_status\<rparr>;
          item2 = (if to_status = STATUS_VERIFIED then item1\<lparr>ri_verified_at := Some now\<rparr> else item1)
      in if List.member RESOLVED_STATUSES to_status then item2\<lparr>ri_resolved_at := Some now\<rparr>
         else if List.member OPEN_STATUSES to_status then
           (let item3 = item2\<lparr>ri_resolved_at := None\<rparr>
            in if to_status \<noteq> STATUS_AWAITING_VERIFICATION then item3\<lparr>ri_verified_at := None\<rparr> else item3)
         else item2)"

definition apply_transition ::
  "time \<Rightarrow> rem_item \<Rightarrow> uuid option \<Rightarrow> int \<Rightarrow> string \<Rightarrow> fstring option \<Rightarrow> string \<Rightarrow> string \<Rightarrow> rem_db
   \<Rightarrow> http_error + rem_item \<times> rem_db" where
  "apply_transition now item actor expected to_status detail audit_action event_type db =
     (let from_status = ri_status item in
      res_bind (bump_version now item expected db) (\<lambda>db1.
        let db2 = orm_flush item (set_status now to_status item) db1;
            db3 = record_event item event_type actor (Some from_status) (Some to_status) detail db2;
            db4 = audit_record (ri_workspace_id item) actor audit_action ''remediation_item''
                    (Some (ri_id item))
                    (Some ([Lit from_status, Lit '' -> '', Lit to_status]
                           @ (case detail of None \<Rightarrow> [] | Some d \<Rightarrow>
                                if d = [] then [] else Lit '': '' # d)))
                    None db3
        in Inr (refresh item db4, db4)))"

definition transition_body ::
  "time \<Rightarrow> uuid \<Rightarrow> int \<Rightarrow> string \<Rightarrow> string option \<Rightarrow> rem_item \<Rightarrow> rem_db
   \<Rightarrow> http_error + rem_item \<times> rem_db" where
  "transition_body now actor expected to_status detail item db =
     (if List.member GUARDED_TARGETS to_status then Inl (Http400 ''cannot be set directly'')
      else if \<not> is_legal (ri_status item) to_status then Inl (Http409 ''Illegal transition'')
      else apply_transition now item (Some actor) expected to_status
             (map_option (\<lambda>d. if d = [] then [] else [Lit d]) detail)
             ''remediation.transitioned'' ''transition'' db)"

definition transition ::
  "time \<Rightarrow> uuid \<Rightarrow> uuid \<Rightarrow> uuid \<Rightarrow> uuid \<Rightarrow> int \<Rightarrow> string \<Rightarrow> string option \<Rightarrow> rem_db
   \<Rightarrow> http_error + rem_item \<times> rem_db" where
  "transition now workspace project item_id actor expected to_status detail db =
     res_bind (get_item workspace project item_id db) (\<lambda>item.
       transition_body now actor expected to_status detail item db)"

definition reopen_for_regression ::
  "time \<Rightarrow> uuid \<Rightarrow> uuid \<Rightarrow> string \<Rightarrow> rem_db \<Rightarrow> http_error + rem_item option \<times> rem_db" where
  "reopen_for_regression now workspace project key db =
     (case find_row (\<lambda>r. ri_project_id r = project \<and> ri_workspace_id r = workspace \<and> ri_issue_key r = key)
             (db_items db) of
        None \<Rightarrow> Inr (None, db)
      | Some item \<Rightarrow>
          if \<not> is_legal (ri_status item) STATUS_REOPENED then Inr (None, db)
          else res_bind (apply_transition now item None (ri_version item) STATUS_REOPENED
                           (Some [Lit ''re-detected by a scan'']) ''remediation.reopened'' ''transition'' db)
                 (\<lambda>(i, db'). Inr (Some i, db')))"

end
