(* ===== verification/Remediation_Commit.thy ===== *)
theory Remediation_Commit
  imports Remediation_Service
begin

text \<open>
  What a committed request may have done to the database. \<open>cas_write\<close> is the abstract
  specification of the write discipline: compare the stored version with the expected one and
  write the row, in one step; the service's two statements (conditional \<open>UPDATE\<close>, then the ORM's
  flush) implement it in either order. \<open>db_wf\<close> holds the keys and constraints of the schema and
  \<open>evolves\<close> the contract of every operation: the schema is kept, a row keeps its identity and is
  either unchanged or at a larger version, and both logs only grow.
\<close>

section \<open>Compare and write\<close>

definition commit_row :: "time \<Rightarrow> int \<Rightarrow> rem_item \<Rightarrow> rem_item \<Rightarrow> rem_item \<Rightarrow> rem_item" where
  "commit_row now expected loaded cur r =
     (flush_row loaded cur r)\<lparr>ri_version := expected + 1, ri_updated_at := now\<rparr>"

definition cas_write :: "time \<Rightarrow> rem_item \<Rightarrow> rem_item \<Rightarrow> int \<Rightarrow> rem_db \<Rightarrow> http_error + rem_db" where
  "cas_write now loaded cur expected db =
     (case item_row db (ri_id loaded) of
        None \<Rightarrow> Inl (StaleVersion expected None)
      | Some r \<Rightarrow>
          if ri_version r = expected
          then Inr (update_items (\<lambda>x. ri_id x = ri_id loaded) (commit_row now expected loaded cur) db)
          else Inl (StaleVersion expected (Some (ri_version r))))"

lemma flush_row_simps [simp]:
  "ri_id (flush_row l c r) = ri_id r" "ri_version (flush_row l c r) = ri_version r"
  "ri_workspace_id (flush_row l c r) = ri_workspace_id r"
  "ri_project_id (flush_row l c r) = ri_project_id r"
  "ri_issue_key (flush_row l c r) = ri_issue_key r"
  by (simp_all add: flush_row_def)

lemma commit_row_simps [simp]:
  "ri_id (commit_row now e l c r) = ri_id r" "ri_version (commit_row now e l c r) = e + 1"
  "ri_workspace_id (commit_row now e l c r) = ri_workspace_id r"
  "ri_project_id (commit_row now e l c r) = ri_project_id r"
  "ri_issue_key (commit_row now e l c r) = ri_issue_key r"
  by (simp_all add: commit_row_def)

text \<open>A flush of a row over itself stores the new row; over a changed row it keeps the rest.\<close>

lemma flush_row_self:
  "flush_row r (r\<lparr>ri_status := s, ri_priority := p, ri_assignee_user_id := a, ri_due_date := d,
       ri_notes := n, ri_notes_source := ns, ri_resolved_at := ra, ri_verified_at := va\<rparr>) r =
   r\<lparr>ri_status := s, ri_priority := p, ri_assignee_user_id := a, ri_due_date := d,
       ri_notes := n, ri_notes_source := ns, ri_resolved_at := ra, ri_verified_at := va\<rparr>"
  by (cases r) (simp add: flush_row_def)

lemma item_row_update_items:
  "(\<And>r. P r \<Longrightarrow> ri_id (f r) = ri_id r) \<Longrightarrow>
    item_row (update_items P f db) k = map_option (\<lambda>r. if P r then f r else r) (item_row db k)"
  by (simp add: item_row_def update_items_def find_row_update_where_key)

lemma item_row_id: "item_row db k = Some r \<Longrightarrow> ri_id r = k"
  unfolding item_row_def by (drule find_row_Some) simp

lemma item_row_iff:
  "unique_key ri_id (db_items db) \<Longrightarrow> item_row db k = Some r \<longleftrightarrow> r \<in> set (db_items db) \<and> ri_id r = k"
  by (simp add: item_row_def find_row_key_iff)

lemma bump_then_flush:
  assumes "unique_key ri_id (db_items db)"
  shows "res_bind (bump_version now item v db) (\<lambda>d. Inr (orm_flush item cur d)) =
    cas_write now item cur v db"
proof (cases "item_row db (ri_id item)")
  case None
  then show ?thesis
    using keyed_update(1) [OF assms, of "ri_id item" "\<lambda>r. ri_version r = v"]
    by (simp add: bump_version_def cas_write_def Let_def item_row_def)
next
  case (Some r)
  then have f: "find_row (\<lambda>x. ri_id x = ri_id item) (db_items db) = Some r"
    by (simp add: item_row_def)
  note c = keyed_update(1) [OF assms, of "ri_id item" "\<lambda>r. ri_version r = v"]
  show ?thesis
  proof (cases "ri_version r = v")
    case True
    note u = keyed_update(2) [OF assms f, of "\<lambda>r. ri_version r = v", OF True]
    have "update_where (\<lambda>x. ri_id x = ri_id item) (flush_row item cur)
        (update_where (\<lambda>x. ri_id x = ri_id item) (\<lambda>r. r\<lparr>ri_version := v + 1, ri_updated_at := now\<rparr>) (db_items db))
      = update_where (\<lambda>x. ri_id x = ri_id item) (commit_row now v item cur) (db_items db)"
      by (auto simp: update_where_def commit_row_def flush_row_def)
    then show ?thesis using True Some f c u
      by (simp add: bump_version_def cas_write_def Let_def orm_flush_def update_items_def)
  next
    case False
    then show ?thesis using Some f c
      by (simp add: bump_version_def cas_write_def Let_def)
  qed
qed

lemma flush_then_bump:
  assumes "unique_key ri_id (db_items db)"
  shows "bump_version now item v (orm_flush item cur db) = cas_write now item cur v db"
proof -
  let ?P = "\<lambda>x. ri_id x = ri_id item"
  let ?db = "orm_flush item cur db"
  have u': "unique_key ri_id (db_items ?db)"
    using assms by (simp add: orm_flush_def update_items_def unique_key_update_where)
  have row: "item_row ?db (ri_id item) = map_option (flush_row item cur) (item_row db (ri_id item))"
    unfolding orm_flush_def
    by (cases "item_row db (ri_id item)") (auto simp: item_row_update_items dest: item_row_id)
  note c = keyed_update(1) [OF u', of "ri_id item" "\<lambda>r. ri_version r = v"]
  show ?thesis
  proof (cases "item_row db (ri_id item)")
    case None
    then show ?thesis using row c by (simp add: bump_version_def cas_write_def Let_def item_row_def)
  next
    case (Some r)
    with row have r': "item_row ?db (ri_id item) = Some (flush_row item cur r)" by simp
    show ?thesis
    proof (cases "ri_version r = v")
      case True
      then have u: "update_where (\<lambda>x. ?P x \<and> ri_version x = v) f (db_items ?db) =
          update_where ?P f (db_items ?db)" for f
        using keyed_update(2) [OF u', of "ri_id item" "flush_row item cur r" "\<lambda>r. ri_version r = v"] r'
        by (simp add: item_row_def)
      have "update_where ?P (\<lambda>r. r\<lparr>ri_version := v + 1, ri_updated_at := now\<rparr>) (db_items ?db)
        = update_where ?P (commit_row now v item cur) (db_items db)"
        by (auto simp: update_where_def commit_row_def orm_flush_def update_items_def)
      then show ?thesis using True Some c u r'
        by (simp add: bump_version_def cas_write_def Let_def item_row_def)
          (simp add: orm_flush_def update_items_def)
    next
      case False
      then show ?thesis using Some r' c
        by (simp add: bump_version_def cas_write_def Let_def item_row_def)
    qed
  qed
qed

text \<open>The flush of a row that is still the stored one writes it as the request left it.\<close>

definition stamp :: "time \<Rightarrow> int \<Rightarrow> rem_item \<Rightarrow> rem_item" where
  "stamp now expected item = item\<lparr>ri_version := expected + 1, ri_updated_at := now\<rparr>"

definition write_item :: "rem_item \<Rightarrow> rem_db \<Rightarrow> rem_db" where
  "write_item new db = update_items (\<lambda>r. ri_id r = ri_id new) (\<lambda>_. new) db"

definition same_identity :: "rem_item \<Rightarrow> rem_item \<Rightarrow> bool" where
  "same_identity r r' =
     (ri_id r' = ri_id r \<and> ri_workspace_id r' = ri_workspace_id r
      \<and> ri_project_id r' = ri_project_id r \<and> ri_issue_key r' = ri_issue_key r
      \<and> ri_vulnerability_id r' = ri_vulnerability_id r \<and> ri_title r' = ri_title r
      \<and> ri_source r' = ri_source r \<and> ri_created_by r' = ri_created_by r
      \<and> ri_created_at r' = ri_created_at r)"

lemma same_identity_refl [simp]: "same_identity r r"
  by (simp add: same_identity_def)

lemma same_identity_trans: "same_identity a b \<Longrightarrow> same_identity b c \<Longrightarrow> same_identity a c"
  by (simp add: same_identity_def)

lemma same_identity_commit_row [simp]: "same_identity r (commit_row now e l c r)"
  by (simp add: same_identity_def commit_row_def flush_row_def)

lemma stamp_simps [simp]:
  "ri_id (stamp now e r) = ri_id r" "ri_version (stamp now e r) = e + 1"
  "ri_status (stamp now e r) = ri_status r" "ri_workspace_id (stamp now e r) = ri_workspace_id r"
  "ri_project_id (stamp now e r) = ri_project_id r" "ri_issue_key (stamp now e r) = ri_issue_key r"
  "ri_verified_at (stamp now e r) = ri_verified_at r"
  "ri_resolved_at (stamp now e r) = ri_resolved_at r"
  by (simp_all add: stamp_def)

text \<open>The columns that a request may change; the rest of the row is its identity.\<close>

definition workflow_copy :: "rem_item \<Rightarrow> rem_item \<Rightarrow> bool" where
  "workflow_copy r cur =
     (same_identity r cur \<and> ri_version cur = ri_version r \<and> ri_updated_at cur = ri_updated_at r)"

lemma workflow_copy_refl [simp]: "workflow_copy r r"
  by (simp add: workflow_copy_def)

lemma workflow_copy_trans: "workflow_copy a b \<Longrightarrow> workflow_copy b c \<Longrightarrow> workflow_copy a c"
  by (auto simp: workflow_copy_def intro: same_identity_trans)

lemma workflow_copy_set_status [simp]: "workflow_copy r (set_status now t r)"
  by (simp add: workflow_copy_def same_identity_def set_status_def Let_def)

lemma flush_row_workflow: "workflow_copy r cur \<Longrightarrow> flush_row r cur r = cur"
  by (cases r; cases cur) (simp add: flush_row_def workflow_copy_def same_identity_def)

lemma commit_row_workflow: "workflow_copy r cur \<Longrightarrow> commit_row now e r cur r = stamp now e cur"
  by (simp add: commit_row_def stamp_def flush_row_workflow)

lemma cas_write_current:
  assumes "unique_key ri_id (db_items db)" and "item_row db (ri_id r) = Some r"
    and "workflow_copy r cur"
  shows "cas_write now r cur expected db =
    (if ri_version r = expected then Inr (write_item (stamp now expected cur) db)
     else Inl (StaleVersion expected (Some (ri_version r))))"
proof -
  have "ri_id cur = ri_id r" using assms(3) by (simp add: workflow_copy_def same_identity_def)
  moreover have "x = r" if "x \<in> set (db_items db)" "ri_id x = ri_id r" for x
    using that assms(1,2) by (auto simp: item_row_iff dest: unique_key_eq)
  ultimately have "update_where (\<lambda>x. ri_id x = ri_id r) (commit_row now expected r cur) (db_items db)
      = update_where (\<lambda>x. ri_id x = ri_id cur) (\<lambda>_. stamp now expected cur) (db_items db)"
    using commit_row_workflow [OF assms(3), of now expected] by (intro update_where_cong) auto
  then show ?thesis
    using assms(2) by (simp add: cas_write_def write_item_def update_items_def)
qed

lemma item_row_write_item:
  "item_row (write_item new db) k =
    (if k = ri_id new \<and> item_row db k \<noteq> None then Some new else item_row db k)"
  using item_row_update_items [of "\<lambda>r. ri_id r = ri_id new" "\<lambda>_. new" db k]
  unfolding write_item_def by (cases "item_row db k") (auto dest: item_row_id)

section \<open>The log columns\<close>

named_theorems log_simps \<open>What the two logging calls leave alone.\<close>

lemma record_event_simps [log_simps]:
  "db_items (record_event i t a f s d db) = db_items db"
  "db_audits (record_event i t a f s d db) = db_audits db"
  "db_requests (record_event i t a f s d db) = db_requests db"
  "db_acceptances (record_event i t a f s d db) = db_acceptances db"
  "db_next (record_event i t a f s d db) = db_next db"
  "db_projects (record_event i t a f s d db) = db_projects db"
  "db_members (record_event i t a f s d db) = db_members db"
  "db_scans (record_event i t a f s d db) = db_scans db"
  "db_tool_runs (record_event i t a f s d db) = db_tool_runs db"
  "db_vulns (record_event i t a f s d db) = db_vulns db"
  "item_row (record_event i t a f s d db) k = item_row db k"
  by (simp_all add: record_event_def item_row_def)

lemma audit_record_simps [log_simps]:
  "db_items (audit_record w a ac rt ri d oc db) = db_items db"
  "db_events (audit_record w a ac rt ri d oc db) = db_events db"
  "db_requests (audit_record w a ac rt ri d oc db) = db_requests db"
  "db_acceptances (audit_record w a ac rt ri d oc db) = db_acceptances db"
  "db_next (audit_record w a ac rt ri d oc db) = db_next db"
  "db_projects (audit_record w a ac rt ri d oc db) = db_projects db"
  "db_members (audit_record w a ac rt ri d oc db) = db_members db"
  "db_scans (audit_record w a ac rt ri d oc db) = db_scans db"
  "db_tool_runs (audit_record w a ac rt ri d oc db) = db_tool_runs db"
  "db_vulns (audit_record w a ac rt ri d oc db) = db_vulns db"
  "item_row (audit_record w a ac rt ri d oc db) k = item_row db k"
  by (simp_all add: audit_record_def item_row_def)

lemma write_item_simps [log_simps]:
  "db_events (write_item n db) = db_events db" "db_audits (write_item n db) = db_audits db"
  "db_requests (write_item n db) = db_requests db"
  "db_acceptances (write_item n db) = db_acceptances db"
  "db_next (write_item n db) = db_next db" "db_projects (write_item n db) = db_projects db"
  "db_members (write_item n db) = db_members db" "db_scans (write_item n db) = db_scans db"
  "db_tool_runs (write_item n db) = db_tool_runs db" "db_vulns (write_item n db) = db_vulns db"
  by (simp_all add: write_item_def update_items_def)

section \<open>The contract of an operation\<close>

text \<open>Primary keys, their allocation, and the unique constraint of \<open>remediation_items\<close>.\<close>

definition db_wf :: "rem_db \<Rightarrow> bool" where
  "db_wf db =
     (unique_key ri_id (db_items db)
      \<and> unique_key (\<lambda>r. (ri_project_id r, ri_issue_key r)) (db_items db)
      \<and> unique_key vr_id (db_requests db) \<and> unique_key ra_id (db_acceptances db)
      \<and> list_all (\<lambda>r. ri_id r < db_next db) (db_items db)
      \<and> list_all (\<lambda>r. vr_id r < db_next db) (db_requests db)
      \<and> list_all (\<lambda>r. ra_id r < db_next db) (db_acceptances db))"

definition evolves :: "rem_db \<Rightarrow> rem_db \<Rightarrow> bool" where
  "evolves db db' =
     (db_wf db' \<and> db_next db \<le> db_next db'
      \<and> (\<exists>es. db_events db' = db_events db @ es) \<and> (\<exists>as. db_audits db' = db_audits db @ as)
      \<and> (\<forall>k r. item_row db k = Some r \<longrightarrow>
           (\<exists>r'. item_row db' k = Some r' \<and> same_identity r r'
                 \<and> (r' = r \<or> ri_version r < ri_version r'))))"

lemma db_wfD:
  assumes "db_wf db"
  shows "unique_key ri_id (db_items db)"
    and "unique_key (\<lambda>r. (ri_project_id r, ri_issue_key r)) (db_items db)"
    and "unique_key vr_id (db_requests db)" and "unique_key ra_id (db_acceptances db)"
    and "r \<in> set (db_items db) \<Longrightarrow> ri_id r < db_next db"
    and "q \<in> set (db_requests db) \<Longrightarrow> vr_id q < db_next db"
    and "a \<in> set (db_acceptances db) \<Longrightarrow> ra_id a < db_next db"
  using assms by (auto simp: db_wf_def list_all_iff)

lemma db_wf_log [log_simps]:
  "db_wf (record_event i t a f s d db) = db_wf db"
  "db_wf (audit_record w ac an rt ri dt oc db) = db_wf db"
  by (simp_all add: db_wf_def log_simps)

lemma evolves_refl: "db_wf db \<Longrightarrow> evolves db db"
  by (simp add: evolves_def)

lemma evolves_row:
  assumes "evolves db db'" and "item_row db k = Some r"
  obtains r' where "item_row db' k = Some r'" and "same_identity r r'"
    and "r' = r \<or> ri_version r < ri_version r'"
  using assms by (auto simp: evolves_def)

lemma evolves_trans:
  assumes "evolves a b" and "evolves b c"
  shows "evolves a c"
proof -
  have "\<exists>r''. item_row c k = Some r'' \<and> same_identity r r'' \<and> (r'' = r \<or> ri_version r < ri_version r'')"
    if "item_row a k = Some r" for k r
  proof -
    from evolves_row [OF assms(1) that] obtain r' where
      r': "item_row b k = Some r'" "same_identity r r'" "r' = r \<or> ri_version r < ri_version r'" .
    from evolves_row [OF assms(2) r'(1)] obtain r'' where
      "item_row c k = Some r''" "same_identity r' r''" "r'' = r' \<or> ri_version r' < ri_version r''" .
    with r' show ?thesis by (auto intro: same_identity_trans)
  qed
  with assms show ?thesis by (auto simp: evolves_def)
qed

lemma evolves_wf: "evolves a b \<Longrightarrow> db_wf b"
  by (simp add: evolves_def)

lemma evolves_record_event: "db_wf db \<Longrightarrow> evolves db (record_event i t a f s d db)"
  by (auto simp: evolves_def log_simps) (simp add: record_event_def)

lemma evolves_audit_record: "db_wf db \<Longrightarrow> evolves db (audit_record w a ac rt ri d oc db)"
  by (auto simp: evolves_def log_simps) (simp add: audit_record_def)

lemma evolves_cas_write:
  assumes wf: "db_wf db" and ok: "cas_write now l cur e db = Inr db'"
  shows "evolves db db'"
proof -
  let ?f = "commit_row now e l cur"
  from ok obtain r where r: "item_row db (ri_id l) = Some r" "ri_version r = e"
    and db': "db' = update_items (\<lambda>x. ri_id x = ri_id l) ?f db"
    by (auto simp: cas_write_def split: option.splits if_splits)
  have row: "item_row db' k = map_option (\<lambda>r. if ri_id r = ri_id l then ?f r else r) (item_row db k)" for k
    unfolding db' by (rule item_row_update_items) simp
  have "list_all (\<lambda>r. ri_id r < db_next db) (db_items db')"
    using db_wfD(5) [OF wf] by (fastforce simp: db' update_items_def list_all_iff set_update_where)
  then have "db_wf db'"
    using wf by (simp add: db_wf_def db' update_items_def unique_key_update_where)
  moreover have "\<exists>r'. item_row db' k = Some r' \<and> same_identity x r' \<and> (r' = x \<or> ri_version x < ri_version r')"
    if "item_row db k = Some x" for k x
    using that r row [of k] by (cases "k = ri_id l") (auto dest: item_row_id)
  moreover have "db_events db' = db_events db" "db_audits db' = db_audits db" "db_next db' = db_next db"
    by (simp_all add: db' update_items_def)
  ultimately show ?thesis by (auto simp: evolves_def)
qed

lemma evolves_record_changes: "db_wf db \<Longrightarrow> evolves db (record_changes i a cs db)"
proof (induction cs arbitrary: db)
  case (Cons c cs)
  obtain t d where c: "c = (t, d)" by force
  let ?db = "record_event i t a None None (Some d) db"
  have "evolves db ?db" and "db_wf ?db"
    using Cons.prems by (simp_all add: evolves_record_event log_simps)
  from evolves_trans [OF this(1) Cons.IH [OF this(2)]] show ?case by (simp add: record_changes_def c)
qed (simp add: record_changes_def evolves_refl)

lemma record_changes_simps [log_simps]:
  "db_items (record_changes i a cs db) = db_items db"
  "db_audits (record_changes i a cs db) = db_audits db"
  "db_requests (record_changes i a cs db) = db_requests db"
  "db_acceptances (record_changes i a cs db) = db_acceptances db"
  "db_next (record_changes i a cs db) = db_next db"
  "item_row (record_changes i a cs db) k = item_row db k"
  "length (db_events (record_changes i a cs db)) = length (db_events db) + length cs"
  by (induction cs arbitrary: db)
    (simp_all add: record_changes_def log_simps case_prod_beta record_event_def item_row_def)

section \<open>The status change\<close>

text \<open>The state a transition of a current row commits.\<close>

definition transition_result ::
  "time \<Rightarrow> rem_item \<Rightarrow> uuid option \<Rightarrow> string \<Rightarrow> fstring option \<Rightarrow> string \<Rightarrow> string \<Rightarrow> rem_db \<Rightarrow> rem_db" where
  "transition_result now r actor to_status detail audit_action event_type db =
     audit_record (ri_workspace_id r) actor audit_action ''remediation_item'' (Some (ri_id r))
       (Some ([Lit (ri_status r), Lit '' -> '', Lit to_status]
              @ (case detail of None \<Rightarrow> [] | Some d \<Rightarrow> if d = [] then [] else Lit '': '' # d))) None
       (record_event r event_type actor (Some (ri_status r)) (Some to_status) detail
         (write_item (stamp now (ri_version r) (set_status now to_status r)) db))"

lemma transition_result_simps [log_simps]:
  "db_requests (transition_result now r a t d aa et db) = db_requests db"
  "db_acceptances (transition_result now r a t d aa et db) = db_acceptances db"
  "db_next (transition_result now r a t d aa et db) = db_next db"
  "db_projects (transition_result now r a t d aa et db) = db_projects db"
  "db_members (transition_result now r a t d aa et db) = db_members db"
  "db_scans (transition_result now r a t d aa et db) = db_scans db"
  "db_tool_runs (transition_result now r a t d aa et db) = db_tool_runs db"
  "db_vulns (transition_result now r a t d aa et db) = db_vulns db"
  "db_items (transition_result now r a t d aa et db) =
     db_items (write_item (stamp now (ri_version r) (set_status now t r)) db)"
  "item_row (transition_result now r a t d aa et db) k =
     item_row (write_item (stamp now (ri_version r) (set_status now t r)) db) k"
  by (simp_all add: transition_result_def log_simps)

lemma transition_result_logs:
  "length (db_events (transition_result now r a t d aa et db)) = length (db_events db) + 1"
  "length (db_audits (transition_result now r a t d aa et db)) = length (db_audits db) + 1"
  by (simp_all add: transition_result_def audit_record_def record_event_def write_item_def update_items_def)

lemma set_status_simps [simp]:
  "ri_id (set_status now t r) = ri_id r" "ri_version (set_status now t r) = ri_version r"
  "ri_status (set_status now t r) = t" "ri_workspace_id (set_status now t r) = ri_workspace_id r"
  "ri_project_id (set_status now t r) = ri_project_id r"
  "ri_issue_key (set_status now t r) = ri_issue_key r"
  by (simp_all add: set_status_def Let_def)

lemma apply_transition_cas:
  assumes "unique_key ri_id (db_items db)"
  shows "apply_transition now item actor expected to_status detail aa et db =
    res_bind (cas_write now item (set_status now to_status item) expected db) (\<lambda>db2.
      let db4 = audit_record (ri_workspace_id item) actor aa ''remediation_item'' (Some (ri_id item))
            (Some ([Lit (ri_status item), Lit '' -> '', Lit to_status]
                   @ (case detail of None \<Rightarrow> [] | Some d \<Rightarrow> if d = [] then [] else Lit '': '' # d))) None
            (record_event item et actor (Some (ri_status item)) (Some to_status) detail db2)
      in Inr (refresh item db4, db4))"
  unfolding bump_then_flush [OF assms, symmetric] apply_transition_def Let_def
  by (cases "bump_version now item expected db") simp_all

lemma evolves_apply_transition:
  assumes wf: "db_wf db" and ok: "apply_transition now item actor e t d aa et db = Inr (x, db')"
  shows "evolves db db'"
proof -
  from ok obtain db2 where db2: "cas_write now item (set_status now t item) e db = Inr db2"
    by (auto simp: apply_transition_cas [OF db_wfD(1) [OF wf]] res_bind_Inr_iff)
  have "evolves db db2" using wf db2 by (rule evolves_cas_write)
  moreover have "evolves db2 db'"
    using ok db2 evolves_wf [OF \<open>evolves db db2\<close>]
    by (auto simp: apply_transition_cas [OF db_wfD(1) [OF wf]] Let_def log_simps
        intro!: evolves_trans [OF evolves_record_event evolves_audit_record])
  ultimately show ?thesis by (rule evolves_trans)
qed

lemma apply_transition_current:
  assumes "unique_key ri_id (db_items db)" and "item_row db (ri_id r) = Some r"
  shows "apply_transition now r actor expected t detail aa et db =
    (if ri_version r = expected
     then Inr (stamp now expected (set_status now t r), transition_result now r actor t detail aa et db)
     else Inl (StaleVersion expected (Some (ri_version r))))"
  using assms
  by (simp add: apply_transition_cas cas_write_current transition_result_def Let_def refresh_def
      log_simps item_row_write_item)

section \<open>Creation\<close>

definition new_item_of ::
  "time \<Rightarrow> uuid \<Rightarrow> uuid \<Rightarrow> uuid option \<Rightarrow> rem_item \<Rightarrow> bool" where
  "new_item_of now workspace project actor item =
     (ri_workspace_id item = workspace \<and> ri_project_id item = project
      \<and> ri_status item = STATUS_PROPOSED \<and> ri_version item = 1 \<and> ri_source item = ''system''
      \<and> ri_created_by item = actor \<and> ri_priority item \<in> set REMEDIATION_PRIORITIES
      \<and> ri_verified_at item = None \<and> ri_resolved_at item = None)"

lemma seed_priority_valid: "seed_priority s \<in> set REMEDIATION_PRIORITIES"
  by (simp add: seed_priority_def Let_def REMEDIATION_PRIORITIES_def)

lemma mem_existing_keys:
  "k \<in> set (existing_keys p db) \<longleftrightarrow> (\<exists>r \<in> set (db_items db). ri_project_id r = p \<and> ri_issue_key r = k)"
  by (force simp: existing_keys_def)

lemma create_item_fresh:
  assumes wf: "db_wf db" and fresh: "si_key issue \<notin> set (existing_keys project db)"
  shows "\<exists>item db'. create_item now ws project actor reps issue db = Inr (item, db')
    \<and> new_item_of now ws project actor item \<and> ri_issue_key item = si_key issue
    \<and> ri_vulnerability_id item = map_of reps (si_key issue)
    \<and> db_items db' = db_items db @ [item] \<and> length (db_events db') = Suc (length (db_events db))
    \<and> db_audits db' = db_audits db \<and> db_requests db' = db_requests db
    \<and> db_acceptances db' = db_acceptances db \<and> evolves db db'"
proof -
  have nf: "find_row (\<lambda>r. ri_project_id r = project \<and> ri_issue_key r = si_key issue) (db_items db) = None"
    using fresh by (auto simp: find_row_None mem_existing_keys)
  then obtain item db' where eq: "create_item now ws project actor reps issue db = Inr (item, db')"
    by (simp add: create_item_def Let_def)
  let ?db1 = "db\<lparr>db_items := db_items db @ [item], db_next := db_next db + 1\<rparr>"
  from eq nf have item: "ri_id item = db_next db" "new_item_of now ws project actor item"
      "ri_issue_key item = si_key issue" "ri_vulnerability_id item = map_of reps (si_key issue)"
    and proj: "ri_project_id item = project"
    and db': "db' = record_event item ''created'' actor None (Some STATUS_PROPOSED)
               (Some [Lit ''issue_key='', Lit (si_key issue), Lit '' locations='',
                      Num (int (si_location_count issue))]) ?db1"
    by (auto simp: create_item_def Let_def new_item_of_def seed_priority_valid)
  have "db_next db \<notin> ri_id ` set (db_items db)" using db_wfD(5) [OF wf] by force
  moreover have "(project, si_key issue) \<notin> (\<lambda>r. (ri_project_id r, ri_issue_key r)) ` set (db_items db)"
    using fresh by (auto simp: mem_existing_keys)
  ultimately have wf1: "db_wf ?db1"
    using wf item proj by (auto simp: db_wf_def unique_key_append list_all_iff less_Suc_eq)
  have "item_row ?db1 k = Some r" if "item_row db k = Some r" for k r
    using that by (simp add: item_row_def find_row_append)
  then have "evolves db ?db1" using wf1 by (auto simp: evolves_def)
  moreover have "evolves ?db1 db'" using wf1 unfolding db' by (rule evolves_record_event)
  ultimately have ev: "evolves db db'" by (rule evolves_trans)
  have "db_items db' = db_items db @ [item]" "length (db_events db') = Suc (length (db_events db))"
    "db_audits db' = db_audits db" "db_requests db' = db_requests db"
    "db_acceptances db' = db_acceptances db"
    unfolding db' by (simp_all add: record_event_def)
  with eq item ev show ?thesis by blast
qed

lemma create_items_fresh:
  assumes "db_wf db" and "distinct (map si_key iss)"
    and "\<forall>i \<in> set iss. si_key i \<notin> set existing \<longrightarrow> si_key i \<notin> set (existing_keys project db)"
  shows "\<exists>items db'. create_items now ws project actor reps existing iss db = Inr (items, db')
    \<and> map ri_issue_key items = filter (\<lambda>k. k \<notin> set existing) (map si_key iss)
    \<and> (\<forall>i \<in> set items. new_item_of now ws project actor i
         \<and> ri_vulnerability_id i = map_of reps (ri_issue_key i))
    \<and> db_items db' = db_items db @ items \<and> length (db_events db') = length (db_events db) + length items
    \<and> db_audits db' = db_audits db \<and> db_requests db' = db_requests db
    \<and> db_acceptances db' = db_acceptances db \<and> evolves db db'"
  using assms
proof (induction iss arbitrary: db)
  case Nil
  then show ?case by (simp add: evolves_refl)
next
  case (Cons issue iss)
  show ?case
  proof (cases "si_key issue \<in> set existing")
    case True
    with Cons.IH [OF Cons.prems(1)] Cons.prems show ?thesis by simp
  next
    case False
    with Cons.prems have "si_key issue \<notin> set (existing_keys project db)" by simp
    from create_item_fresh [OF Cons.prems(1) this, of now ws actor reps] obtain item db1 where
      c: "create_item now ws project actor reps issue db = Inr (item, db1)"
        "new_item_of now ws project actor item" "ri_issue_key item = si_key issue"
        "ri_vulnerability_id item = map_of reps (si_key issue)"
        "db_items db1 = db_items db @ [item]" "length (db_events db1) = Suc (length (db_events db))"
        "db_audits db1 = db_audits db" "db_requests db1 = db_requests db"
        "db_acceptances db1 = db_acceptances db" "evolves db db1" by blast
    have ex: "\<forall>i \<in> set iss. si_key i \<notin> set existing \<longrightarrow> si_key i \<notin> set (existing_keys project db1)"
      using Cons.prems(2,3) c(3,5) by (force simp: mem_existing_keys)
    have "distinct (map si_key iss)" using Cons.prems(2) by simp
    from Cons.IH [OF evolves_wf [OF c(10)] this ex] obtain items db2 where
      d: "create_items now ws project actor reps existing iss db1 = Inr (items, db2)"
        "map ri_issue_key items = filter (\<lambda>k. k \<notin> set existing) (map si_key iss)"
        "\<forall>i \<in> set items. new_item_of now ws project actor i
           \<and> ri_vulnerability_id i = map_of reps (ri_issue_key i)"
        "db_items db2 = db_items db1 @ items"
        "length (db_events db2) = length (db_events db1) + length items"
        "db_audits db2 = db_audits db1" "db_requests db2 = db_requests db1"
        "db_acceptances db2 = db_acceptances db1" "evolves db1 db2" by blast
    have "evolves db db2" using c(10) d(9) by (rule evolves_trans)
    with c d False show ?thesis by simp
  qed
qed

lemma create_items_none:
  "create_items now ws project actor reps existing iss db = Inr ([], db') \<Longrightarrow> db' = db"
  by (induction iss) (auto simp: res_bind_Inr_iff split: if_splits)

lemma sync_body_current:
  assumes "db_wf db"
  shows "\<exists>created db'. sync_body now ws project actor rows (existing_keys project db) db = Inr (created, db')
    \<and> map ri_issue_key created =
        filter (\<lambda>k. k \<notin> set (existing_keys project db)) (map si_key (group_issues (map snd rows)))
    \<and> (\<forall>i \<in> set created. new_item_of now ws project actor i
         \<and> ri_vulnerability_id i = map_of (rep_vulns rows []) (ri_issue_key i))
    \<and> db_items db' = db_items db @ created \<and> length (db_events db') = length (db_events db) + length created
    \<and> length (db_audits db') = length (db_audits db) + (if created = [] then 0 else 1)
    \<and> db_requests db' = db_requests db \<and> db_acceptances db' = db_acceptances db \<and> evolves db db'
    \<and> (created = [] \<longrightarrow> db_events db' = db_events db)"
proof (cases "group_issues (map snd rows) = []")
  case True
  then show ?thesis using assms by (simp add: sync_body_def evolves_refl)
next
  case False
  let ?iss = "group_issues (map snd rows)"
  have "distinct (map si_key ?iss)" by (rule keys_group_issues(1))
  from create_items_fresh [OF assms this, of "existing_keys project db" project now ws actor "rep_vulns rows []"]
  obtain items db1 where
    c: "create_items now ws project actor (rep_vulns rows []) (existing_keys project db) ?iss db = Inr (items, db1)"
      "map ri_issue_key items = filter (\<lambda>k. k \<notin> set (existing_keys project db)) (map si_key ?iss)"
      "\<forall>i \<in> set items. new_item_of now ws project actor i
         \<and> ri_vulnerability_id i = map_of (rep_vulns rows []) (ri_issue_key i)"
      "db_items db1 = db_items db @ items" "length (db_events db1) = length (db_events db) + length items"
      "db_audits db1 = db_audits db" "db_requests db1 = db_requests db"
      "db_acceptances db1 = db_acceptances db" "evolves db db1" by auto
  have "evolves db1 (audit_record w a ac rt ri d oc db1)" for w a ac rt ri d oc
    using evolves_wf [OF c(9)] by (rule evolves_audit_record)
  with c(9) have ev: "evolves db (audit_record w a ac rt ri d oc db1)" for w a ac rt ri d oc
    by (blast intro: evolves_trans)
  have e0: "items = [] \<longrightarrow> db_events db1 = db_events db"
    using c(5,9) by (auto simp: evolves_def)
  have sb: "sync_body now ws project actor rows (existing_keys project db) db =
      Inr (items, if items \<noteq> [] then
        audit_record ws actor ''remediation.items_synced'' ''remediation_item'' None
          (Some [Lit ''project='', Uid project, Lit '' created='', Num (int (length items))]) None db1
        else db1)"
    using False c(1) by (simp add: sync_body_def Let_def)
  show ?thesis
  proof (cases "items = []")
    case True
    show ?thesis
      by (rule exI [of _ items], rule exI [of _ db1], intro conjI)
        (use sb c e0 True in simp_all)
  next
    case False
    show ?thesis unfolding sb
      by (intro exI conjI, rule refl)
        (use c ev False in \<open>simp_all add: log_simps\<close>, simp add: audit_record_def)
  qed
qed

section \<open>The human mutations\<close>

lemma get_item_iff:
  assumes "unique_key ri_id (db_items db)"
  shows "get_item ws project i db = Inr r \<longleftrightarrow>
    item_row db i = Some r \<and> ri_project_id r = project \<and> ri_workspace_id r = ws"
proof -
  let ?P = "\<lambda>r. ri_id r = i \<and> ri_project_id r = project \<and> ri_workspace_id r = ws"
  have "find_row ?P (db_items db) = Some r \<longleftrightarrow> r \<in> set (db_items db) \<and> ?P r"
  proof
    assume r: "r \<in> set (db_items db) \<and> ?P r"
    then obtain r' where r': "find_row ?P (db_items db) = Some r'"
      by (cases "find_row ?P (db_items db)") (auto simp: find_row_None)
    with find_row_Some [OF r'] r unique_key_eq [OF assms] show "find_row ?P (db_items db) = Some r" by metis
  qed (rule find_row_Some)
  then show ?thesis by (auto simp: get_item_def item_row_iff [OF assms] split: option.splits)
qed

lemma get_item_row:
  "unique_key ri_id (db_items db) \<Longrightarrow> get_item ws project i db = Inr r \<Longrightarrow>
    item_row db i = Some r \<and> ri_id r = i \<and> item_row db (ri_id r) = Some r"
  by (simp add: get_item_iff) (auto dest: item_row_id)

lemma transition_body_current:
  assumes "unique_key ri_id (db_items db)" and "item_row db (ri_id r) = Some r"
  shows "transition_body now actor expected t detail r db =
    (if t \<in> set GUARDED_TARGETS then Inl (Http400 ''cannot be set directly'')
     else if \<not> is_legal (ri_status r) t then Inl (Http409 ''Illegal transition'')
     else if ri_version r \<noteq> expected then Inl (StaleVersion expected (Some (ri_version r)))
     else Inr (stamp now expected (set_status now t r),
       transition_result now r (Some actor) t (map_option (\<lambda>d. if d = [] then [] else [Lit d]) detail)
         ''remediation.transitioned'' ''transition'' db))"
  using assms by (simp add: transition_body_def apply_transition_current)

lemma transition_okE:
  assumes wf: "db_wf db" and ok: "transition now ws project i actor expected t detail db = Inr (x, db')"
  obtains r where "item_row db i = Some r" and "ri_id r = i" and "ri_workspace_id r = ws" and "ri_project_id r = project"
    and "t \<notin> set GUARDED_TARGETS" and "is_legal (ri_status r) t" and "ri_version r = expected"
    and "x = stamp now expected (set_status now t r)"
    and "db' = transition_result now r (Some actor) t
           (map_option (\<lambda>d. if d = [] then [] else [Lit d]) detail) ''remediation.transitioned'' ''transition'' db"
proof -
  from ok obtain r where r: "get_item ws project i db = Inr r"
    and b: "transition_body now actor expected t detail r db = Inr (x, db')"
    by (auto simp: transition_def res_bind_Inr_iff)
  note row = get_item_row [OF db_wfD(1) [OF wf] r]
  have "ri_workspace_id r = ws" "ri_project_id r = project"
    using r get_item_iff [OF db_wfD(1) [OF wf]] by auto
  with b row that [of r] show ?thesis
    unfolding transition_body_current [OF db_wfD(1) [OF wf] conjunct2 [OF conjunct2 [OF row]]]
    by (auto split: if_splits)
qed

lemma evolves_transition_body:
  "db_wf db \<Longrightarrow> transition_body now actor e t detail item db = Inr (x, db') \<Longrightarrow> evolves db db'"
  by (auto simp: transition_body_def split: if_splits intro: evolves_apply_transition)

lemma evolves_transition:
  "db_wf db \<Longrightarrow> transition now ws project i actor e t detail db = Inr (x, db') \<Longrightarrow> evolves db db'"
  by (auto simp: transition_def res_bind_Inr_iff intro: evolves_transition_body)

lemma patch_due_date_copy: "patch_due_date p item = (cs, item') \<Longrightarrow> workflow_copy item item'"
  by (auto simp: patch_due_date_def Let_def workflow_copy_def same_identity_def split: if_splits option.splits)

lemma patch_notes_copy: "patch_notes p item = (cs, item') \<Longrightarrow> workflow_copy item item'"
  by (auto simp: patch_notes_def workflow_copy_def same_identity_def split: if_splits option.splits)

lemma patch_priority_copy: "patch_priority p item = Inr (cs, item') \<Longrightarrow> workflow_copy item item'"
  by (auto simp: patch_priority_def workflow_copy_def same_identity_def split: if_splits option.splits)

lemma patch_assignee_copy: "patch_assignee ws p db item = Inr (cs, item') \<Longrightarrow> workflow_copy item item'"
  by (auto simp: patch_assignee_def workflow_copy_def same_identity_def res_bind_Inr_iff
      split: if_splits option.splits)

text \<open>The four steps of a patch, and what each of them guards.\<close>

lemma patch_itemE:
  assumes "patch_item ws p db item = Inr (cs, item')"
  obtains c1 i1 c2 i2 c3 i3 c4 where "patch_assignee ws p db item = Inr (c1, i1)"
    and "patch_due_date p i1 = (c2, i2)" and "patch_priority p i2 = Inr (c3, i3)"
    and "patch_notes p i3 = (c4, item')" and "cs = c1 @ c2 @ c3 @ c4"
proof -
  from assms obtain c1 i1 where 1: "patch_assignee ws p db item = Inr (c1, i1)"
    by (auto simp: patch_item_def res_bind_Inr_iff)
  obtain c2 i2 where 2: "patch_due_date p i1 = (c2, i2)" by force
  from assms 1 2 obtain c3 i3 where 3: "patch_priority p i2 = Inr (c3, i3)"
    by (auto simp: patch_item_def res_bind_Inr_iff)
  obtain c4 i4 where 4: "patch_notes p i3 = (c4, i4)" by force
  from assms 1 2 3 4 have "i4 = item'" "cs = c1 @ c2 @ c3 @ c4" by (simp_all add: patch_item_def)
  with 1 2 3 4 show ?thesis by (auto intro: that)
qed

lemma patch_item_copy: "patch_item ws p db item = Inr (cs, item') \<Longrightarrow> workflow_copy item item'"
  by (erule patch_itemE)
    (meson workflow_copy_trans patch_assignee_copy patch_due_date_copy patch_priority_copy patch_notes_copy)

lemma patch_status:
  "patch_assignee ws p db item = Inr (cs, item') \<Longrightarrow> ri_status item' = ri_status item
     \<and> ri_verified_at item' = ri_verified_at item \<and> ri_resolved_at item' = ri_resolved_at item"
  "patch_due_date p item = (cs, item') \<Longrightarrow> ri_status item' = ri_status item
     \<and> ri_verified_at item' = ri_verified_at item \<and> ri_resolved_at item' = ri_resolved_at item"
  "patch_priority p item = Inr (cs, item') \<Longrightarrow> ri_status item' = ri_status item
     \<and> ri_verified_at item' = ri_verified_at item \<and> ri_resolved_at item' = ri_resolved_at item"
  "patch_notes p item = (cs, item') \<Longrightarrow> ri_status item' = ri_status item
     \<and> ri_verified_at item' = ri_verified_at item \<and> ri_resolved_at item' = ri_resolved_at item"
  by (auto simp: patch_assignee_def patch_due_date_def patch_priority_def patch_notes_def Let_def
      res_bind_Inr_iff split: if_splits option.splits)

lemma patch_item_status:
  "patch_item ws p db item = Inr (cs, item') \<Longrightarrow> ri_status item' = ri_status item
     \<and> ri_verified_at item' = ri_verified_at item \<and> ri_resolved_at item' = ri_resolved_at item"
  by (erule patch_itemE) (auto dest!: patch_status)

lemma patch_guards:
  "patch_assignee ws p db item = Inr (cs, item') \<Longrightarrow> ri_priority item' = ri_priority item
     \<and> (ri_assignee_user_id item' \<noteq> ri_assignee_user_id item \<longrightarrow>
          (case ri_assignee_user_id item' of None \<Rightarrow> pa_clear_assignee p | Some m \<Rightarrow> (ws, m) \<in> set (db_members db)))"
  "patch_due_date p item = (cs, item') \<Longrightarrow> ri_priority item' = ri_priority item
     \<and> ri_assignee_user_id item' = ri_assignee_user_id item"
  "patch_priority p item = Inr (cs, item') \<Longrightarrow> ri_assignee_user_id item' = ri_assignee_user_id item
     \<and> (ri_priority item' \<noteq> ri_priority item \<longrightarrow> ri_priority item' \<in> set REMEDIATION_PRIORITIES)"
  "patch_notes p item = (cs, item') \<Longrightarrow> ri_priority item' = ri_priority item
     \<and> ri_assignee_user_id item' = ri_assignee_user_id item"
  by (auto simp: patch_assignee_def patch_due_date_def patch_priority_def patch_notes_def Let_def
      res_bind_Inr_iff require_workspace_member_def split: if_splits option.splits)

lemma patch_item_guards:
  "patch_item ws p db item = Inr (cs, item') \<Longrightarrow>
     (ri_assignee_user_id item' \<noteq> ri_assignee_user_id item \<longrightarrow>
        (case ri_assignee_user_id item' of None \<Rightarrow> pa_clear_assignee p | Some m \<Rightarrow> (ws, m) \<in> set (db_members db)))
     \<and> (ri_priority item' \<noteq> ri_priority item \<longrightarrow> ri_priority item' \<in> set REMEDIATION_PRIORITIES)"
  by (erule patch_itemE) (drule patch_guards, drule patch_guards, drule patch_guards, drule patch_guards, simp)

text \<open>No recorded change means the row is the one that was read.\<close>

lemma patch_no_change:
  "patch_assignee ws p db item = Inr ([], item') \<Longrightarrow> item' = item"
  "patch_due_date p item = ([], item') \<Longrightarrow> item' = item"
  "patch_priority p item = Inr ([], item') \<Longrightarrow> item' = item"
  "patch_notes p item = ([], item') \<Longrightarrow> item' = item"
  by (auto simp: patch_assignee_def patch_due_date_def patch_priority_def patch_notes_def Let_def
      res_bind_Inr_iff split: if_splits option.splits)

lemma patch_item_no_change: "patch_item ws p db item = Inr ([], item') \<Longrightarrow> item' = item"
  by (erule patch_itemE) (auto dest!: patch_no_change)

definition update_result ::
  "time \<Rightarrow> uuid \<Rightarrow> uuid \<Rightarrow> change list \<Rightarrow> rem_item \<Rightarrow> rem_item \<Rightarrow> rem_db \<Rightarrow> rem_db" where
  "update_result now ws actor changes r r' db =
     audit_record ws (Some actor) ''remediation.updated'' ''remediation_item'' (Some (ri_id r))
       (Some (join_details changes)) None
       (record_changes r (Some actor) changes (write_item (stamp now (ri_version r) r') db))"

lemma update_body_cas:
  assumes "unique_key ri_id (db_items db)"
  shows "update_body now ws actor expected p item db =
    res_bind (patch_item ws p db item) (\<lambda>(changes, item').
      if changes = [] then Inr (item, db)
      else res_bind (cas_write now item item' expected db) (\<lambda>db1.
        let db3 = audit_record ws (Some actor) ''remediation.updated'' ''remediation_item''
                    (Some (ri_id item)) (Some (join_details changes)) None
                    (record_changes item (Some actor) changes db1)
        in Inr (refresh item db3, db3)))"
  unfolding update_body_def flush_then_bump [OF assms] Let_def by (rule refl)

lemma evolves_update_body:
  assumes wf: "db_wf db" and ok: "update_body now ws actor e p item db = Inr (x, db')"
  shows "evolves db db'"
proof -
  from ok obtain cs item' where p: "patch_item ws p db item = Inr (cs, item')"
    and rest: "(if cs = [] then Inr (item, db)
       else res_bind (cas_write now item item' e db) (\<lambda>db1.
        let db3 = audit_record ws (Some actor) ''remediation.updated'' ''remediation_item''
                    (Some (ri_id item)) (Some (join_details cs)) None
                    (record_changes item (Some actor) cs db1)
        in Inr (refresh item db3, db3))) = Inr (x, db')"
    by (auto simp: update_body_cas [OF db_wfD(1) [OF wf]] res_bind_Inr_iff)
  show ?thesis
  proof (cases "cs = []")
    case True
    with rest wf show ?thesis by (simp add: evolves_refl)
  next
    case False
    with rest obtain db1 where c: "cas_write now item item' e db = Inr db1"
      and db': "db' = audit_record ws (Some actor) ''remediation.updated'' ''remediation_item''
                    (Some (ri_id item)) (Some (join_details cs)) None
                    (record_changes item (Some actor) cs db1)"
      by (auto simp: res_bind_Inr_iff Let_def)
    have e1: "evolves db db1" by (rule evolves_cas_write [OF wf c])
    have e2: "evolves db1 (record_changes item (Some actor) cs db1)"
      by (rule evolves_record_changes [OF evolves_wf [OF e1]])
    show ?thesis unfolding db'
      by (rule evolves_trans [OF evolves_trans [OF e1 e2] evolves_audit_record [OF evolves_wf [OF e2]]])
  qed
qed

lemma evolves_update_item:
  "db_wf db \<Longrightarrow> update_item now ws project i actor e p db = Inr (x, db') \<Longrightarrow> evolves db db'"
  by (auto simp: update_item_def res_bind_Inr_iff intro: evolves_update_body)

lemma update_body_current:
  assumes "unique_key ri_id (db_items db)" and "item_row db (ri_id r) = Some r"
  shows "update_body now ws actor expected p r db =
    res_bind (patch_item ws p db r) (\<lambda>(changes, r').
      if changes = [] then Inr (r, db)
      else if ri_version r \<noteq> expected then Inl (StaleVersion expected (Some (ri_version r)))
      else Inr (stamp now expected r', update_result now ws actor changes r r' db))"
proof (cases "patch_item ws p db r")
  case (Inr c)
  then obtain cs r' where c: "patch_item ws p db r = Inr (cs, r')" by (cases c) simp
  note cp = patch_item_copy [OF c]
  then have "ri_id r' = ri_id r" by (simp add: workflow_copy_def same_identity_def)
  with assms c cp show ?thesis
    by (simp add: update_body_cas cas_write_current update_result_def refresh_def Let_def log_simps
        item_row_write_item)
qed (simp add: update_body_def)

lemma update_okE:
  assumes wf: "db_wf db" and ok: "update_item now ws project i actor expected p db = Inr (x, db')"
  obtains r where "item_row db i = Some r" and "ri_id r = i" and "x = r" and "db' = db"
  | r cs r' where "item_row db i = Some r" and "ri_id r = i" and "patch_item ws p db r = Inr (cs, r')"
    and "cs \<noteq> []" and "ri_version r = expected" and "x = stamp now expected r'"
    and "db' = update_result now ws actor cs r r' db"
proof -
  from ok obtain r where r: "get_item ws project i db = Inr r"
    and b: "update_body now ws actor expected p r db = Inr (x, db')"
    by (auto simp: update_item_def res_bind_Inr_iff)
  note row = get_item_row [OF db_wfD(1) [OF wf] r]
  note cur = update_body_current [OF db_wfD(1) [OF wf] conjunct2 [OF conjunct2 [OF row]]]
  from b obtain cs r' where p: "patch_item ws p db r = Inr (cs, r')"
    unfolding cur by (auto simp: res_bind_Inr_iff)
  show ?thesis
  proof (cases "cs = []")
    case True
    with b p have "x = r" "db' = db" unfolding cur by simp_all
    with row that(1) show ?thesis by blast
  next
    case False
    with b p have "ri_version r = expected" "x = stamp now expected r'"
      "db' = update_result now ws actor cs r r' db" unfolding cur by (simp_all split: if_splits)
    with row p False that(2) show ?thesis by blast
  qed
qed

lemma reopen_okE:
  assumes wf: "db_wf db" and ok: "reopen_for_regression now ws project key db = Inr (x, db')"
  obtains "x = None" and "db' = db"
  | r where "item_row db (ri_id r) = Some r" and "ri_issue_key r = key" and "ri_project_id r = project"
    and "is_legal (ri_status r) STATUS_REOPENED"
    and "x = Some (stamp now (ri_version r) (set_status now STATUS_REOPENED r))"
    and "db' = transition_result now r None STATUS_REOPENED (Some [Lit ''re-detected by a scan''])
           ''remediation.reopened'' ''transition'' db"
proof (cases "find_row (\<lambda>r. ri_project_id r = project \<and> ri_workspace_id r = ws \<and> ri_issue_key r = key) (db_items db)")
  case None
  with ok that(1) show ?thesis by (auto simp: reopen_for_regression_def)
next
  case (Some r)
  then have r: "item_row db (ri_id r) = Some r" "ri_issue_key r = key" "ri_project_id r = project"
    using find_row_Some [OF Some] by (simp_all add: item_row_iff [OF db_wfD(1) [OF wf]])
  note cur = apply_transition_current [OF db_wfD(1) [OF wf] r(1)]
  show ?thesis
  proof (cases "is_legal (ri_status r) STATUS_REOPENED")
    case True
    with ok Some cur have "x = Some (stamp now (ri_version r) (set_status now STATUS_REOPENED r))"
      "db' = transition_result now r None STATUS_REOPENED (Some [Lit ''re-detected by a scan''])
           ''remediation.reopened'' ''transition'' db"
      by (simp_all add: reopen_for_regression_def)
    with that(2) r True show ?thesis by blast
  next
    case False
    with ok Some that(1) show ?thesis by (simp add: reopen_for_regression_def)
  qed
qed

lemma evolves_reopen:
  "db_wf db \<Longrightarrow> reopen_for_regression now ws project key db = Inr (x, db') \<Longrightarrow> evolves db db'"
  by (auto simp: reopen_for_regression_def res_bind_Inr_iff evolves_refl
      split: option.splits if_splits intro: evolves_apply_transition)

lemma evolves_sync:
  assumes "db_wf db" and "sync_items_for_project now ws project actor rows db = Inr (x, db')"
  shows "evolves db db'"
  using assms sync_body_current [OF assms(1), of now ws project actor rows]
  by (auto simp: sync_items_for_project_def res_bind_Inr_iff)

section \<open>Counting by status\<close>

lemma count_statuses_in:
  "distinct ss \<Longrightarrow> (\<Sum>s \<leftarrow> ss. length (filter (\<lambda>r. st r = s) rows)) = length (filter (\<lambda>r. st r \<in> set ss) rows)"
proof (induction rows)
  case (Cons r rows)
  have "(\<Sum>s \<leftarrow> ss. if st r = s then Suc (f s) else f s) = (\<Sum>s \<leftarrow> ss. f s) + (if st r \<in> set ss then 1 else 0)"
    if "distinct ss" for f :: "'a \<Rightarrow> nat" and ss
    using that by (induction ss) auto
  with Cons show ?case by (simp add: if_distrib cong: if_cong)
qed simp

lemma status_counts_total:
  "(\<Sum>s \<leftarrow> remdups (map ri_status rows). length (filter (\<lambda>r. ri_status r = s) rows)) = length rows"
  by (simp add: count_statuses_in filter_True)

lemma open_resolved_distinct: "distinct OPEN_STATUSES" "distinct RESOLVED_STATUSES"
  by (simp_all add: OPEN_STATUSES_def RESOLVED_STATUSES_def status_consts)

lemma rejected_neither: "STATUS_REJECTED \<notin> set OPEN_STATUSES" "STATUS_REJECTED \<notin> set RESOLVED_STATUSES"
  by (simp_all add: OPEN_STATUSES_def RESOLVED_STATUSES_def status_consts)

lemma length_filter_split: "length (filter P xs) + length (filter (\<lambda>x. \<not> P x) xs) = length xs"
  by (induction xs) auto

lemma status_counts_partition:
  assumes "\<forall>r \<in> set rows. ri_status r \<in> set REMEDIATION_STATUSES"
  shows "length rows = (\<Sum>s \<leftarrow> OPEN_STATUSES. length (filter (\<lambda>r. ri_status r = s) rows))
    + (\<Sum>s \<leftarrow> RESOLVED_STATUSES. length (filter (\<lambda>r. ri_status r = s) rows))
    + length (filter (\<lambda>r. ri_status r = STATUS_REJECTED) rows)"
  using assms unfolding count_statuses_in [OF open_resolved_distinct(1)] count_statuses_in [OF open_resolved_distinct(2)]
proof (induction rows)
  case (Cons r rows)
  have "ri_status r \<in> set OPEN_STATUSES \<union> set RESOLVED_STATUSES \<union> {STATUS_REJECTED}"
    using Cons.prems by (simp add: open_resolved_rejected_cover)
  moreover have "\<not> (ri_status r \<in> set OPEN_STATUSES \<and> ri_status r \<in> set RESOLVED_STATUSES)"
    using open_resolved_disjoint by blast
  ultimately show ?case using Cons rejected_neither by auto
qed simp

lemma overdue_le_open:
  "length (filter (sql_overdue now) rows) \<le> (\<Sum>s \<leftarrow> OPEN_STATUSES. length (filter (\<lambda>r. ri_status r = s) rows))"
  unfolding count_statuses_in [OF open_resolved_distinct(1)]
  by (induction rows) (auto simp: sql_overdue_def)

lemma percent_bounds:
  assumes "n \<le> m" and "0 < m"
  shows "0 \<le> py_round (real (100 * n) / real m) \<and> py_round (real (100 * n) / real m) \<le> 100"
proof -
  have "py_round (of_int 0) \<le> py_round (real (100 * n) / real m)" by (rule py_round_mono) simp
  moreover have "py_round (real (100 * n) / real m) \<le> py_round (of_int 100)"
    by (rule py_round_mono) (use assms in \<open>simp add: divide_le_eq\<close>)
  ultimately show ?thesis unfolding py_round_of_int by simp
qed

end
