(* ===== verification/Risk_Acceptance.thy ===== *)
theory Risk_Acceptance
  imports Remediation_Commit
begin

text \<open>
  \<open>modules/remediation/risk_service.py\<close> over the rows of \<open>risk_models.py\<close>: granting, revoking and
  expiring formal risk acceptances. \<open>accept_reads\<close> is what a grant reads before it writes anything
  and \<open>accept_writes\<close> what it then writes, so that two grants can also be interleaved. \<open>get_vulnerability\<close>
  carries the tenancy predicate of project-scoped tables, the project being of the workspace.
\<close>

section \<open>Operations\<close>

definition RA_ACTIVE :: string where "RA_ACTIVE = ''active''"
definition RA_EXPIRED :: string where "RA_EXPIRED = ''expired''"
definition RA_REVOKED :: string where "RA_REVOKED = ''revoked''"

lemma ra_status_neq [simp]:
  "RA_ACTIVE \<noteq> RA_EXPIRED" "RA_EXPIRED \<noteq> RA_ACTIVE" "RA_ACTIVE \<noteq> RA_REVOKED"
  "RA_REVOKED \<noteq> RA_ACTIVE" "RA_EXPIRED \<noteq> RA_REVOKED" "RA_REVOKED \<noteq> RA_EXPIRED"
  by (simp_all add: RA_ACTIVE_def RA_EXPIRED_def RA_REVOKED_def)

definition get_vulnerability :: "uuid \<Rightarrow> uuid \<Rightarrow> uuid \<Rightarrow> rem_db \<Rightarrow> http_error + vuln_row" where
  "get_vulnerability workspace project vuln_id db =
     (case find_row (\<lambda>v. vu_id v = vuln_id \<and> vu_project_id v = project
               \<and> List.member (db_projects db) (project, workspace)) (db_vulns db) of
        None \<Rightarrow> Inl (Http404 ''Vulnerability not found'')
      | Some v \<Rightarrow> Inr v)"

record accept_args =
  aa_vulnerability_id :: uuid
  aa_justification :: string
  aa_expires_at :: py_datetime
  aa_review_due_at :: "py_datetime option"
  aa_approved_by :: "uuid option"
  aa_item_id :: "uuid option"
  aa_expected_version :: "int option"

definition accept_reads ::
  "time \<Rightarrow> uuid \<Rightarrow> uuid \<Rightarrow> accept_args \<Rightarrow> rem_db \<Rightarrow> http_error + vuln_row \<times> rem_item option" where
  "accept_reads now workspace project args db =
     res_bind (get_vulnerability workspace project (aa_vulnerability_id args) db) (\<lambda>vuln.
       if aa_justification args = [] \<or> py_strip (aa_justification args) = []
       then Inl (Http400 ''A justification is required'')
       else if to_utc (aa_expires_at args) \<le> now
       then Inl (Http400 ''expires_at must be in the future'')
       else if find_row (\<lambda>a. ra_vulnerability_id a = aa_vulnerability_id args \<and> ra_status a = RA_ACTIVE)
                 (db_acceptances db) \<noteq> None
       then Inl (Http409 ''This vulnerability already has an active risk acceptance'')
       else (case aa_item_id args of
           None \<Rightarrow> Inr (vuln, None)
         | Some i \<Rightarrow>
             (case find_row (\<lambda>r. ri_id r = i \<and> ri_workspace_id r = workspace \<and> ri_project_id r = project)
                     (db_items db) of
                None \<Rightarrow> Inl (Http404 ''Remediation item not found'')
              | Some item \<Rightarrow> Inr (vuln, Some item))))"

definition new_acceptance ::
  "time \<Rightarrow> uuid \<Rightarrow> uuid \<Rightarrow> uuid \<Rightarrow> accept_args \<Rightarrow> vuln_row \<Rightarrow> rem_item option \<Rightarrow> uuid
   \<Rightarrow> risk_acceptance" where
  "new_acceptance now workspace project actor args vuln item new_id =
     \<lparr>ra_id = new_id, ra_workspace_id = workspace, ra_project_id = project,
      ra_vulnerability_id = vu_id vuln, ra_item_id = map_option ri_id item,
      ra_justification = py_strip (aa_justification args), ra_accepted_by = Some actor,
      ra_approved_by = aa_approved_by args, ra_expires_at = to_utc (aa_expires_at args),
      ra_review_due_at = map_option to_utc (aa_review_due_at args), ra_status = RA_ACTIVE,
      ra_revoked_by = None, ra_revoked_at = None, ra_revoke_reason = None, ra_created_at = now\<rparr>"

definition add_acceptance :: "risk_acceptance \<Rightarrow> rem_db \<Rightarrow> rem_db" where
  "add_acceptance a db = db\<lparr>db_acceptances := db_acceptances db @ [a], db_next := db_next db + 1\<rparr>"

definition accept_writes ::
  "time \<Rightarrow> uuid \<Rightarrow> uuid \<Rightarrow> uuid \<Rightarrow> accept_args \<Rightarrow> vuln_row \<times> rem_item option \<Rightarrow> rem_db
   \<Rightarrow> http_error + risk_acceptance \<times> rem_db" where
  "accept_writes now workspace project actor args rd db =
     (let vuln = fst rd;
          acceptance = new_acceptance now workspace project actor args vuln (snd rd) (db_next db);
          a_id = ra_id acceptance;
          expiry = ra_expires_at acceptance;
          db1 = audit_record workspace (Some actor) ''risk.accepted'' ''vulnerability'' (Some (vu_id vuln))
                  (Some [Lit ''acceptance='', Uid a_id, Lit '' expires='', Ts expiry, Lit '': '',
                         Lit (take 400 (py_strip (aa_justification args)))]) None
                  (add_acceptance acceptance db)
      in case snd rd of
           None \<Rightarrow> Inr (acceptance, db1)
         | Some item \<Rightarrow>
             if \<not> is_legal (ri_status item) STATUS_RISK_ACCEPTED
             then Inl (Http409 ''Cannot accept risk from remediation status'')
             else
               (let db2 = record_event item ''risk_accepted'' (Some actor) None None
                      (Some [Lit ''acceptance='', Uid a_id, Lit '' expires='', Ts expiry]) db1 in
                res_bind (apply_transition now item (Some actor)
                    (case aa_expected_version args of None \<Rightarrow> ri_version item | Some v \<Rightarrow> v)
                    STATUS_RISK_ACCEPTED (Some [Lit ''risk formally accepted''])
                    ''remediation.risk_accepted'' ''transition'' db2) (\<lambda>(_, db3). Inr (acceptance, db3))))"

definition accept_risk ::
  "time \<Rightarrow> uuid \<Rightarrow> uuid \<Rightarrow> uuid \<Rightarrow> accept_args \<Rightarrow> rem_db \<Rightarrow> http_error + risk_acceptance \<times> rem_db" where
  "accept_risk now workspace project actor args db =
     res_bind (accept_reads now workspace project args db) (\<lambda>rd.
       accept_writes now workspace project actor args rd db)"

definition get_acceptance :: "uuid \<Rightarrow> uuid \<Rightarrow> uuid \<Rightarrow> rem_db \<Rightarrow> http_error + risk_acceptance" where
  "get_acceptance workspace project acceptance_id db =
     (case find_row (\<lambda>a. ra_id a = acceptance_id \<and> ra_workspace_id a = workspace \<and> ra_project_id a = project)
             (db_acceptances db) of
        None \<Rightarrow> Inl (Http404 ''Risk acceptance not found'')
      | Some a \<Rightarrow> Inr a)"

definition write_acceptance :: "risk_acceptance \<Rightarrow> rem_db \<Rightarrow> rem_db" where
  "write_acceptance a db =
     db\<lparr>db_acceptances := update_where (\<lambda>x. ra_id x = ra_id a) (\<lambda>_. a) (db_acceptances db)\<rparr>"

text \<open>The event on the linked item, when the acceptance has one and it still exists.\<close>

definition note_on_item ::
  "uuid \<Rightarrow> uuid option \<Rightarrow> string \<Rightarrow> uuid option \<Rightarrow> fstring \<Rightarrow> rem_db \<Rightarrow> rem_db" where
  "note_on_item workspace item_id event_type actor detail db =
     (case item_id of
        None \<Rightarrow> db
      | Some i \<Rightarrow>
          (case find_row (\<lambda>r. ri_id r = i \<and> ri_workspace_id r = workspace) (db_items db) of
             None \<Rightarrow> db
           | Some item \<Rightarrow> record_event item event_type actor None None (Some detail) db))"

definition revoke_risk_acceptance ::
  "time \<Rightarrow> uuid \<Rightarrow> uuid \<Rightarrow> uuid \<Rightarrow> uuid \<Rightarrow> string \<Rightarrow> rem_db \<Rightarrow> http_error + risk_acceptance \<times> rem_db" where
  "revoke_risk_acceptance now workspace project acceptance_id actor reason db =
     res_bind (get_acceptance workspace project acceptance_id db) (\<lambda>a.
       if ra_status a \<noteq> RA_ACTIVE
       then Inl (Http409 ''Only an active acceptance can be revoked'')
       else
         (let a' = a\<lparr>ra_status := RA_REVOKED, ra_revoked_by := Some actor, ra_revoked_at := Some now,
                     ra_revoke_reason := Some reason\<rparr>;
              db1 = audit_record workspace (Some actor) ''risk.acceptance_revoked'' ''vulnerability''
                      (Some (ra_vulnerability_id a))
                      (Some [Lit ''acceptance='', Uid (ra_id a), Lit '': '', Lit (take 400 reason)]) None
                      (write_acceptance a' db);
              db2 = note_on_item workspace (ra_item_id a) ''risk_acceptance_revoked'' (Some actor)
                      [Lit ''acceptance='', Uid (ra_id a), Lit '': '', Lit (take 200 reason)] db1
          in Inr (a', db2)))"

definition list_acceptances ::
  "uuid \<Rightarrow> uuid \<Rightarrow> uuid option \<Rightarrow> string option \<Rightarrow> rem_db \<Rightarrow> risk_acceptance list" where
  "list_acceptances workspace project vuln_id status_filter db =
     sort_key (\<lambda>a. (- ra_created_at a, ra_id a))
       (filter (\<lambda>a. ra_workspace_id a = workspace \<and> ra_project_id a = project
            \<and> (vuln_id \<noteq> None \<longrightarrow> Some (ra_vulnerability_id a) = vuln_id)
            \<and> (truthy status_filter \<longrightarrow> Some (ra_status a) = status_filter)) (db_acceptances db))"

definition due_acceptances :: "time \<Rightarrow> uuid \<Rightarrow> rem_db \<Rightarrow> risk_acceptance list" where
  "due_acceptances now workspace db =
     filter (\<lambda>a. ra_workspace_id a = workspace \<and> ra_status a = RA_ACTIVE \<and> ra_expires_at a \<le> now)
       (db_acceptances db)"

definition expire_one :: "uuid \<Rightarrow> risk_acceptance \<Rightarrow> rem_db \<Rightarrow> rem_db" where
  "expire_one workspace a db =
     note_on_item workspace (ra_item_id a) ''risk_acceptance_expired'' None [Lit ''acceptance='', Uid (ra_id a)]
       (audit_record workspace None ''risk.acceptance_expired'' ''vulnerability'' (Some (ra_vulnerability_id a))
         (Some [Lit ''acceptance='', Uid (ra_id a), Lit '' expired_at='', Ts (ra_expires_at a)]) None
         (write_acceptance (a\<lparr>ra_status := RA_EXPIRED\<rparr>) db))"

definition expire_due_acceptances :: "time \<Rightarrow> uuid \<Rightarrow> rem_db \<Rightarrow> nat \<times> rem_db" where
  "expire_due_acceptances now workspace db =
     (let due = due_acceptances now workspace db in
      if due = [] then (0, db)
      else (length due, foldl (\<lambda>d a. expire_one workspace a d) db due))"

definition active_acceptance_vuln_ids :: "uuid \<Rightarrow> uuid \<Rightarrow> rem_db \<Rightarrow> uuid list" where
  "active_acceptance_vuln_ids workspace project db =
     remdups (map ra_vulnerability_id
       (filter (\<lambda>a. ra_workspace_id a = workspace \<and> ra_project_id a = project \<and> ra_status a = RA_ACTIVE)
         (db_acceptances db)))"

section \<open>What the operations do to the other tables\<close>

lemma add_acceptance_simps [log_simps]:
  "db_items (add_acceptance a db) = db_items db" "db_events (add_acceptance a db) = db_events db"
  "db_audits (add_acceptance a db) = db_audits db" "db_requests (add_acceptance a db) = db_requests db"
  "db_acceptances (add_acceptance a db) = db_acceptances db @ [a]"
  "item_row (add_acceptance a db) k = item_row db k"
  by (simp_all add: add_acceptance_def item_row_def)

lemma write_acceptance_simps [log_simps]:
  "db_items (write_acceptance a db) = db_items db" "db_events (write_acceptance a db) = db_events db"
  "db_audits (write_acceptance a db) = db_audits db" "db_requests (write_acceptance a db) = db_requests db"
  "db_next (write_acceptance a db) = db_next db"
  "item_row (write_acceptance a db) k = item_row db k"
  by (simp_all add: write_acceptance_def item_row_def)

lemma note_on_item_simps [log_simps]:
  "db_items (note_on_item w i t a d db) = db_items db"
  "db_audits (note_on_item w i t a d db) = db_audits db"
  "db_requests (note_on_item w i t a d db) = db_requests db"
  "db_acceptances (note_on_item w i t a d db) = db_acceptances db"
  "item_row (note_on_item w i t a d db) k = item_row db k"
  by (simp_all add: note_on_item_def log_simps split: option.splits)

lemma evolves_note_on_item: "db_wf db \<Longrightarrow> evolves db (note_on_item w i t a d db)"
  by (simp add: note_on_item_def evolves_refl evolves_record_event split: option.splits)

lemma evolves_add_acceptance:
  assumes "db_wf db" and "ra_id a = db_next db"
  shows "evolves db (add_acceptance a db)"
proof -
  have "db_next db \<notin> ra_id ` set (db_acceptances db)" using db_wfD(7) [OF assms(1)] by force
  then have "db_wf (add_acceptance a db)"
    using assms by (auto simp: db_wf_def add_acceptance_def unique_key_append list_all_iff less_Suc_eq)
  then show ?thesis by (auto simp: evolves_def log_simps) (simp add: add_acceptance_def)
qed

lemma evolves_write_acceptance:
  assumes "db_wf db" and "ra_id a < db_next db"
  shows "evolves db (write_acceptance a db)"
proof -
  have "map ra_id (update_where (\<lambda>x. ra_id x = ra_id a) (\<lambda>_. a) (db_acceptances db)) = map ra_id (db_acceptances db)"
    by (rule map_update_where_key) simp
  then have "db_wf (write_acceptance a db)"
    using assms by (auto simp: db_wf_def write_acceptance_def unique_key_def list_all_iff set_update_where)
  then show ?thesis by (simp add: evolves_def log_simps)
qed

section \<open>Effects\<close>

lemma accept_readsE:
  assumes "accept_reads now ws project args db = Inr (vuln, item)"
  obtains "vuln \<in> set (db_vulns db)" and "vu_id vuln = aa_vulnerability_id args" and "vu_project_id vuln = project"
    and "(project, ws) \<in> set (db_projects db)" and "py_strip (aa_justification args) \<noteq> []"
    and "now < to_utc (aa_expires_at args)"
    and "\<forall>a \<in> set (db_acceptances db). ra_vulnerability_id a = aa_vulnerability_id args \<longrightarrow> ra_status a \<noteq> RA_ACTIVE"
    and "map_option ri_id item = aa_item_id args"
    and "\<forall>r. item = Some r \<longrightarrow> r \<in> set (db_items db) \<and> ri_workspace_id r = ws \<and> ri_project_id r = project"
proof -
  from assms have v: "get_vulnerability ws project (aa_vulnerability_id args) db = Inr vuln"
    and j: "py_strip (aa_justification args) \<noteq> []" and e: "now < to_utc (aa_expires_at args)"
    and n: "find_row (\<lambda>a. ra_vulnerability_id a = aa_vulnerability_id args \<and> ra_status a = RA_ACTIVE)
              (db_acceptances db) = None"
    and i: "case aa_item_id args of None \<Rightarrow> item = None
       | Some i \<Rightarrow> \<exists>r. item = Some r \<and> find_row (\<lambda>r. ri_id r = i \<and> ri_workspace_id r = ws \<and> ri_project_id r = project) (db_items db) = Some r"
    by (auto simp: accept_reads_def res_bind_Inr_iff not_le split: if_splits option.splits)
  have "map_option ri_id item = aa_item_id args"
    "\<forall>r. item = Some r \<longrightarrow> r \<in> set (db_items db) \<and> ri_workspace_id r = ws \<and> ri_project_id r = project"
    using i by (auto split: option.splits dest!: find_row_Some)
  moreover have "vuln \<in> set (db_vulns db)" "vu_id vuln = aa_vulnerability_id args" "vu_project_id vuln = project"
    "(project, ws) \<in> set (db_projects db)"
    using v by (auto simp: get_vulnerability_def split: option.splits dest!: find_row_Some)
  moreover have "\<forall>a \<in> set (db_acceptances db). ra_vulnerability_id a = aa_vulnerability_id args \<longrightarrow> ra_status a \<noteq> RA_ACTIVE"
    using n by (auto simp: find_row_None)
  ultimately show ?thesis using j e that by blast
qed

lemma new_acceptance_simps [simp]:
  "ra_id (new_acceptance now ws p actor args v i n) = n"
  "ra_status (new_acceptance now ws p actor args v i n) = RA_ACTIVE"
  "ra_vulnerability_id (new_acceptance now ws p actor args v i n) = vu_id v"
  "ra_item_id (new_acceptance now ws p actor args v i n) = map_option ri_id i"
  "ra_workspace_id (new_acceptance now ws p actor args v i n) = ws"
  "ra_project_id (new_acceptance now ws p actor args v i n) = p"
  "ra_expires_at (new_acceptance now ws p actor args v i n) = to_utc (aa_expires_at args)"
  "ra_justification (new_acceptance now ws p actor args v i n) = py_strip (aa_justification args)"
  by (simp_all add: new_acceptance_def)

text \<open>
  What a grant commits. The reads may be older than the state written to: only the row count of
  the version check ties the two together.
\<close>

lemma accept_writes_ok:
  assumes wf: "db_wf db" and ok: "accept_writes now ws project actor args (vuln, item) db = Inr (a, db')"
  shows "a = new_acceptance now ws project actor args vuln item (db_next db)"
    and "db_acceptances db' = db_acceptances db @ [a]" and "db_requests db' = db_requests db"
    and "item = None \<Longrightarrow> db_items db' = db_items db"
    and "item = Some r \<Longrightarrow> is_legal (ri_status r) STATUS_RISK_ACCEPTED"
    and "evolves db db'"
proof -
  let ?a = "new_acceptance now ws project actor args vuln item (db_next db)"
  let ?db1 = "audit_record ws (Some actor) ''risk.accepted'' ''vulnerability'' (Some (vu_id vuln))
                  (Some [Lit ''acceptance='', Uid (ra_id ?a), Lit '' expires='', Ts (ra_expires_at ?a), Lit '': '',
                         Lit (take 400 (py_strip (aa_justification args)))]) None (add_acceptance ?a db)"
  have e1: "evolves db (add_acceptance ?a db)" by (rule evolves_add_acceptance [OF wf]) simp
  have e2: "evolves db ?db1"
    by (rule evolves_trans [OF e1 evolves_audit_record [OF evolves_wf [OF e1]]])
  show a: "a = ?a" using ok
    by (auto simp: accept_writes_def Let_def res_bind_Inr_iff split: option.splits if_splits)
  show "item = Some r \<Longrightarrow> is_legal (ri_status r) STATUS_RISK_ACCEPTED"
    using ok by (auto simp: accept_writes_def Let_def split: if_splits)
  show "item = None \<Longrightarrow> db_items db' = db_items db"
    using ok by (auto simp: accept_writes_def Let_def log_simps)
  show "db_acceptances db' = db_acceptances db @ [a]" "db_requests db' = db_requests db" "evolves db db'"
  proof (atomize (full), cases item)
    case None
    with ok have "db' = ?db1" by (auto simp: accept_writes_def Let_def)
    with e2 show "db_acceptances db' = db_acceptances db @ [a] \<and> db_requests db' = db_requests db \<and> evolves db db'"
      by (simp add: log_simps a)
  next
    case (Some r)
    let ?db2 = "record_event r ''risk_accepted'' (Some actor) None None
                (Some [Lit ''acceptance='', Uid (ra_id ?a), Lit '' expires='', Ts (ra_expires_at ?a)]) ?db1"
    from ok Some obtain y where t: "apply_transition now r (Some actor)
        (case aa_expected_version args of None \<Rightarrow> ri_version r | Some v \<Rightarrow> v) STATUS_RISK_ACCEPTED
        (Some [Lit ''risk formally accepted'']) ''remediation.risk_accepted'' ''transition'' ?db2 = Inr (y, db')"
      by (auto simp: accept_writes_def Let_def res_bind_Inr_iff split: if_splits)
    have e3: "evolves db ?db2"
      by (rule evolves_trans [OF e2 evolves_record_event [OF evolves_wf [OF e2]]])
    note wf2 = evolves_wf [OF e3]
    have "evolves db db'" by (rule evolves_trans [OF e3 evolves_apply_transition [OF wf2 t]])
    moreover have "db_acceptances db' = db_acceptances ?db2 \<and> db_requests db' = db_requests ?db2"
      using t unfolding apply_transition_cas [OF db_wfD(1) [OF wf2]]
      by (auto simp: res_bind_Inr_iff Let_def log_simps cas_write_def update_items_def
          split: option.splits if_splits)
    ultimately show "db_acceptances db' = db_acceptances db @ [a] \<and> db_requests db' = db_requests db \<and> evolves db db'"
      by (simp add: log_simps a)
  qed
qed

lemma accept_okE:
  assumes wf: "db_wf db" and ok: "accept_risk now ws project actor args db = Inr (a, db')"
  obtains vuln item where "accept_reads now ws project args db = Inr (vuln, item)"
    and "accept_writes now ws project actor args (vuln, item) db = Inr (a, db')"
  using ok by (auto simp: accept_risk_def res_bind_Inr_iff)

lemma evolves_accept:
  assumes "db_wf db" and "accept_risk now ws project actor args db = Inr (a, db')"
  shows "evolves db db'"
  using assms by (rule accept_okE) (rule accept_writes_ok(6) [OF assms(1)])

text \<open>Run alone, a grant with an item moves exactly that item, from a status that allows it.\<close>

lemma accept_item_row:
  assumes wf: "db_wf db" and rd: "accept_reads now ws project args db = Inr (vuln, Some r)"
    and ok: "accept_writes now ws project actor args (vuln, Some r) db = Inr (a, db')"
  shows "item_row db (ri_id r) = Some r"
    and "item_row db' k = (if k = ri_id r
      then Some (stamp now (ri_version r) (set_status now STATUS_RISK_ACCEPTED r)) else item_row db k)"
    and "case aa_expected_version args of None \<Rightarrow> True | Some v \<Rightarrow> v = ri_version r"
proof -
  have "r \<in> set (db_items db)" using rd by (rule accept_readsE) simp
  then show row: "item_row db (ri_id r) = Some r" by (simp add: item_row_iff [OF db_wfD(1) [OF wf]])
  let ?a = "new_acceptance now ws project actor args vuln (Some r) (db_next db)"
  let ?db2 = "record_event r ''risk_accepted'' (Some actor) None None
      (Some [Lit ''acceptance='', Uid (ra_id ?a), Lit '' expires='', Ts (ra_expires_at ?a)])
      (audit_record ws (Some actor) ''risk.accepted'' ''vulnerability'' (Some (vu_id vuln))
        (Some [Lit ''acceptance='', Uid (ra_id ?a), Lit '' expires='', Ts (ra_expires_at ?a), Lit '': '',
               Lit (take 400 (py_strip (aa_justification args)))]) None (add_acceptance ?a db))"
  let ?v = "case aa_expected_version args of None \<Rightarrow> ri_version r | Some v \<Rightarrow> v"
  have u: "unique_key ri_id (db_items ?db2)" using db_wfD(1) [OF wf] by (simp add: log_simps)
  have row2: "item_row ?db2 (ri_id r) = Some r" using row by (simp add: log_simps)
  note cur = apply_transition_current [OF u row2]
  from ok have "\<exists>y. apply_transition now r (Some actor) ?v STATUS_RISK_ACCEPTED
      (Some [Lit ''risk formally accepted'']) ''remediation.risk_accepted'' ''transition'' ?db2 = Inr (y, db')"
    by (auto simp: accept_writes_def Let_def res_bind_Inr_iff split: if_splits)
  then have v: "ri_version r = ?v" and db': "db' = transition_result now r (Some actor) STATUS_RISK_ACCEPTED
      (Some [Lit ''risk formally accepted'']) ''remediation.risk_accepted'' ''transition'' ?db2"
    unfolding cur by (auto split: if_splits)
  show "item_row db' k = (if k = ri_id r
      then Some (stamp now (ri_version r) (set_status now STATUS_RISK_ACCEPTED r)) else item_row db k)"
    using row by (simp add: db' log_simps item_row_write_item)
  show "case aa_expected_version args of None \<Rightarrow> True | Some v \<Rightarrow> v = ri_version r"
    using v by (auto split: option.splits)
qed

lemma revoke_okE:
  assumes wf: "db_wf db" and ok: "revoke_risk_acceptance now ws project i actor reason db = Inr (a', db')"
  obtains a where "a \<in> set (db_acceptances db)" and "ra_id a = i" and "ra_status a = RA_ACTIVE"
    and "a' = a\<lparr>ra_status := RA_REVOKED, ra_revoked_by := Some actor, ra_revoked_at := Some now,
                ra_revoke_reason := Some reason\<rparr>"
    and "db_acceptances db' = update_where (\<lambda>x. ra_id x = i) (\<lambda>_. a') (db_acceptances db)"
    and "db_items db' = db_items db" and "db_requests db' = db_requests db" and "evolves db db'"
proof -
  from ok obtain a where g: "get_acceptance ws project i db = Inr a" and st: "ra_status a = RA_ACTIVE"
    by (auto simp: revoke_risk_acceptance_def res_bind_Inr_iff split: if_splits)
  then have a: "a \<in> set (db_acceptances db)" "ra_id a = i"
    by (auto simp: get_acceptance_def split: option.splits dest!: find_row_Some)
  let ?a = "a\<lparr>ra_status := RA_REVOKED, ra_revoked_by := Some actor, ra_revoked_at := Some now,
              ra_revoke_reason := Some reason\<rparr>"
  let ?db1 = "audit_record ws (Some actor) ''risk.acceptance_revoked'' ''vulnerability''
                (Some (ra_vulnerability_id a))
                (Some [Lit ''acceptance='', Uid (ra_id a), Lit '': '', Lit (take 400 reason)]) None
                (write_acceptance ?a db)"
  from ok g st have r: "a' = ?a" "db' = note_on_item ws (ra_item_id a) ''risk_acceptance_revoked'' (Some actor)
      [Lit ''acceptance='', Uid (ra_id a), Lit '': '', Lit (take 200 reason)] ?db1"
    by (auto simp: revoke_risk_acceptance_def Let_def)
  have e1: "evolves db (write_acceptance ?a db)"
    using db_wfD(7) [OF wf a(1)] by (intro evolves_write_acceptance [OF wf]) simp
  have e2: "evolves db ?db1" by (rule evolves_trans [OF e1 evolves_audit_record [OF evolves_wf [OF e1]]])
  have "evolves db db'" unfolding r by (rule evolves_trans [OF e2 evolves_note_on_item [OF evolves_wf [OF e2]]])
  with a st r show ?thesis by (intro that [of a]) (auto simp: log_simps write_acceptance_def)
qed

section \<open>Expiry\<close>

definition is_due :: "time \<Rightarrow> uuid \<Rightarrow> risk_acceptance \<Rightarrow> bool" where
  "is_due now ws a = (ra_workspace_id a = ws \<and> ra_status a = RA_ACTIVE \<and> ra_expires_at a \<le> now)"

lemma due_acceptances_filter: "due_acceptances now ws db = filter (is_due now ws) (db_acceptances db)"
  by (simp add: due_acceptances_def is_due_def cong: filter_cong)

lemma expire_one_simps [log_simps]:
  "db_items (expire_one ws a db) = db_items db" "db_requests (expire_one ws a db) = db_requests db"
  "db_acceptances (expire_one ws a db) =
     update_where (\<lambda>x. ra_id x = ra_id a) (\<lambda>_. a\<lparr>ra_status := RA_EXPIRED\<rparr>) (db_acceptances db)"
  "item_row (expire_one ws a db) k = item_row db k"
  by (simp_all add: expire_one_def log_simps) (simp add: write_acceptance_def)

lemma evolves_expire_one:
  assumes "db_wf db" and "ra_id a < db_next db"
  shows "evolves db (expire_one ws a db)"
proof -
  let ?w = "write_acceptance (a\<lparr>ra_status := RA_EXPIRED\<rparr>) db"
  have e: "evolves db ?w" using assms by (intro evolves_write_acceptance) simp_all
  have "evolves db (audit_record w ac an rt ri d oc ?w)" for w ac an rt ri d oc
    by (rule evolves_trans [OF e evolves_audit_record [OF evolves_wf [OF e]]])
  then show ?thesis unfolding expire_one_def
    by (meson evolves_trans evolves_note_on_item evolves_wf)
qed

lemma expire_fold:
  assumes "db_wf db" and "set ds \<subseteq> set (db_acceptances db)"
  shows "evolves db (foldl (\<lambda>d a. expire_one ws a d) db ds)
    \<and> db_items (foldl (\<lambda>d a. expire_one ws a d) db ds) = db_items db
    \<and> db_requests (foldl (\<lambda>d a. expire_one ws a d) db ds) = db_requests db
    \<and> db_acceptances (foldl (\<lambda>d a. expire_one ws a d) db ds) =
        map (\<lambda>x. if x \<in> set ds then x\<lparr>ra_status := RA_EXPIRED\<rparr> else x) (db_acceptances db)"
  using assms(2)
proof (induction ds rule: rev_induct)
  case Nil
  show ?case using assms(1) by (simp add: evolves_refl)
next
  case (snoc d ds)
  let ?f = "foldl (\<lambda>d a. expire_one ws a d) db ds"
  from snoc have ih: "evolves db ?f" "db_items ?f = db_items db" "db_requests ?f = db_requests db"
    "db_acceptances ?f = map (\<lambda>x. if x \<in> set ds then x\<lparr>ra_status := RA_EXPIRED\<rparr> else x) (db_acceptances db)"
    by auto
  have d: "d \<in> set (db_acceptances db)" using snoc.prems by simp
  have "ra_id d < db_next ?f"
    using db_wfD(7) [OF assms(1) d] ih(1) by (simp add: evolves_def)
  then have "evolves db (expire_one ws d ?f)"
    by (rule evolves_trans [OF ih(1) evolves_expire_one [OF evolves_wf [OF ih(1)]]])
  moreover have "x = d" if "x \<in> set (db_acceptances db)" "ra_id x = ra_id d" for x
    using unique_key_eq [OF db_wfD(4) [OF assms(1)] that(1) d that(2)] .
  then have "update_where (\<lambda>x. ra_id x = ra_id d) (\<lambda>_. d\<lparr>ra_status := RA_EXPIRED\<rparr>) (db_acceptances ?f) =
      map (\<lambda>x. if x \<in> set (ds @ [d]) then x\<lparr>ra_status := RA_EXPIRED\<rparr> else x) (db_acceptances db)"
    unfolding ih(4) update_where_def by auto
  ultimately show ?case using ih by (simp add: log_simps)
qed

lemma expire_effect:
  assumes wf: "db_wf db" and ok: "expire_due_acceptances now ws db = (n, db')"
  shows "evolves db db'" and "db_items db' = db_items db" and "db_requests db' = db_requests db"
    and "n = length (filter (is_due now ws) (db_acceptances db))"
    and "db_acceptances db' =
      map (\<lambda>a. if is_due now ws a then a\<lparr>ra_status := RA_EXPIRED\<rparr> else a) (db_acceptances db)"
proof -
  let ?ds = "filter (is_due now ws) (db_acceptances db)"
  have n: "n = length ?ds" and db': "db' = foldl (\<lambda>d a. expire_one ws a d) db ?ds"
    using ok by (auto simp: expire_due_acceptances_def Let_def due_acceptances_filter split: if_splits)
  have "set ?ds \<subseteq> set (db_acceptances db)" by auto
  note f = expire_fold [OF wf this, of ws, folded db']
  from f show "evolves db db'" "db_items db' = db_items db" "db_requests db' = db_requests db" by simp_all
  show "n = length ?ds" by (rule n)
  show "db_acceptances db' =
      map (\<lambda>a. if is_due now ws a then a\<lparr>ra_status := RA_EXPIRED\<rparr> else a) (db_acceptances db)"
    using f by auto
qed

section \<open>At most one active acceptance\<close>

definition at_most_one_active :: "rem_db \<Rightarrow> bool" where
  "at_most_one_active db =
     (\<forall>a \<in> set (db_acceptances db). \<forall>b \<in> set (db_acceptances db).
        ra_status a = RA_ACTIVE \<longrightarrow> ra_status b = RA_ACTIVE \<longrightarrow>
        ra_vulnerability_id a = ra_vulnerability_id b \<longrightarrow> ra_id a = ra_id b)"

lemma at_most_one_activeD:
  "at_most_one_active db \<Longrightarrow> a \<in> set (db_acceptances db) \<Longrightarrow> b \<in> set (db_acceptances db) \<Longrightarrow>
    ra_status a = RA_ACTIVE \<Longrightarrow> ra_status b = RA_ACTIVE \<Longrightarrow>
    ra_vulnerability_id a = ra_vulnerability_id b \<Longrightarrow> ra_id a = ra_id b"
  unfolding at_most_one_active_def by (drule (1) bspec, drule (1) bspec) simp

lemma at_most_one_active_accept:
  assumes wf: "db_wf db" and inv: "at_most_one_active db"
    and ok: "accept_risk now ws project actor args db = Inr (a, db')"
  shows "at_most_one_active db'"
proof -
  from ok obtain vuln item where rd: "accept_reads now ws project args db = Inr (vuln, item)"
    and w: "accept_writes now ws project actor args (vuln, item) db = Inr (a, db')"
    by (rule accept_okE [OF wf])
  have no: "\<forall>x \<in> set (db_acceptances db). ra_vulnerability_id x = vu_id vuln \<longrightarrow> ra_status x \<noteq> RA_ACTIVE"
    using rd by (rule accept_readsE) simp
  have a: "ra_vulnerability_id a = vu_id vuln" using accept_writes_ok(1) [OF wf w] by simp
  have s: "set (db_acceptances db') = insert a (set (db_acceptances db))"
    using accept_writes_ok(2) [OF wf w] by simp
  show ?thesis unfolding at_most_one_active_def
  proof (intro ballI impI)
    fix x y
    assume xy: "x \<in> set (db_acceptances db')" "y \<in> set (db_acceptances db')" "ra_status x = RA_ACTIVE"
      "ra_status y = RA_ACTIVE" "ra_vulnerability_id x = ra_vulnerability_id y"
    show "ra_id x = ra_id y"
    proof (cases "x = a \<or> y = a")
      case True
      with xy no a s show ?thesis by auto
    next
      case False
      with xy s have "x \<in> set (db_acceptances db)" "y \<in> set (db_acceptances db)" by simp_all
      from at_most_one_activeD [OF inv this xy(3-5)] show ?thesis .
    qed
  qed
qed

lemma at_most_one_active_map:
  assumes "at_most_one_active db" and "db_acceptances db' = map f (db_acceptances db)"
    and "\<And>a. f a = a \<or> (ra_status (f a) \<noteq> RA_ACTIVE)"
  shows "at_most_one_active db'"
  unfolding at_most_one_active_def
proof (intro ballI impI)
  fix x y
  assume xy: "x \<in> set (db_acceptances db')" "y \<in> set (db_acceptances db')" "ra_status x = RA_ACTIVE"
    "ra_status y = RA_ACTIVE" "ra_vulnerability_id x = ra_vulnerability_id y"
  from xy(1,2) assms(2) obtain x' y' where m: "x' \<in> set (db_acceptances db)" "x = f x'"
    "y' \<in> set (db_acceptances db)" "y = f y'" by auto
  have "x = x'" "y = y'" using m(2,4) xy(3,4) assms(3) [of x'] assms(3) [of y'] by auto
  with m have "x \<in> set (db_acceptances db)" "y \<in> set (db_acceptances db)" by simp_all
  from at_most_one_activeD [OF assms(1) this xy(3-5)] show "ra_id x = ra_id y" .
qed

text \<open>
  Two grants whose reads both precede both writes: whatever the second one writes, the
  vulnerability ends with two active acceptances. Nothing that a grant writes depends on the
  absence it read.
\<close>

lemma interleaved_grants:
  assumes wf: "db_wf db" and rd: "accept_reads now ws p args db = Inr (vuln, item)"
    and w1: "accept_writes now1 ws1 p1 actor1 args1 (vuln, item1) db = Inr (a1, db1)"
    and w2: "accept_writes now ws p actor args (vuln, item) db1 = Inr (a2, db2)"
  shows "\<not> at_most_one_active db2"
proof -
  note e1 = accept_writes_ok(6) [OF wf w1]
  note wf1 = evolves_wf [OF e1]
  have "a1 \<in> set (db_acceptances db1)" using accept_writes_ok(2) [OF wf w1] by simp
  then have lt: "ra_id a1 < db_next db1" by (rule db_wfD(7) [OF wf1])
  have m: "a1 \<in> set (db_acceptances db2)" "a2 \<in> set (db_acceptances db2)"
    using accept_writes_ok(2) [OF wf w1] accept_writes_ok(2) [OF wf1 w2] by simp_all
  have ne: "ra_id a1 \<noteq> ra_id a2" using lt accept_writes_ok(1) [OF wf1 w2] by simp
  have st: "ra_status a1 = RA_ACTIVE" "ra_status a2 = RA_ACTIVE"
    "ra_vulnerability_id a1 = ra_vulnerability_id a2"
    using accept_writes_ok(1) [OF wf w1] accept_writes_ok(1) [OF wf1 w2] by simp_all
  show ?thesis
  proof
    assume "at_most_one_active db2"
    from at_most_one_activeD [OF this m st] ne show False by simp
  qed
qed

end
