(* ===== verification/Json_Data.thy ===== *)
theory Json_Data
  imports Mbs_Prelude
begin

text \<open>
  JSON documents as the platform stores them in its JSON columns and exchanges them with workers,
  and Python dicts as lists of key-value pairs: \<open>get\<close>, assignment, \<open>{**a, **b}\<close>, and MySQL's
  \<open>JSON_MERGE_PATCH\<close>. Text built by interpolation is kept as its fragments (\<open>JText\<close>), so the text of
  an identifier can be read back as the identifier; every other text is \<open>JStr\<close>.
\<close>

datatype json =
    JNull | JBool bool | JNum int | JStr string | JText fstring
  | JArr "json list" | JObj "(string \<times> json) list"

type_synonym dict = "(string \<times> json) list"

section \<open>Dicts\<close>

definition dict_get :: "string \<Rightarrow> dict \<Rightarrow> json option" where
  "dict_get k d = map_of d k"

fun dict_put :: "string \<Rightarrow> json \<Rightarrow> dict \<Rightarrow> dict" where
  "dict_put k v [] = [(k, v)]"
| "dict_put k v ((k', v') # d) = (if k' = k then (k, v) # d else (k', v') # dict_put k v d)"

definition dict_del :: "string \<Rightarrow> dict \<Rightarrow> dict" where
  "dict_del k d = filter (\<lambda>e. fst e \<noteq> k) d"

text \<open>\<open>{**a, **b}\<close>: the entries of \<open>b\<close> over those of \<open>a\<close>, in the order of first insertion.\<close>

definition dict_merge :: "dict \<Rightarrow> dict \<Rightarrow> dict" where
  "dict_merge a b = fold (\<lambda>(k, v) d. dict_put k v d) b a"

definition dict_keys :: "dict \<Rightarrow> string set" where
  "dict_keys d = fst ` set d"

lemma dict_get_put [simp]:
  "dict_get k (dict_put k' v d) = (if k = k' then Some v else dict_get k d)"
  by (induction k' v d rule: dict_put.induct) (auto simp: dict_get_def)

lemma dict_get_del [simp]: "dict_get k (dict_del k' d) = (if k = k' then None else dict_get k d)"
  by (induction d) (auto simp: dict_get_def dict_del_def)

lemma dict_get_Nil [simp]: "dict_get k [] = None"
  by (simp add: dict_get_def)

lemma dict_get_Cons [simp]:
  "dict_get k ((k', v) # d) = (if k' = k then Some v else dict_get k d)"
  by (simp add: dict_get_def)

lemma dict_merge_Nil [simp]: "dict_merge a [] = a"
  by (simp add: dict_merge_def)

lemma dict_merge_Cons: "dict_merge a ((k, v) # b) = dict_merge (dict_put k v a) b"
  by (simp add: dict_merge_def)

lemma dict_get_merge:
  "distinct (map fst b) \<Longrightarrow>
    dict_get k (dict_merge a b) = (case dict_get k b of None \<Rightarrow> dict_get k a | Some v \<Rightarrow> Some v)"
proof (induction b arbitrary: a)
  case (Cons e b)
  obtain k' v where e: "e = (k', v)" by (cases e)
  have "k' \<notin> fst ` set b" using Cons.prems e by simp
  then have "dict_get k' b = None" by (simp add: dict_get_def map_of_eq_None_iff)
  with Cons e show ?case by (auto simp: dict_merge_Cons split: option.split)
qed simp

lemma dict_get_merge_left:
  "dict_get k b = None \<Longrightarrow> dict_get k (dict_merge a b) = dict_get k a"
proof (induction b arbitrary: a)
  case (Cons e b)
  obtain k' v where e: "e = (k', v)" by (cases e)
  with Cons.prems have "dict_get k b = None" and "k \<noteq> k'"
    by (auto split: if_splits)
  with Cons.IH e show ?case by (simp add: dict_merge_Cons)
qed simp

lemma dict_get_None_iff: "dict_get k d = None \<longleftrightarrow> k \<notin> dict_keys d"
  by (simp add: dict_get_def dict_keys_def map_of_eq_None_iff)

lemma dict_keys_put [simp]: "dict_keys (dict_put k v d) = insert k (dict_keys d)"
  by (induction k v d rule: dict_put.induct) (auto simp: dict_keys_def)

lemma dict_keys_Cons: "dict_keys ((k, v) # d) = insert k (dict_keys d)"
  by (simp add: dict_keys_def)

lemma dict_keys_merge [simp]: "dict_keys (dict_merge a b) = dict_keys a \<union> dict_keys b"
proof (induction b arbitrary: a)
  case (Cons x b)
  obtain k v where "x = (k, v)" by (cases x)
  with Cons show ?case by (simp add: dict_merge_Cons dict_keys_Cons)
qed (simp add: dict_keys_def)

lemma distinct_put: "distinct (map fst d) \<Longrightarrow> distinct (map fst (dict_put k v d))"
proof (induction k v d rule: dict_put.induct)
  case (2 k v k' v' d)
  have "k' \<notin> fst ` set (dict_put k v d)" if "k' \<noteq> k"
    using that 2(2) dict_keys_put [of k v d] by (auto simp: dict_keys_def)
  with 2 show ?case by auto
qed simp

section \<open>Python truthiness\<close>

definition json_truthy :: "json option \<Rightarrow> bool" where
  "json_truthy v =
     (case v of None \<Rightarrow> False | Some j \<Rightarrow>
       (case j of JNull \<Rightarrow> False | JBool b \<Rightarrow> b | JNum n \<Rightarrow> n \<noteq> 0 | JStr s \<Rightarrow> s \<noteq> [] | JText t \<Rightarrow> t \<noteq> []
        | JArr xs \<Rightarrow> xs \<noteq> [] | JObj d \<Rightarrow> d \<noteq> []))"

text \<open>
  The text of a value that is text, else nothing: \<open>(d.get(k) or "")\<close> on the keys that the platform
  writes as text or null.
\<close>

definition json_text :: "json option \<Rightarrow> string" where
  "json_text v = (case v of Some (JStr s) \<Rightarrow> s | _ \<Rightarrow> [])"

text \<open>\<open>uuid.UUID(str(v))\<close>: the identifier that the text prints, or a \<open>ValueError\<close>.\<close>

definition json_uuid :: "json \<Rightarrow> uuid option" where
  "json_uuid v = (case v of JText [Uid u] \<Rightarrow> Some u | _ \<Rightarrow> None)"

definition uuid_text :: "uuid \<Rightarrow> json" where
  "uuid_text u = JText [Uid u]"

lemma json_uuid_text [simp]: "json_uuid (uuid_text u) = Some u"
  by (simp add: json_uuid_def uuid_text_def)

lemma uuid_text_truthy [simp]: "json_truthy (Some (uuid_text u))"
  by (simp add: json_truthy_def uuid_text_def)

definition json_strings :: "json option \<Rightarrow> string list" where
  "json_strings v =
     (case v of Some (JArr xs) \<Rightarrow> concat (map (\<lambda>x. case x of JStr s \<Rightarrow> [s] | _ \<Rightarrow> []) xs) | _ \<Rightarrow> [])"

text \<open>\<open>str(n)\<close> of an integer.\<close>

fun nat_text :: "nat \<Rightarrow> string" where
  "nat_text n = (if n < 10 then [char_of (48 + n)] else nat_text (n div 10) @ [char_of (48 + n mod 10)])"

declare nat_text.simps [simp del]

definition int_text :: "int \<Rightarrow> string" where
  "int_text n = (if n < 0 then CHR ''-'' # nat_text (nat (- n)) else nat_text (nat n))"

section \<open>\<open>JSON_MERGE_PATCH\<close>\<close>

text \<open>RFC 7396: an object patch is merged key by key, null removes a key, anything else replaces.\<close>

definition json_fields :: "json option \<Rightarrow> dict" where
  "json_fields v = (case v of Some (JObj d) \<Rightarrow> d | _ \<Rightarrow> [])"

fun merge_patch :: "json option \<Rightarrow> json \<Rightarrow> json" and merge_fields :: "dict \<Rightarrow> dict \<Rightarrow> dict" where
  "merge_patch t (JObj ps) = JObj (merge_fields (json_fields t) ps)"
| "merge_patch t p = p"
| "merge_fields d [] = d"
| "merge_fields d ((k, p) # ps) =
     merge_fields (if p = JNull then dict_del k d else dict_put k (merge_patch (dict_get k d) p) d) ps"

lemma merge_fields_other:
  "k \<notin> fst ` set ps \<Longrightarrow> dict_get k (merge_fields d ps) = dict_get k d"
  by (induction ps arbitrary: d) auto

end
