(* ===== verification/Scan_Lifecycle.thy ===== *)
theory Scan_Lifecycle
  imports Row_Interfaces Json_Data
begin

text \<open>
  The life of a scan row (\<open>modules/scans/models.py\<close>): the atomic claim, the fenced terminal write, the
  heartbeat, the orphan reaper and the tool-run reconciler of \<open>scanner_engine/orchestrator.py\<close>, the
  requeue of \<open>celery_app/shutdown.py\<close>, the cancellation of \<open>modules/scans/service.py\<close>, and the relay's
  mark of \<open>celery_app/tasks/scan_tasks.py\<close>. Each is one conditional \<open>UPDATE\<close>; the clock is an argument.
  The system of the last section lets anyone perform any of them at any time.
\<close>

section \<open>Rows\<close>

record scan =
  sn_id :: uuid
  sn_workspace_id :: uuid
  sn_project_id :: uuid
  sn_target_id :: uuid
  sn_initiated_by :: uuid
  sn_scan_type :: string
  sn_status :: string
  sn_config :: dict
  sn_celery_task_id :: "string option"
  sn_execution_token :: "uuid option"
  sn_queued_at :: "time option"
  sn_started_at :: "time option"
  sn_last_heartbeat_at :: "time option"
  sn_completed_at :: "time option"
  sn_created_at :: time

record tool_run =
  tn_id :: uuid
  tn_scan_id :: uuid
  tn_tool_name :: string
  tn_tool_version :: string
  tn_status :: string
  tn_command_hash :: string
  tn_effective_command :: "string option"
  tn_timed_out :: bool
  tn_started_at :: "time option"
  tn_completed_at :: "time option"
  tn_exit_code :: "int option"
  tn_raw_output_ref :: "string option"
  tn_error_message :: "fstring option"

definition TERMINAL_STATUSES :: "string list" where
  "TERMINAL_STATUSES = [''completed'', ''completed_with_errors'', ''failed'', ''cancelled'']"

definition TERMINAL_SCAN_STATUSES :: "string list" where
  "TERMINAL_SCAN_STATUSES = [''completed'', ''failed'', ''cancelled'', ''completed_with_errors'']"

text \<open>MySQL's \<open>now()\<close> has whole seconds, \<open>now(6)\<close> microseconds.\<close>

definition sql_now :: "time \<Rightarrow> time" where
  "sql_now t = t - t mod 1000000"

text \<open>\<open>a < b\<close> in SQL: not true when \<open>a\<close> is \<open>NULL\<close>.\<close>

definition sql_before :: "time option \<Rightarrow> time \<Rightarrow> bool" where
  "sql_before a b = (case a of None \<Rightarrow> False | Some t \<Rightarrow> t < b)"

definition coalesce :: "'a option \<Rightarrow> 'a option \<Rightarrow> 'a option" where
  "coalesce a b = (case a of None \<Rightarrow> b | Some _ \<Rightarrow> a)"

definition get_scan_row :: "uuid \<Rightarrow> scan list \<Rightarrow> scan option" where
  "get_scan_row sid scans = find_row (\<lambda>s. sn_id s = sid) scans"

section \<open>Claim and fenced writes\<close>

definition claim_scan :: "time \<Rightarrow> uuid \<Rightarrow> uuid \<Rightarrow> scan list \<Rightarrow> bool \<times> scan list" where
  "claim_scan now sid token scans =
     (let P = (\<lambda>s. sn_id s = sid \<and> List.member [''queued'', ''failed''] (sn_status s)) in
      (count_where P scans = 1,
       update_where P (\<lambda>s. s\<lparr>sn_status := ''running'', sn_started_at := Some (sql_now now),
                             sn_execution_token := Some token\<rparr>) scans))"

definition finalize_status :: "time \<Rightarrow> uuid \<Rightarrow> string \<Rightarrow> uuid \<Rightarrow> scan list \<Rightarrow> bool \<times> scan list" where
  "finalize_status now sid new_status token scans =
     (let P = (\<lambda>s. sn_id s = sid \<and> (sn_status s = ''running'' \<and> sn_execution_token s = Some token)) in
      (count_where P scans = 1,
       update_where P (\<lambda>s. s\<lparr>sn_status := new_status, sn_completed_at := Some (sql_now now),
                             sn_execution_token := None\<rparr>) scans))"

text \<open>A write that fails or times out is swallowed: it leaves the rows as they are.\<close>

definition stamp_heartbeat :: "time \<Rightarrow> uuid \<Rightarrow> uuid option \<Rightarrow> scan list \<Rightarrow> scan list" where
  "stamp_heartbeat now sid token scans =
     (case token of
        None \<Rightarrow> update_where (\<lambda>s. sn_id s = sid \<and> sn_status s = ''running'')
                  (\<lambda>s. s\<lparr>sn_last_heartbeat_at := Some now\<rparr>) scans
      | Some tok \<Rightarrow>
          update_where (\<lambda>s. sn_id s = sid \<and> (sn_status s = ''running'' \<and> sn_execution_token s = Some tok))
            (\<lambda>s. s\<lparr>sn_last_heartbeat_at := Some now\<rparr>) scans)"

definition ownership_lost_reason :: "string \<Rightarrow> string" where
  "ownership_lost_reason st =
     (if st = ''queued'' then ''requeued_on_shutdown''
      else if st = ''running'' then ''reclaimed_by_new_owner''
      else if List.member TERMINAL_STATUSES st then ''already_terminal''
      else ''ownership_lost'')"

definition execution_stop_reason :: "uuid \<Rightarrow> uuid \<Rightarrow> scan list \<Rightarrow> string option" where
  "execution_stop_reason sid token scans =
     (case get_scan_row sid scans of
        None \<Rightarrow> Some ''revoked''
      | Some s \<Rightarrow>
          if sn_status s = ''cancelled'' then Some ''cancelled''
          else if sn_status s \<noteq> ''running'' \<or> sn_execution_token s \<noteq> Some token then Some ''revoked''
          else None)"

section \<open>Recovery\<close>

definition orphaned :: "time \<Rightarrow> time \<Rightarrow> scan \<Rightarrow> bool" where
  "orphaned stale_cutoff age_cutoff s =
     (sn_status s = ''running''
      \<and> ((sn_last_heartbeat_at s \<noteq> None \<and> sql_before (sn_last_heartbeat_at s) stale_cutoff)
         \<or> (sn_last_heartbeat_at s = None \<and> sql_before (sn_started_at s) age_cutoff)))"

text \<open>The reason text, with the two limits in seconds; the patch of \<open>config.recovery\<close>.\<close>

definition recovery_patch :: "time \<Rightarrow> int \<Rightarrow> int \<Rightarrow> dict" where
  "recovery_patch now timeout stale =
     [(''recovery'', JObj
        [(''reason'', JText [Lit ''orphaned: no executor heartbeat for '', Num stale,
            Lit ''s (falling back to a '', Num timeout,
            Lit ''s age limit for a scan that never heartbeat); worker/process presumed dead'']),
         (''recovered_at'', JText [Ts now]),
         (''stale_heartbeat_seconds'', JNum stale),
         (''running_timeout_seconds'', JNum timeout)])]"

definition reap_orphaned_scans :: "time \<Rightarrow> int \<Rightarrow> int option \<Rightarrow> scan list \<Rightarrow> nat \<times> scan list" where
  "reap_orphaned_scans now timeout stale_opt scans =
     (let stale = (case stale_opt of None \<Rightarrow> timeout | Some v \<Rightarrow> v);
          P = orphaned (now - stale * 1000000) (now - timeout * 1000000)
      in (count_where P scans,
          update_where P (\<lambda>s. s\<lparr>sn_status := ''failed'', sn_completed_at := Some now,
            sn_execution_token := None,
            sn_config := merge_fields (sn_config s) (recovery_patch now timeout stale)\<rparr>) scans))"

definition ORPHAN_TOOLRUN_STATUS :: string where "ORPHAN_TOOLRUN_STATUS = ''failed''"

definition stranded_run :: "time \<Rightarrow> scan list \<Rightarrow> tool_run \<Rightarrow> bool" where
  "stranded_run cutoff scans r =
     (tn_status r = ''running''
      \<and> list_ex (\<lambda>s. sn_id s = tn_scan_id r \<and> List.member TERMINAL_SCAN_STATUSES (sn_status s)
                   \<and> sql_before (coalesce (sn_completed_at s) (sn_started_at s)) cutoff) scans)"

definition reconcile_orphaned_tool_runs ::
  "time \<Rightarrow> int \<Rightarrow> scan list \<Rightarrow> tool_run list \<Rightarrow> nat \<times> tool_run list" where
  "reconcile_orphaned_tool_runs now grace scans runs =
     (let P = stranded_run (now - grace * 1000000) scans in
      (count_where P runs,
       update_where P (\<lambda>r. r\<lparr>tn_status := ORPHAN_TOOLRUN_STATUS,
         tn_completed_at := coalesce (tn_completed_at r) (Some now),
         tn_error_message := coalesce (tn_error_message r)
           (Some [Lit ''orphaned: parent scan reached a terminal status more than '', Num grace,
              Lit ''s ago while this tool run was still 'running'; no result was ever recorded for it''])\<rparr>) runs))"

definition requeue_scan :: "time \<Rightarrow> uuid \<Rightarrow> scan list \<Rightarrow> bool \<times> scan list" where
  "requeue_scan now sid scans =
     (let P = (\<lambda>s. sn_id s = sid \<and> sn_status s = ''running'') in
      (count_where P scans = 1,
       update_where P (\<lambda>s. s\<lparr>sn_status := ''queued'', sn_started_at := None, sn_celery_task_id := None,
                             sn_execution_token := None, sn_queued_at := Some (sql_now now)\<rparr>) scans))"

section \<open>Cancellation and dispatch\<close>

datatype scan_error = ScanNotFound | ScanAlready string

definition get_scan :: "uuid \<Rightarrow> uuid \<Rightarrow> uuid \<Rightarrow> scan list \<Rightarrow> scan_error + scan" where
  "get_scan ws pid sid scans =
     (case find_row (\<lambda>s. sn_id s = sid \<and> sn_workspace_id s = ws \<and> sn_project_id s = pid) scans of
        None \<Rightarrow> Inl ScanNotFound | Some s \<Rightarrow> Inr s)"

text \<open>The conditional \<open>UPDATE\<close> of a cancellation, and what its caller reports.\<close>

definition cancel_update :: "time \<Rightarrow> uuid \<Rightarrow> scan list \<Rightarrow> bool \<times> scan list" where
  "cancel_update now sid scans =
     (let P = (\<lambda>s. sn_id s = sid \<and> \<not> List.member TERMINAL_STATUSES (sn_status s)) in
      (count_where P scans = 1,
       update_where P (\<lambda>s. s\<lparr>sn_status := ''cancelled'', sn_completed_at := Some now,
                             sn_execution_token := None\<rparr>) scans))"

text \<open>
  The read may be older than the write: \<open>read\<close> are the rows when \<open>get_scan\<close> ran. The second result is
  the refreshed row, whose task is revoked in Celery when it has one.
\<close>

definition cancel_scan ::
  "time \<Rightarrow> uuid \<Rightarrow> uuid \<Rightarrow> uuid \<Rightarrow> scan list \<Rightarrow> scan list \<Rightarrow> (scan_error + scan option) \<times> scan list" where
  "cancel_scan now ws pid sid read scans =
     (case get_scan ws pid sid read of
        Inl e \<Rightarrow> (Inl e, scans)
      | Inr s \<Rightarrow>
          if List.member TERMINAL_STATUSES (sn_status s) then (Inl (ScanAlready (sn_status s)), scans)
          else (let (won, scans') = cancel_update now sid scans;
                    after = get_scan_row sid scans'
                in (if \<not> won then Inl (ScanAlready (case after of None \<Rightarrow> [] | Some r \<Rightarrow> sn_status r))
                    else Inr after, scans')))"

text \<open>The relay: rows it redispatches, the mark of a redispatch, and the mark of \<open>create_scan\<close>.\<close>

definition relay_candidates :: "time \<Rightarrow> (uuid \<Rightarrow> bool) \<Rightarrow> scan list \<Rightarrow> scan list" where
  "relay_candidates cutoff deleting scans =
     filter (\<lambda>s. sn_status s = ''queued'' \<and> sn_celery_task_id s = None \<and> \<not> deleting (sn_workspace_id s)
               \<and> sql_before (coalesce (sn_queued_at s) (Some (sn_created_at s))) cutoff) scans"

definition relay_mark :: "uuid \<Rightarrow> string \<Rightarrow> scan list \<Rightarrow> scan list" where
  "relay_mark sid task scans =
     update_where (\<lambda>s. sn_id s = sid \<and> (sn_status s = ''queued'' \<and> sn_celery_task_id s = None))
       (\<lambda>s. s\<lparr>sn_celery_task_id := Some task\<rparr>) scans"

definition dispatch_mark :: "uuid \<Rightarrow> string \<Rightarrow> scan list \<Rightarrow> scan list" where
  "dispatch_mark sid task scans =
     update_where (\<lambda>s. sn_id s = sid) (\<lambda>s. s\<lparr>sn_celery_task_id := Some task\<rparr>) scans"

text \<open>The outcome of a scan from the outcomes of the tools that ran.\<close>

definition aggregate_status :: "string list \<Rightarrow> string" where
  "aggregate_status tool_statuses =
     (if tool_statuses \<noteq> [] \<and> list_all (\<lambda>s. s = ''failed'') tool_statuses then ''failed''
      else if list_ex (\<lambda>s. List.member [''failed'', ''partial''] s) tool_statuses then ''completed_with_errors''
      else ''completed'')"

end
