(* ===== verification/Remediation_Verification.thy ===== *)
theory Remediation_Verification
  imports Remediation_Commit Scan_Lifecycle
begin

text \<open>
  \<open>modules/remediation/verification.py\<close>: requesting a retest of an issue, claiming the request,
  and deciding its outcome from what the retest scan recorded. \<open>complete_reads\<close> is everything a
  completion reads and \<open>complete_writes\<close> everything it writes, so that two completions of one
  request can be interleaved. The capabilities of the tool registry
  (\<open>scanner_engine/tool_registry.py\<close> and the runners' class attributes) and the orchestrator's
  terminal statuses are constants here.
\<close>

section \<open>Live locations of an issue\<close>

definition vuln_finding :: "vuln_row \<Rightarrow> finding" where
  "vuln_finding v =
     (let (template_id, matcher, matched_at) = parse_fingerprint (vu_fingerprint v) in
      \<lparr>f_template_id = template_id, f_title = vu_title v, f_severity = vu_severity v,
       f_status = vu_status v, f_matched_at = matched_at, f_cvss_score = vu_cvss_score v,
       f_final_risk_score = None, f_category = vu_category v, f_tags = None, f_cve = None\<rparr>)"

definition in_issue :: "string \<Rightarrow> vuln_row \<Rightarrow> bool" where
  "in_issue key v =
     (let row = vuln_finding v in \<not> (issue_key row \<noteq> key \<or> \<not> is_scorable row))"

definition partition_by_issue :: "vuln_row list \<Rightarrow> string \<Rightarrow> string list \<times> nat" where
  "partition_by_issue rows key =
     (let ms = map (\<lambda>v. f_matched_at (vuln_finding v)) (filter (in_issue key) rows)
      in (remdups (map or_empty (filter truthy ms)), length (filter (\<lambda>m. \<not> truthy m) ms)))"

definition scorable_locations :: "uuid \<Rightarrow> string \<Rightarrow> rem_db \<Rightarrow> string list" where
  "scorable_locations project key db =
     fst (partition_by_issue (filter (\<lambda>v. vu_project_id v = project) (db_vulns db)) key)"

definition live_locations :: "uuid \<Rightarrow> string \<Rightarrow> uuid \<Rightarrow> rem_db \<Rightarrow> nat \<times> string list" where
  "live_locations project key scan db =
     (let (locations, unlocated) = partition_by_issue
            (filter (\<lambda>v. vu_project_id v = project \<and> vu_last_seen_scan_id v = Some scan) (db_vulns db)) key
      in (length locations + unlocated, locations))"

definition count_live_locations :: "uuid \<Rightarrow> string \<Rightarrow> uuid \<Rightarrow> rem_db \<Rightarrow> nat" where
  "count_live_locations project key scan db = fst (live_locations project key scan db)"

section \<open>Coverage of a retest\<close>

definition TOOL_CAPABILITIES :: "(string \<times> string) list" where
  "TOOL_CAPABILITIES =
     [(''subfinder'', ''subdomain_discovery''), (''amass'', ''subdomain_discovery''),
      (''dnsx'', ''subdomain_discovery''), (''httpx'', ''web_service_discovery''),
      (''whatweb'', ''web_service_discovery''), (''naabu'', ''port_discovery''),
      (''nmap'', ''service_fingerprinting''), (''katana'', ''web_crawling''),
      (''ffuf'', ''content_discovery''), (''arjun'', ''parameter_discovery''),
      (''nuclei'', ''vulnerability_detection''), (''nuclei-dast'', ''dast_fuzzing'')]"

definition detection_tools :: "string list" where
  "detection_tools =
     map fst (filter (\<lambda>(n, c). List.member [''vulnerability_detection'', ''dast_fuzzing''] c)
       TOOL_CAPABILITIES)"

definition retest_had_usable_detection_coverage :: "uuid \<Rightarrow> rem_db \<Rightarrow> bool" where
  "retest_had_usable_detection_coverage scan db =
     (let runs = filter (\<lambda>r. tr_scan_id r = scan \<and> List.member detection_tools (tr_tool_name r))
                   (db_tool_runs db)
      in if runs = [] then False
         else list_ex (\<lambda>r. List.member [''completed'', ''partial''] (tr_status r)) runs)"

section \<open>Requests\<close>

definition RESULT_PASSED :: string where "RESULT_PASSED = ''passed''"
definition RESULT_FAILED :: string where "RESULT_FAILED = ''failed''"
definition RESULT_INCOMPLETE_COVERAGE :: string where
  "RESULT_INCOMPLETE_COVERAGE = ''incomplete_coverage''"

definition VR_PENDING :: string where "VR_PENDING = ''pending''"
definition VR_CLAIMED :: string where "VR_CLAIMED = ''claimed''"
definition VR_COMPLETED :: string where "VR_COMPLETED = ''completed''"

definition require_project_scan :: "uuid \<Rightarrow> uuid \<Rightarrow> uuid \<Rightarrow> rem_db \<Rightarrow> http_error + scan_row" where
  "require_project_scan workspace project scan_id db =
     (case find_row (\<lambda>s. sc_id s = scan_id \<and> sc_workspace_id s = workspace \<and> sc_project_id s = project)
             (db_scans db) of
        None \<Rightarrow> Inl (Http404 ''Scan not found in this project'')
      | Some scan \<Rightarrow>
          if \<not> List.member TERMINAL_STATUSES (sc_status scan)
          then Inl (Http409 ''Retest scan is still in progress'')
          else Inr scan)"

definition outstanding_request :: "uuid \<Rightarrow> rem_db \<Rightarrow> verif_request option" where
  "outstanding_request item_id db =
     find_row (\<lambda>q. vr_item_id q = item_id \<and> List.member [VR_PENDING, VR_CLAIMED] (vr_status q))
       (db_requests db)"

definition add_request :: "verif_request \<Rightarrow> rem_db \<Rightarrow> rem_db" where
  "add_request q db = db\<lparr>db_requests := db_requests db @ [q], db_next := db_next db + 1\<rparr>"

definition request_verification ::
  "time \<Rightarrow> uuid \<Rightarrow> uuid \<Rightarrow> uuid \<Rightarrow> uuid \<Rightarrow> int \<Rightarrow> uuid option \<Rightarrow> rem_db
   \<Rightarrow> http_error + verif_request \<times> rem_db" where
  "request_verification now workspace project item_id actor expected scan_id db =
     res_bind (get_item workspace project item_id db) (\<lambda>item.
       if \<not> is_legal (ri_status item) STATUS_AWAITING_VERIFICATION
       then Inl (Http409 ''Cannot request verification from status'')
       else
         res_bind (case scan_id of None \<Rightarrow> Inr ()
                   | Some s \<Rightarrow> res_bind (require_project_scan workspace project s db) (\<lambda>_. Inr ())) (\<lambda>_.
         if outstanding_request (ri_id item) db \<noteq> None
         then Inl (Http409 ''A verification request is already outstanding for this item'')
         else
           (let baseline = scorable_locations project (ri_issue_key item) db;
                request = \<lparr>vr_id = db_next db, vr_workspace_id = workspace, vr_item_id = ri_id item,
                  vr_status = VR_PENDING, vr_result = None, vr_scan_id = scan_id,
                  vr_requested_by = Some actor, vr_claimed_by_token = None, vr_claimed_at = None,
                  vr_completed_at = None, vr_detail = None, vr_baseline_locations = sort baseline\<rparr>;
                db1 = record_event item ''verification_requested'' (Some actor) None None
                  (Some ([Lit ''request='', Uid (vr_id request)]
                    @ (case scan_id of None \<Rightarrow> [] | Some s \<Rightarrow> [Lit '' scan='', Uid s])))
                  (add_request request db)
            in res_bind (apply_transition now item (Some actor) expected STATUS_AWAITING_VERIFICATION
                 (Some [Lit ''verification requested'']) ''remediation.verification_requested''
                 ''transition'' db1) (\<lambda>(_, db2). Inr (request, db2)))))"

definition claim_verification :: "time \<Rightarrow> uuid \<Rightarrow> uuid \<Rightarrow> rem_db \<Rightarrow> bool \<times> rem_db" where
  "claim_verification now request_id worker_token db =
     (let P = (\<lambda>q. vr_id q = request_id \<and> vr_status q = VR_PENDING) in
      (count_where P (db_requests db) = 1,
       db\<lparr>db_requests := update_where P
            (\<lambda>q. q\<lparr>vr_status := VR_CLAIMED, vr_claimed_at := Some now,
                   vr_claimed_by_token := Some worker_token\<rparr>) (db_requests db)\<rparr>))"

section \<open>Completion\<close>

text \<open>What a completion knows: the request, its item, and what the retest recorded.\<close>

record retest =
  rt_request :: verif_request
  rt_scan :: uuid
  rt_item :: rem_item
  rt_live :: nat
  rt_live_set :: "string list"
  rt_coverage_ok :: bool

text \<open>\<open>Inr (Inl q)\<close>: already completed, answered as it is.\<close>

definition complete_reads ::
  "uuid \<Rightarrow> uuid \<Rightarrow> uuid option \<Rightarrow> rem_db \<Rightarrow> http_error + (verif_request + retest)" where
  "complete_reads workspace request_id worker_token db =
     (case find_row (\<lambda>q. vr_id q = request_id \<and> vr_workspace_id q = workspace) (db_requests db) of
        None \<Rightarrow> Inl (Http404 ''Verification request not found'')
      | Some q \<Rightarrow>
          if vr_status q = VR_COMPLETED then Inr (Inl q)
          else if worker_token \<noteq> None \<and> vr_claimed_by_token q \<noteq> worker_token
          then Inl (Http409 ''Verification request is owned by another worker'')
          else (case vr_scan_id q of
              None \<Rightarrow> Inl (Http409 ''Cannot complete verification without a retest scan'')
            | Some scan \<Rightarrow>
                (case find_row (\<lambda>r. ri_id r = vr_item_id q \<and> ri_workspace_id r = workspace) (db_items db) of
                   None \<Rightarrow> Inl (Http404 ''Remediation item not found'')
                 | Some item \<Rightarrow>
                     (let (live, live_set) = live_locations (ri_project_id item) (ri_issue_key item) scan db
                      in Inr (Inr \<lparr>rt_request = q, rt_scan = scan, rt_item = item, rt_live = live,
                            rt_live_set = live_set,
                            rt_coverage_ok = retest_had_usable_detection_coverage scan db\<rparr>)))))"

definition retest_outcome :: "bool \<Rightarrow> nat \<Rightarrow> string" where
  "retest_outcome coverage_ok live =
     (if \<not> coverage_ok then RESULT_INCOMPLETE_COVERAGE
      else if live = 0 then RESULT_PASSED else RESULT_FAILED)"

definition verdict_of :: "time \<Rightarrow> retest \<Rightarrow> verdict_detail" where
  "verdict_of now rt =
     (let baseline = remdups (vr_baseline_locations (rt_request rt)) in
      \<lparr>vd_scan_id = rt_scan rt, vd_issue_key = ri_issue_key (rt_item rt),
       vd_live_locations = rt_live rt, vd_baseline_locations = sort baseline,
       vd_coverage_ok = rt_coverage_ok rt,
       vd_uncovered_locations =
         (if rt_coverage_ok rt then []
          else sort (filter (\<lambda>l. \<not> List.member (rt_live_set rt) l) baseline)),
       vd_evaluated_at = now\<rparr>)"

definition finish_request :: "time \<Rightarrow> string \<Rightarrow> verdict_detail \<Rightarrow> verif_request \<Rightarrow> verif_request" where
  "finish_request now outcome detail q =
     q\<lparr>vr_status := VR_COMPLETED, vr_result := Some outcome, vr_completed_at := Some now,
       vr_detail := Some detail\<rparr>"

definition update_requests ::
  "(verif_request \<Rightarrow> bool) \<Rightarrow> (verif_request \<Rightarrow> verif_request) \<Rightarrow> rem_db \<Rightarrow> rem_db" where
  "update_requests P f db = db\<lparr>db_requests := update_where P f (db_requests db)\<rparr>"

definition complete_writes ::
  "time \<Rightarrow> uuid \<Rightarrow> uuid option \<Rightarrow> retest \<Rightarrow> rem_db \<Rightarrow> http_error + verif_request \<times> rem_db" where
  "complete_writes now workspace actor rt db =
     (let item = rt_item rt;
          outcome = retest_outcome (rt_coverage_ok rt) (rt_live rt);
          q' = finish_request now outcome (verdict_of now rt) (rt_request rt);
          db1 = update_requests (\<lambda>q. vr_id q = vr_id q') (finish_request now outcome (verdict_of now rt)) db;
          db2 = record_event item ''verification_completed'' actor None None
                  (Some [Lit ''result='', Lit outcome, Lit '' live_locations='', Num (int (rt_live rt)),
                         Lit '' scan='', Uid (rt_scan rt)]) db1
      in if outcome = RESULT_INCOMPLETE_COVERAGE then
           Inr (q', audit_record workspace actor ''remediation.verification_completed'' ''remediation_item''
                 (Some (ri_id item))
                 (Some [Lit ''result='', Lit outcome, Lit ''; item left at '', Lit (ri_status item),
                        Lit '' -- retest scan '', Uid (rt_scan rt),
                        Lit '' did not demonstrate usable detection coverage''])
                 (Some OUTCOME_FAILURE) db2)
         else
           (let passed = (outcome = RESULT_PASSED);
                target = (if passed then STATUS_VERIFIED else STATUS_IN_PROGRESS) in
            if is_legal (ri_status item) target then
              res_bind (apply_transition now item actor (ri_version item) target
                 (Some [Lit ''verification '', Lit outcome, Lit '' ('', Num (int (rt_live rt)),
                        Lit '' live location(s))''])
                 ''remediation.verification_completed'' ''transition'' db2) (\<lambda>(_, db3). Inr (q', db3))
            else
              Inr (q', audit_record workspace actor ''remediation.verification_completed''
                    ''remediation_item'' (Some (ri_id item))
                    (Some [Lit ''result='', Lit outcome, Lit ''; item left at '', Lit (ri_status item),
                           Lit '' (transition not legal)''])
                    (Some OUTCOME_DENIED) db2)))"

definition complete_verification ::
  "time \<Rightarrow> uuid \<Rightarrow> uuid \<Rightarrow> uuid option \<Rightarrow> uuid option \<Rightarrow> rem_db \<Rightarrow> http_error + verif_request \<times> rem_db" where
  "complete_verification now workspace request_id actor worker_token db =
     res_bind (complete_reads workspace request_id worker_token db) (\<lambda>rd.
       case rd of Inl q \<Rightarrow> Inr (q, db) | Inr rt \<Rightarrow> complete_writes now workspace actor rt db)"

definition list_verification_requests ::
  "uuid \<Rightarrow> uuid \<Rightarrow> uuid \<Rightarrow> rem_db \<Rightarrow> http_error + verif_request list" where
  "list_verification_requests workspace project item_id db =
     res_bind (get_item workspace project item_id db) (\<lambda>_.
       Inr (filter (\<lambda>q. vr_item_id q = item_id \<and> vr_workspace_id q = workspace) (db_requests db)))"

section \<open>What the reads mean\<close>

lemma detection_tools_eq: "detection_tools = [''nuclei'', ''nuclei-dast'']"
  by (simp add: detection_tools_def TOOL_CAPABILITIES_def)

lemma usable_coverage_iff:
  "retest_had_usable_detection_coverage scan db \<longleftrightarrow>
    (\<exists>r \<in> set (db_tool_runs db). tr_scan_id r = scan \<and> tr_tool_name r \<in> {''nuclei'', ''nuclei-dast''}
       \<and> tr_status r \<in> {''completed'', ''partial''})"
  unfolding retest_had_usable_detection_coverage_def detection_tools_eq Let_def
  by (auto simp: list_ex_iff filter_empty_conv)

lemma partition_by_issue_none:
  "length (fst (partition_by_issue rows key)) + snd (partition_by_issue rows key) = 0 \<longleftrightarrow>
    (\<forall>v \<in> set rows. \<not> in_issue key v)"
  unfolding partition_by_issue_def Let_def
  by (auto simp: filter_empty_conv)

lemma live_locations_none:
  "fst (live_locations project key scan db) = 0 \<longleftrightarrow>
    (\<forall>v \<in> set (db_vulns db). vu_project_id v = project \<longrightarrow> vu_last_seen_scan_id v = Some scan \<longrightarrow>
       \<not> in_issue key v)"
proof -
  let ?rows = "filter (\<lambda>v. vu_project_id v = project \<and> vu_last_seen_scan_id v = Some scan) (db_vulns db)"
  have "fst (live_locations project key scan db) =
      length (fst (partition_by_issue ?rows key)) + snd (partition_by_issue ?rows key)"
    by (simp add: live_locations_def Let_def case_prod_beta)
  moreover have "length (fst (partition_by_issue ?rows key)) + snd (partition_by_issue ?rows key) = 0 \<longleftrightarrow>
      (\<forall>v \<in> set ?rows. \<not> in_issue key v)" by (rule partition_by_issue_none)
  ultimately have "fst (live_locations project key scan db) = 0 \<longleftrightarrow> (\<forall>v \<in> set ?rows. \<not> in_issue key v)"
    by (simp only:)
  then show ?thesis by auto
qed

lemma in_issue_iff: "in_issue key v \<longleftrightarrow> issue_key (vuln_finding v) = key \<and> is_scorable (vuln_finding v)"
  by (auto simp: in_issue_def Let_def)

lemma result_neq [simp]:
  "RESULT_PASSED \<noteq> RESULT_FAILED" "RESULT_FAILED \<noteq> RESULT_PASSED"
  "RESULT_PASSED \<noteq> RESULT_INCOMPLETE_COVERAGE" "RESULT_INCOMPLETE_COVERAGE \<noteq> RESULT_PASSED"
  "RESULT_FAILED \<noteq> RESULT_INCOMPLETE_COVERAGE" "RESULT_INCOMPLETE_COVERAGE \<noteq> RESULT_FAILED"
  "VR_PENDING \<noteq> VR_CLAIMED" "VR_PENDING \<noteq> VR_COMPLETED" "VR_CLAIMED \<noteq> VR_COMPLETED"
  "VR_CLAIMED \<noteq> VR_PENDING" "VR_COMPLETED \<noteq> VR_PENDING" "VR_COMPLETED \<noteq> VR_CLAIMED"
  by (simp_all add: RESULT_PASSED_def RESULT_FAILED_def RESULT_INCOMPLETE_COVERAGE_def VR_PENDING_def
      VR_CLAIMED_def VR_COMPLETED_def)

lemma retest_outcome_iff:
  "retest_outcome c n = RESULT_PASSED \<longleftrightarrow> c \<and> n = 0"
  "retest_outcome c n = RESULT_FAILED \<longleftrightarrow> c \<and> 0 < n"
  "retest_outcome c n = RESULT_INCOMPLETE_COVERAGE \<longleftrightarrow> \<not> c"
  by (auto simp: retest_outcome_def)

lemma complete_readsE:
  assumes "complete_reads ws i tok db = Inr (Inr rt)"
  obtains "rt_request rt \<in> set (db_requests db)" and "vr_id (rt_request rt) = i"
    and "vr_workspace_id (rt_request rt) = ws" and "vr_status (rt_request rt) \<noteq> VR_COMPLETED"
    and "vr_scan_id (rt_request rt) = Some (rt_scan rt)" and "rt_item rt \<in> set (db_items db)"
    and "ri_id (rt_item rt) = vr_item_id (rt_request rt)" and "ri_workspace_id (rt_item rt) = ws"
    and "(rt_live rt, rt_live_set rt) =
      live_locations (ri_project_id (rt_item rt)) (ri_issue_key (rt_item rt)) (rt_scan rt) db"
    and "rt_coverage_ok rt = retest_had_usable_detection_coverage (rt_scan rt) db"
    and "tok = None \<or> vr_claimed_by_token (rt_request rt) = tok"
  using assms
  by (auto simp: complete_reads_def split: option.splits if_splits prod.splits dest!: find_row_Some)

lemma complete_reads_basis:
  assumes "complete_reads ws i tok db = Inr (Inr rt)"
  shows "rt_live rt = fst (live_locations (ri_project_id (rt_item rt)) (ri_issue_key (rt_item rt)) (rt_scan rt) db)"
    and "rt_coverage_ok rt = retest_had_usable_detection_coverage (rt_scan rt) db"
proof -
  from assms have p: "(rt_live rt, rt_live_set rt) =
      live_locations (ri_project_id (rt_item rt)) (ri_issue_key (rt_item rt)) (rt_scan rt) db"
    by (rule complete_readsE)
  from arg_cong [OF p, of fst]
  show "rt_live rt = fst (live_locations (ri_project_id (rt_item rt)) (ri_issue_key (rt_item rt)) (rt_scan rt) db)"
    by simp
  from assms show "rt_coverage_ok rt = retest_had_usable_detection_coverage (rt_scan rt) db"
    by (rule complete_readsE)
qed

section \<open>Effects\<close>

lemma finish_request_simps [simp]:
  "vr_id (finish_request now o' d q) = vr_id q" "vr_item_id (finish_request now o' d q) = vr_item_id q"
  "vr_status (finish_request now o' d q) = VR_COMPLETED"
  "vr_result (finish_request now o' d q) = Some o'"
  "vr_scan_id (finish_request now o' d q) = vr_scan_id q"
  "vr_workspace_id (finish_request now o' d q) = vr_workspace_id q"
  by (simp_all add: finish_request_def)

lemma update_requests_simps [log_simps]:
  "db_items (update_requests P f db) = db_items db" "db_events (update_requests P f db) = db_events db"
  "db_audits (update_requests P f db) = db_audits db"
  "db_acceptances (update_requests P f db) = db_acceptances db"
  "db_next (update_requests P f db) = db_next db"
  "db_requests (update_requests P f db) = update_where P f (db_requests db)"
  "item_row (update_requests P f db) k = item_row db k"
  by (simp_all add: update_requests_def item_row_def)

lemma add_request_simps [log_simps]:
  "db_items (add_request q db) = db_items db" "db_events (add_request q db) = db_events db"
  "db_audits (add_request q db) = db_audits db"
  "db_acceptances (add_request q db) = db_acceptances db"
  "db_requests (add_request q db) = db_requests db @ [q]" "item_row (add_request q db) k = item_row db k"
  by (simp_all add: add_request_def item_row_def)

lemma evolves_update_requests:
  assumes "db_wf db" and "\<And>q. vr_id (f q) = vr_id q"
  shows "evolves db (update_requests P f db)"
proof -
  have "db_wf (update_requests P f db)"
    using assms by (auto simp: db_wf_def update_requests_def unique_key_update_where list_all_iff set_update_where)
  then show ?thesis by (simp add: evolves_def log_simps)
qed

lemma evolves_add_request:
  assumes "db_wf db" and "vr_id q = db_next db"
  shows "evolves db (add_request q db)"
proof -
  have "db_next db \<notin> vr_id ` set (db_requests db)" using db_wfD(6) [OF assms(1)] by force
  then have "db_wf (add_request q db)"
    using assms by (auto simp: db_wf_def add_request_def unique_key_append list_all_iff less_Suc_eq)
  then show ?thesis by (auto simp: evolves_def log_simps) (simp add: add_request_def)
qed

lemma claim_effect:
  assumes "db_wf db" and "claim_verification now i tok db = (won, db')"
  shows "won \<longleftrightarrow> (\<exists>q \<in> set (db_requests db). vr_id q = i \<and> vr_status q = VR_PENDING)"
    and "db' = update_requests (\<lambda>q. vr_id q = i \<and> vr_status q = VR_PENDING)
      (\<lambda>q. q\<lparr>vr_status := VR_CLAIMED, vr_claimed_at := Some now, vr_claimed_by_token := Some tok\<rparr>) db"
    and "evolves db db'"
proof -
  show w: "won \<longleftrightarrow> (\<exists>q \<in> set (db_requests db). vr_id q = i \<and> vr_status q = VR_PENDING)"
    using assms(2) unfolding claim_verification_def Let_def
    by (simp only: prod.inject count_where_key_1 [OF db_wfD(3) [OF assms(1)]])
  show d: "db' = update_requests (\<lambda>q. vr_id q = i \<and> vr_status q = VR_PENDING)
      (\<lambda>q. q\<lparr>vr_status := VR_CLAIMED, vr_claimed_at := Some now, vr_claimed_by_token := Some tok\<rparr>) db"
    using assms(2) by (auto simp: claim_verification_def update_requests_def Let_def)
  show "evolves db db'" unfolding d by (rule evolves_update_requests [OF assms(1)]) simp
qed

text \<open>The claim on one request is a fence: of any workers that race for it, one wins.\<close>

interpretation vr: claim_fence
  "\<lambda>(now, tok). claim_verification now i tok"
  "\<lambda>db. \<exists>q \<in> set (db_requests db). vr_id q = i \<and> vr_status q = VR_PENDING"
  db_wf for i
proof (unfold_locales, goal_cases)
  case (1 db t)
  obtain now tok where t: "t = (now, tok)" by force
  obtain w db' where c: "claim_verification now i tok db = (w, db')" by force
  with claim_effect(1) [OF 1 c] show ?case by (simp add: t)
next
  case (2 db t)
  obtain now tok where t: "t = (now, tok)" by force
  obtain w db' where c: "claim_verification now i tok db = (w, db')" by force
  let ?P = "\<lambda>q. vr_id q = i \<and> vr_status q = VR_PENDING"
  let ?f = "\<lambda>q. q\<lparr>vr_status := VR_CLAIMED, vr_claimed_at := Some now, vr_claimed_by_token := Some tok\<rparr>"
  have "db_requests db' = update_where ?P ?f (db_requests db)"
    unfolding claim_effect(2) [OF 2 c] by (simp add: log_simps)
  moreover have "\<forall>q \<in> set (update_where ?P ?f (db_requests db)). \<not> ?P q"
    unfolding update_where_ball by simp
  ultimately have "\<not> (\<exists>q \<in> set (db_requests db'). ?P q)" by simp
  then show ?case using c by (simp add: t)
next
  case (3 db t)
  obtain now tok where t: "t = (now, tok)" by force
  obtain w db' where c: "claim_verification now i tok db = (w, db')" by force
  with evolves_wf [OF claim_effect(3) [OF 3 c]] show ?case by (simp add: t)
qed

text \<open>The state before the status change of a completion: verdict stored, event recorded.\<close>

definition verdict_recorded :: "time \<Rightarrow> uuid option \<Rightarrow> retest \<Rightarrow> rem_db \<Rightarrow> rem_db" where
  "verdict_recorded now actor rt db =
     (let outcome = retest_outcome (rt_coverage_ok rt) (rt_live rt) in
      record_event (rt_item rt) ''verification_completed'' actor None None
        (Some [Lit ''result='', Lit outcome, Lit '' live_locations='', Num (int (rt_live rt)),
               Lit '' scan='', Uid (rt_scan rt)])
        (update_requests (\<lambda>q. vr_id q = vr_id (rt_request rt))
          (finish_request now outcome (verdict_of now rt)) db))"

lemma verdict_recorded_simps [log_simps]:
  "db_items (verdict_recorded now actor rt db) = db_items db"
  "db_audits (verdict_recorded now actor rt db) = db_audits db"
  "db_acceptances (verdict_recorded now actor rt db) = db_acceptances db"
  "db_requests (verdict_recorded now actor rt db) =
     update_where (\<lambda>q. vr_id q = vr_id (rt_request rt))
       (finish_request now (retest_outcome (rt_coverage_ok rt) (rt_live rt)) (verdict_of now rt)) (db_requests db)"
  "item_row (verdict_recorded now actor rt db) k = item_row db k"
  by (simp_all add: verdict_recorded_def Let_def log_simps)

lemma evolves_verdict_recorded:
  assumes "db_wf db"
  shows "evolves db (verdict_recorded now actor rt db)"
proof -
  have "evolves db (update_requests (\<lambda>q. vr_id q = vr_id (rt_request rt)) (finish_request now o' d) db)" for o' d
    using assms by (rule evolves_update_requests) simp
  then show ?thesis unfolding verdict_recorded_def Let_def
    by (blast intro: evolves_trans evolves_record_event evolves_wf)
qed

definition retest_target :: "retest \<Rightarrow> string" where
  "retest_target rt =
     (if retest_outcome (rt_coverage_ok rt) (rt_live rt) = RESULT_PASSED
      then STATUS_VERIFIED else STATUS_IN_PROGRESS)"

definition retest_moves :: "retest \<Rightarrow> bool" where
  "retest_moves rt = (rt_coverage_ok rt \<and> is_legal (ri_status (rt_item rt)) (retest_target rt))"

lemma complete_writesE:
  assumes ok: "complete_writes now ws actor rt db = Inr (q', db')"
  obtains (stays) w ac an rty rid d oc where "\<not> retest_moves rt"
    and "db' = audit_record w ac an rty rid d oc (verdict_recorded now actor rt db)"
  | (moves) x d where "retest_moves rt"
    and "apply_transition now (rt_item rt) actor (ri_version (rt_item rt)) (retest_target rt) d
      ''remediation.verification_completed'' ''transition'' (verdict_recorded now actor rt db) = Inr (x, db')"
proof (cases "retest_moves rt")
  case True
  with ok show ?thesis
    by (auto simp: complete_writes_def Let_def retest_moves_def retest_target_def retest_outcome_iff
        res_bind_Inr_iff verdict_recorded_def split: if_splits intro: moves)
next
  case False
  with ok show ?thesis
    by (auto simp: complete_writes_def Let_def retest_moves_def retest_target_def retest_outcome_iff
        res_bind_Inr_iff verdict_recorded_def split: if_splits intro: stays)
qed

lemma complete_writes_request:
  "complete_writes now ws actor rt db = Inr (q', db') \<Longrightarrow>
    q' = finish_request now (retest_outcome (rt_coverage_ok rt) (rt_live rt)) (verdict_of now rt) (rt_request rt)"
  by (auto simp: complete_writes_def Let_def res_bind_Inr_iff split: if_splits)

lemma apply_transition_tables:
  assumes "db_wf db" and "apply_transition now item actor e t d aa et db = Inr (x, db')"
  shows "db_requests db' = db_requests db" and "db_acceptances db' = db_acceptances db"
    and "db_vulns db' = db_vulns db"
  using assms(2) unfolding apply_transition_cas [OF db_wfD(1) [OF assms(1)]]
  by (auto simp: res_bind_Inr_iff Let_def log_simps cas_write_def update_items_def
      split: option.splits if_splits)

lemma complete_writes_tables:
  assumes wf: "db_wf db" and ok: "complete_writes now ws actor rt db = Inr (q', db')"
  shows "evolves db db'" and "db_acceptances db' = db_acceptances db"
    and "db_requests db' = update_where (\<lambda>q. vr_id q = vr_id (rt_request rt))
       (finish_request now (retest_outcome (rt_coverage_ok rt) (rt_live rt)) (verdict_of now rt)) (db_requests db)"
proof -
  have e: "evolves db (verdict_recorded now actor rt db)" by (rule evolves_verdict_recorded [OF wf])
  note wf' = evolves_wf [OF e]
  from ok show "evolves db db'"
  proof (cases rule: complete_writesE)
    case stays
    then show ?thesis using evolves_trans [OF e evolves_audit_record [OF wf']] by simp
  next
    case moves
    then show ?thesis using evolves_trans [OF e evolves_apply_transition [OF wf']] by simp
  qed
  from ok show "db_acceptances db' = db_acceptances db"
    by (cases rule: complete_writesE) (simp_all add: log_simps apply_transition_tables [OF wf'])
  from ok show "db_requests db' = update_where (\<lambda>q. vr_id q = vr_id (rt_request rt))
       (finish_request now (retest_outcome (rt_coverage_ok rt) (rt_live rt)) (verdict_of now rt)) (db_requests db)"
    by (cases rule: complete_writesE) (simp_all add: log_simps apply_transition_tables [OF wf'])
qed

text \<open>Where the item is still as it was read, the completion moves it exactly when it may.\<close>

lemma complete_writes_item:
  assumes wf: "db_wf db" and row: "item_row db (ri_id (rt_item rt)) = Some (rt_item rt)"
    and ok: "complete_writes now ws actor rt db = Inr (q', db')"
  shows "item_row db' k =
    (if retest_moves rt \<and> k = ri_id (rt_item rt)
     then Some (stamp now (ri_version (rt_item rt)) (set_status now (retest_target rt) (rt_item rt)))
     else item_row db k)"
proof -
  note wf' = evolves_wf [OF evolves_verdict_recorded [OF wf, of now actor rt]]
  have row': "item_row (verdict_recorded now actor rt db) (ri_id (rt_item rt)) = Some (rt_item rt)"
    using row by (simp add: log_simps)
  from ok show ?thesis
  proof (cases rule: complete_writesE)
    case stays
    then show ?thesis by (simp add: log_simps)
  next
    case (moves x d)
    then show ?thesis using row unfolding apply_transition_current [OF db_wfD(1) [OF wf'] row']
      by (auto simp: log_simps transition_result_def item_row_write_item)
  qed
qed

lemma complete_reads_row:
  assumes "db_wf db" and "complete_reads ws i tok db = Inr (Inr rt)"
  shows "item_row db (ri_id (rt_item rt)) = Some (rt_item rt)"
  using assms(2) by (rule complete_readsE) (simp add: item_row_iff [OF db_wfD(1) [OF assms(1)]])

lemma complete_okE:
  assumes "complete_verification now ws i actor tok db = Inr (q', db')"
  obtains (already) "complete_reads ws i tok db = Inr (Inl q')" and "db' = db"
  | (decided) rt where "complete_reads ws i tok db = Inr (Inr rt)"
    and "complete_writes now ws actor rt db = Inr (q', db')"
proof (cases "complete_reads ws i tok db")
  case (Inr rd)
  with assms show ?thesis
    by (cases rd) (auto simp: complete_verification_def intro: already decided)
qed (use assms in \<open>simp add: complete_verification_def\<close>)

lemma complete_reads_doneE:
  assumes "complete_reads ws i tok db = Inr (Inl q)"
  obtains "q \<in> set (db_requests db)" and "vr_id q = i" and "vr_status q = VR_COMPLETED"
  using assms
  by (auto simp: complete_reads_def Let_def split: option.splits if_splits prod.splits dest!: find_row_Some)

lemma evolves_complete:
  "db_wf db \<Longrightarrow> complete_verification now ws i actor tok db = Inr (q', db') \<Longrightarrow> evolves db db'"
  by (erule complete_okE) (auto intro: evolves_refl complete_writes_tables(1))

text \<open>A request that was granted: its row, and the transition it made.\<close>

lemma request_okE:
  assumes wf: "db_wf db" and ok: "request_verification now ws project i actor e scan db = Inr (q, db')"
  obtains r where "item_row db i = Some r" and "ri_id r = i" and "ri_project_id r = project"
    and "ri_workspace_id r = ws"
    and "ri_status r = STATUS_IN_PROGRESS" and "ri_version r = e"
    and "outstanding_request i db = None"
    and "scan = None \<or> (\<exists>s sc. scan = Some s \<and> require_project_scan ws project s db = Inr sc)"
    and "vr_id q = db_next db" and "vr_item_id q = i" and "vr_status q = VR_PENDING"
    and "vr_result q = None" and "vr_scan_id q = scan" and "vr_workspace_id q = ws"
    and "vr_baseline_locations q = sort (scorable_locations project (ri_issue_key r) db)"
    and "db_requests db' = db_requests db @ [q]" and "db_acceptances db' = db_acceptances db"
    and "\<And>k. item_row db' k = (if k = i
      then Some (stamp now e (set_status now STATUS_AWAITING_VERIFICATION r)) else item_row db k)"
    and "evolves db db'"
proof -
  from ok obtain r where r: "get_item ws project i db = Inr r"
    and l: "is_legal (ri_status r) STATUS_AWAITING_VERIFICATION"
    and sc: "scan = None \<or> (\<exists>s sc. scan = Some s \<and> require_project_scan ws project s db = Inr sc)"
    and o: "outstanding_request (ri_id r) db = None"
    by (auto simp: request_verification_def res_bind_Inr_iff split: if_splits option.splits)
  have row: "item_row db i = Some r" "ri_id r = i" "ri_project_id r = project" "ri_workspace_id r = ws"
    using r by (auto simp: get_item_iff [OF db_wfD(1) [OF wf]] dest: item_row_id)
  let ?q = "\<lparr>vr_id = db_next db, vr_workspace_id = ws, vr_item_id = ri_id r,
      vr_status = VR_PENDING, vr_result = None, vr_scan_id = scan, vr_requested_by = Some actor,
      vr_claimed_by_token = None, vr_claimed_at = None, vr_completed_at = None, vr_detail = None,
      vr_baseline_locations = sort (scorable_locations project (ri_issue_key r) db)\<rparr>"
  let ?db1 = "record_event r ''verification_requested'' (Some actor) None None
      (Some ([Lit ''request='', Uid (vr_id ?q)] @ (case scan of None \<Rightarrow> [] | Some s \<Rightarrow> [Lit '' scan='', Uid s])))
      (add_request ?q db)"
  have sc': "(case scan of None \<Rightarrow> Inr () | Some s \<Rightarrow> res_bind (require_project_scan ws project s db) (\<lambda>_. Inr ())) = Inr ()"
    using sc by (auto split: option.splits)
  have o': "request_verification now ws project i actor e scan db =
      res_bind (apply_transition now r (Some actor) e STATUS_AWAITING_VERIFICATION
        (Some [Lit ''verification requested'']) ''remediation.verification_requested'' ''transition'' ?db1)
        (\<lambda>(_, db2). Inr (?q, db2))"
    using r l sc' o by (simp add: request_verification_def Let_def)
  have e1: "evolves db (add_request ?q db)" by (rule evolves_add_request [OF wf]) simp
  have e2: "evolves db ?db1" by (rule evolves_trans [OF e1 evolves_record_event [OF evolves_wf [OF e1]]])
  note wf2 = evolves_wf [OF e2]
  obtain y where y: "apply_transition now r (Some actor) e STATUS_AWAITING_VERIFICATION
        (Some [Lit ''verification requested'']) ''remediation.verification_requested'' ''transition'' ?db1 = Inr y"
      "(case y of (_, db2) \<Rightarrow> Inr (?q, db2)) = (Inr (q, db') :: http_error + _)"
    using ok unfolding o' by (rule res_bind_InrE)
  obtain x d where yx: "y = (x, d)" by (cases y)
  have q: "q = ?q" and d: "d = db'" using y(2) unfolding yx by simp_all
  have t: "apply_transition now r (Some actor) e STATUS_AWAITING_VERIFICATION
        (Some [Lit ''verification requested'']) ''remediation.verification_requested'' ''transition'' ?db1 = Inr (x, db')"
    using y(1) unfolding yx d .
  have ev: "evolves db db'" by (rule evolves_trans [OF e2 evolves_apply_transition [OF wf2 t]])
  have row2: "item_row ?db1 (ri_id r) = Some r" using row by (simp add: log_simps)
  have v: "ri_version r = e" using t unfolding apply_transition_current [OF db_wfD(1) [OF wf2] row2]
    by (auto split: if_splits)
  have rows: "item_row db' k = (if k = i
      then Some (stamp now e (set_status now STATUS_AWAITING_VERIFICATION r)) else item_row db k)" for k
    using t row v unfolding apply_transition_current [OF db_wfD(1) [OF wf2] row2]
    by (auto simp: log_simps item_row_write_item)
  have tb: "db_requests db' = db_requests db @ [?q]" "db_acceptances db' = db_acceptances db"
    using apply_transition_tables [OF wf2 t] by (simp_all add: log_simps)
  have st: "ri_status r = STATUS_IN_PROGRESS" using l is_legal_to_awaiting by simp
  show ?thesis
    by (rule that [OF row st v])
      (use o row(2) sc q tb rows ev in simp_all)
qed

section \<open>Racing workers\<close>

text \<open>The answers that workers get who claim one request one after the other.\<close>

fun claim_all :: "uuid \<Rightarrow> (time \<times> uuid) list \<Rightarrow> rem_db \<Rightarrow> bool list" where
  "claim_all i [] db = []"
| "claim_all i ((now, tok) # ts) db =
     (let (won, db') = claim_verification now i tok db in won # claim_all i ts db')"

lemma claim_all_race: "claim_all i ts db = vr.race i ts db"
  by (induction ts arbitrary: db) (auto simp: Let_def case_prod_beta)

end
