(* ===== verification/Remediation_System.thy ===== *)
theory Remediation_System
  imports Risk_Acceptance Remediation_Verification
begin

text \<open>
  The remediation workflow as one system: its requests, and the scanner and the other modules that
  write the tables it reads, as the steps of a relation on the database, and the invariants that
  hold in every state they reach. The last part interleaves requests.
\<close>

section \<open>Steps\<close>

definition external_write :: "rem_db \<Rightarrow> rem_db \<Rightarrow> rem_db" where
  "external_write other db =
     db\<lparr>db_members := db_members other, db_projects := db_projects other, db_scans := db_scans other,
        db_tool_runs := db_tool_runs other, db_vulns := db_vulns other\<rparr>"

inductive rem_step :: "rem_db \<Rightarrow> rem_db \<Rightarrow> bool" where
  sync: "sync_items_for_project now ws p actor rows db = Inr (x, db') \<Longrightarrow> rem_step db db'"
| update: "update_item now ws p i u v patch db = Inr (y, db') \<Longrightarrow> rem_step db db'"
| move: "transition now ws p i u v t detail db = Inr (y, db') \<Longrightarrow> rem_step db db'"
| reopen: "reopen_for_regression now ws p key db = Inr (z, db') \<Longrightarrow> rem_step db db'"
| accept: "accept_risk now ws p u args db = Inr (a, db') \<Longrightarrow> rem_step db db'"
| revoke: "revoke_risk_acceptance now ws p i u reason db = Inr (a, db') \<Longrightarrow> rem_step db db'"
| expire: "expire_due_acceptances now ws db = (n, db') \<Longrightarrow> rem_step db db'"
| request: "request_verification now ws p i u v scan db = Inr (q, db') \<Longrightarrow> rem_step db db'"
| claim: "claim_verification now i tok db = (won, db') \<Longrightarrow> rem_step db db'"
| complete: "complete_verification now ws i actor token db = Inr (q, db') \<Longrightarrow> rem_step db db'"
| external: "db' = external_write other db \<Longrightarrow> rem_step db db'"

lemma external_write_simps [log_simps]:
  "db_items (external_write o' db) = db_items db" "db_events (external_write o' db) = db_events db"
  "db_audits (external_write o' db) = db_audits db" "db_requests (external_write o' db) = db_requests db"
  "db_acceptances (external_write o' db) = db_acceptances db"
  "db_next (external_write o' db) = db_next db" "item_row (external_write o' db) k = item_row db k"
  "db_wf (external_write o' db) = db_wf db"
  by (simp_all add: external_write_def item_row_def db_wf_def)

lemma evolves_step:
  assumes "db_wf db" and "rem_step db db'"
  shows "evolves db db'"
  using assms(2,1)
proof (cases rule: rem_step.cases)
  case (revoke now ws p i u reason a)
  with assms(1) show ?thesis by (auto elim: revoke_okE)
next
  case (request now ws p i u v scan q)
  with assms(1) show ?thesis by (auto elim: request_okE)
next
  case (external other)
  with assms(1) show ?thesis by (simp add: evolves_def log_simps)
qed (auto intro: evolves_accept evolves_sync evolves_update_item evolves_transition evolves_reopen expire_effect(1)
      claim_effect(3) evolves_complete)

text \<open>Well-formed states are closed under steps, so the interfaces apply to the steps between them.\<close>

definition wf_step :: "rem_db \<Rightarrow> rem_db \<Rightarrow> bool" where
  "wf_step db db' = (db_wf db \<and> rem_step db db')"

interpretation item_rows: versioned_rows item_row ri_version wf_step
  by unfold_locales (auto simp: wf_step_def dest!: evolves_step elim!: evolves_row)

interpretation event_log: append_only db_events wf_step
  by unfold_locales (auto simp: wf_step_def evolves_def dest!: evolves_step)

interpretation audit_log: append_only db_audits wf_step
  by unfold_locales (auto simp: wf_step_def evolves_def dest!: evolves_step)

lemma wf_run: "rem_step\<^sup>*\<^sup>* db db' \<Longrightarrow> db_wf db \<Longrightarrow> wf_step\<^sup>*\<^sup>* db db' \<and> db_wf db'"
proof (induction rule: rtranclp_induct)
  case (step a b)
  then have r: "wf_step\<^sup>*\<^sup>* db a" and wf: "db_wf a" by simp_all
  have "wf_step a b" using wf step.hyps(2) by (simp add: wf_step_def)
  with r have "wf_step\<^sup>*\<^sup>* db b" by (rule rtranclp.rtrancl_into_rtrancl)
  with evolves_wf [OF evolves_step [OF wf step.hyps(2)]] show ?case by simp
qed simp

section \<open>What a step does to an item\<close>

text \<open>A completed request whose recorded verdict is a pass.\<close>

definition passed_request :: "verif_request \<Rightarrow> uuid \<Rightarrow> bool" where
  "passed_request q i =
     (vr_item_id q = i \<and> vr_status q = VR_COMPLETED \<and> vr_result q = Some RESULT_PASSED
      \<and> vr_scan_id q \<noteq> None)"

inductive item_from :: "rem_db \<Rightarrow> rem_db \<Rightarrow> uuid \<Rightarrow> rem_item \<Rightarrow> bool" for db db' k where
  same: "item_row db k = Some r \<Longrightarrow> item_from db db' k r"
| created: "item_row db k = None \<Longrightarrow> ri_status r' = STATUS_PROPOSED \<Longrightarrow> ri_verified_at r' = None \<Longrightarrow>
    ri_resolved_at r' = None \<Longrightarrow> item_from db db' k r'"
| patched: "item_row db k = Some r \<Longrightarrow> ri_status r' = ri_status r \<Longrightarrow>
    ri_verified_at r' = ri_verified_at r \<Longrightarrow> ri_resolved_at r' = ri_resolved_at r \<Longrightarrow> item_from db db' k r'"
| moved: "item_row db k = Some r \<Longrightarrow> is_legal (ri_status r) t \<Longrightarrow>
    (t = STATUS_VERIFIED \<longrightarrow> (\<exists>q \<in> set (db_requests db') - set (db_requests db). passed_request q k)) \<Longrightarrow>
    (t = STATUS_RISK_ACCEPTED \<longrightarrow> (\<exists>a \<in> set (db_acceptances db'). ra_item_id a = Some k)) \<Longrightarrow>
    item_from db db' k (stamp now (ri_version r) (set_status now t r))"

lemma update_result_simps [log_simps]:
  "db_requests (update_result now ws u cs r r' db) = db_requests db"
  "db_acceptances (update_result now ws u cs r r' db) = db_acceptances db"
  "item_row (update_result now ws u cs r r' db) k =
     item_row (write_item (stamp now (ri_version r) r') db) k"
  by (simp_all add: update_result_def log_simps)

lemma item_row_items: "db_items db = db_items db' \<Longrightarrow> item_row db k = item_row db' k"
  by (simp add: item_row_def)

lemma item_from_update:
  assumes "db_wf db" and "update_item now ws p i u v patch db = Inr (y, db')" and "item_row db' k = Some r'"
  shows "item_from db db' k r'"
  using assms(1,2)
proof (cases rule: update_okE)
  case 1
  with assms(3) show ?thesis by (simp add: item_from.same)
next
  case (2 r cs r0)
  have id: "ri_id r0 = i" using patch_item_copy [OF 2(3)] 2(2) by (simp add: workflow_copy_def same_identity_def)
  show ?thesis
  proof (cases "k = i")
    case True
    with assms(3) 2 id have "r' = stamp now v r0"
      by (simp add: log_simps item_row_write_item split: if_splits)
    with patch_item_status [OF 2(3)] 2(1) True show ?thesis by (auto intro: item_from.patched)
  next
    case False
    with assms(3) 2 id have "item_row db k = Some r'"
      by (simp add: log_simps item_row_write_item split: if_splits)
    then show ?thesis by (rule item_from.same)
  qed
qed

text \<open>A transition of a current row, whoever makes it.\<close>

lemma item_from_moved:
  assumes rows: "\<And>k. item_row db' k = (if k = i then Some (stamp now (ri_version r) (set_status now t r)) else item_row db k)"
    and r: "item_row db i = Some r" and l: "is_legal (ri_status r) t"
    and v: "t = STATUS_VERIFIED \<Longrightarrow> \<exists>q \<in> set (db_requests db') - set (db_requests db). passed_request q i"
    and a: "t = STATUS_RISK_ACCEPTED \<Longrightarrow> \<exists>a \<in> set (db_acceptances db'). ra_item_id a = Some i"
    and row: "item_row db' k = Some r'"
  shows "item_from db db' k r'"
proof (cases "k = i")
  case True
  with row rows have "r' = stamp now (ri_version r) (set_status now t r)" by simp
  then show ?thesis using True r l v a by (auto intro!: item_from.moved)
next
  case False
  with row rows show ?thesis by (simp add: item_from.same)
qed

lemma transition_result_rows:
  assumes "item_row db (ri_id r) = Some r"
  shows "item_row (transition_result now r actor t d aa et db) k =
    (if k = ri_id r then Some (stamp now (ri_version r) (set_status now t r)) else item_row db k)"
  using assms by (simp add: log_simps item_row_write_item)

lemma item_from_transition:
  assumes wf: "db_wf db" and ok: "transition now ws p i u v t detail db = Inr (y, db')" and row: "item_row db' k = Some r'"
  shows "item_from db db' k r'"
  using wf ok
proof (cases rule: transition_okE)
  case (1 r)
  have row_r: "item_row db (ri_id r) = Some r" using 1(1,2) by simp
  have ng: "t \<noteq> STATUS_VERIFIED" "t \<noteq> STATUS_RISK_ACCEPTED" using 1(5) by (auto simp: GUARDED_TARGETS_def)
  show ?thesis
    using ng by (intro item_from_moved [OF _ 1(1) 1(6) _ _ row]) (simp_all add: 1(9) transition_result_rows [OF row_r] 1(2))
qed

lemma item_from_reopen:
  assumes wf: "db_wf db" and ok: "reopen_for_regression now ws p key db = Inr (z, db')" and row: "item_row db' k = Some r'"
  shows "item_from db db' k r'"
  using wf ok
proof (cases rule: reopen_okE)
  case 1
  with row show ?thesis by (simp add: item_from.same)
next
  case (2 r)
  show ?thesis
    by (intro item_from_moved [OF _ 2(1) 2(4) _ _ row]) (simp_all add: 2(6) transition_result_rows [OF 2(1)])
qed

lemma item_from_accept:
  assumes wf: "db_wf db" and ok: "accept_risk now ws p u args db = Inr (a, db')" and row: "item_row db' k = Some r'"
  shows "item_from db db' k r'"
proof -
  from wf ok obtain vuln item where rd: "accept_reads now ws p args db = Inr (vuln, item)"
    and w: "accept_writes now ws p u args (vuln, item) db = Inr (a, db')" by (rule accept_okE)
  show ?thesis
  proof (cases item)
    case None
    with accept_writes_ok(4) [OF wf w] row show ?thesis
      using item_row_items [of db' db k] by (simp add: item_from.same)
  next
    case (Some r)
    note rd' = rd [unfolded Some] and w' = w [unfolded Some]
    have acc: "\<exists>x \<in> set (db_acceptances db'). ra_item_id x = Some (ri_id r)"
      using accept_writes_ok(1,2) [OF wf w'] by simp
    have l: "is_legal (ri_status r) STATUS_RISK_ACCEPTED" by (rule accept_writes_ok(5) [OF wf w' refl])
    show ?thesis
      by (rule item_from_moved [OF accept_item_row(2) [OF wf rd' w'] accept_item_row(1) [OF wf rd' w'] l _ acc row]) simp
  qed
qed

lemma item_from_request:
  assumes wf: "db_wf db" and ok: "request_verification now ws p i u v scan db = Inr (q, db')" and row: "item_row db' k = Some r'"
  shows "item_from db db' k r'"
  using wf ok
proof (cases rule: request_okE)
  case (1 r)
  have "is_legal (ri_status r) STATUS_AWAITING_VERIFICATION" using 1(5) by simp
  from 1(6) show ?thesis
    by (intro item_from_moved [where now = now, OF _ 1(1) \<open>is_legal _ _\<close> _ _ row]) (simp_all add: 1(18))
qed

lemma completed_verdict:
  assumes wf: "db_wf db" and rd: "complete_reads ws i tok db = Inr (Inr rt)"
    and w: "complete_writes now ws actor rt db = Inr (q, db')"
  shows "q \<in> set (db_requests db')" and "vr_item_id q = ri_id (rt_item rt)" and "vr_status q = VR_COMPLETED"
    and "vr_result q = Some (retest_outcome (rt_coverage_ok rt) (rt_live rt))"
    and "vr_scan_id q = Some (rt_scan rt)" and "vr_id q = i" and "q \<notin> set (db_requests db)"
proof -
  note q = complete_writes_request [OF w]
  show "vr_status q = VR_COMPLETED"
    "vr_result q = Some (retest_outcome (rt_coverage_ok rt) (rt_live rt))" by (simp_all add: q)
  show "vr_item_id q = ri_id (rt_item rt)" using rd by (rule complete_readsE) (simp add: q)
  show "vr_scan_id q = Some (rt_scan rt)" using rd by (rule complete_readsE) (simp add: q)
  show "vr_id q = i" using rd by (rule complete_readsE) (simp add: q)
  have rq: "rt_request rt \<in> set (db_requests db)" using rd by (rule complete_readsE)
  have "vr_status (rt_request rt) \<noteq> VR_COMPLETED" using rd by (rule complete_readsE)
  moreover have "q = rt_request rt" if "q \<in> set (db_requests db)"
    by (rule unique_key_eq [OF db_wfD(3) [OF wf] that rq]) (simp add: q)
  moreover have "vr_status q = VR_COMPLETED" by (simp add: q)
  ultimately show "q \<notin> set (db_requests db)" by auto
  from rq show "q \<in> set (db_requests db')"
    unfolding complete_writes_tables(3) [OF wf w] q set_update_where by (rule image_eqI [rotated]) simp
qed

lemma item_from_complete:
  assumes wf: "db_wf db" and ok: "complete_verification now ws i actor tok db = Inr (q, db')" and row: "item_row db' k = Some r'"
  shows "item_from db db' k r'"
  using ok
proof (cases rule: complete_okE)
  case already
  with row show ?thesis by (simp add: item_from.same)
next
  case (decided rt)
  note rows = complete_writes_item [OF wf complete_reads_row [OF wf decided(1)] decided(2)]
  show ?thesis
  proof (cases "retest_moves rt")
    case True
    then have l: "is_legal (ri_status (rt_item rt)) (retest_target rt)" by (simp add: retest_moves_def)
    have v: "\<exists>q \<in> set (db_requests db') - set (db_requests db). passed_request q (ri_id (rt_item rt))"
      if "retest_target rt = STATUS_VERIFIED"
      using that completed_verdict [OF wf decided]
      by (intro bexI [of _ q]) (auto simp: passed_request_def retest_target_def split: if_splits)
    show ?thesis
      by (rule item_from_moved [OF _ complete_reads_row [OF wf decided(1)] l v _ row])
        (use True rows in \<open>auto simp: retest_target_def split: if_splits\<close>)
  next
    case False
    with rows row show ?thesis by (simp add: item_from.same)
  qed
qed

lemma item_from_sync:
  assumes wf: "db_wf db" and ok: "sync_items_for_project now ws p actor rows db = Inr (x, db')" and row: "item_row db' k = Some r'"
  shows "item_from db db' k r'"
proof -
  from ok sync_body_current [OF wf, of now ws p actor rows] have it: "db_items db' = db_items db @ x"
    and new: "\<forall>i \<in> set x. new_item_of now ws p actor i" and e: "evolves db db'"
    by (auto simp: sync_items_for_project_def res_bind_Inr_iff)
  show ?thesis
  proof (cases "item_row db k")
    case None
    from row have "r' \<in> set (db_items db')" by (simp add: item_row_iff [OF db_wfD(1) [OF evolves_wf [OF e]]])
    moreover have "r' \<notin> set (db_items db)" using None row
      by (auto simp: item_row_def find_row_None dest: find_row_Some)
    ultimately have "r' \<in> set x" using it by simp
    with new None show ?thesis by (auto simp: new_item_of_def intro: item_from.created)
  next
    case (Some r)
    then have "item_row db' k = Some r" unfolding item_row_def it find_row_append by simp
    with row Some show ?thesis by (simp add: item_from.same)
  qed
qed

lemma item_from_step:
  assumes wf: "db_wf db" and st: "rem_step db db'" and row: "item_row db' k = Some r'"
  shows "item_from db db' k r'"
  using st
proof (cases rule: rem_step.cases)
  case (revoke now ws p i u reason a)
  with wf show ?thesis by (auto elim!: revoke_okE dest!: item_row_items [of _ _ k] simp: row intro: item_from.same)
next
  case (expire now ws n)
  from item_row_items [OF expire_effect(2) [OF wf expire], of k] row show ?thesis by (simp add: item_from.same)
next
  case (claim now i tok won)
  with row show ?thesis unfolding claim_effect(2) [OF wf claim] by (simp add: log_simps item_from.same)
next
  case (external other)
  with row show ?thesis by (simp add: log_simps item_from.same)
qed (use row in \<open>blast intro: item_from_sync [OF wf] item_from_update [OF wf] item_from_transition [OF wf]
       item_from_reopen [OF wf] item_from_accept [OF wf] item_from_request [OF wf] item_from_complete [OF wf]\<close>)+

section \<open>What a step does to a request and to an acceptance\<close>

definition request_next :: "verif_request \<Rightarrow> verif_request \<Rightarrow> bool" where
  "request_next q q' =
     (q' = q
      \<or> (vr_status q = VR_PENDING
         \<and> (\<exists>now tok. q' = q\<lparr>vr_status := VR_CLAIMED, vr_claimed_at := Some now, vr_claimed_by_token := Some tok\<rparr>))
      \<or> (vr_status q \<noteq> VR_COMPLETED \<and> vr_scan_id q \<noteq> None \<and> (\<exists>now o' d. q' = finish_request now o' d q)))"

lemma request_next_finish:
  "vr_status q \<noteq> VR_COMPLETED \<Longrightarrow> vr_scan_id q \<noteq> None \<Longrightarrow> request_next q (finish_request now o' d q)"
  unfolding request_next_def by blast

definition requests_advance :: "rem_db \<Rightarrow> rem_db \<Rightarrow> bool" where
  "requests_advance db db' =
     (\<exists>f new. db_requests db' = map f (db_requests db) @ new
        \<and> (\<forall>q \<in> set (db_requests db). request_next q (f q))
        \<and> (\<forall>q \<in> set new. vr_status q = VR_PENDING \<and> vr_result q = None
             \<and> outstanding_request (vr_item_id q) db = None))"

lemma requests_advance_same: "db_requests db' = db_requests db \<Longrightarrow> requests_advance db db'"
  unfolding requests_advance_def by (rule exI [of _ id], rule exI [of _ "[]"]) (simp add: request_next_def)

lemma requests_advance_update:
  assumes "db_requests db' = update_where P f (db_requests db)"
    and "\<And>q. q \<in> set (db_requests db) \<Longrightarrow> P q \<Longrightarrow> request_next q (f q)"
  shows "requests_advance db db'"
  unfolding requests_advance_def
  by (rule exI [of _ "\<lambda>q. if P q then f q else q"], rule exI [of _ "[]"])
    (use assms in \<open>auto simp: update_where_def request_next_def\<close>)

lemma step_requests:
  assumes wf: "db_wf db" and st: "rem_step db db'"
  shows "requests_advance db db'"
  using st
proof (cases rule: rem_step.cases)
  case (sync now ws p actor rows x)
  with sync_body_current [OF wf, of now ws p actor rows] show ?thesis
    by (intro requests_advance_same) (auto simp: sync_items_for_project_def res_bind_Inr_iff)
next
  case (update now ws p i u v patch y)
  from wf update show ?thesis
    by (cases rule: update_okE) (simp_all add: requests_advance_same log_simps)
next
  case (move now ws p i u v t detail y)
  from wf move show ?thesis
    by (cases rule: transition_okE) (simp add: requests_advance_same log_simps)
next
  case (reopen now ws p key z)
  from wf reopen show ?thesis
    by (cases rule: reopen_okE) (simp_all add: requests_advance_same log_simps)
next
  case (accept now ws p u args a)
  from wf accept show ?thesis
    by (cases rule: accept_okE) (simp add: requests_advance_same accept_writes_ok(3) [OF wf])
next
  case (revoke now ws p i u reason a)
  from wf revoke show ?thesis by (cases rule: revoke_okE) (simp add: requests_advance_same)
next
  case (expire now ws n)
  show ?thesis by (rule requests_advance_same [OF expire_effect(3) [OF wf expire]])
next
  case (request now ws p i u v scan q)
  from wf request show ?thesis
  proof (cases rule: request_okE)
    case (1 r)
    show ?thesis unfolding requests_advance_def
      by (rule exI [of _ id], rule exI [of _ "[q]"])
        (use 1(7,10-12,16) in \<open>simp add: request_next_def\<close>)
  qed
next
  case (claim now i tok won)
  have "db_requests db' = update_where (\<lambda>q. vr_id q = i \<and> vr_status q = VR_PENDING)
      (\<lambda>q. q\<lparr>vr_status := VR_CLAIMED, vr_claimed_at := Some now, vr_claimed_by_token := Some tok\<rparr>) (db_requests db)"
    unfolding claim_effect(2) [OF wf claim] by (simp add: log_simps)
  then show ?thesis by (rule requests_advance_update) (auto simp: request_next_def)
next
  case (complete now ws i actor tok q)
  from complete show ?thesis
  proof (cases rule: complete_okE)
    case already
    then show ?thesis by (simp add: requests_advance_same)
  next
    case (decided rt)
    show ?thesis
    proof (rule requests_advance_update [OF complete_writes_tables(3) [OF wf decided(2)]])
      fix x
      assume x: "x \<in> set (db_requests db)" "vr_id x = vr_id (rt_request rt)"
      have rq: "rt_request rt \<in> set (db_requests db)" using decided(1) by (rule complete_readsE)
      have "vr_status (rt_request rt) \<noteq> VR_COMPLETED" "vr_scan_id (rt_request rt) \<noteq> None"
        using decided(1) by (auto elim!: complete_readsE)
      moreover have "x = rt_request rt" by (rule unique_key_eq [OF db_wfD(3) [OF wf] x(1) rq x(2)])
      ultimately show "request_next x (finish_request now (retest_outcome (rt_coverage_ok rt) (rt_live rt)) (verdict_of now rt) x)"
        by (simp add: request_next_finish)
    qed
  qed
next
  case (external other)
  then show ?thesis by (simp add: requests_advance_same log_simps)
qed

lemma step_acceptances:
  assumes wf: "db_wf db" and st: "rem_step db db'" and a: "a \<in> set (db_acceptances db)"
  shows "\<exists>a' \<in> set (db_acceptances db'). ra_id a' = ra_id a \<and> ra_item_id a' = ra_item_id a
    \<and> ra_vulnerability_id a' = ra_vulnerability_id a \<and> ra_expires_at a' = ra_expires_at a
    \<and> ra_justification a' = ra_justification a \<and> (ra_status a' = ra_status a \<or> ra_status a = RA_ACTIVE)"
    (is "?goal")
proof -
  have same: ?goal if "db_acceptances db' = db_acceptances db" using that a by auto
  from st show ?thesis
  proof (cases rule: rem_step.cases)
    case (sync now ws p actor rows x)
    with sync_body_current [OF wf, of now ws p actor rows] show ?thesis
      by (intro same) (auto simp: sync_items_for_project_def res_bind_Inr_iff)
  next
    case (update now ws p i u v patch y)
    from wf update have "db_acceptances db' = db_acceptances db"
      by (cases rule: update_okE) (simp_all add: log_simps)
    then show ?thesis by (rule same)
  next
    case (move now ws p i u v t detail y)
    from wf move have "db_acceptances db' = db_acceptances db"
      by (cases rule: transition_okE) (simp_all add: log_simps)
    then show ?thesis by (rule same)
  next
    case (reopen now ws p key z)
    from wf reopen have "db_acceptances db' = db_acceptances db"
      by (cases rule: reopen_okE) (simp_all add: log_simps)
    then show ?thesis by (rule same)
  next
    case (accept now ws p u args b)
    from wf accept have "db_acceptances db' = db_acceptances db @ [b]"
      by (cases rule: accept_okE) (simp add: accept_writes_ok(2) [OF wf])
    with a show ?thesis by auto
  next
    case (revoke now ws p i u reason b)
    from wf revoke show ?thesis
    proof (cases rule: revoke_okE)
      case (1 c)
      show ?thesis
      proof (cases "ra_id a = i")
        case True
        with 1 a have "a = c" by (metis unique_key_eq [OF db_wfD(4) [OF wf]])
        moreover have "b \<in> set (db_acceptances db')" using 1(1,2,5) by (auto simp: set_update_where)
        ultimately show ?thesis using 1 by (intro bexI [of _ b]) simp_all
      next
        case False
        with a 1(5) have "a \<in> set (db_acceptances db')" by (force simp: set_update_where)
        then show ?thesis by auto
      qed
    qed
  next
    case (expire now ws n)
    from expire_effect(5) [OF wf expire] a show ?thesis
      by (intro bexI [of _ "if is_due now ws a then a\<lparr>ra_status := RA_EXPIRED\<rparr> else a"]) (auto simp: is_due_def)
  next
    case (request now ws p i u v scan q)
    from wf request have "db_acceptances db' = db_acceptances db" by (cases rule: request_okE)
    then show ?thesis by (rule same)
  next
    case (claim now i tok won)
    show ?thesis by (rule same) (simp add: claim_effect(2) [OF wf claim] log_simps)
  next
    case (complete now ws i actor tok q)
    from complete have "db_acceptances db' = db_acceptances db"
      by (cases rule: complete_okE) (simp_all add: complete_writes_tables(2) [OF wf])
    then show ?thesis by (rule same)
  next
    case (external other)
    then show ?thesis by (intro same) (simp add: log_simps)
  qed
qed

section \<open>Invariants of the reachable states\<close>

text \<open>The two stamps say exactly what the status says.\<close>

definition stamps_ok :: "rem_item \<Rightarrow> bool" where
  "stamps_ok r =
     (ri_status r \<in> set REMEDIATION_STATUSES
      \<and> (ri_resolved_at r \<noteq> None \<longleftrightarrow> ri_status r \<in> set RESOLVED_STATUSES)
      \<and> (ri_verified_at r \<noteq> None \<longleftrightarrow> ri_status r = STATUS_VERIFIED \<or> ri_status r = STATUS_CLOSED))"

text \<open>Every claim about the work has its evidence: a pass for verified, a grant for risk-accepted.\<close>

definition backed :: "rem_db \<Rightarrow> uuid \<Rightarrow> rem_item \<Rightarrow> bool" where
  "backed db k r =
     ((ri_status r = STATUS_VERIFIED \<or> ri_status r = STATUS_CLOSED
         \<longrightarrow> (\<exists>q \<in> set (db_requests db). passed_request q k))
      \<and> (ri_status r = STATUS_RISK_ACCEPTED \<longrightarrow> (\<exists>a \<in> set (db_acceptances db). ra_item_id a = Some k)))"

definition sound :: "rem_db \<Rightarrow> bool" where
  "sound db = (\<forall>r \<in> set (db_items db). stamps_ok r \<and> backed db (ri_id r) r)"

lemma sound_row:
  "db_wf db \<Longrightarrow> sound db \<longleftrightarrow> (\<forall>k r. item_row db k = Some r \<longrightarrow> stamps_ok r \<and> backed db k r)"
  by (auto simp: sound_def item_row_iff [OF db_wfD(1)])

lemma stamps_ok_stamp [simp]: "stamps_ok (stamp now v r) = stamps_ok r"
  by (simp add: stamps_ok_def)

lemma stamps_ok_set_status:
  "is_legal (ri_status r) t \<Longrightarrow> stamps_ok r \<Longrightarrow> stamps_ok (set_status now t r)"
  by (erule is_legal_cases)
    (auto simp: stamps_ok_def set_status_def Let_def RESOLVED_STATUSES_def OPEN_STATUSES_def
      REMEDIATION_STATUSES_def status_consts)

lemma passed_persists:
  assumes "requests_advance db db'" and "q \<in> set (db_requests db)" and "vr_status q = VR_COMPLETED"
  shows "q \<in> set (db_requests db')"
proof -
  from assms(1) obtain f new where f: "db_requests db' = map f (db_requests db) @ new"
    "\<forall>q \<in> set (db_requests db). request_next q (f q)" by (auto simp: requests_advance_def)
  with assms(2,3) have "f q = q" by (auto simp: request_next_def)
  with f(1) assms(2) show ?thesis by force
qed

lemma backed_persists:
  assumes wf: "db_wf db" and st: "rem_step db db'" and b: "backed db k r"
    and s: "ri_status r' = ri_status r"
  shows "backed db' k r'"
  using b s passed_persists [OF step_requests [OF wf st]] step_acceptances [OF wf st]
  unfolding backed_def passed_request_def by metis

lemma sound_step:
  assumes wf: "db_wf db" and st: "rem_step db db'" and s: "sound db"
  shows "sound db'"
proof -
  note wf' = evolves_wf [OF evolves_step [OF wf st]]
  have old: "stamps_ok r \<and> backed db k r" if "item_row db k = Some r" for k r
    using s that by (simp add: sound_row [OF wf])
  show ?thesis unfolding sound_row [OF wf']
  proof (intro allI impI)
    fix k r'
    assume "item_row db' k = Some r'"
    with item_from_step [OF wf st] have "item_from db db' k r'" .
    then show "stamps_ok r' \<and> backed db' k r'"
    proof cases
      case same
      with old backed_persists [OF wf st] show ?thesis by blast
    next
      case created
      then show ?thesis
        by (auto simp: stamps_ok_def backed_def REMEDIATION_STATUSES_def RESOLVED_STATUSES_def)
    next
      case (patched r)
      from old [OF patched(1)] patched(2-4) backed_persists [OF wf st _ patched(2)] show ?thesis
        by (simp add: stamps_ok_def)
    next
      case (moved r t now)
      have ok: "stamps_ok r'" using old [OF moved(2)] moved(1,3) by (simp add: stamps_ok_set_status)
      have closed: "\<exists>q \<in> set (db_requests db'). passed_request q k" if "t = STATUS_CLOSED"
      proof -
        have "ri_status r = STATUS_VERIFIED" using moved(3) that is_legal_to_closed by simp
        with old [OF moved(2)] backed_persists [OF wf st, of k r r] show ?thesis by (simp add: backed_def)
      qed
      have "ri_status r' = t" using moved(1) by simp
      then have "backed db' k r'" unfolding backed_def using moved(4,5) closed by auto
      with ok show ?thesis ..
    qed
  qed
qed

lemma one_active_step:
  assumes wf: "db_wf db" and st: "rem_step db db'" and inv: "at_most_one_active db"
  shows "at_most_one_active db'"
proof -
  have same: ?thesis if "db_acceptances db' = db_acceptances db"
    using inv unfolding at_most_one_active_def that .
  from st show ?thesis
  proof (cases rule: rem_step.cases)
    case (sync now ws p actor rows x)
    with sync_body_current [OF wf, of now ws p actor rows] show ?thesis
      by (intro same) (auto simp: sync_items_for_project_def res_bind_Inr_iff)
  next
    case (update now ws p i u v patch y)
    from wf update have "db_acceptances db' = db_acceptances db"
      by (cases rule: update_okE) (simp_all add: log_simps)
    then show ?thesis by (rule same)
  next
    case (move now ws p i u v t detail y)
    from wf move have "db_acceptances db' = db_acceptances db"
      by (cases rule: transition_okE) (simp add: log_simps)
    then show ?thesis by (rule same)
  next
    case (reopen now ws p key z)
    from wf reopen have "db_acceptances db' = db_acceptances db"
      by (cases rule: reopen_okE) (simp_all add: log_simps)
    then show ?thesis by (rule same)
  next
    case (accept now ws p u args b)
    then show ?thesis by (rule at_most_one_active_accept [OF wf inv])
  next
    case (revoke now ws p i u reason b)
    from wf revoke show ?thesis
    proof (cases rule: revoke_okE)
      case (1 c)
      show ?thesis
        by (rule at_most_one_active_map [OF inv 1(5) [unfolded update_where_def]]) (simp add: 1(4))
    qed
  next
    case (expire now ws n)
    show ?thesis by (rule at_most_one_active_map [OF inv expire_effect(5) [OF wf expire]]) (simp add: is_due_def)
  next
    case (request now ws p i u v scan q)
    from wf request have "db_acceptances db' = db_acceptances db" by (cases rule: request_okE)
    then show ?thesis by (rule same)
  next
    case (claim now i tok won)
    show ?thesis by (rule same) (simp add: claim_effect(2) [OF wf claim] log_simps)
  next
    case (complete now ws i actor tok q)
    from complete have "db_acceptances db' = db_acceptances db"
      by (cases rule: complete_okE) (simp_all add: complete_writes_tables(2) [OF wf])
    then show ?thesis by (rule same)
  next
    case (external other)
    then show ?thesis by (intro same) (simp add: log_simps)
  qed
qed

definition system_inv :: "rem_db \<Rightarrow> bool" where
  "system_inv db = (db_wf db \<and> sound db \<and> at_most_one_active db)"

lemma system_inv_step: "system_inv db \<Longrightarrow> rem_step db db' \<Longrightarrow> system_inv db'"
  unfolding system_inv_def using sound_step one_active_step evolves_wf [OF evolves_step] by blast

lemma system_inv_run: "rem_step\<^sup>*\<^sup>* db db' \<Longrightarrow> system_inv db \<Longrightarrow> system_inv db'"
  by (induction rule: rtranclp_induct) (auto intro: system_inv_step)

text \<open>A project's state before any issue was synchronised.\<close>

lemma system_inv_empty: "system_inv (db\<lparr>db_items := [], db_requests := [], db_acceptances := []\<rparr>)"
  by (simp add: system_inv_def db_wf_def sound_def at_most_one_active_def unique_key_def)

section \<open>A concrete project\<close>

text \<open>
  One workspace (10) with one project (20): an item in progress, the open finding behind it, an
  older scan (30) and the scan (31) that saw the finding last, both with a finished nuclei run.
\<close>

definition ex_item :: rem_item where
  "ex_item = \<lparr>ri_id = 11, ri_workspace_id = 10, ri_project_id = 20, ri_issue_key = ''template:sqli'',
     ri_vulnerability_id = Some 2, ri_title = Some ''SQL injection'', ri_status = STATUS_IN_PROGRESS,
     ri_priority = ''high'', ri_assignee_user_id = None, ri_due_date = Some 50, ri_notes = None,
     ri_notes_source = None, ri_source = ''system'', ri_resolved_at = None, ri_verified_at = None,
     ri_version = 3, ri_created_by = Some 7, ri_created_at = 5, ri_updated_at = 6\<rparr>"

definition ex_vuln :: vuln_row where
  "ex_vuln = \<lparr>vu_id = 2, vu_project_id = 20, vu_fingerprint = Some ''sqli|m|https://a/'',
     vu_title = Some ''SQL injection'', vu_severity = Some ''high'', vu_status = Some ''open'',
     vu_cvss_score = None, vu_category = None, vu_last_seen_scan_id = Some 31\<rparr>"

definition ex_db :: rem_db where
  "ex_db = \<lparr>db_items = [ex_item], db_events = [], db_audits = [], db_requests = [],
     db_acceptances = [], db_next = 100, db_members = [(10, 7)], db_projects = [(20, 10)],
     db_scans = [\<lparr>sc_id = 30, sc_workspace_id = 10, sc_project_id = 20, sc_status = ''completed''\<rparr>,
                 \<lparr>sc_id = 31, sc_workspace_id = 10, sc_project_id = 20, sc_status = ''completed''\<rparr>],
     db_tool_runs = [\<lparr>tr_scan_id = 30, tr_tool_name = ''nuclei'', tr_status = ''completed''\<rparr>,
                     \<lparr>tr_scan_id = 31, tr_tool_name = ''nuclei'', tr_status = ''completed''\<rparr>],
     db_vulns = [ex_vuln]\<rparr>"

lemma ex_system_inv: "system_inv ex_db"
  by (simp add: system_inv_def db_wf_def sound_def stamps_ok_def backed_def at_most_one_active_def
      unique_key_def ex_db_def ex_item_def REMEDIATION_STATUSES_def RESOLVED_STATUSES_def status_consts)

lemma ex_in_issue: "in_issue ''template:sqli'' ex_vuln"
  by code_simp

text \<open>A retest requested against the old scan.\<close>

definition ex_requested :: rem_db where
  "ex_requested =
     (case request_verification 60 10 20 11 7 3 (Some 30) ex_db of Inl _ \<Rightarrow> ex_db | Inr (_, db) \<Rightarrow> db)"

definition ex_request :: verif_request where
  "ex_request = hd (db_requests ex_requested)"

lemma ex_request_ok: "request_verification 60 10 20 11 7 3 (Some 30) ex_db = Inr (ex_request, ex_requested)"
  by code_simp

lemma ex_request_step: "rem_step\<^sup>*\<^sup>* ex_db ex_requested"
  by (rule r_into_rtranclp [of rem_step, OF rem_step.request [OF ex_request_ok]])

text \<open>Its completion, which finds no row that the old scan was the last to see.\<close>

definition ex_verdict :: "verif_request \<times> rem_db" where
  "ex_verdict =
     (case complete_verification 70 10 100 None None ex_requested of
        Inl _ \<Rightarrow> (ex_request, ex_requested) | Inr r \<Rightarrow> r)"

lemma ex_verdict_ok: "complete_verification 70 10 100 None None ex_requested = Inr (fst ex_verdict, snd ex_verdict)"
  by code_simp

lemma ex_verdict_status: "map ri_status (db_items (snd ex_verdict)) = [STATUS_VERIFIED]"
  by code_simp

lemma ex_verdict_run: "rem_step\<^sup>*\<^sup>* ex_db (snd ex_verdict)"
  by (rule rtranclp.rtrancl_into_rtrancl [of rem_step, OF ex_request_step rem_step.complete [OF ex_verdict_ok]])

text \<open>A plain transition of the item.\<close>

definition ex_awaiting :: "rem_item \<times> rem_db" where
  "ex_awaiting =
     (case transition 60 10 20 11 7 3 STATUS_AWAITING_VERIFICATION None ex_db of
        Inl _ \<Rightarrow> (ex_item, ex_db) | Inr r \<Rightarrow> r)"

lemma ex_awaiting_ok:
  "transition 60 10 20 11 7 3 STATUS_AWAITING_VERIFICATION None ex_db = Inr (fst ex_awaiting, snd ex_awaiting)"
  by code_simp

text \<open>An assignment; the way back from awaiting; and a transition with a guessed version.\<close>

definition ex_patch :: item_patch where
  "ex_patch = \<lparr>pa_assignee = Some 7, pa_clear_assignee = False, pa_due_date = None,
      pa_clear_due_date = False, pa_priority = None, pa_notes = None\<rparr>"

definition ex_assigned :: "rem_item \<times> rem_db" where
  "ex_assigned = (case update_item 60 10 20 11 7 3 ex_patch ex_db of Inl _ \<Rightarrow> (ex_item, ex_db) | Inr r \<Rightarrow> r)"

lemma ex_assigned_ok: "update_item 60 10 20 11 7 3 ex_patch ex_db = Inr (fst ex_assigned, snd ex_assigned)"
  by code_simp

definition ex_back :: "rem_item \<times> rem_db" where
  "ex_back =
     (case transition_body 70 7 4 STATUS_IN_PROGRESS None (fst ex_awaiting) (snd ex_awaiting) of
        Inl _ \<Rightarrow> (ex_item, ex_db) | Inr r \<Rightarrow> r)"

lemma ex_back_ok:
  "transition_body 70 7 4 STATUS_IN_PROGRESS None (fst ex_awaiting) (snd ex_awaiting) = Inr (fst ex_back, snd ex_back)"
  by code_simp

definition ex_guess :: "rem_item \<times> rem_db" where
  "ex_guess =
     (case transition_body 80 7 5 STATUS_IN_PROGRESS None (hd (db_items ex_requested)) (snd ex_verdict) of
        Inl _ \<Rightarrow> (ex_item, ex_db) | Inr r \<Rightarrow> r)"

lemma ex_guess_ok:
  "transition_body 80 7 5 STATUS_IN_PROGRESS None (hd (db_items ex_requested)) (snd ex_verdict) =
     Inr (fst ex_guess, snd ex_guess)"
  by code_simp

section \<open>A request without a scan\<close>

text \<open>
  The item has an outstanding request with no scan linked, and no outstanding request with one.
\<close>

definition unlinked :: "rem_db \<Rightarrow> uuid \<Rightarrow> bool" where
  "unlinked db i =
     ((\<exists>q \<in> set (db_requests db). vr_item_id q = i \<and> vr_scan_id q = None
          \<and> (vr_status q = VR_PENDING \<or> vr_status q = VR_CLAIMED))
      \<and> (\<forall>q \<in> set (db_requests db). vr_item_id q = i \<longrightarrow> vr_status q \<noteq> VR_COMPLETED \<longrightarrow> vr_scan_id q = None))"

lemma request_next_facts:
  assumes "request_next q q'"
  shows "vr_item_id q' = vr_item_id q" and "vr_scan_id q' = vr_scan_id q"
    and "vr_scan_id q = None \<Longrightarrow> vr_status q = VR_PENDING \<or> vr_status q = VR_CLAIMED \<Longrightarrow>
      vr_status q' = VR_PENDING \<or> vr_status q' = VR_CLAIMED"
    and "vr_status q' \<noteq> VR_COMPLETED \<Longrightarrow> vr_status q \<noteq> VR_COMPLETED"
    and "vr_status q' = VR_COMPLETED \<Longrightarrow> q' = q \<or> (vr_status q \<noteq> VR_COMPLETED \<and> vr_scan_id q \<noteq> None)"
  using assms by (auto simp: request_next_def)

lemma unlinked_outstanding: "unlinked db i \<Longrightarrow> outstanding_request i db \<noteq> None"
proof
  assume "unlinked db i" and o: "outstanding_request i db = None"
  then obtain q where "q \<in> set (db_requests db)" "vr_item_id q = i"
    "vr_status q = VR_PENDING \<or> vr_status q = VR_CLAIMED" by (auto simp: unlinked_def)
  with o show False by (auto simp: outstanding_request_def find_row_None)
qed

lemma unlinked_step:
  assumes wf: "db_wf db" and st: "rem_step db db'" and u: "unlinked db i"
  shows "unlinked db' i"
    and "q \<in> set (db_requests db') - set (db_requests db) \<Longrightarrow> \<not> passed_request q i"
proof -
  from step_requests [OF wf st] obtain f new where f: "db_requests db' = map f (db_requests db) @ new"
    and nx: "\<And>q. q \<in> set (db_requests db) \<Longrightarrow> request_next q (f q)"
    and new: "\<And>q. q \<in> set new \<Longrightarrow> vr_status q = VR_PENDING \<and> outstanding_request (vr_item_id q) db = None"
    by (auto simp: requests_advance_def)
  have ni: "vr_item_id q \<noteq> i" if "q \<in> set new" for q
    using new [OF that] unlinked_outstanding [OF u] by auto
  show "unlinked db' i" unfolding unlinked_def
  proof (intro conjI ballI impI)
    from u obtain q where q: "q \<in> set (db_requests db)" "vr_item_id q = i" "vr_scan_id q = None"
      "vr_status q = VR_PENDING \<or> vr_status q = VR_CLAIMED" by (auto simp: unlinked_def)
    with request_next_facts(1-3) [OF nx [OF q(1)]] f
    show "\<exists>q \<in> set (db_requests db'). vr_item_id q = i \<and> vr_scan_id q = None
        \<and> (vr_status q = VR_PENDING \<or> vr_status q = VR_CLAIMED)"
      by (intro bexI [of _ "f q"]) auto
  next
    fix q'
    assume q': "q' \<in> set (db_requests db')" "vr_item_id q' = i" "vr_status q' \<noteq> VR_COMPLETED"
    with f ni obtain q where q: "q \<in> set (db_requests db)" "q' = f q" by auto
    with q' u request_next_facts [OF nx [OF q(1)]] show "vr_scan_id q' = None"
      by (simp add: unlinked_def)
  qed
  show "\<not> passed_request q i" if q': "q \<in> set (db_requests db') - set (db_requests db)"
  proof
    assume p: "passed_request q i"
    then have pi: "vr_item_id q = i" "vr_status q = VR_COMPLETED" by (simp_all add: passed_request_def)
    with q' f ni obtain q0 where q0: "q0 \<in> set (db_requests db)" "q = f q0" by auto
    note nf = request_next_facts [OF nx [OF q0(1)], folded q0(2)]
    from nf(5) [OF pi(2)] q' q0 have "vr_status q0 \<noteq> VR_COMPLETED" "vr_scan_id q0 \<noteq> None" by auto
    with u q0(1) nf(1) pi(1) show False by (simp add: unlinked_def)
  qed
qed

lemma unlinked_not_verified:
  assumes wf: "db_wf db" and st: "rem_step db db'" and u: "unlinked db i"
    and nv: "\<And>r. item_row db i = Some r \<Longrightarrow> ri_status r \<noteq> STATUS_VERIFIED"
    and row: "item_row db' i = Some r'"
  shows "ri_status r' \<noteq> STATUS_VERIFIED"
proof -
  from item_from_step [OF wf st row] show ?thesis
  proof cases
    case (moved r t now)
    with unlinked_step(2) [OF wf st u] show ?thesis by auto
  qed (use nv in \<open>auto\<close>)
qed

lemma unlinked_run:
  assumes "rem_step\<^sup>*\<^sup>* db db'" and "db_wf db" and "unlinked db i"
    and "\<forall>r. item_row db i = Some r \<longrightarrow> ri_status r \<noteq> STATUS_VERIFIED"
  shows "db_wf db' \<and> unlinked db' i \<and> (\<forall>r. item_row db' i = Some r \<longrightarrow> ri_status r \<noteq> STATUS_VERIFIED)"
  using assms
proof (induction rule: rtranclp_induct)
  case (step a b)
  then have a: "db_wf a" "unlinked a i" "\<forall>r. item_row a i = Some r \<longrightarrow> ri_status r \<noteq> STATUS_VERIFIED" by auto
  from evolves_wf [OF evolves_step [OF a(1) step.hyps(2)]] unlinked_step(1) [OF a(1) step.hyps(2) a(2)]
    unlinked_not_verified [OF a(1) step.hyps(2) a(2)] a(3)
  show ?case by blast
qed simp

text \<open>The project after a verification was requested with no scan.\<close>

definition ex_unlinked :: "verif_request \<times> rem_db" where
  "ex_unlinked =
     (case request_verification 60 10 20 11 7 3 None ex_db of Inl _ \<Rightarrow> (ex_request, ex_db) | Inr r \<Rightarrow> r)"

lemma ex_unlinked_ok: "request_verification 60 10 20 11 7 3 None ex_db = Inr (fst ex_unlinked, snd ex_unlinked)"
  by code_simp

section \<open>Two grants of one risk\<close>

definition ex_grant :: accept_args where
  "ex_grant = \<lparr>aa_vulnerability_id = 2, aa_justification = ''compensating control'',
     aa_expires_at = Naive 1000, aa_review_due_at = None, aa_approved_by = None, aa_item_id = None,
     aa_expected_version = None\<rparr>"

definition ex_granted :: "risk_acceptance \<times> rem_db" where
  "ex_granted = projr (accept_writes 60 10 20 7 ex_grant (ex_vuln, None) ex_db)"

definition ex_granted2 :: "risk_acceptance \<times> rem_db" where
  "ex_granted2 = projr (accept_writes 60 10 20 8 ex_grant (ex_vuln, None) (snd ex_granted))"

lemma ex_grant_ok:
  "accept_reads 60 10 20 ex_grant ex_db = Inr (ex_vuln, None)"
  "accept_writes 60 10 20 7 ex_grant (ex_vuln, None) ex_db = Inr (fst ex_granted, snd ex_granted)"
  "accept_writes 60 10 20 8 ex_grant (ex_vuln, None) (snd ex_granted) = Inr (fst ex_granted2, snd ex_granted2)"
  by code_simp+

lemma ex_expire_ok: "expire_due_acceptances 2000 10 (snd ex_granted) =
    (1, snd (expire_due_acceptances 2000 10 (snd ex_granted)))"
  by code_simp

end
