(* ===== verification/Remediation_Properties.thy ===== *)
theory Remediation_Properties
  imports Remediation_System
begin

text \<open>
  The properties of the remediation workflow: its invariants over every run, the outcome of each
  request run alone, and what survives interleaving. Each is a few steps over the component
  lemmas; the concrete project of \<open>Remediation_System\<close> witnesses their hypotheses.
\<close>

section \<open>Runs\<close>



text \<open>
  Both logs are append-only: over any run, the events and the audit rows that existed are still
  there, in place and unchanged.
\<close>
theorem logs_append_only:
  assumes "rem_step\<^sup>*\<^sup>* db db'" and "db_wf db"
  shows "(\<exists>es. db_events db' = db_events db @ es) \<and> (\<exists>as. db_audits db' = db_audits db @ as)"
  using wf_run [OF assms] event_log.run_extends audit_log.run_extends by blast

theorem logs_append_only_witness:
  "\<exists>es. db_events (snd ex_verdict) = db_events ex_db @ es"
  using logs_append_only [OF ex_verdict_run] ex_system_inv by (simp add: system_inv_def)



section \<open>Requests run alone\<close>



text \<open>
  Synchronising a project's items from the report gives exactly one item for each scorable
  issue, touches no existing item, cannot violate the unique constraint, and running it again on
  the same findings creates nothing and changes nothing.
\<close>
theorem sync_covers_issues_once:
  assumes wf: "db_wf db" and proj: "(p, ws) \<in> set (db_projects db)"
  shows "\<exists>created db'. sync_items_for_project now ws p actor rows db = Inr (created, db')
    \<and> db_items db' = db_items db @ created
    \<and> distinct (existing_keys p db')
    \<and> set (existing_keys p db') = set (existing_keys p db) \<union> issue_keys (map snd rows)
    \<and> (\<forall>i \<in> set created. ri_status i = STATUS_PROPOSED \<and> ri_project_id i = p \<and> ri_workspace_id i = ws)
    \<and> sync_body now' ws p actor' rows (existing_keys p db') db' = Inr ([], db')"
proof -
  from sync_body_current [OF wf, of now ws p actor rows] obtain created db' where
    c: "sync_body now ws p actor rows (existing_keys p db) db = Inr (created, db')"
    "map ri_issue_key created = filter (\<lambda>k. k \<notin> set (existing_keys p db)) (map si_key (group_issues (map snd rows)))"
    "\<forall>i \<in> set created. new_item_of now ws p actor i" "db_items db' = db_items db @ created" "evolves db db'"
    by blast
  have pr: "\<forall>i \<in> set created. ri_project_id i = p" using c(3) by (simp add: new_item_of_def)
  have keys: "existing_keys p db' = existing_keys p db @ map ri_issue_key created"
    using pr by (simp add: existing_keys_def c(4) filter_True)
  have "map (\<lambda>r. (ri_project_id r, ri_issue_key r)) (filter (\<lambda>r. ri_project_id r = p) (db_items db'))
      = map (Pair p) (existing_keys p db')"
    by (auto simp: existing_keys_def)
  moreover have "distinct (map (\<lambda>r. (ri_project_id r, ri_issue_key r)) (filter (\<lambda>r. ri_project_id r = p) (db_items db')))"
    using db_wfD(2) [OF evolves_wf [OF c(5)]] unfolding unique_key_def by (rule distinct_map_filter)
  ultimately have dist: "distinct (existing_keys p db')" by (simp add: distinct_map)
  have "set (map ri_issue_key created) = issue_keys (map snd rows) - set (existing_keys p db)"
    unfolding c(2) using keys_group_issues(2) [of "map snd rows"] by auto
  then have set_keys: "set (existing_keys p db') = set (existing_keys p db) \<union> issue_keys (map snd rows)"
    unfolding keys by auto
  from sync_body_current [OF evolves_wf [OF c(5)], of now' ws p actor' rows] obtain cr2 db2 where
    d: "sync_body now' ws p actor' rows (existing_keys p db') db' = Inr (cr2, db2)"
    "map ri_issue_key cr2 = filter (\<lambda>k. k \<notin> set (existing_keys p db')) (map si_key (group_issues (map snd rows)))"
    by blast
  have nil: "cr2 = []"
    using d(2) set_keys keys_group_issues(2) [of "map snd rows"] by (auto simp: filter_empty_conv)
  have "db2 = db'"
    using d(1) nil by (auto simp: sync_body_def Let_def res_bind_Inr_iff split: if_splits dest: create_items_none)
  with c pr dist set_keys d(1) nil proj show ?thesis
    by (intro exI [of _ created] exI [of _ db'])
      (auto simp: sync_items_for_project_def get_project_def new_item_of_def)
qed

theorem sync_covers_issues_once_witness:
  "\<exists>created db'. sync_items_for_project 60 10 20 None [(2, vuln_finding ex_vuln)] (ex_db\<lparr>db_items := []\<rparr>) = Inr (created, db')
    \<and> set (existing_keys 20 db') = issue_keys [vuln_finding ex_vuln]"
proof -
  have "db_wf (ex_db\<lparr>db_items := []\<rparr>)" by (simp add: db_wf_def ex_db_def unique_key_def)
  moreover have "(20, 10) \<in> set (db_projects (ex_db\<lparr>db_items := []\<rparr>))" by (simp add: ex_db_def)
  moreover have "existing_keys 20 (ex_db\<lparr>db_items := []\<rparr>) = []" by (simp add: existing_keys_def)
  ultimately show ?thesis
    using sync_covers_issues_once [of "ex_db\<lparr>db_items := []\<rparr>" 20 10 60 None "[(2, vuln_finding ex_vuln)]" 61 None]
    by auto
qed

text \<open>
  A field update changes no status, stamp or identity of any item, assigns only members of the
  workspace and accepts only the four priorities; without an effective change it writes nothing,
  whatever version the caller expected.
\<close>
theorem update_outcome:
  assumes wf: "db_wf db" and ok: "update_item now ws p i u v patch db = Inr (x, db')"
  shows "item_row db' i = Some x
    \<and> (\<exists>r. item_row db i = Some r \<and> same_identity r x \<and> ri_status x = ri_status r
         \<and> ri_verified_at x = ri_verified_at r \<and> ri_resolved_at x = ri_resolved_at r
         \<and> (ri_assignee_user_id x \<noteq> ri_assignee_user_id r \<longrightarrow>
              (case ri_assignee_user_id x of None \<Rightarrow> pa_clear_assignee patch | Some m \<Rightarrow> (ws, m) \<in> set (db_members db)))
         \<and> (ri_priority x \<noteq> ri_priority r \<longrightarrow> ri_priority x \<in> set REMEDIATION_PRIORITIES)
         \<and> (if x = r then db' = db else ri_version r = v \<and> ri_version x = v + 1))
    \<and> (\<forall>k. k \<noteq> i \<longrightarrow> item_row db' k = item_row db k)"
  using wf ok
proof (cases rule: update_okE)
  case (1 r)
  then show ?thesis by simp
next
  case (2 r cs r')
  note copy = patch_item_copy [OF 2(3)]
  then have id: "ri_id r' = ri_id r" and same: "same_identity r x"
    by (simp_all add: workflow_copy_def same_identity_def 2(6) stamp_def)
  have rows: "item_row db' k = (if k = i then Some x else item_row db k)" for k
    using 2 id by (simp add: log_simps item_row_write_item)
  have guards: "(ri_assignee_user_id x \<noteq> ri_assignee_user_id r \<longrightarrow>
      (case ri_assignee_user_id x of None \<Rightarrow> pa_clear_assignee patch | Some m \<Rightarrow> (ws, m) \<in> set (db_members db)))
    \<and> (ri_priority x \<noteq> ri_priority r \<longrightarrow> ri_priority x \<in> set REMEDIATION_PRIORITIES)"
    using patch_item_guards [OF 2(3)] by (simp add: 2(6) stamp_def)
  have v: "ri_version x = v + 1" using 2 by simp
  then have "x \<noteq> r" using 2(5) by auto
  moreover have "ri_status x = ri_status r \<and> ri_verified_at x = ri_verified_at r \<and> ri_resolved_at x = ri_resolved_at r"
    using patch_item_status [OF 2(3)] by (simp add: 2(6))
  ultimately show ?thesis using rows 2(1,5) v same guards by simp
qed

theorem update_outcome_witness:
  "\<exists>x db'. update_item 60 10 20 11 7 3 ex_patch ex_db = Inr (x, db')
    \<and> item_row db' 11 = Some x"
proof -
  have wf: "db_wf ex_db" using ex_system_inv by (simp add: system_inv_def)
  show ?thesis using update_outcome [OF wf ex_assigned_ok] ex_assigned_ok by blast
qed

section \<open>Interleaved requests\<close>

text \<open>
  Under any interleaving, a client whose expected version is not newer than the row its request
  read commits only transitions that are legal from the status stored at commit: the compare-and-set
  succeeds only if the row is still the one whose status was checked.
\<close>
theorem honest_transition_legal:
  assumes wf: "db_wf db0" and read: "item_row db0 i = Some snap" and run: "rem_step\<^sup>*\<^sup>* db0 db"
    and honest: "v \<le> ri_version snap"
    and ok: "transition_body now u v t detail snap db = Inr (x, db')"
  shows "item_row db i = Some snap \<and> is_legal (ri_status snap) t \<and> t \<notin> set GUARDED_TARGETS
    \<and> item_row db' i = Some (stamp now v (set_status now t snap))"
proof -
  have id: "ri_id snap = i" using read by (rule item_row_id)
  from wf_run [OF run wf] have run': "wf_step\<^sup>*\<^sup>* db0 db" and wf': "db_wf db" by auto
  from item_rows.run_row [OF run' read] obtain r where r: "item_row db i = Some r" "r = snap \<or> ri_version snap < ri_version r"
    by blast
  have g: "is_legal (ri_status snap) t" "t \<notin> set GUARDED_TARGETS"
    using ok by (auto simp: transition_body_def split: if_splits)
  from ok obtain db1 where "cas_write now snap (set_status now t snap) v db = Inr db1"
    by (auto simp: transition_body_def apply_transition_cas [OF db_wfD(1) [OF wf']] res_bind_Inr_iff split: if_splits)
  then have "ri_version r = v" using r id by (auto simp: cas_write_def split: if_splits)
  with r honest have cur: "item_row db i = Some snap" "ri_version snap = v" by auto
  then have row: "item_row db (ri_id snap) = Some snap" using id by simp
  have "db' = transition_result now snap (Some u) t (map_option (\<lambda>d. if d = [] then [] else [Lit d]) detail)
      ''remediation.transitioned'' ''transition'' db"
    using ok unfolding transition_body_current [OF db_wfD(1) [OF wf'] row] by (simp split: if_splits)
  with transition_result_rows [OF row] id cur g show ?thesis by simp
qed

theorem honest_transition_legal_witness:
  "item_row (snd ex_awaiting) 11 = Some (fst ex_awaiting) \<and> is_legal (ri_status (fst ex_awaiting)) STATUS_IN_PROGRESS"
proof -
  have wf0: "db_wf ex_db" using ex_system_inv by (simp add: system_inv_def)
  have wf: "db_wf (snd ex_awaiting)" using evolves_wf [OF evolves_transition [OF wf0 ex_awaiting_ok]] .
  have row: "item_row (snd ex_awaiting) 11 = Some (fst ex_awaiting)" by code_simp
  have v: "4 \<le> ri_version (fst ex_awaiting)" by code_simp
  have "\<exists>y d. transition_body 70 7 4 STATUS_IN_PROGRESS None (fst ex_awaiting) (snd ex_awaiting) = Inr (y, d)"
    by (rule exI [of _ "fst ex_back"], rule exI [of _ "snd ex_back"]) (rule ex_back_ok)
  then show ?thesis
    using honest_transition_legal [OF wf row rtranclp.rtrancl_refl v] by blast
qed

text \<open>
  The version check is against the caller's number only, never against the row whose status was
  checked. A caller who names the version the row will have by the time of the write commits a
  transition judged on the old status, legal from the stored one or not: here an item is sent back
  from verified to in progress, which the graph forbids.
\<close>
theorem guessed_version_skips_legality:
  "\<exists>snap db db' x. item_row ex_requested 11 = Some snap \<and> rem_step ex_requested db
     \<and> transition_body 80 7 5 STATUS_IN_PROGRESS None snap db = Inr (x, db')
     \<and> item_row db' 11 = Some x \<and> ri_status x = STATUS_IN_PROGRESS
     \<and> (\<exists>r. item_row db 11 = Some r \<and> ri_status r = STATUS_VERIFIED \<and> \<not> is_legal (ri_status r) STATUS_IN_PROGRESS)"
proof -
  have "item_row ex_requested 11 = Some (hd (db_items ex_requested))" by code_simp
  moreover have "rem_step ex_requested (snd ex_verdict)" by (rule rem_step.complete [OF ex_verdict_ok])
  moreover note ex_guess_ok
  moreover have "item_row (snd ex_guess) 11 = Some (fst ex_guess)" "ri_status (fst ex_guess) = STATUS_IN_PROGRESS"
    by code_simp+
  moreover have "item_row (snd ex_verdict) 11 = Some (hd (db_items (snd ex_verdict)))"
    "ri_status (hd (db_items (snd ex_verdict))) = STATUS_VERIFIED"
    "\<not> is_legal (ri_status (hd (db_items (snd ex_verdict)))) STATUS_IN_PROGRESS" by code_simp+
  ultimately show ?thesis by blast
qed

section \<open>Verification\<close>

text \<open>
  A completion that answers passed has a basis: the linked scan has a nuclei or nuclei-dast run
  that ended completed or partial, and no vulnerability row of the project that this scan was the
  last to see is an active, scorable finding of the issue. A failed answer has such a row, and an
  answer without a usable run is incomplete_coverage and leaves every item as it was.
\<close>
theorem verdict_from_retest:
  assumes wf: "db_wf db" and rd: "complete_reads ws i tok db = Inr (Inr rt)"
    and ok: "complete_verification now ws i actor tok db = Inr (q, db')"
  shows "vr_scan_id q = Some (rt_scan rt)
    \<and> (vr_result q = Some RESULT_PASSED \<longrightarrow>
        (\<exists>run \<in> set (db_tool_runs db). tr_scan_id run = rt_scan rt
           \<and> tr_tool_name run \<in> {''nuclei'', ''nuclei-dast''} \<and> tr_status run \<in> {''completed'', ''partial''})
        \<and> (\<forall>v \<in> set (db_vulns db). vu_project_id v = ri_project_id (rt_item rt) \<longrightarrow>
             vu_last_seen_scan_id v = Some (rt_scan rt) \<longrightarrow> \<not> in_issue (ri_issue_key (rt_item rt)) v))
    \<and> (vr_result q = Some RESULT_FAILED \<longrightarrow>
        (\<exists>v \<in> set (db_vulns db). vu_last_seen_scan_id v = Some (rt_scan rt)
           \<and> in_issue (ri_issue_key (rt_item rt)) v))
    \<and> (vr_result q = Some RESULT_INCOMPLETE_COVERAGE \<longrightarrow> (\<forall>k. item_row db' k = item_row db k))
    \<and> vr_result q \<in> {Some RESULT_PASSED, Some RESULT_FAILED, Some RESULT_INCOMPLETE_COVERAGE}"
proof -
  have w: "complete_writes now ws actor rt db = Inr (q, db')"
    using ok rd by (simp add: complete_verification_def)
  note v = completed_verdict [OF wf rd w]
  note l = complete_reads_basis(1) [OF rd] and c = complete_reads_basis(2) [OF rd]
  note row = complete_reads_row [OF wf rd]
  show ?thesis unfolding v(4) v(5) using complete_writes_item [OF wf row w]
    by (auto simp: retest_outcome_iff c l live_locations_none usable_coverage_iff retest_moves_def
        retest_outcome_def)
qed

theorem verdict_from_retest_witness:
  "vr_result (fst ex_verdict) = Some RESULT_PASSED \<and> (\<exists>run \<in> set (db_tool_runs ex_requested). tr_scan_id run = 30)"
proof -
  have "db_wf ex_db" using ex_system_inv by (simp add: system_inv_def)
  then have wf: "db_wf ex_requested" using wf_run [OF ex_request_step] by simp
  obtain rt where rt: "complete_reads 10 100 None ex_requested = Inr (Inr rt)" "rt_scan rt = 30"
    by (rule that [of "projr (projr (complete_reads 10 100 None ex_requested))"]) code_simp+
  have "vr_result (fst ex_verdict) = Some RESULT_PASSED" by code_simp
  with verdict_from_retest [OF wf rt(1) ex_verdict_ok] rt(2) show ?thesis by auto
qed

text \<open>
  A retest is not required to be newer than the finding. If the linked scan has a usable
  detection run and was not the last to see the issue's findings, the completion answers passed and
  verifies the item, also while a newer scan has the issue open.
\<close>
theorem stale_scan_verifies:
  assumes wf: "db_wf db" and rd: "complete_reads ws i tok db = Inr (Inr rt)"
    and aw: "ri_status (rt_item rt) = STATUS_AWAITING_VERIFICATION"
    and run: "retest_had_usable_detection_coverage (rt_scan rt) db"
    and older: "\<forall>v \<in> set (db_vulns db). in_issue (ri_issue_key (rt_item rt)) v \<longrightarrow> vu_last_seen_scan_id v \<noteq> Some (rt_scan rt)"
  shows "\<exists>q db' x. complete_verification now ws i actor tok db = Inr (q, db')
    \<and> vr_result q = Some RESULT_PASSED \<and> item_row db' (ri_id (rt_item rt)) = Some x
    \<and> ri_status x = STATUS_VERIFIED \<and> db_vulns db' = db_vulns db"
proof -
  note l = complete_reads_basis(1) [OF rd]
  have c: "rt_coverage_ok rt" using complete_reads_basis(2) [OF rd] run by simp
  have live: "rt_live rt = 0" unfolding l using older by (auto simp: live_locations_none)
  then have o: "retest_outcome (rt_coverage_ok rt) (rt_live rt) = RESULT_PASSED" using c by (simp add: retest_outcome_iff)
  then have t: "retest_target rt = STATUS_VERIFIED" by (simp add: retest_target_def)
  then have m: "retest_moves rt" using c aw by (simp add: retest_moves_def)
  note row = complete_reads_row [OF wf rd]
  note wf' = evolves_wf [OF evolves_verdict_recorded [OF wf, of now actor rt]]
  have row': "item_row (verdict_recorded now actor rt db) (ri_id (rt_item rt)) = Some (rt_item rt)"
    using row by (simp add: log_simps)
  obtain q db' where w: "complete_writes now ws actor rt db = Inr (q, db')"
    using o t aw row' unfolding complete_writes_def Let_def o
    by (simp add: verdict_recorded_def Let_def o apply_transition_current [OF db_wfD(1) [OF wf', unfolded verdict_recorded_def Let_def o]])
  have vul: "db_vulns db' = db_vulns (verdict_recorded now actor rt db)"
    using w by (cases rule: complete_writesE) (use m apply_transition_tables(3) [OF wf'] in auto)
  then have "db_vulns db' = db_vulns db" by (simp add: verdict_recorded_def Let_def log_simps update_requests_def)
  moreover have "complete_verification now ws i actor tok db = Inr (q, db')"
    using rd w by (simp add: complete_verification_def)
  moreover have "vr_result q = Some RESULT_PASSED" using completed_verdict(4) [OF wf rd w] o by simp
  ultimately show ?thesis using complete_writes_item [OF wf row w] m t by auto
qed

theorem stale_scan_verifies_witness:
  "\<exists>q db' x. complete_verification 70 10 100 None None ex_requested = Inr (q, db') \<and> item_row db' 11 = Some x
    \<and> ri_status x = STATUS_VERIFIED \<and> db_vulns db' = [ex_vuln] \<and> in_issue ''template:sqli'' ex_vuln"
proof -
  have "db_wf ex_db" using ex_system_inv by (simp add: system_inv_def)
  then have wf: "db_wf ex_requested" using wf_run [OF ex_request_step] by simp
  obtain rt where rt: "complete_reads 10 100 None ex_requested = Inr (Inr rt)" "rt_scan rt = 30"
      "ri_status (rt_item rt) = STATUS_AWAITING_VERIFICATION" "ri_id (rt_item rt) = 11"
    by (rule that [of "projr (projr (complete_reads 10 100 None ex_requested))"]) code_simp+
  have v: "db_vulns ex_requested = [ex_vuln]" by code_simp
  have "vu_last_seen_scan_id ex_vuln = Some 31" by (simp add: ex_vuln_def)
  moreover have "retest_had_usable_detection_coverage (rt_scan rt) ex_requested" unfolding rt(2) by code_simp
  ultimately show ?thesis
    using stale_scan_verifies [OF wf rt(1,3), of 70 None] rt(2,4) v ex_in_issue by auto
qed

text \<open>
  A verification requested without a scan can never be completed and is never closed: from then
  on, over every run, a new request for the item is refused as outstanding and the item is never
  verified.
\<close>
theorem unlinked_request_blocks_item:
  assumes run: "rem_step\<^sup>*\<^sup>* db db'" and wf: "db_wf db" and u: "unlinked db i"
    and nv: "\<forall>r. item_row db i = Some r \<longrightarrow> ri_status r \<noteq> STATUS_VERIFIED"
  shows "\<not> is_ok (request_verification now ws p i actor v scan db')
    \<and> (\<forall>r. item_row db' i = Some r \<longrightarrow> ri_status r \<noteq> STATUS_VERIFIED)"
proof (intro conjI)
  from unlinked_run [OF run wf u nv] have wf': "db_wf db'" and u': "unlinked db' i"
    and "\<forall>r. item_row db' i = Some r \<longrightarrow> ri_status r \<noteq> STATUS_VERIFIED" by blast+
  then show "\<forall>r. item_row db' i = Some r \<longrightarrow> ri_status r \<noteq> STATUS_VERIFIED" by blast
  show "\<not> is_ok (request_verification now ws p i actor v scan db')"
  proof
    assume "is_ok (request_verification now ws p i actor v scan db')"
    then obtain q d where "request_verification now ws p i actor v scan db' = Inr (q, d)" by (auto simp: is_ok_iff)
    from wf' this have "outstanding_request i db' = None" by (rule request_okE)
    with unlinked_outstanding [OF u'] show False by simp
  qed
qed

theorem unlinked_request_blocks_item_witness:
  "\<not> is_ok (request_verification 90 10 20 11 7 5 (Some 31) (snd ex_unlinked))"
proof -
  have wf: "db_wf ex_db" using ex_system_inv by (simp add: system_inv_def)
  have wf': "db_wf (snd ex_unlinked)" by (rule request_okE [OF wf ex_unlinked_ok]) (rule evolves_wf)
  have u: "unlinked (snd ex_unlinked) 11" by code_simp
  have n: "\<forall>r. item_row (snd ex_unlinked) 11 = Some r \<longrightarrow> ri_status r \<noteq> STATUS_VERIFIED"
  proof -
    have "map_option ri_status (item_row (snd ex_unlinked) 11) = Some STATUS_AWAITING_VERIFICATION" by code_simp
    then show ?thesis by auto
  qed
  from unlinked_request_blocks_item [OF rtranclp.rtrancl_refl wf' u n] show ?thesis by blast
qed

text \<open>
  Of any workers that try to claim one verification request, in any number and order, the first
  wins exactly if the request is pending and no other wins.
\<close>
theorem claim_has_one_winner:
  assumes "db_wf db"
  shows "claim_all i (t # ts) db =
    (\<exists>q \<in> set (db_requests db). vr_id q = i \<and> vr_status q = VR_PENDING) # replicate (length ts) False"
  unfolding claim_all_race using assms by (rule vr.race_free)

theorem claim_has_one_winner_witness:
  "claim_all 100 [(61, 1), (62, 2), (63, 3)] ex_requested = [True, False, False]"
proof -
  have "db_wf ex_db" using ex_system_inv by (simp add: system_inv_def)
  then have wf: "db_wf ex_requested" using wf_run [OF ex_request_step] by simp
  have "\<exists>q \<in> set (db_requests ex_requested). vr_id q = 100 \<and> vr_status q = VR_PENDING" by code_simp
  then show ?thesis using claim_has_one_winner [OF wf, of 100 "(61, 1)" "[(62, 2), (63, 3)]"]
    by (simp add: numeral_2_eq_2)
qed

text \<open>
  Two completions of one request that read the same state do not both move the item: once one
  has changed its status, the other is refused with the version it expected and the one it found.
\<close>
theorem completion_moves_item_once:
  assumes wf: "db_wf db" and rd: "complete_reads ws i tok db = Inr (Inr rt)" and m: "retest_moves rt"
    and ok: "complete_writes now ws actor rt db = Inr (q, db')"
  shows "complete_writes now' ws actor' rt db' =
    Inl (StaleVersion (ri_version (rt_item rt)) (Some (ri_version (rt_item rt) + 1)))"
proof -
  let ?v = "verdict_recorded now' actor' rt db'"
  note row = complete_reads_row [OF wf rd]
  note wf' = complete_writes_tables(1) [OF wf ok, THEN evolves_wf]
  note wfv = evolves_wf [OF evolves_verdict_recorded [OF wf', of now' actor' rt]]
  have r: "item_row ?v (ri_id (rt_item rt)) =
      Some (stamp now (ri_version (rt_item rt)) (set_status now (retest_target rt) (rt_item rt)))"
    using complete_writes_item [OF wf row ok, of "ri_id (rt_item rt)"] m by (simp add: log_simps)
  have st: "apply_transition now' (rt_item rt) actor' (ri_version (rt_item rt)) t d aa et ?v =
      Inl (StaleVersion (ri_version (rt_item rt)) (Some (ri_version (rt_item rt) + 1)))" for t d aa et
    unfolding apply_transition_cas [OF db_wfD(1) [OF wfv]] cas_write_def r by simp
  have o: "retest_outcome (rt_coverage_ok rt) (rt_live rt) \<noteq> RESULT_INCOMPLETE_COVERAGE"
    "is_legal (ri_status (rt_item rt))
      (if retest_outcome (rt_coverage_ok rt) (rt_live rt) = RESULT_PASSED then STATUS_VERIFIED else STATUS_IN_PROGRESS)"
    using m by (auto simp: retest_moves_def retest_outcome_iff retest_target_def split: if_splits)
  then show ?thesis
    unfolding complete_writes_def Let_def finish_request_simps verdict_recorded_def [symmetric, unfolded Let_def]
    by (auto simp: st)
qed

theorem completion_moves_item_once_witness:
  "complete_writes 71 10 None (projr (projr (complete_reads 10 100 None ex_requested))) (snd ex_verdict) =
    Inl (StaleVersion 4 (Some 5))"
proof -
  have "db_wf ex_db" using ex_system_inv by (simp add: system_inv_def)
  then have wf: "db_wf ex_requested" using wf_run [OF ex_request_step] by simp
  let ?rt = "projr (projr (complete_reads 10 100 None ex_requested))"
  have rt: "complete_reads 10 100 None ex_requested = Inr (Inr ?rt)" by code_simp
  have m: "retest_moves ?rt" and v: "ri_version (rt_item ?rt) = 4" by code_simp+
  have "complete_writes 70 10 None ?rt ex_requested = Inr (fst ex_verdict, snd ex_verdict)" by code_simp
  from completion_moves_item_once [OF wf rt m this] v show ?thesis by simp
qed

section \<open>Risk acceptance\<close>

text \<open>
  Two grants for one vulnerability whose checks both precede both writes leave it with two
  active acceptances: no lock or constraint stands behind the check that there is none.
\<close>
theorem concurrent_grants_both_active:
  assumes "db_wf db" and "accept_reads now ws p args db = Inr (vuln, item)"
    and "accept_reads now1 ws1 p1 args1 db = Inr (vuln, item1)"
    and "accept_writes now1 ws1 p1 actor1 args1 (vuln, item1) db = Inr (a1, db1)"
    and "accept_writes now ws p actor args (vuln, item) db1 = Inr (a2, db2)"
  shows "\<not> at_most_one_active db2"
  using interleaved_grants [OF assms(1,2,4,5)] .

theorem concurrent_grants_both_active_witness:
  "\<not> at_most_one_active (snd ex_granted2)"
  using concurrent_grants_both_active [OF _ ex_grant_ok(1) ex_grant_ok(1) ex_grant_ok(2,3)] ex_system_inv
  by (simp add: system_inv_def)

text \<open>
  The expiry sweep flips exactly the workspace's active acceptances whose time has come, counts
  them, and afterwards none is due; every other acceptance is as it was. It moves no remediation
  item: one that is risk-accepted on the strength of the expired acceptance stays risk-accepted.
\<close>
theorem expiry_sweep:
  assumes wf: "db_wf db" and ok: "expire_due_acceptances now ws db = (n, db')"
  shows "n = length (due_acceptances now ws db) \<and> due_acceptances now ws db' = []
    \<and> db_acceptances db' = map (\<lambda>a. if ra_workspace_id a = ws \<and> ra_status a = RA_ACTIVE \<and> ra_expires_at a \<le> now
         then a\<lparr>ra_status := RA_EXPIRED\<rparr> else a) (db_acceptances db)
    \<and> db_items db' = db_items db"
proof -
  note e = expire_effect [OF wf ok]
  have nd: "\<not> is_due now ws (if is_due now ws a then a\<lparr>ra_status := RA_EXPIRED\<rparr> else a)" for a
    by (cases "is_due now ws a") (simp_all add: is_due_def)
  have "due_acceptances now ws db' = []"
    unfolding due_acceptances_filter e(5) filter_empty_conv set_map ball_simps(9) using nd by blast
  moreover have "n = length (due_acceptances now ws db)" by (simp add: due_acceptances_filter e(4))
  moreover have "db_acceptances db' = map (\<lambda>a. if ra_workspace_id a = ws \<and> ra_status a = RA_ACTIVE \<and> ra_expires_at a \<le> now
         then a\<lparr>ra_status := RA_EXPIRED\<rparr> else a) (db_acceptances db)"
    unfolding e(5) is_due_def by (rule refl)
  ultimately show ?thesis using e(2) by blast
qed

theorem expiry_sweep_witness:
  "due_acceptances 2000 10 (snd (expire_due_acceptances 2000 10 (snd ex_granted))) = []
    \<and> length (due_acceptances 2000 10 (snd ex_granted)) = 1"
proof -
  have "db_wf ex_db" using ex_system_inv by (simp add: system_inv_def)
  then have "db_wf (snd ex_granted)" using accept_writes_ok(6) [OF _ ex_grant_ok(2)] by (simp add: evolves_def)
  from expiry_sweep [OF this ex_expire_ok] show ?thesis by simp
qed

section \<open>Progress\<close>

text \<open>
  The progress counts partition the project's items: their total is the number of items and,
  while every status is of the vocabulary, the sum of open, resolved and rejected; overdue items are
  open ones; and the completion percentage lies between 0 and 100, and is 0 when nothing is resolved.
\<close>
theorem progress_partitions:
  assumes voc: "\<forall>r \<in> set (db_items db). ri_status r \<in> set REMEDIATION_STATUSES"
  shows "let g = progress_for_project now ws p db in
    pg_total g = length (filter (\<lambda>r. ri_project_id r = p \<and> ri_workspace_id r = ws) (db_items db))
    \<and> pg_total g = pg_open g + pg_resolved g + pg_rejected g
    \<and> pg_overdue g \<le> pg_open g
    \<and> 0 \<le> pg_completion_percent g \<and> pg_completion_percent g \<le> 100
    \<and> (pg_resolved g = 0 \<longrightarrow> pg_completion_percent g = 0)"
proof -
  define rows where "rows = filter (\<lambda>r. ri_project_id r = p \<and> ri_workspace_id r = ws) (db_items db)"
  define n where "n s = length (filter (\<lambda>r. ri_status r = s) rows)" for s
  have voc': "\<forall>r \<in> set rows. ri_status r \<in> set REMEDIATION_STATUSES" using voc by (simp add: rows_def)
  have total: "(\<Sum>s \<leftarrow> remdups (map ri_status rows). n s) = length rows"
    unfolding n_def by (rule status_counts_total)
  have parts: "length rows = (\<Sum>s \<leftarrow> OPEN_STATUSES. n s) + (\<Sum>s \<leftarrow> RESOLVED_STATUSES. n s) + n STATUS_REJECTED"
    unfolding n_def by (rule status_counts_partition [OF voc'])
  have over: "length (filter (sql_overdue now) rows) \<le> (\<Sum>s \<leftarrow> OPEN_STATUSES. n s)"
    unfolding n_def by (rule overdue_le_open)
  let ?res = "(\<Sum>s \<leftarrow> RESOLVED_STATUSES. n s)"
  have pct: "0 \<le> py_round (real (100 * ?res) / real (length rows)) \<and> py_round (real (100 * ?res) / real (length rows)) \<le> 100"
    if "rows \<noteq> []"
  proof (rule percent_bounds)
    show "?res \<le> length rows" using parts by linarith
    show "0 < length rows" using that by simp
  qed
  define g where "g = progress_for_project now ws p db"
  note defs = g_def progress_for_project_def Let_def rows_def [symmetric] n_def [symmetric] progress.simps
  have g: "pg_total g = length rows" "pg_open g = (\<Sum>s \<leftarrow> OPEN_STATUSES. n s)" "pg_resolved g = ?res"
    "pg_rejected g = n STATUS_REJECTED" "pg_overdue g = length (filter (sql_overdue now) rows)"
    "pg_completion_percent g = (if length rows = 0 then 0 else py_round (real (100 * ?res) / real (length rows)))"
    unfolding defs total STATUS_REJECTED_def by (rule refl)+
  have z: "?res = 0 \<longrightarrow> pg_completion_percent g = 0"
  proof
    assume "?res = 0"
    then have "real (100 * ?res) / real (length rows) = of_int 0" by (simp only: mult_0_right of_nat_0 div_0 of_int_0)
    then show "pg_completion_percent g = 0" unfolding g(6) by (simp only: py_round_of_int if_cancel)
  qed
  have "0 \<le> pg_completion_percent g \<and> pg_completion_percent g \<le> 100" unfolding g(6) using pct by simp
  with parts over z have "pg_total g = length rows \<and> pg_total g = pg_open g + pg_resolved g + pg_rejected g
    \<and> pg_overdue g \<le> pg_open g \<and> 0 \<le> pg_completion_percent g \<and> pg_completion_percent g \<le> 100
    \<and> (pg_resolved g = 0 \<longrightarrow> pg_completion_percent g = 0)"
    unfolding g(1-5) by blast
  then show ?thesis unfolding g_def rows_def Let_def .
qed

theorem progress_partitions_witness:
  "pg_total (progress_for_project 60 10 20 ex_db) = 1 \<and> pg_overdue (progress_for_project 60 10 20 ex_db) \<le> 1"
proof -
  have "\<forall>r \<in> set (db_items ex_db). ri_status r \<in> set REMEDIATION_STATUSES" by code_simp
  from progress_partitions [OF this, of 60 10 20] show ?thesis
    by (simp add: Let_def) (simp add: ex_db_def ex_item_def)
qed

end
