(* ===== verification/Evidence_Verification.thy ===== *)
theory Evidence_Verification
  imports Issue_Classification
begin

text \<open>
  \<open>modules/reports/verification.py\<close>: the verification state and the confidence of a reported
  finding, the reason codes that explain them, and the admission of confidence values. The
  classifier reads only metadata; the model keeps the shapes it accepts: a plain reference or a
  tuple whose first element is one.
\<close>

section \<open>Constants\<close>

definition VERIFIED :: string where "VERIFIED = ''verified''"
definition PARTIALLY_VERIFIED :: string where "PARTIALLY_VERIFIED = ''partially_verified''"
definition UNVERIFIED :: string where "UNVERIFIED = ''unverified''"
definition CONFIDENCE_HIGH :: string where "CONFIDENCE_HIGH = ''high''"
definition CONFIDENCE_MEDIUM :: string where "CONFIDENCE_MEDIUM = ''medium''"
definition CONFIDENCE_LOW :: string where "CONFIDENCE_LOW = ''low''"

named_theorems evidence_consts \<open>The literals of the classifier.\<close>

lemmas evidence_consts_defs [evidence_consts] =
  VERIFIED_def PARTIALLY_VERIFIED_def UNVERIFIED_def CONFIDENCE_HIGH_def CONFIDENCE_MEDIUM_def
  CONFIDENCE_LOW_def

definition VERIFICATION_LABELS :: "(string \<times> string) list" where
  "VERIFICATION_LABELS =
     [(VERIFIED, ''Verified''), (PARTIALLY_VERIFIED, ''Partially Verified''), (UNVERIFIED, ''Unverified'')]"

definition CONFIDENCE_LABELS :: "(string \<times> string) list" where
  "CONFIDENCE_LABELS =
     [(CONFIDENCE_HIGH, ''High''), (CONFIDENCE_MEDIUM, ''Medium''), (CONFIDENCE_LOW, ''Low'')]"

definition INFERENCE_MARKERS :: "string list" where
  "INFERENCE_MARKERS =
     [''time-based'', ''time_based'', ''blind'', ''timing'', ''out-of-band'', ''oob'']"

definition GENERIC_MARKERS :: "string list" where
  "GENERIC_MARKERS = [''generic'', ''-detect'', ''detection'']"

definition UNAVAILABLE_SCHEME :: string where "UNAVAILABLE_SCHEME = ''unavailable://''"

section \<open>Predicates\<close>

definition norm_str :: "string option \<Rightarrow> string" where
  "norm_str value = py_lower (py_strip (or_empty value))"

definition is_real_artefact :: "string option \<Rightarrow> bool" where
  "is_real_artefact uri =
     (let t = py_strip (or_empty uri) in t \<noteq> [] \<and> \<not> py_startswith (py_lower t) UNAVAILABLE_SCHEME)"

text \<open>An entry of \<open>evidence_uris\<close> is a reference, one of \<open>screenshots\<close> a tuple that starts with one.\<close>

datatype artefact = Ref "string option" | RefTuple "string option list"

fun artefact_uri :: "artefact \<Rightarrow> string option" where
  "artefact_uri (Ref u) = u"
| "artefact_uri (RefTuple []) = None"
| "artefact_uri (RefTuple (u # us)) = u"

fun count_artefacts :: "artefact list \<Rightarrow> nat" where
  "count_artefacts [] = 0"
| "count_artefacts (v # vs) =
     (if is_real_artefact (artefact_uri v) then count_artefacts vs + 1 else count_artefacts vs)"

definition joined :: "string option list \<Rightarrow> string" where
  "joined values = py_join '' '' (map norm_str values)"

definition has_inference_marker :: "string option list \<Rightarrow> bool" where
  "has_inference_marker values = list_ex (\<lambda>m. py_contains m (joined values)) INFERENCE_MARKERS"

definition is_generic :: "string option list \<Rightarrow> bool" where
  "is_generic values =
     (if list_ex (\<lambda>m. py_contains m (joined values)) GENERIC_MARKERS then True
      else list_ex (\<lambda>v. template_looks_like_detection (Some (norm_str v))) (filter truthy values))"

section \<open>The classifier\<close>

record match_evidence =
  me_template_id :: "string option"
  me_matcher_name :: "string option"
  me_evidence_uris :: "artefact list"
  me_screenshots :: "artefact list"
  me_classification :: "string option"
  me_cve :: "string option"

definition classify_verification :: "match_evidence \<Rightarrow> string \<times> string" where
  "classify_verification m =
     (let n_screens = count_artefacts (me_screenshots m);
          n_evidence = count_artefacts (me_evidence_uris m);
          has_artefacts = (n_screens \<noteq> 0 \<or> n_evidence \<noteq> 0);
          inference = has_inference_marker [me_template_id m, me_matcher_name m];
          generic = is_generic [me_template_id m, me_matcher_name m];
          is_detection = (norm_str (me_classification m) = ''detection'');
          verification =
            (if \<not> has_artefacts then UNVERIFIED
             else if is_detection \<or> generic \<or> inference then PARTIALLY_VERIFIED
             else if n_screens \<noteq> 0 \<and> n_evidence \<noteq> 0 then VERIFIED
             else PARTIALLY_VERIFIED);
          confidence =
            (if inference then CONFIDENCE_LOW
             else if truthy (me_cve m) \<and> \<not> generic then CONFIDENCE_HIGH
             else if has_artefacts \<and> \<not> generic then CONFIDENCE_HIGH
             else CONFIDENCE_MEDIUM)
      in (verification, confidence))"

definition REASON_NO_ARTEFACTS :: string where "REASON_NO_ARTEFACTS = ''no_artefacts''"
definition REASON_GENERIC_MATCH :: string where "REASON_GENERIC_MATCH = ''generic_match''"
definition REASON_INFERENCE_MATCH :: string where "REASON_INFERENCE_MATCH = ''inference_match''"
definition REASON_DETECTION_CLASS :: string where "REASON_DETECTION_CLASS = ''detection_class''"
definition REASON_RESPONSE_CAPTURED :: string where "REASON_RESPONSE_CAPTURED = ''response_captured''"
definition REASON_SCREENSHOT_CAPTURED :: string where "REASON_SCREENSHOT_CAPTURED = ''screenshot_captured''"
definition REASON_CORROBORATED_BOTH :: string where
  "REASON_CORROBORATED_BOTH = ''corroborated_both_artefacts''"
definition REASON_CVE_BACKED :: string where "REASON_CVE_BACKED = ''cve_backed''"

lemmas reason_consts_defs [evidence_consts] =
  REASON_NO_ARTEFACTS_def REASON_GENERIC_MATCH_def REASON_INFERENCE_MATCH_def REASON_DETECTION_CLASS_def
  REASON_RESPONSE_CAPTURED_def REASON_SCREENSHOT_CAPTURED_def REASON_CORROBORATED_BOTH_def
  REASON_CVE_BACKED_def

definition verification_reasons :: "match_evidence \<Rightarrow> string list" where
  "verification_reasons m =
     (let n_screens = count_artefacts (me_screenshots m);
          n_evidence = count_artefacts (me_evidence_uris m);
          generic = is_generic [me_template_id m, me_matcher_name m]
      in (if \<not> (n_screens \<noteq> 0 \<or> n_evidence \<noteq> 0) then [REASON_NO_ARTEFACTS] else [])
         @ (if norm_str (me_classification m) = ''detection'' then [REASON_DETECTION_CLASS] else [])
         @ (if generic then [REASON_GENERIC_MATCH] else [])
         @ (if has_inference_marker [me_template_id m, me_matcher_name m] then [REASON_INFERENCE_MATCH] else [])
         @ (if n_evidence \<noteq> 0 then [REASON_RESPONSE_CAPTURED] else [])
         @ (if n_screens \<noteq> 0 then [REASON_SCREENSHOT_CAPTURED] else [])
         @ (if n_screens \<noteq> 0 \<and> n_evidence \<noteq> 0 then [REASON_CORROBORATED_BOTH] else [])
         @ (if truthy (me_cve m) \<and> \<not> generic then [REASON_CVE_BACKED] else []))"

definition REASON_NOTES :: "(string \<times> string) list" where
  "REASON_NOTES =
     [(REASON_NO_ARTEFACTS, ''No evidence artefact was captured for this match.''),
      (REASON_GENERIC_MATCH, ''The template matches a broad payload class rather than a specific condition.''),
      (REASON_INFERENCE_MATCH, ''The match is inference-based (timing or out-of-band), not directly observed output.''),
      (REASON_DETECTION_CLASS, ''This is a detection (something observed), not an exploitable condition.''),
      (REASON_RESPONSE_CAPTURED, ''Captured tool output corroborates the match.''),
      (REASON_SCREENSHOT_CAPTURED, ''A rendered screenshot corroborates the match.''),
      (REASON_CORROBORATED_BOTH, ''Corroborated from two independent directions (captured response and screenshot).''),
      (REASON_CVE_BACKED, ''The template is backed by a specific CVE identifier.'')]"

definition reason_note :: "string option \<Rightarrow> string" where
  "reason_note code = (case map_of REASON_NOTES (norm_str code) of None \<Rightarrow> [] | Some n \<Rightarrow> n)"

section \<open>Admission of confidence values\<close>

datatype confidence_value = ConfNone | ConfNumber real | ConfText string

datatype provenance_error = NotEvidenceSource string | NumericConfidence | NotABand string

definition CONFIDENCE_SOURCE_EVIDENCE :: string where "CONFIDENCE_SOURCE_EVIDENCE = ''evidence''"
definition CONFIDENCE_SOURCE_AI :: string where "CONFIDENCE_SOURCE_AI = ''ai''"

definition VALID_CONFIDENCE :: "string list" where
  "VALID_CONFIDENCE = [CONFIDENCE_HIGH, CONFIDENCE_MEDIUM, CONFIDENCE_LOW]"

definition normalize_confidence :: "confidence_value \<Rightarrow> string \<Rightarrow> provenance_error + string" where
  "normalize_confidence value source =
     (if source \<noteq> CONFIDENCE_SOURCE_EVIDENCE then Inl (NotEvidenceSource source)
      else (case value of
          ConfNone \<Rightarrow> Inr CONFIDENCE_MEDIUM
        | ConfNumber x \<Rightarrow> Inl NumericConfidence
        | ConfText t \<Rightarrow>
            (let band = norm_str (Some t) in
             if \<not> List.member VALID_CONFIDENCE band then Inl (NotABand t) else Inr band)))"

section \<open>Labels\<close>

definition verification_label :: "string option \<Rightarrow> string" where
  "verification_label state =
     (case map_of VERIFICATION_LABELS (norm_str state) of
        None \<Rightarrow> the (map_of VERIFICATION_LABELS UNVERIFIED) | Some l \<Rightarrow> l)"

definition confidence_label :: "string option \<Rightarrow> string" where
  "confidence_label level =
     (case map_of CONFIDENCE_LABELS (norm_str level) of
        None \<Rightarrow> the (map_of CONFIDENCE_LABELS CONFIDENCE_MEDIUM) | Some l \<Rightarrow> l)"

definition verification_note :: "string option \<Rightarrow> string" where
  "verification_note state =
     (let s = norm_str state in
      if s = VERIFIED then ''Exploitation corroborated by captured evidence.''
      else if s = PARTIALLY_VERIFIED then ''Supporting evidence captured; manual validation recommended.''
      else ''Scanner-detected condition requiring manual validation.'')"

section \<open>Lemmas\<close>

lemma count_artefacts_filter:
  "count_artefacts vs = length (filter (\<lambda>v. is_real_artefact (artefact_uri v)) vs)"
  by (induction vs) auto

lemma count_artefacts_0: "count_artefacts vs = 0 \<longleftrightarrow> (\<forall>v \<in> set vs. \<not> is_real_artefact (artefact_uri v))"
  by (auto simp: count_artefacts_filter filter_empty_conv)

lemma verification_neq [simp]:
  "VERIFIED \<noteq> PARTIALLY_VERIFIED" "VERIFIED \<noteq> UNVERIFIED" "PARTIALLY_VERIFIED \<noteq> UNVERIFIED"
  "PARTIALLY_VERIFIED \<noteq> VERIFIED" "UNVERIFIED \<noteq> VERIFIED" "UNVERIFIED \<noteq> PARTIALLY_VERIFIED"
  by (simp_all add: evidence_consts)

text \<open>Stripping and lowering are idempotent and commute, so normalising twice is normalising once.\<close>

lemma py_strip_lower: "py_strip (py_lower s) = py_lower (py_strip s)"
  by (simp add: py_strip_def py_lstrip_def py_lower_def dropWhile_map comp_def rev_map)

lemma py_strip_idem [simp]: "py_strip (py_strip s) = py_strip s"
proof -
  let ?d = "dropWhile is_space"
  have hd_drop: "xs = [] \<or> \<not> is_space (hd xs) \<Longrightarrow> ?d xs = xs" for xs by (cases xs) auto
  have hd_d: "?d xs = [] \<or> \<not> is_space (hd (?d xs))" for xs by (metis hd_dropWhile)
  let ?a = "?d s"
  let ?b = "rev (?d (rev ?a))"
  have "?b = [] \<or> \<not> is_space (hd ?b)"
  proof (cases "?b = []")
    case False
    obtain ys where "rev ?a = ys @ ?d (rev ?a)" by (metis takeWhile_dropWhile_id)
    then have "?a = ?b @ rev ys" by (metis rev_append rev_rev_ident)
    with False hd_d [of s] show ?thesis by (metis hd_append2 append_is_Nil_conv)
  qed simp
  then have "?d ?b = ?b" by (rule hd_drop)
  moreover have "?d (?d (rev ?a)) = ?d (rev ?a)" by (rule hd_drop [OF hd_d])
  ultimately show ?thesis by (simp add: py_strip_def py_lstrip_def)
qed

lemma norm_str_idem [simp]: "norm_str (Some (norm_str v)) = norm_str v"
  by (simp add: norm_str_def py_strip_lower)

text \<open>The verdict, read off the trace.\<close>

definition verdict_of_reasons :: "string list \<Rightarrow> string \<times> string" where
  "verdict_of_reasons rs =
     ((if REASON_NO_ARTEFACTS \<in> set rs then UNVERIFIED
       else if {REASON_DETECTION_CLASS, REASON_GENERIC_MATCH, REASON_INFERENCE_MATCH} \<inter> set rs \<noteq> {}
       then PARTIALLY_VERIFIED
       else if REASON_CORROBORATED_BOTH \<in> set rs then VERIFIED else PARTIALLY_VERIFIED),
      (if REASON_INFERENCE_MATCH \<in> set rs then CONFIDENCE_LOW
       else if REASON_CVE_BACKED \<in> set rs then CONFIDENCE_HIGH
       else if REASON_NO_ARTEFACTS \<notin> set rs \<and> REASON_GENERIC_MATCH \<notin> set rs then CONFIDENCE_HIGH
       else CONFIDENCE_MEDIUM))"

lemma reason_mem:
  "REASON_NO_ARTEFACTS \<in> set (verification_reasons m) \<longleftrightarrow>
     count_artefacts (me_screenshots m) = 0 \<and> count_artefacts (me_evidence_uris m) = 0"
  "REASON_DETECTION_CLASS \<in> set (verification_reasons m) \<longleftrightarrow> norm_str (me_classification m) = ''detection''"
  "REASON_GENERIC_MATCH \<in> set (verification_reasons m) \<longleftrightarrow> is_generic [me_template_id m, me_matcher_name m]"
  "REASON_INFERENCE_MATCH \<in> set (verification_reasons m) \<longleftrightarrow>
     has_inference_marker [me_template_id m, me_matcher_name m]"
  "REASON_CORROBORATED_BOTH \<in> set (verification_reasons m) \<longleftrightarrow>
     count_artefacts (me_screenshots m) \<noteq> 0 \<and> count_artefacts (me_evidence_uris m) \<noteq> 0"
  "REASON_CVE_BACKED \<in> set (verification_reasons m) \<longleftrightarrow>
     truthy (me_cve m) \<and> \<not> is_generic [me_template_id m, me_matcher_name m]"
  unfolding verification_reasons_def Let_def
  by (simp_all add: evidence_consts)

lemma norm_band: "b \<in> set VALID_CONFIDENCE \<Longrightarrow> norm_str (Some b) = b"
proof -
  have "norm_str (Some CONFIDENCE_HIGH) = CONFIDENCE_HIGH \<and> norm_str (Some CONFIDENCE_MEDIUM) = CONFIDENCE_MEDIUM
    \<and> norm_str (Some CONFIDENCE_LOW) = CONFIDENCE_LOW" by code_simp
  then show "b \<in> set VALID_CONFIDENCE \<Longrightarrow> norm_str (Some b) = b" by (auto simp: VALID_CONFIDENCE_def)
qed

text \<open>Stripping keeps a prefix that neither starts nor ends with white space.\<close>

lemma py_strip_prefix:
  assumes "u \<noteq> []" and "\<not> is_space (hd u)" and "\<not> is_space (last u)"
  shows "\<exists>t. py_strip (u @ t0) = u @ t"
proof -
  have l: "dropWhile is_space (u @ t0) = u @ t0" using assms(1,2) by (cases u) auto
  have "dropWhile is_space (rev u) = rev u"
    using assms(1,3) by (cases "rev u") (auto simp: last_rev)
  then have "dropWhile is_space (rev t0 @ rev u) = dropWhile is_space (rev t0) @ rev u"
    by (auto simp: dropWhile_append)
  then show ?thesis by (simp add: py_strip_def py_lstrip_def l)
qed

lemma sentinel_not_real: "\<not> is_real_artefact (Some (UNAVAILABLE_SCHEME @ path))"
proof -
  have "UNAVAILABLE_SCHEME \<noteq> [] \<and> \<not> is_space (hd UNAVAILABLE_SCHEME) \<and> \<not> is_space (last UNAVAILABLE_SCHEME)
    \<and> py_lower UNAVAILABLE_SCHEME = UNAVAILABLE_SCHEME" by code_simp
  then show ?thesis
    using py_strip_prefix [of UNAVAILABLE_SCHEME path]
    by (auto simp: is_real_artefact_def Let_def py_startswith_iff py_lower_def)
qed

section \<open>Properties\<close>

text \<open>
  A finding is reported verified exactly when a real screenshot and a real captured output both
  exist and the match is neither generic, nor inferred, nor a detection; it is unverified exactly
  when there is no real artefact at all.
\<close>
theorem verified_iff_corroborated:
  "(fst (classify_verification m) = VERIFIED \<longleftrightarrow>
      (\<exists>v. v \<in> set (me_screenshots m) \<and> is_real_artefact (artefact_uri v))
      \<and> (\<exists>v. v \<in> set (me_evidence_uris m) \<and> is_real_artefact (artefact_uri v))
      \<and> \<not> is_generic [me_template_id m, me_matcher_name m]
      \<and> \<not> has_inference_marker [me_template_id m, me_matcher_name m]
      \<and> norm_str (me_classification m) \<noteq> ''detection'')
    \<and> (fst (classify_verification m) = UNVERIFIED \<longleftrightarrow>
      \<not> (\<exists>v. v \<in> set (me_screenshots m @ me_evidence_uris m) \<and> is_real_artefact (artefact_uri v)))"
proof -
  have ex: "(\<exists>v. v \<in> set vs \<and> is_real_artefact (artefact_uri v)) \<longleftrightarrow> 0 < count_artefacts vs" for vs
    using count_artefacts_0 [of vs] by auto
  have app: "count_artefacts (us @ vs) = count_artefacts us + count_artefacts vs" for us vs
    by (simp add: count_artefacts_filter)
  show ?thesis unfolding ex app by (auto simp: classify_verification_def Let_def)
qed

text \<open>
  A reference that points at nothing is the absence of evidence: dropping every entry that is not
  a real artefact, failed-upload sentinels and blanks alike, changes neither the state nor the
  confidence nor the trace.
\<close>
theorem failed_captures_do_not_count:
  "let real = filter (\<lambda>v. is_real_artefact (artefact_uri v));
       m' = m\<lparr>me_evidence_uris := real (me_evidence_uris m), me_screenshots := real (me_screenshots m)\<rparr>
   in classify_verification m = classify_verification m' \<and> verification_reasons m = verification_reasons m'
     \<and> \<not> is_real_artefact (Some (UNAVAILABLE_SCHEME @ path))"
proof -
  have "\<not> is_real_artefact (Some (UNAVAILABLE_SCHEME @ path))"
    by (rule sentinel_not_real)
  then show ?thesis
    by (simp add: Let_def classify_verification_def verification_reasons_def count_artefacts_filter)
qed

text \<open>
  The trace explains the decision completely: the state and the confidence are a function of the
  reason codes alone.
\<close>
theorem trace_determines_verdict:
  "verdict_of_reasons (verification_reasons m) = classify_verification m"
  unfolding verdict_of_reasons_def classify_verification_def Let_def by (auto simp: reason_mem)

text \<open>
  The only admissible confidence is an evidence one: whatever is admitted came from the evidence
  source and is one of the three bands, a number is never converted, an admitted band is admitted
  again unchanged, and an AI rating is refused whatever its value.
\<close>
theorem confidence_admission:
  "(\<forall>b. normalize_confidence v src = Inr b \<longrightarrow>
      src = CONFIDENCE_SOURCE_EVIDENCE \<and> b \<in> set VALID_CONFIDENCE \<and> (\<forall>x. v \<noteq> ConfNumber x)
      \<and> normalize_confidence (ConfText b) src = Inr b)
    \<and> \<not> is_ok (normalize_confidence v CONFIDENCE_SOURCE_AI)"
proof (intro conjI allI impI)
  fix b
  assume ok: "normalize_confidence v src = Inr b"
  then show src: "src = CONFIDENCE_SOURCE_EVIDENCE" and "v \<noteq> ConfNumber x" for x
    by (auto simp: normalize_confidence_def split: if_splits)
  from ok show b: "b \<in> set VALID_CONFIDENCE"
    by (auto simp: normalize_confidence_def Let_def VALID_CONFIDENCE_def split: if_splits confidence_value.splits)
  then show "normalize_confidence (ConfText b) src = Inr b"
    by (simp add: normalize_confidence_def src Let_def norm_band)
next
  show "\<not> is_ok (normalize_confidence v CONFIDENCE_SOURCE_AI)"
    by (simp add: normalize_confidence_def CONFIDENCE_SOURCE_AI_def CONFIDENCE_SOURCE_EVIDENCE_def)
qed

theorem confidence_admission_witness:
  "normalize_confidence (ConfText ''high'') ''evidence'' = Inr ''high''"
proof -
  have "normalize_confidence (ConfText '' High '') ''evidence'' = Inr ''high''" by code_simp
  then show ?thesis using confidence_admission [of "ConfText '' High ''" "''evidence''"] by blast
qed

end
