(* ===== verification/Scanner_Workers.thy ===== *)
theory Scanner_Workers
  imports Row_Interfaces
begin

text \<open>
  \<open>modules/scanner_workers/service.py\<close> over the rows of its \<open>models.py\<close>, and
  \<open>core/platform_uptime.py\<close>: how a worker is identified, what its row lets it do, and the
  transitions of its status. The digest of a bootstrap token (SHA-256 in the code) is a parameter:
  the service only compares digests. Metrics, log lines and message texts are not modelled; a
  refusal is its reason code.
\<close>

section \<open>Rows and vocabulary\<close>

record worker =
  wk_worker_id :: string
  wk_pool_id :: string
  wk_site_id :: "uuid option"
  wk_workspace_id :: "uuid option"
  wk_status :: string
  wk_token_hash :: "string option"
  wk_cert_fingerprint :: "string option"
  wk_cert_not_after :: "time option"
  wk_last_seen_at :: "time option"
  wk_health_state :: string
  wk_last_health_detail :: "fstring option"
  wk_last_handshake_age_s :: "int option"
  wk_revoked_at :: "time option"
  wk_revoked_reason :: "string option"
  wk_created_at :: time
  wk_updated_at :: "time option"

definition WORKER_STATUSES :: "string list" where
  "WORKER_STATUSES = [''pending'', ''active'', ''draining'', ''suspended'', ''revoked'']"

definition LEASE_ELIGIBLE_STATUSES :: "string list" where "LEASE_ELIGIBLE_STATUSES = [''active'']"
definition WORKING_STATUSES :: "string list" where "WORKING_STATUSES = [''active'', ''draining'']"

text \<open>The reason codes of a refusal, as constructors.\<close>

datatype worker_refusal =
    WORKER_UNKNOWN | WORKER_BAD_CREDENTIAL | WORKER_REVOKED | WORKER_SUSPENDED | WORKER_NOT_ACTIVE
  | WORKER_DRAINING | WORKER_WRONG_POOL | WORKER_WRONG_SITE | WORKER_WRONG_WORKSPACE
  | PUBLIC_WORKER_CANNOT_TAKE_PRIVATE_JOB | PRIVATE_WORKER_CANNOT_TAKE_PUBLIC_JOB
  | WORKER_EGRESS_MODE_MISMATCH | WORKER_NOT_DRAINABLE | WORKER_NOT_REACTIVATABLE

section \<open>Identity\<close>

definition select_worker :: "string \<Rightarrow> worker list \<Rightarrow> worker option" where
  "select_worker wid ws = find_row (\<lambda>w. wk_worker_id w = wid) ws"

definition authenticate_worker ::
  "(string \<Rightarrow> string) \<Rightarrow> time \<Rightarrow> string \<Rightarrow> string option \<Rightarrow> string option \<Rightarrow> worker list
   \<Rightarrow> worker_refusal + worker" where
  "authenticate_worker digest now wid token fingerprint ws =
     (case select_worker wid ws of
        None \<Rightarrow> Inl WORKER_UNKNOWN
      | Some w \<Rightarrow>
          (let cert_ok =
                 (if truthy fingerprint \<and> truthy (wk_cert_fingerprint w)
                  then (if wk_cert_fingerprint w = fingerprint
                        then (case wk_cert_not_after w of
                                None \<Rightarrow> True
                              | Some t \<Rightarrow> if t < now then False else True)
                        else False)
                  else False);
               ok = (if \<not> cert_ok \<and> truthy token \<and> truthy (wk_token_hash w)
                     then wk_token_hash w = Some (digest (or_empty token)) else cert_ok)
           in if \<not> ok then Inl WORKER_BAD_CREDENTIAL else Inr w))"

section \<open>Authority\<close>

definition assert_worker_active :: "worker \<Rightarrow> worker_refusal + unit" where
  "assert_worker_active w =
     (if wk_revoked_at w \<noteq> None \<or> wk_status w = ''revoked'' then Inl WORKER_REVOKED
      else if wk_status w = ''suspended'' then Inl WORKER_SUSPENDED
      else if \<not> List.member WORKING_STATUSES (wk_status w) then Inl WORKER_NOT_ACTIVE
      else Inr ())"

definition assert_worker_may_lease :: "worker \<Rightarrow> worker_refusal + unit" where
  "assert_worker_may_lease w =
     res_bind (assert_worker_active w) (\<lambda>_.
       if \<not> List.member LEASE_ELIGIBLE_STATUSES (wk_status w)
       then Inl (if wk_status w = ''draining'' then WORKER_DRAINING else WORKER_NOT_ACTIVE)
       else Inr ())"

definition assert_worker_may_serve_site :: "worker \<Rightarrow> uuid option \<Rightarrow> worker_refusal + unit" where
  "assert_worker_may_serve_site w site =
     (case site of
        None \<Rightarrow> if wk_site_id w \<noteq> None then Inl PRIVATE_WORKER_CANNOT_TAKE_PUBLIC_JOB else Inr ()
      | Some s \<Rightarrow>
          if wk_site_id w = None then Inl PUBLIC_WORKER_CANNOT_TAKE_PRIVATE_JOB
          else if wk_site_id w \<noteq> Some s then Inl WORKER_WRONG_SITE
          else Inr ())"

definition assert_worker_in_pool :: "worker \<Rightarrow> string option \<Rightarrow> worker_refusal + unit" where
  "assert_worker_in_pool w pool =
     (if truthy pool \<and> Some (wk_pool_id w) \<noteq> pool then Inl WORKER_WRONG_POOL else Inr ())"

text \<open>\<open>vpn_pools\<close> is the setting \<open>vpn_egress_pool_list\<close>.\<close>

definition worker_egress_mode :: "string list \<Rightarrow> worker \<Rightarrow> string" where
  "worker_egress_mode vpn_pools w =
     (let pools = map py_strip (filter (\<lambda>p. p \<noteq> [] \<and> py_strip p \<noteq> []) vpn_pools)
      in if List.member pools (py_strip (wk_pool_id w)) then ''vpn'' else ''direct'')"

definition assert_worker_egress_mode ::
  "string list \<Rightarrow> worker \<Rightarrow> string option \<Rightarrow> worker_refusal + unit" where
  "assert_worker_egress_mode vpn_pools w required_mode =
     (let required = py_lower (py_strip (or_empty required_mode)) in
      if required = [] then Inr ()
      else if required \<noteq> worker_egress_mode vpn_pools w then Inl WORKER_EGRESS_MODE_MISMATCH
      else Inr ())"

definition assert_worker_may_take_scan ::
  "string list \<Rightarrow> worker \<Rightarrow> uuid \<Rightarrow> uuid option \<Rightarrow> string option \<Rightarrow> string option
   \<Rightarrow> worker_refusal + unit" where
  "assert_worker_may_take_scan vpn_pools w workspace site pool required_mode =
     res_bind (assert_worker_active w) (\<lambda>_.
     res_bind (assert_worker_may_serve_site w site) (\<lambda>_.
     res_bind (assert_worker_egress_mode vpn_pools w required_mode) (\<lambda>_.
       if wk_workspace_id w \<noteq> None \<and> wk_workspace_id w \<noteq> Some workspace
       then Inl WORKER_WRONG_WORKSPACE
       else assert_worker_in_pool w pool)))"

section \<open>Operator controls\<close>

text \<open>The rows and the audit records of the reaper: worker, age limit, workspace and site.\<close>

record fleet =
  fl_workers :: "worker list"
  fl_reaped :: "(string \<times> int \<times> uuid option \<times> uuid option) list"

definition update_workers :: "(worker \<Rightarrow> bool) \<Rightarrow> (worker \<Rightarrow> worker) \<Rightarrow> fleet \<Rightarrow> fleet" where
  "update_workers P f fl = fl\<lparr>fl_workers := update_where P f (fl_workers fl)\<rparr>"

definition revoke_worker :: "time \<Rightarrow> string \<Rightarrow> string \<Rightarrow> fleet \<Rightarrow> worker_refusal + fleet" where
  "revoke_worker now wid reason fl =
     (case select_worker wid (fl_workers fl) of
        None \<Rightarrow> Inl WORKER_UNKNOWN
      | Some w \<Rightarrow>
          Inr (update_workers (\<lambda>w. wk_worker_id w = wid)
            (\<lambda>w. w\<lparr>wk_status := ''revoked'', wk_revoked_at := Some now,
                   wk_revoked_reason := Some reason, wk_token_hash := None,
                   wk_cert_fingerprint := None, wk_updated_at := Some now\<rparr>) fl))"

definition record_heartbeat ::
  "time \<Rightarrow> string \<Rightarrow> string \<Rightarrow> fstring option \<Rightarrow> int option \<Rightarrow> fleet \<Rightarrow> fleet" where
  "record_heartbeat now wid health detail handshake fl =
     update_workers (\<lambda>w. wk_worker_id w = wid)
       (\<lambda>w. let w1 = w\<lparr>wk_last_seen_at := Some now, wk_health_state := health,
                       wk_last_health_detail := detail\<rparr>
            in (case handshake of None \<Rightarrow> w1 | Some a \<Rightarrow> w1\<lparr>wk_last_handshake_age_s := Some a\<rparr>)) fl"

definition reactivate_worker :: "time \<Rightarrow> string \<Rightarrow> string \<Rightarrow> fleet \<Rightarrow> worker_refusal + fleet" where
  "reactivate_worker now wid reason fl =
     (case select_worker wid (fl_workers fl) of
        None \<Rightarrow> Inl WORKER_UNKNOWN
      | Some _ \<Rightarrow>
          (let P = (\<lambda>w. wk_worker_id w = wid \<and> (wk_status w = ''suspended'' \<and> wk_revoked_at w = None)) in
           if count_where P (fl_workers fl) \<noteq> 1 then Inl WORKER_NOT_REACTIVATABLE
           else Inr (update_workers P
                 (\<lambda>w. w\<lparr>wk_status := ''active'',
                        wk_last_health_detail := Some [Lit (take 1000 (''reactivated by operator: '' @ reason))],
                        wk_updated_at := Some now\<rparr>) fl)))"

definition drain_worker :: "time \<Rightarrow> string \<Rightarrow> fleet \<Rightarrow> worker_refusal + fleet" where
  "drain_worker now wid fl =
     (case select_worker wid (fl_workers fl) of
        None \<Rightarrow> Inl WORKER_UNKNOWN
      | Some _ \<Rightarrow>
          (let P = (\<lambda>w. wk_worker_id w = wid \<and> (wk_status w = ''active'' \<and> wk_revoked_at w = None)) in
           if count_where P (fl_workers fl) \<noteq> 1 then Inl WORKER_NOT_DRAINABLE
           else Inr (update_workers P
                 (\<lambda>w. w\<lparr>wk_status := ''draining'', wk_updated_at := Some now\<rparr>) fl)))"

section \<open>The stale-worker reaper\<close>

text \<open>Uptime in seconds of the monotonic clock, from the process's start.\<close>

definition process_uptime_seconds :: "real \<Rightarrow> real \<Rightarrow> real" where
  "process_uptime_seconds start monotonic = max 0 (monotonic - start)"

definition within_startup_grace :: "real \<Rightarrow> real \<Rightarrow> bool" where
  "within_startup_grace uptime grace_seconds =
     (if grace_seconds \<le> 0 then False else uptime < grace_seconds)"

definition stale_worker :: "time \<Rightarrow> worker \<Rightarrow> bool" where
  "stale_worker cutoff w =
     (wk_status w = ''active'' \<and> wk_revoked_at w = None
      \<and> (case wk_last_seen_at w of None \<Rightarrow> wk_created_at w | Some t \<Rightarrow> t) < cutoff)"

definition stale_cutoff :: "time \<Rightarrow> int \<Rightarrow> time" where
  "stale_cutoff now stale = now - stale * 1000000"

definition reap_select :: "time \<Rightarrow> fleet \<Rightarrow> (string \<times> uuid option \<times> uuid option) list" where
  "reap_select cutoff fl =
     map (\<lambda>w. (wk_worker_id w, wk_workspace_id w, wk_site_id w)) (filter (stale_worker cutoff) (fl_workers fl))"

text \<open>The \<open>UPDATE\<close> and the audit rows, given the rows that the earlier \<open>SELECT\<close> saw.\<close>

definition reap_update ::
  "time \<Rightarrow> int \<Rightarrow> (string \<times> uuid option \<times> uuid option) list \<Rightarrow> fleet \<Rightarrow> nat \<times> fleet" where
  "reap_update now stale doomed fl =
     (let cutoff = stale_cutoff now stale;
          suspended = count_where (stale_worker cutoff) (fl_workers fl);
          fl1 = update_workers (stale_worker cutoff)
                  (\<lambda>w. w\<lparr>wk_status := ''suspended'',
                         wk_last_health_detail := Some [Lit ''stale: no worker heartbeat for '', Num stale,
                           Lit ''s; suspended by the worker reaper (reversible -- reactivate once the worker is known good)''],
                         wk_updated_at := Some now\<rparr>) fl
      in (suspended,
          if suspended \<noteq> 0 \<and> doomed \<noteq> []
          then fl1\<lparr>fl_reaped := fl_reaped fl1 @ map (\<lambda>(wid, ws, site). (wid, stale, ws, site)) doomed\<rparr>
          else fl1))"

definition reap_stale_workers :: "time \<Rightarrow> real \<Rightarrow> int \<Rightarrow> real \<Rightarrow> fleet \<Rightarrow> nat \<times> fleet" where
  "reap_stale_workers now uptime stale grace fl =
     (if within_startup_grace uptime grace then (0, fl)
      else reap_update now stale (reap_select (stale_cutoff now stale) fl) fl)"

section \<open>The fleet as a system\<close>

text \<open>
  The steps of the fleet: the service's writes, each by anyone at any time, and registration of a
  worker under a new name. A sweep's \<open>UPDATE\<close> may run on a later state than its \<open>SELECT\<close>, so it takes
  any list of candidates.
\<close>

inductive fleet_step :: "fleet \<Rightarrow> fleet \<Rightarrow> bool" where
  register: "wk_worker_id w \<notin> wk_worker_id ` set (fl_workers fl) \<Longrightarrow> wk_status w \<in> {''pending'', ''active''} \<Longrightarrow>
    wk_revoked_at w = None \<Longrightarrow> fleet_step fl (fl\<lparr>fl_workers := fl_workers fl @ [w]\<rparr>)"
| revoke: "revoke_worker now wid reason fl = Inr fl' \<Longrightarrow> fleet_step fl fl'"
| heartbeat: "fl' = record_heartbeat now wid health detail handshake fl \<Longrightarrow> fleet_step fl fl'"
| reactivate: "reactivate_worker now wid reason fl = Inr fl' \<Longrightarrow> fleet_step fl fl'"
| drain: "drain_worker now wid fl = Inr fl' \<Longrightarrow> fleet_step fl fl'"
| reap: "reap_update now stale doomed fl = (n, fl') \<Longrightarrow> fleet_step fl fl'"

definition worker_ok :: "worker \<Rightarrow> bool" where
  "worker_ok w =
     (wk_status w \<in> set WORKER_STATUSES \<and> (wk_status w = ''revoked'' \<longleftrightarrow> wk_revoked_at w \<noteq> None)
      \<and> (wk_status w = ''revoked'' \<longrightarrow> wk_token_hash w = None \<and> wk_cert_fingerprint w = None))"

definition fleet_ok :: "fleet \<Rightarrow> bool" where
  "fleet_ok fl = (unique_key wk_worker_id (fl_workers fl) \<and> (\<forall>w \<in> set (fl_workers fl). worker_ok w))"

text \<open>What one step may do to one row: the edges of the status graph, and the binding unchanged.\<close>

definition same_binding :: "worker \<Rightarrow> worker \<Rightarrow> bool" where
  "same_binding w w' =
     (wk_worker_id w' = wk_worker_id w \<and> wk_pool_id w' = wk_pool_id w \<and> wk_site_id w' = wk_site_id w
      \<and> wk_workspace_id w' = wk_workspace_id w \<and> wk_created_at w' = wk_created_at w)"

definition status_edge :: "string \<Rightarrow> string \<Rightarrow> bool" where
  "status_edge s t =
     (t = s \<or> t = ''revoked'' \<or> (s = ''suspended'' \<and> t = ''active'') \<or> (s = ''active'' \<and> t = ''draining'')
      \<or> (s = ''active'' \<and> t = ''suspended''))"

definition worker_next :: "worker \<Rightarrow> worker \<Rightarrow> bool" where
  "worker_next w w' =
     (same_binding w w' \<and> status_edge (wk_status w) (wk_status w') \<and> (worker_ok w \<longrightarrow> worker_ok w')
      \<and> (wk_revoked_at w \<noteq> None \<longrightarrow> wk_revoked_at w' \<noteq> None))"

lemma worker_next_refl: "worker_next w w"
  by (simp add: worker_next_def same_binding_def status_edge_def)

definition rows_next :: "fleet \<Rightarrow> fleet \<Rightarrow> bool" where
  "rows_next fl fl' =
     (\<exists>f new. fl_workers fl' = map f (fl_workers fl) @ new \<and> (\<forall>w \<in> set (fl_workers fl). worker_next w (f w))
        \<and> (\<forall>w \<in> set new. wk_worker_id w \<notin> wk_worker_id ` set (fl_workers fl))
        \<and> unique_key wk_worker_id new)"

lemma rows_next_update:
  assumes "\<And>w. P w \<Longrightarrow> worker_next w (f w)"
  shows "rows_next fl (update_workers P f fl)"
  unfolding rows_next_def update_workers_def update_where_def
  by (rule exI [of _ "\<lambda>w. if P w then f w else w"], rule exI [of _ "[]"])
    (simp add: assms worker_next_refl unique_key_def)

lemma rows_next_cong: "fl_workers a = fl_workers b \<Longrightarrow> rows_next fl a = rows_next fl b"
  by (simp add: rows_next_def)

lemma revoke_next:
  "worker_next w (w\<lparr>wk_status := ''revoked'', wk_revoked_at := Some now, wk_revoked_reason := Some reason,
     wk_token_hash := None, wk_cert_fingerprint := None, wk_updated_at := Some now\<rparr>)"
  by (simp add: worker_next_def same_binding_def status_edge_def worker_ok_def WORKER_STATUSES_def)

lemma status_next:
  assumes "wk_revoked_at w = None" and "status_edge (wk_status w) t" and "t \<noteq> ''revoked''" and "t \<in> set WORKER_STATUSES"
    and "same_binding w w'" and "wk_status w' = t" and "wk_revoked_at w' = wk_revoked_at w"
  shows "worker_next w w'"
  using assms by (simp add: worker_next_def worker_ok_def)

lemma revoke_workerE:
  assumes "revoke_worker now wid reason fl = Inr fl'"
  obtains w where "select_worker wid (fl_workers fl) = Some w"
    and "fl' = update_workers (\<lambda>w. wk_worker_id w = wid)
       (\<lambda>w. w\<lparr>wk_status := ''revoked'', wk_revoked_at := Some now, wk_revoked_reason := Some reason,
          wk_token_hash := None, wk_cert_fingerprint := None, wk_updated_at := Some now\<rparr>) fl"
  using assms by (auto simp: revoke_worker_def split: option.splits)

lemma step_rows:
  assumes "fleet_step fl fl'"
  shows "rows_next fl fl'"
  using assms
proof cases
  case (register w)
  then show ?thesis unfolding rows_next_def
    by (intro exI [of _ id] exI [of _ "[w]"]) (simp add: worker_next_refl unique_key_def)
next
  case (revoke now wid reason)
  from revoke show ?thesis by (cases rule: revoke_workerE) (simp add: rows_next_update revoke_next)
next
  case (heartbeat now wid health detail handshake)
  then show ?thesis unfolding record_heartbeat_def
    by (simp only:) (rule rows_next_update,
      simp add: worker_next_def same_binding_def status_edge_def worker_ok_def Let_def split: option.split)
next
  case (reactivate now wid reason)
  then show ?thesis
    by (auto simp: reactivate_worker_def Let_def WORKER_STATUSES_def split: option.splits if_splits
        intro!: rows_next_update status_next [where t = "''active''"] simp: status_edge_def same_binding_def)
next
  case (drain now wid)
  then show ?thesis
    by (auto simp: drain_worker_def Let_def WORKER_STATUSES_def split: option.splits if_splits
        intro!: rows_next_update status_next [where t = "''draining''"] simp: status_edge_def same_binding_def)
next
  case (reap now stale doomed n)
  have "rows_next fl (update_workers (stale_worker (stale_cutoff now stale))
      (\<lambda>w. w\<lparr>wk_status := ''suspended'', wk_last_health_detail := Some d, wk_updated_at := Some now\<rparr>) fl)" for d
    by (rule rows_next_update, rule status_next [where t = "''suspended''"])
      (simp_all add: stale_worker_def status_edge_def same_binding_def WORKER_STATUSES_def)
  then show ?thesis using reap by (auto simp: reap_update_def Let_def rows_next_def)
qed

lemma rows_next_ok:
  assumes nx: "rows_next fl fl'" and ok: "fleet_ok fl" and new: "\<And>w. w \<in> set (fl_workers fl') \<Longrightarrow>
      wk_worker_id w \<notin> wk_worker_id ` set (fl_workers fl) \<Longrightarrow> worker_ok w"
  shows "fleet_ok fl'"
proof -
  from nx obtain f ws where f: "fl_workers fl' = map f (fl_workers fl) @ ws"
    "\<And>w. w \<in> set (fl_workers fl) \<Longrightarrow> worker_next w (f w)"
    "\<forall>w \<in> set ws. wk_worker_id w \<notin> wk_worker_id ` set (fl_workers fl)" "unique_key wk_worker_id ws"
    by (auto simp: rows_next_def)
  have ids: "map (\<lambda>w. wk_worker_id (f w)) (fl_workers fl) = map wk_worker_id (fl_workers fl)"
    using f(2) by (simp add: worker_next_def same_binding_def)
  have "(\<lambda>w. wk_worker_id (f w)) ` set (fl_workers fl) = wk_worker_id ` set (fl_workers fl)"
    using arg_cong [OF ids, of set] by simp
  then have "set (map (\<lambda>w. wk_worker_id (f w)) (fl_workers fl)) \<inter> set (map wk_worker_id ws) = {}"
    using f(3) by (simp add: disjoint_iff) blast
  moreover have "distinct (map wk_worker_id (fl_workers fl))" "distinct (map wk_worker_id ws)"
    using ok f(4) by (simp_all add: fleet_ok_def unique_key_def)
  ultimately have u: "unique_key wk_worker_id (fl_workers fl')"
    unfolding unique_key_def f(1) by (simp only: map_append map_map comp_def ids distinct_append)
  have "worker_ok w" if "w \<in> set (fl_workers fl')" for w
    using that ok f new by (auto simp: fleet_ok_def worker_next_def)
  with u show ?thesis by (simp add: fleet_ok_def)
qed

lemma fleet_ok_step:
  assumes ok: "fleet_ok fl" and st: "fleet_step fl fl'"
  shows "fleet_ok fl'"
proof (rule rows_next_ok [OF step_rows [OF st] ok])
  fix w
  assume w: "w \<in> set (fl_workers fl')" "wk_worker_id w \<notin> wk_worker_id ` set (fl_workers fl)"
  from st show "worker_ok w"
  proof cases
    case (register v)
    with w have "w = v" by auto
    with register show ?thesis by (auto simp: worker_ok_def WORKER_STATUSES_def)
  qed (use w in \<open>auto simp: revoke_worker_def record_heartbeat_def reactivate_worker_def drain_worker_def
      reap_update_def update_workers_def update_where_def Let_def split: option.splits if_splits\<close>)
qed

lemma run_row_next:
  assumes "fleet_step\<^sup>*\<^sup>* fl fl'" and "w \<in> set (fl_workers fl)"
  shows "\<exists>w' \<in> set (fl_workers fl'). same_binding w w' \<and> status_edge\<^sup>*\<^sup>* (wk_status w) (wk_status w')
    \<and> (wk_revoked_at w \<noteq> None \<longrightarrow> wk_revoked_at w' \<noteq> None)"
  using assms
proof (induction rule: rtranclp_induct)
  case base
  then show ?case by (auto simp: same_binding_def)
next
  case (step a b)
  then obtain v where v: "v \<in> set (fl_workers a)" "same_binding w v" "status_edge\<^sup>*\<^sup>* (wk_status w) (wk_status v)"
    "wk_revoked_at w \<noteq> None \<longrightarrow> wk_revoked_at v \<noteq> None" by auto
  from step_rows [OF step.hyps(2)] v(1) obtain v' where
    v': "v' \<in> set (fl_workers b)" "worker_next v v'" by (fastforce simp: rows_next_def)
  then have "status_edge\<^sup>*\<^sup>* (wk_status w) (wk_status v')"
    using v(3) by (auto simp: worker_next_def intro: rtranclp.rtrancl_into_rtrancl)
  with v v' show ?case by (intro bexI [of _ v']) (auto simp: worker_next_def same_binding_def)
qed

lemma fleet_ok_run: "fleet_step\<^sup>*\<^sup>* fl fl' \<Longrightarrow> fleet_ok fl \<Longrightarrow> fleet_ok fl'"
  by (induction rule: rtranclp_induct) (auto intro: fleet_ok_step)

lemma select_worker_iff:
  "fleet_ok fl \<Longrightarrow> select_worker wid (fl_workers fl) = Some w \<longleftrightarrow> w \<in> set (fl_workers fl) \<and> wk_worker_id w = wid"
  by (simp add: select_worker_def fleet_ok_def find_row_key_iff)

end
