(* ===== verification/Worker_Properties.thy ===== *)
theory Worker_Properties
  imports Scanner_Workers
begin

text \<open>
  What the fleet's rows promise: the exact authority of a row, revocation and draining over any run
  of the fleet, the reaper's one direction, and the single winner of a contended control.
\<close>

section \<open>What a row allows\<close>

lemma assert_worker_active_iff:
  "is_ok (assert_worker_active w) \<longleftrightarrow> wk_revoked_at w = None \<and> wk_status w \<in> {''active'', ''draining''}"
  by (auto simp: assert_worker_active_def WORKING_STATUSES_def)

lemma assert_worker_may_lease_iff:
  "is_ok (assert_worker_may_lease w) \<longleftrightarrow> wk_revoked_at w = None \<and> wk_status w = ''active''"
  by (auto simp: assert_worker_may_lease_def assert_worker_active_def WORKING_STATUSES_def
      LEASE_ELIGIBLE_STATUSES_def)

lemma serve_site_iff: "is_ok (assert_worker_may_serve_site w site) \<longleftrightarrow> wk_site_id w = site"
  by (auto simp: assert_worker_may_serve_site_def split: option.split)

lemma egress_mode_iff:
  "is_ok (assert_worker_egress_mode vpn w mode) \<longleftrightarrow>
   py_lower (py_strip (or_empty mode)) \<in> {[], worker_egress_mode vpn w}"
  by (auto simp: assert_worker_egress_mode_def Let_def)

lemma in_pool_iff: "is_ok (assert_worker_in_pool w pool) \<longleftrightarrow> (truthy pool \<longrightarrow> pool = Some (wk_pool_id w))"
  by (auto simp: assert_worker_in_pool_def)

lemma is_ok_res_bind: "is_ok (res_bind r f) \<longleftrightarrow> (\<exists>x. r = Inr x \<and> is_ok (f x))"
  by (cases r) auto

lemma ok_unit: "r = Inr () \<longleftrightarrow> is_ok r"
  by (cases r) auto

text \<open>
  A worker may take a scan exactly when it is not revoked, works (\<open>active\<close> or \<open>draining\<close>), is
  bound to the scan's own site (no site for a public scan), egresses in the mode the scan requires,
  is bound to no other workspace, and is in the pool the scan names, if it names one.
\<close>
theorem take_scan_authority:
  "is_ok (assert_worker_may_take_scan vpn w ws site pool mode) =
     (wk_revoked_at w = None \<and> wk_status w \<in> {''active'', ''draining''}
      \<and> wk_site_id w = site
      \<and> py_lower (py_strip (or_empty mode)) \<in> {[], worker_egress_mode vpn w}
      \<and> wk_workspace_id w \<in> {None, Some ws}
      \<and> (if truthy pool then pool = Some (wk_pool_id w) else True))"
  by (auto simp: assert_worker_may_take_scan_def is_ok_res_bind ok_unit assert_worker_active_iff
      serve_site_iff egress_mode_iff in_pool_iff split: if_splits)

text \<open>
  A claimed identity is accepted exactly when its row exists and either the presented
  certificate fingerprint is the stored one and not past its end, or the digest of the presented
  token is the stored digest; a row without stored credential is never accepted, and the row
  returned is the claimed one's.
\<close>
theorem authentication_needs_own_credential:
  "authenticate_worker digest now wid token fp ws = Inr w \<longleftrightarrow>
     select_worker wid ws = Some w
     \<and> (truthy fp \<and> wk_cert_fingerprint w = fp
          \<and> (case wk_cert_not_after w of None \<Rightarrow> True | Some t \<Rightarrow> now \<le> t)
        \<or> truthy token \<and> truthy (wk_token_hash w) \<and> wk_token_hash w = Some (digest (or_empty token)))"
  by (auto simp: authenticate_worker_def Let_def split: option.splits if_splits)

section \<open>The examples\<close>

definition ex_worker :: worker where
  "ex_worker = \<lparr>wk_worker_id = ''w-7'', wk_pool_id = ''public'', wk_site_id = None, wk_workspace_id = None,
     wk_status = ''active'', wk_token_hash = Some ''h'', wk_cert_fingerprint = None, wk_cert_not_after = None,
     wk_last_seen_at = Some 5, wk_health_state = ''healthy'', wk_last_health_detail = None,
     wk_last_handshake_age_s = None, wk_revoked_at = None, wk_revoked_reason = None, wk_created_at = 2,
     wk_updated_at = None\<rparr>"

definition ex_silent :: worker where
  "ex_silent = ex_worker\<lparr>wk_worker_id := ''w-8'', wk_last_seen_at := None\<rparr>"

definition ex_fleet :: fleet where
  "ex_fleet = \<lparr>fl_workers = [ex_worker, ex_silent], fl_reaped = []\<rparr>"

definition the_fleet :: "worker_refusal + fleet \<Rightarrow> fleet" where
  "the_fleet r = (case r of Inr fl \<Rightarrow> fl | Inl _ \<Rightarrow> ex_fleet)"

lemma the_fleet_eq: "is_ok r \<Longrightarrow> r = Inr (the_fleet r)"
  by (auto simp: the_fleet_def is_ok_iff)

definition ex_revoked :: fleet where "ex_revoked = the_fleet (revoke_worker 100 ''w-7'' ''lost'' ex_fleet)"
definition ex_drained :: fleet where "ex_drained = the_fleet (drain_worker 100 ''w-7'' ex_fleet)"

lemma ex_revoked_ok: "revoke_worker 100 ''w-7'' ''lost'' ex_fleet = Inr ex_revoked"
  unfolding ex_revoked_def by (rule the_fleet_eq) code_simp

lemma ex_drained_ok: "drain_worker 100 ''w-7'' ex_fleet = Inr ex_drained"
  unfolding ex_drained_def by (rule the_fleet_eq) code_simp

definition ex_suspended :: fleet where "ex_suspended = snd (reap_stale_workers 60000004 600 60 0 ex_fleet)"

lemma ex_fleet_ok: "fleet_ok ex_fleet"
  by code_simp

section \<open>Revocation and draining\<close>

lemma run_selected:
  assumes ok: "fleet_ok fl" and run: "fleet_step\<^sup>*\<^sup>* fl fl'" and sel: "select_worker wid (fl_workers fl) = Some w"
  obtains w' where "select_worker wid (fl_workers fl') = Some w'" "same_binding w w'"
    "status_edge\<^sup>*\<^sup>* (wk_status w) (wk_status w')" "wk_revoked_at w \<noteq> None \<longrightarrow> wk_revoked_at w' \<noteq> None" "worker_ok w'"
proof -
  note ok' = fleet_ok_run [OF run ok]
  from sel ok have w: "w \<in> set (fl_workers fl)" "wk_worker_id w = wid" by (simp_all add: select_worker_iff)
  from run_row_next [OF run w(1)] obtain w' where w': "w' \<in> set (fl_workers fl')" "same_binding w w'"
    "status_edge\<^sup>*\<^sup>* (wk_status w) (wk_status w')" "wk_revoked_at w \<noteq> None \<longrightarrow> wk_revoked_at w' \<noteq> None" by blast
  with w have "select_worker wid (fl_workers fl') = Some w'"
    using ok' by (simp add: select_worker_iff same_binding_def)
  with w' ok' that show thesis by (simp add: fleet_ok_def)
qed

lemma select_updated:
  assumes "v \<in> set (fl_workers fl)" and "P v" and "wk_worker_id (f v) = wid" and "fleet_ok (update_workers P f fl)"
  shows "select_worker wid (fl_workers (update_workers P f fl)) = Some (f v)"
  unfolding select_worker_iff [OF assms(4)] using assms(1-3)
  by (force simp: update_workers_def set_update_where)

lemma draining_closed:
  assumes "status_edge\<^sup>*\<^sup>* s t" and "s \<in> {''draining'', ''revoked''}"
  shows "t \<in> {''draining'', ''revoked''}"
  using assms by (induction rule: rtranclp_induct) (auto simp: status_edge_def)

text \<open>
  C35: Revocation is final. Whatever the fleet does afterwards, a revoked worker's row stays, still
  revoked and under its old binding, authenticates no one with any credential, and is refused both
  new leases and every scan.
\<close>
theorem revocation_is_final:
  assumes ok: "fleet_ok fl" and rv: "revoke_worker now wid reason fl = Inr fl1" and run: "fleet_step\<^sup>*\<^sup>* fl1 fl2"
  shows "\<exists>w'. select_worker wid (fl_workers fl2) = Some w' \<and> wk_status w' = ''revoked''
    \<and> authenticate_worker digest t wid token fp (fl_workers fl2) = Inl WORKER_BAD_CREDENTIAL
    \<and> assert_worker_may_lease w' = Inl WORKER_REVOKED
    \<and> assert_worker_may_take_scan vpn w' ws site pool mode = Inl WORKER_REVOKED"
proof -
  from rv obtain w where w: "select_worker wid (fl_workers fl) = Some w"
    "fl1 = update_workers (\<lambda>w. wk_worker_id w = wid)
       (\<lambda>w. w\<lparr>wk_status := ''revoked'', wk_revoked_at := Some now, wk_revoked_reason := Some reason,
          wk_token_hash := None, wk_cert_fingerprint := None, wk_updated_at := Some now\<rparr>) fl"
    by (rule revoke_workerE)
  have "fleet_step fl fl1" using rv by (rule fleet_step.revoke)
  with ok have ok1: "fleet_ok fl1" by (rule fleet_ok_step)
  have wr: "w \<in> set (fl_workers fl)" "wk_worker_id w = wid" using w(1) ok by (simp_all add: select_worker_iff)
  obtain w1 where w1: "select_worker wid (fl_workers fl1) = Some w1" "wk_revoked_at w1 \<noteq> None"
    using select_updated [OF wr(1) wr(2) _ ok1 [unfolded w(2)]] wr(2) unfolding w(2) by simp
  obtain w2 where w2: "select_worker wid (fl_workers fl2) = Some w2" "wk_revoked_at w2 \<noteq> None" "worker_ok w2"
    using run_selected [OF ok1 run w1(1)] w1(2) by metis
  then have "wk_status w2 = ''revoked''" "wk_token_hash w2 = None" "wk_cert_fingerprint w2 = None"
    by (simp_all add: worker_ok_def)
  with w2 show ?thesis
    by (simp add: authenticate_worker_def assert_worker_may_lease_def assert_worker_may_take_scan_def
        assert_worker_active_def)
qed

theorem revocation_is_final_witness:
  "\<exists>w'. select_worker ''w-7'' (fl_workers ex_revoked) = Some w' \<and> wk_status w' = ''revoked''
    \<and> authenticate_worker id 200 ''w-7'' (Some ''h'') None (fl_workers ex_revoked) = Inl WORKER_BAD_CREDENTIAL
    \<and> assert_worker_may_lease w' = Inl WORKER_REVOKED
    \<and> assert_worker_may_take_scan [] w' 3 None None None = Inl WORKER_REVOKED"
  by (rule revocation_is_final [OF ex_fleet_ok ex_revoked_ok rtranclp.rtrancl_refl])

text \<open>
  A drained worker never leases again under any later run of the fleet: no step leads back to
  \<open>active\<close>. It keeps the authority over the scans it holds until it is revoked.
\<close>
theorem drained_never_leases_again:
  assumes ok: "fleet_ok fl" and dr: "drain_worker now wid fl = Inr fl1" and run: "fleet_step\<^sup>*\<^sup>* fl1 fl2"
  shows "\<exists>w'. select_worker wid (fl_workers fl2) = Some w' \<and> \<not> is_ok (assert_worker_may_lease w')
    \<and> is_ok (assert_worker_active w') = (wk_status w' \<noteq> ''revoked'')"
proof -
  from dr obtain w where w: "select_worker wid (fl_workers fl) = Some w"
    and c: "count_where (\<lambda>w. wk_worker_id w = wid \<and> (wk_status w = ''active'' \<and> wk_revoked_at w = None)) (fl_workers fl) = 1"
    and fl1: "fl1 = update_workers (\<lambda>w. wk_worker_id w = wid \<and> (wk_status w = ''active'' \<and> wk_revoked_at w = None))
       (\<lambda>w. w\<lparr>wk_status := ''draining'', wk_updated_at := Some now\<rparr>) fl"
    by (auto simp: drain_worker_def Let_def split: option.splits if_splits)
  have "fleet_step fl fl1" using dr by (rule fleet_step.drain)
  with ok have ok1: "fleet_ok fl1" by (rule fleet_ok_step)
  obtain v where v: "v \<in> set (fl_workers fl)"
    "wk_worker_id v = wid \<and> (wk_status v = ''active'' \<and> wk_revoked_at v = None)"
    using c count_where_0 [of "\<lambda>w. wk_worker_id w = wid \<and> (wk_status w = ''active'' \<and> wk_revoked_at w = None)" "fl_workers fl"]
    by (metis zero_neq_one)
  obtain w1 where w1: "select_worker wid (fl_workers fl1) = Some w1" "wk_status w1 = ''draining''"
    using select_updated [OF v(1) v(2) _ ok1 [unfolded fl1]] v(2) unfolding fl1 by simp
  obtain w2 where w2: "select_worker wid (fl_workers fl2) = Some w2" "worker_ok w2"
    "status_edge\<^sup>*\<^sup>* (wk_status w1) (wk_status w2)"
    using run_selected [OF ok1 run w1(1)] by metis
  then have "wk_status w2 \<in> {''draining'', ''revoked''}" using draining_closed w1(2) by blast
  with w2 show ?thesis
    by (auto simp: assert_worker_may_lease_iff assert_worker_active_iff worker_ok_def)
qed

theorem drained_never_leases_again_witness:
  "\<exists>w'. select_worker ''w-7'' (fl_workers ex_drained) = Some w' \<and> \<not> is_ok (assert_worker_may_lease w')
    \<and> is_ok (assert_worker_active w') = (wk_status w' \<noteq> ''revoked'')"
  by (rule drained_never_leases_again [OF ex_fleet_ok ex_drained_ok rtranclp.rtrancl_refl])

section \<open>The reaper\<close>

lemma reaped_not_stale:
  "count_where (stale_worker c) (update_where (stale_worker c)
     (\<lambda>w. w\<lparr>wk_status := ''suspended'', wk_last_health_detail := d, wk_updated_at := u\<rparr>) ws) = 0"
  unfolding count_where_0 set_update_where by (auto simp: stale_worker_def)

lemma reap_second:
  assumes "count_where (stale_worker (stale_cutoff now stale)) (fl_workers fl) = 0"
  shows "reap_update now stale doomed fl = (0, fl)"
proof -
  have "update_workers (stale_worker (stale_cutoff now stale)) f fl = fl" for f
    using assms [unfolded count_where_0] by (simp add: update_workers_def update_where_none)
  then show ?thesis using assms by (simp add: reap_update_def)
qed

text \<open>
  One sweep of the reaper, after the process's grace period, suspends exactly the active,
  unrevoked workers that are silent for longer than the limit, changes nothing but their status,
  health detail and update time, counts them, and writes one audit record for each; within the grace
  period it changes nothing. A second sweep at the same time finds nothing.
\<close>
theorem reaper_only_suspends:
  "case reap_stale_workers now uptime stale grace fl of (n, fl') \<Rightarrow>
     list_all2 (\<lambda>w w'.
         if \<not> within_startup_grace uptime grace \<and> stale_worker (stale_cutoff now stale) w
         then w' = w\<lparr>wk_status := ''suspended'', wk_last_health_detail := wk_last_health_detail w',
                     wk_updated_at := Some now\<rparr>
         else w' = w) (fl_workers fl) (fl_workers fl')
     \<and> n = (if within_startup_grace uptime grace then 0
            else length (filter (stale_worker (stale_cutoff now stale)) (fl_workers fl)))
     \<and> fl_reaped fl' = fl_reaped fl @ (if within_startup_grace uptime grace then []
          else map (\<lambda>w. (wk_worker_id w, stale, wk_workspace_id w, wk_site_id w))
                 (filter (stale_worker (stale_cutoff now stale)) (fl_workers fl)))
     \<and> reap_stale_workers now uptime stale grace fl' = (0, fl')"
proof (cases "within_startup_grace uptime grace")
  case True
  then show ?thesis by (simp add: reap_stale_workers_def list_all2_same)
next
  case False
  let ?c = "stale_cutoff now stale"
  obtain n fl' where r: "reap_update now stale (reap_select ?c fl) fl = (n, fl')" by fastforce
  note rd = r [unfolded reap_update_def Let_def update_workers_def count_where_def]
  from rd obtain d where w: "fl_workers fl' = update_where (stale_worker ?c)
      (\<lambda>w. w\<lparr>wk_status := ''suspended'', wk_last_health_detail := d, wk_updated_at := Some now\<rparr>) (fl_workers fl)"
    and n: "n = length (filter (stale_worker ?c) (fl_workers fl))"
    by (cases "filter (stale_worker ?c) (fl_workers fl) = [] \<or> reap_select ?c fl = []") auto
  have a: "fl_reaped fl' = fl_reaped fl @ map (\<lambda>w. (wk_worker_id w, stale, wk_workspace_id w, wk_site_id w))
      (filter (stale_worker ?c) (fl_workers fl))"
    using r by (auto simp: reap_update_def Let_def update_workers_def count_where_def reap_select_def comp_def)
  have "count_where (stale_worker ?c) (fl_workers fl') = 0" unfolding w by (rule reaped_not_stale)
  then have "reap_update now stale (reap_select ?c fl') fl' = (0, fl')" by (rule reap_second)
  moreover have "list_all2 (\<lambda>w w'. if stale_worker ?c w
         then w' = w\<lparr>wk_status := ''suspended'', wk_last_health_detail := wk_last_health_detail w',
                     wk_updated_at := Some now\<rparr>
         else w' = w) (fl_workers fl) (fl_workers fl')"
    unfolding w update_where_def by (simp add: list_all2_map2 list_all2_same)
  ultimately show ?thesis using r n a False by (simp add: reap_stale_workers_def)
qed

text \<open>
  The reaper's audit is not one record per suspended worker when a row leaves the set between
  its \<open>SELECT\<close> and its \<open>UPDATE\<close>: with two silent workers of which one is drained in between, one is
  suspended and two are recorded as suspended. The comment at the \<open>SELECT\<close> says that such a row's
  record is dropped by the guard on the count, but the guard only sees whether the count is zero.
\<close>
theorem reap_audits_a_drained_worker:
  "\<exists>fl1 fl2. drain_worker 900 ''w-7'' ex_fleet = Inr fl1
     \<and> reap_update 1000000900 60 (reap_select (stale_cutoff 1000000900 60) ex_fleet) fl1 = (1, fl2)
     \<and> map fst (fl_reaped fl2) = [''w-7'', ''w-8'']
     \<and> map wk_status (fl_workers fl2) = [''draining'', ''suspended'']"
proof (intro exI conjI)
  let ?fl1 = "the_fleet (drain_worker 900 ''w-7'' ex_fleet)"
  let ?r = "reap_update 1000000900 60 (reap_select (stale_cutoff 1000000900 60) ex_fleet) ?fl1"
  show "drain_worker 900 ''w-7'' ex_fleet = Inr ?fl1" by (rule the_fleet_eq) code_simp
  have "fst ?r = 1" by code_simp
  then show "?r = (1, snd ?r)" by (metis prod.collapse)
  show "map fst (fl_reaped (snd ?r)) = [''w-7'', ''w-8'']" by code_simp
  show "map wk_status (fl_workers (snd ?r)) = [''draining'', ''suspended'']" by code_simp
qed

section \<open>Contended controls\<close>

definition drain_claim :: "string \<Rightarrow> time \<Rightarrow> fleet \<Rightarrow> bool \<times> fleet" where
  "drain_claim wid now fl = (case drain_worker now wid fl of Inl _ \<Rightarrow> (False, fl) | Inr fl' \<Rightarrow> (True, fl'))"

definition reactivate_claim :: "string \<Rightarrow> time \<times> string \<Rightarrow> fleet \<Rightarrow> bool \<times> fleet" where
  "reactivate_claim wid t fl =
     (case reactivate_worker (fst t) wid (snd t) fl of Inl _ \<Rightarrow> (False, fl) | Inr fl' \<Rightarrow> (True, fl'))"

definition worker_in :: "string \<Rightarrow> string \<Rightarrow> fleet \<Rightarrow> bool" where
  "worker_in s wid fl =
     list_ex (\<lambda>w. wk_worker_id w = wid \<and> (wk_status w = s \<and> wk_revoked_at w = None)) (fl_workers fl)"

lemma worker_in_count:
  assumes "fleet_ok fl"
  shows "count_where (\<lambda>w. wk_worker_id w = wid \<and> (wk_status w = s \<and> wk_revoked_at w = None)) (fl_workers fl)
    = (if worker_in s wid fl then 1 else 0)"
proof (cases "worker_in s wid fl")
  case True
  with assms count_where_key_1 [of wk_worker_id "fl_workers fl"] show ?thesis
    by (simp add: worker_in_def list_ex_iff fleet_ok_def)
next
  case False
  then have "count_where (\<lambda>w. wk_worker_id w = wid \<and> (wk_status w = s \<and> wk_revoked_at w = None)) (fl_workers fl) = 0"
    unfolding count_where_0 by (auto simp: worker_in_def list_ex_iff)
  with False show ?thesis by simp
qed

lemma worker_in_selected:
  "worker_in s wid fl \<Longrightarrow> select_worker wid (fl_workers fl) \<noteq> None"
  by (auto simp: worker_in_def list_ex_iff select_worker_def find_row_None)

lemma worker_in_updated:
  assumes "\<And>w. wk_worker_id w = wid \<Longrightarrow> wk_status (f w) \<noteq> s"
  shows "\<not> worker_in s wid (update_workers (\<lambda>w. wk_worker_id w = wid \<and> (wk_status w = s \<and> wk_revoked_at w = None)) f fl)"
  using assms by (auto simp: worker_in_def list_ex_iff update_workers_def set_update_where)

lemma drain_worker_eq:
  assumes "fleet_ok fl"
  shows "drain_claim wid now fl = (worker_in ''active'' wid fl,
     if worker_in ''active'' wid fl
     then update_workers (\<lambda>w. wk_worker_id w = wid \<and> (wk_status w = ''active'' \<and> wk_revoked_at w = None))
            (\<lambda>w. w\<lparr>wk_status := ''draining'', wk_updated_at := Some now\<rparr>) fl
     else fl)"
  using worker_in_count [OF assms, of wid "''active''"] worker_in_selected [of "''active''" wid fl]
  by (auto simp: drain_claim_def drain_worker_def Let_def split: option.split)

lemma reactivate_worker_eq:
  assumes "fleet_ok fl"
  shows "reactivate_claim wid t fl = (worker_in ''suspended'' wid fl,
     if worker_in ''suspended'' wid fl
     then update_workers (\<lambda>w. wk_worker_id w = wid \<and> (wk_status w = ''suspended'' \<and> wk_revoked_at w = None))
            (\<lambda>w. w\<lparr>wk_status := ''active'',
               wk_last_health_detail := Some [Lit (take 1000 (''reactivated by operator: '' @ snd t))],
               wk_updated_at := Some (fst t)\<rparr>) fl
     else fl)"
  using worker_in_count [OF assms, of wid "''suspended''"] worker_in_selected [of "''suspended''" wid fl]
  by (auto simp: reactivate_claim_def reactivate_worker_def Let_def split: option.split)

lemma drain_claim_ok: "fleet_ok fl \<Longrightarrow> fleet_ok (snd (drain_claim wid now fl))"
  by (auto simp: drain_claim_def intro: fleet_ok_step fleet_step.drain split: sum.split)

lemma reactivate_claim_ok: "fleet_ok fl \<Longrightarrow> fleet_ok (snd (reactivate_claim wid t fl))"
  by (auto simp: reactivate_claim_def intro: fleet_ok_step fleet_step.reactivate split: sum.split)

interpretation drain_fence: claim_fence "drain_claim wid" "worker_in ''active'' wid" fleet_ok for wid
  by (unfold_locales, simp add: drain_worker_eq, simp add: drain_worker_eq worker_in_updated, rule drain_claim_ok)

interpretation reactivate_fence: claim_fence "reactivate_claim wid" "worker_in ''suspended'' wid" fleet_ok for wid
  by (unfold_locales, simp add: reactivate_worker_eq, simp add: reactivate_worker_eq worker_in_updated,
    rule reactivate_claim_ok)

text \<open>The answers that operators get who drain, or reactivate, one worker one after the other.\<close>

fun drain_all :: "string \<Rightarrow> time list \<Rightarrow> fleet \<Rightarrow> bool list" where
  "drain_all wid [] fl = []"
| "drain_all wid (t # ts) fl = (let (won, fl') = drain_claim wid t fl in won # drain_all wid ts fl')"

fun reactivate_all :: "string \<Rightarrow> (time \<times> string) list \<Rightarrow> fleet \<Rightarrow> bool list" where
  "reactivate_all wid [] fl = []"
| "reactivate_all wid (t # ts) fl = (let (won, fl') = reactivate_claim wid t fl in won # reactivate_all wid ts fl')"

lemma drain_all_race: "drain_all wid ts fl = drain_fence.race wid ts fl"
  by (induction ts arbitrary: fl) (auto simp: Let_def case_prod_beta)

lemma reactivate_all_race: "reactivate_all wid ts fl = reactivate_fence.race wid ts fl"
  by (induction ts arbitrary: fl) (auto simp: Let_def case_prod_beta)

text \<open>
  Of any operators that drain (or reactivate) one worker, the first succeeds exactly if the
  worker is active (or suspended) and not revoked, and no other does: the row count of the
  conditional update decides.
\<close>
theorem control_has_one_winner:
  assumes "fleet_ok fl"
  shows "drain_all wid (t # ts) fl = worker_in ''active'' wid fl # replicate (length ts) False
    \<and> reactivate_all wid (r # rs) fl = worker_in ''suspended'' wid fl # replicate (length rs) False"
  unfolding drain_all_race reactivate_all_race
  using drain_fence.race_free [OF assms] reactivate_fence.race_free [OF assms] by simp

theorem control_has_one_winner_witness:
  "drain_all ''w-7'' [10, 20, 30] ex_fleet = [True, False, False]
   \<and> reactivate_all ''w-7'' [(10, ''a''), (20, ''b'')] ex_fleet = [False, False]"
proof -
  have "worker_in ''active'' ''w-7'' ex_fleet" "\<not> worker_in ''suspended'' ''w-7'' ex_fleet" by code_simp+
  then show ?thesis
    using control_has_one_winner [OF ex_fleet_ok, of "''w-7''" 10 "[20, 30]" "(10, ''a'')" "[(20, ''b'')]"]
    by (simp add: numeral_2_eq_2)
qed

lemma select_update_workers:
  assumes "\<And>v. P v \<Longrightarrow> wk_worker_id (f v) = wk_worker_id v"
  shows "select_worker wid (fl_workers (update_workers P f fl)) =
    map_option (\<lambda>v. if P v then f v else v) (select_worker wid (fl_workers fl))"
  using find_row_update_where_key [of P wk_worker_id f wid, OF assms]
  by (simp add: select_worker_def update_workers_def)

text \<open>
  No step gives a worker that may not lease the authority to lease except an operator's
  reactivation of a suspended one; heartbeats, in particular, never do.
\<close>
theorem only_reactivation_restores:
  assumes ok: "fleet_ok fl" and st: "fleet_step fl fl'"
    and w: "select_worker wid (fl_workers fl) = Some w" "\<not> is_ok (assert_worker_may_lease w)"
    and w': "select_worker wid (fl_workers fl') = Some w'" "is_ok (assert_worker_may_lease w')"
  shows "wk_status w = ''suspended'' \<and> (\<exists>now reason. reactivate_worker now wid reason fl = Inr fl')"
proof -
  from st show ?thesis
  proof cases
    case (register v)
    with w w' have "w' = w" using ok by (auto simp: select_worker_def find_row_append split: option.splits)
    with w w' show ?thesis by simp
  next
    case (revoke now v reason)
    with w w' show ?thesis
      by (auto elim!: revoke_workerE simp: select_update_workers assert_worker_may_lease_iff split: if_splits)
  next
    case (heartbeat now v health detail handshake)
    with w w' show ?thesis
      by (auto simp: record_heartbeat_def select_update_workers Let_def assert_worker_may_lease_iff
          split: if_splits option.splits)
  next
    case (reactivate now v reason)
    have "wk_worker_id w = wid" using w(1) ok by (simp add: select_worker_iff)
    with reactivate w w' have "wk_status w = ''suspended'' \<and> v = wid"
      by (auto simp: reactivate_worker_def select_update_workers Let_def assert_worker_may_lease_iff
          split: if_splits option.splits)
    with reactivate show ?thesis by blast
  next
    case (drain now v)
    with w w' show ?thesis
      by (auto simp: drain_worker_def select_update_workers Let_def assert_worker_may_lease_iff
          split: if_splits option.splits)
  next
    case (reap now stale doomed n)
    with w w' show ?thesis
      by (auto simp: reap_update_def select_update_workers Let_def assert_worker_may_lease_iff
          split: if_splits)
  qed
qed

theorem only_reactivation_restores_witness:
  "\<exists>now reason. reactivate_worker now ''w-8'' reason ex_suspended = Inr (the_fleet (reactivate_worker 300 ''w-8'' ''ok'' ex_suspended))"
proof -
  let ?fl' = "the_fleet (reactivate_worker 300 ''w-8'' ''ok'' ex_suspended)"
  have r: "reactivate_worker 300 ''w-8'' ''ok'' ex_suspended = Inr ?fl'" by (rule the_fleet_eq) code_simp
  have ok: "fleet_ok ex_suspended" by code_simp
  let ?w = "\<lambda>fl. the (select_worker ''w-8'' (fl_workers fl))"
  have s: "select_worker ''w-8'' (fl_workers ex_suspended) = Some (?w ex_suspended)"
    "select_worker ''w-8'' (fl_workers ?fl') = Some (?w ?fl')" by code_simp+
  have "\<not> is_ok (assert_worker_may_lease (?w ex_suspended))" "is_ok (assert_worker_may_lease (?w ?fl'))" by code_simp+
  from only_reactivation_restores [OF ok fleet_step.reactivate [OF r] s(1) this(1) s(2) this(2)]
  show ?thesis by simp
qed

end
