(* ===== verification/Ip_Address.thy ===== *)
theory Ip_Address
  imports Mbs_Prelude
begin

text \<open>
  What the scan engine uses of Python's \<open>ipaddress\<close> module (3.12): parsing of addresses and
  networks, containment, and the classification properties. An address is its integer value with
  its version, and for IPv6 its scope id. A network is its first address and its prefix length.
  \<open>str\<close> of an address or network and parsing the result again is the identity, so where the code
  prints and parses again the model passes the value.
\<close>

section \<open>Addresses and networks\<close>

datatype ip_addr = V4 int | V6 int "string option"

datatype ip_net = Net4 int nat | Net6 int "string option" nat

fun ip_value :: "ip_addr \<Rightarrow> int" where
  "ip_value (V4 a) = a"
| "ip_value (V6 a s) = a"

fun ip_version :: "ip_addr \<Rightarrow> nat" where
  "ip_version (V4 a) = 4"
| "ip_version (V6 a s) = 6"

fun net_version :: "ip_net \<Rightarrow> nat" where
  "net_version (Net4 a p) = 4"
| "net_version (Net6 a s p) = 6"

text \<open>\<open>v AND netmask\<close>, with \<open>h\<close> host bits.\<close>

definition mask_host :: "nat \<Rightarrow> int \<Rightarrow> int" where
  "mask_host h v = v - v mod 2 ^ h"

fun network_address :: "ip_net \<Rightarrow> ip_addr" where
  "network_address (Net4 a p) = V4 a"
| "network_address (Net6 a s p) = V6 a s"

fun broadcast_address :: "ip_net \<Rightarrow> ip_addr" where
  "broadcast_address (Net4 a p) = V4 (a + (2 ^ (32 - p) - 1))"
| "broadcast_address (Net6 a s p) = V6 (a + (2 ^ (128 - p) - 1)) None"

fun num_addresses :: "ip_net \<Rightarrow> int" where
  "num_addresses (Net4 a p) = 2 ^ (32 - p)"
| "num_addresses (Net6 a s p) = 2 ^ (128 - p)"

text \<open>\<open>ip in net\<close>: false across versions, and the scope id does not matter.\<close>

fun in_net :: "ip_addr \<Rightarrow> ip_net \<Rightarrow> bool" where
  "in_net (V4 v) (Net4 a p) = (mask_host (32 - p) v = a)"
| "in_net (V6 v t) (Net6 a s p) = (mask_host (128 - p) v = a)"
| "in_net _ _ = False"

text \<open>The order of addresses of one version: by value, and equality needs equal scope ids.\<close>

definition addr_le :: "ip_addr \<Rightarrow> ip_addr \<Rightarrow> bool" where
  "addr_le a b = (ip_value a < ip_value b \<or> a = b)"

definition subnet_of :: "ip_net \<Rightarrow> ip_net \<Rightarrow> bool" where
  "subnet_of a b =
     (addr_le (network_address b) (network_address a) \<and> addr_le (broadcast_address a) (broadcast_address b))"

fun ipv4_mapped :: "ip_addr \<Rightarrow> ip_addr option" where
  "ipv4_mapped (V4 a) = None"
| "ipv4_mapped (V6 a s) = (if a div 2 ^ 32 = 65535 then Some (V4 (a mod 2 ^ 32)) else None)"

definition unmap :: "ip_addr \<Rightarrow> ip_addr" where
  "unmap ip = (case ipv4_mapped ip of None \<Rightarrow> ip | Some m \<Rightarrow> m)"

section \<open>Parsing\<close>

definition dec_value :: "string \<Rightarrow> int" where
  "dec_value s = foldl (\<lambda>v c. 10 * v + (of_char c - 48)) 0 s"

definition all_digits :: "string \<Rightarrow> bool" where
  "all_digits s = (s \<noteq> [] \<and> list_all is_digit_char s)"

definition parse_octet :: "string \<Rightarrow> int option" where
  "parse_octet s =
     (if \<not> all_digits s then None
      else if length s > 3 then None
      else if s \<noteq> ''0'' \<and> hd s = CHR ''0'' then None
      else if dec_value s > 255 then None else Some (dec_value s))"

definition parse_v4 :: "string \<Rightarrow> int option" where
  "parse_v4 s =
     (case map parse_octet (split_char (CHR ''.'') s) of
        [Some a, Some b, Some c, Some d] \<Rightarrow> Some (((a * 256 + b) * 256 + c) * 256 + d)
      | _ \<Rightarrow> None)"

definition hex_digit :: "char \<Rightarrow> int option" where
  "hex_digit c =
     (let n = (of_char c :: int) in
      if 48 \<le> n \<and> n \<le> 57 then Some (n - 48)
      else if 65 \<le> n \<and> n \<le> 70 then Some (n - 55)
      else if 97 \<le> n \<and> n \<le> 102 then Some (n - 87) else None)"

text \<open>A part of an IPv6 address: its text, or a group already computed from an IPv4 suffix.\<close>

datatype v6_part = Text string | Group int

fun parse_hextet :: "v6_part \<Rightarrow> int option" where
  "parse_hextet (Group n) = Some n"
| "parse_hextet (Text s) =
     (if s = [] \<or> list_ex (\<lambda>c. hex_digit c = None) s \<or> length s > 4 then None
      else Some (foldl (\<lambda>v c. 16 * v + the (hex_digit c)) 0 s))"

fun join_hextets :: "int \<Rightarrow> v6_part list \<Rightarrow> int option" where
  "join_hextets v [] = Some v"
| "join_hextets v (p # ps) =
     (case parse_hextet p of None \<Rightarrow> None | Some h \<Rightarrow> join_hextets (v * 65536 + h) ps)"

definition v6_parts :: "string \<Rightarrow> v6_part list option" where
  "v6_parts s =
     (let parts = split_char (CHR '':'') s in
      if length parts < 3 then None
      else if CHR ''.'' \<in> set (last parts)
      then (case parse_v4 (last parts) of
              None \<Rightarrow> None
            | Some a \<Rightarrow> Some (map Text (butlast parts) @ [Group (a div 65536), Group (a mod 65536)]))
      else Some (map Text parts))"

definition v6_of_parts :: "v6_part list \<Rightarrow> int option" where
  "v6_of_parts parts =
     (let n = length parts in
      if n > 9 then None
      else (case filter (\<lambda>i. parts ! i = Text []) [1..<n - 1] of
        [] \<Rightarrow> if n \<noteq> 8 \<or> hd parts = Text [] \<or> last parts = Text [] then None else join_hextets 0 parts
      | [k] \<Rightarrow>
          (let hi = (if hd parts = Text [] then k - 1 else k);
               lo = (if last parts = Text [] then n - k - 2 else n - k - 1)
           in if hd parts = Text [] \<and> hi \<noteq> 0 then None
              else if last parts = Text [] \<and> lo \<noteq> 0 then None
              else if 8 < hi + lo + 1 then None
              else (case join_hextets 0 (take hi parts) of
                      None \<Rightarrow> None
                    | Some v \<Rightarrow> join_hextets (v * 2 ^ (16 * (8 - (hi + lo)))) (drop (n - lo) parts)))
      | _ \<Rightarrow> None))"

definition parse_v6 :: "string \<Rightarrow> ip_addr option" where
  "parse_v6 s =
     (if CHR ''/'' \<in> set s then None
      else (let (addr, scope) = partition_char (CHR ''%'') s in
        if scope = Some [] \<or> (case scope of None \<Rightarrow> False | Some z \<Rightarrow> CHR ''%'' \<in> set z) then None
        else (case v6_parts addr of
                None \<Rightarrow> None
              | Some parts \<Rightarrow> map_option (\<lambda>v. V6 v scope) (v6_of_parts parts))))"

text \<open>\<open>ipaddress.ip_address(s)\<close>, with \<open>None\<close> for its \<open>ValueError\<close>.\<close>

definition parse_ip :: "string \<Rightarrow> ip_addr option" where
  "parse_ip s = (case parse_v4 s of Some a \<Rightarrow> Some (V4 a) | None \<Rightarrow> parse_v6 s)"

definition parse_prefix :: "nat \<Rightarrow> string \<Rightarrow> nat option" where
  "parse_prefix bits s =
     (if all_digits s \<and> dec_value s \<le> int bits then Some (nat (dec_value s)) else None)"

text \<open>A prefix length, a netmask or a host mask.\<close>

definition prefix_of_mask :: "int \<Rightarrow> nat option" where
  "prefix_of_mask m = List.find (\<lambda>p. m = 2 ^ 32 - 2 ^ (32 - p)) [0..<33]"

definition parse_mask4 :: "string \<Rightarrow> nat option" where
  "parse_mask4 s =
     (case parse_prefix 32 s of
        Some p \<Rightarrow> Some p
      | None \<Rightarrow>
          (case parse_v4 s of
             None \<Rightarrow> None
           | Some m \<Rightarrow> (case prefix_of_mask m of Some p \<Rightarrow> Some p | None \<Rightarrow> prefix_of_mask (2 ^ 32 - 1 - m))))"

definition mk_net4 :: "int \<Rightarrow> nat \<Rightarrow> ip_net" where
  "mk_net4 a p = Net4 (mask_host (32 - p) a) p"

fun mk_net6 :: "ip_addr \<Rightarrow> nat \<Rightarrow> ip_net option" where
  "mk_net6 (V6 a s) p =
     Some (if mask_host (128 - p) a = a then Net6 a s p else Net6 (mask_host (128 - p) a) None p)"
| "mk_net6 (V4 a) p = None"

text \<open>\<open>ipaddress.ip_network(s, strict=False)\<close>, with \<open>None\<close> for its \<open>ValueError\<close>.\<close>

definition parse_net :: "string \<Rightarrow> ip_net option" where
  "parse_net s =
     (case split_char (CHR ''/'') s of
        [a] \<Rightarrow>
          (case parse_v4 a of
             Some v \<Rightarrow> Some (mk_net4 v 32)
           | None \<Rightarrow> (case parse_v6 a of None \<Rightarrow> None | Some v \<Rightarrow> mk_net6 v 128))
      | [a, m] \<Rightarrow>
          (case (parse_v4 a, parse_mask4 m) of
             (Some v, Some p) \<Rightarrow> Some (mk_net4 v p)
           | _ \<Rightarrow>
               (case (parse_v6 a, parse_prefix 128 m) of
                  (Some v, Some p) \<Rightarrow> mk_net6 v p
                | _ \<Rightarrow> None))
      | _ \<Rightarrow> None)"

section \<open>Classification\<close>

definition ip4 :: "int \<Rightarrow> int \<Rightarrow> int \<Rightarrow> int \<Rightarrow> int" where
  "ip4 a b c d = ((a * 256 + b) * 256 + c) * 256 + d"

text \<open>An IPv6 value from its first four groups and its last one.\<close>

definition ip6 :: "int \<Rightarrow> int \<Rightarrow> int \<Rightarrow> int \<Rightarrow> int \<Rightarrow> int" where
  "ip6 a b c d z = (((a * 65536 + b) * 65536 + c) * 65536 + d) * 2 ^ 64 + z"

definition private_nets :: "ip_net list" where
  "private_nets =
     [Net4 (ip4 0 0 0 0) 8, Net4 (ip4 10 0 0 0) 8, Net4 (ip4 127 0 0 0) 8, Net4 (ip4 169 254 0 0) 16,
      Net4 (ip4 172 16 0 0) 12, Net4 (ip4 192 0 0 0) 24, Net4 (ip4 192 0 0 170) 31, Net4 (ip4 192 0 2 0) 24,
      Net4 (ip4 192 168 0 0) 16, Net4 (ip4 198 18 0 0) 15, Net4 (ip4 198 51 100 0) 24,
      Net4 (ip4 203 0 113 0) 24, Net4 (ip4 240 0 0 0) 4, Net4 (ip4 255 255 255 255) 32,
      Net6 (ip6 0 0 0 0 1) None 128, Net6 (ip6 0 0 0 0 0) None 128, Net6 (65535 * 2 ^ 32) None 96,
      Net6 (ip6 0x64 0xff9b 1 0 0) None 48, Net6 (ip6 0x100 0 0 0 0) None 64, Net6 (ip6 0x2001 0 0 0 0) None 23,
      Net6 (ip6 0x2001 0xdb8 0 0 0) None 32, Net6 (ip6 0x2002 0 0 0 0) None 16,
      Net6 (ip6 0xfc00 0 0 0 0) None 7, Net6 (ip6 0xfe80 0 0 0 0) None 10]"

definition private_exceptions :: "ip_net list" where
  "private_exceptions =
     [Net4 (ip4 192 0 0 9) 32, Net4 (ip4 192 0 0 10) 32,
      Net6 (ip6 0x2001 1 0 0 1) None 128, Net6 (ip6 0x2001 1 0 0 2) None 128, Net6 (ip6 0x2001 3 0 0 0) None 32,
      Net6 (ip6 0x2001 4 0x112 0 0) None 48, Net6 (ip6 0x2001 0x20 0 0 0) None 28,
      Net6 (ip6 0x2001 0x30 0 0 0) None 28]"

definition reserved_nets :: "ip_net list" where
  "reserved_nets =
     [Net4 (ip4 240 0 0 0) 4,
      Net6 (ip6 0 0 0 0 0) None 8, Net6 (ip6 0x100 0 0 0 0) None 8, Net6 (ip6 0x200 0 0 0 0) None 7,
      Net6 (ip6 0x400 0 0 0 0) None 6, Net6 (ip6 0x800 0 0 0 0) None 5, Net6 (ip6 0x1000 0 0 0 0) None 4,
      Net6 (ip6 0x4000 0 0 0 0) None 3, Net6 (ip6 0x6000 0 0 0 0) None 3, Net6 (ip6 0x8000 0 0 0 0) None 3,
      Net6 (ip6 0xa000 0 0 0 0) None 3, Net6 (ip6 0xc000 0 0 0 0) None 3, Net6 (ip6 0xe000 0 0 0 0) None 4,
      Net6 (ip6 0xf000 0 0 0 0) None 5, Net6 (ip6 0xf800 0 0 0 0) None 6, Net6 (ip6 0xfe00 0 0 0 0) None 9]"

definition is_private_addr :: "ip_addr \<Rightarrow> bool" where
  "is_private_addr ip =
     (let ip' = unmap ip in list_ex (in_net ip') private_nets \<and> \<not> list_ex (in_net ip') private_exceptions)"

definition is_reserved_addr :: "ip_addr \<Rightarrow> bool" where
  "is_reserved_addr ip = list_ex (in_net ip) reserved_nets"

fun is_loopback_addr :: "ip_addr \<Rightarrow> bool" where
  "is_loopback_addr (V4 a) = in_net (V4 a) (Net4 (ip4 127 0 0 0) 8)"
| "is_loopback_addr (V6 a s) = (a = 1)"

definition is_link_local_addr :: "ip_addr \<Rightarrow> bool" where
  "is_link_local_addr ip =
     (in_net ip (Net4 (ip4 169 254 0 0) 16) \<or> in_net ip (Net6 (ip6 0xfe80 0 0 0 0) None 10))"

definition is_multicast_addr :: "ip_addr \<Rightarrow> bool" where
  "is_multicast_addr ip =
     (in_net ip (Net4 (ip4 224 0 0 0) 4) \<or> in_net ip (Net6 (ip6 0xff00 0 0 0 0) None 8))"

definition is_unspecified_addr :: "ip_addr \<Rightarrow> bool" where
  "is_unspecified_addr ip = (ip_value ip = 0)"

section \<open>Networks as intervals\<close>

lemma mask_host_iff:
  assumes "2 ^ h dvd a"
  shows "mask_host h v = a \<longleftrightarrow> a \<le> v \<and> v < a + 2 ^ h"
proof
  have p: "(0 :: int) < 2 ^ h" by simp
  assume "mask_host h v = a"
  then have "v = a + v mod 2 ^ h" by (simp add: mask_host_def)
  moreover have "0 \<le> v mod 2 ^ h" "v mod 2 ^ h < 2 ^ h" using p by simp_all
  ultimately show "a \<le> v \<and> v < a + 2 ^ h" by linarith
next
  assume v: "a \<le> v \<and> v < a + 2 ^ h"
  obtain k where a: "a = 2 ^ h * k" using assms by (auto simp: dvd_def)
  have "v mod 2 ^ h = (v - a + 2 ^ h * k) mod 2 ^ h" by (simp add: a)
  also have "\<dots> = v - a" using v by simp
  finally show "mask_host h v = a" by (simp add: mask_host_def)
qed

lemma mask_host_dvd: "2 ^ h dvd mask_host h v"
  by (simp add: mask_host_def minus_mod_eq_mult_div)

lemma mask_host_0: "mask_host 0 v = v"
  by (simp add: mask_host_def)

fun wf_net :: "ip_net \<Rightarrow> bool" where
  "wf_net (Net4 a p) = (2 ^ (32 - p) dvd a)"
| "wf_net (Net6 a s p) = (2 ^ (128 - p) dvd a)"

lemma wf_mk_net4: "wf_net (mk_net4 a p)"
  by (simp add: mk_net4_def mask_host_dvd)

lemma wf_mk_net6: "mk_net6 v p = Some net \<Longrightarrow> wf_net net"
  using mask_host_dvd [of "128 - p" "ip_value v"] by (cases v) (auto split: if_splits)

lemma addr_le_value: "addr_le a b \<Longrightarrow> ip_value a \<le> ip_value b"
  by (auto simp: addr_le_def)

lemma wf_parse_net:
  assumes "parse_net s = Some net"
  shows "wf_net net"
proof -
  consider a where "split_char (CHR ''/'') s = [a]" | a m where "split_char (CHR ''/'') s = [a, m]"
    using assms unfolding parse_net_def by (auto split: list.splits)
  then show ?thesis
  proof cases
    case 1
    with assms show ?thesis
      by (auto simp: parse_net_def wf_mk_net4 split: option.splits dest: wf_mk_net6)
  next
    case 2
    with assms show ?thesis
      by (auto simp: parse_net_def wf_mk_net4 split: option.splits dest: wf_mk_net6)
  qed
qed

lemma subnet_of_member:
  assumes wf: "wf_net a" "wf_net b" and v: "net_version a = net_version b" and s: "subnet_of a b"
    and i: "in_net ip a"
  shows "in_net ip b"
proof (cases a)
  case (Net4 na pa)
  with v obtain nb pb where b: "b = Net4 nb pb" by (cases b) auto
  from Net4 i obtain x where x: "ip = V4 x" by (cases ip) auto
  have "nb \<le> na" "na + 2 ^ (32 - pa) \<le> nb + 2 ^ (32 - pb)"
    using s [unfolded subnet_of_def] Net4 b by (auto dest!: addr_le_value)
  with wf Net4 b i x show ?thesis by (simp add: mask_host_iff)
next
  case (Net6 na sa pa)
  with v obtain nb sb pb where b: "b = Net6 nb sb pb" by (cases b) auto
  from Net6 i obtain x t where x: "ip = V6 x t" by (cases ip) auto
  have "nb \<le> na" "na + 2 ^ (128 - pa) \<le> nb + 2 ^ (128 - pb)"
    using s [unfolded subnet_of_def] Net6 b by (auto dest!: addr_le_value)
  with wf Net6 b i x show ?thesis by (simp add: mask_host_iff)
qed

section \<open>One address as a network\<close>

lemma split_char_set:
  "set s = (\<Union>p \<in> set (split_char c s). set p) \<union> (if length (split_char c s) > 1 then {c} else {})"
  by (induction s) (auto split: list.splits if_splits)

lemma split_char_no: "c \<notin> set s \<Longrightarrow> split_char c s = [s]"
  by (induction s) auto

lemma parse_octet_digits: "parse_octet p = Some n \<Longrightarrow> list_all is_digit_char p"
  by (auto simp: parse_octet_def all_digits_def split: if_splits)

lemma parse_v4_chars:
  assumes "parse_v4 s = Some a" and "c \<in> set s"
  shows "is_digit_char c \<or> c = CHR ''.''"
proof -
  obtain w x y z where p: "map parse_octet (split_char (CHR ''.'') s) = [Some w, Some x, Some y, Some z]"
    using assms(1) by (auto simp: parse_v4_def split: list.splits option.splits)
  have "list_all is_digit_char q" if "q \<in> set (split_char (CHR ''.'') s)" for q
  proof -
    have "parse_octet q \<in> set (map parse_octet (split_char (CHR ''.'') s))" using that by simp
    then show ?thesis unfolding p by (auto intro: parse_octet_digits dest: sym)
  qed
  moreover have "c = CHR ''.'' \<or> (\<exists>q \<in> set (split_char (CHR ''.'') s). c \<in> set q)"
    using assms(2) split_char_set [of s "CHR ''.''"] by (auto split: if_splits)
  ultimately show ?thesis by (auto simp: list_all_iff)
qed

lemma parse_v6_V6: "parse_v6 s = Some ip \<Longrightarrow> \<exists>a t. ip = V6 a t"
  by (auto simp: parse_v6_def Let_def split: if_splits prod.splits option.splits)

lemma parse_ip_net:
  assumes "parse_ip s = Some ip"
  shows "\<exists>net. parse_net s = Some net \<and> network_address net = ip"
proof (cases "parse_v4 s")
  case (Some a)
  have "CHR ''/'' \<notin> set s" using parse_v4_chars [OF Some] by (fastforce simp: is_digit_char_def)
  with Some assms show ?thesis
    by (simp add: parse_net_def split_char_no parse_ip_def mk_net4_def mask_host_0)
next
  case None
  with assms have p: "parse_v6 s = Some ip" by (simp add: parse_ip_def)
  then have "CHR ''/'' \<notin> set s" by (auto simp: parse_v6_def split: if_splits)
  moreover obtain a t where "ip = V6 a t" using parse_v6_V6 [OF p] by blast
  ultimately show ?thesis using p None
    by (simp add: parse_net_def split_char_no mask_host_0)
qed

lemma in_net_version: "in_net ip net \<Longrightarrow> ip_version ip = net_version net"
  by (cases ip; cases net) auto

end
