(* ===== verification/Net_Guard.thy ===== *)
theory Net_Guard
  imports Ip_Address
begin

text \<open>
  The two-key rule for addresses: \<open>scanner_engine/net_policy.py\<close> (what one scan is authorized for),
  \<open>scanner_engine/net_guard.py\<close> (what any scan may touch) and \<open>scanner_engine/site_dns.py\<close> (how a
  private scan resolves names). The settings are a record; the OS resolver and the site-DNS backend
  are parameters. The policy that is in effect (the explicit argument, else the one bound to the
  context, else \<open>PUBLIC_ONLY\<close>) is computed by \<open>effective\<close> and passed on.
\<close>

section \<open>Settings and policies\<close>

record settings =
  st_allow_private :: bool
  st_allowed_cidrs :: "string list"
  st_scope_excludes :: "string list"

record net_policy =
  np_workspace_id :: "uuid option"
  np_scan_id :: "uuid option"
  np_network_zone :: string
  np_site_id :: "uuid option"
  np_worker_id :: "string option"
  np_pool_id :: "string option"
  np_authorized_cidrs :: "ip_net list"
  np_dns_servers :: "string list"

text \<open>Malformed entries are dropped, later duplicates too (\<open>str(net)\<close> is the key: the value itself).\<close>

fun parse_cidrs_from :: "ip_net list \<Rightarrow> string list \<Rightarrow> ip_net list" where
  "parse_cidrs_from nets [] = nets"
| "parse_cidrs_from nets (raw # rest) =
     (let entry = py_strip raw in
      if entry = [] then parse_cidrs_from nets rest
      else (case parse_net entry of
              None \<Rightarrow> parse_cidrs_from nets rest
            | Some net \<Rightarrow>
                if List.member nets net then parse_cidrs_from nets rest
                else parse_cidrs_from (nets @ [net]) rest))"

definition parse_cidrs :: "string list \<Rightarrow> ip_net list" where
  "parse_cidrs values = parse_cidrs_from [] values"

definition is_private_policy :: "net_policy \<Rightarrow> bool" where
  "is_private_policy p = (np_network_zone p = ''private'')"

definition allows_private_ip :: "net_policy \<Rightarrow> ip_addr \<Rightarrow> bool" where
  "allows_private_ip p ip =
     (if \<not> is_private_policy p then False
      else list_ex (\<lambda>net. ip_version ip = net_version net \<and> in_net ip net) (np_authorized_cidrs p))"

definition PUBLIC_ONLY :: net_policy where
  "PUBLIC_ONLY = \<lparr>np_workspace_id = None, np_scan_id = None, np_network_zone = ''public'', np_site_id = None,
     np_worker_id = None, np_pool_id = None, np_authorized_cidrs = [], np_dns_servers = []\<rparr>"

definition current_or_public :: "net_policy option \<Rightarrow> net_policy" where
  "current_or_public bound = (case bound of None \<Rightarrow> PUBLIC_ONLY | Some p \<Rightarrow> p)"

definition effective :: "net_policy option \<Rightarrow> net_policy option \<Rightarrow> net_policy" where
  "effective bound policy = (case policy of None \<Rightarrow> current_or_public bound | Some p \<Rightarrow> p)"

definition build_public_policy :: "uuid option \<Rightarrow> uuid option \<Rightarrow> net_policy" where
  "build_public_policy ws scan = PUBLIC_ONLY\<lparr>np_workspace_id := ws, np_scan_id := scan\<rparr>"

text \<open>The one caller passes the printed forms of networks that it has already parsed.\<close>

definition build_private_policy ::
  "uuid \<Rightarrow> uuid option \<Rightarrow> uuid \<Rightarrow> ip_net list \<Rightarrow> string list \<Rightarrow> string option \<Rightarrow> string option \<Rightarrow> net_policy" where
  "build_private_policy ws scan site nets dns worker pool =
     \<lparr>np_workspace_id = Some ws, np_scan_id = scan, np_network_zone = ''private'', np_site_id = Some site,
      np_worker_id = worker, np_pool_id = pool, np_authorized_cidrs = nets,
      np_dns_servers = filter (\<lambda>d. d \<noteq> []) (map py_strip dns)\<rparr>"

section \<open>Addresses\<close>

definition METADATA_IPS :: "ip_addr list" where
  "METADATA_IPS = [V4 (ip4 169 254 169 254), V4 (ip4 100 100 100 200), V6 (ip6 0xfd00 0xec2 0 0 0x254) None]"

definition EXTRA_FORBIDDEN_NETS :: "ip_net list" where
  "EXTRA_FORBIDDEN_NETS = [Net4 (ip4 100 64 0 0) 10]"

datatype guard_error =
    NotAuthorizedForScan | BlockedBySsrf | RangeNotContained | LocalhostTarget
  | Unresolvable | SiteDnsUnavailable | ResolverRaised

text \<open>\<open>TargetNotAllowed\<close> and \<open>socket.gaierror\<close>, of which \<open>SiteDNSUnavailable\<close> is a subclass.\<close>

definition is_not_allowed :: "guard_error \<Rightarrow> bool" where
  "is_not_allowed e = List.member [NotAuthorizedForScan, BlockedBySsrf, RangeNotContained, LocalhostTarget] e"

definition is_gaierror :: "guard_error \<Rightarrow> bool" where
  "is_gaierror e = List.member [Unresolvable, SiteDnsUnavailable] e"

definition to_ip :: "string \<Rightarrow> ip_addr option" where
  "to_ip value = map_option unmap (parse_ip value)"

definition allowed_networks :: "settings \<Rightarrow> ip_net list" where
  "allowed_networks st =
     List.map_filter parse_net (filter (\<lambda>e. e \<noteq> []) (map py_strip (st_allowed_cidrs st)))"

definition explicitly_allowed_host :: "settings \<Rightarrow> ip_addr \<Rightarrow> bool" where
  "explicitly_allowed_host st ip =
     list_ex (\<lambda>net. num_addresses net = 1 \<and> ip = network_address net) (allowed_networks st)"

definition in_allowed_cidrs :: "settings \<Rightarrow> ip_addr \<Rightarrow> bool" where
  "in_allowed_cidrs st ip = list_ex (in_net ip) (allowed_networks st)"

definition forbidden_addr :: "ip_addr \<Rightarrow> bool" where
  "forbidden_addr ip =
     (is_private_addr ip \<or> is_loopback_addr ip \<or> is_link_local_addr ip \<or> is_multicast_addr ip
      \<or> is_reserved_addr ip \<or> is_unspecified_addr ip
      \<or> list_ex (\<lambda>net. ip_version ip = net_version net \<and> in_net ip net) EXTRA_FORBIDDEN_NETS)"

text \<open>The decision on a parsed and normalized address.\<close>

definition ip_allowed :: "settings \<Rightarrow> net_policy \<Rightarrow> ip_addr \<Rightarrow> bool" where
  "ip_allowed st eff ip =
     (if List.member METADATA_IPS ip
      then st_allow_private st \<and> explicitly_allowed_host st ip \<and> allows_private_ip eff ip
      else if \<not> forbidden_addr ip then True
      else if \<not> (st_allow_private st \<and> in_allowed_cidrs st ip) then False
      else allows_private_ip eff ip)"

definition is_ip_allowed :: "settings \<Rightarrow> net_policy \<Rightarrow> string \<Rightarrow> bool" where
  "is_ip_allowed st eff value = (case to_ip value of None \<Rightarrow> False | Some ip \<Rightarrow> ip_allowed st eff ip)"

definition globally_permitted :: "settings \<Rightarrow> ip_addr option \<Rightarrow> bool" where
  "globally_permitted st ip =
     (case ip of None \<Rightarrow> False
      | Some a \<Rightarrow> st_allow_private st \<and> (in_allowed_cidrs st a \<or> explicitly_allowed_host st a))"

definition assert_ip_allowed :: "settings \<Rightarrow> net_policy \<Rightarrow> string \<Rightarrow> guard_error + unit" where
  "assert_ip_allowed st eff value =
     (if is_ip_allowed st eff value then Inr ()
      else if globally_permitted st (to_ip value) then Inl NotAuthorizedForScan
      else Inl BlockedBySsrf)"

text \<open>\<open>assert_ip_allowed(str(edge))\<close> for an edge of a network.\<close>

definition assert_edge_allowed :: "settings \<Rightarrow> net_policy \<Rightarrow> ip_addr \<Rightarrow> guard_error + unit" where
  "assert_edge_allowed st eff edge =
     (if ip_allowed st eff (unmap edge) then Inr ()
      else if globally_permitted st (Some (unmap edge)) then Inl NotAuthorizedForScan
      else Inl BlockedBySsrf)"

text \<open>A sequence of refusals: \<open>for addr in addrs: assert_ip_allowed(addr)\<close>.\<close>

fun assert_all :: "('a \<Rightarrow> guard_error + unit) \<Rightarrow> 'a list \<Rightarrow> guard_error + unit" where
  "assert_all f [] = Inr ()"
| "assert_all f (a # as) = res_bind (f a) (\<lambda>_. assert_all f as)"

section \<open>Hosts and networks\<close>

definition host_from_value :: "string \<Rightarrow> string" where
  "host_from_value value =
     (let v0 = py_strip value;
          v1 = (if py_contains ''://'' v0 then after_sub ''://'' v0 else v0);
          v2 = before_char (CHR ''/'') v1;
          v3 = (if CHR ''@'' \<in> set v2 then after_last_char (CHR ''@'') v2 else v2)
      in if py_startswith v3 ''['' \<and> CHR '']'' \<in> set v3 then takeWhile (\<lambda>c. c \<noteq> CHR '']'') (tl v3)
         else if count_list v3 (CHR '':'') = 1 then before_char (CHR '':'') v3
         else v3)"

definition assert_network_within_policy :: "net_policy \<Rightarrow> ip_net \<Rightarrow> guard_error + unit" where
  "assert_network_within_policy eff net =
     (let edge = unmap (network_address net);
          is_private_range =
            (is_private_addr edge \<or> is_loopback_addr edge \<or> is_link_local_addr edge \<or> is_reserved_addr edge
             \<or> list_ex (\<lambda>n. ip_version edge = net_version n \<and> in_net edge n) EXTRA_FORBIDDEN_NETS)
      in if \<not> is_private_range then Inr ()
         else if list_ex (\<lambda>a. net_version net = net_version a \<and> subnet_of net a) (np_authorized_cidrs eff)
         then Inr ()
         else Inl RangeNotContained)"

section \<open>Resolution\<close>

text \<open>What \<open>getaddrinfo\<close> does at one attempt: addresses, \<open>gaierror\<close>, or another exception.\<close>

datatype os_answer = Addresses "string list" | GaiError | OtherError

type_synonym os_resolver = "nat \<Rightarrow> string \<Rightarrow> os_answer"

text \<open>What the site-DNS backend does at one attempt for a name and a resolver; \<open>None\<close> if it raises.\<close>

type_synonym dns_backend = "nat \<Rightarrow> string \<Rightarrow> string \<Rightarrow> string list option"

fun dedup_from :: "string list \<Rightarrow> string list \<Rightarrow> string list" where
  "dedup_from out [] = out"
| "dedup_from out (a # as) = dedup_from (if List.member out a then out else out @ [a]) as"

fun site_round :: "dns_backend \<Rightarrow> nat \<Rightarrow> string \<Rightarrow> string list \<Rightarrow> string list option" where
  "site_round backend attempt host [] = None"
| "site_round backend attempt host (r # rs) =
     (case backend attempt host r of
        None \<Rightarrow> site_round backend attempt host rs
      | Some answer \<Rightarrow>
          (let addrs = filter (\<lambda>a. a \<noteq> []) answer in
           if addrs \<noteq> [] then Some addrs else site_round backend attempt host rs))"

fun site_attempts :: "dns_backend \<Rightarrow> string \<Rightarrow> string list \<Rightarrow> nat list \<Rightarrow> guard_error + string list" where
  "site_attempts backend host resolvers [] = Inl SiteDnsUnavailable"
| "site_attempts backend host resolvers (k # ks) =
     (case site_round backend k host resolvers of
        Some addrs \<Rightarrow> Inr addrs
      | None \<Rightarrow> site_attempts backend host resolvers ks)"

definition resolve_via_site_dns ::
  "dns_backend \<Rightarrow> nat \<Rightarrow> string \<Rightarrow> string list \<Rightarrow> guard_error + string list" where
  "resolve_via_site_dns backend attempts host resolvers =
     (if resolvers = [] then Inl SiteDnsUnavailable
      else site_attempts backend host resolvers [0..<max 1 attempts])"

fun os_attempts :: "os_resolver \<Rightarrow> string \<Rightarrow> nat list \<Rightarrow> guard_error \<Rightarrow> guard_error + string list" where
  "os_attempts os host [] last_exc = Inl last_exc"
| "os_attempts os host (k # ks) last_exc =
     (case os k host of
        GaiError \<Rightarrow> os_attempts os host ks Unresolvable
      | OtherError \<Rightarrow> Inl ResolverRaised
      | Addresses infos \<Rightarrow> Inr (dedup_from [] infos))"

text \<open>With no attempt at all, \<open>raise last_exc\<close> raises a \<open>TypeError\<close>; every caller uses the default.\<close>

definition RESOLVE_ATTEMPTS :: nat where "RESOLVE_ATTEMPTS = 3"

definition resolve_hostname ::
  "os_resolver \<Rightarrow> dns_backend \<Rightarrow> nat \<Rightarrow> net_policy \<Rightarrow> string \<Rightarrow> guard_error + string list" where
  "resolve_hostname os backend attempts eff host =
     (if is_private_policy eff then resolve_via_site_dns backend attempts host (np_dns_servers eff)
      else os_attempts os host [0..<attempts] ResolverRaised)"

section \<open>The two gates\<close>

definition validate_target_value ::
  "settings \<Rightarrow> os_resolver \<Rightarrow> dns_backend \<Rightarrow> net_policy option \<Rightarrow> net_policy option
   \<Rightarrow> string \<Rightarrow> string \<Rightarrow> guard_error + unit" where
  "validate_target_value st os backend bound policy target_type value =
     (if \<not> List.member [''domain'', ''ip_range''] target_type then Inr ()
      else (let host = host_from_value value; eff = effective bound policy in
        (case parse_net host of
           Some net \<Rightarrow> assert_all (assert_edge_allowed st eff) [network_address net, broadcast_address net]
         | None \<Rightarrow>
             if List.member [''localhost'', ''localhost.localdomain''] (py_lower host) then Inl LocalhostTarget
             else (case resolve_hostname os backend RESOLVE_ATTEMPTS (effective bound None) host of
                     Inl e \<Rightarrow> if is_gaierror e then Inr () else Inl e
                   | Inr addrs \<Rightarrow> assert_all (assert_ip_allowed st eff) addrs))))"

definition resolve_and_validate ::
  "settings \<Rightarrow> os_resolver \<Rightarrow> dns_backend \<Rightarrow> net_policy \<Rightarrow> string \<Rightarrow> guard_error + string" where
  "resolve_and_validate st os backend eff host =
     (case parse_net host of
        Some net \<Rightarrow>
          res_bind (assert_edge_allowed st eff (network_address net)) (\<lambda>_.
          res_bind (assert_edge_allowed st eff (broadcast_address net)) (\<lambda>_.
          res_bind (assert_network_within_policy eff net) (\<lambda>_. Inr host)))
      | None \<Rightarrow>
          res_bind (resolve_hostname os backend RESOLVE_ATTEMPTS eff (host_from_value host)) (\<lambda>addrs.
            if addrs = [] then Inl Unresolvable
            else res_bind (assert_all (assert_ip_allowed st eff) addrs) (\<lambda>_. Inr (hd addrs))))"

end
