(* ===== verification/Private_Sites.thy ===== *)
theory Private_Sites
  imports Net_Guard Scanner_Workers
begin

text \<open>
  \<open>modules/private_sites/service.py\<close>: how a scan's policy is derived from the persisted rows, the
  address checks of target creation (\<open>create_target\<close> in \<open>modules/projects/service.py\<close>), and the
  routing of scans to queues and workers (\<open>scanner_engine/scan_routing.py\<close>).
\<close>

section \<open>Sites\<close>

record private_site =
  ps_id :: uuid
  ps_workspace_id :: uuid
  ps_name :: string
  ps_authorized_cidrs :: "string list"
  ps_dns_servers :: "string list"
  ps_scanner_pool_id :: "string option"
  ps_status :: string
  ps_created_at :: time

definition SITE_STATUSES :: "string list" where
  "SITE_STATUSES = [''pending'', ''key_exchanged'', ''verified'', ''active'', ''suspended'', ''revoked'']"

definition SCANNABLE_SITE_STATUSES :: "string list" where "SCANNABLE_SITE_STATUSES = [''active'']"

datatype site_refusal =
    SITE_NOT_FOUND | SITE_WRONG_WORKSPACE | SITE_SUSPENDED | SITE_REVOKED | SITE_NOT_ACTIVE
  | NO_AUTHORIZED_CIDRS | TARGET_OUTSIDE_AUTHORIZED_CIDRS | TARGET_MISSING_SITE

definition get_site_for_workspace ::
  "private_site list \<Rightarrow> uuid \<Rightarrow> uuid \<Rightarrow> site_refusal + private_site" where
  "get_site_for_workspace sites site_id ws =
     (case find_row (\<lambda>s. ps_id s = site_id) sites of
        None \<Rightarrow> Inl SITE_NOT_FOUND
      | Some s \<Rightarrow> if ps_workspace_id s \<noteq> ws then Inl SITE_WRONG_WORKSPACE else Inr s)"

definition assert_site_scannable :: "private_site \<Rightarrow> site_refusal + unit" where
  "assert_site_scannable s =
     (if List.member SCANNABLE_SITE_STATUSES (ps_status s) then Inr ()
      else Inl (if ps_status s = ''suspended'' then SITE_SUSPENDED
                else if ps_status s = ''revoked'' then SITE_REVOKED
                else SITE_NOT_ACTIVE))"

definition authorized_networks :: "private_site \<Rightarrow> site_refusal + ip_net list" where
  "authorized_networks s =
     (let nets = parse_cidrs (ps_authorized_cidrs s) in
      if nets = [] then Inl NO_AUTHORIZED_CIDRS else Inr nets)"

text \<open>The check on a parsed address; the code parses the printed address and unmaps it.\<close>

definition assert_address_within_site :: "private_site \<Rightarrow> ip_addr \<Rightarrow> site_refusal + unit" where
  "assert_address_within_site s address =
     res_bind (authorized_networks s) (\<lambda>nets.
       let ip = unmap address in
       if \<not> list_ex (\<lambda>n. ip_version ip = net_version n \<and> in_net ip n) nets
       then Inl TARGET_OUTSIDE_AUTHORIZED_CIDRS else Inr ())"

text \<open>Python's \<open>a or b\<close> on optional strings.\<close>

definition or_else :: "string option \<Rightarrow> string option \<Rightarrow> string option" where
  "or_else a b = (if truthy a then a else b)"

definition build_scan_network_policy ::
  "private_site list \<Rightarrow> uuid \<Rightarrow> uuid option \<Rightarrow> string \<Rightarrow> uuid option \<Rightarrow> string option \<Rightarrow> string option
   \<Rightarrow> site_refusal + net_policy" where
  "build_scan_network_policy sites ws scan zone site_id worker pool =
     (if zone \<noteq> ''private'' then Inr (build_public_policy (Some ws) scan)
      else (case site_id of
        None \<Rightarrow> Inl TARGET_MISSING_SITE
      | Some sid \<Rightarrow>
          res_bind (get_site_for_workspace sites sid ws) (\<lambda>site.
          res_bind (assert_site_scannable site) (\<lambda>_.
          res_bind (authorized_networks site) (\<lambda>nets.
            Inr (build_private_policy ws scan (ps_id site) nets (ps_dns_servers site) worker
                   (or_else pool (ps_scanner_pool_id site))))))))"

definition list_sites :: "private_site list \<Rightarrow> uuid \<Rightarrow> private_site list" where
  "list_sites sites ws = sort_key ps_created_at (filter (\<lambda>s. ps_workspace_id s = ws) sites)"

section \<open>Target creation\<close>

datatype target_refusal = SiteRefused site_refusal | AddressRefused guard_error

text \<open>\<open>PrivateSiteNotAuthorized\<close> and \<open>TargetNotAllowed\<close> become 403 and 400; other exceptions pass.\<close>

definition site_step :: "site_refusal + 'a \<Rightarrow> target_refusal + 'a" where
  "site_step r = (case r of Inl e \<Rightarrow> Inl (SiteRefused e) | Inr x \<Rightarrow> Inr x)"

definition guard_step :: "guard_error + 'a \<Rightarrow> target_refusal + 'a" where
  "guard_step r = (case r of Inl e \<Rightarrow> Inl (AddressRefused e) | Inr x \<Rightarrow> Inr x)"

definition assert_edges_within_site :: "private_site \<Rightarrow> ip_net \<Rightarrow> site_refusal + unit" where
  "assert_edges_within_site s net =
     res_bind (assert_address_within_site s (network_address net)) (\<lambda>_.
       assert_address_within_site s (broadcast_address net))"

text \<open>
  The authorization of \<open>create_target\<close>, up to the quota check: the zone and site of the new row.
  No policy is bound to the request's context.
\<close>

definition create_target_context ::
  "settings \<Rightarrow> os_resolver \<Rightarrow> dns_backend \<Rightarrow> private_site list \<Rightarrow> uuid \<Rightarrow> string \<Rightarrow> string \<Rightarrow> uuid option
   \<Rightarrow> target_refusal + string \<times> uuid option" where
  "create_target_context st os backend sites ws target_type value site_id =
     (case site_id of
        None \<Rightarrow>
          res_bind (guard_step (validate_target_value st os backend None None target_type value)) (\<lambda>_.
            Inr (''public'', None))
      | Some sid \<Rightarrow>
          res_bind (site_step (get_site_for_workspace sites sid ws)) (\<lambda>site.
          res_bind (site_step (assert_site_scannable site)) (\<lambda>_.
          res_bind (site_step (build_scan_network_policy sites ws None ''private'' (Some (ps_id site)) None None)) (\<lambda>policy.
          res_bind (guard_step (validate_target_value st os backend None (Some policy) target_type value)) (\<lambda>_.
            if List.member [''domain'', ''ip_range''] target_type
            then (case parse_net (py_strip value) of
                    None \<Rightarrow> Inr (''private'', Some (ps_id site))
                  | Some net \<Rightarrow>
                      res_bind (site_step (assert_edges_within_site site net)) (\<lambda>_.
                        Inr (''private'', Some (ps_id site))))
            else Inr (''private'', Some (ps_id site)))))))"

section \<open>Routing\<close>

definition PUBLIC_SCAN_QUEUE :: string where "PUBLIC_SCAN_QUEUE = ''scans.public''"
definition PRIVATE_QUEUE_PREFIX :: string where "PRIVATE_QUEUE_PREFIX = ''scans.private.''"

text \<open>Site ids as their text; an absent zone is public. \<open>None\<close> for the \<open>ValueError\<close>.\<close>

definition zone_of :: "string option \<Rightarrow> string" where
  "zone_of z = (if truthy z then or_empty z else ''public'')"

definition queue_for_scan :: "string option \<Rightarrow> string option \<Rightarrow> string option" where
  "queue_for_scan zone site =
     (if zone_of zone \<noteq> ''private'' then Some PUBLIC_SCAN_QUEUE
      else if \<not> truthy site then None
      else Some (PRIVATE_QUEUE_PREFIX @ or_empty site))"

definition site_id_from_queue :: "string \<Rightarrow> string option" where
  "site_id_from_queue queue =
     (if queue \<noteq> [] \<and> py_startswith queue PRIVATE_QUEUE_PREFIX
      then (let rest = drop (length PRIVATE_QUEUE_PREFIX) queue in if rest = [] then None else Some rest)
      else None)"

definition is_private_queue :: "string \<Rightarrow> bool" where
  "is_private_queue queue = (queue \<noteq> [] \<and> py_startswith queue PRIVATE_QUEUE_PREFIX)"

datatype job_refusal =
    JOB_PRIVATE_WITHOUT_SITE | JOB_PUBLIC_WORKER | JOB_WRONG_SITE | JOB_PRIVATE_WORKER | JOB_WRONG_POOL

definition assert_job_matches_worker ::
  "string option \<Rightarrow> string option \<Rightarrow> string option \<Rightarrow> string option \<Rightarrow> string option \<Rightarrow> job_refusal + unit" where
  "assert_job_matches_worker job_zone job_site_id worker_site_id worker_pool job_pool =
     (let job_site = (if truthy job_site_id then job_site_id else None);
          own_site = (if truthy worker_site_id then worker_site_id else None);
          pool_check = (if truthy job_pool \<and> truthy worker_pool \<and> job_pool \<noteq> worker_pool
                        then Inl JOB_WRONG_POOL else Inr ())
      in if zone_of job_zone = ''private''
         then (if job_site = None then Inl JOB_PRIVATE_WITHOUT_SITE
               else if own_site = None then Inl JOB_PUBLIC_WORKER
               else if own_site \<noteq> job_site then Inl JOB_WRONG_SITE
               else pool_check)
         else (if own_site \<noteq> None then Inl JOB_PRIVATE_WORKER else pool_check))"

end
