(* ===== verification/Egress_Guard.thy ===== *)
theory Egress_Guard
  imports Net_Guard
begin

text \<open>
  \<open>scanner_engine/egress_guard.py\<close>: the destinations that the scanner's own code may connect to.
  \<open>urlparse(...).hostname\<close> of the standard library is modelled on ASCII text; \<open>None\<close> in
  \<open>url_hostname\<close> is its \<open>ValueError\<close>.
\<close>

section \<open>The host of a URL\<close>

definition is_url_space :: "char \<Rightarrow> bool" where
  "is_url_space c = ((of_char c :: nat) \<le> 32)"

definition is_alpha :: "char \<Rightarrow> bool" where
  "is_alpha c = (let n = (of_char c :: nat) in (65 \<le> n \<and> n \<le> 90) \<or> (97 \<le> n \<and> n \<le> 122))"

definition is_scheme_char :: "char \<Rightarrow> bool" where
  "is_scheme_char c = (is_alpha c \<or> is_digit_char c \<or> c \<in> {CHR ''+'', CHR ''-'', CHR ''.''})"

text \<open>Leading control characters and spaces go, and every tab and line break.\<close>

definition url_clean :: "string \<Rightarrow> string" where
  "url_clean url =
     filter (\<lambda>c. (of_char c :: nat) \<notin> {9, 10, 13}) (dropWhile is_url_space url)"

definition url_after_scheme :: "string \<Rightarrow> string" where
  "url_after_scheme url =
     (case partition_char (CHR '':'') url of
        (scheme, Some rest) \<Rightarrow>
          if scheme \<noteq> [] \<and> is_alpha (hd scheme) \<and> list_all is_scheme_char scheme then rest else url
      | (_, None) \<Rightarrow> url)"

definition url_netloc :: "string \<Rightarrow> string" where
  "url_netloc url =
     (let u = url_after_scheme (url_clean url) in
      if py_startswith u ''//'' then takeWhile (\<lambda>c. c \<notin> {CHR ''/'', CHR ''?'', CHR ''#''}) (drop 2 u) else [])"

text \<open>The text after the last at sign, or all of it: \<open>rpartition('@')[2]\<close>.\<close>

definition netloc_hostinfo :: "string \<Rightarrow> string" where
  "netloc_hostinfo netloc = after_last_char (CHR ''@'') netloc"

definition bracketed_host_ok :: "string \<Rightarrow> bool" where
  "bracketed_host_ok h =
     (if py_startswith h ''v''
      then (case partition_char (CHR ''.'') (tl h) of
              (hex, Some rest) \<Rightarrow> hex \<noteq> [] \<and> list_all (\<lambda>c. hex_digit c \<noteq> None) hex \<and> rest \<noteq> []
                \<and> CHR 0x0A \<notin> set rest
            | (_, None) \<Rightarrow> False)
      else (case parse_ip h of Some (V6 a s) \<Rightarrow> True | _ \<Rightarrow> False))"

definition bracketed_netloc_ok :: "string \<Rightarrow> bool" where
  "bracketed_netloc_ok netloc =
     (case partition_char (CHR ''['') (netloc_hostinfo netloc) of
        (before, Some bracketed) \<Rightarrow>
          (case partition_char (CHR '']'') bracketed of
             (h, port) \<Rightarrow>
               before = [] \<and> (or_empty port = [] \<or> py_startswith (or_empty port) '':'') \<and> bracketed_host_ok h)
      | (h, None) \<Rightarrow> bracketed_host_ok (before_char (CHR '':'') h))"

definition netloc_ok :: "string \<Rightarrow> bool" where
  "netloc_ok netloc =
     ((CHR ''['' \<in> set netloc) = (CHR '']'' \<in> set netloc)
      \<and> (CHR ''['' \<in> set netloc \<longrightarrow> bracketed_netloc_ok netloc))"

definition netloc_host :: "string \<Rightarrow> string" where
  "netloc_host netloc =
     (case partition_char (CHR ''['') (netloc_hostinfo netloc) of
        (_, Some bracketed) \<Rightarrow> before_char (CHR '']'') bracketed
      | (hostinfo, None) \<Rightarrow> before_char (CHR '':'') hostinfo)"

text \<open>\<open>(parsed.hostname or '')\<close>: lower case up to a zone id, which keeps its case.\<close>

definition url_hostname :: "string \<Rightarrow> string option" where
  "url_hostname url =
     (let netloc = url_netloc url in
      if \<not> netloc_ok netloc then None
      else (case partition_char (CHR ''%'') (netloc_host netloc) of
              (h, None) \<Rightarrow> Some (py_lower h)
            | (h, Some zone) \<Rightarrow> Some (py_lower h @ CHR ''%'' # zone)))"

section \<open>The egress decision\<close>

datatype egress_error =
    EgressControlPlane | EgressNotAuthorized | EgressUnresolvable | EgressRaised

definition CONTROL_PLANE_HOSTNAMES :: "string list" where
  "CONTROL_PLANE_HOSTNAMES =
     [''mysql'', ''redis'', ''minio'', ''api'', ''web'', ''nginx'', ''ollama'', ''prometheus'', ''alertmanager'',
      ''grafana'', ''beat'', ''worker-default'', ''postgres'']"

definition is_control_plane_host :: "string \<Rightarrow> bool" where
  "is_control_plane_host host =
     (let h = py_rstrip_char (CHR ''.'') (py_lower (py_strip host)) in
      if h = [] then False
      else if List.member CONTROL_PLANE_HOSTNAMES h then True
      else List.member CONTROL_PLANE_HOSTNAMES (before_char (CHR ''.'') h))"

text \<open>\<open>_extract_host\<close>, with \<open>None\<close> for the \<open>ValueError\<close> of \<open>urlparse\<close>, which no caller catches.\<close>

definition extract_dest_host :: "string \<Rightarrow> string option" where
  "extract_dest_host value =
     (let v = py_strip value in
      if v = [] then Some []
      else if py_contains ''://'' v then map_option py_strip (url_hostname v)
      else Some (host_from_value v))"

definition assert_destination_allowed ::
  "settings \<Rightarrow> os_resolver \<Rightarrow> dns_backend \<Rightarrow> net_policy \<Rightarrow> string option \<Rightarrow> string \<Rightarrow> egress_error + unit" where
  "assert_destination_allowed st os backend eff manager_host destination =
     (case extract_dest_host destination of
        None \<Rightarrow> Inl EgressRaised
      | Some host \<Rightarrow>
          if host = [] then Inl EgressNotAuthorized
          else if truthy manager_host \<and> py_lower host = py_lower (py_strip (or_empty manager_host)) then Inr ()
          else if is_control_plane_host host then Inl EgressControlPlane
          else if is_private_policy eff \<and> List.member (np_dns_servers eff) host then Inr ()
          else (case resolve_and_validate st os backend eff host of
                  Inr _ \<Rightarrow> Inr ()
                | Inl e \<Rightarrow>
                    if is_not_allowed e then Inl EgressNotAuthorized
                    else if is_gaierror e then Inl EgressUnresolvable
                    else Inl EgressRaised))"

text \<open>The answer of \<open>is_destination_allowed\<close>; \<open>None\<close> when an exception other than \<open>EgressDenied\<close> escapes.\<close>

definition is_destination_allowed ::
  "settings \<Rightarrow> os_resolver \<Rightarrow> dns_backend \<Rightarrow> net_policy \<Rightarrow> string option \<Rightarrow> string \<Rightarrow> bool option" where
  "is_destination_allowed st os backend eff manager_host destination =
     (case assert_destination_allowed st os backend eff manager_host destination of
        Inr _ \<Rightarrow> Some True
      | Inl EgressRaised \<Rightarrow> None
      | Inl _ \<Rightarrow> Some False)"

definition assert_redirect_allowed ::
  "settings \<Rightarrow> os_resolver \<Rightarrow> dns_backend \<Rightarrow> net_policy \<Rightarrow> string option \<Rightarrow> string \<Rightarrow> string \<Rightarrow> egress_error + unit" where
  "assert_redirect_allowed st os backend eff manager_host original_url redirect_url =
     assert_destination_allowed st os backend eff manager_host redirect_url"

end
