(* ===== verification/Scope_Guard.thy ===== *)
theory Scope_Guard
  imports Net_Guard
begin

text \<open>
  \<open>scanner_engine/scope_guard.py\<close>: which discovered hosts may be actively probed, with the
  resolution cache that one scan opens. The lookup (\<open>net_guard.resolve_hostname\<close> under the scan's
  policy) is a parameter that may answer differently at each call; its first argument is the
  number of lookups made before. The state is the open cache, if any, and the names looked up so
  far. A set of hosts is a list without order.
\<close>

section \<open>The resolution cache\<close>

record res_cache =
  rc_entries :: "(string \<times> string list) list"
  rc_hits :: nat

record scope_state =
  sc_cache :: "res_cache option"
  sc_lookups :: "string list"

type_synonym lookup = "nat \<Rightarrow> string \<Rightarrow> guard_error + string list"

definition UNRESOLVED :: "string list" where "UNRESOLVED = []"

definition resolved_count :: "res_cache \<Rightarrow> nat" where
  "resolved_count c = length (filter (\<lambda>(h, v). v \<noteq> []) (rc_entries c))"

definition unresolvable_count :: "res_cache \<Rightarrow> nat" where
  "unresolvable_count c = length (filter (\<lambda>(h, v). v = []) (rc_entries c))"

definition live_lookup :: "lookup \<Rightarrow> string \<Rightarrow> scope_state \<Rightarrow> (guard_error + string list) \<times> scope_state" where
  "live_lookup live host s =
     (live (length (sc_lookups s)) host, s\<lparr>sc_lookups := sc_lookups s @ [host]\<rparr>)"

definition resolve_cached :: "lookup \<Rightarrow> string \<Rightarrow> scope_state \<Rightarrow> (guard_error + string list) \<times> scope_state" where
  "resolve_cached live host s =
     (case sc_cache s of
        None \<Rightarrow> live_lookup live host s
      | Some c \<Rightarrow>
          (case map_of (rc_entries c) host of
             Some addrs \<Rightarrow> (Inr addrs, s\<lparr>sc_cache := Some (c\<lparr>rc_hits := rc_hits c + 1\<rparr>)\<rparr>)
           | None \<Rightarrow>
               (let (answer, s1) = live_lookup live host s;
                    addrs = (case answer of Inl _ \<Rightarrow> UNRESOLVED | Inr a \<Rightarrow> a)
                in (Inr addrs, s1\<lparr>sc_cache := Some (c\<lparr>rc_entries := rc_entries c @ [(host, addrs)]\<rparr>)\<rparr>))))"

text \<open>\<open>with resolution_cache_scope()\<close>: the body runs with a new cache, and the old one is restored.\<close>

definition resolution_cache_scope :: "(scope_state \<Rightarrow> 'a \<times> scope_state) \<Rightarrow> scope_state \<Rightarrow> 'a \<times> scope_state" where
  "resolution_cache_scope body s =
     (let (r, s1) = body (s\<lparr>sc_cache := Some \<lparr>rc_entries = [], rc_hits = 0\<rparr>\<rparr>)
      in (r, s1\<lparr>sc_cache := sc_cache s\<rparr>))"

section \<open>Hosts\<close>

definition norm_host :: "string option \<Rightarrow> string" where
  "norm_host h = (if truthy h then py_rstrip_char (CHR ''.'') (py_lower (py_strip (or_empty h))) else [])"

definition is_or_under :: "string \<Rightarrow> string \<Rightarrow> bool" where
  "is_or_under host d = (host = d \<or> py_endswith host (CHR ''.'' # d))"

definition host_excluded :: "settings \<Rightarrow> string \<Rightarrow> bool" where
  "host_excluded st host =
     list_ex (\<lambda>entry. let e = norm_host (Some entry) in e \<noteq> [] \<and> is_or_under host e) (st_scope_excludes st)"

definition target_domain :: "string \<Rightarrow> string" where
  "target_domain value = norm_host (Some (host_from_value value))"

definition is_ip :: "string \<Rightarrow> bool" where
  "is_ip value = (parse_ip value \<noteq> None)"

definition ip_host_in_range :: "lookup \<Rightarrow> string \<Rightarrow> string \<Rightarrow> scope_state \<Rightarrow> bool \<times> scope_state" where
  "ip_host_in_range live target_value host s =
     (case parse_net (py_strip target_value) of
        None \<Rightarrow> (False, s)
      | Some net \<Rightarrow>
          (case parse_ip host of
             Some ip \<Rightarrow> (in_net ip net, s)
           | None \<Rightarrow>
               (case resolve_cached live host s of
                  (Inl _, s1) \<Rightarrow> (False, s1)
                | (Inr addrs, s1) \<Rightarrow>
                    (if addrs = [] then False
                     else list_all (\<lambda>a. case parse_ip a of None \<Rightarrow> False | Some ip \<Rightarrow> in_net ip net) addrs, s1))))"

definition hostname_resolves_to :: "lookup \<Rightarrow> string \<Rightarrow> string \<Rightarrow> scope_state \<Rightarrow> bool \<times> scope_state" where
  "hostname_resolves_to live hostname ipv s =
     (if \<not> is_ip ipv then (False, s)
      else (case resolve_cached live hostname s of
              (Inl _, s1) \<Rightarrow> (False, s1)
            | (Inr addrs, s1) \<Rightarrow> (List.member addrs ipv, s1)))"

fun any_resolves_to :: "lookup \<Rightarrow> string list \<Rightarrow> string \<Rightarrow> scope_state \<Rightarrow> bool \<times> scope_state" where
  "any_resolves_to live [] host s = (False, s)"
| "any_resolves_to live (named # rest) host s =
     (case hostname_resolves_to live named host s of
        (True, s1) \<Rightarrow> (True, s1)
      | (False, s1) \<Rightarrow> any_resolves_to live rest host s1)"

definition host_in_scope ::
  "settings \<Rightarrow> lookup \<Rightarrow> string \<Rightarrow> string \<Rightarrow> string option \<Rightarrow> string list \<Rightarrow> scope_state \<Rightarrow> bool \<times> scope_state" where
  "host_in_scope st live target_type target_value host0 extra s =
     (let host = norm_host host0 in
      if host = [] then (False, s)
      else if host_excluded st host then (False, s)
      else if target_type = ''domain'' then
        (let d = target_domain target_value in
         if d = [] then (False, s)
         else if is_or_under host d then (True, s)
         else any_resolves_to live (d # extra) host s)
      else if target_type = ''ip_range'' then ip_host_in_range live target_value host s
      else (False, s))"

section \<open>Findings\<close>

text \<open>What the guard reads of a finding: the host and ip of its metadata, and its value.\<close>

record scope_finding =
  sf_host :: "string option"
  sf_ip :: "string option"
  sf_value :: "string option"

definition extract_host :: "scope_finding \<Rightarrow> string option" where
  "extract_host f =
     (let host = (if truthy (sf_host f) then sf_host f else sf_ip f) in
      if truthy host then host
      else if \<not> truthy (sf_value f) then None
      else (let parsed = host_from_value (or_empty (sf_value f)) in if parsed = [] then None else Some parsed))"

definition finding_in_scope ::
  "settings \<Rightarrow> lookup \<Rightarrow> string \<Rightarrow> string \<Rightarrow> string list \<Rightarrow> scope_finding \<Rightarrow> scope_state \<Rightarrow> bool \<times> scope_state" where
  "finding_in_scope st live target_type target_value extra f s =
     host_in_scope st live target_type target_value (extract_host f) extra s"

fun roots_from ::
  "settings \<Rightarrow> lookup \<Rightarrow> string \<Rightarrow> string \<Rightarrow> string list \<Rightarrow> scope_finding list \<Rightarrow> scope_state
   \<Rightarrow> string list \<times> scope_state" where
  "roots_from st live target_type target_value roots [] s = (roots, s)"
| "roots_from st live target_type target_value roots (f # fs) s =
     (let h = norm_host (extract_host f) in
      if h \<noteq> [] \<and> \<not> is_ip h
      then (case host_in_scope st live target_type target_value (Some h) [] s of
              (ok, s1) \<Rightarrow>
                roots_from st live target_type target_value
                  (if ok \<and> \<not> List.member roots h then roots @ [h] else roots) fs s1)
      else roots_from st live target_type target_value roots fs s)"

definition derived_scope_roots ::
  "settings \<Rightarrow> lookup \<Rightarrow> string \<Rightarrow> string \<Rightarrow> scope_finding list \<Rightarrow> scope_state \<Rightarrow> string list \<times> scope_state" where
  "derived_scope_roots st live target_type target_value findings s =
     (if target_type \<noteq> ''domain'' then ([], s)
      else roots_from st live target_type target_value [] findings s)"

fun partition_from ::
  "settings \<Rightarrow> lookup \<Rightarrow> string \<Rightarrow> string \<Rightarrow> string list \<Rightarrow> scope_finding list \<Rightarrow> scope_state
   \<Rightarrow> (scope_finding list \<times> scope_finding list) \<times> scope_state" where
  "partition_from st live target_type target_value extra [] s = (([], []), s)"
| "partition_from st live target_type target_value extra (f # fs) s =
     (case finding_in_scope st live target_type target_value extra f s of
        (ok, s1) \<Rightarrow>
          (case partition_from st live target_type target_value extra fs s1 of
             ((ins, outs), s2) \<Rightarrow> (if ok then (f # ins, outs) else (ins, f # outs), s2)))"

definition partition_in_scope ::
  "settings \<Rightarrow> lookup \<Rightarrow> string \<Rightarrow> string \<Rightarrow> string list option \<Rightarrow> scope_finding list \<Rightarrow> scope_state
   \<Rightarrow> (scope_finding list \<times> scope_finding list) \<times> scope_state" where
  "partition_in_scope st live target_type target_value extra findings s =
     (case extra of
        Some hosts \<Rightarrow> partition_from st live target_type target_value hosts findings s
      | None \<Rightarrow>
          (case derived_scope_roots st live target_type target_value findings s of
             (roots, s1) \<Rightarrow> partition_from st live target_type target_value roots findings s1))"

section \<open>The pure verdict, and what the cache preserves\<close>

text \<open>What a lookup that always gives the same answers says of a name, failures as no address.\<close>

definition answer :: "lookup \<Rightarrow> string \<Rightarrow> string list" where
  "answer live host = (case live 0 host of Inl _ \<Rightarrow> [] | Inr addrs \<Rightarrow> addrs)"

definition stable :: "lookup \<Rightarrow> bool" where
  "stable live = (\<forall>n host. live n host = live 0 host)"

definition cache_ok :: "lookup \<Rightarrow> scope_state \<Rightarrow> bool" where
  "cache_ok live s =
     (case sc_cache s of None \<Rightarrow> True
      | Some c \<Rightarrow> \<forall>(h, addrs) \<in> set (rc_entries c). addrs = answer live h)"

definition verdict_range :: "lookup \<Rightarrow> string \<Rightarrow> string \<Rightarrow> bool" where
  "verdict_range live target_value host =
     (case parse_net (py_strip target_value) of
        None \<Rightarrow> False
      | Some net \<Rightarrow>
          (case parse_ip host of
             Some ip \<Rightarrow> in_net ip net
           | None \<Rightarrow> answer live host \<noteq> []
               \<and> list_all (\<lambda>a. case parse_ip a of None \<Rightarrow> False | Some ip \<Rightarrow> in_net ip net) (answer live host)))"

definition in_scope :: "settings \<Rightarrow> lookup \<Rightarrow> string \<Rightarrow> string \<Rightarrow> string list \<Rightarrow> string option \<Rightarrow> bool" where
  "in_scope st live target_type target_value extra host0 =
     (let host = norm_host host0; d = target_domain target_value in
      host \<noteq> [] \<and> \<not> host_excluded st host
      \<and> (target_type = ''domain'' \<and> d \<noteq> []
           \<and> (is_or_under host d \<or> is_ip host \<and> list_ex (\<lambda>n. host \<in> set (answer live n)) (d # extra))
         \<or> target_type = ''ip_range'' \<and> verdict_range live target_value host))"

lemma resolve_cached_stable:
  assumes "stable live" and "cache_ok live s" and "resolve_cached live host s = (r, s')"
  shows "(case r of Inl _ \<Rightarrow> [] | Inr a \<Rightarrow> a) = answer live host \<and> cache_ok live s' \<and> (sc_cache s' = None) = (sc_cache s = None)"
proof -
  have l: "live (length (sc_lookups s)) host = live 0 host" using assms(1) unfolding stable_def by blast
  have a: "(case live 0 host of Inl _ \<Rightarrow> [] | Inr a \<Rightarrow> a) = answer live host" by (simp add: answer_def)
  show ?thesis
  proof (cases "sc_cache s")
    case None
    with assms(3) a l show ?thesis by (auto simp: resolve_cached_def live_lookup_def cache_ok_def)
  next
    case (Some c)
    with assms(2) have c: "\<forall>(h, addrs) \<in> set (rc_entries c). addrs = answer live h" by (simp add: cache_ok_def)
    show ?thesis
    proof (cases "map_of (rc_entries c) host")
      case None
      have "(case live 0 host of Inl _ \<Rightarrow> UNRESOLVED | Inr a \<Rightarrow> a) = answer live host"
        using a unfolding UNRESOLVED_def .
      with assms(3) Some None l c show ?thesis
        by (auto simp: resolve_cached_def live_lookup_def cache_ok_def Let_def)
    next
      case (Some addrs)
      with c have "addrs = answer live host" by (auto dest: map_of_SomeD)
      with assms(3) Some \<open>sc_cache s = Some c\<close> c show ?thesis by (auto simp: resolve_cached_def cache_ok_def)
    qed
  qed
qed

lemma hostname_resolves_to_stable:
  assumes "stable live" and "cache_ok live s" and "hostname_resolves_to live h ip s = (b, s')"
  shows "b = (is_ip ip \<and> ip \<in> set (answer live h)) \<and> cache_ok live s'"
proof (cases "is_ip ip")
  case True
  obtain r s1 where r: "resolve_cached live h s = (r, s1)" by fastforce
  from resolve_cached_stable [OF assms(1,2) r] r True assms(3) show ?thesis
    by (auto simp: hostname_resolves_to_def split: sum.splits)
qed (use assms in \<open>auto simp: hostname_resolves_to_def\<close>)

lemma any_resolves_to_stable:
  assumes "stable live" and "cache_ok live s" and "any_resolves_to live hs ip s = (b, s')"
  shows "b = (is_ip ip \<and> list_ex (\<lambda>n. ip \<in> set (answer live n)) hs) \<and> cache_ok live s'"
  using assms(2,3)
proof (induction hs arbitrary: s)
  case (Cons h hs)
  obtain b1 s1 where 1: "hostname_resolves_to live h ip s = (b1, s1)" by fastforce
  note st = hostname_resolves_to_stable [OF assms(1) Cons.prems(1) 1]
  show ?case
  proof (cases b1)
    case True
    with st 1 Cons.prems(2) show ?thesis by auto
  next
    case False
    with 1 Cons.prems(2) have "any_resolves_to live hs ip s1 = (b, s')" by simp
    with Cons.IH st have "b = (is_ip ip \<and> list_ex (\<lambda>n. ip \<in> set (answer live n)) hs) \<and> cache_ok live s'" by blast
    with st False show ?thesis by auto
  qed
qed simp

lemma ip_host_in_range_stable:
  assumes "stable live" and "cache_ok live s" and "ip_host_in_range live t h s = (b, s')"
  shows "b = verdict_range live t h \<and> cache_ok live s'"
proof -
  obtain r s1 where r: "resolve_cached live h s = (r, s1)" by fastforce
  from resolve_cached_stable [OF assms(1,2) r] r assms(2,3) show ?thesis
    by (auto simp: ip_host_in_range_def verdict_range_def split: option.splits sum.splits if_splits)
qed

lemma host_in_scope_stable:
  assumes "stable live" and "cache_ok live s" and "host_in_scope st live tt tv h extra s = (b, s')"
  shows "b = in_scope st live tt tv extra h \<and> cache_ok live s'"
  using assms(2,3) any_resolves_to_stable [OF assms(1,2), of "target_domain tv # extra" "norm_host h" b s']
    ip_host_in_range_stable [OF assms(1,2), of tv "norm_host h" b s']
  by (auto simp: host_in_scope_def in_scope_def Let_def split: if_splits)

lemma partition_from_stable:
  assumes "stable live" and "cache_ok live s" and "partition_from st live tt tv extra fs s = (r, s')"
  shows "r = (filter (\<lambda>f. in_scope st live tt tv extra (extract_host f)) fs,
              filter (\<lambda>f. \<not> in_scope st live tt tv extra (extract_host f)) fs) \<and> cache_ok live s'"
  using assms(2,3)
proof (induction fs arbitrary: s r s')
  case (Cons f fs)
  obtain b s1 where 1: "host_in_scope st live tt tv (extract_host f) extra s = (b, s1)" by fastforce
  note b = host_in_scope_stable [OF assms(1) Cons.prems(1) 1]
  obtain q s2 where 2: "partition_from st live tt tv extra fs s1 = (q, s2)" by fastforce
  from Cons.IH [OF _ 2] b have q: "q = (filter (\<lambda>f. in_scope st live tt tv extra (extract_host f)) fs,
              filter (\<lambda>f. \<not> in_scope st live tt tv extra (extract_host f)) fs)" "cache_ok live s2" by blast+
  from Cons.prems(2) 1 2 b q show ?case by (auto simp: finding_in_scope_def split: if_splits)
qed simp

definition pure_roots :: "settings \<Rightarrow> lookup \<Rightarrow> string \<Rightarrow> scope_finding list \<Rightarrow> string list" where
  "pure_roots st live tv fs =
     filter (\<lambda>h. h \<noteq> [] \<and> \<not> is_ip h \<and> in_scope st live ''domain'' tv [] (Some h))
       (map (\<lambda>f. norm_host (extract_host f)) fs)"

lemma roots_from_stable:
  assumes "stable live" and "cache_ok live s" and "roots_from st live ''domain'' tv roots fs s = (r, s')"
  shows "set r = set roots \<union> set (pure_roots st live tv fs) \<and> cache_ok live s'"
  using assms(2,3)
proof (induction fs arbitrary: s roots)
  case (Cons f fs)
  let ?h = "norm_host (extract_host f)"
  obtain b s1 where 1: "host_in_scope st live ''domain'' tv (Some ?h) [] s = (b, s1)" by fastforce
  note b = host_in_scope_stable [OF assms(1) Cons.prems(1) 1]
  show ?case
  proof (cases "?h \<noteq> [] \<and> \<not> is_ip ?h")
    case True
    with 1 Cons.prems(2) have
      "roots_from st live ''domain'' tv (if b \<and> \<not> List.member roots ?h then roots @ [?h] else roots) fs s1 = (r, s')"
      by (simp add: Let_def)
    with Cons.IH b have r: "set r = set (if b \<and> \<not> List.member roots ?h then roots @ [?h] else roots)
        \<union> set (pure_roots st live tv fs)" "cache_ok live s'" by blast+
    with b True show ?thesis by (auto simp: pure_roots_def split: if_splits)
  next
    case False
    with Cons.prems(2) have "roots_from st live ''domain'' tv roots fs s = (r, s')" by (auto simp: Let_def)
    with Cons.IH Cons.prems(1) False show ?thesis by (auto simp: pure_roots_def)
  qed
qed (simp add: pure_roots_def)

lemma in_scope_cong_extra:
  "set xs = set ys \<Longrightarrow> in_scope st live tt tv xs = in_scope st live tt tv ys"
  by (auto simp: in_scope_def Let_def fun_eq_iff list_ex_iff)

end
