(* ===== verification/Network_Properties.thy ===== *)
theory Network_Properties
  imports Private_Sites Egress_Guard Scope_Guard
begin

text \<open>
  What the network guards promise: no internal address without both keys, private access only
  through a site of the scan's own workspace, every address of a name checked, private names never
  sent to the OS resolver at scan time, the scope gate unchanged by its cache, and routing that
  agrees with the workers' own check. Several theorems state where a gate is weaker than its
  documentation says.
\<close>

section \<open>Addresses that no public scan may reach\<close>

text \<open>The internal ranges as intervals of values, written without the classification of the code.\<close>

definition INTERNAL_V4 :: "(int \<times> int) list" where
  "INTERNAL_V4 =
     [(ip4 0 0 0 0, ip4 0 255 255 255), (ip4 10 0 0 0, ip4 10 255 255 255), (ip4 100 64 0 0, ip4 100 127 255 255),
      (ip4 127 0 0 0, ip4 127 255 255 255), (ip4 169 254 0 0, ip4 169 254 255 255),
      (ip4 172 16 0 0, ip4 172 31 255 255), (ip4 192 168 0 0, ip4 192 168 255 255),
      (ip4 224 0 0 0, ip4 255 255 255 255)]"

definition INTERNAL_V6 :: "(int \<times> int) list" where
  "INTERNAL_V6 =
     [(0, 2 ^ 120 - 1), (0xfc * 2 ^ 120, 0xfe * 2 ^ 120 - 1), (0x3fa * 2 ^ 118, 0x3fb * 2 ^ 118 - 1),
      (0xff * 2 ^ 120, 2 ^ 128 - 1)]"

fun internal_addr :: "ip_addr \<Rightarrow> bool" where
  "internal_addr (V4 a) = list_ex (\<lambda>(lo, hi). lo \<le> a \<and> a \<le> hi) INTERNAL_V4"
| "internal_addr (V6 a s) = list_ex (\<lambda>(lo, hi). lo \<le> a \<and> a \<le> hi) INTERNAL_V6"

lemma in_net4_iff: "2 ^ (32 - p) dvd a \<Longrightarrow> in_net (V4 v) (Net4 a p) \<longleftrightarrow> a \<le> v \<and> v < a + 2 ^ (32 - p)"
  by (simp add: mask_host_iff)

lemma in_net6_iff: "2 ^ (128 - p) dvd a \<Longrightarrow> in_net (V6 v t) (Net6 a s p) \<longleftrightarrow> a \<le> v \<and> v < a + 2 ^ (128 - p)"
  by (simp add: mask_host_iff)

lemma private_forbidden:
  assumes "net \<in> set private_nets" and "in_net (V4 a) net" and "a < ip4 192 0 0 9 \<or> ip4 192 0 0 10 < a"
  shows "forbidden_addr (V4 a)"
proof -
  have "\<not> list_ex (in_net (V4 a)) private_exceptions"
    using assms(3) by (auto simp: private_exceptions_def mask_host_0 ip4_def)
  moreover have "list_ex (in_net (V4 a)) private_nets" using assms(1,2) by (auto simp: list_ex_iff)
  ultimately show ?thesis by (simp add: forbidden_addr_def is_private_addr_def unmap_def)
qed

lemma interval_forbidden:
  assumes "Net4 lo p \<in> set private_nets" and "2 ^ (32 - p) dvd lo" and "lo \<le> a" and "a < lo + 2 ^ (32 - p)"
    and "lo + 2 ^ (32 - p) \<le> ip4 192 0 0 9 \<or> ip4 192 0 0 10 < lo"
  shows "forbidden_addr (V4 a)"
  by (rule private_forbidden [OF assms(1)]) (use assms in \<open>auto simp: mask_host_iff\<close>)

lemma private_net_members:
  "Net4 (ip4 0 0 0 0) 8 \<in> set private_nets" "Net4 (ip4 10 0 0 0) 8 \<in> set private_nets"
  "Net4 (ip4 127 0 0 0) 8 \<in> set private_nets" "Net4 (ip4 169 254 0 0) 16 \<in> set private_nets"
  "Net4 (ip4 172 16 0 0) 12 \<in> set private_nets" "Net4 (ip4 192 168 0 0) 16 \<in> set private_nets"
  "Net4 (ip4 240 0 0 0) 4 \<in> set private_nets"
  by (simp_all add: private_nets_def)

lemma internal_v4_forbidden:
  assumes "internal_addr (V4 a)"
  shows "forbidden_addr (V4 a)"
proof -
  consider "ip4 0 0 0 0 \<le> a" "a \<le> ip4 0 255 255 255" | "ip4 10 0 0 0 \<le> a" "a \<le> ip4 10 255 255 255"
    | "ip4 100 64 0 0 \<le> a" "a \<le> ip4 100 127 255 255" | "ip4 127 0 0 0 \<le> a" "a \<le> ip4 127 255 255 255"
    | "ip4 169 254 0 0 \<le> a" "a \<le> ip4 169 254 255 255" | "ip4 172 16 0 0 \<le> a" "a \<le> ip4 172 31 255 255"
    | "ip4 192 168 0 0 \<le> a" "a \<le> ip4 192 168 255 255"
    | "ip4 224 0 0 0 \<le> a" "a < ip4 240 0 0 0" | "ip4 240 0 0 0 \<le> a" "a \<le> ip4 255 255 255 255"
    using assms unfolding internal_addr.simps INTERNAL_V4_def by (simp add: not_le) (meson not_le)
  then show ?thesis
  proof cases
    case 1
    then show ?thesis by (intro interval_forbidden [OF private_net_members(1)]) (simp_all add: ip4_def)
  next
    case 2
    then show ?thesis by (intro interval_forbidden [OF private_net_members(2)]) (simp_all add: ip4_def)
  next
    case 3
    then have "in_net (V4 a) (Net4 (ip4 100 64 0 0) 10)" by (simp add: mask_host_iff ip4_def)
    then show ?thesis by (simp add: forbidden_addr_def EXTRA_FORBIDDEN_NETS_def)
  next
    case 4
    then show ?thesis by (intro interval_forbidden [OF private_net_members(3)]) (simp_all add: ip4_def)
  next
    case 5
    then show ?thesis by (intro interval_forbidden [OF private_net_members(4)]) (simp_all add: ip4_def)
  next
    case 6
    then show ?thesis by (intro interval_forbidden [OF private_net_members(5)]) (simp_all add: ip4_def)
  next
    case 7
    then show ?thesis by (intro interval_forbidden [OF private_net_members(6)]) (simp_all add: ip4_def)
  next
    case 8
    then have "in_net (V4 a) (Net4 (ip4 224 0 0 0) 4)" by (simp add: mask_host_iff ip4_def)
    then show ?thesis by (simp add: forbidden_addr_def is_multicast_addr_def)
  next
    case 9
    then show ?thesis by (intro interval_forbidden [OF private_net_members(7)]) (simp_all add: ip4_def)
  qed
qed

lemma internal_v6_forbidden: "internal_addr (V6 a s) \<Longrightarrow> forbidden_addr (V6 a s)"
proof -
  assume i: "internal_addr (V6 a s)"
  consider "0 \<le> a" "a < 2 ^ 120" | "0xfc * 2 ^ 120 \<le> a" "a < 0xfe * 2 ^ 120"
    | "0x3fa * 2 ^ 118 \<le> a" "a < 0x3fb * 2 ^ 118" | "0xff * 2 ^ 120 \<le> a" "a < 2 ^ 128"
    using i by (auto simp: INTERNAL_V6_def)
  then show ?thesis
  proof cases
    case 1
    then have "in_net (V6 a s) (Net6 (ip6 0 0 0 0 0) None 8)" by (simp add: in_net6_iff ip6_def del: in_net.simps)
    then show ?thesis by (simp add: forbidden_addr_def is_reserved_addr_def reserved_nets_def)
  next
    case 2
    then have "in_net (V6 a s) (Net6 (ip6 0xfc00 0 0 0 0) None 7)" by (simp add: in_net6_iff ip6_def del: in_net.simps)
    moreover have "\<not> list_ex (in_net (V6 a s)) private_exceptions"
      using 2 by (simp add: private_exceptions_def in_net6_iff ip6_def del: in_net.simps(2))
    moreover have "unmap (V6 a s) = V6 a s" using 2 by (auto simp: unmap_def)
    ultimately have "is_private_addr (V6 a s)" by (simp add: is_private_addr_def private_nets_def)
    then show ?thesis by (simp add: forbidden_addr_def)
  next
    case 3
    then have "in_net (V6 a s) (Net6 (ip6 0xfe80 0 0 0 0) None 10)" by (simp add: in_net6_iff ip6_def del: in_net.simps)
    then show ?thesis by (simp add: forbidden_addr_def is_link_local_addr_def)
  next
    case 4
    then have "in_net (V6 a s) (Net6 (ip6 0xff00 0 0 0 0) None 8)" by (simp add: in_net6_iff ip6_def del: in_net.simps)
    then show ?thesis by (simp add: forbidden_addr_def is_multicast_addr_def)
  qed
qed

lemma internal_forbidden: "internal_addr ip \<Longrightarrow> forbidden_addr ip"
  using internal_v4_forbidden internal_v6_forbidden by (cases ip) blast+

lemma ip_allowed_forbidden:
  "ip_allowed st eff ip \<Longrightarrow> forbidden_addr ip \<Longrightarrow>
    st_allow_private st \<and> (in_allowed_cidrs st ip \<or> explicitly_allowed_host st ip) \<and> allows_private_ip eff ip"
  by (auto simp: ip_allowed_def split: if_splits)

section \<open>The two keys\<close>

text \<open>
  C2: An address in any textual form (an IPv4-mapped IPv6 form included) that is loopback, RFC 1918,
  CGNAT, link-local, unique local, multicast, unspecified or reserved is allowed only with both
  keys: the deployment enables private targets and lists a network with the address, and the scan's
  policy is a private one that authorizes the address.
\<close>
theorem internal_needs_both_keys:
  assumes al: "is_ip_allowed st eff value" and ip: "to_ip value = Some ip" and i: "internal_addr ip"
  shows "st_allow_private st
    \<and> (\<exists>c \<in> set (st_allowed_cidrs st). \<exists>net. parse_net (py_strip c) = Some net \<and> (in_net ip net \<or> ip = network_address net))
    \<and> is_private_policy eff \<and> (\<exists>net \<in> set (np_authorized_cidrs eff). in_net ip net)"
proof -
  from ip_allowed_forbidden [OF _ internal_forbidden [OF i]] al ip have
    k: "st_allow_private st" "in_allowed_cidrs st ip \<or> explicitly_allowed_host st ip" "allows_private_ip eff ip"
    by (auto simp: is_ip_allowed_def)
  from k(2) obtain net where n: "net \<in> set (allowed_networks st)" "in_net ip net \<or> ip = network_address net"
    by (auto simp: in_allowed_cidrs_def explicitly_allowed_host_def list_ex_iff)
  then obtain c where "c \<in> set (st_allowed_cidrs st)" "parse_net (py_strip c) = Some net"
    by (auto simp: allowed_networks_def List.map_filter_def)
  with k n show ?thesis by (auto simp: allows_private_ip_def list_ex_iff split: if_splits)
qed

definition ex_settings :: settings where
  "ex_settings = \<lparr>st_allow_private = True, st_allowed_cidrs = [''10.0.0.0/8''], st_scope_excludes = []\<rparr>"

definition ex_site :: private_site where
  "ex_site = \<lparr>ps_id = 30, ps_workspace_id = 3, ps_name = ''hq'', ps_authorized_cidrs = ['' 10.1.0.0/16'', ''x''],
     ps_dns_servers = [''10.1.0.53''], ps_scanner_pool_id = Some ''hq-pool'', ps_status = ''active'', ps_created_at = 5\<rparr>"

definition the_policy :: "site_refusal + net_policy \<Rightarrow> net_policy" where
  "the_policy r = (case r of Inr p \<Rightarrow> p | Inl _ \<Rightarrow> PUBLIC_ONLY)"

lemma the_policy_eq: "is_ok r \<Longrightarrow> r = Inr (the_policy r)"
  by (auto simp: the_policy_def is_ok_iff)

definition ex_policy :: net_policy where
  "ex_policy = the_policy (build_scan_network_policy [ex_site] 3 (Some 40) ''private'' (Some 30) None None)"

lemma ex_policy_ok:
  "build_scan_network_policy [ex_site] 3 (Some 40) ''private'' (Some 30) None None = Inr ex_policy"
  unfolding ex_policy_def by (rule the_policy_eq) code_simp

theorem internal_needs_both_keys_witness:
  "st_allow_private ex_settings \<and> is_private_policy ex_policy"
proof -
  have a: "is_ip_allowed ex_settings ex_policy ''::ffff:10.1.2.3''" by code_simp
  have "to_ip ''::ffff:10.1.2.3'' = Some (V4 (ip4 10 1 2 3))" by code_simp
  from internal_needs_both_keys [OF a this] show ?thesis by (simp add: INTERNAL_V4_def ip4_def)
qed

lemma parse_cidrs_from_in:
  "net \<in> set (parse_cidrs_from nets cs) \<Longrightarrow>
    net \<in> set nets \<or> (\<exists>c \<in> set cs. parse_net (py_strip c) = Some net)"
proof (induction cs arbitrary: nets)
  case (Cons c cs)
  show ?case
  proof (cases "py_strip c = [] \<or> parse_net (py_strip c) = None")
    case True
    with Cons.prems have "net \<in> set (parse_cidrs_from nets cs)" by (auto simp: Let_def split: option.splits)
    with Cons.IH show ?thesis by fastforce
  next
    case False
    then obtain n where "parse_net (py_strip c) = Some n" by blast
    with False Cons.prems have "net \<in> set (parse_cidrs_from (if List.member nets n then nets else nets @ [n]) cs)"
      by (simp add: Let_def split: if_splits)
    with Cons.IH [of "if List.member nets n then nets else nets @ [n]"] \<open>parse_net (py_strip c) = Some n\<close>
    show ?thesis by (auto split: if_splits)
  qed
qed simp

lemma parse_cidrs_in: "net \<in> set (parse_cidrs cs) \<Longrightarrow> \<exists>c \<in> set cs. parse_net (py_strip c) = Some net"
  using parse_cidrs_from_in [of net "[]"] by (simp add: parse_cidrs_def)

lemma build_policyE:
  assumes "build_scan_network_policy sites ws scan zone site_id worker pool = Inr p" and "is_private_policy p"
  obtains s where "s \<in> set sites" "site_id = Some (ps_id s)" "zone = ''private''" "ps_workspace_id s = ws"
    "ps_status s = ''active''" "np_authorized_cidrs p = parse_cidrs (ps_authorized_cidrs s)"
    "np_authorized_cidrs p \<noteq> []"
    "np_dns_servers p = filter (\<lambda>d. d \<noteq> []) (map py_strip (ps_dns_servers s))"
  using assms
  by (fastforce simp: build_scan_network_policy_def build_public_policy_def PUBLIC_ONLY_def is_private_policy_def
      get_site_for_workspace_def assert_site_scannable_def SCANNABLE_SITE_STATUSES_def authorized_networks_def
      build_private_policy_def Let_def res_bind_Inr_iff split: if_splits option.splits dest!: find_row_Some)

text \<open>
  C14: Tenant isolation. If a scan of a workspace may reach an internal address under the policy that
  was derived for it, then an active private site of that same workspace lists a network that
  contains the address, and the scan names that site.
\<close>
theorem private_access_from_own_site:
  assumes b: "build_scan_network_policy sites ws scan zone site_id worker pool = Inr p"
    and al: "is_ip_allowed st p value" and ip: "to_ip value = Some ip" and i: "internal_addr ip"
  shows "\<exists>s \<in> set sites. ps_workspace_id s = ws \<and> ps_status s = ''active'' \<and> site_id = Some (ps_id s)
    \<and> (\<exists>c \<in> set (ps_authorized_cidrs s). \<exists>net. parse_net (py_strip c) = Some net \<and> in_net ip net)"
proof -
  from ip_allowed_forbidden [OF _ internal_forbidden [OF i]] al ip have "allows_private_ip p ip"
    by (auto simp: is_ip_allowed_def)
  then have pr: "is_private_policy p" and "\<exists>net \<in> set (np_authorized_cidrs p). in_net ip net"
    by (auto simp: allows_private_ip_def list_ex_iff split: if_splits)
  then obtain net where n: "net \<in> set (np_authorized_cidrs p)" "in_net ip net" by blast
  from build_policyE [OF b pr] obtain s where s: "s \<in> set sites" "site_id = Some (ps_id s)"
    "ps_workspace_id s = ws" "ps_status s = ''active''" "np_authorized_cidrs p = parse_cidrs (ps_authorized_cidrs s)"
    by metis
  with n parse_cidrs_in show ?thesis by metis
qed

theorem private_access_from_own_site_witness:
  "\<exists>s \<in> set [ex_site]. ps_workspace_id s = 3 \<and> ps_status s = ''active'' \<and> Some 30 = Some (ps_id s)
    \<and> (\<exists>c \<in> set (ps_authorized_cidrs s). \<exists>net. parse_net (py_strip c) = Some net \<and> in_net (V4 (ip4 10 1 2 3)) net)"
proof -
  have a: "is_ip_allowed ex_settings ex_policy ''::ffff:10.1.2.3''" by code_simp
  have t: "to_ip ''::ffff:10.1.2.3'' = Some (V4 (ip4 10 1 2 3))" by code_simp
  have i: "internal_addr (V4 (ip4 10 1 2 3))" by (simp add: INTERNAL_V4_def ip4_def)
  show ?thesis by (rule private_access_from_own_site [OF ex_policy_ok a t i])
qed

section \<open>Names and ranges\<close>

lemma assert_all_ok: "assert_all f xs = Inr () \<longleftrightarrow> (\<forall>x \<in> set xs. f x = Inr ())"
  by (induction xs) (auto simp: res_bind_Inr_iff)

lemma assert_ip_allowed_ok: "assert_ip_allowed st eff a = Inr () \<longleftrightarrow> is_ip_allowed st eff a"
  by (simp add: assert_ip_allowed_def)

lemma assert_edge_allowed_ok: "assert_edge_allowed st eff e = Inr () \<longleftrightarrow> ip_allowed st eff (unmap e)"
  by (simp add: assert_edge_allowed_def)

lemma site_round_in:
  "site_round backend k host rs = Some addrs \<Longrightarrow>
    addrs \<noteq> [] \<and> (\<exists>r \<in> set rs. \<exists>answer. backend k host r = Some answer \<and> addrs = filter (\<lambda>a. a \<noteq> []) answer)"
  by (induction rs) (auto simp: Let_def split: option.splits if_splits)

lemma site_attempts_in:
  "site_attempts backend host rs ks = Inr addrs \<Longrightarrow>
    addrs \<noteq> [] \<and> (\<exists>k \<in> set ks. \<exists>r \<in> set rs. \<exists>answer.
      backend k host r = Some answer \<and> addrs = filter (\<lambda>a. a \<noteq> []) answer)"
  by (induction ks) (auto split: option.splits dest!: site_round_in)

text \<open>
  C29: A name that passes the scan-time gate was resolved, every one of its addresses is allowed, and
  the tool gets one of them. For a private scan every address came from a resolver of its site
  within the allowed attempts, and the OS resolver has no influence on the outcome.
\<close>
theorem names_checked_at_scan_time:
  assumes "parse_net host = None" and "resolve_and_validate st os backend eff host = Inr a"
  shows "(\<exists>addrs. resolve_hostname os backend RESOLVE_ATTEMPTS eff (host_from_value host) = Inr addrs
      \<and> a \<in> set addrs \<and> list_all (is_ip_allowed st eff) addrs)
    \<and> (if is_private_policy eff
       then (\<exists>k < RESOLVE_ATTEMPTS. \<exists>r \<in> set (np_dns_servers eff). \<exists>answer.
               backend k (host_from_value host) r = Some answer \<and> a \<in> set answer)
            \<and> (\<forall>os'. resolve_and_validate st os' backend eff host = Inr a)
       else True)"
proof -
  from assms obtain addrs where r: "resolve_hostname os backend RESOLVE_ATTEMPTS eff (host_from_value host) = Inr addrs"
    and n: "addrs \<noteq> []" and al: "\<forall>x \<in> set addrs. is_ip_allowed st eff x" and a: "a = hd addrs"
    by (auto simp: resolve_and_validate_def res_bind_Inr_iff assert_all_ok assert_ip_allowed_ok split: if_splits)
  then have 1: "\<exists>addrs. resolve_hostname os backend RESOLVE_ATTEMPTS eff (host_from_value host) = Inr addrs
      \<and> a \<in> set addrs \<and> list_all (is_ip_allowed st eff) addrs"
    by (auto simp: list_all_iff)
  have 2: "\<exists>k < RESOLVE_ATTEMPTS. \<exists>r \<in> set (np_dns_servers eff). \<exists>answer.
               backend k (host_from_value host) r = Some answer \<and> a \<in> set answer" if "is_private_policy eff"
  proof -
    from that r have "site_attempts backend (host_from_value host) (np_dns_servers eff) [0..<RESOLVE_ATTEMPTS] = Inr addrs"
      by (simp add: resolve_hostname_def resolve_via_site_dns_def RESOLVE_ATTEMPTS_def split: if_splits)
    from site_attempts_in [OF this] obtain k r answer where "k < RESOLVE_ATTEMPTS" "r \<in> set (np_dns_servers eff)"
      "backend k (host_from_value host) r = Some answer" "addrs = filter (\<lambda>a. a \<noteq> []) answer" by auto
    moreover from this n a have "a \<in> set answer" using hd_in_set [of addrs] by simp
    ultimately show ?thesis by blast
  qed
  have 3: "resolve_and_validate st os' backend eff host = Inr a" if "is_private_policy eff" for os'
    using that assms by (simp add: resolve_and_validate_def resolve_hostname_def)
  show ?thesis using 1 2 3 by simp
qed

definition ex_backend :: dns_backend where
  "ex_backend k host r = (if host = ''db.corp'' \<and> k = 0 then Some [''10.1.2.3''] else None)"

theorem names_checked_at_scan_time_witness:
  "(\<forall>os'. resolve_and_validate ex_settings os' ex_backend ex_policy ''https://db.corp:8443/x'' = Inr ''10.1.2.3'')"
proof -
  have p: "parse_net ''https://db.corp:8443/x'' = None" by code_simp
  have r: "resolve_and_validate ex_settings (\<lambda>k h. GaiError) ex_backend ex_policy ''https://db.corp:8443/x''
      = Inr ''10.1.2.3''" by code_simp
  have "is_private_policy ex_policy" by code_simp
  with names_checked_at_scan_time [OF p r] show ?thesis by simp
qed

text \<open>
  A range whose first address is internal passes the scan-time gate only if the whole range lies
  in networks that the scan is authorized for: every address of it is authorized by the policy.
\<close>
theorem private_ranges_contained:
  assumes b: "build_scan_network_policy sites ws scan zone site_id worker pool = Inr p"
    and n: "parse_net host = Some net" and r: "resolve_and_validate st os backend p host = Inr host'"
    and i: "is_private_addr (unmap (network_address net)) \<or> in_net (unmap (network_address net)) (Net4 (ip4 100 64 0 0) 10)"
    and ip: "in_net ip net"
  shows "allows_private_ip p ip \<and> host' = host"
proof -
  let ?e = "unmap (network_address net)"
  from r n have e: "ip_allowed st p ?e" and w: "assert_network_within_policy p net = Inr ()" and h: "host' = host"
    by (auto simp: resolve_and_validate_def res_bind_Inr_iff assert_edge_allowed_ok)
  have "forbidden_addr ?e" using i in_net_version by (fastforce simp: forbidden_addr_def EXTRA_FORBIDDEN_NETS_def)
  with ip_allowed_forbidden [OF e] have "allows_private_ip p ?e" by blast
  then have pr: "is_private_policy p" by (simp add: allows_private_ip_def split: if_splits)
  from w i in_net_version obtain a where a: "a \<in> set (np_authorized_cidrs p)" "net_version net = net_version a" "subnet_of net a"
    by (fastforce simp: assert_network_within_policy_def Let_def list_ex_iff EXTRA_FORBIDDEN_NETS_def split: if_splits)
  have "wf_net a"
    using build_policyE [OF b pr] a(1) parse_cidrs_in wf_parse_net by metis
  with subnet_of_member [OF wf_parse_net [OF n] _ a(2,3) ip] have "in_net ip a" by blast
  with a(1) pr h show ?thesis using in_net_version by (auto simp: allows_private_ip_def list_ex_iff)
qed

theorem private_ranges_contained_witness:
  "allows_private_ip ex_policy (V4 (ip4 10 1 7 9)) \<and> ''10.1.7.0/24'' = ''10.1.7.0/24''"
proof -
  have n: "parse_net ''10.1.7.0/24'' = Some (Net4 (ip4 10 1 7 0) 24)" by code_simp
  have r: "resolve_and_validate ex_settings (\<lambda>k h. GaiError) ex_backend ex_policy ''10.1.7.0/24'' = Inr ''10.1.7.0/24''"
    by code_simp
  have i: "is_private_addr (unmap (network_address (Net4 (ip4 10 1 7 0) 24)))" by code_simp
  have ip: "in_net (V4 (ip4 10 1 7 9)) (Net4 (ip4 10 1 7 0) 24)" by code_simp
  show ?thesis by (rule private_ranges_contained [OF ex_policy_ok n r disjI1 [OF i] ip])
qed

section \<open>Where the gates are weaker than documented\<close>

text \<open>
  A range with public edges passes both gates whatever lies inside it. With no private
  authorization at all, the target \<open>169.0.0.0/8\<close> is accepted at creation and at scan time and handed
  unchanged to the tool that expands it, although it contains the metadata address
  \<open>169.254.169.254\<close>, which is refused on its own. Only the two edges are checked.
\<close>
theorem public_edges_hide_internal_addresses:
  "parse_net ''169.0.0.0/8'' = Some (Net4 (ip4 169 0 0 0) 8)
   \<and> in_net (V4 (ip4 169 254 169 254)) (Net4 (ip4 169 0 0 0) 8)
   \<and> \<not> is_ip_allowed st PUBLIC_ONLY ''169.254.169.254''
   \<and> validate_target_value st os backend None None ''ip_range'' ''169.0.0.0/8'' = Inr ()
   \<and> resolve_and_validate st os backend PUBLIC_ONLY ''169.0.0.0/8'' = Inr ''169.0.0.0/8''"
proof -
  have n: "parse_net ''169.0.0.0/8'' = Some (Net4 (ip4 169 0 0 0) 8)" by code_simp
  have i: "in_net (V4 (ip4 169 254 169 254)) (Net4 (ip4 169 0 0 0) 8)" by code_simp
  have m: "to_ip ''169.254.169.254'' = Some (V4 (ip4 169 254 169 254))" "List.member METADATA_IPS (V4 (ip4 169 254 169 254))"
    by code_simp+
  have "\<not> allows_private_ip PUBLIC_ONLY ip" for ip by (simp add: allows_private_ip_def is_private_policy_def PUBLIC_ONLY_def)
  with m have na: "\<not> is_ip_allowed st PUBLIC_ONLY ''169.254.169.254''" by (simp add: is_ip_allowed_def ip_allowed_def)
  have e: "\<not> List.member METADATA_IPS (V4 (ip4 169 0 0 0))" "\<not> forbidden_addr (V4 (ip4 169 0 0 0))"
    "\<not> List.member METADATA_IPS (V4 (ip4 169 255 255 255))" "\<not> forbidden_addr (V4 (ip4 169 255 255 255))" by code_simp+
  then have a: "ip_allowed st eff (V4 (ip4 169 0 0 0))" "ip_allowed st eff (V4 (ip4 169 255 255 255))" for eff
    by (simp_all add: ip_allowed_def)
  have b: "broadcast_address (Net4 (ip4 169 0 0 0) 8) = V4 (ip4 169 255 255 255)" by code_simp
  have w: "assert_network_within_policy eff (Net4 (ip4 169 0 0 0) 8) = Inr ()" for eff
  proof -
    have "\<not> is_private_addr (V4 (ip4 169 0 0 0))" "\<not> is_loopback_addr (V4 (ip4 169 0 0 0))"
      "\<not> is_link_local_addr (V4 (ip4 169 0 0 0))" "\<not> is_reserved_addr (V4 (ip4 169 0 0 0))"
      "\<not> list_ex (\<lambda>n. ip_version (V4 (ip4 169 0 0 0)) = net_version n \<and> in_net (V4 (ip4 169 0 0 0)) n) EXTRA_FORBIDDEN_NETS"
      using e(2) unfolding forbidden_addr_def by blast+
    then show ?thesis by (simp add: assert_network_within_policy_def unmap_def)
  qed
  have r: "resolve_and_validate st os backend PUBLIC_ONLY ''169.0.0.0/8'' = Inr ''169.0.0.0/8''"
    unfolding resolve_and_validate_def n using a w by (simp add: assert_edge_allowed_def unmap_def b del: broadcast_address.simps)
  have h: "host_from_value ''169.0.0.0/8'' = ''169.0.0.0''" "parse_net ''169.0.0.0'' = Some (Net4 (ip4 169 0 0 0) 32)"
    by code_simp+
  have "broadcast_address (Net4 (ip4 169 0 0 0) 32) = V4 (ip4 169 0 0 0)" by code_simp
  with a h have "validate_target_value st os backend None None ''ip_range'' ''169.0.0.0/8'' = Inr ()"
    by (simp add: validate_target_value_def Let_def assert_edge_allowed_def unmap_def del: broadcast_address.simps)
  with n i na r show ?thesis by blast
qed

text \<open>
  Target creation resolves a private site's host name through the OS resolver: the outcome for a
  private target depends on its answer, although the comment in \<open>create_target\<close> says that a private
  name is deliberately not resolved there. The scan-time gate has no such dependence.
\<close>
theorem creation_resolves_private_names_publicly:
  "is_private_policy ex_policy
   \<and> create_target_context ex_settings (\<lambda>k h. GaiError) ex_backend [ex_site] 3 ''domain'' ''db.corp'' (Some 30)
       = Inr (''private'', Some 30)
   \<and> create_target_context ex_settings (\<lambda>k h. Addresses [''127.0.0.1'']) ex_backend [ex_site] 3 ''domain'' ''db.corp'' (Some 30)
       = Inl (AddressRefused BlockedBySsrf)
   \<and> resolve_and_validate ex_settings (\<lambda>k h. Addresses [''127.0.0.1'']) ex_backend ex_policy ''db.corp'' = Inr ''10.1.2.3''"
  by (intro conjI; code_simp)

definition ex_split_site :: private_site where
  "ex_split_site = ex_site\<lparr>ps_authorized_cidrs := [''10.1.0.0/24'', ''10.1.255.0/24'']\<rparr>"

definition ex_split_policy :: net_policy where
  "ex_split_policy = the_policy (build_scan_network_policy [ex_split_site] 3 (Some 40) ''private'' (Some 30) None None)"

text \<open>
  The edge check of target creation accepts a range whose two edges lie in two different
  authorized networks, so a target can be created that the scan-time gate then refuses; the comment
  says that a range that merely straddles an authorized network is refused.
\<close>
theorem creation_accepts_straddling_range:
  "create_target_context ex_settings os ex_backend [ex_split_site] 3 ''ip_range'' ''10.1.0.0/16'' (Some 30)
     = Inr (''private'', Some 30)
   \<and> build_scan_network_policy [ex_split_site] 3 (Some 40) ''private'' (Some 30) None None = Inr ex_split_policy
   \<and> resolve_and_validate ex_settings os ex_backend ex_split_policy ''10.1.0.0/16'' = Inl RangeNotContained"
proof (intro conjI)
  have "is_ok (build_scan_network_policy [ex_split_site] 3 (Some 40) ''private'' (Some 30) None None)" by code_simp
  then show "build_scan_network_policy [ex_split_site] 3 (Some 40) ''private'' (Some 30) None None = Inr ex_split_policy"
    unfolding ex_split_policy_def by (rule the_policy_eq)
qed code_simp+

section \<open>Egress\<close>

lemma assert_edge_refused:
  assumes "\<not> ip_allowed st eff (unmap e)"
  obtains err where "assert_edge_allowed st eff e = Inl err" "is_not_allowed err"
  using assms that [of NotAuthorizedForScan] that [of BlockedBySsrf]
  by (cases "globally_permitted st (Some (unmap e))") (simp_all add: assert_edge_allowed_def is_not_allowed_def)

text \<open>
  A destination is permitted exactly when a host can be read from it and that host is the manager,
  or is no control-plane name and is a resolver of the private scan's site or passes the scan-time
  gate. A redirect gets the same decision as a first request, whatever it came from.
\<close>
theorem egress_decision:
  "(assert_destination_allowed st os backend eff manager d = Inr ()) =
     (\<exists>host. extract_dest_host d = Some host \<and> host \<noteq> []
        \<and> (truthy manager \<and> py_lower host = py_lower (py_strip (or_empty manager))
           \<or> \<not> is_control_plane_host host
             \<and> (is_private_policy eff \<and> host \<in> set (np_dns_servers eff)
                \<or> is_ok (resolve_and_validate st os backend eff host))))
   \<and> assert_redirect_allowed st os backend eff manager origin d = assert_destination_allowed st os backend eff manager d"
  by (auto simp: assert_destination_allowed_def assert_redirect_allowed_def is_ok_iff
      split: option.splits if_splits sum.splits)

text \<open>
  A public scan never connects to an internal address by number, be it the destination itself or
  where a redirect leads: unless it is the manager's own configured host, it is denied.
\<close>
theorem public_scan_never_dials_internal:
  assumes pub: "\<not> is_private_policy eff" and h: "extract_dest_host d = Some host" and ip: "parse_ip host = Some ip"
    and i: "internal_addr (unmap ip)" and m: "\<not> truthy manager"
  shows "assert_redirect_allowed st os backend eff manager origin d \<in> {Inl EgressNotAuthorized, Inl EgressControlPlane}"
proof -
  from parse_ip_net [OF ip] obtain net where n: "parse_net host = Some net" "network_address net = ip" by blast
  have na: "\<not> ip_allowed st eff (unmap ip)"
  proof
    assume "ip_allowed st eff (unmap ip)"
    from ip_allowed_forbidden [OF this internal_forbidden [OF i]] pub show False by (simp add: allows_private_ip_def)
  qed
  obtain e where "assert_edge_allowed st eff ip = Inl e" and e: "is_not_allowed e"
    using assert_edge_refused [OF na] by blast
  with n have r: "resolve_and_validate st os backend eff host = Inl e" by (simp add: resolve_and_validate_def)
  show ?thesis
    using h m pub r e by (simp add: assert_redirect_allowed_def assert_destination_allowed_def)
qed

theorem public_scan_never_dials_internal_witness:
  "assert_redirect_allowed ex_settings (\<lambda>k h. GaiError) ex_backend PUBLIC_ONLY None ''https://example.com/''
     ''http://user@[::ffff:10.0.0.5]:8080/x'' \<in> {Inl EgressNotAuthorized, Inl EgressControlPlane}"
proof -
  have 1: "\<not> is_private_policy PUBLIC_ONLY" by code_simp
  have 2: "extract_dest_host ''http://user@[::ffff:10.0.0.5]:8080/x'' = Some ''::ffff:10.0.0.5''" by code_simp
  have 3: "parse_ip ''::ffff:10.0.0.5'' = Some (V6 281470849515525 None)" by code_simp
  have 4: "internal_addr (unmap (V6 281470849515525 None))" by code_simp
  show ?thesis by (rule public_scan_never_dials_internal [OF 1 2 3 4]) simp
qed

section \<open>Scope\<close>

lemma partition_in_scope_stable:
  assumes "stable live" and "cache_ok live s"
  shows "fst (partition_in_scope st live tt tv extra fs s) =
    (let xs = (case extra of Some hosts \<Rightarrow> hosts | None \<Rightarrow> if tt = ''domain'' then pure_roots st live tv fs else []);
         ok = (\<lambda>f. in_scope st live tt tv xs (extract_host f))
     in (filter ok fs, filter (\<lambda>f. \<not> ok f) fs))"
proof (cases extra)
  case (Some hosts)
  obtain r s' where "partition_from st live tt tv hosts fs s = (r, s')" by fastforce
  with partition_from_stable [OF assms this] Some show ?thesis by (simp add: partition_in_scope_def)
next
  case None
  show ?thesis
  proof (cases "tt = ''domain''")
    case True
    obtain roots s1 where 1: "roots_from st live ''domain'' tv [] fs s = (roots, s1)" by fastforce
    with roots_from_stable [OF assms 1] have r: "set roots = set (pure_roots st live tv fs)" "cache_ok live s1" by simp_all
    obtain r s' where 2: "partition_from st live ''domain'' tv roots fs s1 = (r, s')" by fastforce
    from partition_from_stable [OF assms(1) r(2) 2] 1 2 True None show ?thesis
      by (simp add: partition_in_scope_def derived_scope_roots_def in_scope_cong_extra [OF r(1)] Let_def)
  next
    case False
    obtain r s' where 2: "partition_from st live tt tv [] fs s = (r, s')" by fastforce
    with partition_from_stable [OF assms 2] False None show ?thesis
      by (simp add: partition_in_scope_def derived_scope_roots_def)
  qed
qed

text \<open>
  The resolution cache changes no verdict. While the resolver's answers do not change, the
  partition of any findings is the same with any cache that was filled from those answers as with no
  cache at all, and it is the order-preserving split by the pure scope rule.
\<close>
theorem cache_changes_no_verdict:
  assumes st: "stable live" and ok: "cache_ok live s"
  shows "fst (partition_in_scope st live tt tv extra fs s) = fst (partition_in_scope st live tt tv extra fs (s\<lparr>sc_cache := None\<rparr>))
    \<and> (case fst (partition_in_scope st live tt tv extra fs s) of (ins, outs) \<Rightarrow>
         \<exists>keep. ins = filter keep fs \<and> outs = filter (\<lambda>f. \<not> keep f) fs)"
proof -
  have none: "cache_ok live (s\<lparr>sc_cache := None\<rparr>)" by (simp add: cache_ok_def)
  show ?thesis
    unfolding partition_in_scope_stable [OF st ok] partition_in_scope_stable [OF st none] by (auto simp: Let_def)
qed

definition ex_live :: lookup where
  "ex_live n host = (if host = ''www.acme.org'' then Inr [''93.184.216.34''] else Inl Unresolvable)"

definition ex_findings :: "scope_finding list" where
  "ex_findings =
     [\<lparr>sf_host = Some ''WWW.acme.org.'', sf_ip = None, sf_value = None\<rparr>,
      \<lparr>sf_host = None, sf_ip = Some ''93.184.216.34'', sf_value = None\<rparr>,
      \<lparr>sf_host = None, sf_ip = None, sf_value = Some ''https://evilacme.org/''\<rparr>]"

definition ex_scope_state :: scope_state where
  "ex_scope_state = \<lparr>sc_cache = Some \<lparr>rc_entries = [(''acme.org'', [])], rc_hits = 0\<rparr>, sc_lookups = [''acme.org'']\<rparr>"

lemma ex_live_stable: "stable ex_live"
  by (simp add: stable_def ex_live_def)

lemma ex_scope_cache_ok: "cache_ok ex_live ex_scope_state"
  by (simp add: cache_ok_def ex_scope_state_def answer_def ex_live_def)

theorem cache_changes_no_verdict_witness:
  "fst (partition_in_scope ex_settings ex_live ''domain'' ''https://acme.org/'' None ex_findings ex_scope_state)
     = fst (partition_in_scope ex_settings ex_live ''domain'' ''https://acme.org/'' None ex_findings
             (ex_scope_state\<lparr>sc_cache := None\<rparr>))"
  using cache_changes_no_verdict [OF ex_live_stable ex_scope_cache_ok,
      of ex_settings "''domain''" "''https://acme.org/''" None ex_findings] by blast

text \<open>
  A finding is let through for active probing only if its host is the authorized domain or a name
  under it, or a number that the domain or a name under it that was found in the same batch resolves
  to; and never if the host, or a parent of it, is on the exclude list.
\<close>
theorem probed_hosts_are_authorized:
  assumes st: "stable live" and ok: "cache_ok live s"
    and f: "f \<in> set (fst (fst (partition_in_scope st live ''domain'' tv None fs s)))"
  shows "(let host = norm_host (extract_host f); d = target_domain tv in
      host \<noteq> [] \<and> \<not> host_excluded st host
      \<and> (is_or_under host d
         \<or> is_ip host \<and> (\<exists>named. host \<in> set (answer live named)
              \<and> (named = d \<or> (\<exists>g \<in> set fs. named = norm_host (extract_host g)) \<and> \<not> is_ip named
                     \<and> in_scope st live ''domain'' tv [] (Some named)))))"
proof -
  from f have "in_scope st live ''domain'' tv (pure_roots st live tv fs) (extract_host f)"
    unfolding partition_in_scope_stable [OF st ok] by (simp add: Let_def)
  then show ?thesis
    unfolding in_scope_def [of st live "''domain''" tv "pure_roots st live tv fs"] Let_def
    by (auto simp: list_ex_iff pure_roots_def)
qed

theorem probed_hosts_are_authorized_witness:
  "(let host = norm_host (extract_host (ex_findings ! 1)); d = target_domain ''https://acme.org/'' in
      host \<noteq> [] \<and> \<not> host_excluded ex_settings host
      \<and> (is_or_under host d
         \<or> is_ip host \<and> (\<exists>named. host \<in> set (answer ex_live named)
              \<and> (named = d \<or> (\<exists>g \<in> set ex_findings. named = norm_host (extract_host g)) \<and> \<not> is_ip named
                     \<and> in_scope ex_settings ex_live ''domain'' ''https://acme.org/'' [] (Some named)))))"
proof -
  have "ex_findings ! 1
      \<in> set (fst (fst (partition_in_scope ex_settings ex_live ''domain'' ''https://acme.org/'' None ex_findings ex_scope_state)))"
    by code_simp
  from probed_hosts_are_authorized [OF ex_live_stable ex_scope_cache_ok this] show ?thesis .
qed

text \<open>A property that a lookup cannot break holds of the state after the whole partition.\<close>

lemma scope_keeps:
  assumes K: "\<And>h s. P s \<Longrightarrow> P (snd (resolve_cached live h s))" and P: "P s"
  shows "P (snd (partition_in_scope st live tt tv extra fs s))"
proof -
  have r: "resolve_cached live h s = (x, s') \<Longrightarrow> P s \<Longrightarrow> P s'" for h s x s' using K by (metis snd_conv)
  have h: "P (snd (hostname_resolves_to live n i s))" if "P s" for n i s
    using that r by (auto simp: hostname_resolves_to_def split: prod.split sum.split)
  have a: "P (snd (any_resolves_to live ns i s))" if "P s" for ns i s
    using that
  proof (induction ns arbitrary: s)
    case (Cons n ns)
    obtain b s1 where 1: "hostname_resolves_to live n i s = (b, s1)" by fastforce
    with h [OF Cons.prems] have "P s1" by (metis snd_conv)
    with Cons.IH 1 show ?case by (cases b) auto
  qed simp
  have g: "P (snd (ip_host_in_range live t i s))" if "P s" for t i s
    using that r by (auto simp: ip_host_in_range_def split: prod.split sum.split option.split)
  have i: "P (snd (host_in_scope st live tt tv x e s))" if "P s" for tt x e s
    using that a [OF that] g [OF that] by (simp add: host_in_scope_def Let_def del: any_resolves_to.simps)
  have f: "P (snd (partition_from st live tt tv e fs s))" if "P s" for e fs s
    using that
  proof (induction fs arbitrary: s)
    case (Cons f fs)
    obtain b s1 where 1: "host_in_scope st live tt tv (extract_host f) e s = (b, s1)" by fastforce
    with i [OF Cons.prems] have "P s1" by (metis snd_conv)
    with Cons.IH [of s1] 1 show ?case
      by (cases "partition_from st live tt tv e fs s1") (auto simp: finding_in_scope_def split: prod.split)
  qed simp
  have q: "P (snd (roots_from st live tt tv rs fs s))" if "P s" for rs fs s
    using that
  proof (induction fs arbitrary: s rs)
    case (Cons f fs)
    obtain b s1 where 1: "host_in_scope st live tt tv (Some (norm_host (extract_host f))) [] s = (b, s1)" by fastforce
    with i [OF Cons.prems] have "P s1" by (metis snd_conv)
    with Cons 1 show ?case by (auto simp: Let_def)
  qed simp
  have "P (snd (derived_scope_roots st live tt tv fs s))" using P q [OF P, of "[]" fs]
    by (cases "tt = ''domain''") (simp_all add: derived_scope_roots_def)
  with f P show ?thesis by (auto simp: partition_in_scope_def split: option.split prod.split)
qed

definition each_once :: "string list \<Rightarrow> scope_state \<Rightarrow> bool" where
  "each_once before s =
     (case sc_cache s of None \<Rightarrow> False
      | Some c \<Rightarrow> sc_lookups s = before @ map fst (rc_entries c) \<and> distinct (map fst (rc_entries c)))"

lemma resolve_cached_each_once: "each_once before s \<Longrightarrow> each_once before (snd (resolve_cached live h s))"
  by (auto simp: each_once_def resolve_cached_def live_lookup_def map_of_eq_None_iff Let_def split: option.splits)

text \<open>
  Within one cache scope every name is looked up at most once, however many findings and
  authorized hosts there are and whether the lookup succeeds or fails, and the scope leaves the cache
  of the surrounding context as it was.
\<close>
theorem each_name_looked_up_once:
  "case resolution_cache_scope (partition_in_scope st live tt tv extra fs) s of (r, s') \<Rightarrow>
     \<exists>names. sc_lookups s' = sc_lookups s @ names \<and> distinct names \<and> sc_cache s' = sc_cache s"
proof -
  let ?s0 = "s\<lparr>sc_cache := Some \<lparr>rc_entries = [], rc_hits = 0\<rparr>\<rparr>"
  obtain r s1 where p: "partition_in_scope st live tt tv extra fs ?s0 = (r, s1)" by fastforce
  have "each_once (sc_lookups s) ?s0" by (simp add: each_once_def)
  from scope_keeps [OF resolve_cached_each_once this, where live = live and st = st and tt = tt and tv = tv
      and extra = extra and fs = fs] p
  have "each_once (sc_lookups s) s1" by simp
  then show ?thesis by (auto simp: resolution_cache_scope_def p each_once_def split: option.splits)
qed

section \<open>Routing\<close>

text \<open>
  Private scans of different sites go to different queues, no private scan goes to the public
  queue, the queue's name gives the site back, and a private scan without a site has no queue.
\<close>
theorem queues_separate_sites:
  "queue_for_scan (Some ''private'') None = None
   \<and> (\<forall>s t q. queue_for_scan (Some ''private'') s = Some q \<longrightarrow>
        s = site_id_from_queue q \<and> is_private_queue q \<and> q \<noteq> PUBLIC_SCAN_QUEUE
        \<and> (queue_for_scan (Some ''private'') t = Some q \<longrightarrow> t = s))"
proof -
  have p: "s = site_id_from_queue q \<and> is_private_queue q \<and> q \<noteq> PUBLIC_SCAN_QUEUE"
    if "queue_for_scan (Some ''private'') s = Some q" for s q
  proof -
    from that obtain n where n: "s = Some n" "n \<noteq> []" and q: "q = PRIVATE_QUEUE_PREFIX @ n"
      by (cases s) (auto simp: queue_for_scan_def zone_of_def split: if_splits)
    have "q \<noteq> PUBLIC_SCAN_QUEUE" by (auto simp: q PRIVATE_QUEUE_PREFIX_def PUBLIC_SCAN_QUEUE_def)
    moreover have "py_startswith q PRIVATE_QUEUE_PREFIX" by (auto simp: q py_startswith_iff)
    ultimately show ?thesis using n q by (simp add: site_id_from_queue_def is_private_queue_def Let_def)
  qed
  have "queue_for_scan (Some ''private'') None = None" by (simp add: queue_for_scan_def zone_of_def)
  with p show ?thesis by metis
qed

theorem queues_separate_sites_witness:
  "queue_for_scan (Some ''private'') (Some ''30'') = Some ''scans.private.30''
   \<and> site_id_from_queue ''scans.private.30'' = Some ''30''"
proof -
  have q: "queue_for_scan (Some ''private'') (Some ''30'') = Some ''scans.private.30''" by code_simp
  with queues_separate_sites show ?thesis by metis
qed

text \<open>The text of an optional site id, for any injective printing of ids to non-empty text.\<close>

definition site_text :: "(uuid \<Rightarrow> string) \<Rightarrow> uuid option \<Rightarrow> string option" where
  "site_text print site = map_option print site"

text \<open>
  The worker's own check of a job and the manager's check of the worker's row accept the same jobs:
  with the zone that follows from the scan's site and the worker's pool, the job matches exactly
  when the row may serve the site and the job's pool, if it names one, is the worker's.
\<close>
theorem job_check_agrees_with_manager:
  assumes inj: "inj print" and ne: "\<And>u. print u \<noteq> []" and pool: "wk_pool_id w \<noteq> []"
  shows "is_ok (assert_job_matches_worker (Some (if site = None then ''public'' else ''private''))
           (site_text print site) (site_text print (wk_site_id w)) (Some (wk_pool_id w)) job_pool)
    = (is_ok (assert_worker_may_serve_site w site) \<and> is_ok (assert_worker_in_pool w job_pool))"
proof -
  have e: "print a = print b \<longleftrightarrow> a = b" for a b using inj by (simp add: inj_eq)
  show ?thesis using ne pool
    by (cases site; cases "wk_site_id w"; cases job_pool)
      (auto simp: assert_job_matches_worker_def assert_worker_may_serve_site_def assert_worker_in_pool_def
        zone_of_def site_text_def e)
qed

definition ex_print :: "uuid \<Rightarrow> string" where "ex_print n = replicate (Suc n) CHR ''x''"

definition ex_public_worker :: worker where
  "ex_public_worker = \<lparr>wk_worker_id = ''w-7'', wk_pool_id = ''public'', wk_site_id = None, wk_workspace_id = None,
     wk_status = ''active'', wk_token_hash = Some ''h'', wk_cert_fingerprint = None, wk_cert_not_after = None,
     wk_last_seen_at = Some 5, wk_health_state = ''healthy'', wk_last_health_detail = None,
     wk_last_handshake_age_s = None, wk_revoked_at = None, wk_revoked_reason = None, wk_created_at = 2,
     wk_updated_at = None\<rparr>"

theorem job_check_agrees_with_manager_witness:
  "is_ok (assert_job_matches_worker (Some ''private'') (Some (ex_print 2)) None (Some ''public'') None) = False"
proof -
  have i: "inj ex_print" by (rule injI) (simp add: ex_print_def replicate_eq_replicate)
  have "ex_print u \<noteq> []" for u by (simp add: ex_print_def)
  from job_check_agrees_with_manager [OF i this, of ex_public_worker "Some 2" None]
  show ?thesis by (simp add: site_text_def assert_worker_may_serve_site_def ex_public_worker_def)
qed

end
