(* ===== verification/Runtime_Flags.thy ===== *)
theory Runtime_Flags
  imports Mbs_Prelude
begin

text \<open>
  \<open>core/runtime_flags.py\<close>: the emergency switch for private scanning. A flag is a sentinel file whose
  presence is cached for a few seconds; a probe of the file system is \<open>Some\<close> of its answer, or \<open>None\<close>
  when it raised. Times are readings of the monotonic clock in seconds. The lock of the cache makes one
  call one step; logging is not modelled.
\<close>

record cached_flag =
  cf_value :: bool
  cf_read_at :: real
  cf_ever_read :: bool

definition new_flag :: cached_flag where
  "new_flag = \<lparr>cf_value = False, cf_read_at = 0, cf_ever_read = False\<rparr>"

definition FLAG_TTL_SECONDS :: real where "FLAG_TTL_SECONDS = 5"

definition flag_get :: "real \<Rightarrow> real \<Rightarrow> bool option \<Rightarrow> cached_flag \<Rightarrow> bool \<times> cached_flag" where
  "flag_get ttl now probe cf =
     (if cf_ever_read cf \<and> now - cf_read_at cf < ttl then (cf_value cf, cf)
      else (case probe of
              None \<Rightarrow> if cf_ever_read cf then (cf_value cf, cf) else (True, cf)
            | Some present \<Rightarrow> (present, \<lparr>cf_value = present, cf_read_at = now, cf_ever_read = True\<rparr>)))"

definition private_scanning_emergency_disabled ::
  "bool \<Rightarrow> real \<Rightarrow> real \<Rightarrow> bool option \<Rightarrow> cached_flag \<Rightarrow> bool \<times> cached_flag" where
  "private_scanning_emergency_disabled env_disabled ttl now probe cf =
     (if env_disabled then (True, cf) else flag_get ttl now probe cf)"

text \<open>A process that reads the flag at a list of times, each with what its probe would answer.\<close>

fun flag_run :: "real \<Rightarrow> (real \<times> bool option) list \<Rightarrow> cached_flag \<Rightarrow> cached_flag" where
  "flag_run ttl [] cf = cf"
| "flag_run ttl ((now, probe) # es) cf = flag_run ttl es (snd (flag_get ttl now probe cf))"

lemma flag_run_append: "flag_run ttl (xs @ ys) cf = flag_run ttl ys (flag_run ttl xs cf)"
  by (induction ttl xs cf rule: flag_run.induct) simp_all

text \<open>A reading is in force only when it was made at one of the times, with the answer given then.\<close>

lemma flag_run_source:
  "cf_ever_read (flag_run ttl es new_flag) \<Longrightarrow>
     (cf_read_at (flag_run ttl es new_flag), Some (cf_value (flag_run ttl es new_flag))) \<in> set es"
proof (induction es rule: rev_induct)
  case (snoc e es)
  obtain now probe where e: "e = (now, probe)" by (cases e)
  let ?cf = "flag_run ttl es new_flag"
  have run: "flag_run ttl (es @ [e]) new_flag = snd (flag_get ttl now probe ?cf)"
    by (simp add: flag_run_append e)
  show ?case
  proof (cases "snd (flag_get ttl now probe ?cf) = ?cf")
    case True
    with snoc run show ?thesis by auto
  next
    case False
    then have "\<exists>p. probe = Some p \<and> snd (flag_get ttl now probe ?cf) = \<lparr>cf_value = p, cf_read_at = now, cf_ever_read = True\<rparr>"
      by (auto simp: flag_get_def split: if_splits option.splits)
    with run e show ?thesis by auto
  qed
qed (simp add: new_flag_def)

section \<open>Properties\<close>

text \<open>
  The switch takes effect within one cache lifetime: once the sentinel file is there and readable from
  time t0 on, every answer at t0 + ttl or later is that private scanning is disabled, whatever was read
  before.
\<close>
theorem kill_switch_takes_effect:
  assumes "\<forall>(t, p) \<in> set before. t < t0" and "\<forall>(t, p) \<in> set later. p = Some True" and "t0 + ttl \<le> now"
  shows "fst (private_scanning_emergency_disabled env ttl now (Some True) (flag_run ttl (before @ later) new_flag))"
proof -
  let ?cf = "flag_run ttl (before @ later) new_flag"
  have "cf_value ?cf" if ever: "cf_ever_read ?cf" and fresh: "now - cf_read_at ?cf < ttl"
  proof -
    from flag_run_source [OF ever]
    have "(cf_read_at ?cf, Some (cf_value ?cf)) \<in> set before \<union> set later" by simp
    moreover have "(cf_read_at ?cf, Some (cf_value ?cf)) \<notin> set before"
      using assms(1,3) fresh by fastforce
    ultimately show ?thesis using assms(2) by auto
  qed
  then show ?thesis by (simp add: private_scanning_emergency_disabled_def flag_get_def)
qed

theorem kill_switch_takes_effect_witness:
  "fst (private_scanning_emergency_disabled False 5 17 (Some True)
     (flag_run 5 ([(1, Some False), (9, None)] @ [(14, Some True)]) new_flag))"
  by (rule kill_switch_takes_effect [where ?t0.0 = 10]) simp_all

text \<open>
  The switch fails closed: private scanning is reported enabled only when the environment does not
  disable it and some probe up to now succeeded and saw no sentinel file; a process whose probes have
  all failed reports it disabled.
\<close>
theorem kill_switch_fails_closed:
  assumes "\<not> fst (private_scanning_emergency_disabled env ttl now probe (flag_run ttl es new_flag))"
  shows "\<not> env \<and> (\<exists>t. (t, Some False) \<in> set (es @ [(now, probe)]))"
proof -
  let ?cf = "flag_run ttl es new_flag"
  have env: "\<not> env" and get: "\<not> fst (flag_get ttl now probe ?cf)"
    using assms by (auto simp: private_scanning_emergency_disabled_def split: if_splits)
  have "probe = Some False \<or> cf_ever_read ?cf \<and> \<not> cf_value ?cf"
    using get by (auto simp: flag_get_def split: if_splits option.splits)
  then have "\<exists>t. (t, Some False) \<in> set (es @ [(now, probe)])"
    using flag_run_source [of ttl es] by auto
  with env show ?thesis by simp
qed

theorem kill_switch_fails_closed_witness:
  "\<not> False \<and> (\<exists>t. (t, Some False) \<in> set ([(0 :: real, None), (1, Some False)] @ [(2, None :: bool option)]))"
  by (rule kill_switch_fails_closed [of False 5])
    (simp add: private_scanning_emergency_disabled_def flag_get_def new_flag_def)

end
