(* ===== verification/Evidence_Store.thy ===== *)
theory Evidence_Store
  imports Scan_Lifecycle
begin

text \<open>
  Where evidence goes: \<open>scanner_engine/result_sink.py\<close> (validation, the sink of the execution plane and
  its bounded retry), \<open>scanner_engine/evidence_store.py\<close> (the object keys) and
  \<open>scanner_engine/evidence_integrity.py\<close> (re-verification against the recorded checksum). Bytes are
  strings; the object store is a map from bucket and key to content. SHA-256 (\<open>sha\<close>) and the text of
  a UUID (\<open>uid\<close>) are parameters; base64 is the standard library's, with \<open>validate=True\<close>.
\<close>

section \<open>Base64\<close>

definition b64_char :: "nat \<Rightarrow> char" where
  "b64_char n =
     (if n < 26 then char_of (65 + n) else if n < 52 then char_of (71 + n)
      else if n < 62 then char_of (n - 4) else if n = 62 then CHR ''+'' else CHR ''/'')"

definition b64_val :: "char \<Rightarrow> nat option" where
  "b64_val c =
     (let n = (of_char c :: nat) in
      if 65 \<le> n \<and> n \<le> 90 then Some (n - 65) else if 97 \<le> n \<and> n \<le> 122 then Some (n - 71)
      else if 48 \<le> n \<and> n \<le> 57 then Some (n + 4) else if c = CHR ''+'' then Some 62
      else if c = CHR ''/'' then Some 63 else None)"

fun b64encode :: "string \<Rightarrow> string" where
  "b64encode [] = []"
| "b64encode [a] =
     (let x = (of_char a :: nat) in [b64_char (x div 4), b64_char (x mod 4 * 16), CHR ''='', CHR ''=''])"
| "b64encode [a, b] =
     (let x = (of_char a :: nat); y = (of_char b :: nat) in
      [b64_char (x div 4), b64_char (x mod 4 * 16 + y div 16), b64_char (y mod 16 * 4), CHR ''=''])"
| "b64encode (a # b # c # rest) =
     (let x = (of_char a :: nat); y = (of_char b :: nat); z = (of_char c :: nat) in
      [b64_char (x div 4), b64_char (x mod 4 * 16 + y div 16), b64_char (y mod 16 * 4 + z div 64), b64_char (z mod 64)]
      @ b64encode rest)"

fun b64decode :: "string \<Rightarrow> string option" where
  "b64decode [] = Some []"
| "b64decode (w # x # y # z # rest) =
     (case (b64_val w, b64_val x) of
        (Some i, Some j) \<Rightarrow>
          (let a = char_of (i * 4 + j div 16) in
           if y = CHR ''='' then (if z = CHR ''='' \<and> rest = [] then Some [a] else None)
           else (case b64_val y of
                   None \<Rightarrow> None
                 | Some k \<Rightarrow>
                     (let b = char_of (j mod 16 * 16 + k div 4) in
                      if z = CHR ''='' then (if rest = [] then Some [a, b] else None)
                      else (case b64_val z of
                              None \<Rightarrow> None
                            | Some l \<Rightarrow>
                                map_option (\<lambda>r. a # b # char_of (k mod 4 * 64 + l) # r) (b64decode rest)))))
      | _ \<Rightarrow> None)"
| "b64decode _ = None"

lemma b64_val_char:
  assumes "n < 64"
  shows "b64_val (b64_char n) = Some n"
proof -
  consider "n < 26" | "26 \<le> n" "n < 52" | "52 \<le> n" "n < 62" | "n = 62" | "n = 63"
    using assms by linarith
  then show ?thesis by cases (auto simp: b64_char_def b64_val_def Let_def)
qed

lemma b64_char_pad: "n < 64 \<Longrightarrow> b64_char n \<noteq> CHR ''=''"
proof -
  have "b64_val CHR ''='' = None" by code_simp
  moreover assume "n < 64"
  ultimately show ?thesis using b64_val_char [of n] by auto
qed

lemma byte_less: "(of_char c :: nat) < 256"
  using of_char_mod_256 [of c, where ?'a = nat] by (metis mod_less_divisor zero_less_numeral)

lemma byte_parts:
  "(of_char c :: nat) div 16 div 16 = 0" "(of_char c :: nat) div 16 mod 16 = of_char c div 16"
  "(of_char c :: nat) div 64 div 4 = 0" "(of_char c :: nat) div 64 mod 4 = of_char c div 64"
  using byte_less [of c] by (simp_all flip: div_mult2_eq add: less_mult_imp_div_less)

lemma sextets:
  "(of_char a :: nat) div 4 < 64" "(of_char a :: nat) mod 4 * 16 < 64" "(of_char a :: nat) mod 64 < 64"
  "(of_char a :: nat) mod 4 * 16 + of_char b div 16 < 64" "(of_char b :: nat) mod 16 * 4 < 64"
  "(of_char b :: nat) mod 16 * 4 + of_char c div 64 < 64"
proof -
  have "(of_char a :: nat) mod 4 < 4" "(of_char b :: nat) mod 16 < 16" by simp_all
  moreover have "(of_char a :: nat) div 4 < 64" "(of_char b :: nat) div 16 < 16" "(of_char c :: nat) div 64 < 4"
    using byte_less [of a] byte_less [of b] byte_less [of c] by (simp_all add: less_mult_imp_div_less)
  ultimately show "(of_char a :: nat) div 4 < 64" "(of_char a :: nat) mod 4 * 16 < 64" "(of_char a :: nat) mod 64 < 64"
    "(of_char a :: nat) mod 4 * 16 + of_char b div 16 < 64" "(of_char b :: nat) mod 16 * 4 < 64"
    "(of_char b :: nat) mod 16 * 4 + of_char c div 64 < 64"
    by simp_all
qed

lemma b64decode_encode: "b64decode (b64encode s) = Some s"
  by (induction s rule: b64encode.induct)
    (simp_all add: Let_def b64_val_char b64_char_pad sextets byte_parts)

section \<open>Validation\<close>

definition MAX_EVIDENCE_BYTES :: nat where "MAX_EVIDENCE_BYTES = 64 * 1024 * 1024"

definition ALLOWED_EVIDENCE_TYPES :: "string list" where
  "ALLOWED_EVIDENCE_TYPES =
     [''text/plain'', ''application/json'', ''application/xml'', ''text/xml'', ''text/html'',
      ''image/png'', ''image/jpeg'', ''application/octet-stream'']"

datatype evidence_rejected = EvidenceEmpty | EvidenceTooLarge nat | EvidenceTypeNotAllowed string

definition base_type :: "string \<Rightarrow> string" where
  "base_type content_type = py_lower (py_strip (before_char (CHR '';'') content_type))"

definition validate_evidence :: "(string \<Rightarrow> string) \<Rightarrow> string \<Rightarrow> string \<Rightarrow> evidence_rejected + string" where
  "validate_evidence sha content content_type =
     (if length content = 0 then Inl EvidenceEmpty
      else if MAX_EVIDENCE_BYTES < length content then Inl (EvidenceTooLarge (length content))
      else if \<not> List.member ALLOWED_EVIDENCE_TYPES (base_type content_type)
      then Inl (EvidenceTypeNotAllowed content_type)
      else Inr (sha content))"

section \<open>The object store\<close>

type_synonym objects = "string \<times> string \<Rightarrow> string option"

definition raw_output_key :: "(uuid \<Rightarrow> string) \<Rightarrow> uuid \<Rightarrow> string" where
  "raw_output_key uid run = ''tool-runs/'' @ uid run @ ''/raw-output.txt''"

definition screenshot_key :: "(uuid \<Rightarrow> string) \<Rightarrow> uuid \<Rightarrow> string \<Rightarrow> string" where
  "screenshot_key uid owner checksum = ''vulnerabilities/'' @ uid owner @ ''/screenshot-'' @ take 16 checksum @ ''.png''"

definition storage_uri :: "string \<Rightarrow> string \<Rightarrow> string" where
  "storage_uri bucket key = ''s3://'' @ bucket @ ''/'' @ key"

definition store_raw_output ::
  "(string \<Rightarrow> string) \<Rightarrow> (uuid \<Rightarrow> string) \<Rightarrow> string \<Rightarrow> uuid \<Rightarrow> string \<Rightarrow> objects \<Rightarrow> (string \<times> string) \<times> objects" where
  "store_raw_output sha uid bucket run content objs =
     (let key = raw_output_key uid run in
      ((storage_uri bucket key, sha content), objs((bucket, key) \<mapsto> content)))"

definition store_screenshot ::
  "(string \<Rightarrow> string) \<Rightarrow> (uuid \<Rightarrow> string) \<Rightarrow> string \<Rightarrow> uuid \<Rightarrow> string \<Rightarrow> objects \<Rightarrow> (string \<times> string) \<times> objects" where
  "store_screenshot sha uid bucket owner content objs =
     (let key = screenshot_key uid owner (sha content) in
      ((storage_uri bucket key, sha content), objs((bucket, key) \<mapsto> content)))"

text \<open>\<open>LocalResultSink.submit_evidence\<close>: the URI and digest that the caller records.\<close>

definition local_submit_evidence ::
  "(string \<Rightarrow> string) \<Rightarrow> (uuid \<Rightarrow> string) \<Rightarrow> string \<Rightarrow> uuid \<Rightarrow> uuid option \<Rightarrow> string \<Rightarrow> string \<Rightarrow> objects
   \<Rightarrow> (evidence_rejected + string \<times> string) \<times> objects" where
  "local_submit_evidence sha uid bucket scan_id run content content_type objs =
     (case validate_evidence sha content content_type of
        Inl e \<Rightarrow> (Inl e, objs)
      | Inr digest \<Rightarrow>
          (let owner = (case run of None \<Rightarrow> scan_id | Some r \<Rightarrow> r);
               ((uri, stored_hash), objs') =
                 (if base_type content_type = ''image/png'' then store_screenshot sha uid bucket owner content objs
                  else store_raw_output sha uid bucket owner content objs)
           in (Inr (uri, if stored_hash \<noteq> [] then stored_hash else digest), objs')))"

section \<open>The sink of the execution plane\<close>

text \<open>What one attempt of a submission ends with.\<close>

datatype post_outcome = PostOk | HttpStatus nat | TransportError | OtherError

definition is_retryable :: "post_outcome \<Rightarrow> bool" where
  "is_retryable e = (case e of HttpStatus code \<Rightarrow> 500 \<le> code \<or> code = 429 | TransportError \<Rightarrow> True | _ \<Rightarrow> False)"

definition POST_MAX_ATTEMPTS :: nat where "POST_MAX_ATTEMPTS = 3"

text \<open>
  The retry loop: \<open>net n\<close> is the outcome of the n-th attempt (from 1). The result is the last outcome
  and the number of attempts made.
\<close>

fun post_from :: "(nat \<Rightarrow> post_outcome) \<Rightarrow> nat \<Rightarrow> nat \<Rightarrow> post_outcome \<times> nat" where
  "post_from net attempt 0 = (net attempt, attempt)"
| "post_from net attempt (Suc left) =
     (case net attempt of
        PostOk \<Rightarrow> (PostOk, attempt)
      | e \<Rightarrow> if \<not> is_retryable e then (e, attempt) else post_from net (Suc attempt) left)"

definition sink_post :: "(nat \<Rightarrow> post_outcome) \<Rightarrow> post_outcome \<times> nat" where
  "sink_post net = post_from net 1 (POST_MAX_ATTEMPTS - 1)"

text \<open>The body of an evidence submission, after the local check.\<close>

record evidence_in =
  ei_scan_id :: uuid
  ei_tool_run_id :: "uuid option"
  ei_content_type :: string
  ei_content_b64 :: string
  ei_sha256 :: "string option"
  ei_execution_token :: uuid
  ei_tool_name :: "string option"
  ei_fingerprint :: "string option"

definition sink_evidence_body ::
  "(string \<Rightarrow> string) \<Rightarrow> uuid \<Rightarrow> uuid option \<Rightarrow> string \<Rightarrow> string \<Rightarrow> uuid \<Rightarrow> string option \<Rightarrow> string option
   \<Rightarrow> evidence_rejected + evidence_in" where
  "sink_evidence_body sha scan_id run content content_type token tool fingerprint =
     res_bind (validate_evidence sha content content_type) (\<lambda>digest.
       Inr \<lparr>ei_scan_id = scan_id, ei_tool_run_id = run, ei_content_type = content_type,
            ei_content_b64 = b64encode content, ei_sha256 = Some digest, ei_execution_token = token,
            ei_tool_name = tool, ei_fingerprint = fingerprint\<rparr>)"

section \<open>Integrity checks\<close>

record evidence =
  ed_id :: uuid
  ed_tool_run_id :: "uuid option"
  ed_evidence_type :: string
  ed_storage_uri :: string
  ed_checksum :: string

datatype integrity_result = Pass | IntegrityFailure | MissingObject | NoChecksum

definition parse_storage_uri :: "string \<Rightarrow> (string \<times> string) option" where
  "parse_storage_uri uri =
     (if uri = [] \<or> \<not> py_startswith uri ''s3://'' then None
      else (case partition_char (CHR ''/'') (drop (length ''s3://'') uri) of
              (_, None) \<Rightarrow> None
            | (bucket, Some key) \<Rightarrow> if bucket = [] \<or> key = [] then None else Some (bucket, key)))"

text \<open>\<open>None\<close> is the \<open>ValueError\<close> for an id without a row; the second component is the actual digest.\<close>

definition verify_evidence ::
  "(string \<Rightarrow> string) \<Rightarrow> objects \<Rightarrow> evidence list \<Rightarrow> uuid \<Rightarrow> (integrity_result \<times> string option) option" where
  "verify_evidence sha objs rows eid =
     (case find_row (\<lambda>e. ed_id e = eid) rows of
        None \<Rightarrow> None
      | Some e \<Rightarrow>
          if ed_checksum e = [] then Some (NoChecksum, None)
          else (case parse_storage_uri (ed_storage_uri e) of
                  None \<Rightarrow> Some (MissingObject, None)
                | Some loc \<Rightarrow>
                    (case objs loc of
                       None \<Rightarrow> Some (MissingObject, None)
                     | Some content \<Rightarrow>
                         Some (if sha content = ed_checksum e then Pass else IntegrityFailure, Some (sha content)))))"

text \<open>A batch answers for every id; an id without a row is reported missing.\<close>

definition verify_evidence_batch ::
  "(string \<Rightarrow> string) \<Rightarrow> objects \<Rightarrow> evidence list \<Rightarrow> uuid list \<Rightarrow> (integrity_result \<times> string option) list" where
  "verify_evidence_batch sha objs rows ids =
     map (\<lambda>i. case verify_evidence sha objs rows i of None \<Rightarrow> (MissingObject, None) | Some r \<Rightarrow> r) ids"

end
