(* ===== verification/Asset_Inventory.thy ===== *)
theory Asset_Inventory
  imports Json_Data
begin

text \<open>
  \<open>modules/assets/service.py\<close>: merging a new observation of an asset into its stored metadata, and the
  insert-or-touch of an asset row. \<open>same_text\<close> is the comparison of the database's collation, which the
  lookup of the stored document uses (the unique key compares the bytes of the value); it is a parameter.
\<close>

section \<open>Merging observations\<close>

definition PROVENANCE_KEYS :: "string list" where
  "PROVENANCE_KEYS = [''discovered_by_tool'', ''discovered_by_tool_version'', ''discovered_in_tool_run'', ''in_scope'']"

definition MAX_OBSERVATIONS :: nat where "MAX_OBSERVATIONS = 20"

definition observation_of :: "dict \<Rightarrow> dict" where
  "observation_of metadata =
     (let obs = concat (map (\<lambda>k. case dict_get k metadata of None \<Rightarrow> [] | Some v \<Rightarrow> [(k, v)]) PROVENANCE_KEYS) in
      if obs \<noteq> [] then dict_put ''provenance'' (JStr ''OBSERVED'') obs else obs)"

text \<open>The usable entries of a technology list, as text.\<close>

definition as_text_list :: "json option \<Rightarrow> json list" where
  "as_text_list v =
     (case v of
        Some (JStr s) \<Rightarrow> [JStr s]
      | Some (JText t) \<Rightarrow> [JText t]
      | Some (JArr xs) \<Rightarrow>
          concat (map (\<lambda>x. case x of JStr s \<Rightarrow> [JStr s] | JText t \<Rightarrow> [JText t] | JNum n \<Rightarrow> [JStr (int_text n)]
                       | JBool b \<Rightarrow> [JStr (if b then ''True'' else ''False'')] | _ \<Rightarrow> []) xs)
      | _ \<Rightarrow> [])"

fun dedup :: "'a list \<Rightarrow> 'a list \<Rightarrow> 'a list" where
  "dedup seen [] = []"
| "dedup seen (x # xs) = (if List.member seen x then dedup seen xs else x # dedup (x # seen) xs)"

definition union_tech :: "json option \<Rightarrow> json option \<Rightarrow> json list option" where
  "union_tech existing incoming =
     (let combined = as_text_list existing @ as_text_list incoming in
      if combined = [] then None else Some (dedup [] combined))"

text \<open>\<open>existing or {}\<close>, and \<open>{}\<close> for a stored document that is not an object.\<close>

definition stored_document :: "json option \<Rightarrow> dict" where
  "stored_document existing = (case existing of Some (JObj d) \<Rightarrow> d | _ \<Rightarrow> [])"

definition merge_tech :: "dict \<Rightarrow> dict \<Rightarrow> dict \<Rightarrow> dict" where
  "merge_tech existing incoming merged =
     (if dict_get ''tech'' existing \<noteq> None \<or> dict_get ''tech'' incoming \<noteq> None
      then (case union_tech (dict_get ''tech'' existing) (dict_get ''tech'' incoming) of
              None \<Rightarrow> merged | Some u \<Rightarrow> dict_put ''tech'' (JArr u) merged)
      else merged)"

definition merge_inferred :: "dict \<Rightarrow> dict \<Rightarrow> dict \<Rightarrow> dict" where
  "merge_inferred existing incoming merged =
     (if dict_get ''inferred_keys'' existing \<noteq> None \<or> dict_get ''inferred_keys'' incoming \<noteq> None
      then (case union_tech (dict_get ''inferred_keys'' existing) (dict_get ''inferred_keys'' incoming) of
              None \<Rightarrow> merged
            | Some u \<Rightarrow>
                (let marks = sort (filter (\<lambda>k. dict_get k merged \<noteq> None) (json_strings (Some (JArr u)))) in
                 if marks \<noteq> [] then dict_put ''inferred_keys'' (JArr (map JStr marks)) merged
                 else dict_del ''inferred_keys'' merged))
      else merged)"

definition prior_observations :: "dict \<Rightarrow> dict list" where
  "prior_observations existing =
     (case dict_get ''observations'' existing of
        Some (JArr xs) \<Rightarrow> concat (map (\<lambda>x. case x of JObj d \<Rightarrow> [d] | _ \<Rightarrow> []) xs) | _ \<Rightarrow> [])"

text \<open>\<open>xs[-n:]\<close> for positive n.\<close>

definition last_n :: "nat \<Rightarrow> 'a list \<Rightarrow> 'a list" where
  "last_n n xs = drop (length xs - n) xs"

text \<open>\<open>o.get(k)\<close>: null and absent are the same.\<close>

definition get_or_null :: "string \<Rightarrow> dict \<Rightarrow> json" where
  "get_or_null k d = (case dict_get k d of None \<Rightarrow> JNull | Some v \<Rightarrow> v)"

definition merge_observations :: "dict \<Rightarrow> dict \<Rightarrow> dict list" where
  "merge_observations existing incoming =
     (let observations = prior_observations existing;
          new = observation_of incoming
      in if new = [] then observations
         else if \<not> list_ex (\<lambda>o'. get_or_null ''discovered_in_tool_run'' o' = get_or_null ''discovered_in_tool_run'' new) observations
              then last_n (MAX_OBSERVATIONS - 1) observations @ [new]
              else last_n MAX_OBSERVATIONS observations)"

definition merge_asset_metadata :: "json option \<Rightarrow> dict \<Rightarrow> dict" where
  "merge_asset_metadata existing_doc incoming =
     (let existing = stored_document existing_doc;
          merged = dict_del ''provenance'' (dict_merge existing incoming);
          merged = merge_tech existing incoming merged;
          merged = merge_inferred existing incoming merged;
          observations = merge_observations existing incoming
      in if observations \<noteq> [] then dict_put ''observations'' (JArr (map JObj observations)) merged else merged)"

section \<open>Asset rows\<close>

record asset =
  as_project_id :: uuid
  as_target_id :: uuid
  as_asset_type :: string
  as_value :: string
  as_metadata :: dict
  as_first_seen :: time
  as_last_seen :: time

datatype asset_error = AssetValueTooLong nat | MultipleResultsFound

definition MAX_ASSET_VALUE_LENGTH :: nat where "MAX_ASSET_VALUE_LENGTH = 2048"

definition validate_asset_value :: "string \<Rightarrow> asset_error + string" where
  "validate_asset_value v =
     (if MAX_ASSET_VALUE_LENGTH < length v then Inl (AssetValueTooLong (length v)) else Inr v)"

definition stored_metadata ::
  "(string \<Rightarrow> string \<Rightarrow> bool) \<Rightarrow> uuid \<Rightarrow> uuid \<Rightarrow> string \<Rightarrow> string \<Rightarrow> asset list \<Rightarrow> asset_error + json option" where
  "stored_metadata same_text project target ty v assets =
     (case filter (\<lambda>a. as_project_id a = project \<and> as_target_id a = target \<and> same_text (as_asset_type a) ty
              \<and> same_text (as_value a) v) assets of
        [] \<Rightarrow> Inr None
      | [a] \<Rightarrow> Inr (Some (JObj (as_metadata a)))
      | _ \<Rightarrow> Inl MultipleResultsFound)"

text \<open>\<open>INSERT ... ON DUPLICATE KEY UPDATE\<close> on the key of target, type and value digest.\<close>

definition asset_key_eq :: "(string \<Rightarrow> string \<Rightarrow> bool) \<Rightarrow> uuid \<Rightarrow> string \<Rightarrow> string \<Rightarrow> asset \<Rightarrow> bool" where
  "asset_key_eq same_text target ty v a = (as_target_id a = target \<and> same_text (as_asset_type a) ty \<and> as_value a = v)"

definition insert_or_touch :: "(string \<Rightarrow> string \<Rightarrow> bool) \<Rightarrow> asset \<Rightarrow> asset list \<Rightarrow> asset list" where
  "insert_or_touch same_text new assets =
     (let P = asset_key_eq same_text (as_target_id new) (as_asset_type new) (as_value new) in
      if list_ex P assets
      then update_where P (\<lambda>a. a\<lparr>as_last_seen := as_last_seen new, as_metadata := as_metadata new\<rparr>) assets
      else assets @ [new])"

definition upsert_asset ::
  "(string \<Rightarrow> string \<Rightarrow> bool) \<Rightarrow> time \<Rightarrow> uuid \<Rightarrow> uuid \<Rightarrow> string \<Rightarrow> string \<Rightarrow> dict \<Rightarrow> asset list \<Rightarrow> asset_error + asset list" where
  "upsert_asset same_text now project target ty v metadata assets =
     res_bind (validate_asset_value v) (\<lambda>_.
     res_bind (stored_metadata same_text project target ty v assets) (\<lambda>existing.
       Inr (insert_or_touch same_text
         \<lparr>as_project_id = project, as_target_id = target, as_asset_type = ty, as_value = v,
          as_metadata = merge_asset_metadata existing metadata, as_first_seen = now, as_last_seen = now\<rparr> assets)))"

section \<open>What a merge keeps\<close>

lemma dict_get_tech_other: "k \<noteq> ''tech'' \<Longrightarrow> dict_get k (merge_tech e i m) = dict_get k m"
  by (simp add: merge_tech_def split: option.split)

lemma dict_get_inferred_other: "k \<noteq> ''inferred_keys'' \<Longrightarrow> dict_get k (merge_inferred e i m) = dict_get k m"
  by (simp add: merge_inferred_def Let_def split: option.split)

lemma merge_tech_key: "dict_get ''tech'' m \<noteq> None \<Longrightarrow> dict_get ''tech'' (merge_tech e i m) \<noteq> None"
  by (simp add: merge_tech_def split: option.split)

lemma length_last_n: "length (last_n n xs) = min n (length xs)"
  by (simp add: last_n_def)

lemma set_last_n: "set (last_n n xs) \<subseteq> set xs"
  by (simp add: last_n_def set_drop_subset)

lemma length_prior: "length (prior_observations e) =
    (case dict_get ''observations'' e of Some (JArr xs) \<Rightarrow> length (filter (\<lambda>x. case x of JObj d \<Rightarrow> True | _ \<Rightarrow> False) xs) | _ \<Rightarrow> 0)"
proof -
  have "length (concat (map (\<lambda>x. case x of JObj d \<Rightarrow> [d] | _ \<Rightarrow> []) xs))
      = length (filter (\<lambda>x. case x of JObj d \<Rightarrow> True | _ \<Rightarrow> False) xs)" for xs
    by (induction xs) (auto split: json.splits)
  then show ?thesis by (auto simp: prior_observations_def split: option.split json.split)
qed

text \<open>
  The observation log of an asset never exceeds its cap by a new observation: it has at most 20 entries,
  or as many as the stored document already had.
\<close>
theorem observations_bounded:
  "length (merge_observations existing incoming) \<le> max MAX_OBSERVATIONS (length (prior_observations existing))"
  by (simp add: merge_observations_def Let_def MAX_OBSERVATIONS_def length_last_n min_def max_def)

text \<open>
  A merge keeps what other tools recorded: every key of the stored document is still there (the top-level
  provenance claim and marks of keys that no longer exist apart), and every key of the new one is.
\<close>
theorem merge_keeps_keys:
  assumes "k \<in> dict_keys (stored_document existing) \<or> k \<in> dict_keys incoming"
    and "k \<noteq> ''provenance''" and "k \<noteq> ''inferred_keys''"
  shows "k \<in> dict_keys (merge_asset_metadata existing incoming)"
proof -
  let ?e = "stored_document existing"
  let ?m = "dict_del ''provenance'' (dict_merge ?e incoming)"
  have "dict_get k ?m \<noteq> None"
    using assms(1,2) dict_get_None_iff [of k "dict_merge ?e incoming"] by auto
  then have "dict_get k (merge_tech ?e incoming ?m) \<noteq> None"
    using merge_tech_key dict_get_tech_other by (cases "k = ''tech''") auto
  then have "dict_get k (merge_inferred ?e incoming (merge_tech ?e incoming ?m)) \<noteq> None"
    using assms(3) by (simp add: dict_get_inferred_other)
  then have "dict_get k (merge_asset_metadata existing incoming) \<noteq> None"
    by (simp add: merge_asset_metadata_def Let_def)
  then show ?thesis by (simp add: dict_get_None_iff)
qed

text \<open>The merged document makes no top-level claim of provenance, whatever the tool reported.\<close>

lemma no_top_level_provenance: "dict_get ''provenance'' (merge_asset_metadata existing incoming) = None"
  by (simp add: merge_asset_metadata_def Let_def dict_get_inferred_other dict_get_tech_other)

theorem observations_bounded_witness:
  "length (merge_observations [] [(''discovered_by_tool'', JStr ''nmap'')])
     \<le> max MAX_OBSERVATIONS (length (prior_observations []))"
  by (rule observations_bounded)

theorem merge_keeps_keys_witness:
  "''status_code'' \<in> dict_keys (merge_asset_metadata (Some (JObj [(''status_code'', JNum 200)])) [(''has_params'', JBool True)])"
  by (rule merge_keeps_keys) (simp_all add: stored_document_def dict_keys_def)

section \<open>Two defects\<close>

lemma observation_of_Nil:
  "\<forall>k \<in> set PROVENANCE_KEYS. dict_get k metadata = None \<Longrightarrow> observation_of metadata = []"
  by (simp add: observation_of_def PROVENANCE_KEYS_def)

lemma last_n_all: "length xs \<le> n \<Longrightarrow> last_n n xs = xs"
  by (simp add: last_n_def)

lemma dict_get_merged_observations:
  "dict_get ''observations'' (merge_asset_metadata existing incoming) =
     (let obs = merge_observations (stored_document existing) incoming in
      if obs \<noteq> [] then Some (JArr (map JObj obs))
      else dict_get ''observations'' (dict_merge (stored_document existing) incoming))"
  by (simp add: merge_asset_metadata_def Let_def dict_get_inferred_other dict_get_tech_other)

text \<open>
  Observations can be forged: metadata that carries its own \<open>observations\<close> and none of the provenance
  keys is stored as it is on an asset without observations, and later honest merges keep the forged
  entries in the log, whatever provenance they claim.
\<close>
theorem forged_observations_stored:
  assumes "prior_observations (stored_document existing) = []"
    and "distinct (map fst forgery)" and "dict_get ''observations'' forgery = Some (JArr (map JObj forged))"
    and "\<forall>k \<in> set PROVENANCE_KEYS. dict_get k forgery = None" and "forged \<noteq> []" and "length forged \<le> 19"
  shows "\<exists>more. dict_get ''observations'' (merge_asset_metadata (Some (JObj (merge_asset_metadata existing forgery))) honest)
     = Some (JArr (map JObj (forged @ more)))"
proof -
  let ?first = "merge_asset_metadata existing forgery"
  have "merge_observations (stored_document existing) forgery = []"
    using assms(1,4) by (simp add: merge_observations_def Let_def observation_of_Nil)
  then have first: "dict_get ''observations'' ?first = Some (JArr (map JObj forged))"
    using assms(2,3) by (simp add: dict_get_merged_observations Let_def dict_get_merge)
  then have prior: "prior_observations ?first = forged"
    by (simp add: prior_observations_def comp_def)
  have "\<exists>more. merge_observations ?first honest = forged @ more"
    using assms(6) by (auto simp: merge_observations_def Let_def prior last_n_all MAX_OBSERVATIONS_def)
  then obtain more where m: "merge_observations ?first honest = forged @ more" ..
  have "stored_document (Some (JObj ?first)) = ?first" by (simp add: stored_document_def)
  then show ?thesis using m assms(5)
    by (intro exI [of _ more]) (simp add: dict_get_merged_observations Let_def)
qed

theorem forged_observations_stored_witness:
  "\<exists>more. dict_get ''observations'' (merge_asset_metadata
       (Some (JObj (merge_asset_metadata None [(''observations'', JArr (map JObj [[(''provenance'', JStr ''VERIFIED'')]]))])))
       [(''discovered_by_tool'', JStr ''httpx'')]) = Some (JArr (map JObj ([[(''provenance'', JStr ''VERIFIED'')]] @ more)))"
  by (rule forged_observations_stored) (simp_all add: stored_document_def prior_observations_def PROVENANCE_KEYS_def)

text \<open>
  Values that the collation identifies block each other: once two assets whose values differ only in
  what the collation ignores are recorded, the second carries the first one's metadata keys, and neither
  can be touched again (the lookup of the stored document finds two rows).
\<close>
theorem collation_twins_block:
  assumes "\<And>x. same_text x x" and "same_text v w" and "same_text w v" and "v \<noteq> w"
    and "length v \<le> MAX_ASSET_VALUE_LENGTH" and "length w \<le> MAX_ASSET_VALUE_LENGTH"
  shows "(case res_bind (upsert_asset same_text t1 pid tid ty v m1 []) (upsert_asset same_text t2 pid tid ty w m2) of
     Inl _ \<Rightarrow> False
   | Inr assets \<Rightarrow>
       (\<forall>k. k \<in> dict_keys m1 \<longrightarrow> k \<notin> {''provenance'', ''inferred_keys''} \<longrightarrow>
          (\<exists>a \<in> set assets. as_value a = w \<and> k \<in> dict_keys (as_metadata a)))
       \<and> upsert_asset same_text t3 pid tid ty v m3 assets = Inl MultipleResultsFound
       \<and> upsert_asset same_text t3 pid tid ty w m3 assets = Inl MultipleResultsFound)"
proof -
  let ?row = "\<lambda>t x m. \<lparr>as_project_id = pid, as_target_id = tid, as_asset_type = ty, as_value = x,
    as_metadata = m, as_first_seen = t, as_last_seen = t\<rparr>"
  let ?m1 = "merge_asset_metadata None m1"
  let ?m2 = "merge_asset_metadata (Some (JObj ?m1)) m2"
  have v: "validate_asset_value v = Inr v" and w: "validate_asset_value w = Inr w"
    using assms(5,6) by (simp_all add: validate_asset_value_def)
  have one: "upsert_asset same_text t1 pid tid ty v m1 [] = Inr [?row t1 v ?m1]"
    by (simp add: upsert_asset_def v stored_metadata_def insert_or_touch_def Let_def)
  have two: "upsert_asset same_text t2 pid tid ty w m2 [?row t1 v ?m1] = Inr [?row t1 v ?m1, ?row t2 w ?m2]"
    using assms(1,2,4) by (simp add: upsert_asset_def w stored_metadata_def insert_or_touch_def Let_def asset_key_eq_def)
  have "k \<in> dict_keys ?m2" if "k \<in> dict_keys m1" "k \<notin> {''provenance'', ''inferred_keys''}" for k
  proof (rule merge_keeps_keys)
    have "k \<in> dict_keys ?m1" by (rule merge_keeps_keys) (use that in auto)
    then show "k \<in> dict_keys (stored_document (Some (JObj ?m1))) \<or> k \<in> dict_keys m2"
      by (simp add: stored_document_def)
  qed (use that in auto)
  then have keys: "\<forall>k. k \<in> dict_keys m1 \<longrightarrow> k \<notin> {''provenance'', ''inferred_keys''} \<longrightarrow>
      (\<exists>a \<in> set [?row t1 v ?m1, ?row t2 w ?m2]. as_value a = w \<and> k \<in> dict_keys (as_metadata a))"
    by simp
  have "upsert_asset same_text t3 pid tid ty x m3 [?row t1 v ?m1, ?row t2 w ?m2] = Inl MultipleResultsFound"
    if "x \<in> {v, w}" for x
    using that assms(1-3) v w by (auto simp: upsert_asset_def stored_metadata_def)
  with keys show ?thesis unfolding one res_bind_simps two by simp
qed

theorem collation_twins_block_witness:
  "(case res_bind (upsert_asset (\<lambda>a b. py_lower a = py_lower b) 1 20 30 ''url'' ''http://a/X'' [(''title'', JStr ''x'')] [])
          (upsert_asset (\<lambda>a b. py_lower a = py_lower b) 2 20 30 ''url'' ''http://a/x'' []) of
     Inl _ \<Rightarrow> False
   | Inr assets \<Rightarrow>
       (\<forall>k. k \<in> dict_keys [(''title'', JStr ''x'')] \<longrightarrow> k \<notin> {''provenance'', ''inferred_keys''} \<longrightarrow>
          (\<exists>a \<in> set assets. as_value a = ''http://a/x'' \<and> k \<in> dict_keys (as_metadata a)))
       \<and> upsert_asset (\<lambda>a b. py_lower a = py_lower b) 3 20 30 ''url'' ''http://a/X'' [] assets = Inl MultipleResultsFound
       \<and> upsert_asset (\<lambda>a b. py_lower a = py_lower b) 3 20 30 ''url'' ''http://a/x'' [] assets = Inl MultipleResultsFound)"
proof (rule collation_twins_block)
  show "py_lower ''http://a/X'' = py_lower ''http://a/x''" "py_lower ''http://a/x'' = py_lower ''http://a/X''"
    by code_simp+
qed (simp_all add: MAX_ASSET_VALUE_LENGTH_def)

end
