(* ===== verification/Tool_Registry.thy ===== *)
theory Tool_Registry
  imports Mbs_Prelude
begin

text \<open>
  The tools of the scanner (\<open>scanner_engine/tool_registry.py\<close> with the class attributes of
  \<open>tool_runners/*.py\<close>), the choice of a tool for a capability (\<open>capability_registry.py\<close>,
  \<open>capabilities.py\<close>), the classification of a run (\<open>tool_runners/base.py\<close>), and the gate of the
  autonomous agent (\<open>safety.py\<close>).
\<close>

section \<open>The registry\<close>

record tool =
  tl_name :: string
  tl_version :: string
  tl_capability :: string
  tl_phase :: nat
  tl_safety_tier :: string
  tl_requires_active_testing :: bool
  tl_applicable_target_types :: "string list option"

definition mk_tool :: "string \<Rightarrow> string \<Rightarrow> string \<Rightarrow> nat \<Rightarrow> string \<Rightarrow> bool \<Rightarrow> string list option \<Rightarrow> tool" where
  "mk_tool n v c p s a t =
     \<lparr>tl_name = n, tl_version = v, tl_capability = c, tl_phase = p, tl_safety_tier = s,
      tl_requires_active_testing = a, tl_applicable_target_types = t\<rparr>"

text \<open>The class attributes of the runners; \<open>None\<close> for a runner that applies to any target type.\<close>

definition SubfinderRunner :: tool where
  "SubfinderRunner = mk_tool ''subfinder'' ''2.14.0'' ''subdomain_discovery'' 10 ''passive'' False (Some [''domain''])"

definition AmassRunner :: tool where
  "AmassRunner = mk_tool ''amass'' ''4.2.0'' ''subdomain_discovery'' 11 ''passive'' False (Some [''domain''])"

definition DnsxRunner :: tool where
  "DnsxRunner = mk_tool ''dnsx'' ''1.2.1'' ''subdomain_discovery'' 15 ''passive'' False (Some [''domain''])"

definition HttpxRunner :: tool where
  "HttpxRunner = mk_tool ''httpx'' ''1.10.0'' ''web_service_discovery'' 20 ''active_safe'' False None"

definition WhatwebRunner :: tool where
  "WhatwebRunner = mk_tool ''whatweb'' ''0.5.5'' ''web_service_discovery'' 22 ''active_safe'' False None"

definition NaabuRunner :: tool where
  "NaabuRunner = mk_tool ''naabu'' ''2.6.1'' ''port_discovery'' 30 ''active_safe'' False None"

definition NmapRunner :: tool where
  "NmapRunner = mk_tool ''nmap'' ''7'' ''service_fingerprinting'' 40 ''active_safe'' False None"

definition KatanaRunner :: tool where
  "KatanaRunner = mk_tool ''katana'' ''1.7.0'' ''web_crawling'' 45 ''active_safe'' False (Some [''domain'', ''ip_range''])"

definition FfufRunner :: tool where
  "FfufRunner = mk_tool ''ffuf'' ''2.1.0'' ''content_discovery'' 46 ''active_safe'' True (Some [''domain'', ''ip_range''])"

definition ArjunRunner :: tool where
  "ArjunRunner = mk_tool ''arjun'' ''2.2.7'' ''parameter_discovery'' 48 ''active_safe'' True (Some [''domain'', ''ip_range''])"

definition NucleiRunner :: tool where
  "NucleiRunner = mk_tool ''nuclei'' ''3.11.0'' ''vulnerability_detection'' 50 ''active_safe'' True None"

definition NucleiDastRunner :: tool where
  "NucleiDastRunner = mk_tool ''nuclei-dast'' ''3.11.0'' ''dast_fuzzing'' 55 ''active_safe'' True None"

lemmas runner_defs = SubfinderRunner_def AmassRunner_def DnsxRunner_def HttpxRunner_def WhatwebRunner_def NaabuRunner_def
  NmapRunner_def KatanaRunner_def FfufRunner_def ArjunRunner_def NucleiRunner_def NucleiDastRunner_def

definition TOOL_REGISTRY :: "tool list" where
  "TOOL_REGISTRY =
     [SubfinderRunner, AmassRunner, DnsxRunner, HttpxRunner, WhatwebRunner, NaabuRunner,
      NmapRunner, KatanaRunner, FfufRunner, ArjunRunner, NucleiRunner, NucleiDastRunner]"

definition find_tool :: "string \<Rightarrow> tool option" where
  "find_tool n = find_row (\<lambda>t. tl_name t = n) TOOL_REGISTRY"

definition applies_to :: "tool \<Rightarrow> string \<Rightarrow> bool" where
  "applies_to t target_type =
     (case tl_applicable_target_types t of None \<Rightarrow> True | Some ts \<Rightarrow> List.member ts target_type)"

section \<open>Target types\<close>

definition ENGINE_TARGET_TYPES :: "string list" where "ENGINE_TARGET_TYPES = [''domain'', ''ip_range'']"

text \<open>\<open>configured\<close> is the setting \<open>supported_target_types\<close>.\<close>

definition is_supported :: "string list \<Rightarrow> string \<Rightarrow> bool" where
  "is_supported configured target_type =
     (List.member ENGINE_TARGET_TYPES target_type \<and> List.member configured target_type)"

definition scanners_for :: "string list \<Rightarrow> string \<Rightarrow> string list" where
  "scanners_for configured target_type =
     (if \<not> is_supported configured target_type then []
      else sort (map tl_name (filter (\<lambda>t. applies_to t target_type) TOOL_REGISTRY)))"

section \<open>Safety tiers and rules of engagement\<close>

definition tier_order :: "string \<Rightarrow> int option" where
  "tier_order t =
     (if t = ''passive'' then Some 0 else if t = ''active_safe'' then Some 1
      else if t = ''intrusive'' then Some 2 else None)"

definition tier_at_most :: "string \<Rightarrow> string \<Rightarrow> bool" where
  "tier_at_most tier limit =
     ((case tier_order tier of None \<Rightarrow> 99 | Some n \<Rightarrow> n) \<le> (case tier_order limit of None \<Rightarrow> - 1 | Some n \<Rightarrow> n))"

record rules_of_engagement =
  roe_max_tier :: string
  roe_exploitation_enabled :: bool
  roe_require_approval :: bool
  roe_allowed_post_exploit :: "string list"

definition DEFAULT_POST_EXPLOIT_ALLOWLIST :: "string list" where
  "DEFAULT_POST_EXPLOIT_ALLOWLIST =
     [''whoami'', ''id'', ''hostname'', ''uname'', ''pwd'', ''list_dir'', ''count_rows'', ''read_canary'']"

text \<open>
  The scan's configuration supplies a tier (if any) and two switches; \<open>limit\<close> and \<open>deployment\<close> are the
  settings \<open>agent_safety_ceiling\<close> and \<open>agent_exploitation_enabled\<close>.
\<close>

definition roe_from_config ::
  "string \<Rightarrow> bool \<Rightarrow> string option \<Rightarrow> bool \<Rightarrow> bool \<Rightarrow> rules_of_engagement" where
  "roe_from_config limit deployment requested exploitation approval =
     (let req = (case requested of None \<Rightarrow> limit | Some t \<Rightarrow> t) in
      \<lparr>roe_max_tier = (if tier_at_most req limit then req else limit),
       roe_exploitation_enabled = (exploitation \<and> deployment),
       roe_require_approval = approval,
       roe_allowed_post_exploit = DEFAULT_POST_EXPLOIT_ALLOWLIST\<rparr>)"

definition DESTRUCTIVE_WORDS :: "string list" where
  "DESTRUCTIVE_WORDS =
     [''delete'', ''drop'', ''truncate'', ''insert'', ''update'', ''write'', ''rm'', ''unlink'',
      ''chmod'', ''chown'', ''mkfs'', ''format'', ''shutdown'', ''reboot'', ''kill'', ''persist'',
      ''backdoor'', ''implant'', ''exfil'', ''exfiltrate'', ''encrypt'', ''ransom'']"

text \<open>\<open>re.findall(r"[a-z]+", s)\<close>: the maximal runs of lower-case letters.\<close>

definition is_lower_letter :: "char \<Rightarrow> bool" where
  "is_lower_letter c = (97 \<le> (of_char c :: nat) \<and> (of_char c :: nat) \<le> 122)"

fun letter_runs :: "string \<Rightarrow> string \<Rightarrow> string list" where
  "letter_runs acc [] = (if acc = [] then [] else [rev acc])"
| "letter_runs acc (c # s) =
     (if is_lower_letter c then letter_runs (c # acc) s
      else if acc = [] then letter_runs [] s else rev acc # letter_runs [] s)"

definition is_destructive :: "string \<Rightarrow> bool" where
  "is_destructive operation =
     (let op' = py_lower operation in
      py_contains ''>>'' op' \<or> py_contains '' > '' op'
      \<or> list_ex (\<lambda>w. List.member DESTRUCTIVE_WORDS w) (letter_runs [] op'))"

datatype safety_violation = DestructiveOperation | TierAboveCeiling | ExploitationDisabled | PrimitiveNotAllowed

definition assert_action_allowed ::
  "string \<Rightarrow> rules_of_engagement \<Rightarrow> string \<Rightarrow> string option \<Rightarrow> safety_violation + unit" where
  "assert_action_allowed safety_tier roe operation primitive =
     (if safety_tier = ''simulated'' then Inr ()
      else if is_destructive operation then Inl DestructiveOperation
      else if \<not> tier_at_most safety_tier (roe_max_tier roe) then Inl TierAboveCeiling
      else if safety_tier = ''intrusive'' \<and> \<not> roe_exploitation_enabled roe then Inl ExploitationDisabled
      else (case primitive of
              None \<Rightarrow> Inr ()
            | Some p \<Rightarrow> if List.member (roe_allowed_post_exploit roe) p then Inr () else Inl PrimitiveNotAllowed))"

section \<open>Choosing a tool for a capability\<close>

definition tools_for_capability :: "string \<Rightarrow> string list" where
  "tools_for_capability capability =
     map tl_name (filter (\<lambda>t. tl_capability t = capability) (sort_key tl_phase TOOL_REGISTRY))"

definition qualifies :: "string \<Rightarrow> bool \<Rightarrow> string \<Rightarrow> string list \<Rightarrow> tool \<Rightarrow> bool" where
  "qualifies target_type active_testing max_tier already_run t =
     (\<not> List.member already_run (tl_name t) \<and> applies_to t target_type
      \<and> tier_at_most (tl_safety_tier t) max_tier
      \<and> (tl_requires_active_testing t \<longrightarrow> active_testing))"

fun first_qualifying :: "string \<Rightarrow> bool \<Rightarrow> string \<Rightarrow> string list \<Rightarrow> string list \<Rightarrow> string option" where
  "first_qualifying target_type active_testing max_tier already_run [] = None"
| "first_qualifying target_type active_testing max_tier already_run (n # names) =
     (case find_tool n of
        None \<Rightarrow> first_qualifying target_type active_testing max_tier already_run names
      | Some t \<Rightarrow>
          if qualifies target_type active_testing max_tier already_run t then Some n
          else first_qualifying target_type active_testing max_tier already_run names)"

definition resolve_capability :: "string \<Rightarrow> string \<Rightarrow> bool \<Rightarrow> string \<Rightarrow> string list \<Rightarrow> string option" where
  "resolve_capability capability target_type active_testing max_tier already_run =
     first_qualifying target_type active_testing max_tier already_run (tools_for_capability capability)"

section \<open>The outcome of one run\<close>

definition classify_run :: "bool \<Rightarrow> int list \<Rightarrow> int \<Rightarrow> string \<Rightarrow> bool \<Rightarrow> string" where
  "classify_run hard_failure benign_exit_codes exit_code stdout produced_findings =
     (if hard_failure then ''failed''
      else if exit_code = 0 \<or> List.member benign_exit_codes exit_code then ''completed''
      else if produced_findings \<or> py_strip stdout \<noteq> [] then ''partial''
      else ''failed'')"

section \<open>Properties\<close>

lemma registry_names_distinct: "distinct (map tl_name TOOL_REGISTRY)"
  by (simp add: TOOL_REGISTRY_def runner_defs mk_tool_def)

lemma find_tool_iff: "find_tool n = Some t \<longleftrightarrow> t \<in> set TOOL_REGISTRY \<and> tl_name t = n"
  unfolding find_tool_def using find_row_key_iff [of tl_name TOOL_REGISTRY n t] registry_names_distinct
  by (simp add: unique_key_def)

lemma first_qualifying_map:
  "set ts \<subseteq> set TOOL_REGISTRY \<Longrightarrow> first_qualifying ty act tier used (map tl_name ts) =
     map_option tl_name (List.find (qualifies ty act tier used) ts)"
proof (induction ts)
  case (Cons t ts)
  then have "find_tool (tl_name t) = Some t" by (simp add: find_tool_iff)
  with Cons show ?case by simp
qed simp

lemma find_filter_sorted:
  assumes "sorted (map f ts)" and "List.find P ts = Some t"
  shows "t \<in> set ts \<and> P t \<and> (\<forall>u \<in> set ts. P u \<longrightarrow> f t \<le> f u)"
  using assms
proof (induction ts)
  case (Cons a ts)
  then show ?case by (cases "P a") auto
qed simp

text \<open>
  The tool chosen for a capability is in the registry, serves the capability, passes every gate, and no
  qualifying tool of an earlier phase exists; none is chosen exactly when no tool qualifies.
\<close>
theorem capability_resolution:
  "case resolve_capability capability ty act tier used of
     Some n \<Rightarrow> (\<exists>t \<in> set TOOL_REGISTRY. tl_name t = n \<and> tl_capability t = capability \<and> qualifies ty act tier used t
          \<and> (\<forall>u \<in> set TOOL_REGISTRY. tl_capability u = capability \<longrightarrow> qualifies ty act tier used u \<longrightarrow> tl_phase t \<le> tl_phase u))
   | None \<Rightarrow> (\<forall>u \<in> set TOOL_REGISTRY. tl_capability u = capability \<longrightarrow> \<not> qualifies ty act tier used u)"
proof -
  let ?ts = "filter (\<lambda>t. tl_capability t = capability) (sort_key tl_phase TOOL_REGISTRY)"
  have sub: "set ?ts \<subseteq> set TOOL_REGISTRY" by auto
  have srt: "sorted (map tl_phase ?ts)" by (rule sorted_filter) simp
  have e: "resolve_capability capability ty act tier used = map_option tl_name (List.find (qualifies ty act tier used) ?ts)"
    by (simp add: resolve_capability_def tools_for_capability_def first_qualifying_map [OF sub])
  show ?thesis
  proof (cases "List.find (qualifies ty act tier used) ?ts")
    case None
    then have "\<forall>u \<in> set TOOL_REGISTRY. tl_capability u = capability \<longrightarrow> \<not> qualifies ty act tier used u"
      by (auto simp: find_None_iff)
    with None show ?thesis by (simp add: e)
  next
    case (Some t)
    from find_filter_sorted [OF srt Some] show ?thesis by (auto simp: e Some)
  qed
qed

theorem capability_resolution_witness:
  "case resolve_capability ''subdomain_discovery'' ''domain'' False ''passive'' [''subfinder''] of
     Some n \<Rightarrow> (\<exists>t \<in> set TOOL_REGISTRY. tl_name t = n \<and> tl_capability t = ''subdomain_discovery''
          \<and> qualifies ''domain'' False ''passive'' [''subfinder''] t
          \<and> (\<forall>u \<in> set TOOL_REGISTRY. tl_capability u = ''subdomain_discovery'' \<longrightarrow>
               qualifies ''domain'' False ''passive'' [''subfinder''] u \<longrightarrow> tl_phase t \<le> tl_phase u))
   | None \<Rightarrow> (\<forall>u \<in> set TOOL_REGISTRY. tl_capability u = ''subdomain_discovery'' \<longrightarrow>
        \<not> qualifies ''domain'' False ''passive'' [''subfinder''] u)"
  by (rule capability_resolution)

lemma tier_at_most_trans: "tier_at_most a b \<Longrightarrow> tier_at_most b c \<Longrightarrow> tier_at_most a c"
proof -
  have "tier_order t \<in> {None, Some 0, Some 1, Some 2}" for t by (simp add: tier_order_def)
  from this [of b] show "tier_at_most a b \<Longrightarrow> tier_at_most b c \<Longrightarrow> tier_at_most a c"
    by (auto simp: tier_at_most_def split: option.splits)
qed

text \<open>
  The agent's gate under rules built from a scan: an action that reaches the target is not destructive,
  its tier is known and within the deployment's ceiling whatever the scan asked for, real exploitation
  needs both the scan's and the deployment's switch, and a post-exploitation step is a read-only primitive.
\<close>
theorem agent_action_contained:
  assumes "assert_action_allowed safety_tier (roe_from_config limit deployment requested exploitation approval)
      operation primitive = Inr ()" and "safety_tier \<noteq> ''simulated''"
  shows "\<not> is_destructive operation \<and> tier_order safety_tier \<noteq> None \<and> tier_at_most safety_tier limit
    \<and> (if safety_tier = ''intrusive'' then exploitation \<and> deployment else True)
    \<and> (case primitive of None \<Rightarrow> True | Some p \<Rightarrow> p \<in> set DEFAULT_POST_EXPLOIT_ALLOWLIST)"
proof -
  let ?roe = "roe_from_config limit deployment requested exploitation approval"
  from assms have g: "\<not> is_destructive operation" "tier_at_most safety_tier (roe_max_tier ?roe)"
    "safety_tier = ''intrusive'' \<Longrightarrow> roe_exploitation_enabled ?roe"
    "case primitive of None \<Rightarrow> True | Some p \<Rightarrow> List.member (roe_allowed_post_exploit ?roe) p"
    by (auto simp: assert_action_allowed_def split: if_splits option.splits)
  have cap: "tier_at_most safety_tier limit"
    using g(2) tier_at_most_trans by (auto simp: roe_from_config_def Let_def split: if_splits)
  then have "tier_order safety_tier \<noteq> None"
    by (auto simp: tier_at_most_def tier_order_def split: if_splits)
  with g cap show ?thesis
    by (auto simp: roe_from_config_def Let_def split: option.splits)
qed

theorem agent_action_contained_witness:
  "\<not> is_destructive ''read banner'' \<and> tier_order ''active_safe'' \<noteq> None \<and> tier_at_most ''active_safe'' ''active_safe''
    \<and> (if ''active_safe'' = ''intrusive'' then True \<and> False else True)
    \<and> (case Some ''whoami'' of None \<Rightarrow> True | Some p \<Rightarrow> p \<in> set DEFAULT_POST_EXPLOIT_ALLOWLIST)"
proof (rule agent_action_contained)
  show "assert_action_allowed ''active_safe'' (roe_from_config ''active_safe'' False (Some ''intrusive'') True True)
      ''read banner'' (Some ''whoami'') = Inr ()"
    by code_simp
qed simp

end
