(* ===== verification/Scanner_Manager.thy ===== *)
theory Scanner_Manager
  imports Scan_Lifecycle Runtime_Flags Evidence_Store Asset_Inventory Tool_Registry Private_Sites
begin

text \<open>
  The scanner manager (\<open>scanner_manager/app.py\<close>), the boundary between the workers and the control
  plane: authentication, the gate of every scan-scoped request, leasing, completion, the stop probe, tool
  announcements and results, evidence, metrics and the site configuration.

  A handler is a function from the manager's state to its answer and the new state. A refusal is a raise:
  what was not committed is rolled back. The tenancy filter of the ORM is not installed in this process
  (only \<open>main.py\<close> and the Celery worker install it), so lookups by primary key see every row. The parser of
  a tool's output and the ingestion of its findings are parameters, as are the digests, the text of a UUID
  and the representation of a value that is not a string; fresh ids are drawn from a counter.
\<close>

section \<open>State and environment\<close>

record target =
  tg_id :: uuid
  tg_project_id :: uuid
  tg_type :: string
  tg_value :: string
  tg_criticality :: string
  tg_network_zone :: string
  tg_site_id :: "uuid option"

record 'v mgr =
  mg_fleet :: fleet
  mg_sites :: "private_site list"
  mg_targets :: "target list"
  mg_scans :: "scan list"
  mg_runs :: "tool_run list"
  mg_evidence :: "evidence list"
  mg_links :: "(uuid \<times> uuid \<times> uuid option) list"    \<comment> \<open>vulnerability, evidence, tool run\<close>
  mg_assets :: "asset list"
  mg_objects :: objects
  mg_vulns :: 'v
  mg_next :: uuid
  mg_flag :: cached_flag
  mg_observed :: "bool option"                          \<comment> \<open>\<open>_EMERGENCY_STATE\<close>\<close>
  mg_transitions :: "(bool \<times> bool) list"                \<comment> \<open>audit rows of observed transitions\<close>

record 'v conf =
  mc_digest :: "string \<Rightarrow> string"
  mc_sha :: "string \<Rightarrow> string"
  mc_uid :: "uuid \<Rightarrow> string"
  mc_repr :: "json \<Rightarrow> string"
  mc_same_text :: "string \<Rightarrow> string \<Rightarrow> bool"
  mc_bucket :: string
  mc_vpn_pools :: "string list"
  mc_env_disabled :: bool
  mc_parse :: "string \<Rightarrow> string \<Rightarrow> int \<Rightarrow> json list option"
  mc_ingest :: "scan \<Rightarrow> json list \<Rightarrow> uuid \<Rightarrow> uuid \<Rightarrow> target option \<Rightarrow> 'v \<Rightarrow> nat \<times> 'v"
  mc_find_vuln :: "uuid \<Rightarrow> string \<Rightarrow> 'v \<Rightarrow> uuid option"

text \<open>One request's clocks, what the file system and the audit trail answer.\<close>

record req_env =
  rq_now :: time
  rq_monotonic :: real
  rq_probe :: "bool option"
  rq_audit_ok :: bool

datatype mgr_error =
    HttpErr nat string
  | WorkerDenied worker_refusal      \<comment> \<open>403\<close>
  | SiteDenied site_refusal          \<comment> \<open>403\<close>
  | EvidenceDenied evidence_rejected \<comment> \<open>400\<close>
  | ServerError                      \<comment> \<open>an exception that no handler catches\<close>

section \<open>Authentication\<close>

definition bearer_token :: "string option \<Rightarrow> string option" where
  "bearer_token authorization =
     (if truthy authorization \<and> py_startswith (py_lower (or_empty authorization)) ''bearer ''
      then Some (py_strip (or_empty (snd (partition_char (CHR '' '') (or_empty authorization)))))
      else None)"

definition authenticated_worker ::
  "'v conf \<Rightarrow> req_env \<Rightarrow> string option \<Rightarrow> string option \<Rightarrow> string option \<Rightarrow> 'v mgr \<Rightarrow> mgr_error + worker" where
  "authenticated_worker conf env x_worker_id authorization fingerprint m =
     (let token = bearer_token authorization in
      if \<not> truthy x_worker_id then Inl (HttpErr 401 ''worker identity required'')
      else if \<not> truthy token \<and> \<not> truthy fingerprint then Inl (HttpErr 401 ''worker credential required'')
      else (case authenticate_worker (mc_digest conf) (rq_now env) (or_empty x_worker_id) token fingerprint
                   (fl_workers (mg_fleet m)) of
              Inl e \<Rightarrow> Inl (WorkerDenied e)
            | Inr w \<Rightarrow> (case assert_worker_active w of Inl e \<Rightarrow> Inl (WorkerDenied e) | Inr _ \<Rightarrow> Inr w)))"

section \<open>The emergency switch\<close>

text \<open>An audit row is written and committed only for a change of the observed value.\<close>

definition audit_emergency_transition :: "bool \<Rightarrow> bool \<Rightarrow> 'v mgr \<Rightarrow> 'v mgr" where
  "audit_emergency_transition audit_ok current m =
     (case mg_observed m of
        None \<Rightarrow> m\<lparr>mg_observed := Some current\<rparr>
      | Some previous \<Rightarrow>
          if previous = current then m
          else (let m1 = m\<lparr>mg_observed := Some current\<rparr> in
                if audit_ok then m1\<lparr>mg_transitions := mg_transitions m1 @ [(previous, current)]\<rparr> else m1))"

definition emergency_check :: "'v conf \<Rightarrow> req_env \<Rightarrow> 'v mgr \<Rightarrow> bool \<times> 'v mgr" where
  "emergency_check conf env m =
     (let (disabled, flag) = private_scanning_emergency_disabled (mc_env_disabled conf) FLAG_TTL_SECONDS
            (rq_monotonic env) (rq_probe env) (mg_flag m)
      in (disabled, audit_emergency_transition (rq_audit_ok env) disabled (m\<lparr>mg_flag := flag\<rparr>)))"

section \<open>The gate of scan-scoped requests\<close>

definition site_of_scan :: "scan \<Rightarrow> mgr_error + uuid option" where
  "site_of_scan s =
     (let v = dict_get ''site_id'' (sn_config s) in
      if json_truthy v
      then (case Option.bind v json_uuid of None \<Rightarrow> Inl ServerError | Some u \<Rightarrow> Inr (Some u))
      else Inr None)"

definition site_check :: "'v mgr \<Rightarrow> uuid \<Rightarrow> uuid \<Rightarrow> site_refusal + private_site" where
  "site_check m site_id ws =
     res_bind (get_site_for_workspace (mg_sites m) site_id ws) (\<lambda>site.
     res_bind (assert_site_scannable site) (\<lambda>_. Inr site))"

definition authorize_scan_for_worker ::
  "'v conf \<Rightarrow> req_env \<Rightarrow> worker \<Rightarrow> uuid \<Rightarrow> 'v mgr \<Rightarrow> (mgr_error + scan) \<times> 'v mgr" where
  "authorize_scan_for_worker conf env w sid m =
     (case get_scan_row sid (mg_scans m) of
        None \<Rightarrow> (Inl (HttpErr 403 ''SCAN_NOT_AUTHORIZED''), m)
      | Some scan \<Rightarrow>
          (case site_of_scan scan of
             Inl e \<Rightarrow> (Inl e, m)
           | Inr site_id \<Rightarrow>
               (case assert_worker_may_take_scan (mc_vpn_pools conf) w (sn_workspace_id scan) site_id None None of
                  Inl e \<Rightarrow> (Inl (WorkerDenied e), m)
                | Inr _ \<Rightarrow>
                    (case site_id of
                       None \<Rightarrow> (Inr scan, m)
                     | Some site \<Rightarrow>
                         (let (emergency, m1) = emergency_check conf env m in
                          if emergency then (Inl (HttpErr 403 ''PRIVATE_SCANNING_EMERGENCY_DISABLED''), m1)
                          else (case site_check m1 site (sn_workspace_id scan) of
                                  Inl e \<Rightarrow> (Inl (SiteDenied e), m1)
                                | Inr _ \<Rightarrow> (Inr scan, m1)))))))"

section \<open>Heartbeat\<close>

text \<open>
  The worker's row is flushed first and committed with the request; an authorization refusal rolls it back
  unless the audit of a transition has committed in between.
\<close>

definition WORKER_HEALTH_STATES :: "string list" where
  "WORKER_HEALTH_STATES = [''healthy'', ''degraded'', ''unhealthy'', ''unknown'']"

definition heartbeat ::
  "'v conf \<Rightarrow> req_env \<Rightarrow> worker \<Rightarrow> string \<Rightarrow> fstring option \<Rightarrow> int option \<Rightarrow> uuid option \<Rightarrow> uuid option \<Rightarrow> 'v mgr
   \<Rightarrow> (mgr_error + bool) \<times> 'v mgr" where
  "heartbeat conf env w health detail handshake scan_id token m =
     (if \<not> List.member WORKER_HEALTH_STATES health \<or> (case handshake of None \<Rightarrow> False | Some a \<Rightarrow> a < 0)
      then (Inl (HttpErr 422 ''heartbeat''), m)
      else
      let m1 = m\<lparr>mg_fleet := record_heartbeat (rq_now env) (wk_worker_id w) health detail handshake (mg_fleet m)\<rparr> in
      case (scan_id, token) of
        (Some sid, Some tok) \<Rightarrow>
          (case authorize_scan_for_worker conf env w sid m1 of
             (Inl e, m2) \<Rightarrow>
               (Inl e, if mg_transitions m2 = mg_transitions m1 then m2\<lparr>mg_fleet := mg_fleet m\<rparr> else m2)
           | (Inr scan, m2) \<Rightarrow>
               (Inr True, m2\<lparr>mg_scans := stamp_heartbeat (rq_now env) (sn_id scan) (Some tok) (mg_scans m2)\<rparr>))
      | _ \<Rightarrow> (Inr False, m1))"

section \<open>Leasing\<close>

definition ALLOWED_TOOL_CONFIG_KEYS :: "string list" where
  "ALLOWED_TOOL_CONFIG_KEYS =
     [''timeout_seconds'', ''top_ports'', ''rate'', ''crawl_depth'', ''crawl_rate'', ''param_discovery_max'',
      ''param_discovery_timeout_seconds'', ''arjun_wordlist'', ''arjun_threads'', ''arjun_request_timeout'',
      ''nuclei_tags'', ''nuclei_timeout_seconds'', ''dast_timeout_seconds'', ''ffuf_wordlist_path'', ''ffuf_rate'']"

definition required_scan_egress_mode :: "scan \<Rightarrow> string option" where
  "required_scan_egress_mode s =
     (if json_truthy (dict_get ''site_id'' (sn_config s)) then None
      else (let mode = py_lower (py_strip (json_text (dict_get ''required_egress_mode'' (sn_config s)))) in
            if mode = [] then None else Some mode))"

record job =
  jb_scan_id :: uuid
  jb_workspace_id :: uuid
  jb_project_id :: uuid
  jb_execution_token :: uuid
  jb_network_zone :: string
  jb_site_id :: "uuid option"
  jb_target_id :: uuid
  jb_target :: "(string \<times> string) option"
  jb_requested_modules :: "string list"
  jb_config :: dict
  jb_authorized_cidrs :: "string list"
  jb_dns_servers :: "string list"
  jb_pool_id :: "string option"
  jb_required_egress_mode :: "string option"

definition get_target_row :: "uuid \<Rightarrow> target list \<Rightarrow> target option" where
  "get_target_row tid ts = find_row (\<lambda>t. tg_id t = tid) ts"

definition build_job_payload :: "'v mgr \<Rightarrow> scan \<Rightarrow> private_site option \<Rightarrow> uuid \<Rightarrow> job" where
  "build_job_payload m s site token =
     \<lparr>jb_scan_id = sn_id s, jb_workspace_id = sn_workspace_id s, jb_project_id = sn_project_id s,
      jb_execution_token = token,
      jb_network_zone = (if site \<noteq> None then ''private'' else ''public''),
      jb_site_id = map_option ps_id site,
      jb_target_id = sn_target_id s,
      jb_target = map_option (\<lambda>t. (tg_type t, tg_value t)) (get_target_row (sn_target_id s) (mg_targets m)),
      jb_requested_modules = json_strings (dict_get ''requested_modules'' (sn_config s)),
      jb_config = filter (\<lambda>e. List.member ALLOWED_TOOL_CONFIG_KEYS (fst e)) (sn_config s),
      jb_authorized_cidrs = (case site of None \<Rightarrow> [] | Some p \<Rightarrow> ps_authorized_cidrs p),
      jb_dns_servers = (case site of None \<Rightarrow> [] | Some p \<Rightarrow> ps_dns_servers p),
      jb_pool_id = (case site of None \<Rightarrow> None | Some p \<Rightarrow> ps_scanner_pool_id p),
      jb_required_egress_mode = required_scan_egress_mode s\<rparr>"

definition leasable :: "scan \<Rightarrow> bool" where
  "leasable s =
     (sn_status s = ''queued'' \<or> (sn_status s = ''failed'' \<and> dict_get ''recovery'' (sn_config s) \<noteq> None))"

text \<open>The candidates of one request; the query has no order, the rows come in the order of the table.\<close>

definition lease_candidates :: "worker \<Rightarrow> nat \<Rightarrow> scan list \<Rightarrow> scan list" where
  "lease_candidates w max_jobs scans =
     (if wk_site_id w \<noteq> None
      then take max_jobs (filter (\<lambda>s. leasable s \<and> Some (sn_workspace_id s) = wk_workspace_id w) scans)
      else take (max_jobs * 4) (filter leasable scans))"

text \<open>
  Whether a candidate is for this worker: \<open>Inl\<close> for an exception that ends the request, \<open>Inr None\<close> to skip
  it, \<open>Inr (Some site)\<close> to go on.
\<close>

definition lease_check ::
  "'v conf \<Rightarrow> bool \<Rightarrow> worker \<Rightarrow> scan \<Rightarrow> 'v mgr \<Rightarrow> mgr_error + private_site option option" where
  "lease_check conf disabled w s m =
     res_bind (site_of_scan s) (\<lambda>site_id.
       if site_id \<noteq> None \<and> disabled then Inr None
       else (case assert_worker_may_take_scan (mc_vpn_pools conf) w (sn_workspace_id s) site_id None
                    (required_scan_egress_mode s) of
               Inl _ \<Rightarrow> Inr None
             | Inr _ \<Rightarrow>
                 (case site_id of
                    None \<Rightarrow> Inr (Some None)
                  | Some sid \<Rightarrow>
                      (case site_check m sid (sn_workspace_id s) of
                         Inl _ \<Rightarrow> Inr None
                       | Inr site \<Rightarrow> Inr (Some (Some site))))))"

fun lease_rows ::
  "'v conf \<Rightarrow> time \<Rightarrow> bool \<Rightarrow> worker \<Rightarrow> nat \<Rightarrow> scan list \<Rightarrow> job list \<Rightarrow> 'v mgr \<Rightarrow> (mgr_error + job list) \<times> 'v mgr" where
  "lease_rows conf now disabled w max_jobs [] leased m = (Inr leased, m)"
| "lease_rows conf now disabled w max_jobs (s # rows) leased m =
     (case lease_check conf disabled w s m of
        Inl e \<Rightarrow> (Inl e, m)
      | Inr None \<Rightarrow> lease_rows conf now disabled w max_jobs rows leased m
      | Inr (Some site) \<Rightarrow>
          (let token = mg_next m;
               (won, scans') = claim_scan now (sn_id s) token (mg_scans m);
               m1 = m\<lparr>mg_scans := scans', mg_next := Suc token\<rparr>
           in if \<not> won then lease_rows conf now disabled w max_jobs rows leased m1
              else (let leased' = leased @ [build_job_payload m1 s site token] in
                    if max_jobs \<le> length leased' then (Inr leased', m1)
                    else lease_rows conf now disabled w max_jobs rows leased' m1)))"

definition lease_jobs ::
  "'v conf \<Rightarrow> req_env \<Rightarrow> worker \<Rightarrow> nat \<Rightarrow> 'v mgr \<Rightarrow> (mgr_error + job list) \<times> 'v mgr" where
  "lease_jobs conf env w max_jobs m =
     (if max_jobs < 1 \<or> 10 < max_jobs then (Inl (HttpErr 422 ''max_jobs''), m)
      else (case assert_worker_may_lease w of
              Inl e \<Rightarrow> (Inl (WorkerDenied e), m)
            | Inr _ \<Rightarrow>
                (let (disabled, m1) = emergency_check conf env m in
                 lease_rows conf (rq_now env) disabled w max_jobs (lease_candidates w max_jobs (mg_scans m1)) [] m1)))"

end
