(* ===== verification/Manager_Results.thy ===== *)
theory Manager_Results
  imports Scanner_Manager
begin

text \<open>
  The rest of \<open>scanner_manager/app.py\<close>: completion and the stop probe of a leased scan, the announcement
  and the result of a tool run, evidence, the configuration of a worker's own site, and the metrics. Each
  handler that names a scan passes the gate of \<open>Scanner_Manager\<close> first.
\<close>

section \<open>Completion and the stop probe\<close>

datatype completion = Accepted string | Superseded string string   \<comment> \<open>reason, status of the row\<close>

definition complete_lease ::
  "'v conf \<Rightarrow> req_env \<Rightarrow> worker \<Rightarrow> uuid \<Rightarrow> uuid \<Rightarrow> string \<Rightarrow> 'v mgr \<Rightarrow> (mgr_error + completion) \<times> 'v mgr" where
  "complete_lease conf env w sid token st m =
     (if \<not> List.member [''completed'', ''completed_with_errors'', ''failed''] st
      then (Inl (HttpErr 400 ''INVALID_TERMINAL_STATUS''), m)
      else (case authorize_scan_for_worker conf env w sid m of
              (Inl e, m1) \<Rightarrow> (Inl e, m1)
            | (Inr scan, m1) \<Rightarrow>
                (let (won, scans') = finalize_status (rq_now env) (sn_id scan) st token (mg_scans m1);
                     m2 = m1\<lparr>mg_scans := scans'\<rparr>;
                     current = (case get_scan_row sid scans' of None \<Rightarrow> [] | Some s \<Rightarrow> sn_status s)
                 in (Inr (if won then Accepted st else Superseded (ownership_lost_reason current) current), m2))))"

definition scan_status ::
  "'v conf \<Rightarrow> req_env \<Rightarrow> worker \<Rightarrow> uuid \<Rightarrow> uuid \<Rightarrow> 'v mgr \<Rightarrow> (mgr_error + string option) \<times> 'v mgr" where
  "scan_status conf env w sid token m =
     (case authorize_scan_for_worker conf env w sid m of
        (Inl e, m1) \<Rightarrow> (Inl e, m1)
      | (Inr scan, m1) \<Rightarrow> (Inr (execution_stop_reason (sn_id scan) token (mg_scans m1)), m1))"

section \<open>Guards of the result endpoints\<close>

definition authorized_tool_name :: "scan \<Rightarrow> string \<Rightarrow> mgr_error + tool" where
  "authorized_tool_name s tool_name =
     (if \<not> List.member (json_strings (dict_get ''requested_modules'' (sn_config s))) tool_name
      then Inl (HttpErr 400 ''TOOL_NOT_REQUESTED_FOR_SCAN'')
      else (case find_tool tool_name of
              None \<Rightarrow> Inl (HttpErr 400 ''UNKNOWN_TOOL_NAME'')
            | Some t \<Rightarrow> Inr t))"

definition assert_execution_token :: "scan \<Rightarrow> uuid \<Rightarrow> mgr_error + unit" where
  "assert_execution_token s token =
     (if sn_execution_token s \<noteq> Some token then Inl (HttpErr 409 ''EXECUTION_SUPERSEDED'') else Inr ())"

text \<open>Five seconds of clock skew, in microseconds.\<close>

definition TOOL_START_FUTURE_TOLERANCE :: time where "TOOL_START_FUTURE_TOLERANCE = 5000000"

definition resolve_tool_started_at :: "py_datetime option \<Rightarrow> time \<Rightarrow> time" where
  "resolve_tool_started_at reported completed_at =
     (case reported of
        None \<Rightarrow> completed_at
      | Some r \<Rightarrow>
          (let t = to_utc r in
           if t - completed_at > TOOL_START_FUTURE_TOLERANCE then completed_at else min t completed_at))"

definition command_hash :: "'v conf \<Rightarrow> string option \<Rightarrow> string" where
  "command_hash conf command = (if truthy command then mc_sha conf (or_empty command) else [])"

definition get_run :: "uuid \<Rightarrow> tool_run list \<Rightarrow> tool_run option" where
  "get_run rid runs = find_row (\<lambda>r. tn_id r = rid) runs"

definition put_run :: "tool_run \<Rightarrow> tool_run list \<Rightarrow> tool_run list" where
  "put_run r runs = update_where (\<lambda>q. tn_id q = tn_id r) (\<lambda>_. r) runs"

text \<open>The run a request names: absent, of this scan, or of another scan (refused).\<close>

definition run_of_scan :: "scan \<Rightarrow> uuid \<Rightarrow> tool_run list \<Rightarrow> mgr_error + tool_run option" where
  "run_of_scan s rid runs =
     (case get_run rid runs of
        None \<Rightarrow> Inr None
      | Some r \<Rightarrow> if tn_scan_id r \<noteq> sn_id s then Inl (HttpErr 403 ''TOOL_RUN_BELONGS_TO_ANOTHER_SCAN'') else Inr (Some r))"

section \<open>Tool announcement\<close>

definition started_run :: "scan \<Rightarrow> uuid \<Rightarrow> tool \<Rightarrow> time \<Rightarrow> tool_run" where
  "started_run s rid t started_at =
     \<lparr>tn_id = rid, tn_scan_id = sn_id s, tn_tool_name = tl_name t, tn_tool_version = tl_version t,
      tn_status = ''running'', tn_command_hash = [], tn_effective_command = None, tn_timed_out = False,
      tn_started_at = Some started_at, tn_completed_at = None, tn_exit_code = None, tn_raw_output_ref = None,
      tn_error_message = None\<rparr>"

definition announce :: "scan \<Rightarrow> uuid \<Rightarrow> tool \<Rightarrow> time \<Rightarrow> tool_run option \<Rightarrow> tool_run list \<Rightarrow> tool_run list" where
  "announce s rid t started_at existing runs =
     (case existing of
        None \<Rightarrow> runs @ [started_run s rid t started_at]
      | Some r \<Rightarrow> if tn_status r = ''running'' \<and> tn_completed_at r = None
                  then put_run (r\<lparr>tn_started_at := Some started_at\<rparr>) runs else runs)"

definition submit_tool_started ::
  "'v conf \<Rightarrow> req_env \<Rightarrow> worker \<Rightarrow> uuid \<Rightarrow> uuid \<Rightarrow> string \<Rightarrow> uuid \<Rightarrow> py_datetime option \<Rightarrow> 'v mgr
   \<Rightarrow> (mgr_error + unit) \<times> 'v mgr" where
  "submit_tool_started conf env w sid rid tool_name token started m =
     (case authorize_scan_for_worker conf env w sid m of
        (Inl e, m1) \<Rightarrow> (Inl e, m1)
      | (Inr scan, m1) \<Rightarrow>
          (case res_bind (assert_execution_token scan token) (\<lambda>_.
                res_bind (authorized_tool_name scan tool_name) (\<lambda>t.
                res_bind (run_of_scan scan rid (mg_runs m1)) (\<lambda>existing. Inr (t, existing)))) of
             Inl e \<Rightarrow> (Inl e, m1)
           | Inr (t, existing) \<Rightarrow>
               (Inr (), m1\<lparr>mg_runs := announce scan rid t (resolve_tool_started_at started (rq_now env)) existing
                            (mg_runs m1)\<rparr>)))"

section \<open>Tool results\<close>

record tool_result_in =
  ti_scan_id :: uuid
  ti_tool_run_id :: uuid
  ti_tool_name :: string
  ti_execution_token :: uuid
  ti_status :: string
  ti_findings :: "json list"
  ti_exit_code :: "int option"
  ti_error_message :: "string option"
  ti_started_at :: "py_datetime option"
  ti_effective_command :: "string option"
  ti_timed_out :: "bool option"

definition ALLOWED_TOOL_STATUSES :: "string list" where
  "ALLOWED_TOOL_STATUSES = [''completed'', ''partial'', ''failed'', ''skipped_unauthorized'']"

definition message_of :: "string option \<Rightarrow> fstring option" where
  "message_of s = (if truthy s then Some [Lit (or_empty s)] else None)"

definition new_run :: "'v conf \<Rightarrow> tool_result_in \<Rightarrow> scan \<Rightarrow> tool \<Rightarrow> time \<Rightarrow> tool_run" where
  "new_run conf p s t now =
     \<lparr>tn_id = ti_tool_run_id p, tn_scan_id = sn_id s, tn_tool_name = tl_name t, tn_tool_version = tl_version t,
      tn_status = ti_status p, tn_command_hash = command_hash conf (ti_effective_command p),
      tn_effective_command = ti_effective_command p, tn_timed_out = (ti_timed_out p = Some True),
      tn_started_at = Some (resolve_tool_started_at (ti_started_at p) now), tn_completed_at = Some now,
      tn_exit_code = ti_exit_code p, tn_raw_output_ref = None, tn_error_message = message_of (ti_error_message p)\<rparr>"

text \<open>A resubmission: the first terminal status wins, missing or inverted times are repaired.\<close>

definition resubmitted_run :: "'v conf \<Rightarrow> tool_result_in \<Rightarrow> tool \<Rightarrow> time \<Rightarrow> tool_run \<Rightarrow> tool_run" where
  "resubmitted_run conf p t now r =
     (let r1 = (if List.member ALLOWED_TOOL_STATUSES (tn_status r) then r else r\<lparr>tn_status := ti_status p\<rparr>);
          r2 = r1\<lparr>tn_tool_name := tl_name t, tn_tool_version := tl_version t\<rparr>;
          r3 = (case tn_started_at r2 of
                  Some s0 \<Rightarrow> if now < s0 then r2\<lparr>tn_started_at := Some (resolve_tool_started_at (ti_started_at p) now)\<rparr> else r2
                | None \<Rightarrow> r2\<lparr>tn_started_at := Some (resolve_tool_started_at (ti_started_at p) now)\<rparr>);
          r4 = (case (tn_completed_at r3, tn_started_at r3) of
                  (Some c, Some s0) \<Rightarrow> if c < s0 then r3\<lparr>tn_completed_at := Some now\<rparr> else r3
                | _ \<Rightarrow> r3\<lparr>tn_completed_at := Some now\<rparr>);
          r5 = (case ti_exit_code p of None \<Rightarrow> r4 | Some c \<Rightarrow> r4\<lparr>tn_exit_code := Some c\<rparr>);
          r6 = (if truthy (ti_error_message p) then r5\<lparr>tn_error_message := message_of (ti_error_message p)\<rparr> else r5);
          r7 = (if truthy (ti_effective_command p) \<and> \<not> truthy (tn_effective_command r6)
                then r6\<lparr>tn_effective_command := ti_effective_command p,
                        tn_command_hash := command_hash conf (ti_effective_command p)\<rparr> else r6)
      in if ti_timed_out p = Some True then r7\<lparr>tn_timed_out := True\<rparr> else r7)"

definition record_result ::
  "'v conf \<Rightarrow> tool_result_in \<Rightarrow> scan \<Rightarrow> tool \<Rightarrow> time \<Rightarrow> tool_run option \<Rightarrow> tool_run list \<Rightarrow> tool_run list" where
  "record_result conf p s t now existing runs =
     (case existing of
        None \<Rightarrow> runs @ [new_run conf p s t now]
      | Some r \<Rightarrow> put_run (resubmitted_run conf p t now r) runs)"

text \<open>\<open>str(v)\<close>, and \<open>dict(v)\<close> of an object or a list of pairs with text keys (else a \<open>TypeError\<close>).\<close>

definition py_str :: "'v conf \<Rightarrow> json \<Rightarrow> string" where
  "py_str conf v =
     (case v of JStr s \<Rightarrow> s | JNum n \<Rightarrow> int_text n | JBool b \<Rightarrow> if b then ''True'' else ''False'' | _ \<Rightarrow> mc_repr conf v)"

definition json_pair :: "json \<Rightarrow> (string \<times> json) option" where
  "json_pair v = (case v of JArr [JStr k, x] \<Rightarrow> Some (k, x) | _ \<Rightarrow> None)"

definition py_dict :: "json option \<Rightarrow> dict option" where
  "py_dict v =
     (if \<not> json_truthy v then Some []
      else (case v of
              Some (JObj d) \<Rightarrow> Some d
            | Some (JArr xs) \<Rightarrow>
                if list_all (\<lambda>x. json_pair x \<noteq> None) xs
                then Some (fold (\<lambda>x d. case json_pair x of None \<Rightarrow> d | Some (k, y) \<Rightarrow> dict_put k y d) xs [])
                else None
            | _ \<Rightarrow> None))"

text \<open>One finding: \<open>None\<close> when it is no asset, else whether it was stored. A failure leaves the assets as they were.\<close>

definition ingest_asset :: "'v conf \<Rightarrow> time \<Rightarrow> scan \<Rightarrow> json \<Rightarrow> asset list \<Rightarrow> bool option \<times> asset list" where
  "ingest_asset conf now s finding assets =
     (case finding of
        JObj d \<Rightarrow>
          (if \<not> json_truthy (dict_get ''asset_type'' d) \<or> \<not> json_truthy (dict_get ''value'' d) then (None, assets)
           else (case py_dict (dict_get ''metadata'' d) of
                   None \<Rightarrow> (Some False, assets)
                 | Some md \<Rightarrow>
                     (case upsert_asset (mc_same_text conf) now (sn_project_id s) (sn_target_id s)
                             (py_str conf (get_or_null ''asset_type'' d)) (py_str conf (get_or_null ''value'' d)) md assets of
                        Inl _ \<Rightarrow> (Some False, assets)
                      | Inr assets' \<Rightarrow> (Some True, assets'))))
      | _ \<Rightarrow> (None, assets))"

fun ingest_assets :: "'v conf \<Rightarrow> time \<Rightarrow> scan \<Rightarrow> json list \<Rightarrow> asset list \<Rightarrow> nat \<times> nat \<times> asset list" where
  "ingest_assets conf now s [] assets = (0, 0, assets)"
| "ingest_assets conf now s (f # fs) assets =
     (let (r, assets1) = ingest_asset conf now s f assets;
          (stored, rejected, assets2) = ingest_assets conf now s fs assets1
      in (stored + (if r = Some True then 1 else 0), rejected + (if r = Some False then 1 else 0), assets2))"

text \<open>The answer counts the stored and the rejected assets.\<close>

definition submit_tool_result ::
  "'v conf \<Rightarrow> req_env \<Rightarrow> worker \<Rightarrow> tool_result_in \<Rightarrow> 'v mgr \<Rightarrow> (mgr_error + nat \<times> nat) \<times> 'v mgr" where
  "submit_tool_result conf env w p m =
     (case authorize_scan_for_worker conf env w (ti_scan_id p) m of
        (Inl e, m1) \<Rightarrow> (Inl e, m1)
      | (Inr scan, m1) \<Rightarrow>
          (case res_bind (assert_execution_token scan (ti_execution_token p)) (\<lambda>_.
                res_bind (authorized_tool_name scan (ti_tool_name p)) (\<lambda>t.
                if \<not> List.member ALLOWED_TOOL_STATUSES (ti_status p) then Inl (HttpErr 400 ''INVALID_TOOL_STATUS'')
                else res_bind (run_of_scan scan (ti_tool_run_id p) (mg_runs m1)) (\<lambda>existing. Inr (t, existing)))) of
             Inl e \<Rightarrow> (Inl e, m1)
           | Inr (t, existing) \<Rightarrow>
               (let m2 = m1\<lparr>mg_runs := record_result conf p scan t (rq_now env) existing (mg_runs m1)\<rparr>;
                    (stored, rejected, assets') = ingest_assets conf (rq_now env) scan (ti_findings p) (mg_assets m2)
                in (Inr (stored, rejected), m2\<lparr>mg_assets := assets'\<rparr>))))"

section \<open>Evidence\<close>

definition link_screenshot :: "'v conf \<Rightarrow> scan \<Rightarrow> uuid \<Rightarrow> string \<Rightarrow> uuid option \<Rightarrow> 'v mgr \<Rightarrow> 'v mgr" where
  "link_screenshot conf s eid fingerprint run m =
     (case mc_find_vuln conf (sn_project_id s) fingerprint (mg_vulns m) of
        None \<Rightarrow> m
      | Some v \<Rightarrow> if list_ex (\<lambda>(v', e', _). v' = v \<and> e' = eid) (mg_links m) then m
                  else m\<lparr>mg_links := mg_links m @ [(v, eid, run)]\<rparr>)"

definition ingest_from_raw_output ::
  "'v conf \<Rightarrow> scan \<Rightarrow> tool_run \<Rightarrow> uuid \<Rightarrow> string \<Rightarrow> string \<Rightarrow> string \<Rightarrow> 'v mgr \<Rightarrow> nat \<times> 'v mgr" where
  "ingest_from_raw_output conf s r eid tool_name content content_type m =
     (if \<not> py_startswith content_type ''text/'' \<or> find_tool tool_name = None \<or> tn_status r = ''failed'' then (0, m)
      else (case mc_parse conf tool_name content (case tn_exit_code r of None \<Rightarrow> 0 | Some c \<Rightarrow> c) of
              None \<Rightarrow> (0, m)
            | Some [] \<Rightarrow> (0, m)
            | Some fs \<Rightarrow>
                (let (n, v') = mc_ingest conf s fs (tn_id r) eid (get_target_row (sn_target_id s) (mg_targets m)) (mg_vulns m)
                 in (n, m\<lparr>mg_vulns := v'\<rparr>))))"

definition evidence_row_for :: "uuid option \<Rightarrow> string \<Rightarrow> evidence list \<Rightarrow> evidence option" where
  "evidence_row_for run checksum rows =
     (case run of None \<Rightarrow> None
      | Some r \<Rightarrow> find_row (\<lambda>e. ed_tool_run_id e = Some r \<and> ed_checksum e = checksum) rows)"

text \<open>The evidence row of a run and a checksum is reused; without a run every submission makes a new row.\<close>

definition keep_evidence_row :: "evidence_in \<Rightarrow> string \<Rightarrow> string \<Rightarrow> 'v mgr \<Rightarrow> uuid \<times> 'v mgr" where
  "keep_evidence_row p uri checksum m =
     (case evidence_row_for (ei_tool_run_id p) checksum (mg_evidence m) of
        Some e \<Rightarrow> (ed_id e, m)
      | None \<Rightarrow>
          (mg_next m,
           m\<lparr>mg_evidence := mg_evidence m @
               [\<lparr>ed_id = mg_next m, ed_tool_run_id = ei_tool_run_id p,
                 ed_evidence_type = (if base_type (ei_content_type p) = ''image/png'' then ''screenshot'' else ''log_excerpt''),
                 ed_storage_uri = uri, ed_checksum = checksum\<rparr>],
             mg_next := Suc (mg_next m)\<rparr>))"

definition refer_to_output :: "tool_run option \<Rightarrow> string \<Rightarrow> 'v mgr \<Rightarrow> 'v mgr" where
  "refer_to_output run uri m =
     (case run of
        None \<Rightarrow> m
      | Some r \<Rightarrow> if truthy (tn_raw_output_ref r) then m
                  else m\<lparr>mg_runs := put_run (r\<lparr>tn_raw_output_ref := Some uri\<rparr>) (mg_runs m)\<rparr>)"

text \<open>
  After the checks: the bytes are stored, then the rows are written. A run id without a row breaks the
  foreign key of a new evidence row: the rows are rolled back, the stored bytes are not.
\<close>

definition file_evidence ::
  "'v conf \<Rightarrow> scan \<Rightarrow> evidence_in \<Rightarrow> string \<Rightarrow> 'v mgr \<Rightarrow> (mgr_error + nat) \<times> 'v mgr" where
  "file_evidence conf s p content m =
     (case local_submit_evidence (mc_sha conf) (mc_uid conf) (mc_bucket conf) (sn_id s) (ei_tool_run_id p) content
             (ei_content_type p) (mg_objects m) of
        (Inl e, _) \<Rightarrow> (Inl (EvidenceDenied e), m)
      | (Inr (uri, checksum), objs') \<Rightarrow>
          (let m1 = m\<lparr>mg_objects := objs'\<rparr>;
               run = Option.bind (ei_tool_run_id p) (\<lambda>rid. get_run rid (mg_runs m1))
           in if evidence_row_for (ei_tool_run_id p) checksum (mg_evidence m1) = None
                 \<and> ei_tool_run_id p \<noteq> None \<and> run = None
              then (Inl ServerError, m1)
              else
               (let (eid, m2) = keep_evidence_row p uri checksum m1;
                    m3 = (if base_type (ei_content_type p) = ''image/png'' \<and> truthy (ei_fingerprint p)
                          then link_screenshot conf s eid (or_empty (ei_fingerprint p)) (ei_tool_run_id p) m2 else m2);
                    m4 = refer_to_output run uri m3
                in (case (run, truthy (ei_tool_name p)) of
                      (Some r, True) \<Rightarrow>
                        (let (n, m5) = ingest_from_raw_output conf s r eid (or_empty (ei_tool_name p)) content
                                         (ei_content_type p) m4
                         in (Inr n, m5))
                    | _ \<Rightarrow> (Inr 0, m4)))))"

definition submit_evidence ::
  "'v conf \<Rightarrow> req_env \<Rightarrow> worker \<Rightarrow> evidence_in \<Rightarrow> 'v mgr \<Rightarrow> (mgr_error + nat) \<times> 'v mgr" where
  "submit_evidence conf env w p m =
     (case authorize_scan_for_worker conf env w (ei_scan_id p) m of
        (Inl e, m1) \<Rightarrow> (Inl e, m1)
      | (Inr scan, m1) \<Rightarrow>
          (case b64decode (ei_content_b64 p) of
             None \<Rightarrow> (Inl (HttpErr 400 ''EVIDENCE_NOT_BASE64''), m1)
           | Some content \<Rightarrow>
               (case validate_evidence (mc_sha conf) content (ei_content_type p) of
                  Inl e \<Rightarrow> (Inl (EvidenceDenied e), m1)
                | Inr digest \<Rightarrow>
                    if truthy (ei_sha256 p) \<and> py_lower (or_empty (ei_sha256 p)) \<noteq> digest
                    then (Inl (HttpErr 400 ''EVIDENCE_DIGEST_MISMATCH''), m1)
                    else (case assert_execution_token scan (ei_execution_token p) of
                            Inl e \<Rightarrow> (Inl e, m1)
                          | Inr _ \<Rightarrow> file_evidence conf scan p content m1))))"

section \<open>Site configuration and metrics\<close>

definition site_config :: "worker \<Rightarrow> 'v mgr \<Rightarrow> mgr_error + private_site" where
  "site_config w m =
     (case wk_site_id w of
        None \<Rightarrow> Inl (HttpErr 403 ''WORKER_NOT_PRIVATE'')
      | Some site \<Rightarrow>
          (case wk_workspace_id w of
             None \<Rightarrow> Inl (HttpErr 403 ''WORKER_MISCONFIGURED'')
           | Some ws \<Rightarrow> (case get_site_for_workspace (mg_sites m) site ws of
                           Inl e \<Rightarrow> Inl (SiteDenied e) | Inr s \<Rightarrow> Inr s)))"

text \<open>A sample of the exposition text: its metric, its only label (the pool), and its value.\<close>

datatype metric =
    TunnelUp string bool | TunnelHandshakeAge string int | HeartbeatAge string time
  | LeaseEligible string nat | WorkersRegistered string nat

definition escape_char :: "char \<Rightarrow> string" where
  "escape_char c =
     (if c = CHR 0x5C then [CHR 0x5C, CHR 0x5C] else if c = CHR 0x22 then [CHR 0x5C, CHR 0x22]
      else if c = CHR 0x0A then [] else [c])"

definition escape_label :: "string \<Rightarrow> string" where
  "escape_label s = concat (map escape_char s)"

definition pool_label :: "worker \<Rightarrow> string" where
  "pool_label w = escape_label (if wk_pool_id w \<noteq> [] then wk_pool_id w else ''unknown'')"

definition metric_eligible :: "worker \<Rightarrow> bool" where
  "metric_eligible w = (wk_revoked_at w = None \<and> List.member LEASE_ELIGIBLE_STATUSES (wk_status w))"

definition worker_metrics :: "time \<Rightarrow> worker \<Rightarrow> metric list" where
  "worker_metrics now w =
     (if wk_site_id w \<noteq> None
      then TunnelUp (pool_label w) (wk_last_seen_at w \<noteq> None \<and> py_lower (py_strip (wk_health_state w)) = ''healthy'')
           # (case wk_last_handshake_age_s w of None \<Rightarrow> [] | Some a \<Rightarrow> [TunnelHandshakeAge (pool_label w) a])
      else [])
     @ (case wk_last_seen_at w of None \<Rightarrow> [] | Some t \<Rightarrow> [HeartbeatAge (pool_label w) (max 0 (now - t))])"

definition worker_metric_lines :: "time \<Rightarrow> worker list \<Rightarrow> metric list" where
  "worker_metric_lines now ws =
     concat (map (worker_metrics now) ws)
     @ concat (map (\<lambda>pool. [LeaseEligible pool (count_where (\<lambda>w. pool_label w = pool \<and> metric_eligible w) ws),
                            WorkersRegistered pool (count_where (\<lambda>w. pool_label w = pool) ws)])
         (sort (remdups (map pool_label ws))))"

end
