(* ===== verification/Scan_System.thy ===== *)
theory Scan_System
  imports Scan_Lifecycle
begin

text \<open>
  The scans as a system: any operation of the lifecycle, by any process, at any time. \<open>life_step U\<close>
  lets claims install tokens of \<open>U\<close> only: a claim draws a fresh token, so a run of the others is one in
  which nobody installs the token of a given execution. The section ends with what every run keeps.
\<close>

section \<open>Steps\<close>

inductive life_step :: "uuid set \<Rightarrow> scan list \<Rightarrow> scan list \<Rightarrow> bool" for U :: "uuid set" where
  create: "sn_id s \<notin> sn_id ` set scans \<Longrightarrow> sn_status s = ''queued'' \<Longrightarrow> sn_execution_token s = None \<Longrightarrow>
    life_step U scans (scans @ [s])"
| claim: "claim_scan now sid token scans = (won, scans') \<Longrightarrow> token \<in> U \<Longrightarrow> life_step U scans scans'"
| finalize: "finalize_status now sid st token scans = (won, scans') \<Longrightarrow>
    st \<in> {''completed'', ''completed_with_errors'', ''failed''} \<Longrightarrow> life_step U scans scans'"
| heartbeat: "scans' = stamp_heartbeat now sid token scans \<Longrightarrow> life_step U scans scans'"
| reap: "reap_orphaned_scans now timeout stale scans = (n, scans') \<Longrightarrow> life_step U scans scans'"
| requeue: "requeue_scan now sid scans = (won, scans') \<Longrightarrow> life_step U scans scans'"
| cancel: "cancel_scan now ws pid sid read scans = (r, scans') \<Longrightarrow> life_step U scans scans'"
| relay: "scans' = relay_mark sid task scans \<Longrightarrow> life_step U scans scans'"
| dispatch: "scans' = dispatch_mark sid task scans \<Longrightarrow> life_step U scans scans'"

inductive_cases life_stepE: "life_step U scans scans'"

section \<open>What a step does to one row\<close>

definition SCAN_STATUSES :: "string list" where
  "SCAN_STATUSES = [''queued'', ''running'', ''completed'', ''completed_with_errors'', ''failed'', ''cancelled'']"

definition scan_ok :: "scan \<Rightarrow> bool" where
  "scan_ok s =
     (sn_status s \<in> set SCAN_STATUSES \<and> (sn_status s = ''running'' \<longleftrightarrow> sn_execution_token s \<noteq> None))"

definition same_scan :: "scan \<Rightarrow> scan \<Rightarrow> bool" where
  "same_scan s s' =
     (sn_id s' = sn_id s \<and> sn_workspace_id s' = sn_workspace_id s \<and> sn_project_id s' = sn_project_id s
      \<and> sn_target_id s' = sn_target_id s \<and> sn_created_at s' = sn_created_at s)"

definition scan_edge :: "string \<Rightarrow> string \<Rightarrow> bool" where
  "scan_edge a b =
     (b = a \<or> (a \<in> {''queued'', ''failed''} \<and> b = ''running'')
      \<or> (a = ''running'' \<and> b \<in> {''completed'', ''completed_with_errors'', ''failed'', ''queued''})
      \<or> (a \<notin> set TERMINAL_STATUSES \<and> b = ''cancelled''))"

definition scan_next :: "uuid set \<Rightarrow> scan \<Rightarrow> scan \<Rightarrow> bool" where
  "scan_next U s s' =
     (same_scan s s' \<and> scan_edge (sn_status s) (sn_status s') \<and> (scan_ok s \<longrightarrow> scan_ok s')
      \<and> (sn_status s \<in> set TERMINAL_STATUSES \<longrightarrow> sn_status s' = sn_status s \<longrightarrow> sn_completed_at s' = sn_completed_at s)
      \<and> (sn_execution_token s' = sn_execution_token s \<or> sn_execution_token s' = None
         \<or> (\<exists>t \<in> U. sn_execution_token s' = Some t))
      \<and> (dict_get ''recovery'' (sn_config s) \<noteq> None \<longrightarrow> dict_get ''recovery'' (sn_config s') \<noteq> None)
      \<and> (\<forall>k. k \<noteq> ''recovery'' \<longrightarrow> dict_get k (sn_config s') = dict_get k (sn_config s)))"

lemmas scan_next_defs = scan_next_def same_scan_def scan_edge_def scan_ok_def SCAN_STATUSES_def
  TERMINAL_STATUSES_def

lemma scan_next_refl: "scan_next U s s"
  by (simp add: scan_next_def same_scan_def scan_edge_def)

text \<open>A conditional \<open>UPDATE\<close> is a step of the table when it moves each row it selects along \<open>nxt\<close>.\<close>

definition rows_move :: "('r \<Rightarrow> 'r \<Rightarrow> bool) \<Rightarrow> ('r \<Rightarrow> 'k) \<Rightarrow> ('r \<Rightarrow> bool) \<Rightarrow> 'r list \<Rightarrow> 'r list \<Rightarrow> bool" where
  "rows_move nxt key ok xs ys =
     (\<exists>f new. ys = map f xs @ new \<and> (\<forall>r \<in> set xs. nxt r (f r))
        \<and> (\<forall>r \<in> set new. ok r \<and> key r \<notin> key ` set xs) \<and> unique_key key new)"

lemma rows_move_update:
  assumes "\<And>r. P r \<Longrightarrow> nxt r (f r)" and "\<And>r. nxt r r"
  shows "rows_move nxt key ok xs (update_where P f xs)"
  unfolding rows_move_def update_where_def
  by (rule exI [of _ "\<lambda>r. if P r then f r else r"], rule exI [of _ "[]"]) (simp add: assms unique_key_def)

lemma rows_move_same: "(\<And>r. nxt r r) \<Longrightarrow> rows_move nxt key ok xs xs"
  unfolding rows_move_def by (rule exI [of _ id], rule exI [of _ "[]"]) (simp add: unique_key_def)

lemma rows_move_append:
  assumes "\<And>r. nxt r r" and "ok r" and "key r \<notin> key ` set xs"
  shows "rows_move nxt key ok xs (xs @ [r])"
  unfolding rows_move_def by (rule exI [of _ id], rule exI [of _ "[r]"]) (simp add: assms unique_key_def)

lemma claim_next:
  "sn_status s \<in> {''queued'', ''failed''} \<Longrightarrow> token \<in> U \<Longrightarrow>
    scan_next U s (s\<lparr>sn_status := ''running'', sn_started_at := t, sn_execution_token := Some token\<rparr>)"
  by (auto simp: scan_next_defs)

lemma leave_next:
  assumes "sn_status s = ''running''" and "st \<in> {''completed'', ''completed_with_errors'', ''failed'', ''queued''}"
    and "same_scan s s'" and "sn_status s' = st" and "sn_execution_token s' = None"
    and "\<And>k. k \<noteq> ''recovery'' \<Longrightarrow> dict_get k (sn_config s') = dict_get k (sn_config s)"
    and "dict_get ''recovery'' (sn_config s) \<noteq> None \<Longrightarrow> dict_get ''recovery'' (sn_config s') \<noteq> None"
  shows "scan_next U s s'"
  using assms by (auto simp: scan_next_defs)

lemma cancel_next:
  "sn_status s \<notin> set TERMINAL_STATUSES \<Longrightarrow>
    scan_next U s (s\<lparr>sn_status := ''cancelled'', sn_completed_at := t, sn_execution_token := None\<rparr>)"
  by (auto simp: scan_next_defs)

lemma recovery_patch_get [simp]:
  "\<exists>j. dict_get ''recovery'' (merge_fields d (recovery_patch now timeout stale)) = Some j"
  "k \<noteq> ''recovery'' \<Longrightarrow> dict_get k (merge_fields d (recovery_patch now timeout stale)) = dict_get k d"
  by (simp_all add: recovery_patch_def)

abbreviation scans_move :: "uuid set \<Rightarrow> scan list \<Rightarrow> scan list \<Rightarrow> bool" where
  "scans_move U \<equiv> rows_move (scan_next U) sn_id scan_ok"

lemma cancel_update_move: "cancel_update now sid scans = (won, scans') \<Longrightarrow> scans_move U scans scans'"
  by (auto simp: cancel_update_def Let_def intro!: rows_move_update cancel_next scan_next_refl)

lemma cancel_scan_cases:
  "cancel_scan now ws pid sid read scans = (r, scans') \<Longrightarrow>
    scans' = scans \<or> (\<exists>won. cancel_update now sid scans = (won, scans'))"
  by (auto simp: cancel_scan_def Let_def split: sum.splits if_splits prod.splits)

lemma life_step_moves:
  assumes "life_step U scans scans'"
  shows "scans_move U scans scans'"
  using assms
proof cases
  case (create s)
  then show ?thesis
    by (auto intro!: rows_move_append scan_next_refl simp: scan_ok_def SCAN_STATUSES_def)
next
  case (claim now sid token won)
  then show ?thesis
    by (auto simp: claim_scan_def Let_def intro!: rows_move_update claim_next scan_next_refl)
next
  case (finalize now sid st token won)
  then show ?thesis
    by (auto simp: finalize_status_def Let_def same_scan_def
        intro!: rows_move_update leave_next [of _ st] scan_next_refl)
next
  case (heartbeat now sid token)
  then show ?thesis
    by (auto simp: stamp_heartbeat_def scan_next_defs split: option.splits
        intro!: rows_move_update)
next
  case (reap now timeout stale n)
  then show ?thesis
    by (auto simp: reap_orphaned_scans_def Let_def same_scan_def orphaned_def
        intro!: rows_move_update leave_next [of _ "''failed''"] scan_next_refl)
next
  case (requeue now sid won)
  then show ?thesis
    by (auto simp: requeue_scan_def Let_def same_scan_def
        intro!: rows_move_update leave_next [of _ "''queued''"] scan_next_refl)
next
  case (cancel now ws pid sid read r)
  then show ?thesis
    using cancel_scan_cases cancel_update_move rows_move_same scan_next_refl by metis
next
  case (relay sid task)
  then show ?thesis
    by (auto simp: relay_mark_def scan_next_defs intro!: rows_move_update)
next
  case (dispatch sid task)
  then show ?thesis
    by (auto simp: dispatch_mark_def scan_next_defs intro!: rows_move_update)
qed

interpretation scans: keyed_rows "\<lambda>s :: scan list. s" sn_id "scan_next U" scan_ok "life_step U" for U
proof
  fix s t :: "scan list" and r r' :: scan
  show "life_step U s t \<Longrightarrow> \<exists>f new. t = map f s @ new \<and> (\<forall>r \<in> set s. scan_next U r (f r))
      \<and> (\<forall>r \<in> set new. scan_ok r \<and> sn_id r \<notin> sn_id ` set s) \<and> unique_key sn_id new"
    using life_step_moves by (simp add: rows_move_def)
  show "scan_next U r r' \<Longrightarrow> sn_id r' = sn_id r" by (simp add: scan_next_def same_scan_def)
  show "scan_next U r r' \<Longrightarrow> scan_ok r \<Longrightarrow> scan_ok r'" by (simp add: scan_next_def)
qed

section \<open>Paths of one row\<close>

lemma path_settled:
  assumes "(scan_next U)\<^sup>*\<^sup>* s s'" and "sn_status s \<in> {''completed'', ''completed_with_errors'', ''cancelled''}"
  shows "sn_status s' = sn_status s \<and> sn_completed_at s' = sn_completed_at s"
  using assms
proof (induction rule: rtranclp_induct)
  case (step a b)
  have a: "sn_status a = sn_status s" "sn_completed_at a = sn_completed_at s"
    using step.IH [OF step.prems] by simp_all
  have edge: "scan_edge (sn_status a) (sn_status b)"
    and stamp: "sn_status a \<in> set TERMINAL_STATUSES \<Longrightarrow> sn_status b = sn_status a \<Longrightarrow>
      sn_completed_at b = sn_completed_at a"
    using step.hyps(2) unfolding scan_next_def by blast+
  have "sn_status b = sn_status a"
    using edge step.prems unfolding a(1) scan_edge_def TERMINAL_STATUSES_def by auto
  moreover have "sn_status a \<in> set TERMINAL_STATUSES"
    using step.prems unfolding a(1) TERMINAL_STATUSES_def by auto
  ultimately show ?case using stamp a by simp
qed simp

lemma scan_nextD:
  assumes "scan_next U a b"
  shows "same_scan a b"
    and "sn_execution_token b = sn_execution_token a \<or> sn_execution_token b = None
      \<or> (\<exists>t \<in> U. sn_execution_token b = Some t)"
    and "dict_get ''recovery'' (sn_config a) \<noteq> None \<Longrightarrow> dict_get ''recovery'' (sn_config b) \<noteq> None"
    and "k \<noteq> ''recovery'' \<Longrightarrow> dict_get k (sn_config b) = dict_get k (sn_config a)"
  using assms unfolding scan_next_def by blast+

lemma path_without_token:
  assumes "(scan_next (- {tok}))\<^sup>*\<^sup>* s s'" and "sn_execution_token s \<noteq> Some tok"
  shows "sn_execution_token s' \<noteq> Some tok"
  using assms
proof (induction rule: rtranclp_induct)
  case (step a b)
  then show ?case using scan_nextD(2) [OF step.hyps(2)] by auto
qed simp

lemma path_recovery:
  assumes "(scan_next U)\<^sup>*\<^sup>* s s'" and "dict_get ''recovery'' (sn_config s) \<noteq> None"
  shows "dict_get ''recovery'' (sn_config s') \<noteq> None"
  using assms
proof (induction rule: rtranclp_induct)
  case (step a b)
  then show ?case using scan_nextD(3) [OF step.hyps(2)] by blast
qed simp

lemma path_config:
  assumes "(scan_next U)\<^sup>*\<^sup>* s s'" and "k \<noteq> ''recovery''"
  shows "dict_get k (sn_config s') = dict_get k (sn_config s) \<and> same_scan s s'"
  using assms
proof (induction rule: rtranclp_induct)
  case base
  then show ?case by (simp add: same_scan_def)
next
  case (step a b)
  then show ?case
    using scan_nextD(1) [OF step.hyps(2)] scan_nextD(4) [OF step.hyps(2) step.prems]
    by (simp add: same_scan_def)
qed

end
