(* ===== verification/Manager_System.thy ===== *)
theory Manager_System
  imports Manager_Results Scan_System Worker_Properties
begin

text \<open>
  The manager as a system: what the gate of scan-scoped requests admits, what the loop of a lease keeps,
  and the steps that the handlers take on the rows of scans and tool runs, in any order and for any worker.
\<close>

section \<open>The gate\<close>

lemma audit_fields [simp]:
  "mg_fleet (audit_emergency_transition ok c m) = mg_fleet m"
  "mg_sites (audit_emergency_transition ok c m) = mg_sites m"
  "mg_targets (audit_emergency_transition ok c m) = mg_targets m"
  "mg_scans (audit_emergency_transition ok c m) = mg_scans m"
  "mg_runs (audit_emergency_transition ok c m) = mg_runs m"
  "mg_evidence (audit_emergency_transition ok c m) = mg_evidence m"
  "mg_links (audit_emergency_transition ok c m) = mg_links m"
  "mg_assets (audit_emergency_transition ok c m) = mg_assets m"
  "mg_objects (audit_emergency_transition ok c m) = mg_objects m"
  "mg_vulns (audit_emergency_transition ok c m) = mg_vulns m"
  "mg_next (audit_emergency_transition ok c m) = mg_next m"
  by (simp_all add: audit_emergency_transition_def Let_def split: option.split)

lemma emergency_fields [simp]:
  "mg_fleet (snd (emergency_check conf env m)) = mg_fleet m"
  "mg_sites (snd (emergency_check conf env m)) = mg_sites m"
  "mg_targets (snd (emergency_check conf env m)) = mg_targets m"
  "mg_scans (snd (emergency_check conf env m)) = mg_scans m"
  "mg_runs (snd (emergency_check conf env m)) = mg_runs m"
  "mg_evidence (snd (emergency_check conf env m)) = mg_evidence m"
  "mg_links (snd (emergency_check conf env m)) = mg_links m"
  "mg_assets (snd (emergency_check conf env m)) = mg_assets m"
  "mg_objects (snd (emergency_check conf env m)) = mg_objects m"
  "mg_vulns (snd (emergency_check conf env m)) = mg_vulns m"
  "mg_next (snd (emergency_check conf env m)) = mg_next m"
  by (simp_all add: emergency_check_def case_prod_beta)

lemma site_check_cong: "mg_sites m = mg_sites m' \<Longrightarrow> site_check m = site_check m'"
  by (simp add: site_check_def fun_eq_iff)

lemma site_check_InrE:
  assumes "site_check m sid ws = Inr p"
  shows "p \<in> set (mg_sites m) \<and> ps_id p = sid \<and> ps_workspace_id p = ws \<and> ps_status p = ''active''"
proof -
  from assms have g: "get_site_for_workspace (mg_sites m) sid ws = Inr p" and a: "assert_site_scannable p = Inr ()"
    by (auto simp: site_check_def res_bind_Inr_iff)
  from g have "find_row (\<lambda>s. ps_id s = sid) (mg_sites m) = Some p" "ps_workspace_id p = ws"
    by (auto simp: get_site_for_workspace_def split: option.splits if_splits)
  moreover from a have "ps_status p = ''active''"
    by (auto simp: assert_site_scannable_def SCANNABLE_SITE_STATUSES_def split: if_splits)
  ultimately show ?thesis using find_row_Some by fastforce
qed

text \<open>Who may take a scan, in the terms of the rows.\<close>

definition bound_to :: "worker \<Rightarrow> uuid \<Rightarrow> uuid option \<Rightarrow> bool" where
  "bound_to w ws site = (wk_site_id w = site \<and> wk_workspace_id w \<in> {None, Some ws} \<and> assert_worker_active w = Inr ())"

lemma take_scan_bound:
  "assert_worker_may_take_scan pools w ws site pool mode = Inr () \<Longrightarrow> bound_to w ws site"
  by (auto simp: assert_worker_may_take_scan_def bound_to_def res_bind_Inr_iff assert_worker_may_serve_site_def
      split: if_splits option.splits)

lemma authorize_cases:
  obtains (refused) e m1 where "authorize_scan_for_worker conf env w sid m = (Inl e, m1)"
      and "m1 \<in> {m, snd (emergency_check conf env m)}"
  | (public) scan where "get_scan_row sid (mg_scans m) = Some scan" and "site_of_scan scan = Inr None"
      and "assert_worker_may_take_scan (mc_vpn_pools conf) w (sn_workspace_id scan) None None None = Inr ()"
      and "authorize_scan_for_worker conf env w sid m = (Inr scan, m)"
  | (on_site) scan s p where "get_scan_row sid (mg_scans m) = Some scan" and "site_of_scan scan = Inr (Some s)"
      and "assert_worker_may_take_scan (mc_vpn_pools conf) w (sn_workspace_id scan) (Some s) None None = Inr ()"
      and "\<not> fst (emergency_check conf env m)"
      and "site_check (snd (emergency_check conf env m)) s (sn_workspace_id scan) = Inr p"
      and "authorize_scan_for_worker conf env w sid m = (Inr scan, snd (emergency_check conf env m))"
proof -
  let ?ec = "emergency_check conf env m"
  show thesis
  proof (cases "get_scan_row sid (mg_scans m)")
    case None
    then show thesis
      by (intro refused [of "HttpErr 403 ''SCAN_NOT_AUTHORIZED''" m]) (simp_all add: authorize_scan_for_worker_def)
  next
    case (Some scan)
    note scan = this
    show thesis
    proof (cases "site_of_scan scan")
      case (Inl e)
      then show thesis by (intro refused [of e m]) (simp_all add: authorize_scan_for_worker_def scan)
    next
      case (Inr site)
      note site = this
      show thesis
      proof (cases "assert_worker_may_take_scan (mc_vpn_pools conf) w (sn_workspace_id scan) site None None")
        case (Inl e)
        then show thesis by (intro refused [of "WorkerDenied e" m]) (simp_all add: authorize_scan_for_worker_def scan site)
      next
        case (Inr u)
        note take = this
        show thesis
        proof (cases site)
          case None
          then show thesis
            using scan site take by (intro public [of scan]) (simp_all add: authorize_scan_for_worker_def)
        next
          case (Some s)
          note site' = site [unfolded Some] and take' = take [unfolded Some]
          show thesis
          proof (cases "fst ?ec")
            case True
            then show thesis
              by (intro refused [of "HttpErr 403 ''PRIVATE_SCANNING_EMERGENCY_DISABLED''" "snd ?ec"])
                (simp_all add: authorize_scan_for_worker_def scan site' take' case_prod_beta)
          next
            case False
            show thesis
            proof (cases "site_check (snd ?ec) s (sn_workspace_id scan)")
              case (Inl e)
              with False show thesis
                by (intro refused [of "SiteDenied e" "snd ?ec"])
                  (simp_all add: authorize_scan_for_worker_def scan site' take' case_prod_beta)
            next
              case (Inr p)
              with False show thesis
                using scan site' take'
                by (intro on_site [of scan s p]) (simp_all add: authorize_scan_for_worker_def case_prod_beta)
            qed
          qed
        qed
      qed
    qed
  qed
qed

lemma authorize_InrE:
  assumes a: "authorize_scan_for_worker conf env w sid m = (Inr scan, m1)"
  obtains site where "get_scan_row sid (mg_scans m) = Some scan" and "site_of_scan scan = Inr site"
    and "bound_to w (sn_workspace_id scan) site"
    and "\<And>s. site = Some s \<Longrightarrow> \<not> fst (emergency_check conf env m)
       \<and> (\<exists>p \<in> set (mg_sites m). ps_id p = s \<and> ps_workspace_id p = sn_workspace_id scan \<and> ps_status p = ''active'')"
proof (cases rule: authorize_cases [of conf env w sid m])
  case (refused e m2)
  with a show thesis by simp
next
  case (public scan')
  with a that [of None] take_scan_bound show thesis by simp
next
  case (on_site scan' s p)
  have "p \<in> set (mg_sites m) \<and> ps_id p = s \<and> ps_workspace_id p = sn_workspace_id scan \<and> ps_status p = ''active''"
    using site_check_InrE [OF on_site(5)] on_site a by simp
  with on_site a that [of "Some s"] take_scan_bound [OF on_site(3)] show thesis by auto
qed

text \<open>The gate changes nothing but the observation of the switch, refused or not.\<close>

lemma authorize_state:
  "snd (authorize_scan_for_worker conf env w sid m) \<in> {m, snd (emergency_check conf env m)}"
  by (cases rule: authorize_cases [of conf env w sid m]) simp_all

lemma authorize_fields:
  assumes "authorize_scan_for_worker conf env w sid m = (r, m1)"
  shows "mg_fleet m1 = mg_fleet m" "mg_sites m1 = mg_sites m" "mg_scans m1 = mg_scans m" "mg_runs m1 = mg_runs m"
    "mg_evidence m1 = mg_evidence m" "mg_assets m1 = mg_assets m" "mg_objects m1 = mg_objects m"
    "mg_next m1 = mg_next m" "mg_vulns m1 = mg_vulns m" "mg_targets m1 = mg_targets m" "mg_links m1 = mg_links m"
proof -
  have "m1 = m \<or> m1 = snd (emergency_check conf env m)"
    using authorize_state [of conf env w sid m] assms by simp
  then show "mg_fleet m1 = mg_fleet m" "mg_sites m1 = mg_sites m" "mg_scans m1 = mg_scans m" "mg_runs m1 = mg_runs m"
    "mg_evidence m1 = mg_evidence m" "mg_assets m1 = mg_assets m" "mg_objects m1 = mg_objects m"
    "mg_next m1 = mg_next m" "mg_vulns m1 = mg_vulns m" "mg_targets m1 = mg_targets m" "mg_links m1 = mg_links m"
    by (elim disjE; simp only: emergency_fields)+
qed

section \<open>The loop of a lease\<close>

definition claimed :: "time \<Rightarrow> scan \<Rightarrow> 'v mgr \<Rightarrow> 'v mgr" where
  "claimed now s m =
     m\<lparr>mg_scans := snd (claim_scan now (sn_id s) (mg_next m) (mg_scans m)), mg_next := Suc (mg_next m)\<rparr>"

definition claim_wins :: "time \<Rightarrow> scan \<Rightarrow> 'v mgr \<Rightarrow> bool" where
  "claim_wins now s m = fst (claim_scan now (sn_id s) (mg_next m) (mg_scans m))"

text \<open>
  A relation between the jobs granted so far and the state holds at the end of the loop when both the lost
  and the won claims keep it. An exception on the way hands out nothing.
\<close>

lemma lease_rows_rule:
  assumes lost: "\<And>s site jobs n. I jobs n \<Longrightarrow> s \<in> R \<Longrightarrow> lease_check conf disabled w s n = Inr (Some site) \<Longrightarrow>
      \<not> claim_wins now s n \<Longrightarrow> I jobs (claimed now s n)"
    and won: "\<And>s site jobs n. I jobs n \<Longrightarrow> s \<in> R \<Longrightarrow> lease_check conf disabled w s n = Inr (Some site) \<Longrightarrow>
      claim_wins now s n \<Longrightarrow> I (jobs @ [build_job_payload (claimed now s n) s site (mg_next n)]) (claimed now s n)"
  shows "lease_rows conf now disabled w k rows leased m = (r, m') \<Longrightarrow> set rows \<subseteq> R \<Longrightarrow> I leased m \<Longrightarrow>
    \<exists>jobs. I jobs m' \<and> (\<forall>js. r = Inr js \<longrightarrow> js = jobs)"
proof (induction rows arbitrary: leased m)
  case Nil
  then show ?case by auto
next
  case (Cons s rows)
  have s: "s \<in> R" and rows: "set rows \<subseteq> R" using Cons.prems(2) by simp_all
  note IH = Cons.IH [OF _ rows]
  show ?case
  proof (cases "lease_check conf disabled w s m")
    case (Inl e)
    with Cons.prems(1,3) show ?thesis by auto
  next
    case (Inr choice)
    note check = this
    show ?thesis
    proof (cases choice)
      case None
      with Inr Cons.prems(1,3) show ?thesis by (intro IH [of leased m]) simp_all
    next
      case (Some site)
      note check = check [unfolded Some]
      let ?j = "build_job_payload (claimed now s m) s site (mg_next m)"
      note unfolded = Cons.prems(1) [unfolded lease_rows.simps check sum.case option.case Let_def case_prod_beta,
          folded claimed_def claim_wins_def]
      show ?thesis
      proof (cases "claim_wins now s m")
        case False
        from unfolded False have "lease_rows conf now disabled w k rows leased (claimed now s m) = (r, m')" by simp
        then show ?thesis by (rule IH) (rule lost [OF Cons.prems(3) s check False])
      next
        case True
        note I = won [OF Cons.prems(3) s check True]
        show ?thesis
        proof (cases "k \<le> length (leased @ [?j])")
          case True
          with \<open>claim_wins now s m\<close> unfolded I show ?thesis by auto
        next
          case False
          with \<open>claim_wins now s m\<close> unfolded
          have "lease_rows conf now disabled w k rows (leased @ [?j]) (claimed now s m) = (r, m')" by simp
          then show ?thesis by (rule IH) (rule I)
        qed
      qed
    qed
  qed
qed

lemma claimed_fields [simp]:
  "mg_fleet (claimed now s m) = mg_fleet m" "mg_sites (claimed now s m) = mg_sites m"
  "mg_runs (claimed now s m) = mg_runs m" "mg_evidence (claimed now s m) = mg_evidence m"
  "mg_next (claimed now s m) = Suc (mg_next m)"
  by (simp_all add: claimed_def)

end
