(* ===== verification/Manager_Steps.thy ===== *)
theory Manager_Steps
  imports Manager_System
begin

text \<open>
  The handlers of the manager as the steps of one system: any worker calls any of them at any time, under
  any configuration. Their effect on the rows of scans is a path of \<open>life_step\<close>, the fences of the scan
  lifecycle; their effect on the rows of tool runs is the relation \<open>run_next\<close>.
\<close>

section \<open>Steps\<close>

inductive mgr_step :: "'v mgr \<Rightarrow> 'v mgr \<Rightarrow> bool" where
  beat: "heartbeat conf env w health detail handshake sid token m = (r, m') \<Longrightarrow> mgr_step m m'"
| lease: "lease_jobs conf env w k m = (r, m') \<Longrightarrow> mgr_step m m'"
| finish: "complete_lease conf env w sid token st m = (r, m') \<Longrightarrow> mgr_step m m'"
| probe: "scan_status conf env w sid token m = (r, m') \<Longrightarrow> mgr_step m m'"
| started: "submit_tool_started conf env w sid rid nm token since m = (r, m') \<Longrightarrow> mgr_step m m'"
| result: "submit_tool_result conf env w p m = (r, m') \<Longrightarrow> mgr_step m m'"
| evidence: "submit_evidence conf env w e m = (r, m') \<Longrightarrow> mgr_step m m'"

section \<open>Scans\<close>

lemma lease_jobs_cases [consumes 1, case_names refused loop]:
  assumes "lease_jobs conf env w k m = (r, m')"
  obtains (refused) e where "r = Inl e" and "m' = m"
  | (loop) m1 where "1 \<le> k" and "k \<le> 10" and "assert_worker_may_lease w = Inr ()"
      and "m1 = snd (emergency_check conf env m)"
      and "lease_rows conf (rq_now env) (fst (emergency_check conf env m)) w k
             (lease_candidates w k (mg_scans m)) [] m1 = (r, m')"
proof (cases "k < 1 \<or> 10 < k")
  case True
  with assms have "r = Inl (HttpErr 422 ''max_jobs'')" "m' = m" by (auto simp: lease_jobs_def)
  then show thesis by (rule refused)
next
  case False
  note k = this
  show thesis
  proof (cases "assert_worker_may_lease w")
    case (Inl e)
    with assms k have "r = Inl (WorkerDenied e)" "m' = m" by (auto simp: lease_jobs_def)
    then show thesis by (rule refused)
  next
    case (Inr u)
    with assms k show thesis
      by (intro loop [of "snd (emergency_check conf env m)"]) (simp_all add: lease_jobs_def case_prod_beta)
  qed
qed

definition scan_path :: "uuid \<Rightarrow> 'v mgr \<Rightarrow> 'v mgr \<Rightarrow> bool" where
  "scan_path n m m' = ((life_step {n..})\<^sup>*\<^sup>* (mg_scans m) (mg_scans m') \<and> n \<le> mg_next m')"

lemma scan_path_refl: "mg_scans m' = mg_scans m \<Longrightarrow> mg_next m' = mg_next m \<Longrightarrow> scan_path (mg_next m) m m'"
  by (simp add: scan_path_def)

lemma claimed_path:
  assumes "scan_path n m m1"
  shows "scan_path n m (claimed now s m1)"
proof -
  have "life_step {n..} (mg_scans m1) (mg_scans (claimed now s m1))"
    using assms by (intro life_step.claim [of now "sn_id s" "mg_next m1" _ "claim_wins now s m1"])
      (simp_all add: claimed_def claim_wins_def scan_path_def)
  with assms show ?thesis by (auto simp: scan_path_def intro: rtranclp.rtrancl_into_rtrancl)
qed

lemma lease_path:
  assumes "lease_jobs conf env w k m = (r, m')"
  shows "scan_path (mg_next m) m m'"
  using assms
proof (cases rule: lease_jobs_cases)
  case (refused e)
  then show ?thesis by (simp add: scan_path_refl)
next
  case (loop m1)
  have "\<exists>jobs. scan_path (mg_next m) m m' \<and> (\<forall>js. r = Inr js \<longrightarrow> js = jobs)"
    by (rule lease_rows_rule [where I = "\<lambda>_. scan_path (mg_next m) m" and R = UNIV, OF _ _ loop(5)])
      (simp_all add: claimed_path scan_path_refl loop(4))
  then show ?thesis by blast
qed

lemma finish_path:
  assumes "complete_lease conf env w sid token st m = (r, m')"
  shows "scan_path (mg_next m) m m'"
proof (cases "\<not> List.member [''completed'', ''completed_with_errors'', ''failed''] st")
  case True
  then have "m' = m" using assms [unfolded complete_lease_def if_P [OF True]] by simp
  then show ?thesis by (simp add: scan_path_refl)
next
  case False
  obtain a m1 where auth: "authorize_scan_for_worker conf env w sid m = (a, m1)"
    by (cases "authorize_scan_for_worker conf env w sid m")
  note f = authorize_fields [OF auth]
  note res = assms [unfolded complete_lease_def if_not_P [OF False] auth prod.case]
  show ?thesis
  proof (cases a)
    case (Inl e)
    with res have "m' = m1" by simp
    with f show ?thesis by (simp add: scan_path_refl)
  next
    case (Inr scan)
    let ?fin = "finalize_status (rq_now env) (sn_id scan) st token (mg_scans m)"
    have m': "mg_scans m' = snd ?fin" "mg_next m' = mg_next m"
      using res f by (auto simp: Inr Let_def case_prod_beta)
    have "life_step {mg_next m..} (mg_scans m) (snd ?fin)"
      using False by (intro life_step.finalize [of _ "sn_id scan" st token _ "fst ?fin"]) auto
    with m' show ?thesis by (simp add: scan_path_def r_into_rtranclp)
  qed
qed

lemma beat_path:
  assumes "heartbeat conf env w health detail handshake sid token m = (r, m')"
  shows "scan_path (mg_next m) m m'"
proof -
  let ?bad = "\<not> List.member WORKER_HEALTH_STATES health \<or> (case handshake of None \<Rightarrow> False | Some a \<Rightarrow> a < 0)"
  let ?m1 = "m\<lparr>mg_fleet := record_heartbeat (rq_now env) (wk_worker_id w) health detail handshake (mg_fleet m)\<rparr>"
  consider (plain) "mg_scans m' = mg_scans m" "mg_next m' = mg_next m"
    | (stamp) s tok where "mg_scans m' = stamp_heartbeat (rq_now env) s (Some tok) (mg_scans m)" "mg_next m' = mg_next m"
  proof (cases ?bad)
    case True
    then have "m' = m" using assms [unfolded heartbeat_def if_P [OF True]] by simp
    with plain show thesis by simp
  next
    case False
    note res = assms [unfolded heartbeat_def if_not_P [OF False] Let_def]
    show thesis
    proof (cases "sid = None \<or> token = None")
      case True
      with res have "m' = ?m1" by (cases sid; cases token) auto
      with plain show thesis by simp
    next
      case False
    then obtain s tok where s: "sid = Some s" "token = Some tok" by auto
    obtain a m2 where auth: "authorize_scan_for_worker conf env w s ?m1 = (a, m2)"
      by (cases "authorize_scan_for_worker conf env w s ?m1")
    note f = authorize_fields [OF auth, simplified]
    show thesis
    proof (cases a)
      case (Inl e)
      have "m' = (if mg_transitions m2 = mg_transitions ?m1 then m2\<lparr>mg_fleet := mg_fleet m\<rparr> else m2)"
        using res by (simp add: s auth Inl)
      with f plain show thesis by (simp split: if_splits)
    next
      case (Inr scan)
      have "m' = m2\<lparr>mg_scans := stamp_heartbeat (rq_now env) (sn_id scan) (Some tok) (mg_scans m2)\<rparr>"
        using res by (simp add: s auth Inr)
      with f stamp [of "sn_id scan" tok] show thesis by simp
    qed
    qed
  qed
  then show ?thesis
  proof cases
    case plain
    then show ?thesis by (rule scan_path_refl)
  next
    case (stamp s tok)
    then have "life_step {mg_next m..} (mg_scans m) (mg_scans m')" by (intro life_step.heartbeat) simp
    with stamp show ?thesis by (simp add: scan_path_def r_into_rtranclp)
  qed
qed

lemma started_cases [consumes 1, case_names refused granted]:
  assumes "submit_tool_started conf env w sid rid nm token since m = (r, m')"
  obtains (refused) "\<not> is_ok r" and "mg_runs m' = mg_runs m" and "mg_scans m' = mg_scans m" and "mg_next m' = mg_next m"
  | (granted) scan t existing where "get_scan_row sid (mg_scans m) = Some scan"
      and "sn_execution_token scan = Some token" and "run_of_scan scan rid (mg_runs m) = Inr existing"
      and "authorized_tool_name scan nm = Inr t"
      and "mg_runs m' = announce scan rid t (resolve_tool_started_at since (rq_now env)) existing (mg_runs m)"
      and "mg_scans m' = mg_scans m" and "mg_next m' = mg_next m"
proof -
  obtain a m1 where auth: "authorize_scan_for_worker conf env w sid m = (a, m1)"
    by (cases "authorize_scan_for_worker conf env w sid m")
  note f = authorize_fields [OF auth]
  note res = assms [unfolded submit_tool_started_def auth prod.case]
  show thesis
  proof (cases a)
    case (Inl e)
    with res f show thesis by (intro refused) auto
  next
    case (Inr scan)
    let ?checks = "res_bind (assert_execution_token scan token) (\<lambda>_.
                res_bind (authorized_tool_name scan nm) (\<lambda>t.
                res_bind (run_of_scan scan rid (mg_runs m1)) (\<lambda>existing. Inr (t, existing))))"
    have scan: "get_scan_row sid (mg_scans m) = Some scan"
      using auth Inr by (auto elim: authorize_InrE)
    show thesis
    proof (cases ?checks)
      case (Inl e)
      with res \<open>a = Inr scan\<close> f show thesis by (intro refused) auto
    next
      case (Inr te)
      obtain t existing where te: "te = (t, existing)" by (cases te)
      from Inr have "assert_execution_token scan token = Inr ()" "authorized_tool_name scan nm = Inr t"
        "run_of_scan scan rid (mg_runs m1) = Inr existing"
        by (auto simp: te res_bind_Inr_iff)
      moreover have "m' = m1\<lparr>mg_runs := announce scan rid t (resolve_tool_started_at since (rq_now env)) existing (mg_runs m1)\<rparr>"
        using res \<open>a = Inr scan\<close> Inr by (auto simp: te)
      ultimately show thesis
        using scan f by (intro granted [of scan existing t]) (auto simp: assert_execution_token_def split: if_splits)
    qed
  qed
qed

lemma result_cases [consumes 1, case_names refused granted]:
  assumes "submit_tool_result conf env w p m = (r, m')"
  obtains (refused) "\<not> is_ok r" and "mg_runs m' = mg_runs m" and "mg_scans m' = mg_scans m" and "mg_next m' = mg_next m"
  | (granted) scan t existing where "get_scan_row (ti_scan_id p) (mg_scans m) = Some scan"
      and "sn_execution_token scan = Some (ti_execution_token p)"
      and "run_of_scan scan (ti_tool_run_id p) (mg_runs m) = Inr existing"
      and "authorized_tool_name scan (ti_tool_name p) = Inr t" and "List.member ALLOWED_TOOL_STATUSES (ti_status p)"
      and "mg_runs m' = record_result conf p scan t (rq_now env) existing (mg_runs m)"
      and "mg_scans m' = mg_scans m" and "mg_next m' = mg_next m"
proof -
  obtain a m1 where auth: "authorize_scan_for_worker conf env w (ti_scan_id p) m = (a, m1)"
    by (cases "authorize_scan_for_worker conf env w (ti_scan_id p) m")
  note f = authorize_fields [OF auth]
  note res = assms [unfolded submit_tool_result_def auth prod.case]
  show thesis
  proof (cases a)
    case (Inl e)
    with res f show thesis by (intro refused) auto
  next
    case (Inr scan)
    let ?checks = "res_bind (assert_execution_token scan (ti_execution_token p)) (\<lambda>_.
                res_bind (authorized_tool_name scan (ti_tool_name p)) (\<lambda>t.
                if \<not> List.member ALLOWED_TOOL_STATUSES (ti_status p) then Inl (HttpErr 400 ''INVALID_TOOL_STATUS'')
                else res_bind (run_of_scan scan (ti_tool_run_id p) (mg_runs m1)) (\<lambda>existing. Inr (t, existing))))"
    have scan: "get_scan_row (ti_scan_id p) (mg_scans m) = Some scan"
      using auth Inr by (auto elim: authorize_InrE)
    note res = res [unfolded Inr sum.case]
    show thesis
    proof (cases ?checks)
      case (Inl e)
      with res f show thesis by (intro refused) auto
    next
      case (Inr te)
      obtain t existing where te: "te = (t, existing)" by (cases te)
      note checks = Inr [unfolded te]
      from checks obtain u where tok: "assert_execution_token scan (ti_execution_token p) = Inr u"
        and nm: "authorized_tool_name scan (ti_tool_name p) = Inr t"
        and st: "List.member ALLOWED_TOOL_STATUSES (ti_status p)"
        and run: "run_of_scan scan (ti_tool_run_id p) (mg_runs m1) = Inr existing"
        by (auto simp: res_bind_Inr_iff simp del: List.member_iff split: if_splits)
      have "mg_runs m' = record_result conf p scan t (rq_now env) existing (mg_runs m1)"
        "mg_scans m' = mg_scans m1" "mg_next m' = mg_next m1"
        using res [unfolded checks sum.case prod.case Let_def] by (auto simp: case_prod_beta)
      then show thesis
        using scan f tok nm st run
        by (intro granted [of scan existing t]) (simp_all add: assert_execution_token_def split: if_splits)
    qed
  qed
qed

text \<open>Evidence leaves the scans alone, draws at most one id, and may name the stored output in one run.\<close>

lemma link_fields [simp]:
  "mg_scans (link_screenshot conf s e fp run m) = mg_scans m" "mg_next (link_screenshot conf s e fp run m) = mg_next m"
  "mg_runs (link_screenshot conf s e fp run m) = mg_runs m" "mg_objects (link_screenshot conf s e fp run m) = mg_objects m"
  "mg_evidence (link_screenshot conf s e fp run m) = mg_evidence m"
  by (simp_all add: link_screenshot_def split: option.split)

lemma ingest_fields [simp]:
  "mg_scans (snd (ingest_from_raw_output conf s r e nm c ct m)) = mg_scans m"
  "mg_next (snd (ingest_from_raw_output conf s r e nm c ct m)) = mg_next m"
  "mg_runs (snd (ingest_from_raw_output conf s r e nm c ct m)) = mg_runs m"
  "mg_objects (snd (ingest_from_raw_output conf s r e nm c ct m)) = mg_objects m"
  "mg_evidence (snd (ingest_from_raw_output conf s r e nm c ct m)) = mg_evidence m"
  by (simp_all add: ingest_from_raw_output_def case_prod_beta split: option.split list.split)

definition refers :: "tool_run list \<Rightarrow> tool_run list \<Rightarrow> bool" where
  "refers runs runs' =
     (runs' = runs \<or> (\<exists>rid r uri. get_run rid runs = Some r \<and> \<not> truthy (tn_raw_output_ref r)
        \<and> runs' = put_run (r\<lparr>tn_raw_output_ref := Some uri\<rparr>) runs))"

lemma keep_fields [simp]:
  "mg_scans (snd (keep_evidence_row p uri checksum m)) = mg_scans m"
  "mg_next m \<le> mg_next (snd (keep_evidence_row p uri checksum m))"
  "mg_runs (snd (keep_evidence_row p uri checksum m)) = mg_runs m"
  "mg_objects (snd (keep_evidence_row p uri checksum m)) = mg_objects m"
  by (simp_all add: keep_evidence_row_def split: option.split)

lemma refer_fields [simp]:
  "mg_scans (refer_to_output run uri m) = mg_scans m" "mg_next (refer_to_output run uri m) = mg_next m"
  "mg_objects (refer_to_output run uri m) = mg_objects m" "mg_evidence (refer_to_output run uri m) = mg_evidence m"
  by (simp_all add: refer_to_output_def split: option.split)

lemma refer_refers: "get_run rid (mg_runs m) = Some r \<Longrightarrow> refers (mg_runs m) (mg_runs (refer_to_output (Some r) uri m))"
  by (auto simp: refer_to_output_def refers_def)

text \<open>What a filing does, on every branch: the refusals, and the chain of writes.\<close>

lemma file_evidence_cases [consumes 1, case_names rejected dangling filed]:
  assumes "file_evidence conf s p content m = (r, m')"
  obtains (rejected) e where "r = Inl (EvidenceDenied e)" and "m' = m"
  | (dangling) objs where "r = Inl ServerError" and "m' = m\<lparr>mg_objects := objs\<rparr>"
  | (filed) uri checksum objs eid m2 m3 where
      "local_submit_evidence (mc_sha conf) (mc_uid conf) (mc_bucket conf) (sn_id s) (ei_tool_run_id p) content
         (ei_content_type p) (mg_objects m) = (Inr (uri, checksum), objs)"
      and "keep_evidence_row p uri checksum (m\<lparr>mg_objects := objs\<rparr>) = (eid, m2)"
      and "m3 \<in> {m2, link_screenshot conf s eid (or_empty (ei_fingerprint p)) (ei_tool_run_id p) m2}"
      and "m' \<in> {refer_to_output (Option.bind (ei_tool_run_id p) (\<lambda>rid. get_run rid (mg_runs m))) uri m3}
         \<union> {snd (ingest_from_raw_output conf s q eid (or_empty (ei_tool_name p)) content (ei_content_type p)
              (refer_to_output (Some q) uri m3)) | q rid. ei_tool_run_id p = Some rid \<and> get_run rid (mg_runs m) = Some q}"
      and "is_ok r"
proof (cases "local_submit_evidence (mc_sha conf) (mc_uid conf) (mc_bucket conf) (sn_id s) (ei_tool_run_id p) content
             (ei_content_type p) (mg_objects m)")
  case (Pair stored objs)
  note res = assms [unfolded file_evidence_def Pair prod.case]
  show thesis
  proof (cases stored)
    case (Inl e)
    with res show thesis by (intro rejected [of e]) auto
  next
    case (Inr uc)
    obtain uri checksum where uc: "uc = (uri, checksum)" by (cases uc)
    define m1 where "m1 = m\<lparr>mg_objects := objs\<rparr>"
    define run where "run = Option.bind (ei_tool_run_id p) (\<lambda>rid. get_run rid (mg_runs m))"
    have run1: "Option.bind (ei_tool_run_id p) (\<lambda>rid. get_run rid (mg_runs m1)) = run"
      by (simp add: m1_def run_def)
    obtain eid m2 where keep: "keep_evidence_row p uri checksum m1 = (eid, m2)"
      by (cases "keep_evidence_row p uri checksum m1")
    define m3 where "m3 = (if base_type (ei_content_type p) = ''image/png'' \<and> truthy (ei_fingerprint p)
          then link_screenshot conf s eid (or_empty (ei_fingerprint p)) (ei_tool_run_id p) m2 else m2)"
    note res = res [unfolded Inr uc sum.case prod.case Let_def, folded m1_def,
        unfolded run1 keep prod.case, folded m3_def]
    show thesis
    proof (cases "evidence_row_for (ei_tool_run_id p) checksum (mg_evidence m1) = None
                 \<and> ei_tool_run_id p \<noteq> None \<and> run = None")
      case True
      from res [unfolded if_P [OF True]] show thesis by (intro dangling [of objs]) (auto simp: m1_def)
    next
      case False
      note res = res [unfolded if_not_P [OF False]]
      have m3: "m3 \<in> {m2, link_screenshot conf s eid (or_empty (ei_fingerprint p)) (ei_tool_run_id p) m2}"
        by (simp add: m3_def)
      show thesis
      proof (cases run)
        case None
        with res have "r = Inr 0" "m' = refer_to_output run uri m3" by auto
        then show thesis
          using Pair Inr uc keep m3 by (intro filed [of uri checksum objs eid m2 m3]) (simp_all add: run_def m1_def)
      next
        case (Some q)
        note some = this
        then obtain rid where rid: "ei_tool_run_id p = Some rid" "get_run rid (mg_runs m) = Some q"
          unfolding run_def by (cases "ei_tool_run_id p") auto
        show thesis
        proof (cases "truthy (ei_tool_name p)")
          case True
          with res some have "is_ok r" "m' = snd (ingest_from_raw_output conf s q eid (or_empty (ei_tool_name p)) content
              (ei_content_type p) (refer_to_output (Some q) uri m3))"
            by (auto simp: case_prod_beta)
          then show thesis
            using Pair Inr uc keep m3 rid by (intro filed [of uri checksum objs eid m2 m3]) (auto simp: m1_def)
        next
          case False
          with res some have "r = Inr 0" "m' = refer_to_output run uri m3" by auto
          then show thesis
            using Pair Inr uc keep m3 by (intro filed [of uri checksum objs eid m2 m3]) (simp_all add: run_def m1_def)
        qed
      qed
    qed
  qed
qed

lemma file_fields:
  assumes "file_evidence conf s p content m = (r, m')"
  shows "mg_scans m' = mg_scans m \<and> mg_next m \<le> mg_next m' \<and> refers (mg_runs m) (mg_runs m')"
  using assms
proof (cases rule: file_evidence_cases)
  case (filed uri checksum objs eid m2 m3)
  let ?run = "Option.bind (ei_tool_run_id p) (\<lambda>rid. get_run rid (mg_runs m))"
  have m2: "mg_scans m2 = mg_scans m" "mg_next m \<le> mg_next m2" "mg_runs m2 = mg_runs m"
    using keep_fields [where p = p and uri = uri and checksum = checksum and m = "m\<lparr>mg_objects := objs\<rparr>"] filed(2)
    by simp_all
  have m3: "mg_scans m3 = mg_scans m" "mg_next m \<le> mg_next m3" "mg_runs m3 = mg_runs m"
    using filed(3) m2 by auto
  have "refers (mg_runs m) (mg_runs (refer_to_output ?run uri m3))"
  proof (cases ?run)
    case None
    then show ?thesis using m3(3) by (simp add: refer_to_output_def refers_def)
  next
    case (Some q)
    then obtain rid where "get_run rid (mg_runs m3) = Some q" unfolding m3(3) by (cases "ei_tool_run_id p") auto
    then show ?thesis using refer_refers [of rid m3 q uri] m3(3) unfolding Some by simp
  qed
  moreover have "refers (mg_runs m) (mg_runs (refer_to_output (Some q) uri m3))"
    if "get_run rid (mg_runs m) = Some q" for rid q
    using refer_refers [of rid m3 q uri] that m3(3) by simp
  ultimately show ?thesis using filed(4) m3 by auto
qed (simp_all add: refers_def)

lemma submit_evidence_cases:
  assumes "submit_evidence conf env w p m = (r, m')"
  obtains (refused) e where "r = Inl e" and "m' \<in> {m, snd (emergency_check conf env m)}"
  | (granted) scan m1 content where "authorize_scan_for_worker conf env w (ei_scan_id p) m = (Inr scan, m1)"
      and "b64decode (ei_content_b64 p) = Some content"
      and "sn_execution_token scan = Some (ei_execution_token p)"
      and "file_evidence conf scan p content m1 = (r, m')"
proof -
  obtain a m1 where auth: "authorize_scan_for_worker conf env w (ei_scan_id p) m = (a, m1)"
    by (cases "authorize_scan_for_worker conf env w (ei_scan_id p) m")
  have m1: "m1 \<in> {m, snd (emergency_check conf env m)}"
    using authorize_state [of conf env w "ei_scan_id p" m] auth by simp
  note res = assms [unfolded submit_evidence_def auth prod.case]
  show thesis
  proof (cases a)
    case (Inl e)
    with res m1 show thesis by (intro refused [of e]) auto
  next
    case (Inr scan)
    note res = res [unfolded Inr sum.case]
    show thesis
    proof (cases "b64decode (ei_content_b64 p)")
      case None
      with res m1 show thesis by (intro refused [of "HttpErr 400 ''EVIDENCE_NOT_BASE64''"]) auto
    next
      case (Some content)
      note dec = this
      note res = res [unfolded Some option.case]
      show thesis
      proof (cases "validate_evidence (mc_sha conf) content (ei_content_type p)")
        case (Inl e)
        with res m1 show thesis by (intro refused [of "EvidenceDenied e"]) auto
      next
        case (Inr digest)
        note res = res [unfolded Inr sum.case]
        show thesis
        proof (cases "truthy (ei_sha256 p) \<and> py_lower (or_empty (ei_sha256 p)) \<noteq> digest")
          case True
          from res [unfolded if_P [OF True]] m1 show thesis
            by (intro refused [of "HttpErr 400 ''EVIDENCE_DIGEST_MISMATCH''"]) auto
        next
          case False
          note res = res [unfolded if_not_P [OF False]]
          show thesis
          proof (cases "assert_execution_token scan (ei_execution_token p)")
            case (Inl e)
            with res m1 show thesis by (intro refused [of e]) auto
          next
            case (Inr u)
            then have "sn_execution_token scan = Some (ei_execution_token p)"
              by (simp add: assert_execution_token_def split: if_splits)
            with Inr res dec auth \<open>a = Inr scan\<close> show thesis by (intro granted [of scan m1 content]) simp_all
          qed
        qed
      qed
    qed
  qed
qed

lemma evidence_fields:
  assumes "submit_evidence conf env w p m = (r, m')"
  shows "mg_scans m' = mg_scans m \<and> mg_next m \<le> mg_next m' \<and> refers (mg_runs m) (mg_runs m')"
proof (rule submit_evidence_cases [OF assms])
  fix e assume "m' \<in> {m, snd (emergency_check conf env m)}"
  then show ?thesis by (auto simp: refers_def)
next
  fix scan m1 content
  assume "authorize_scan_for_worker conf env w (ei_scan_id p) m = (Inr scan, m1)"
    and "file_evidence conf scan p content m1 = (r, m')"
  then show ?thesis using authorize_fields file_fields by metis
qed

lemma step_scan_path:
  assumes "mgr_step m m'"
  shows "scan_path (mg_next m) m m'"
  using assms
proof cases
  case (beat conf env w health detail handshake sid token r)
  then show ?thesis by (rule beat_path)
next
  case (lease conf env w k r)
  then show ?thesis by (rule lease_path)
next
  case (finish conf env w sid token st r)
  then show ?thesis by (rule finish_path)
next
  case (probe conf env w sid token r)
  then have "mg_scans m' = mg_scans m" "mg_next m' = mg_next m"
    using authorize_fields [of conf env w sid m]
    by (auto simp: scan_status_def split: prod.splits sum.splits)
  then show ?thesis by (rule scan_path_refl)
next
  case (started conf env w sid rid nm token since r)
  then have "mg_scans m' = mg_scans m \<and> mg_next m' = mg_next m"
    by (cases rule: started_cases) simp_all
  then show ?thesis by (simp add: scan_path_refl)
next
  case (result conf env w p r)
  then have "mg_scans m' = mg_scans m \<and> mg_next m' = mg_next m"
    by (cases rule: result_cases) simp_all
  then show ?thesis by (simp add: scan_path_refl)
next
  case (evidence conf env w e r)
  from evidence_fields [OF evidence] show ?thesis by (simp add: scan_path_def)
qed

section \<open>Tool runs\<close>

text \<open>A terminal run is complete, and no run ends before it started.\<close>

definition run_ok :: "tool_run \<Rightarrow> bool" where
  "run_ok r =
     ((if tn_status r = ''running'' then True
       else tn_status r \<in> set ALLOWED_TOOL_STATUSES \<and> tn_started_at r \<noteq> None \<and> tn_completed_at r \<noteq> None)
      \<and> (case (tn_started_at r, tn_completed_at r) of (Some a, Some b) \<Rightarrow> a \<le> b | _ \<Rightarrow> True))"

definition run_next :: "tool_run \<Rightarrow> tool_run \<Rightarrow> bool" where
  "run_next r r' =
     (tn_id r' = tn_id r \<and> tn_scan_id r' = tn_scan_id r
      \<and> (tn_status r \<in> set ALLOWED_TOOL_STATUSES \<longrightarrow> tn_status r' = tn_status r)
      \<and> (truthy (tn_effective_command r) \<longrightarrow>
           tn_effective_command r' = tn_effective_command r \<and> tn_command_hash r' = tn_command_hash r)
      \<and> (truthy (tn_raw_output_ref r) \<longrightarrow> tn_raw_output_ref r' = tn_raw_output_ref r)
      \<and> (tn_timed_out r \<longrightarrow> tn_timed_out r') \<and> (run_ok r \<longrightarrow> run_ok r'))"

lemma run_next_refl: "run_next r r"
  by (simp add: run_next_def)

abbreviation runs_move :: "tool_run list \<Rightarrow> tool_run list \<Rightarrow> bool" where
  "runs_move \<equiv> rows_move run_next tn_id run_ok"

lemma get_run_Some: "get_run rid runs = Some r \<Longrightarrow> r \<in> set runs \<and> tn_id r = rid"
  unfolding get_run_def by (drule find_row_Some) simp

lemma get_run_None: "get_run rid runs = None \<Longrightarrow> rid \<notin> tn_id ` set runs"
  unfolding get_run_def find_row_None by auto

lemma put_run_move:
  assumes "unique_key tn_id runs" and "r \<in> set runs" and "tn_id r' = tn_id r" and "run_next r r'"
  shows "runs_move runs (put_run r' runs)"
proof -
  have "put_run r' runs = update_where (\<lambda>q. q = r) (\<lambda>_. r') runs"
    unfolding put_run_def using assms(1-3) unique_key_eq [OF assms(1)] by (intro update_where_cong) auto
  then show ?thesis using assms(4) by (auto intro!: rows_move_update run_next_refl)
qed

lemma resolve_le: "resolve_tool_started_at reported now \<le> now"
  by (simp add: resolve_tool_started_at_def Let_def split: option.split)

lemma new_run_ok: "List.member ALLOWED_TOOL_STATUSES (ti_status p) \<Longrightarrow> run_ok (new_run conf p s t now)"
  by (simp add: run_ok_def new_run_def resolve_le)

text \<open>The fields of a resubmitted run, one by one.\<close>

definition repaired_start :: "tool_result_in \<Rightarrow> time \<Rightarrow> tool_run \<Rightarrow> time" where
  "repaired_start p now r =
     (case tn_started_at r of
        Some s0 \<Rightarrow> if now < s0 then resolve_tool_started_at (ti_started_at p) now else s0
      | None \<Rightarrow> resolve_tool_started_at (ti_started_at p) now)"

lemma repaired_start_le: "repaired_start p now r \<le> now"
  by (simp add: repaired_start_def resolve_le split: option.split)

lemma resubmitted_fields:
  "tn_id (resubmitted_run conf p t now r) = tn_id r"
  "tn_scan_id (resubmitted_run conf p t now r) = tn_scan_id r"
  "tn_status (resubmitted_run conf p t now r) =
     (if List.member ALLOWED_TOOL_STATUSES (tn_status r) then tn_status r else ti_status p)"
  "tn_raw_output_ref (resubmitted_run conf p t now r) = tn_raw_output_ref r"
  "tn_timed_out (resubmitted_run conf p t now r) = (ti_timed_out p = Some True \<or> tn_timed_out r)"
  "truthy (tn_effective_command r) \<Longrightarrow>
     tn_effective_command (resubmitted_run conf p t now r) = tn_effective_command r"
  "truthy (tn_effective_command r) \<Longrightarrow>
     tn_command_hash (resubmitted_run conf p t now r) = tn_command_hash r"
  "tn_started_at (resubmitted_run conf p t now r) = Some (repaired_start p now r)"
  "tn_completed_at (resubmitted_run conf p t now r) =
     (case tn_completed_at r of
        None \<Rightarrow> Some now
      | Some c \<Rightarrow> if c < repaired_start p now r then Some now else Some c)"
  by (simp_all add: resubmitted_run_def Let_def repaired_start_def split: option.splits)

lemma resubmitted_next:
  assumes st: "List.member ALLOWED_TOOL_STATUSES (ti_status p)"
  shows "run_next r (resubmitted_run conf p t now r)"
proof -
  let ?r = "resubmitted_run conf p t now r"
  have "tn_status ?r \<in> set ALLOWED_TOOL_STATUSES" using st by (simp add: resubmitted_fields(3))
  moreover have "case (tn_started_at ?r, tn_completed_at ?r) of (Some a, Some b) \<Rightarrow> a \<le> b | _ \<Rightarrow> True"
    using repaired_start_le [of p now r] by (simp add: resubmitted_fields split: option.split)
  moreover have "tn_started_at ?r \<noteq> None" "tn_completed_at ?r \<noteq> None"
    by (simp_all add: resubmitted_fields split: option.split)
  ultimately have "run_ok ?r" by (simp add: run_ok_def)
  then show ?thesis by (simp add: run_next_def resubmitted_fields)
qed

lemma announce_move:
  assumes u: "unique_key tn_id runs" and run: "run_of_scan s rid runs = Inr existing"
  shows "runs_move runs (announce s rid t at0 existing runs)"
proof (cases "get_run rid runs")
  case None
  with run have "existing = None" by (simp add: run_of_scan_def)
  with get_run_None [OF None] show ?thesis
    by (auto simp: announce_def started_run_def run_ok_def intro!: rows_move_append run_next_refl)
next
  case (Some r)
  with run have e: "existing = Some r" by (auto simp: run_of_scan_def split: if_splits)
  show ?thesis
  proof (cases "tn_status r = ''running'' \<and> tn_completed_at r = None")
    case True
    then have "run_next r (r\<lparr>tn_started_at := Some at0\<rparr>)"
      by (auto simp: run_next_def run_ok_def ALLOWED_TOOL_STATUSES_def)
    then have "runs_move runs (put_run (r\<lparr>tn_started_at := Some at0\<rparr>) runs)"
      using u get_run_Some [OF Some] by (intro put_run_move [of _ r]) simp_all
    with True e show ?thesis by (simp add: announce_def)
  next
    case False
    have "announce s rid t at0 existing runs = runs"
      unfolding e announce_def option.case if_not_P [OF False] ..
    then show ?thesis by (simp add: rows_move_same run_next_refl)
  qed
qed

lemma record_move:
  assumes u: "unique_key tn_id runs" and run: "run_of_scan s (ti_tool_run_id p) runs = Inr existing"
    and st: "List.member ALLOWED_TOOL_STATUSES (ti_status p)"
  shows "runs_move runs (record_result conf p s t now existing runs)"
proof (cases "get_run (ti_tool_run_id p) runs")
  case None
  with run have "existing = None" by (simp add: run_of_scan_def)
  moreover have "tn_id (new_run conf p s t now) \<notin> tn_id ` set runs"
    using get_run_None [OF None] by (simp add: new_run_def)
  ultimately show ?thesis
    by (simp add: record_result_def rows_move_append run_next_refl new_run_ok [OF st])
next
  case (Some r)
  with run have e: "existing = Some r" by (auto simp: run_of_scan_def split: if_splits)
  have "runs_move runs (put_run (resubmitted_run conf p t now r) runs)"
    using u get_run_Some [OF Some] resubmitted_next [OF st]
    by (intro put_run_move [of _ r]) (simp_all add: resubmitted_fields)
  with e show ?thesis by (simp add: record_result_def)
qed

lemma refers_move:
  assumes u: "unique_key tn_id runs" and "refers runs runs'"
  shows "runs_move runs runs'"
  using assms(2) unfolding refers_def
proof (elim disjE exE conjE)
  assume "runs' = runs"
  then show ?thesis by (simp add: rows_move_same run_next_refl)
next
  fix rid r uri
  assume r: "get_run rid runs = Some r" "\<not> truthy (tn_raw_output_ref r)"
    and runs': "runs' = put_run (r\<lparr>tn_raw_output_ref := Some uri\<rparr>) runs"
  have "run_next r (r\<lparr>tn_raw_output_ref := Some uri\<rparr>)" using r(2) by (simp add: run_next_def run_ok_def)
  then show ?thesis unfolding runs' using u get_run_Some [OF r(1)] by (intro put_run_move [of _ r]) simp_all
qed

lemma same_runs_move: "mg_runs m' = mg_runs m \<Longrightarrow> runs_move (mg_runs m) (mg_runs m')"
  by (simp add: rows_move_same run_next_refl)

lemma beat_runs: "heartbeat conf env w health detail handshake sid token m = (r, m') \<Longrightarrow> mg_runs m' = mg_runs m"
  using authorize_fields(4) [of conf env w _ "m\<lparr>mg_fleet := f\<rparr>" for f]
  by (fastforce simp: heartbeat_def Let_def split: if_splits option.splits prod.splits sum.splits)

lemma finish_runs: "complete_lease conf env w sid token st m = (r, m') \<Longrightarrow> mg_runs m' = mg_runs m"
  using authorize_fields(4) [of conf env w sid m]
  by (auto simp: complete_lease_def Let_def split: if_splits prod.splits sum.splits)

lemma lease_runs:
  assumes "lease_jobs conf env w k m = (r, m')"
  shows "mg_runs m' = mg_runs m"
  using assms
proof (cases rule: lease_jobs_cases)
  case (loop m1)
  have "\<exists>jobs. mg_runs m' = mg_runs m \<and> (\<forall>js. r = Inr js \<longrightarrow> js = jobs)"
    by (rule lease_rows_rule [where I = "\<lambda>_ n. mg_runs n = mg_runs m" and R = UNIV, OF _ _ loop(5)])
      (simp_all add: loop(4))
  then show ?thesis by blast
qed simp

lemma step_runs_move:
  assumes "mgr_step m m'" and u: "unique_key tn_id (mg_runs m)"
  shows "runs_move (mg_runs m) (mg_runs m')"
  using assms(1)
proof cases
  case (beat conf env w health detail handshake sid token r)
  then show ?thesis by (intro same_runs_move beat_runs)
next
  case (lease conf env w k r)
  then show ?thesis by (intro same_runs_move lease_runs)
next
  case (finish conf env w sid token st r)
  then show ?thesis by (intro same_runs_move finish_runs)
next
  case (probe conf env w sid token r)
  then have "mg_runs m' = mg_runs m"
    using authorize_fields(4) [of conf env w sid m] by (auto simp: scan_status_def split: prod.splits sum.splits)
  then show ?thesis by (rule same_runs_move)
next
  case (started conf env w sid rid nm token since r)
  then show ?thesis
    by (cases rule: started_cases) (use same_runs_move announce_move [OF u] in auto)
next
  case (result conf env w p r)
  then show ?thesis
    by (cases rule: result_cases) (use same_runs_move record_move [OF u] in auto)
next
  case (evidence conf env w e r)
  from evidence_fields [OF evidence] show ?thesis using refers_move [OF u] by blast
qed

text \<open>The table of tool runs under the manager's steps, with the primary key that the database keeps.\<close>

definition keyed_step :: "'v mgr \<Rightarrow> 'v mgr \<Rightarrow> bool" where
  "keyed_step m m' = (mgr_step m m' \<and> unique_key tn_id (mg_runs m))"

interpretation runs: keyed_rows "\<lambda>m :: 'v mgr. mg_runs m" tn_id run_next run_ok keyed_step
proof
  fix m m' :: "'v mgr" and r r' :: tool_run
  show "keyed_step m m' \<Longrightarrow> \<exists>f new. mg_runs m' = map f (mg_runs m) @ new \<and> (\<forall>r \<in> set (mg_runs m). run_next r (f r))
      \<and> (\<forall>r \<in> set new. run_ok r \<and> tn_id r \<notin> tn_id ` set (mg_runs m)) \<and> unique_key tn_id new"
    using step_runs_move unfolding keyed_step_def rows_move_def by blast
  show "run_next r r' \<Longrightarrow> tn_id r' = tn_id r" by (simp add: run_next_def)
  show "run_next r r' \<Longrightarrow> run_ok r \<Longrightarrow> run_ok r'" by (simp add: run_next_def)
qed

lemma keyed_run:
  assumes "mgr_step\<^sup>*\<^sup>* m m'" and "unique_key tn_id (mg_runs m)"
  shows "keyed_step\<^sup>*\<^sup>* m m' \<and> unique_key tn_id (mg_runs m')"
  using assms
proof (induction rule: rtranclp_induct)
  case (step a b)
  then have "keyed_step a b" by (simp add: keyed_step_def)
  with step show ?case using runs.step_unique by (auto intro: rtranclp.rtrancl_into_rtrancl)
qed simp

lemma run_path_settled:
  assumes "run_next\<^sup>*\<^sup>* r r'" and "tn_status r \<in> set ALLOWED_TOOL_STATUSES"
  shows "tn_status r' = tn_status r \<and> tn_scan_id r' = tn_scan_id r"
  using assms by (induction rule: rtranclp_induct) (auto simp: run_next_def)

end
