(* ===== verification/Scan_Properties.thy ===== *)
theory Scan_Properties
  imports Scan_System
begin

text \<open>
  Properties of the scan lifecycle: the invariant of every run, fencing of superseded executions,
  finality of settled scans, the orphan reaper and the reconciler, and the outcome of a scan.
\<close>

section \<open>Example rows\<close>

definition ex_scan :: scan where
  "ex_scan = \<lparr>sn_id = 1, sn_workspace_id = 10, sn_project_id = 20, sn_target_id = 30, sn_initiated_by = 40,
     sn_scan_type = ''full'', sn_status = ''queued'', sn_config = [], sn_celery_task_id = None,
     sn_execution_token = None, sn_queued_at = Some 0, sn_started_at = None, sn_last_heartbeat_at = None,
     sn_completed_at = None, sn_created_at = 0\<rparr>"

definition ex_run :: tool_run where
  "ex_run = \<lparr>tn_id = 5, tn_scan_id = 1, tn_tool_name = ''nmap'', tn_tool_version = ''7'', tn_status = ''running'',
     tn_command_hash = [], tn_effective_command = None, tn_timed_out = False, tn_started_at = Some 0,
     tn_completed_at = None, tn_exit_code = None, tn_raw_output_ref = None, tn_error_message = None\<rparr>"


section \<open>The invariant\<close>



section \<open>Fencing\<close>

lemma get_scan_row_iff:
  "unique_key sn_id scans \<Longrightarrow> get_scan_row sid scans = Some s \<longleftrightarrow> s \<in> set scans \<and> sn_id s = sid"
  by (simp add: get_scan_row_def find_row_key_iff)

lemma finalize_wins_iff:
  "unique_key sn_id scans \<Longrightarrow> fst (finalize_status now sid st tok scans) \<longleftrightarrow>
     (\<exists>s. get_scan_row sid scans = Some s \<and> sn_status s = ''running'' \<and> sn_execution_token s = Some tok)"
  using keyed_update(1) [of sn_id scans sid "\<lambda>s. sn_status s = ''running'' \<and> sn_execution_token s = Some tok"]
  by (simp add: finalize_status_def get_scan_row_def)

lemma unowned_writes_nothing:
  assumes u: "unique_key sn_id scans" and s: "get_scan_row sid scans = Some s"
    and no: "sn_execution_token s \<noteq> Some tok"
  shows "finalize_status now sid st tok scans = (False, scans)"
    and "stamp_heartbeat now sid (Some tok) scans = scans"
    and "execution_stop_reason sid tok scans \<in> {Some ''cancelled'', Some ''revoked''}"
proof -
  have none: "\<forall>r \<in> set scans. \<not> (sn_id r = sid \<and> (sn_status r = ''running'' \<and> sn_execution_token r = Some tok))"
    using s no u by (metis get_scan_row_iff option.inject)
  show "finalize_status now sid st tok scans = (False, scans)"
    using none by (simp add: finalize_status_def Let_def update_where_none count_where_0 [THEN iffD2])
  show "stamp_heartbeat now sid (Some tok) scans = scans"
    using none by (simp add: stamp_heartbeat_def update_where_none)
  show "execution_stop_reason sid tok scans \<in> {Some ''cancelled'', Some ''revoked''}"
    using s no by (simp add: execution_stop_reason_def)
qed

text \<open>
  A superseded execution writes nothing: once a scan no longer carries an execution's token (it was
  requeued, reaped, cancelled, finished or claimed by another), that execution's terminal write and
  heartbeats change no row over any later run, and its stop probe tells it to stop.
\<close>
theorem superseded_execution_writes_nothing:
  assumes "unique_key sn_id scans" and "get_scan_row sid scans = Some s" and "sn_execution_token s \<noteq> Some tok"
    and "(life_step (- {tok}))\<^sup>*\<^sup>* scans scans'"
  shows "finalize_status now sid st tok scans' = (False, scans')
    \<and> stamp_heartbeat now sid (Some tok) scans' = scans'
    \<and> execution_stop_reason sid tok scans' \<in> {Some ''cancelled'', Some ''revoked''}"
proof -
  from scans.run_find [OF assms(4,1)] assms(2) obtain s' where
    s': "get_scan_row sid scans' = Some s'" "(scan_next (- {tok}))\<^sup>*\<^sup>* s s'"
    by (auto simp: get_scan_row_def)
  show ?thesis
    using unowned_writes_nothing [OF scans.run_unique [OF assms(4,1)] s'(1) path_without_token [OF s'(2) assms(3)]]
    by simp
qed

definition ex_requeued_scan :: "scan list" where
  "ex_requeued_scan = snd (requeue_scan 9000000 1 (snd (claim_scan 5000000 1 77 [ex_scan])))"

theorem superseded_execution_writes_nothing_witness:
  "let scans' = snd (claim_scan 10000000 1 78 ex_requeued_scan) in
     finalize_status 11000000 1 ''completed'' 77 scans' = (False, scans')
     \<and> stamp_heartbeat 11000000 1 (Some 77) scans' = scans'
     \<and> execution_stop_reason 1 77 scans' \<in> {Some ''cancelled'', Some ''revoked''}"
proof -
  have u: "unique_key sn_id ex_requeued_scan" by code_simp
  have "map_option sn_execution_token (get_scan_row 1 ex_requeued_scan) = Some None" by code_simp
  then obtain s where s: "get_scan_row 1 ex_requeued_scan = Some s" "sn_execution_token s \<noteq> Some 77" by auto
  have "life_step (- {77}) ex_requeued_scan (snd (claim_scan 10000000 1 78 ex_requeued_scan))"
    by (rule life_step.claim [of _ 1 78 _ "fst (claim_scan 10000000 1 78 ex_requeued_scan)"]) simp_all
  then show ?thesis
    unfolding Let_def by (rule superseded_execution_writes_nothing [OF u s r_into_rtranclp])
qed

text \<open>
  A settled scan stays settled: completed, completed with errors and cancelled are final, whatever
  executors, sweeps and users do later, and the completion time stays as recorded.
\<close>
theorem settled_scan_stays:
  assumes "unique_key sn_id scans" and "get_scan_row sid scans = Some s"
    and "sn_status s \<in> {''completed'', ''completed_with_errors'', ''cancelled''}" and "(life_step U)\<^sup>*\<^sup>* scans scans'"
  shows "\<exists>s'. get_scan_row sid scans' = Some s' \<and> sn_status s' = sn_status s
    \<and> sn_completed_at s' = sn_completed_at s"
proof -
  from scans.run_find [OF assms(4,1)] assms(2) obtain s' where
    "get_scan_row sid scans' = Some s'" "(scan_next U)\<^sup>*\<^sup>* s s'"
    by (auto simp: get_scan_row_def)
  with path_settled [of U s s'] assms(3) show ?thesis by blast
qed

theorem settled_scan_stays_witness:
  "\<exists>s'. get_scan_row 1 (snd (reap_orphaned_scans 90000000 1 None (snd (cancel_update 5 1 [ex_scan])))) = Some s'
     \<and> sn_status s' = ''cancelled'' \<and> sn_completed_at s' = Some 5"
proof -
  let ?xs = "snd (cancel_update 5 1 [ex_scan])"
  let ?s = "ex_scan\<lparr>sn_status := ''cancelled'', sn_completed_at := Some 5, sn_execution_token := None\<rparr>"
  have "life_step UNIV ?xs (snd (reap_orphaned_scans 90000000 1 None ?xs))"
    by (rule life_step.reap [of 90000000 1 None _ "fst (reap_orphaned_scans 90000000 1 None ?xs)"]) simp
  moreover have "unique_key sn_id ?xs" by code_simp
  moreover have "get_scan_row 1 ?xs = Some ?s" by code_simp
  ultimately show ?thesis
    using settled_scan_stays [of ?xs 1 ?s UNIV "snd (reap_orphaned_scans 90000000 1 None ?xs)"]
    by (simp add: r_into_rtranclp)
qed

text \<open>
  The cooperative stop probe and the terminal write agree: an execution is told to continue exactly
  when its terminal write would land.
\<close>
theorem stop_probe_predicts_terminal_write:
  assumes "unique_key sn_id scans"
  shows "execution_stop_reason sid tok scans = None \<longleftrightarrow> fst (finalize_status now sid st tok scans)"
  using finalize_wins_iff [OF assms, of now sid st tok]
  by (auto simp: execution_stop_reason_def split: option.split)

theorem stop_probe_predicts_terminal_write_witness:
  "execution_stop_reason 1 77 (snd (claim_scan 5 1 77 [ex_scan])) = None \<longleftrightarrow>
     fst (finalize_status 9 1 ''failed'' 77 (snd (claim_scan 5 1 77 [ex_scan])))"
proof -
  have "unique_key sn_id (snd (claim_scan 5 1 77 [ex_scan]))" by code_simp
  then show ?thesis by (rule stop_probe_predicts_terminal_write)
qed

section \<open>The orphan reaper\<close>

lemma find_updated:
  assumes "unique_key sn_id scans" and "get_scan_row sid scans = Some s" and "\<And>r. sn_id (f r) = sn_id r"
  shows "get_scan_row sid (update_where P f scans) = Some (if P s then f s else s)"
  using assms find_row_update_where_key [of P sn_id f sid scans] by (simp add: get_scan_row_def)

text \<open>
  The reaper's effect on one scan, in full: a running scan is failed, disowned and marked recovered
  exactly when its last heartbeat (or, if it never stamped one, its start) is older than the limit; any
  other scan is left as it is, however long it has run.
\<close>
theorem reaper_spares_the_living:
  assumes "unique_key sn_id scans" and "get_scan_row sid scans = Some s"
  shows "get_scan_row sid (snd (reap_orphaned_scans now timeout (Some stale) scans)) = Some
    (if sn_status s = ''running''
        \<and> (case sn_last_heartbeat_at s of
             Some h \<Rightarrow> h < now - stale * 1000000
           | None \<Rightarrow> (case sn_started_at s of None \<Rightarrow> False | Some t \<Rightarrow> t < now - timeout * 1000000))
     then s\<lparr>sn_status := ''failed'', sn_completed_at := Some now, sn_execution_token := None,
            sn_config := merge_fields (sn_config s) (recovery_patch now timeout stale)\<rparr>
     else s)"
proof -
  have "orphaned (now - stale * 1000000) (now - timeout * 1000000) s \<longleftrightarrow> sn_status s = ''running''
        \<and> (case sn_last_heartbeat_at s of
             Some h \<Rightarrow> h < now - stale * 1000000
           | None \<Rightarrow> (case sn_started_at s of None \<Rightarrow> False | Some t \<Rightarrow> t < now - timeout * 1000000))"
    by (auto simp: orphaned_def sql_before_def split: option.splits)
  then show ?thesis
    by (simp add: reap_orphaned_scans_def Let_def find_updated [OF assms])
qed

theorem reaper_spares_the_living_witness:
  "get_scan_row 1 (snd (reap_orphaned_scans 90000000 10 (Some 60)
      (stamp_heartbeat 40000000 1 (Some 77) (snd (claim_scan 0 1 77 [ex_scan]))))) =
    get_scan_row 1 (stamp_heartbeat 40000000 1 (Some 77) (snd (claim_scan 0 1 77 [ex_scan])))"
proof -
  let ?xs = "stamp_heartbeat 40000000 1 (Some 77) (snd (claim_scan 0 1 77 [ex_scan]))"
  let ?s = "ex_scan\<lparr>sn_status := ''running'', sn_started_at := Some 0, sn_execution_token := Some 77,
    sn_last_heartbeat_at := Some 40000000\<rparr>"
  have "unique_key sn_id ?xs" by code_simp
  moreover have s: "get_scan_row 1 ?xs = Some ?s" by code_simp
  ultimately show ?thesis
    using reaper_spares_the_living [of ?xs 1 ?s 90000000 10 60] by simp
qed

text \<open>
  A claim does not reset the heartbeat: a scan that is claimed again with a stale heartbeat of its
  previous executor is reaped at once, and the executor that just claimed it is told to stop and
  cannot finish it.
\<close>
theorem fresh_claim_is_reaped:
  assumes "unique_key sn_id scans" and "get_scan_row sid scans = Some s"
    and "sn_status s \<in> {''queued'', ''failed''}" and "sn_last_heartbeat_at s = Some h"
    and "h < now - stale * 1000000"
  shows "(let (won, claimed) = claim_scan now sid tok scans;
              reaped = snd (reap_orphaned_scans now timeout (Some stale) claimed)
          in won \<and> map_option sn_status (get_scan_row sid reaped) = Some ''failed''
             \<and> execution_stop_reason sid tok reaped = Some ''revoked''
             \<and> \<not> fst (finalize_status now sid st tok reaped))"
proof -
  let ?claimed = "snd (claim_scan now sid tok scans)"
  let ?c = "s\<lparr>sn_status := ''running'', sn_started_at := Some (sql_now now), sn_execution_token := Some tok\<rparr>"
  let ?reaped = "snd (reap_orphaned_scans now timeout (Some stale) ?claimed)"
  have s: "s \<in> set scans" "sn_id s = sid" using assms(1,2) by (simp_all add: get_scan_row_iff)
  have won: "fst (claim_scan now sid tok scans)"
    using keyed_update(1) [OF assms(1), of sid "\<lambda>s. List.member [''queued'', ''failed''] (sn_status s)"] assms(2,3)
    by (auto simp: claim_scan_def get_scan_row_def)
  have st: "(life_step UNIV) scans ?claimed"
    by (rule life_step.claim [of now sid tok _ "fst (claim_scan now sid tok scans)"]) simp_all
  have u: "unique_key sn_id ?claimed" by (rule scans.step_unique [OF st assms(1)])
  have "life_step UNIV ?claimed ?reaped"
    by (rule life_step.reap [of now timeout "Some stale" _ "fst (reap_orphaned_scans now timeout (Some stale) ?claimed)"]) simp
  then have u': "unique_key sn_id ?reaped" by (rule scans.step_unique [OF _ u])
  have c: "get_scan_row sid ?claimed = Some ?c"
    using assms(3) s(2) by (simp add: claim_scan_def Let_def find_updated [OF assms(1,2)])
  have r: "get_scan_row sid ?reaped = Some (?c\<lparr>sn_status := ''failed'', sn_completed_at := Some now,
      sn_execution_token := None, sn_config := merge_fields (sn_config s) (recovery_patch now timeout stale)\<rparr>)"
    using assms(4,5) by (simp add: reaper_spares_the_living [OF u c])
  have "\<not> fst (finalize_status now sid st tok ?reaped)"
    using finalize_wins_iff [OF u'] r by simp
  moreover have "execution_stop_reason sid tok ?reaped = Some ''revoked''"
    using r by (simp add: execution_stop_reason_def)
  ultimately show ?thesis using won r by (simp add: Let_def case_prod_beta)
qed

theorem fresh_claim_is_reaped_witness:
  "let lost = snd (reap_orphaned_scans 100000000 10 (Some 60)
                (stamp_heartbeat 20000000 1 (Some 77) (snd (claim_scan 0 1 77 [ex_scan]))));
       (won, claimed) = claim_scan 100000000 1 78 lost;
       reaped = snd (reap_orphaned_scans 100000000 10 (Some 60) claimed)
   in won \<and> map_option sn_status (get_scan_row 1 reaped) = Some ''failed''
      \<and> execution_stop_reason 1 78 reaped = Some ''revoked''
      \<and> \<not> fst (finalize_status 100000000 1 ''completed'' 78 reaped)"
proof -
  let ?lost = "snd (reap_orphaned_scans 100000000 10 (Some 60)
    (stamp_heartbeat 20000000 1 (Some 77) (snd (claim_scan 0 1 77 [ex_scan]))))"
  have u: "unique_key sn_id ?lost" by code_simp
  have "map_option (\<lambda>s. (sn_status s, sn_last_heartbeat_at s)) (get_scan_row 1 ?lost) = Some (''failed'', Some 20000000)"
    by code_simp
  then obtain s where s: "get_scan_row 1 ?lost = Some s" "sn_status s = ''failed''" "sn_last_heartbeat_at s = Some 20000000"
    by auto
  have "sn_status s \<in> {''queued'', ''failed''}" and "(20000000 :: int) < 100000000 - 60 * 1000000"
    using s(2) by simp_all
  from fresh_claim_is_reaped [OF u s(1) this(1) s(3) this(2)] show ?thesis
    unfolding Let_def by simp
qed

section \<open>The tool-run reconciler\<close>

text \<open>
  The reconciler fails exactly the tool runs still running whose scan has been terminal for longer
  than the grace period; it keeps a completion time and a message that the run already has, changes no
  other run, and a second sweep at the same time finds nothing.
\<close>
theorem reconciler_repairs_exactly:
  shows "(let (n, runs') = reconcile_orphaned_tool_runs now grace scans runs in
     runs' = map (\<lambda>r. if tn_status r = ''running''
          \<and> (\<exists>s \<in> set scans. sn_id s = tn_scan_id r \<and> sn_status s \<in> set TERMINAL_STATUSES
               \<and> (case coalesce (sn_completed_at s) (sn_started_at s) of
                    None \<Rightarrow> False | Some t \<Rightarrow> t < now - grace * 1000000))
        then r\<lparr>tn_status := ''failed'', tn_completed_at := coalesce (tn_completed_at r) (Some now),
               tn_error_message := coalesce (tn_error_message r)
                 (Some [Lit ''orphaned: parent scan reached a terminal status more than '', Num grace,
                   Lit ''s ago while this tool run was still 'running'; no result was ever recorded for it''])\<rparr>
        else r) runs
     \<and> reconcile_orphaned_tool_runs now grace scans runs' = (0, runs'))"
proof -
  let ?P = "stranded_run (now - grace * 1000000) scans"
  let ?runs = "snd (reconcile_orphaned_tool_runs now grace scans runs)"
  have P: "?P r \<longleftrightarrow> tn_status r = ''running''
          \<and> (\<exists>s \<in> set scans. sn_id s = tn_scan_id r \<and> sn_status s \<in> set TERMINAL_STATUSES
               \<and> (case coalesce (sn_completed_at s) (sn_started_at s) of
                    None \<Rightarrow> False | Some t \<Rightarrow> t < now - grace * 1000000))" for r
    by (auto simp: stranded_run_def sql_before_def list_ex_iff TERMINAL_SCAN_STATUSES_def TERMINAL_STATUSES_def)
  have "\<forall>r \<in> set ?runs. \<not> ?P r"
    by (auto simp: reconcile_orphaned_tool_runs_def Let_def set_update_where stranded_run_def ORPHAN_TOOLRUN_STATUS_def)
  then have "reconcile_orphaned_tool_runs now grace scans ?runs = (0, ?runs)"
    by (simp add: reconcile_orphaned_tool_runs_def Let_def count_where_0 [THEN iffD2] update_where_none)
  then show ?thesis
    by (simp add: reconcile_orphaned_tool_runs_def Let_def update_where_def P ORPHAN_TOOLRUN_STATUS_def)
qed

section \<open>Cancellation\<close>

text \<open>
  A cancellation reports the truth under any interleaving: when it succeeds, the scan was not terminal
  at the write and is cancelled now; when it is refused, it changed nothing and names a terminal status
  that the scan had when it was read or when it was written.
\<close>
theorem cancellation_reports_the_truth:
  assumes "unique_key sn_id read" and "(life_step U)\<^sup>*\<^sup>* read scans"
    and "cancel_scan now ws pid sid read scans = (r, scans')"
  shows "case r of
      Inr after \<Rightarrow> (\<exists>s. get_scan_row sid scans = Some s \<and> sn_status s \<notin> set TERMINAL_STATUSES
          \<and> after = Some (s\<lparr>sn_status := ''cancelled'', sn_completed_at := Some now, sn_execution_token := None\<rparr>)
          \<and> get_scan_row sid scans' = after)
    | Inl (ScanAlready st) \<Rightarrow> scans' = scans \<and> st \<in> set TERMINAL_STATUSES
          \<and> (\<exists>s. sn_status s = st \<and> (get_scan_row sid read = Some s \<or> get_scan_row sid scans = Some s))
    | Inl ScanNotFound \<Rightarrow> scans' = scans \<and> get_scan ws pid sid read = Inl ScanNotFound"
proof (cases "get_scan ws pid sid read")
  case (Inl e)
  then have "e = ScanNotFound" by (auto simp: get_scan_def split: option.splits)
  with Inl assms(3) show ?thesis by (auto simp: cancel_scan_def)
next
  case (Inr s)
  then have "find_row (\<lambda>s. sn_id s = sid \<and> sn_workspace_id s = ws \<and> sn_project_id s = pid) read = Some s"
    by (simp add: get_scan_def split: option.splits)
  from find_row_Some [OF this] have s: "get_scan_row sid read = Some s"
    by (simp add: get_scan_row_iff [OF assms(1)])
  have u: "unique_key sn_id scans" by (rule scans.run_unique [OF assms(2,1)])
  from scans.run_find [OF assms(2,1)] s obtain s' where s': "get_scan_row sid scans = Some s'"
    by (auto simp: get_scan_row_def)
  let ?P = "\<lambda>s. \<not> List.member TERMINAL_STATUSES (sn_status s)"
  have won: "fst (cancel_update now sid scans) \<longleftrightarrow> ?P s'"
    using keyed_update(1) [OF u, of sid ?P] s' by (simp add: cancel_update_def get_scan_row_def)
  have after: "get_scan_row sid (snd (cancel_update now sid scans)) = Some
      (if ?P s' then s'\<lparr>sn_status := ''cancelled'', sn_completed_at := Some now, sn_execution_token := None\<rparr> else s')"
    using s' u by (simp add: cancel_update_def Let_def find_updated [OF u s'] get_scan_row_iff)
  have same: "snd (cancel_update now sid scans) = scans" if "\<not> ?P s'"
  proof -
    have "\<forall>q \<in> set scans. \<not> (sn_id q = sid \<and> ?P q)"
      using that s' u by (metis get_scan_row_iff option.inject)
    then show ?thesis by (simp add: cancel_update_def update_where_none)
  qed
  show ?thesis
  proof (cases "?P s")
    case False
    with Inr assms(3) s show ?thesis by (auto simp: cancel_scan_def)
  next
    case True
    then have e: "cancel_scan now ws pid sid read scans =
        (if \<not> ?P s' then Inl (ScanAlready (sn_status s'))
         else Inr (get_scan_row sid (snd (cancel_update now sid scans))), snd (cancel_update now sid scans))"
      using Inr won after by (simp add: cancel_scan_def Let_def case_prod_beta)
    show ?thesis
    proof (cases "?P s'")
      case True
      then show ?thesis using e assms(3) s' after by auto
    next
      case False
      then show ?thesis using e assms(3) s' same by auto
    qed
  qed
qed

theorem cancellation_reports_the_truth_witness:
  "(let finished = snd (finalize_status 9 1 ''completed'' 77 (snd (claim_scan 5 1 77 [ex_scan]))) in
     case fst (cancel_scan 9 10 20 1 (snd (claim_scan 5 1 77 [ex_scan])) finished) of
       Inl (ScanAlready st) \<Rightarrow> st \<in> set TERMINAL_STATUSES | _ \<Rightarrow> False)"
proof -
  let ?claimed = "snd (claim_scan 5 1 77 [ex_scan])"
  let ?finished = "snd (finalize_status 9 1 ''completed'' 77 ?claimed)"
  have u: "unique_key sn_id ?claimed" by code_simp
  have "life_step UNIV ?claimed ?finished"
    by (rule life_step.finalize [of 9 1 "''completed''" 77 _ "fst (finalize_status 9 1 ''completed'' 77 ?claimed)"]) simp_all
  then have run: "(life_step UNIV)\<^sup>*\<^sup>* ?claimed ?finished" by (rule r_into_rtranclp)
  have e: "cancel_scan 9 10 20 1 ?claimed ?finished = (Inl (ScanAlready ''completed''), ?finished)" by code_simp
  show ?thesis
    using cancellation_reports_the_truth [OF u run e] unfolding Let_def e fst_conv by simp
qed

end
