(* ===== verification/Evidence_Properties.thy ===== *)
theory Evidence_Properties
  imports Evidence_Store
begin

text \<open>
  Properties of the evidence path: transport and storage keep the bytes and their digest, re-verification
  finds them, what a second artefact of one tool run does to the first, and the bounds of the retry.
\<close>

lemma partition_char_append:
  "c \<notin> set a \<Longrightarrow> partition_char c (a @ c # b) = (a, Some b)"
  by (induction a) auto

lemma parse_storage_uri_of:
  "bucket \<noteq> [] \<Longrightarrow> CHR ''/'' \<notin> set bucket \<Longrightarrow> key \<noteq> [] \<Longrightarrow>
    parse_storage_uri (storage_uri bucket key) = Some (bucket, key)"
  by (simp add: parse_storage_uri_def storage_uri_def partition_char_append)

text \<open>
  C36: Evidence round trip: what the sink of a worker accepts for submission decodes at the manager to the
  same bytes, passes the manager's own validation with the digest the worker sent, and the row of the
  stored artefact re-verifies against the object store.
\<close>
theorem evidence_round_trip:
  assumes "sink_evidence_body sha scan_id run content content_type token tool fp = Inr body"
    and "sha content \<noteq> []" and "bucket \<noteq> []" and "CHR ''/'' \<notin> set bucket"
  shows "b64decode (ei_content_b64 body) = Some content
    \<and> validate_evidence sha content (ei_content_type body) = Inr (sha content)
    \<and> ei_sha256 body = Some (sha content)
    \<and> (case local_submit_evidence sha uid bucket scan_id run content content_type objs of
         (Inr (uri, checksum), objs') \<Rightarrow>
           verify_evidence sha objs' [\<lparr>ed_id = eid, ed_tool_run_id = run, ed_evidence_type = ty,
             ed_storage_uri = uri, ed_checksum = checksum\<rparr>] eid = Some (Pass, Some (sha content))
       | _ \<Rightarrow> False)"
proof -
  from assms(1) have v: "validate_evidence sha content content_type = Inr (sha content)"
    by (auto simp: sink_evidence_body_def res_bind_Inr_iff validate_evidence_def split: if_splits)
  with assms(1) have b: "b64decode (ei_content_b64 body) = Some content" "ei_content_type body = content_type"
    "ei_sha256 body = Some (sha content)"
    by (auto simp: sink_evidence_body_def b64decode_encode)
  have "raw_output_key uid i \<noteq> []" "screenshot_key uid i h \<noteq> []" for i h
    by (simp_all add: raw_output_key_def screenshot_key_def)
  then have "case local_submit_evidence sha uid bucket scan_id run content content_type objs of
         (Inr (uri, checksum), objs') \<Rightarrow>
           verify_evidence sha objs' [\<lparr>ed_id = eid, ed_tool_run_id = run, ed_evidence_type = ty,
             ed_storage_uri = uri, ed_checksum = checksum\<rparr>] eid = Some (Pass, Some (sha content))
       | _ \<Rightarrow> False"
    using assms(2-4)
    by (simp add: local_submit_evidence_def v Let_def store_screenshot_def store_raw_output_def
        verify_evidence_def find_row_def parse_storage_uri_of split: option.split)
  with v b show ?thesis by simp
qed

definition ex_sha :: "string \<Rightarrow> string" where "ex_sha s = ''h'' @ s"
lemma small_text_valid:
  assumes "content \<noteq> []" and "length content \<le> 1000"
  shows "validate_evidence sha content ''text/plain'' = Inr (sha content)"
proof -
  have "base_type ''text/plain'' = ''text/plain''" by code_simp
  then show ?thesis
    using assms by (simp add: validate_evidence_def MAX_EVIDENCE_BYTES_def ALLOWED_EVIDENCE_TYPES_def)
qed

definition ex_uid :: "uuid \<Rightarrow> string" where "ex_uid n = replicate n CHR ''u''"

theorem evidence_round_trip_witness:
  "(case sink_evidence_body ex_sha 1 (Some 5) ''open: 443'' ''text/plain'' 77 (Some ''nmap'') None of
      Inl _ \<Rightarrow> False
    | Inr body \<Rightarrow>
        b64decode (ei_content_b64 body) = Some ''open: 443''
        \<and> validate_evidence ex_sha ''open: 443'' (ei_content_type body) = Inr (ex_sha ''open: 443'')
        \<and> ei_sha256 body = Some (ex_sha ''open: 443'')
        \<and> (case local_submit_evidence ex_sha ex_uid ''ev'' 1 (Some 5) ''open: 443'' ''text/plain'' (\<lambda>_. None) of
             (Inr (uri, checksum), objs') \<Rightarrow>
               verify_evidence ex_sha objs' [\<lparr>ed_id = 3, ed_tool_run_id = Some 5, ed_evidence_type = ''log_excerpt'',
                 ed_storage_uri = uri, ed_checksum = checksum\<rparr>] 3 = Some (Pass, Some (ex_sha ''open: 443''))
           | _ \<Rightarrow> False))"
proof -
  have v: "validate_evidence ex_sha ''open: 443'' ''text/plain'' = Inr (ex_sha ''open: 443'')"
    by (rule small_text_valid) simp_all
  then have "is_ok (sink_evidence_body ex_sha 1 (Some 5) ''open: 443'' ''text/plain'' 77 (Some ''nmap'') None)"
    by (simp add: sink_evidence_body_def)
  then obtain body where
    b: "sink_evidence_body ex_sha 1 (Some 5) ''open: 443'' ''text/plain'' 77 (Some ''nmap'') None = Inr body"
    by (auto simp: is_ok_iff)
  have "ex_sha ''open: 443'' \<noteq> []" "''ev'' \<noteq> []" "CHR ''/'' \<notin> set ''ev''" by (simp_all add: ex_sha_def)
  from evidence_round_trip [OF b this] show ?thesis unfolding b by simp
qed

text \<open>
  All textual evidence of one tool run shares one object key: when a second, different artefact of the
  run is stored, the row of the first fails its integrity check from then on, although nobody tampered
  with it.
\<close>
theorem second_output_breaks_integrity:
  assumes "local_submit_evidence sha uid bucket scan_id (Some run) first ty objs = (Inr (uri, checksum), objs1)"
    and "local_submit_evidence sha uid bucket scan_id' (Some run) second ty' objs1 = (Inr second_ref, objs2)"
    and "base_type ty \<noteq> ''image/png''" and "base_type ty' \<noteq> ''image/png''"
    and "sha first \<noteq> sha second" and "sha first \<noteq> []" and "bucket \<noteq> []" and "CHR ''/'' \<notin> set bucket"
  shows "verify_evidence sha objs2 [\<lparr>ed_id = eid, ed_tool_run_id = Some run, ed_evidence_type = kind,
      ed_storage_uri = uri, ed_checksum = checksum\<rparr>] eid = Some (IntegrityFailure, Some (sha second))"
proof -
  have "uri = storage_uri bucket (raw_output_key uid run)" "checksum = sha first"
    using assms(1,3,6) by (auto simp: local_submit_evidence_def store_raw_output_def Let_def split: sum.splits)
  moreover have "objs2 (bucket, raw_output_key uid run) = Some second"
    using assms(2,4) by (auto simp: local_submit_evidence_def store_raw_output_def Let_def split: sum.splits)
  moreover have "raw_output_key uid run \<noteq> []" by (simp add: raw_output_key_def)
  ultimately show ?thesis
    using assms(5-8) by (simp add: verify_evidence_def find_row_def parse_storage_uri_of)
qed

theorem second_output_breaks_integrity_witness:
  "(case local_submit_evidence ex_sha ex_uid ''ev'' 1 (Some 5) ''a'' ''text/plain'' (\<lambda>_. None) of
      (Inr (uri, checksum), objs1) \<Rightarrow>
        verify_evidence ex_sha (snd (local_submit_evidence ex_sha ex_uid ''ev'' 1 (Some 5) ''b'' ''text/plain'' objs1))
          [\<lparr>ed_id = 3, ed_tool_run_id = Some 5, ed_evidence_type = ''log_excerpt'', ed_storage_uri = uri,
             ed_checksum = checksum\<rparr>] 3 = Some (IntegrityFailure, Some (ex_sha ''b''))
    | _ \<Rightarrow> False)"
proof -
  let ?k = "(''ev'', raw_output_key ex_uid 5)"
  let ?u = "storage_uri ''ev'' (raw_output_key ex_uid 5)"
  have v: "validate_evidence ex_sha ''a'' ''text/plain'' = Inr (ex_sha ''a'')"
    "validate_evidence ex_sha ''b'' ''text/plain'' = Inr (ex_sha ''b'')"
    by (rule small_text_valid; simp)+
  have t: "base_type ''text/plain'' \<noteq> ''image/png''" by code_simp
  have one: "local_submit_evidence ex_sha ex_uid ''ev'' 1 (Some 5) ''a'' ''text/plain'' (\<lambda>_. None)
      = (Inr (?u, ex_sha ''a''), [?k \<mapsto> ''a''])"
    and two: "local_submit_evidence ex_sha ex_uid ''ev'' 1 (Some 5) ''b'' ''text/plain'' [?k \<mapsto> ''a'']
      = (Inr (?u, ex_sha ''b''), [?k \<mapsto> ''b''])"
    using t by (simp_all add: local_submit_evidence_def v store_raw_output_def Let_def ex_sha_def)
  have "ex_sha ''a'' \<noteq> ex_sha ''b''" "ex_sha ''a'' \<noteq> []" "''ev'' \<noteq> []" "CHR ''/'' \<notin> set ''ev''"
    by (simp_all add: ex_sha_def)
  from second_output_breaks_integrity [OF one two t t this] show ?thesis
    unfolding one by (simp only: two prod.case sum.case snd_conv)
qed

text \<open>
  The retry of a submission is bounded and never repeats a verdict: it makes one to three attempts,
  reports the outcome of the last, repeats only after a server error, a 429 or a transport error, and
  gives up early only on a success or on an outcome that cannot change.
\<close>
theorem submission_retry_bounded:
  "case sink_post net of (outcome, n) \<Rightarrow>
     1 \<le> n \<and> n \<le> 3 \<and> outcome = net n \<and> (\<forall>m \<in> {1..<n}. is_retryable (net m))
     \<and> (n = 3 \<or> \<not> is_retryable outcome)"
proof -
  have "\<not> is_retryable PostOk" by (simp add: is_retryable_def)
  moreover have "{1..<3} = {1, 2 :: nat}" by auto
  ultimately show ?thesis
    by (auto simp: sink_post_def POST_MAX_ATTEMPTS_def numeral_2_eq_2 numeral_3_eq_3 atLeastLessThanSuc
        split: post_outcome.split)
qed

theorem submission_retry_bounded_witness:
  "case sink_post (\<lambda>n. if n = 1 then HttpStatus 503 else HttpStatus 409) of (outcome, n) \<Rightarrow>
     1 \<le> n \<and> n \<le> 3 \<and> outcome = (if n = 1 then HttpStatus 503 else HttpStatus 409)
     \<and> (\<forall>m \<in> {1..<n}. is_retryable (if m = 1 then HttpStatus 503 else HttpStatus 409))
     \<and> (n = 3 \<or> \<not> is_retryable outcome)"
  by (rule submission_retry_bounded [of "\<lambda>n. if n = 1 then HttpStatus 503 else HttpStatus 409"])

end
