(* ===== verification/Manager_Properties.thy ===== *)
theory Manager_Properties
  imports Manager_Steps Scan_Properties Evidence_Properties
begin

text \<open>
  Properties of the scanner manager: what a lease grants and to how many, how its handlers refine the scan
  lifecycle, what results may change, what the emergency switch stops, and four behaviours that the code
  does not intend.
\<close>

section \<open>Example state\<close>

definition ex_conf :: "unit conf" where
  "ex_conf = \<lparr>mc_digest = (\<lambda>t. t), mc_sha = ex_sha, mc_uid = ex_uid, mc_repr = (\<lambda>_. []), mc_same_text = (=),
     mc_bucket = ''b'', mc_vpn_pools = [], mc_env_disabled = False, mc_parse = (\<lambda>_ _ _. None),
     mc_ingest = (\<lambda>_ _ _ _ _ v. (0, v)), mc_find_vuln = (\<lambda>_ _ _. None)\<rparr>"

definition ex_env :: req_env where
  "ex_env = \<lparr>rq_now = 5000000, rq_monotonic = 0, rq_probe = Some False, rq_audit_ok = True\<rparr>"

text \<open>A queued scan, a running one, and a scan of another workspace with a tool run.\<close>

definition ex_running :: scan where
  "ex_running = ex_scan\<lparr>sn_id := 2, sn_status := ''running'', sn_execution_token := Some 77\<rparr>"

definition ex_foreign :: scan where
  "ex_foreign = ex_running\<lparr>sn_id := 3, sn_workspace_id := 11, sn_execution_token := Some 78\<rparr>"

definition ex_done_run :: tool_run where
  "ex_done_run = ex_run\<lparr>tn_scan_id := 3, tn_status := ''completed'', tn_completed_at := Some 4\<rparr>"

definition ex_mgr :: "unit mgr" where
  "ex_mgr = \<lparr>mg_fleet = ex_fleet, mg_sites = [], mg_targets = [], mg_scans = [ex_scan, ex_running, ex_foreign],
     mg_runs = [ex_done_run], mg_evidence = [], mg_links = [], mg_assets = [], mg_objects = (\<lambda>_. None), mg_vulns = (),
     mg_next = 100, mg_flag = new_flag, mg_observed = None, mg_transitions = []\<rparr>"

definition ex_lease :: "(mgr_error + job list) \<times> unit mgr" where
  "ex_lease = lease_jobs ex_conf ex_env ex_worker 1 ex_mgr"

definition the_jobs :: "mgr_error + job list \<Rightarrow> job list" where
  "the_jobs r = (case r of Inr js \<Rightarrow> js | Inl _ \<Rightarrow> [])"

lemma the_jobs_eq: "is_ok (fst r) \<Longrightarrow> r = (Inr (the_jobs (fst r)), snd r)"
  by (cases r) (auto simp: the_jobs_def is_ok_iff)

lemmas ex_defs = ex_lease_def ex_mgr_def ex_conf_def ex_env_def

lemma ex_lease_ok: "lease_jobs ex_conf ex_env ex_worker 1 ex_mgr = (Inr (the_jobs (fst ex_lease)), snd ex_lease)"
proof -
  have "is_ok (fst ex_lease)" by code_simp
  from the_jobs_eq [OF this] show ?thesis by (simp add: ex_lease_def)
qed

lemma ex_lease_one: "map jb_scan_id (the_jobs (fst ex_lease)) = [1]"
  by code_simp

lemma ex_keys: "unique_key sn_id (mg_scans ex_mgr)" "unique_key tn_id (mg_runs ex_mgr)"
  "list_all run_ok (mg_runs ex_mgr)"
  by code_simp+

section \<open>Leases\<close>

text \<open>The job of a lease: held in the table, and granted from a row that the worker is bound to.\<close>

definition held :: "job \<Rightarrow> 'v mgr \<Rightarrow> bool" where
  "held j m = (\<exists>r \<in> set (mg_scans m). sn_id r = jb_scan_id j \<and> sn_status r = ''running''
                 \<and> sn_execution_token r = Some (jb_execution_token j))"

definition granted_from :: "'v conf \<Rightarrow> bool \<Rightarrow> worker \<Rightarrow> 'v mgr \<Rightarrow> job \<Rightarrow> scan \<Rightarrow> bool" where
  "granted_from conf disabled w m j s =
     (leasable s \<and> jb_scan_id j = sn_id s \<and> jb_workspace_id j = sn_workspace_id s
      \<and> site_of_scan s = Inr (jb_site_id j) \<and> bound_to w (sn_workspace_id s) (jb_site_id j)
      \<and> is_ok (assert_worker_egress_mode (mc_vpn_pools conf) w (required_scan_egress_mode s))
      \<and> (case jb_site_id j of
           None \<Rightarrow> jb_authorized_cidrs j = []
         | Some site \<Rightarrow> \<not> disabled \<and> (\<exists>p \<in> set (mg_sites m). ps_id p = site \<and> ps_status p = ''active''
             \<and> ps_workspace_id p = sn_workspace_id s \<and> jb_authorized_cidrs j = ps_authorized_cidrs p)))"

lemma lease_check_grants:
  assumes check: "lease_check conf disabled w s n = Inr (Some site)" and sites: "mg_sites n = mg_sites m"
    and s: "leasable s"
  shows "granted_from conf disabled w m (build_job_payload n' s site token) s"
proof (cases "site_of_scan s")
  case (Inl e)
  with check show ?thesis by (simp add: lease_check_def)
next
  case (Inr sid)
  note check = check [unfolded lease_check_def Inr res_bind_simps]
  have d: "\<not> (sid \<noteq> None \<and> disabled)" using check by (auto split: if_splits)
  note check = check [unfolded if_not_P [OF d]]
  obtain u where take: "assert_worker_may_take_scan (mc_vpn_pools conf) w (sn_workspace_id s) sid None
      (required_scan_egress_mode s) = Inr u"
    using check by (cases "assert_worker_may_take_scan (mc_vpn_pools conf) w (sn_workspace_id s) sid None
      (required_scan_egress_mode s)") simp_all
  note check = check [unfolded take sum.case]
  have bound: "bound_to w (sn_workspace_id s) sid" using take take_scan_bound by simp
  have egress: "is_ok (assert_worker_egress_mode (mc_vpn_pools conf) w (required_scan_egress_mode s))"
    using take by (auto simp: assert_worker_may_take_scan_def res_bind_Inr_iff is_ok_iff)
  show ?thesis
  proof (cases sid)
    case None
    with check have "site = None" by simp
    with None Inr bound egress s show ?thesis by (simp add: granted_from_def build_job_payload_def)
  next
    case (Some i)
    show ?thesis
    proof (cases "site_check n i (sn_workspace_id s)")
      case (Inl e)
      with check Some show ?thesis by simp
    next
      case (Inr p)
      note p = site_check_InrE [OF Inr]
      have "site = Some p" using check Some Inr by simp
      moreover have "p \<in> set (mg_sites m)" using p sites by simp
      ultimately show ?thesis
        using \<open>site_of_scan s = Inr sid\<close> bound egress s Some p d
        by (auto simp: granted_from_def build_job_payload_def)
    qed
  qed
qed

lemma updated_mem: "q \<in> set rows \<Longrightarrow> P q \<Longrightarrow> f q \<in> set (update_where P f rows)"
  by (force simp: update_where_def)

lemma claim_holds:
  assumes "claim_wins now s m"
  shows "held (build_job_payload (claimed now s m) s site (mg_next m)) (claimed now s m)"
proof -
  let ?P = "\<lambda>q. sn_id q = sn_id s \<and> List.member [''queued'', ''failed''] (sn_status q)"
  have "count_where ?P (mg_scans m) \<noteq> 0" using assms by (simp add: claim_wins_def claim_scan_def Let_def)
  then obtain q where "q \<in> set (mg_scans m)" "?P q" unfolding count_where_0 by blast
  then have "q\<lparr>sn_status := ''running'', sn_started_at := Some (sql_now now), sn_execution_token := Some (mg_next m)\<rparr>
      \<in> set (mg_scans (claimed now s m))" (is "?q \<in> _")
    using updated_mem [of q "mg_scans m" ?P] by (simp add: claimed_def claim_scan_def Let_def)
  moreover have "sn_id ?q = sn_id s" using \<open>?P q\<close> by simp
  ultimately show ?thesis by (auto simp: held_def build_job_payload_def intro!: bexI [of _ ?q])
qed

lemma held_claimed: "held j m \<Longrightarrow> held j (claimed now s m)"
  by (force simp: held_def claimed_def claim_scan_def Let_def set_update_where)

lemma candidates_sub: "set (lease_candidates w k scans) \<subseteq> {s \<in> set scans. leasable s}"
  by (auto simp: lease_candidates_def dest: in_set_takeD)

text \<open>The invariant of a lease's loop.\<close>

definition lease_inv :: "'v conf \<Rightarrow> bool \<Rightarrow> worker \<Rightarrow> 'v mgr \<Rightarrow> job list \<Rightarrow> 'v mgr \<Rightarrow> bool" where
  "lease_inv conf disabled w m jobs n =
     (mg_sites n = mg_sites m \<and> (\<forall>j \<in> set jobs. held j n \<and> (\<exists>s \<in> set (mg_scans m). granted_from conf disabled w m j s)))"

lemma lease_grants:
  assumes "lease_jobs conf env w k m = (Inr jobs, m')"
  shows "assert_worker_may_lease w = Inr () \<and> lease_inv conf (fst (emergency_check conf env m)) w m jobs m'"
  using assms
proof (cases rule: lease_jobs_cases)
  case (loop m1)
  let ?I = "lease_inv conf (fst (emergency_check conf env m)) w m"
  have "\<exists>js. ?I js m' \<and> (\<forall>js'. Inr jobs = (Inr js' :: mgr_error + job list) \<longrightarrow> js' = js)"
  proof (rule lease_rows_rule [where I = ?I and R = "{s \<in> set (mg_scans m). leasable s}", OF _ _ loop(5)])
    show "set (lease_candidates w k (mg_scans m)) \<subseteq> {s \<in> set (mg_scans m). leasable s}" by (rule candidates_sub)
    show "?I [] m1" by (simp add: lease_inv_def loop(4))
  next
    fix s site js n
    assume I: "?I js n" and s: "s \<in> {s \<in> set (mg_scans m). leasable s}"
      and check: "lease_check conf (fst (emergency_check conf env m)) w s n = Inr (Some site)"
    then show "?I js (claimed (rq_now env) s n)" by (simp add: lease_inv_def held_claimed)
    assume "claim_wins (rq_now env) s n"
    then show "?I (js @ [build_job_payload (claimed (rq_now env) s n) s site (mg_next n)]) (claimed (rq_now env) s n)"
      using I s lease_check_grants [OF check, of m] by (auto simp: lease_inv_def held_claimed claim_holds)
  qed
  then show ?thesis using loop(3) by auto
qed simp

text \<open>
  C7: Every job of a lease is a leasable scan of the worker's own binding: the worker may lease, serves the
  scan's site (none for a public scan) and no other workspace, and egresses in the mode the scan requires;
  a private scan has an active site of its own workspace whose networks the job carries, and the emergency
  switch is off. The scan is now running with the job's token.
\<close>
theorem lease_respects_binding:
  assumes "lease_jobs conf env w k m = (Inr jobs, m')" and "j \<in> set jobs"
  shows "assert_worker_may_lease w = Inr () \<and> held j m'
    \<and> (\<exists>s \<in> set (mg_scans m). granted_from conf (fst (emergency_check conf env m)) w m j s)"
  using lease_grants [OF assms(1)] assms(2) by (simp add: lease_inv_def)

theorem lease_respects_binding_witness:
  "assert_worker_may_lease ex_worker = Inr () \<and> held (hd (the_jobs (fst ex_lease))) (snd ex_lease)
    \<and> (\<exists>s \<in> set (mg_scans ex_mgr).
        granted_from ex_conf (fst (emergency_check ex_conf ex_env ex_mgr)) ex_worker ex_mgr (hd (the_jobs (fst ex_lease))) s)"
proof (rule lease_respects_binding [OF ex_lease_ok])
  show "hd (the_jobs (fst ex_lease)) \<in> set (the_jobs (fst ex_lease))"
    using ex_lease_one by (intro hd_in_set) auto
qed

text \<open>Claims keep the jobs of earlier leases apart from later ones.\<close>

definition apart :: "job list \<Rightarrow> 'v mgr \<Rightarrow> bool" where
  "apart jobs m = (unique_key sn_id (mg_scans m) \<and> distinct (map jb_scan_id jobs) \<and> (\<forall>j \<in> set jobs. held j m))"

lemma claimed_unique: "unique_key sn_id (mg_scans (claimed now s m)) = unique_key sn_id (mg_scans m)"
  by (simp add: claimed_def claim_scan_def Let_def unique_key_update_where)

lemma claim_new:
  assumes "claim_wins now s m" and "held j m" and u: "unique_key sn_id (mg_scans m)"
  shows "jb_scan_id j \<noteq> sn_id s"
proof
  assume id: "jb_scan_id j = sn_id s"
  from assms(2) obtain r where r: "r \<in> set (mg_scans m)" "sn_id r = jb_scan_id j" "sn_status r = ''running''"
    by (auto simp: held_def)
  let ?P = "\<lambda>q. sn_id q = sn_id s \<and> List.member [''queued'', ''failed''] (sn_status q)"
  have "count_where ?P (mg_scans m) \<noteq> 0" using assms(1) by (simp add: claim_wins_def claim_scan_def Let_def)
  then obtain q where q: "q \<in> set (mg_scans m)" "?P q" unfolding count_where_0 by blast
  then have "q = r" using unique_key_eq [OF u q(1) r(1)] r(2) id by simp
  with q(2) r(3) show False by simp
qed

lemma job_scan_id [simp]: "jb_scan_id (build_job_payload n s site token) = sn_id s"
  by (simp add: build_job_payload_def)

lemma lease_apart:
  assumes "lease_jobs conf env w k m = (Inr jobs, m')" and "apart base m"
  shows "apart (base @ jobs) m'"
  using assms(1)
proof (cases rule: lease_jobs_cases)
  case (loop m1)
  let ?I = "\<lambda>js n. apart (base @ js) n"
  have "\<exists>js. ?I js m' \<and> (\<forall>js'. Inr jobs = (Inr js' :: mgr_error + job list) \<longrightarrow> js' = js)"
  proof (rule lease_rows_rule [where I = ?I and R = UNIV, OF _ _ loop(5)])
    show "?I [] m1" using assms(2) by (simp add: apart_def held_def loop(4))
  next
    fix s site js n
    assume I: "?I js n"
    then show "?I js (claimed (rq_now env) s n)" by (simp add: apart_def held_claimed claimed_unique)
    assume win: "claim_wins (rq_now env) s n"
    have u: "unique_key sn_id (mg_scans n)" and h: "\<And>j. j \<in> set (base @ js) \<Longrightarrow> held j n"
      using I by (simp_all add: apart_def)
    have "sn_id s \<notin> jb_scan_id ` set (base @ js)"
      using claim_new [OF win h u] by (metis imageE)
    then show "?I (js @ [build_job_payload (claimed (rq_now env) s n) s site (mg_next n)]) (claimed (rq_now env) s n)"
      using I by (auto simp: apart_def held_claimed claimed_unique claim_holds [OF win] image_iff)
  qed simp
  then show ?thesis by auto
qed simp

text \<open>
  No scan is handed out twice: the jobs of one lease are distinct scans, and so are those of a second lease
  by any worker on the state that the first one left.
\<close>
theorem leases_are_exclusive:
  assumes "unique_key sn_id (mg_scans m)" and "lease_jobs conf env w k m = (Inr jobs, m1)"
    and "lease_jobs conf' env' w' k' m1 = (Inr jobs', m2)"
  shows "distinct (map jb_scan_id (jobs @ jobs'))"
proof -
  have "apart [] m" using assms(1) by (simp add: apart_def)
  from lease_apart [OF assms(3) lease_apart [OF assms(2) this]] show ?thesis by (simp add: apart_def)
qed

theorem leases_are_exclusive_witness:
  "distinct (map jb_scan_id (the_jobs (fst ex_lease)
     @ the_jobs (fst (lease_jobs ex_conf ex_env ex_silent 3 (snd ex_lease)))))"
proof -
  have "is_ok (fst (lease_jobs ex_conf ex_env ex_silent 3 (snd ex_lease)))" by code_simp
  from leases_are_exclusive [OF ex_keys(1) ex_lease_ok the_jobs_eq [OF this]] show ?thesis .
qed

section \<open>The handlers and the scan lifecycle\<close>






text \<open>
  C21: Over any run of the manager tool runs keep unique ids, a known status and times that are not inverted; a
  run that has a terminal status keeps that status and its scan for good.
\<close>
theorem tool_outcome_is_final:
  assumes "mgr_step\<^sup>*\<^sup>* m m'" and "unique_key tn_id (mg_runs m)" and "\<forall>r \<in> set (mg_runs m). run_ok r"
    and "r \<in> set (mg_runs m)" and "tn_status r \<in> set ALLOWED_TOOL_STATUSES"
  shows "unique_key tn_id (mg_runs m') \<and> (\<forall>r \<in> set (mg_runs m'). run_ok r)
    \<and> (\<exists>r' \<in> set (mg_runs m'). tn_id r' = tn_id r \<and> tn_status r' = tn_status r \<and> tn_scan_id r' = tn_scan_id r)"
proof -
  have k: "keyed_step\<^sup>*\<^sup>* m m'" and u: "unique_key tn_id (mg_runs m')"
    using keyed_run [OF assms(1,2)] by simp_all
  from runs.run_row [OF k assms(4)] obtain r' where r': "r' \<in> set (mg_runs m')" "run_next\<^sup>*\<^sup>* r r'" by blast
  then have "tn_id r' = tn_id r" "tn_status r' = tn_status r \<and> tn_scan_id r' = tn_scan_id r"
    using runs.path_key run_path_settled [OF r'(2) assms(5)] by auto
  with u r'(1) runs.run_ok [OF k assms(3)] show ?thesis by blast
qed

theorem tool_outcome_is_final_witness:
  "unique_key tn_id (mg_runs (snd ex_lease)) \<and> list_all run_ok (mg_runs (snd ex_lease))
    \<and> list_ex (\<lambda>r'. tn_id r' = tn_id ex_done_run \<and> tn_status r' = tn_status ex_done_run
         \<and> tn_scan_id r' = tn_scan_id ex_done_run) (mg_runs (snd ex_lease))"
  unfolding list_all_iff list_ex_iff
proof (rule tool_outcome_is_final [OF _ ex_keys(2)])
  show "mgr_step\<^sup>*\<^sup>* ex_mgr (snd ex_lease)" by (rule r_into_rtranclp, rule mgr_step.lease, rule ex_lease_ok)
  show "\<forall>r \<in> set (mg_runs ex_mgr). run_ok r" using ex_keys(3) by (simp add: list_all_iff)
  show "ex_done_run \<in> set (mg_runs ex_mgr)" by (simp add: ex_mgr_def)
  show "tn_status ex_done_run \<in> set ALLOWED_TOOL_STATUSES" by (simp add: ex_done_run_def ALLOWED_TOOL_STATUSES_def)
qed

section \<open>Fencing and the emergency switch\<close>

text \<open>What results and evidence are recorded in.\<close>

definition same_results :: "'v mgr \<Rightarrow> 'v mgr \<Rightarrow> bool" where
  "same_results m m' =
     (mg_scans m' = mg_scans m \<and> mg_runs m' = mg_runs m \<and> mg_evidence m' = mg_evidence m \<and> mg_objects m' = mg_objects m
      \<and> mg_assets m' = mg_assets m \<and> mg_vulns m' = mg_vulns m \<and> mg_links m' = mg_links m)"

lemma same_after_gate: "m' \<in> {m, snd (emergency_check conf env m)} \<Longrightarrow> same_results m m'"
  by (auto simp: same_results_def)

lemma gated:
  obtains (refused) e m1 where "authorize_scan_for_worker conf env w sid m = (Inl e, m1)" and "same_results m m1"
  | (passed) s m1 where "authorize_scan_for_worker conf env w sid m = (Inr s, m1)" and "same_results m m1"
      and "get_scan_row sid (mg_scans m) = Some s"
proof -
  obtain a m1 where auth: "authorize_scan_for_worker conf env w sid m = (a, m1)"
    by (cases "authorize_scan_for_worker conf env w sid m")
  moreover have "same_results m m1"
    using authorize_state [of conf env w sid m] auth by (intro same_after_gate) simp
  ultimately show thesis
    using refused passed by (cases a) (auto elim: authorize_InrE)
qed

lemma stale_token:
  "sn_execution_token s \<noteq> Some tok \<Longrightarrow> assert_execution_token s tok = Inl (HttpErr 409 ''EXECUTION_SUPERSEDED'')"
  by (simp add: assert_execution_token_def)

lemma stale_announcement:
  assumes "get_scan_row sid (mg_scans m) = Some s" and "sn_execution_token s \<noteq> Some tok"
  shows "\<not> is_ok (fst (submit_tool_started conf env w sid rid nm tok since m))
    \<and> same_results m (snd (submit_tool_started conf env w sid rid nm tok since m))"
  by (cases rule: gated [of conf env w sid m])
    (use assms stale_token in \<open>auto simp: submit_tool_started_def\<close>)

lemma stale_result:
  assumes "get_scan_row (ti_scan_id p) (mg_scans m) = Some s" and "sn_execution_token s \<noteq> Some (ti_execution_token p)"
  shows "\<not> is_ok (fst (submit_tool_result conf env w p m)) \<and> same_results m (snd (submit_tool_result conf env w p m))"
  by (cases rule: gated [of conf env w "ti_scan_id p" m])
    (use assms stale_token in \<open>auto simp: submit_tool_result_def\<close>)

lemma stale_evidence:
  assumes "get_scan_row (ei_scan_id q) (mg_scans m) = Some s" and "sn_execution_token s \<noteq> Some (ei_execution_token q)"
  shows "\<not> is_ok (fst (submit_evidence conf env w q m)) \<and> same_results m (snd (submit_evidence conf env w q m))"
proof -
  obtain r m' where sub: "submit_evidence conf env w q m = (r, m')" by (cases "submit_evidence conf env w q m")
  show ?thesis
  proof (rule submit_evidence_cases [OF sub])
    fix e assume "r = Inl e" and "m' \<in> {m, snd (emergency_check conf env m)}"
    then show ?thesis using same_after_gate sub by simp
  next
    fix scan m1 content
    assume "authorize_scan_for_worker conf env w (ei_scan_id q) m = (Inr scan, m1)"
      and "sn_execution_token scan = Some (ei_execution_token q)"
    then show ?thesis using assms by (auto elim: authorize_InrE)
  qed
qed

text \<open>
  C22: Fencing of results: an execution whose token is not the scan's current one (it was requeued, reaped,
  cancelled or finished) has every announcement, result and evidence refused, and none of them changes a
  scan, a tool run, an evidence row, a stored object, an asset, a finding or a link.
\<close>
theorem superseded_lease_writes_nothing:
  assumes "get_scan_row sid (mg_scans m) = Some s" and "sn_execution_token s \<noteq> Some tok"
    and "ti_scan_id p = sid" and "ti_execution_token p = tok" and "ei_scan_id q = sid" and "ei_execution_token q = tok"
  shows "(\<not> is_ok (fst (submit_tool_started conf env w sid rid nm tok since m))
      \<and> same_results m (snd (submit_tool_started conf env w sid rid nm tok since m)))
    \<and> (\<not> is_ok (fst (submit_tool_result conf env w p m)) \<and> same_results m (snd (submit_tool_result conf env w p m)))
    \<and> (\<not> is_ok (fst (submit_evidence conf env w q m)) \<and> same_results m (snd (submit_evidence conf env w q m)))"
  using stale_announcement [OF assms(1,2)] stale_result [of p m s] stale_evidence [of q m s] assms by simp

definition ex_result :: tool_result_in where
  "ex_result = \<lparr>ti_scan_id = 2, ti_tool_run_id = 9, ti_tool_name = ''nmap'', ti_execution_token = 76,
     ti_status = ''completed'', ti_findings = [], ti_exit_code = Some 0, ti_error_message = None, ti_started_at = None,
     ti_effective_command = None, ti_timed_out = None\<rparr>"

definition ex_evidence :: evidence_in where
  "ex_evidence = \<lparr>ei_scan_id = 2, ei_tool_run_id = Some 5, ei_content_type = ''text/plain'',
     ei_content_b64 = b64encode ''open: 443'', ei_sha256 = None, ei_execution_token = 76, ei_tool_name = None,
     ei_fingerprint = None\<rparr>"

theorem superseded_lease_writes_nothing_witness:
  "(\<not> is_ok (fst (submit_tool_started ex_conf ex_env ex_worker 2 9 ''nmap'' 76 None ex_mgr))
      \<and> same_results ex_mgr (snd (submit_tool_started ex_conf ex_env ex_worker 2 9 ''nmap'' 76 None ex_mgr)))
    \<and> (\<not> is_ok (fst (submit_tool_result ex_conf ex_env ex_worker ex_result ex_mgr))
      \<and> same_results ex_mgr (snd (submit_tool_result ex_conf ex_env ex_worker ex_result ex_mgr)))
    \<and> (\<not> is_ok (fst (submit_evidence ex_conf ex_env ex_worker ex_evidence ex_mgr))
      \<and> same_results ex_mgr (snd (submit_evidence ex_conf ex_env ex_worker ex_evidence ex_mgr)))"
proof (rule superseded_lease_writes_nothing)
  show "get_scan_row 2 (mg_scans ex_mgr) = Some ex_running"
    using ex_keys(1) by (simp add: get_scan_row_iff) (simp add: ex_mgr_def ex_running_def)
  show "sn_execution_token ex_running \<noteq> Some 76" by (simp add: ex_running_def)
qed (simp_all add: ex_result_def ex_evidence_def)

text \<open>
  While the emergency switch is on, a request for a scan passes the gate exactly when the scan is public and
  the worker may take it: work on private sites stops at once, public work does not notice.
\<close>
theorem emergency_stops_private_work_only:
  assumes row: "get_scan_row sid (mg_scans m) = Some s" and on: "fst (emergency_check conf env m)"
  shows "is_ok (fst (authorize_scan_for_worker conf env w sid m)) \<longleftrightarrow>
     site_of_scan s = Inr None
     \<and> is_ok (assert_worker_may_take_scan (mc_vpn_pools conf) w (sn_workspace_id s) None None None)"
proof (cases rule: authorize_cases [of conf env w sid m])
  case (refused e m1)
  have "\<not> is_ok (assert_worker_may_take_scan (mc_vpn_pools conf) w (sn_workspace_id s) None None None)"
    if site: "site_of_scan s = Inr None"
  proof
    assume "is_ok (assert_worker_may_take_scan (mc_vpn_pools conf) w (sn_workspace_id s) None None None)"
    with refused(1) row site show False by (auto simp: authorize_scan_for_worker_def is_ok_iff)
  qed
  with refused(1) show ?thesis by auto
next
  case (public scan)
  with row show ?thesis by simp
next
  case (on_site scan s p)
  with on show ?thesis by simp
qed

definition ex_alarm :: "unit conf" where "ex_alarm = ex_conf\<lparr>mc_env_disabled := True\<rparr>"

theorem emergency_stops_private_work_only_witness:
  "is_ok (fst (authorize_scan_for_worker ex_alarm ex_env ex_worker 2 ex_mgr)) \<longleftrightarrow>
     site_of_scan ex_running = Inr None
     \<and> is_ok (assert_worker_may_take_scan (mc_vpn_pools ex_alarm) ex_worker (sn_workspace_id ex_running) None None None)"
proof (rule emergency_stops_private_work_only)
  show "get_scan_row 2 (mg_scans ex_mgr) = Some ex_running"
    using ex_keys(1) by (simp add: get_scan_row_iff) (simp add: ex_mgr_def ex_running_def)
  show "fst (emergency_check ex_alarm ex_env ex_mgr)"
    by (simp add: emergency_check_def private_scanning_emergency_disabled_def ex_alarm_def)
qed

section \<open>Metrics\<close>

text \<open>The gauge of eligible workers counts exactly the workers that the lease boundary admits.\<close>
theorem eligible_gauge_is_lease_authority:
  "metric_eligible w \<longleftrightarrow> is_ok (assert_worker_may_lease w)"
  by (auto simp: metric_eligible_def assert_worker_may_lease_iff LEASE_ELIGIBLE_STATUSES_def)

section \<open>Behaviours that the code does not intend\<close>

lemma loop_skips:
  assumes "\<forall>s \<in> set rows. lease_check conf disabled w s m = Inr None"
  shows "lease_rows conf now disabled w k rows leased m = (Inr leased, m)"
  using assms by (induction rows arbitrary: leased) simp_all

lemma wrong_site_skipped:
  assumes "site_of_scan s = Inr site" and "site \<noteq> wk_site_id w"
  shows "lease_check conf disabled w s m = Inr None"
proof -
  have "\<not> is_ok (assert_worker_may_take_scan (mc_vpn_pools conf) w (sn_workspace_id s) site None (required_scan_egress_mode s))"
    using assms(2) by (auto simp: assert_worker_may_take_scan_def is_ok_res_bind ok_unit serve_site_iff)
  then obtain e where "assert_worker_may_take_scan (mc_vpn_pools conf) w (sn_workspace_id s) site None
      (required_scan_egress_mode s) = Inl e"
    by (cases "assert_worker_may_take_scan (mc_vpn_pools conf) w (sn_workspace_id s) site None
      (required_scan_egress_mode s)") auto
  then show ?thesis using assms(1) by (simp add: lease_check_def)
qed

text \<open>
  A private worker's lease looks at the first rows of its workspace only, whatever their site: behind enough
  leasable scans of other sites (of a site whose worker is down, or public ones), the worker's own site's
  scans are never seen, and the lease changes no scan, so that the next poll finds the same.
\<close>
theorem other_sites_starve_a_private_worker:
  assumes "wk_site_id w = Some site" and "is_ok (assert_worker_may_lease w)" and "1 \<le> k" and "k \<le> 10"
    and "mg_scans m = front @ behind" and "k \<le> length front"
    and "\<forall>s \<in> set front. leasable s \<and> Some (sn_workspace_id s) = wk_workspace_id w
           \<and> (\<exists>other. site_of_scan s = Inr other \<and> other \<noteq> Some site)"
  shows "fst (lease_jobs conf env w k m) = Inr [] \<and> mg_scans (snd (lease_jobs conf env w k m)) = mg_scans m"
proof -
  have "filter (\<lambda>s. leasable s \<and> Some (sn_workspace_id s) = wk_workspace_id w) front = front"
    using assms(7) by simp
  then have c: "lease_candidates w k (mg_scans m) = take k front"
    using assms(1,5,6) by (simp add: lease_candidates_def)
  let ?m1 = "snd (emergency_check conf env m)"
  have "\<forall>s \<in> set (take k front). lease_check conf (fst (emergency_check conf env m)) w s ?m1 = Inr None"
    using assms(1,7) wrong_site_skipped by (metis in_set_takeD)
  from loop_skips [OF this]
  have "lease_rows conf (rq_now env) (fst (emergency_check conf env m)) w k (take k front) [] ?m1 = (Inr [], ?m1)" .
  moreover have "assert_worker_may_lease w = Inr ()" using assms(2) by (simp add: ok_unit)
  ultimately show ?thesis
    using assms(3,4) c by (simp add: lease_jobs_def case_prod_beta)
qed

definition ex_onsite :: worker where
  "ex_onsite = ex_worker\<lparr>wk_site_id := Some 30, wk_workspace_id := Some 10\<rparr>"

theorem other_sites_starve_a_private_worker_witness:
  "fst (lease_jobs ex_conf ex_env ex_onsite 1 ex_mgr) = Inr []
    \<and> mg_scans (snd (lease_jobs ex_conf ex_env ex_onsite 1 ex_mgr)) = mg_scans ex_mgr"
proof (rule other_sites_starve_a_private_worker [of _ 30 _ _ "[ex_scan]" "[ex_running, ex_foreign]"])
  show "is_ok (assert_worker_may_lease ex_onsite)" by code_simp
  show "\<forall>s \<in> set [ex_scan]. leasable s \<and> Some (sn_workspace_id s) = wk_workspace_id ex_onsite
      \<and> (\<exists>other. site_of_scan s = Inr other \<and> other \<noteq> Some 30)"
    by (simp add: leasable_def ex_scan_def ex_onsite_def site_of_scan_def Let_def dict_get_def json_truthy_def)
qed (simp_all add: ex_onsite_def ex_mgr_def)

text \<open>An execution that fails for its own reasons: the claim, and the terminal write of its owner.\<close>

fun failing_executions :: "uuid \<Rightarrow> (time \<times> uuid) list \<Rightarrow> scan list \<Rightarrow> bool list \<times> scan list" where
  "failing_executions sid [] scans = ([], scans)"
| "failing_executions sid ((now, tok) # es) scans =
     (let (won, scans1) = claim_scan now sid tok scans;
          (_, scans2) = finalize_status now sid ''failed'' tok scans1;
          (wons, scans3) = failing_executions sid es scans2
      in (won # wons, scans3))"

lemma one_failing_execution:
  assumes u: "unique_key sn_id scans" and row: "get_scan_row sid scans = Some s" and f: "sn_status s = ''failed''"
  shows "fst (claim_scan now sid tok scans)"
    and "\<exists>s'. get_scan_row sid (snd (finalize_status now sid ''failed'' tok (snd (claim_scan now sid tok scans)))) = Some s'
           \<and> sn_status s' = ''failed'' \<and> sn_config s' = sn_config s"
    and "unique_key sn_id (snd (finalize_status now sid ''failed'' tok (snd (claim_scan now sid tok scans))))"
proof -
  show "fst (claim_scan now sid tok scans)"
    using keyed_update(1) [OF u, of sid "\<lambda>s. List.member [''queued'', ''failed''] (sn_status s)"] row f
    by (simp add: claim_scan_def Let_def get_scan_row_def)
  have id: "sn_id s = sid" using row u by (simp add: get_scan_row_iff)
  show "\<exists>s'. get_scan_row sid (snd (finalize_status now sid ''failed'' tok (snd (claim_scan now sid tok scans)))) = Some s'
           \<and> sn_status s' = ''failed'' \<and> sn_config s' = sn_config s"
    using row f id
    by (simp add: claim_scan_def finalize_status_def Let_def get_scan_row_def find_row_update_where_key)
  show "unique_key sn_id (snd (finalize_status now sid ''failed'' tok (snd (claim_scan now sid tok scans))))"
    using u by (simp add: claim_scan_def finalize_status_def Let_def unique_key_update_where)
qed

text \<open>
  A scan that the reaper recovered once stays leasable after any number of later executions that fail for
  their own reasons, each of which claims it again: the key that marks the recovery is never removed. The
  comment of the lease excludes exactly this unbounded loop.
\<close>
theorem recovered_scan_retried_without_bound:
  assumes "unique_key sn_id scans" and "get_scan_row sid scans = Some s" and "sn_status s = ''failed''"
    and "dict_get ''recovery'' (sn_config s) \<noteq> None"
  shows "list_all id (fst (failing_executions sid es scans))
    \<and> map_option leasable (get_scan_row sid (snd (failing_executions sid es scans))) = Some True"
  using assms
proof (induction es arbitrary: scans s)
  case Nil
  then show ?case by (simp add: leasable_def)
next
  case (Cons e es)
  obtain now tok where e: "e = (now, tok)" by (cases e)
  let ?next = "snd (finalize_status now sid ''failed'' tok (snd (claim_scan now sid tok scans)))"
  note one = one_failing_execution [OF Cons.prems(1-3), of now tok]
  from one(2) obtain s' where s': "get_scan_row sid ?next = Some s'" "sn_status s' = ''failed''"
    "sn_config s' = sn_config s" by blast
  have "dict_get ''recovery'' (sn_config s') \<noteq> None" using Cons.prems(4) s'(3) by simp
  from Cons.IH [OF one(3) s'(1,2) this] show ?case
    using one(1) by (simp add: e Let_def case_prod_beta)
qed

definition ex_recovered :: scan where
  "ex_recovered = ex_scan\<lparr>sn_status := ''failed'', sn_config := [(''recovery'', JObj [])]\<rparr>"

theorem recovered_scan_retried_without_bound_witness:
  "list_all id (fst (failing_executions 1 [(10, 5), (20, 6)] [ex_recovered]))
    \<and> map_option leasable (get_scan_row 1 (snd (failing_executions 1 [(10, 5), (20, 6)] [ex_recovered]))) = Some True"
proof (rule recovered_scan_retried_without_bound)
  show "unique_key sn_id [ex_recovered]" by (simp add: unique_key_def)
  show "get_scan_row 1 [ex_recovered] = Some ex_recovered"
    by (simp add: get_scan_row_def find_row_def ex_recovered_def ex_scan_def)
qed (simp_all add: ex_recovered_def dict_get_def)

text \<open>
  Evidence crosses tenants: the gate authorizes the worker for the scan it names, but nothing compares the
  tool run it names with that scan. So evidence submitted for one scan overwrites the stored output of a
  run of any other scan, of any workspace, and is recorded as evidence of that run.
\<close>
theorem evidence_crosses_tenants:
  assumes auth: "authorize_scan_for_worker conf env w (ei_scan_id p) m = (Inr scan, m1)"
    and tok: "sn_execution_token scan = Some (ei_execution_token p)"
    and dec: "b64decode (ei_content_b64 p) = Some content"
    and valid: "validate_evidence (mc_sha conf) content (ei_content_type p) = Inr digest"
    and claim: "ei_sha256 p = None" and plain: "base_type (ei_content_type p) \<noteq> ''image/png''"
    and run: "ei_tool_run_id p = Some rid" "get_run rid (mg_runs m) = Some r" and other: "tn_scan_id r \<noteq> sn_id scan"
  shows "is_ok (fst (submit_evidence conf env w p m))
    \<and> mg_objects (snd (submit_evidence conf env w p m)) (mc_bucket conf, raw_output_key (mc_uid conf) rid) = Some content
    \<and> (\<exists>e \<in> set (mg_evidence (snd (submit_evidence conf env w p m))). ed_tool_run_id e = Some rid)"
proof -
  obtain res m' where sub: "submit_evidence conf env w p m = (res, m')" by (cases "submit_evidence conf env w p m")
  have f: "mg_runs m1 = mg_runs m" using authorize_fields [OF auth] by simp
  have filing: "file_evidence conf scan p content m1 = (res, m')"
    using sub by (simp add: submit_evidence_def auth dec valid claim assert_execution_token_def tok)
  let ?key = "(mc_bucket conf, raw_output_key (mc_uid conf) rid)"
  have stored: "\<exists>uri checksum. local_submit_evidence (mc_sha conf) (mc_uid conf) (mc_bucket conf) (sn_id scan) (ei_tool_run_id p)
       content (ei_content_type p) (mg_objects m1) = (Inr (uri, checksum), (mg_objects m1)(?key \<mapsto> content))"
    by (simp add: local_submit_evidence_def valid plain run(1) store_raw_output_def Let_def)
  have "is_ok res \<and> mg_objects m' ?key = Some content \<and> (\<exists>e \<in> set (mg_evidence m'). ed_tool_run_id e = Some rid)"
    using filing
  proof (cases rule: file_evidence_cases)
    case (rejected e)
    then show ?thesis using filing stored by (auto simp: file_evidence_def Let_def split: option.splits if_splits bool.splits prod.splits)
  next
    case (dangling objs)
    then show ?thesis using filing stored run f
      by (auto simp: file_evidence_def Let_def split: option.splits if_splits bool.splits prod.splits)
  next
    case (filed uri checksum objs eid m2 m3)
    have o: "objs = (mg_objects m1)(?key \<mapsto> content)" using filed(1) stored by auto
    have m2: "mg_objects m2 = objs" "\<exists>e \<in> set (mg_evidence m2). ed_tool_run_id e = Some rid"
      using filed(2) run(1) by (auto simp: keep_evidence_row_def evidence_row_for_def dest!: find_row_Some split: option.splits)
    have m3: "mg_objects m3 = objs" "mg_evidence m3 = mg_evidence m2" using filed(3) m2(1) by auto
    have "mg_objects m' = objs \<and> mg_evidence m' = mg_evidence m2" using filed(4) m3 by auto
    with filed(5) m2 o show ?thesis by simp
  qed
  then show ?thesis unfolding sub by simp
qed

theorem evidence_crosses_tenants_witness:
  "is_ok (fst (submit_evidence ex_conf ex_env ex_worker (ex_evidence\<lparr>ei_execution_token := 77\<rparr>) ex_mgr))
    \<and> mg_objects (snd (submit_evidence ex_conf ex_env ex_worker (ex_evidence\<lparr>ei_execution_token := 77\<rparr>) ex_mgr))
        (mc_bucket ex_conf, raw_output_key (mc_uid ex_conf) 5) = Some ''open: 443''
    \<and> (\<exists>e \<in> set (mg_evidence (snd (submit_evidence ex_conf ex_env ex_worker (ex_evidence\<lparr>ei_execution_token := 77\<rparr>) ex_mgr))).
        ed_tool_run_id e = Some 5)"
proof (rule evidence_crosses_tenants [of _ _ _ _ _ ex_running ex_mgr _ _ _ ex_done_run])
  have row: "get_scan_row 2 (mg_scans ex_mgr) = Some ex_running"
    using ex_keys(1) by (simp add: get_scan_row_iff) (simp add: ex_mgr_def ex_running_def)
  have take: "assert_worker_may_take_scan (mc_vpn_pools ex_conf) ex_worker (sn_workspace_id ex_running) None None None = Inr ()"
    by code_simp
  have site: "site_of_scan ex_running = Inr None"
    by (simp add: site_of_scan_def ex_running_def ex_scan_def dict_get_def json_truthy_def)
  show "authorize_scan_for_worker ex_conf ex_env ex_worker (ei_scan_id (ex_evidence\<lparr>ei_execution_token := 77\<rparr>)) ex_mgr
      = (Inr ex_running, ex_mgr)"
    by (simp add: authorize_scan_for_worker_def row site take ex_evidence_def)
  show "get_run 5 (mg_runs ex_mgr) = Some ex_done_run"
    by (simp add: get_run_def find_row_def ex_mgr_def ex_done_run_def ex_run_def)
  show "validate_evidence (mc_sha ex_conf) ''open: 443'' (ei_content_type (ex_evidence\<lparr>ei_execution_token := 77\<rparr>))
      = Inr (ex_sha ''open: 443'')"
    using small_text_valid [of "''open: 443''" ex_sha] by (simp add: ex_conf_def ex_evidence_def)
  have "base_type ''text/plain'' \<noteq> ''image/png''" by code_simp
  then show "base_type (ei_content_type (ex_evidence\<lparr>ei_execution_token := 77\<rparr>)) \<noteq> ''image/png''"
    by (simp add: ex_evidence_def)
  show "tn_scan_id ex_done_run \<noteq> sn_id ex_running" by (simp add: ex_done_run_def ex_running_def)
  show "b64decode (ei_content_b64 (ex_evidence\<lparr>ei_execution_token := 77\<rparr>)) = Some ''open: 443''"
    by (simp only: ex_evidence_def evidence_in.simps b64decode_encode)
qed (simp_all add: ex_evidence_def ex_running_def)

end
