(* ===== verification/Tunnel_Health.thy ===== *)
theory Tunnel_Health
  imports Net_Guard
begin

text \<open>
  The two tunnels of a worker: the split tunnel into a private site (\<open>scanner_engine/wireguard.py\<close>)
  and the full tunnel to the platform's exit address (\<open>scanner_engine/vpn_egress.py\<close>), how the private one
  is observed, and the health checks that a scan must pass. A network stands for its printed form, so a
  route is a network or the word \<open>default\<close>. Commands run by the probe are a parameter; its first argument
  is the number of commands run before.
\<close>

section \<open>Integers and lines of command output\<close>

text \<open>\<open>int(s)\<close> on text without surrounding space: an optional sign and digits, groups joined by underscores.\<close>

definition unsigned_int :: "string \<Rightarrow> int option" where
  "unsigned_int s =
     (let groups = split_char (CHR ''_'') s in
      if list_all all_digits groups \<and> length (concat groups) \<le> 4300 then Some (dec_value (concat groups)) else None)"

definition py_int :: "string \<Rightarrow> int option" where
  "py_int s =
     (case s of
        [] \<Rightarrow> None
      | c # rest \<Rightarrow>
          if c = CHR ''-'' then map_option uminus (unsigned_int rest)
          else if c = CHR ''+'' then unsigned_int rest else unsigned_int s)"

text \<open>\<open>str.splitlines\<close> on ASCII; a carriage return takes a following line feed with it.\<close>

definition is_line_break :: "char \<Rightarrow> bool" where
  "is_line_break c = (let n = (of_char c :: nat) in (10 \<le> n \<and> n \<le> 13) \<or> (28 \<le> n \<and> n \<le> 30))"

fun splitlines_from :: "string \<Rightarrow> string \<Rightarrow> string list" where
  "splitlines_from acc [] = (if acc = [] then [] else [rev acc])"
| "splitlines_from acc [c] = (if is_line_break c then [rev acc] else [rev (c # acc)])"
| "splitlines_from acc (c # d # s) =
     (if is_line_break c
      then rev acc # (if c = CHR 0x0D \<and> d = CHR 0x0A then splitlines_from [] s else splitlines_from [] (d # s))
      else splitlines_from (c # acc) (d # s))"

definition py_splitlines :: "string \<Rightarrow> string list" where
  "py_splitlines s = splitlines_from [] s"

section \<open>The split tunnel: allowed addresses\<close>

datatype tunnel_route = RouteDefault | RouteNet ip_net

fun prefixlen :: "ip_net \<Rightarrow> nat" where
  "prefixlen (Net4 a p) = p"
| "prefixlen (Net6 a s p) = p"

datatype wg_error = DefaultRouteRefused | InvalidCidr | NothingAuthorized | NoPrivateKey

definition DEFAULT_ROUTES :: "string list" where "DEFAULT_ROUTES = [''0.0.0.0/0'', ''::/0'']"

text \<open>One entry: skipped, refused, or a network. A printed route is read back as its network.\<close>

definition allowed_net :: "ip_net \<Rightarrow> wg_error + ip_net option" where
  "allowed_net net = (if prefixlen net = 0 then Inl DefaultRouteRefused else Inr (Some net))"

definition allowed_entry :: "string \<Rightarrow> wg_error + ip_net option" where
  "allowed_entry raw =
     (let entry = py_strip raw in
      if entry = [] then Inr None
      else if List.member DEFAULT_ROUTES entry then Inl DefaultRouteRefused
      else (case parse_net entry of None \<Rightarrow> Inl InvalidCidr | Some net \<Rightarrow> allowed_net net))"

fun route_entry :: "tunnel_route \<Rightarrow> wg_error + ip_net option" where
  "route_entry RouteDefault = Inl InvalidCidr"
| "route_entry (RouteNet net) = allowed_net net"

fun collect_allowed :: "ip_net list \<Rightarrow> (wg_error + ip_net option) list \<Rightarrow> wg_error + ip_net list" where
  "collect_allowed out [] = (if out = [] then Inl NothingAuthorized else Inr out)"
| "collect_allowed out (Inl e # rest) = Inl e"
| "collect_allowed out (Inr None # rest) = collect_allowed out rest"
| "collect_allowed out (Inr (Some net) # rest) =
     collect_allowed (if List.member out net then out else out @ [net]) rest"

definition build_allowed_ips :: "string list \<Rightarrow> wg_error + ip_net list" where
  "build_allowed_ips cidrs = collect_allowed [] (map allowed_entry cidrs)"

record tunnel_config =
  tc_site_id :: string
  tc_interface_address :: "string option"
  tc_allowed_ips :: "ip_net list"
  tc_peer_public_key :: "string option"
  tc_endpoint :: "(string \<times> int) option"
  tc_dns_servers :: "string list"
  tc_persistent_keepalive :: "int option"

definition has_default_route :: "tunnel_config \<Rightarrow> bool" where
  "has_default_route config = list_ex (\<lambda>net. prefixlen net = 0) (tc_allowed_ips config)"

definition describe_config ::
  "string \<Rightarrow> string list \<Rightarrow> string option \<Rightarrow> string option \<Rightarrow> int option \<Rightarrow> string list \<Rightarrow> string option
   \<Rightarrow> int option \<Rightarrow> wg_error + tunnel_config" where
  "describe_config site_id cidrs peer host port dns address keepalive =
     res_bind (build_allowed_ips cidrs) (\<lambda>allowed.
       Inr \<lparr>tc_site_id = site_id, tc_interface_address = address, tc_allowed_ips = allowed,
            tc_peer_public_key = peer,
            tc_endpoint = (case (host, port) of
                (Some h, Some p) \<Rightarrow> if h \<noteq> [] \<and> p \<noteq> 0 then Some (h, p) else None
              | _ \<Rightarrow> None),
            tc_dns_servers = dns, tc_persistent_keepalive = keepalive\<rparr>)"

text \<open>The lines of the rendered file, values unprinted.\<close>

datatype wg_line =
    InterfaceSection | PrivateKey string | Address string | FwMark int | TableOff | Blank | PeerSection
  | PublicKey "string option" | AllowedIPs "ip_net list" | Endpoint "string \<times> int" | PersistentKeepalive int

definition text_line :: "(string \<Rightarrow> wg_line) \<Rightarrow> string option \<Rightarrow> wg_line list" where
  "text_line mk v = (if truthy v then [mk (or_empty v)] else [])"

definition keepalive_line :: "int option \<Rightarrow> wg_line list" where
  "keepalive_line v = (case v of None \<Rightarrow> [] | Some n \<Rightarrow> if n = 0 then [] else [PersistentKeepalive n])"

definition endpoint_line :: "(string \<times> int) option \<Rightarrow> wg_line list" where
  "endpoint_line v = (case v of None \<Rightarrow> [] | Some e \<Rightarrow> [Endpoint e])"

definition render_worker_config :: "tunnel_config \<Rightarrow> string \<Rightarrow> wg_error + wg_line list" where
  "render_worker_config config key =
     (if key = [] then Inl NoPrivateKey
      else if has_default_route config then Inl DefaultRouteRefused
      else Inr ([InterfaceSection, PrivateKey key] @ text_line Address (tc_interface_address config)
             @ [TableOff, Blank, PeerSection] @ text_line (\<lambda>k. PublicKey (Some k)) (tc_peer_public_key config)
             @ [AllowedIPs (tc_allowed_ips config)] @ endpoint_line (tc_endpoint config)
             @ keepalive_line (tc_persistent_keepalive config)))"

section \<open>Observing the split tunnel\<close>

record tunnel_status =
  ts_interface_up :: bool
  ts_handshake_age :: "int option"
  ts_routes :: "tunnel_route list"
  ts_dns_ok :: bool
  ts_peer_reachable :: bool
  ts_detail :: "string option"
  ts_mtu :: "int option"

definition down_status :: "string option \<Rightarrow> tunnel_status" where
  "down_status detail =
     \<lparr>ts_interface_up = False, ts_handshake_age = None, ts_routes = [], ts_dns_ok = True,
      ts_peer_reachable = True, ts_detail = detail, ts_mtu = None\<rparr>"

text \<open>A command's exit code and output: 127 or 1 with no output when it cannot be run or times out.\<close>

type_synonym command_runner = "nat \<Rightarrow> string list \<Rightarrow> int \<times> string"

definition output_of :: "int \<times> string \<Rightarrow> string option" where
  "output_of r = (if fst r \<noteq> 0 \<or> py_strip (snd r) = [] then None else Some (snd r))"

text \<open>\<open>out.split(":", 2)[-1]\<close>.\<close>

definition after_two_colons :: "string \<Rightarrow> string" where
  "after_two_colons s =
     (case partition_char (CHR '':'') s of
        (a, None) \<Rightarrow> a
      | (a, Some b) \<Rightarrow> (case partition_char (CHR '':'') b of (c, None) \<Rightarrow> c | (c, Some d) \<Rightarrow> d))"

definition interface_up :: "int \<times> string \<Rightarrow> bool" where
  "interface_up r = (case output_of r of None \<Rightarrow> False | Some out \<Rightarrow> py_contains ''UP'' (after_two_colons out))"

fun newest_handshake :: "int \<Rightarrow> string list \<Rightarrow> int" where
  "newest_handshake newest [] = newest"
| "newest_handshake newest (line # rest) =
     (let parts = split_ws line in
      if length parts < 2 then newest_handshake newest rest
      else (case py_int (last parts) of
              None \<Rightarrow> newest_handshake newest rest
            | Some ts \<Rightarrow> newest_handshake (if newest < ts then ts else newest) rest))"

definition handshake_age :: "int \<Rightarrow> int \<times> string \<Rightarrow> int option" where
  "handshake_age now_s r =
     (case output_of r of
        None \<Rightarrow> None
      | Some out \<Rightarrow>
          (let newest = newest_handshake 0 (py_splitlines (py_strip out)) in
           if newest \<le> 0 then None else Some (max 0 (now_s - newest))))"

fun routes_of_lines :: "string list \<Rightarrow> tunnel_route list" where
  "routes_of_lines [] = []"
| "routes_of_lines (line # rest) =
     (case split_ws line of
        [] \<Rightarrow> routes_of_lines rest
      | dest # _ \<Rightarrow>
          if dest = ''default'' then RouteDefault # routes_of_lines rest
          else (case parse_net dest of
                  None \<Rightarrow> routes_of_lines rest
                | Some net \<Rightarrow> RouteNet net # routes_of_lines rest))"

definition routes_of :: "int \<times> string \<Rightarrow> tunnel_route list" where
  "routes_of r = (case output_of r of None \<Rightarrow> [] | Some out \<Rightarrow> routes_of_lines (py_splitlines (py_strip out)))"

fun mtu_of_tokens :: "string list \<Rightarrow> int option" where
  "mtu_of_tokens (t # v # rest) = (if t = ''mtu'' then py_int v else mtu_of_tokens (v # rest))"
| "mtu_of_tokens _ = None"

definition mtu_of :: "int \<times> string \<Rightarrow> int option" where
  "mtu_of r = (case output_of r of None \<Rightarrow> None | Some out \<Rightarrow> mtu_of_tokens (split_ws out))"

definition system_probe_status :: "string \<Rightarrow> command_runner \<Rightarrow> int \<Rightarrow> tunnel_status" where
  "system_probe_status iface run now_s =
     (let link = [''ip'', ''-o'', ''link'', ''show'', iface] in
      if \<not> interface_up (run 0 link) then down_status (Some (''interface '' @ iface @ '' is absent or down''))
      else \<lparr>ts_interface_up = True,
            ts_handshake_age = handshake_age now_s (run 1 [''wg'', ''show'', iface, ''latest-handshakes'']),
            ts_routes = routes_of (run 2 [''ip'', ''-o'', ''route'', ''show'', ''dev'', iface]),
            ts_dns_ok = True, ts_peer_reachable = True, ts_detail = None,
            ts_mtu = mtu_of (run 3 link)\<rparr>)"

section \<open>Health of the split tunnel\<close>

definition DEFAULT_MAX_HANDSHAKE_AGE_S :: int where "DEFAULT_MAX_HANDSHAKE_AGE_S = 180"

datatype tunnel_refusal =
    TUNNEL_UNHEALTHY | NO_HANDSHAKE | HANDSHAKE_STALE | PEER_UNREACHABLE | ROUTE_MISSING | DNS_UNAVAILABLE
  | ConfigError wg_error        \<comment> \<open>\<open>WireGuardConfigError\<close>\<close>

text \<open>The check after the list of allowed addresses is built from the authorized CIDRs.\<close>

definition routes_present :: "tunnel_status \<Rightarrow> bool \<Rightarrow> wg_error + ip_net list \<Rightarrow> tunnel_refusal + unit" where
  "routes_present status require_dns allowed =
     (case allowed of
        Inl e \<Rightarrow> Inl (ConfigError e)
      | Inr nets \<Rightarrow>
          if \<not> list_all (\<lambda>net. List.member (ts_routes status) (RouteNet net)) nets then Inl ROUTE_MISSING
          else if require_dns \<and> \<not> ts_dns_ok status then Inl DNS_UNAVAILABLE
          else Inr ())"

definition assert_tunnel_healthy ::
  "tunnel_status \<Rightarrow> wg_error + ip_net list \<Rightarrow> int \<Rightarrow> bool \<Rightarrow> tunnel_refusal + unit" where
  "assert_tunnel_healthy status allowed max_age require_dns =
     (if \<not> ts_interface_up status then Inl TUNNEL_UNHEALTHY
      else (case ts_handshake_age status of
              None \<Rightarrow> Inl NO_HANDSHAKE
            | Some age \<Rightarrow>
                if max_age < age then Inl HANDSHAKE_STALE
                else if \<not> ts_peer_reachable status then Inl PEER_UNREACHABLE
                else routes_present status require_dns allowed))"

definition tunnel_preflight :: "tunnel_status \<Rightarrow> string list \<Rightarrow> tunnel_refusal + tunnel_status" where
  "tunnel_preflight status cidrs =
     res_bind (assert_tunnel_healthy status (build_allowed_ips cidrs) DEFAULT_MAX_HANDSHAKE_AGE_S True)
       (\<lambda>_. Inr status)"

section \<open>The egress tunnel\<close>

definition DEFAULT_EGRESS_INTERFACE :: string where "DEFAULT_EGRESS_INTERFACE = ''wg-egress''"
definition DEFAULT_MAX_EXIT_IP_AGE_S :: int where "DEFAULT_MAX_EXIT_IP_AGE_S = 120"

datatype egress_config_error = EmptyAddress | NonPublicAddress | NoPeerKey | NoEndpoint | NoInterfaceAddress | NoEgressKey

definition assert_not_platform_address :: "string \<Rightarrow> egress_config_error + unit" where
  "assert_not_platform_address value =
     (let host = py_strip value in
      if host = [] then Inl EmptyAddress
      else (case parse_ip host of
              None \<Rightarrow> Inr ()
            | Some ip \<Rightarrow>
                if is_loopback_addr ip \<or> is_link_local_addr ip \<or> is_private_addr ip \<or> is_reserved_addr ip
                   \<or> is_multicast_addr ip
                then Inl NonPublicAddress else Inr ()))"

text \<open>The allowed addresses are always the full tunnel, \<open>0.0.0.0/0\<close>.\<close>

record egress_config =
  ec_interface :: string
  ec_interface_address :: "string option"
  ec_peer_public_key :: "string option"
  ec_endpoint :: "(string \<times> int) option"
  ec_table :: int
  ec_fwmark :: int
  ec_mtu :: "int option"
  ec_persistent_keepalive :: "int option"
  ec_dns_servers :: "string list"
  ec_expected_exit_ip :: "string option"

definition nonzero :: "int option \<Rightarrow> int option" where
  "nonzero n = (if n = Some 0 then None else n)"

definition FULL_TUNNEL_ALLOWED_IPS :: "ip_net list" where "FULL_TUNNEL_ALLOWED_IPS = [Net4 0 0]"

definition describe_egress_config ::
  "string \<Rightarrow> string option \<Rightarrow> string option \<Rightarrow> string option \<Rightarrow> int option \<Rightarrow> int \<Rightarrow> int \<Rightarrow> int option \<Rightarrow> int option
   \<Rightarrow> string list \<Rightarrow> string option \<Rightarrow> egress_config_error + egress_config" where
  "describe_egress_config iface address peer host port table mark mtu keepalive dns expected =
     (if \<not> truthy peer then Inl NoPeerKey
      else if \<not> truthy host \<or> nonzero port = None then Inl NoEndpoint
      else res_bind (assert_not_platform_address (or_empty host)) (\<lambda>_.
        if \<not> truthy address then Inl NoInterfaceAddress
        else res_bind (if truthy expected then assert_not_platform_address (or_empty expected) else Inr ()) (\<lambda>_.
          Inr \<lparr>ec_interface = py_strip (if iface = [] then DEFAULT_EGRESS_INTERFACE else iface),
               ec_interface_address = address, ec_peer_public_key = peer,
               ec_endpoint = Some (or_empty host, the (nonzero port)), ec_table = table, ec_fwmark = mark,
               ec_mtu = nonzero mtu, ec_persistent_keepalive = nonzero keepalive,
               ec_dns_servers = filter (\<lambda>d. d \<noteq> []) (map py_strip dns),
               ec_expected_exit_ip = (if truthy expected then expected else None)\<rparr>)))"

definition render_egress_config :: "egress_config \<Rightarrow> string \<Rightarrow> egress_config_error + wg_line list" where
  "render_egress_config config key =
     (if key = [] then Inl NoEgressKey
      else Inr ([InterfaceSection, PrivateKey key] @ text_line Address (ec_interface_address config)
             @ [FwMark (ec_fwmark config), TableOff, Blank, PeerSection, PublicKey (ec_peer_public_key config),
                AllowedIPs FULL_TUNNEL_ALLOWED_IPS] @ endpoint_line (ec_endpoint config)
             @ keepalive_line (ec_persistent_keepalive config)))"

record egress_status =
  es_interface_up :: bool
  es_handshake_age :: "int option"
  es_default_route_in_table :: bool
  es_policy_rule_present :: bool
  es_main_table_untouched :: bool
  es_observed_exit_ip :: "string option"
  es_exit_ip_age :: "int option"
  es_killswitch_active :: bool
  es_mtu :: "int option"
  es_detail :: "string option"

datatype egress_refusal =
    VPN_EGRESS_DOWN | VPN_EGRESS_NO_HANDSHAKE | VPN_EGRESS_HANDSHAKE_STALE | VPN_EGRESS_ROUTE_MISSING
  | VPN_EGRESS_RULE_MISSING | VPN_EGRESS_LEAK | VPN_EGRESS_KILLSWITCH_MISSING | VPN_EGRESS_EXIT_IP_UNKNOWN
  | VPN_EGRESS_EXIT_IP_STALE | VPN_EGRESS_EXIT_IP_MISMATCH

definition older_than :: "int \<Rightarrow> int option \<Rightarrow> bool" where
  "older_than limit age = (case age of None \<Rightarrow> False | Some a \<Rightarrow> limit < a)"

text \<open>The checks of the path, and those of the address that the traffic leaves from.\<close>

definition assert_exit_ip :: "egress_status \<Rightarrow> string option \<Rightarrow> string list \<Rightarrow> int \<Rightarrow> egress_refusal + unit" where
  "assert_exit_ip status expected forbidden max_exit_age =
     (if \<not> truthy (es_observed_exit_ip status) then Inl VPN_EGRESS_EXIT_IP_UNKNOWN
      else if older_than max_exit_age (es_exit_ip_age status) then Inl VPN_EGRESS_EXIT_IP_STALE
      else (let observed = py_strip (or_empty (es_observed_exit_ip status)) in
            if truthy expected \<and> observed \<noteq> py_strip (or_empty expected) then Inl VPN_EGRESS_EXIT_IP_MISMATCH
            else if List.member (map py_strip forbidden) observed then Inl VPN_EGRESS_EXIT_IP_MISMATCH
            else Inr ()))"

definition assert_egress_healthy ::
  "egress_status \<Rightarrow> string option \<Rightarrow> string list \<Rightarrow> int \<Rightarrow> int \<Rightarrow> bool \<Rightarrow> egress_refusal + unit" where
  "assert_egress_healthy status expected forbidden max_age max_exit_age require_killswitch =
     (if \<not> es_interface_up status then Inl VPN_EGRESS_DOWN
      else if es_handshake_age status = None then Inl VPN_EGRESS_NO_HANDSHAKE
      else if older_than max_age (es_handshake_age status) then Inl VPN_EGRESS_HANDSHAKE_STALE
      else if \<not> es_default_route_in_table status then Inl VPN_EGRESS_ROUTE_MISSING
      else if \<not> es_policy_rule_present status then Inl VPN_EGRESS_RULE_MISSING
      else if \<not> es_main_table_untouched status then Inl VPN_EGRESS_LEAK
      else if require_killswitch \<and> \<not> es_killswitch_active status then Inl VPN_EGRESS_KILLSWITCH_MISSING
      else assert_exit_ip status expected forbidden max_exit_age)"

definition egress_preflight ::
  "egress_status \<Rightarrow> string option \<Rightarrow> string list \<Rightarrow> int \<Rightarrow> egress_refusal + egress_status" where
  "egress_preflight status expected forbidden max_age =
     res_bind (assert_egress_healthy status expected forbidden max_age DEFAULT_MAX_EXIT_IP_AGE_S True)
       (\<lambda>_. Inr status)"

section \<open>Lemmas\<close>

lemma collect_allowed_Inr:
  "collect_allowed out es = Inr nets \<Longrightarrow>
     list_all is_ok es \<and> nets \<noteq> [] \<and> set nets = set out \<union> {n. Inr (Some n) \<in> set es}
     \<and> (distinct out \<longrightarrow> distinct nets)"
  by (induction out es rule: collect_allowed.induct) (auto split: if_splits)

lemma allowed_net_InrD: "allowed_net net = Inr r \<Longrightarrow> r = Some net \<and> prefixlen net \<noteq> 0"
  by (simp add: allowed_net_def split: if_splits)

lemma allowed_entry_Some:
  "allowed_entry raw = Inr (Some net) \<Longrightarrow> parse_net (py_strip raw) = Some net \<and> prefixlen net \<noteq> 0"
  by (auto simp: allowed_entry_def Let_def split: if_splits option.splits dest: allowed_net_InrD)

lemma allowed_entry_ok:
  "is_ok (allowed_entry raw) \<longleftrightarrow>
     py_strip raw = [] \<or> (\<exists>net. allowed_entry raw = Inr (Some net))"
  by (auto simp: allowed_entry_def allowed_net_def Let_def split: if_splits option.splits)

lemma build_allowed_ips_Inr:
  assumes "build_allowed_ips cidrs = Inr nets"
  shows "nets \<noteq> []" and "distinct nets" and "\<forall>n \<in> set nets. prefixlen n \<noteq> 0 \<and> wf_net n"
    and "set nets = {n. \<exists>c \<in> set cidrs. parse_net (py_strip c) = Some n}"
proof -
  from collect_allowed_Inr [OF assms [unfolded build_allowed_ips_def]]
  have c: "list_all is_ok (map allowed_entry cidrs)" "nets \<noteq> []" "distinct nets"
    and s: "set nets = {n. Inr (Some n) \<in> set (map allowed_entry cidrs)}" by auto
  show "nets \<noteq> []" "distinct nets" using c by auto
  have m: "n \<in> set nets \<longleftrightarrow> (\<exists>c \<in> set cidrs. allowed_entry c = Inr (Some n))" for n
    unfolding s by (auto simp: image_iff) metis
  show "\<forall>n \<in> set nets. prefixlen n \<noteq> 0 \<and> wf_net n"
    using m allowed_entry_Some wf_parse_net by blast
  have nil: "parse_net [] = None" by code_simp
  have "\<exists>c \<in> set cidrs. allowed_entry c = Inr (Some n)" if "c \<in> set cidrs" "parse_net (py_strip c) = Some n" for c n
  proof -
    from c(1) that(1) have "is_ok (allowed_entry c)" by (auto simp: list_all_iff)
    moreover from that nil have "py_strip c \<noteq> []" by auto
    ultimately obtain net where "allowed_entry c = Inr (Some net)" by (auto simp: allowed_entry_ok)
    with allowed_entry_Some that show ?thesis by fastforce
  qed
  then show "set nets = {n. \<exists>c \<in> set cidrs. parse_net (py_strip c) = Some n}"
    using m allowed_entry_Some by blast
qed

lemma assert_tunnel_healthy_iff:
  "assert_tunnel_healthy status allowed max_age require_dns = Inr () \<longleftrightarrow>
     ts_interface_up status \<and> (\<exists>age. ts_handshake_age status = Some age \<and> age \<le> max_age)
     \<and> ts_peer_reachable status \<and> (require_dns \<longrightarrow> ts_dns_ok status)
     \<and> (\<exists>nets. allowed = Inr nets \<and> (\<forall>n \<in> set nets. RouteNet n \<in> set (ts_routes status)))"
  by (auto simp: assert_tunnel_healthy_def routes_present_def list_all_iff
      split: option.splits sum.splits if_splits)

lemma assert_egress_healthy_iff:
  "assert_egress_healthy status expected forbidden max_age max_exit_age require_killswitch = Inr () \<longleftrightarrow>
     es_interface_up status \<and> (\<exists>age. es_handshake_age status = Some age \<and> age \<le> max_age)
     \<and> es_default_route_in_table status \<and> es_policy_rule_present status \<and> es_main_table_untouched status
     \<and> (require_killswitch \<longrightarrow> es_killswitch_active status)
     \<and> assert_exit_ip status expected forbidden max_exit_age = Inr ()"
  by (auto simp: assert_egress_healthy_def older_than_def split: option.splits)

end
