(* ===== verification/Leased_Job.thy ===== *)
theory Leased_Job
  imports Tunnel_Health Scanner_Manager
begin

text \<open>
  What a worker does with a leased job before it runs anything (\<open>scanner_worker/lease_loop.py\<close>): its
  identity, the manager's answers as it sees them, the checks of the job against the identity, the policy of
  the scan, and the health gates of the two tunnels. A job arrives as JSON with text or absent fields; the
  parser of UUID text is a parameter. A probe gives an observation or raises; a worker may have none.
\<close>

section \<open>Identity\<close>

record worker_identity =
  wi_worker_id :: string
  wi_pool_id :: string
  wi_site_id :: "string option"
  wi_manager_url :: string
  wi_token :: string
  wi_egress_mode :: string

record worker_settings =
  ws_worker_id :: "string option"
  ws_pool_id :: "string option"
  ws_site_id :: "string option"
  ws_manager_url :: "string option"
  ws_worker_token :: "string option"
  ws_egress_mode :: "string option"

definition identity_from_settings :: "worker_settings \<Rightarrow> worker_identity" where
  "identity_from_settings s =
     \<lparr>wi_worker_id = py_strip (or_empty (ws_worker_id s)),
      wi_pool_id = py_strip (or_empty (ws_pool_id s)),
      wi_site_id = (let site = py_strip (or_empty (ws_site_id s)) in if site = [] then None else Some site),
      wi_manager_url = py_strip (or_empty (ws_manager_url s)),
      wi_token = py_strip (or_empty (ws_worker_token s)),
      wi_egress_mode = py_lower (py_strip (if truthy (ws_egress_mode s) then or_empty (ws_egress_mode s) else ''direct''))\<rparr>"

definition is_private_worker :: "worker_identity \<Rightarrow> bool" where
  "is_private_worker identity = truthy (wi_site_id identity)"

definition own_egress_mode :: "worker_identity \<Rightarrow> string" where
  "own_egress_mode identity =
     py_lower (py_strip (if wi_egress_mode identity = [] then ''direct'' else wi_egress_mode identity))"

definition is_vpn_egress :: "worker_identity \<Rightarrow> bool" where
  "is_vpn_egress identity = (own_egress_mode identity = ''vpn'')"

section \<open>The manager's answers\<close>

datatype lease_reason =
    WORKER_UNAUTHORIZED | POOL_MISMATCH | SITE_MISMATCH | EXECUTION_TOKEN_INVALID | CIDR_NOT_AUTHORIZED
  | JOB_MISSING_TARGET | EGRESS_MODE_MISMATCH | VPN_EGRESS_UNHEALTHY | VPN_EGRESS_LOST_MIDSCAN
  | TunnelReason tunnel_refusal | EgressReason egress_refusal
  | WORKER_AUTH_FAILED | MANAGER_REQUEST_REJECTED | NO_EXECUTOR

text \<open>An exception: a \<open>LeaseError\<close>, an HTTP status that was raised, or anything else.\<close>

datatype worker_exc = LeaseErr lease_reason | HttpExc nat | OtherExc string

text \<open>\<open>ManagerClient._request\<close> on a response with a status code.\<close>

definition request_outcome :: "nat \<Rightarrow> 'a \<Rightarrow> worker_exc + 'a" where
  "request_outcome code body =
     (if List.member [401, 403] code then Inl (LeaseErr WORKER_AUTH_FAILED)
      else if 400 \<le> code \<and> code < 500 then Inl (LeaseErr MANAGER_REQUEST_REJECTED)
      else if \<not> (200 \<le> code \<and> code < 300) then Inl (HttpExc code)
      else Inr body)"

section \<open>The job on the wire\<close>

record wire_job =
  wj_scan_id :: "string option"
  wj_workspace_id :: "string option"
  wj_execution_token :: "string option"
  wj_network_zone :: "string option"
  wj_site_id :: "string option"
  wj_worker_id :: "string option"
  wj_pool_id :: "string option"
  wj_target :: "(string option \<times> string option) option"
  wj_requested_modules :: "string list"
  wj_config :: dict
  wj_authorized_cidrs :: "string list"
  wj_dns_servers :: "string list"
  wj_required_egress_mode :: "string option"

text \<open>The manager's job as the worker reads it; no field \<open>worker_id\<close> is sent.\<close>

definition wire_of_job :: "(uuid \<Rightarrow> string) \<Rightarrow> job \<Rightarrow> wire_job" where
  "wire_of_job uid j =
     \<lparr>wj_scan_id = Some (uid (jb_scan_id j)), wj_workspace_id = Some (uid (jb_workspace_id j)),
      wj_execution_token = Some (uid (jb_execution_token j)), wj_network_zone = Some (jb_network_zone j),
      wj_site_id = map_option uid (jb_site_id j), wj_worker_id = None, wj_pool_id = jb_pool_id j,
      wj_target = map_option (\<lambda>t. (Some (fst t), Some (snd t))) (jb_target j),
      wj_requested_modules = jb_requested_modules j, wj_config = jb_config j,
      wj_authorized_cidrs = jb_authorized_cidrs j, wj_dns_servers = jb_dns_servers j,
      wj_required_egress_mode = jb_required_egress_mode j\<rparr>"

section \<open>Validation\<close>

definition map_job_refusal :: "job_refusal \<Rightarrow> lease_reason" where
  "map_job_refusal r =
     (case r of JOB_WRONG_SITE \<Rightarrow> SITE_MISMATCH | JOB_WRONG_POOL \<Rightarrow> POOL_MISMATCH | _ \<Rightarrow> WORKER_UNAUTHORIZED)"

definition validate_fence :: "(string \<Rightarrow> uuid option) \<Rightarrow> wire_job \<Rightarrow> lease_reason + unit" where
  "validate_fence parse_uuid job =
     (if \<not> truthy (wj_scan_id job) then Inl JOB_MISSING_TARGET
      else if \<not> truthy (wj_execution_token job) then Inl EXECUTION_TOKEN_INVALID
      else if parse_uuid (or_empty (wj_execution_token job)) = None then Inl EXECUTION_TOKEN_INVALID
      else Inr ())"

definition validate_binding :: "wire_job \<Rightarrow> worker_identity \<Rightarrow> lease_reason + unit" where
  "validate_binding job identity =
     (case assert_job_matches_worker (Some (zone_of (wj_network_zone job))) (wj_site_id job) (wi_site_id identity)
             (Some (wi_pool_id identity)) (wj_pool_id job) of
        Inl r \<Rightarrow> Inl (map_job_refusal r)
      | Inr _ \<Rightarrow>
          if zone_of (wj_network_zone job) = ''private'' \<and> wj_authorized_cidrs job = []
          then Inl CIDR_NOT_AUTHORIZED else Inr ())"

definition validate_egress :: "wire_job \<Rightarrow> worker_identity \<Rightarrow> lease_reason + unit" where
  "validate_egress job identity =
     (let required = py_lower (py_strip (or_empty (wj_required_egress_mode job))) in
      if required \<noteq> [] \<and> required \<noteq> own_egress_mode identity then Inl EGRESS_MODE_MISMATCH else Inr ())"

definition target_value_of :: "wire_job \<Rightarrow> string" where
  "target_value_of job = (case wj_target job of None \<Rightarrow> [] | Some t \<Rightarrow> or_empty (snd t))"

definition target_type_of :: "wire_job \<Rightarrow> string" where
  "target_type_of job = (case wj_target job of None \<Rightarrow> [] | Some t \<Rightarrow> or_empty (fst t))"

definition validate_leased_job ::
  "(string \<Rightarrow> uuid option) \<Rightarrow> wire_job \<Rightarrow> worker_identity \<Rightarrow> lease_reason + unit" where
  "validate_leased_job parse_uuid job identity =
     res_bind (validate_fence parse_uuid job) (\<lambda>_.
     res_bind (validate_binding job identity) (\<lambda>_.
     res_bind (validate_egress job identity) (\<lambda>_.
       if target_value_of job = [] then Inl JOB_MISSING_TARGET else Inr ())))"

section \<open>The policy of the scan\<close>

text \<open>\<open>None\<close> for the \<open>ValueError\<close> or \<open>KeyError\<close> of a malformed or absent identifier.\<close>

definition optional_uuid :: "(string \<Rightarrow> uuid option) \<Rightarrow> string option \<Rightarrow> uuid option option" where
  "optional_uuid parse_uuid s =
     (if truthy s then map_option Some (parse_uuid (or_empty s)) else Some None)"

definition build_policy_for_job :: "(string \<Rightarrow> uuid option) \<Rightarrow> wire_job \<Rightarrow> net_policy option" where
  "build_policy_for_job parse_uuid job =
     Option.bind (optional_uuid parse_uuid (wj_workspace_id job)) (\<lambda>ws.
     Option.bind (optional_uuid parse_uuid (wj_scan_id job)) (\<lambda>scan.
       if zone_of (wj_network_zone job) \<noteq> ''private'' then Some (build_public_policy ws scan)
       else Option.bind (Option.bind (wj_site_id job) parse_uuid) (\<lambda>site.
         Some \<lparr>np_workspace_id = ws, np_scan_id = scan, np_network_zone = ''private'', np_site_id = Some site,
               np_worker_id = wj_worker_id job, np_pool_id = wj_pool_id job,
               np_authorized_cidrs = parse_cidrs (wj_authorized_cidrs job),
               np_dns_servers = filter (\<lambda>d. d \<noteq> []) (map py_strip (wj_dns_servers job))\<rparr>)))"

section \<open>The health gates\<close>

datatype gate_error = Refused lease_reason | Escaped string   \<comment> \<open>a \<open>LeaseError\<close>, or any other exception\<close>

definition gate :: "lease_reason + unit \<Rightarrow> gate_error + unit" where
  "gate r = (case r of Inl e \<Rightarrow> Inl (Refused e) | Inr _ \<Rightarrow> Inr ())"

definition preflight_private_job :: "wire_job \<Rightarrow> (string + tunnel_status) option \<Rightarrow> gate_error + unit" where
  "preflight_private_job job probe =
     (if zone_of (wj_network_zone job) \<noteq> ''private'' then Inr ()
      else (case probe of
              None \<Rightarrow> Inl (Refused (TunnelReason TUNNEL_UNHEALTHY))
            | Some (Inl e) \<Rightarrow> Inl (Escaped e)
            | Some (Inr status) \<Rightarrow>
                (case tunnel_preflight status (wj_authorized_cidrs job) of
                   Inl (ConfigError _) \<Rightarrow> Inl (Refused CIDR_NOT_AUTHORIZED)
                 | Inl r \<Rightarrow> Inl (Refused (TunnelReason r))
                 | Inr _ \<Rightarrow> Inr ())))"

record egress_settings =
  eg_expected_exit_ip :: "string option"
  eg_forbidden_exit_ips :: "string list"
  eg_max_handshake_age_s :: int

definition egress_verdict :: "egress_settings \<Rightarrow> egress_status \<Rightarrow> egress_refusal + egress_status" where
  "egress_verdict eg status =
     egress_preflight status (if truthy (eg_expected_exit_ip eg) then eg_expected_exit_ip eg else None)
       (eg_forbidden_exit_ips eg) (eg_max_handshake_age_s eg)"

definition preflight_egress_job ::
  "egress_settings \<Rightarrow> worker_identity \<Rightarrow> (string + egress_status) option \<Rightarrow> gate_error + unit" where
  "preflight_egress_job eg identity probe =
     (if \<not> is_vpn_egress identity then Inr ()
      else (case probe of
              None \<Rightarrow> Inl (Refused VPN_EGRESS_UNHEALTHY)
            | Some (Inl e) \<Rightarrow> Inl (Escaped e)
            | Some (Inr status) \<Rightarrow>
                (case egress_verdict eg status of
                   Inl r \<Rightarrow> Inl (Refused (EgressReason r))
                 | Inr _ \<Rightarrow> Inr ())))"

text \<open>The watchdog's check during a scan: whatever goes wrong is the loss of the egress path.\<close>

definition egress_watch :: "egress_settings \<Rightarrow> string + egress_status \<Rightarrow> worker_exc option" where
  "egress_watch eg observed =
     (case observed of
        Inl _ \<Rightarrow> Some (LeaseErr VPN_EGRESS_LOST_MIDSCAN)
      | Inr status \<Rightarrow>
          (case egress_verdict eg status of Inl _ \<Rightarrow> Some (LeaseErr VPN_EGRESS_LOST_MIDSCAN) | Inr _ \<Rightarrow> None))"

section \<open>Health reporting\<close>

definition max_handshake_age_s :: "int option \<Rightarrow> int" where
  "max_handshake_age_s setting =
     (case setting of None \<Rightarrow> DEFAULT_MAX_HANDSHAKE_AGE_S | Some n \<Rightarrow> if n = 0 then DEFAULT_MAX_HANDSHAKE_AGE_S else n)"

datatype health_detail = TunnelDetail tunnel_refusal | ProbeFailed string

text \<open>State, age of the last handshake, and detail, as the heartbeat carries them.\<close>

definition observe_tunnel_health ::
  "worker_identity \<Rightarrow> int option \<Rightarrow> (string + tunnel_status) option \<Rightarrow> string \<times> int option \<times> health_detail option" where
  "observe_tunnel_health identity setting probe =
     (if \<not> is_private_worker identity then (''healthy'', None, None)
      else (case probe of
        None \<Rightarrow> (''healthy'', None, None)
      | Some (Inl e) \<Rightarrow> (''unhealthy'', None, Some (ProbeFailed e))
      | Some (Inr status) \<Rightarrow>
          (let age = ts_handshake_age status in
           if ts_routes status = []
           then (''unhealthy'', age, Some (TunnelDetail (if \<not> ts_interface_up status then TUNNEL_UNHEALTHY
                   else if age = None then NO_HANDSHAKE else ROUTE_MISSING)))
           else (case assert_tunnel_healthy status (collect_allowed [] (map route_entry (ts_routes status)))
                        (max_handshake_age_s setting) True of
                   Inl r \<Rightarrow> (''unhealthy'', age, Some (TunnelDetail r))
                 | Inr _ \<Rightarrow> (''healthy'', age, None)))))"

section \<open>Lemmas\<close>

lemma gate_Inr [simp]: "gate r = Inr () \<longleftrightarrow> r = Inr ()"
  by (cases r) (simp_all add: gate_def)

lemma validate_leased_job_iff:
  "validate_leased_job parse_uuid job identity = Inr () \<longleftrightarrow>
     truthy (wj_scan_id job) \<and> truthy (wj_execution_token job)
     \<and> parse_uuid (or_empty (wj_execution_token job)) \<noteq> None
     \<and> assert_job_matches_worker (Some (zone_of (wj_network_zone job))) (wj_site_id job) (wi_site_id identity)
         (Some (wi_pool_id identity)) (wj_pool_id job) = Inr ()
     \<and> (zone_of (wj_network_zone job) = ''private'' \<longrightarrow> wj_authorized_cidrs job \<noteq> [])
     \<and> (let required = py_lower (py_strip (or_empty (wj_required_egress_mode job))) in
        required = [] \<or> required = own_egress_mode identity)
     \<and> target_value_of job \<noteq> []"
  by (auto simp: validate_leased_job_def validate_fence_def validate_binding_def validate_egress_def
      res_bind_Inr_iff Let_def split: sum.splits)

lemma zone_of_zone_of [simp]: "zone_of (Some (zone_of z)) = zone_of z"
  by (cases z) (auto simp: zone_of_def)

lemma preflight_private_job_iff:
  "preflight_private_job job probe = Inr () \<longleftrightarrow>
     zone_of (wj_network_zone job) \<noteq> ''private''
     \<or> (\<exists>status. probe = Some (Inr status)
          \<and> assert_tunnel_healthy status (build_allowed_ips (wj_authorized_cidrs job)) DEFAULT_MAX_HANDSHAKE_AGE_S True = Inr ())"
  by (auto simp: preflight_private_job_def tunnel_preflight_def res_bind_def
      split: option.splits sum.splits tunnel_refusal.splits)

lemma preflight_egress_job_iff:
  "preflight_egress_job eg identity probe = Inr () \<longleftrightarrow>
     \<not> is_vpn_egress identity
     \<or> (\<exists>status. probe = Some (Inr status) \<and> egress_verdict eg status = Inr status)"
  by (auto simp: preflight_egress_job_def egress_verdict_def egress_preflight_def res_bind_def
      split: option.splits sum.splits)

end
