(* ===== verification/Tool_Executor.thy ===== *)
theory Tool_Executor
  imports Leased_Job Scope_Guard
begin

text \<open>
  The execution of a leased job (\<open>scanner_worker/executor.py\<close>): the pipeline of tools, the cooperative stop
  between tools, the narrowing of what a tool is given to the authorized scope, and the submission of results,
  in which an outage costs a result and a refusal by the control plane ends the pipeline at the next tool.

  The manager, the tools and their parsers are parameters, called in the state of the world, which each call
  may change. A finding is what the scope guard reads of it. \<open>ex_log\<close> records what was done; the code
  does not read it.
\<close>

section \<open>The pipeline's surroundings\<close>

record raw_output =
  ro_command :: string
  ro_stdout :: string
  ro_stderr :: string
  ro_exit_code :: int
  ro_timed_out :: bool

text \<open>What is sent to the manager, under the job's scan and execution token.\<close>

datatype submission =
    ToolStarted uuid string time
  | ToolResult uuid string string "scope_finding list" "int option" "string option" time "string option" bool
      \<comment> \<open>run, tool, status, findings, exit code, error, start, command, timed out\<close>
  | EvidenceOf uuid string string "string option" "string option"
      \<comment> \<open>run, content, type, tool, fingerprint\<close>

record ('w, 'v) exec_env =
  xe_reporting :: bool
  xe_submit :: "submission \<Rightarrow> 'w \<Rightarrow> worker_exc option \<times> 'w"
  xe_probe :: "('w \<Rightarrow> (worker_exc + string option) \<times> 'w) option"
  xe_run :: "tool \<Rightarrow> string \<Rightarrow> dict \<Rightarrow> scope_finding list \<Rightarrow> 'w \<Rightarrow> (string + raw_output) \<times> 'w"
  xe_parse :: "tool \<Rightarrow> raw_output \<Rightarrow> scope_finding list option"
  xe_parse_vulns :: "tool \<Rightarrow> raw_output \<Rightarrow> 'v list option"
  xe_hard_failure :: "tool \<Rightarrow> raw_output \<Rightarrow> bool"
  xe_benign :: "tool \<Rightarrow> int list"
  xe_capture :: "'v list \<Rightarrow> 'w \<Rightarrow> (string \<times> string) list option \<times> 'w"
  xe_settings :: settings
  xe_enforce_scope :: bool
  xe_lookup :: lookup
  xe_uuid4 :: "nat \<Rightarrow> uuid"
  xe_now :: "nat \<Rightarrow> time"

datatype exec_event =
    Ran string "scope_finding list"   \<comment> \<open>tool and what it was given\<close>
  | Concluded string string bool      \<comment> \<open>tool, status, whether the result was persisted\<close>
  | Verdict                           \<comment> \<open>a refusal was seen on a submission\<close>
  | Stopped string

record 'w exec =
  ex_world :: 'w
  ex_discovered :: "scope_finding list"
  ex_statuses :: "string list"
  ex_lost :: nat
  ex_refused :: bool
  ex_scope :: scope_state
  ex_runs :: nat
  ex_log :: "exec_event list"

section \<open>Refusals and submissions\<close>

definition is_authoritative_refusal :: "worker_exc \<Rightarrow> bool" where
  "is_authoritative_refusal e =
     (case e of LeaseErr r \<Rightarrow> r = WORKER_AUTH_FAILED | HttpExc code \<Rightarrow> List.member [401, 403, 409] code | OtherExc _ \<Rightarrow> False)"

definition note_refusal :: "'w exec \<Rightarrow> 'w exec" where
  "note_refusal s = s\<lparr>ex_refused := True, ex_log := ex_log s @ [Verdict]\<rparr>"

text \<open>One call to the manager: whether it returned, whether it was an outage, and the latch.\<close>

definition absorb :: "worker_exc option \<Rightarrow> 'w exec \<Rightarrow> 'w exec" where
  "absorb e s = (case e of None \<Rightarrow> s | Some x \<Rightarrow> if is_authoritative_refusal x then note_refusal s else s)"

definition is_outage :: "worker_exc option \<Rightarrow> bool" where
  "is_outage e = (case e of None \<Rightarrow> False | Some x \<Rightarrow> \<not> is_authoritative_refusal x)"

definition submit :: "('w, 'v) exec_env \<Rightarrow> submission \<Rightarrow> 'w exec \<Rightarrow> worker_exc option \<times> 'w exec" where
  "submit env sub s =
     (let (e, w) = xe_submit env sub (ex_world s) in (e, absorb e (s\<lparr>ex_world := w\<rparr>)))"

definition conclude :: "string \<Rightarrow> string \<Rightarrow> bool \<Rightarrow> 'w exec \<Rightarrow> 'w exec" where
  "conclude name st persisted s =
     s\<lparr>ex_lost := ex_lost s + (if persisted then 0 else 1), ex_log := ex_log s @ [Concluded name st persisted]\<rparr>"

text \<open>\<open>_submit_tool_result_resilient\<close> with the caller's count of what was lost.\<close>

definition submit_tool_result_resilient ::
  "('w, 'v) exec_env \<Rightarrow> string \<Rightarrow> string \<Rightarrow> submission \<Rightarrow> 'w exec \<Rightarrow> 'w exec" where
  "submit_tool_result_resilient env name st sub s =
     (if \<not> xe_reporting env then conclude name st False s
      else (let (e, s1) = submit env sub s in conclude name st (e = None) s1))"

definition STOP_REASONS :: "string list" where "STOP_REASONS = [''cancelled'', ''revoked'']"

definition read_stop_reason :: "worker_exc + string option \<Rightarrow> string option" where
  "read_stop_reason reply =
     (case reply of
        Inl (LeaseErr r) \<Rightarrow> if r = WORKER_AUTH_FAILED then Some ''revoked'' else None
      | Inl _ \<Rightarrow> None
      | Inr None \<Rightarrow> None
      | Inr (Some r) \<Rightarrow> if List.member STOP_REASONS r then Some r else None)"

definition stop_reason :: "('w, 'v) exec_env \<Rightarrow> 'w exec \<Rightarrow> string option \<times> 'w exec" where
  "stop_reason env s =
     (if ex_refused s then (Some ''revoked'', s)
      else (case xe_probe env of
              None \<Rightarrow> (None, s)
            | Some probe \<Rightarrow>
                (let (reply, w) = probe (ex_world s) in (read_stop_reason reply, s\<lparr>ex_world := w\<rparr>))))"

section \<open>One tool\<close>

text \<open>The findings handed to a tool: those within the authorized scope, unless enforcement is off.\<close>

definition scoped_prior :: "('w, 'v) exec_env \<Rightarrow> wire_job \<Rightarrow> 'w exec \<Rightarrow> scope_finding list \<times> 'w exec" where
  "scoped_prior env job s =
     (let (roots, c1) = derived_scope_roots (xe_settings env) (xe_lookup env) (target_type_of job)
            (target_value_of job) (ex_discovered s) (ex_scope s)
      in if \<not> xe_enforce_scope env then (ex_discovered s, s\<lparr>ex_scope := c1\<rparr>)
         else (let (parts, c2) = partition_in_scope (xe_settings env) (xe_lookup env) (target_type_of job)
                     (target_value_of job) (Some roots) (ex_discovered s) c1
               in (fst parts, s\<lparr>ex_scope := c2\<rparr>)))"

definition announce_start :: "('w, 'v) exec_env \<Rightarrow> uuid \<Rightarrow> string \<Rightarrow> time \<Rightarrow> 'w exec \<Rightarrow> 'w exec" where
  "announce_start env rid name started s =
     (if \<not> xe_reporting env then s else snd (submit env (ToolStarted rid name started) s))"

definition or_nil :: "'a list option \<Rightarrow> 'a list" where
  "or_nil x = (case x of None \<Rightarrow> [] | Some xs \<Rightarrow> xs)"

definition tool_error :: "string \<Rightarrow> raw_output \<Rightarrow> string option" where
  "tool_error st raw =
     (let message = take 2000 (py_strip (ro_stderr raw)) in
      if st = ''completed'' \<or> message = [] then None else Some message)"

text \<open>The raw output goes before the result; an outage there demotes a completed run.\<close>

definition submit_raw_output ::
  "('w, 'v) exec_env \<Rightarrow> uuid \<Rightarrow> string \<Rightarrow> raw_output \<Rightarrow> string \<Rightarrow> 'w exec \<Rightarrow> string \<times> 'w exec" where
  "submit_raw_output env rid name raw st s =
     (if ro_stdout raw = [] then (st, s)
      else (let (e, s1) = submit env (EvidenceOf rid (ro_stdout raw) ''text/plain'' (Some name) None) s
            in if is_outage e \<and> st = ''completed''
               then (''partial'', s1\<lparr>ex_statuses := butlast (ex_statuses s1) @ [''partial'']\<rparr>)
               else (st, s1)))"

fun submit_shots :: "('w, 'v) exec_env \<Rightarrow> uuid \<Rightarrow> (string \<times> string) list \<Rightarrow> 'w \<Rightarrow> nat \<times> 'w" where
  "submit_shots env rid [] w = (0, w)"
| "submit_shots env rid ((fingerprint, png) # shots) w =
     (case xe_submit env (EvidenceOf rid png ''image/png'' None (Some fingerprint)) w of
        (e, w1) \<Rightarrow>
          (case submit_shots env rid shots w1 of (n, w2) \<Rightarrow> (if e = None then Suc n else n, w2)))"

definition capture_and_submit_screenshots ::
  "('w, 'v) exec_env \<Rightarrow> uuid \<Rightarrow> tool \<Rightarrow> raw_output \<Rightarrow> string \<Rightarrow> 'w exec \<Rightarrow> nat \<times> 'w exec" where
  "capture_and_submit_screenshots env rid t raw st s =
     (let vulns = or_nil (xe_parse_vulns env t raw) in
      if st = ''failed'' \<or> vulns = [] then (0, s)
      else (case xe_capture env vulns (ex_world s) of
              (None, w) \<Rightarrow> (0, s\<lparr>ex_world := w\<rparr>)
            | (Some shots, w) \<Rightarrow>
                (case submit_shots env rid shots w of (n, w') \<Rightarrow> (n, s\<lparr>ex_world := w'\<rparr>))))"

text \<open>What follows a run that raised, and one that returned output.\<close>

definition tool_raised ::
  "('w, 'v) exec_env \<Rightarrow> uuid \<Rightarrow> tool \<Rightarrow> time \<Rightarrow> string \<Rightarrow> 'w exec \<Rightarrow> 'w exec" where
  "tool_raised env rid t started message s =
     submit_tool_result_resilient env (tl_name t) ''failed''
       (ToolResult rid (tl_name t) ''failed'' [] None (Some (take 2000 message)) started None False)
       (s\<lparr>ex_statuses := ex_statuses s @ [''failed'']\<rparr>)"

definition run_status :: "('w, 'v) exec_env \<Rightarrow> tool \<Rightarrow> raw_output \<Rightarrow> string" where
  "run_status env t raw =
     classify_run (xe_hard_failure env t raw) (xe_benign env t) (ro_exit_code raw) (ro_stdout raw)
       (or_nil (xe_parse env t raw) \<noteq> [] \<or> or_nil (xe_parse_vulns env t raw) \<noteq> [])"

definition run_findings :: "('w, 'v) exec_env \<Rightarrow> tool \<Rightarrow> raw_output \<Rightarrow> scope_finding list" where
  "run_findings env t raw = (if run_status env t raw = ''failed'' then [] else or_nil (xe_parse env t raw))"

definition report_run ::
  "('w, 'v) exec_env \<Rightarrow> uuid \<Rightarrow> tool \<Rightarrow> time \<Rightarrow> raw_output \<Rightarrow> 'w exec \<Rightarrow> 'w exec" where
  "report_run env rid t started raw s =
     (if \<not> xe_reporting env then s
      else (let (st, s1) = submit_raw_output env rid (tl_name t) raw (run_status env t raw) s;
                s2 = submit_tool_result_resilient env (tl_name t) st
                       (ToolResult rid (tl_name t) st (run_findings env t raw) (Some (ro_exit_code raw)) (tool_error st raw)
                          started (Some (ro_command raw)) (ro_timed_out raw)) s1
            in snd (capture_and_submit_screenshots env rid t raw st s2)))"

definition tool_returned ::
  "('w, 'v) exec_env \<Rightarrow> uuid \<Rightarrow> tool \<Rightarrow> time \<Rightarrow> raw_output \<Rightarrow> 'w exec \<Rightarrow> 'w exec" where
  "tool_returned env rid t started raw s =
     report_run env rid t started raw
       (s\<lparr>ex_statuses := ex_statuses s @ [run_status env t raw],
          ex_discovered := ex_discovered s @ run_findings env t raw\<rparr>)"

definition run_tool :: "('w, 'v) exec_env \<Rightarrow> wire_job \<Rightarrow> tool \<Rightarrow> 'w exec \<Rightarrow> 'w exec" where
  "run_tool env job t s =
     (let rid = xe_uuid4 env (ex_runs s);
          started = xe_now env (ex_runs s);
          s1 = announce_start env rid (tl_name t) started (s\<lparr>ex_runs := Suc (ex_runs s)\<rparr>);
          (prior, s2) = scoped_prior env job s1;
          (result, w) = xe_run env t (target_value_of job) (wj_config job) prior (ex_world s2);
          s3 = s2\<lparr>ex_world := w, ex_log := ex_log s2 @ [Ran (tl_name t) prior]\<rparr>
      in (case result of
            Inl message \<Rightarrow> tool_raised env rid t started message s3
          | Inr raw \<Rightarrow> tool_returned env rid t started raw s3))"

section \<open>The pipeline\<close>

fun run_tools :: "('w, 'v) exec_env \<Rightarrow> wire_job \<Rightarrow> tool list \<Rightarrow> 'w exec \<Rightarrow> 'w exec" where
  "run_tools env job [] s = s"
| "run_tools env job (t # ts) s =
     (case stop_reason env s of
        (Some reason, s1) \<Rightarrow> s1\<lparr>ex_log := ex_log s1 @ [Stopped reason]\<rparr>
      | (None, s1) \<Rightarrow>
          if \<not> applies_to t (target_type_of job) then run_tools env job ts s1
          else run_tools env job ts (run_tool env job t s1))"

definition runners :: "wire_job \<Rightarrow> tool list" where
  "runners job = sort_key tl_phase (List.map_filter find_tool (wj_requested_modules job))"

definition leased_status :: "string list \<Rightarrow> nat \<Rightarrow> string" where
  "leased_status statuses lost =
     (if statuses \<noteq> [] \<and> list_all (\<lambda>s. s = ''failed'') statuses then ''failed''
      else if list_ex (\<lambda>s. List.member [''failed'', ''partial''] s) statuses then ''completed_with_errors''
      else if statuses \<noteq> [] then (if lost \<noteq> 0 then ''completed_with_errors'' else ''completed'')
      else ''failed'')"

definition exec_start :: "scope_state \<Rightarrow> 'w \<Rightarrow> 'w exec" where
  "exec_start scope w =
     \<lparr>ex_world = w, ex_discovered = [], ex_statuses = [], ex_lost = 0, ex_refused = False, ex_scope = scope,
      ex_runs = 0, ex_log = []\<rparr>"

definition execute_leased_job ::
  "('w, 'v) exec_env \<Rightarrow> wire_job \<Rightarrow> scope_state \<Rightarrow> 'w \<Rightarrow> string \<times> 'w exec" where
  "execute_leased_job env job scope w =
     (if runners job = [] then (''failed'', exec_start scope w)
      else (let s = run_tools env job (runners job) (exec_start scope w)
            in (leased_status (ex_statuses s) (ex_lost s), s)))"

end
