(* ===== verification/Executor_Steps.thy ===== *)
theory Executor_Steps
  imports Tool_Executor Scan_Properties
begin

text \<open>
  What the pipeline of \<open>scanner_worker/executor.py\<close> guarantees, whatever the manager, the tools and their
  parsers do: the shape of its log for one tool and for all of them.
\<close>

section \<open>Readings of the log\<close>

definition ran_tools :: "exec_event list \<Rightarrow> string list" where
  "ran_tools evs = concat (map (\<lambda>e. case e of Ran n p \<Rightarrow> [n] | _ \<Rightarrow> []) evs)"

definition conclusions :: "exec_event list \<Rightarrow> (string \<times> string \<times> bool) list" where
  "conclusions evs = concat (map (\<lambda>e. case e of Concluded n st p \<Rightarrow> [(n, st, p)] | _ \<Rightarrow> []) evs)"

definition stops :: "exec_event list \<Rightarrow> string list" where
  "stops evs = concat (map (\<lambda>e. case e of Stopped r \<Rightarrow> [r] | _ \<Rightarrow> []) evs)"

definition ran_after_verdict :: "exec_event list \<Rightarrow> string list" where
  "ran_after_verdict evs = ran_tools (dropWhile (\<lambda>e. e \<noteq> Verdict) evs)"

lemma log_simps [simp]:
  "ran_tools [] = []" "conclusions [] = []" "stops [] = []"
  "ran_tools (xs @ ys) = ran_tools xs @ ran_tools ys"
  "conclusions (xs @ ys) = conclusions xs @ conclusions ys"
  "stops (xs @ ys) = stops xs @ stops ys"
  "ran_tools (Ran n p # xs) = n # ran_tools xs" "ran_tools (Concluded n st q # xs) = ran_tools xs"
  "ran_tools (Verdict # xs) = ran_tools xs" "ran_tools (Stopped r # xs) = ran_tools xs"
  "conclusions (Ran n p # xs) = conclusions xs" "conclusions (Concluded n st q # xs) = (n, st, q) # conclusions xs"
  "conclusions (Verdict # xs) = conclusions xs" "conclusions (Stopped r # xs) = conclusions xs"
  "stops (Ran n p # xs) = stops xs" "stops (Concluded n st q # xs) = stops xs"
  "stops (Verdict # xs) = stops xs" "stops (Stopped r # xs) = r # stops xs"
  by (simp_all add: ran_tools_def conclusions_def stops_def)

lemma only_verdicts:
  "set v \<subseteq> {Verdict} \<Longrightarrow> ran_tools v = [] \<and> conclusions v = [] \<and> stops v = []"
  by (induction v) auto

lemma ran_after_none: "Verdict \<notin> set evs \<Longrightarrow> ran_after_verdict evs = []"
  by (induction evs) (auto simp: ran_after_verdict_def)

lemma ran_after_append:
  "ran_after_verdict (xs @ ys) =
     (if Verdict \<in> set xs then ran_after_verdict xs @ ran_tools ys else ran_after_verdict ys)"
  unfolding ran_after_verdict_def by (induction xs) auto

lemma ran_after_le: "length (ran_after_verdict evs) \<le> length (ran_tools evs)"
proof -
  have "ran_tools evs = ran_tools (takeWhile (\<lambda>e. e \<noteq> Verdict) evs) @ ran_after_verdict evs"
    unfolding ran_after_verdict_def by (simp flip: log_simps(4))
  then show ?thesis by simp
qed

section \<open>Quiet steps\<close>

text \<open>Steps that run no tool and record no outcome; they may see a refusal.\<close>

definition quiet :: "'w exec \<Rightarrow> 'w exec \<Rightarrow> bool" where
  "quiet s s' \<longleftrightarrow>
     ex_discovered s' = ex_discovered s \<and> ex_statuses s' = ex_statuses s \<and> ex_lost s' = ex_lost s
     \<and> (\<exists>v. set v \<subseteq> {Verdict} \<and> ex_log s' = ex_log s @ v \<and> (ex_refused s' \<longleftrightarrow> ex_refused s \<or> v \<noteq> []))"

lemma quietI:
  "ex_discovered s' = ex_discovered s \<Longrightarrow> ex_statuses s' = ex_statuses s \<Longrightarrow> ex_lost s' = ex_lost s \<Longrightarrow>
    ex_log s' = ex_log s \<Longrightarrow> ex_refused s' = ex_refused s \<Longrightarrow> quiet s s'"
  unfolding quiet_def by (intro conjI exI [of _ "[]"]) auto

lemma quiet_trans: "quiet s t \<Longrightarrow> quiet t u \<Longrightarrow> quiet s u"
  unfolding quiet_def
proof (elim conjE exE, intro conjI)
  fix v w
  assume "set v \<subseteq> {Verdict}" "ex_log t = ex_log s @ v" "ex_refused t = (ex_refused s \<or> v \<noteq> [])"
    and "set w \<subseteq> {Verdict}" "ex_log u = ex_log t @ w" "ex_refused u = (ex_refused t \<or> w \<noteq> [])"
  then show "\<exists>v. set v \<subseteq> {Verdict} \<and> ex_log u = ex_log s @ v \<and> ex_refused u = (ex_refused s \<or> v \<noteq> [])"
    by (intro exI [of _ "v @ w"]) auto
qed auto

lemma submit_quiet: "quiet s (snd (submit env sub s))"
proof -
  obtain e w where "xe_submit env sub (ex_world s) = (e, w)" by fastforce
  then show ?thesis
    by (cases e) (auto simp: submit_def absorb_def note_refusal_def quiet_def)
qed

lemma announce_quiet: "quiet s (announce_start env rid name started s)"
  by (simp add: announce_start_def submit_quiet quietI)

lemma scoped_prior_quiet: "quiet s (snd (scoped_prior env job s))"
  by (simp add: scoped_prior_def quietI split: prod.split)

lemma stop_reason_quiet: "quiet s (snd (stop_reason env s))"
  and stop_reason_log: "ex_log (snd (stop_reason env s)) = ex_log s \<and> ex_refused (snd (stop_reason env s)) = ex_refused s"
  by (simp_all add: stop_reason_def quietI split: option.split prod.split)

lemma screenshots_quiet: "quiet s (snd (capture_and_submit_screenshots env rid t raw st s))"
  unfolding capture_and_submit_screenshots_def Let_def
  by (auto intro!: quietI split: prod.split option.split)

lemma submit_raw_output_quiet:
  assumes "submit_raw_output env rid name raw st s = (st', s')"
  shows "quiet (s\<lparr>ex_statuses := (if st' = st then ex_statuses s else butlast (ex_statuses s) @ [st'])\<rparr>) s'"
    and "st' = st \<or> st' = ''partial''"
proof -
  obtain e s1 where e: "submit env (EvidenceOf rid (ro_stdout raw) ''text/plain'' (Some name) None) s = (e, s1)"
    by fastforce
  have q: "quiet s s1" using submit_quiet [of s env] e by (metis snd_conv)
  then show "quiet (s\<lparr>ex_statuses := (if st' = st then ex_statuses s else butlast (ex_statuses s) @ [st'])\<rparr>) s'"
    using assms e by (auto simp: submit_raw_output_def quiet_def quietI split: if_splits)
  show "st' = st \<or> st' = ''partial''"
    using assms e by (auto simp: submit_raw_output_def split: if_splits)
qed

section \<open>One tool\<close>

text \<open>
  A step from \<open>s\<close> to \<open>s'\<close> that records the outcome \<open>st\<close> of the tool \<open>name\<close> in the last entry of the statuses,
  counted as lost exactly when it was not persisted.
\<close>

definition concludes :: "string \<Rightarrow> 'w exec \<Rightarrow> 'w exec \<Rightarrow> bool" where
  "concludes name s s' \<longleftrightarrow>
     (\<exists>v u st p. set v \<subseteq> {Verdict} \<and> set u \<subseteq> {Verdict}
        \<and> ex_log s' = ex_log s @ v @ Concluded name st p # u
        \<and> ex_statuses s' = butlast (ex_statuses s) @ [st]
        \<and> ex_lost s' = ex_lost s + (if p then 0 else 1)
        \<and> (ex_refused s' \<longleftrightarrow> ex_refused s \<or> v \<noteq> [] \<or> u \<noteq> []))"

lemma resilient_concludes:
  assumes "quiet s t" and "ex_statuses t = butlast (ex_statuses r) @ [st]" and "ex_log s = ex_log r"
    and "ex_refused s = ex_refused r" and "ex_lost s = ex_lost r"
  shows "concludes name r (submit_tool_result_resilient env name st sub t)"
proof -
  obtain e t1 where e: "submit env sub t = (e, t1)" by fastforce
  then have q: "quiet s t1" "ex_statuses t1 = ex_statuses t"
    using quiet_trans [OF assms(1) submit_quiet [of t env sub]] submit_quiet [of t env sub] by (auto simp: quiet_def)
  have "\<exists>p u. quiet s u \<and> ex_statuses u = ex_statuses t
      \<and> submit_tool_result_resilient env name st sub t = conclude name st p u"
    using q e assms(1) by (cases "xe_reporting env") (auto simp: submit_tool_result_resilient_def)
  then obtain p u where u: "quiet s u" "ex_statuses u = ex_statuses t"
      "submit_tool_result_resilient env name st sub t = conclude name st p u" by blast
  from u(1) obtain v where "set v \<subseteq> {Verdict}" "ex_log u = ex_log s @ v" "ex_refused u = (ex_refused s \<or> v \<noteq> [])"
      "ex_lost u = ex_lost s" unfolding quiet_def by blast
  with u(2,3) assms(2-5) show ?thesis
    unfolding concludes_def
    by (intro exI [of _ v] exI [of _ "[]"] exI [of _ st] exI [of _ p]) (auto simp: conclude_def)
qed

lemma concludes_quiet: "concludes name s t \<Longrightarrow> quiet t u \<Longrightarrow> concludes name s u"
  unfolding concludes_def quiet_def
proof (elim exE conjE)
  fix v w st p x
  assume "set v \<subseteq> {Verdict}" "set w \<subseteq> {Verdict}" "ex_log t = ex_log s @ v @ Concluded name st p # w"
    "ex_statuses t = butlast (ex_statuses s) @ [st]" "ex_lost t = ex_lost s + (if p then 0 else 1)"
    "ex_refused t = (ex_refused s \<or> v \<noteq> [] \<or> w \<noteq> [])"
    "ex_statuses u = ex_statuses t" "ex_lost u = ex_lost t" "set x \<subseteq> {Verdict}" "ex_log u = ex_log t @ x"
    "ex_refused u = (ex_refused t \<or> x \<noteq> [])"
  then show "\<exists>v ua st p. set v \<subseteq> {Verdict} \<and> set ua \<subseteq> {Verdict}
        \<and> ex_log u = ex_log s @ v @ Concluded name st p # ua
        \<and> ex_statuses u = butlast (ex_statuses s) @ [st]
        \<and> ex_lost u = ex_lost s + (if p then 0 else 1)
        \<and> (ex_refused u \<longleftrightarrow> ex_refused s \<or> v \<noteq> [] \<or> ua \<noteq> [])"
    by (intro exI [of _ v] exI [of _ "w @ x"] exI [of _ st] exI [of _ p]) auto
qed

lemma report_run_concludes:
  assumes "xe_reporting env" and "ex_statuses s = sts @ [run_status env t raw]"
  shows "concludes (tl_name t) s (report_run env rid t started raw s)"
proof -
  let ?st = "run_status env t raw"
  obtain st s1 where 1: "submit_raw_output env rid (tl_name t) raw ?st s = (st, s1)" by fastforce
  let ?r = "s\<lparr>ex_statuses := (if st = ?st then ex_statuses s else butlast (ex_statuses s) @ [st])\<rparr>"
  have q: "quiet ?r s1" by (rule submit_raw_output_quiet [OF 1])
  then have "ex_statuses s1 = butlast (ex_statuses s) @ [st]"
    using assms(2) by (auto simp: quiet_def)
  then have "concludes (tl_name t) s (submit_tool_result_resilient env (tl_name t) st sub s1)" for sub
    by (intro resilient_concludes [OF q]) simp_all
  then show ?thesis
    using assms(1) 1 by (simp add: report_run_def concludes_quiet [OF _ screenshots_quiet])
qed

lemma tool_returned_discovered:
  "set (ex_discovered s) \<subseteq> set (ex_discovered (tool_returned env rid t started raw s))"
proof -
  have k: "ex_discovered (submit_tool_result_resilient env n st sub u) = ex_discovered u" for n st sub u
    using submit_quiet [of u env sub]
    by (auto simp: submit_tool_result_resilient_def conclude_def quiet_def split: prod.split)
  have q: "ex_discovered s' = ex_discovered s1"
    if "submit_raw_output env rid (tl_name t) raw st s1 = (st', s')" for st st' s1 s'
    using submit_raw_output_quiet(1) [OF that] by (auto simp: quiet_def)
  have c: "ex_discovered (snd (capture_and_submit_screenshots env rid t raw st u)) = ex_discovered u" for st u
    using screenshots_quiet [of u env rid t raw st] by (auto simp: quiet_def)
  show ?thesis by (auto simp: tool_returned_def report_run_def c k split: prod.splits dest!: q)
qed

definition announced :: "('w, 'v) exec_env \<Rightarrow> tool \<Rightarrow> 'w exec \<Rightarrow> 'w exec" where
  "announced env t s = announce_start env (xe_uuid4 env (ex_runs s)) (tl_name t) (xe_now env (ex_runs s)) (s\<lparr>ex_runs := Suc (ex_runs s)\<rparr>)"

text \<open>
  One tool: refusals before the run, the run, one conclusion, refusals after it. The tool is given what
  \<open>scoped_prior\<close> says in a state with the same findings.
\<close>

lemma run_tool_log:
  assumes "xe_reporting env"
  shows "\<exists>v p x u st q. p = fst (scoped_prior env job (announced env t s)) \<and> set v \<subseteq> {Verdict} \<and> set x \<subseteq> {Verdict} \<and> set u \<subseteq> {Verdict}
     \<and> ex_log (run_tool env job t s) = ex_log s @ v @ Ran (tl_name t) p # x @ Concluded (tl_name t) st q # u
     \<and> ex_statuses (run_tool env job t s) = ex_statuses s @ [st]
     \<and> ex_lost (run_tool env job t s) = ex_lost s + (if q then 0 else 1)
     \<and> (ex_refused (run_tool env job t s) \<longleftrightarrow> ex_refused s \<or> v \<noteq> [] \<or> x \<noteq> [] \<or> u \<noteq> [])"
proof -
  let ?rid = "xe_uuid4 env (ex_runs s)" and ?now = "xe_now env (ex_runs s)"
  let ?s0 = "s\<lparr>ex_runs := Suc (ex_runs s)\<rparr>"
  let ?s1 = "announce_start env ?rid (tl_name t) ?now ?s0"
  obtain prior s2 where 2: "scoped_prior env job ?s1 = (prior, s2)" by fastforce
  obtain result w where r: "xe_run env t (target_value_of job) (wj_config job) prior (ex_world s2) = (result, w)" by fastforce
  let ?s3 = "s2\<lparr>ex_world := w, ex_log := ex_log s2 @ [Ran (tl_name t) prior]\<rparr>"
  have e: "run_tool env job t s = (case result of Inl message \<Rightarrow> tool_raised env ?rid t ?now message ?s3
      | Inr raw \<Rightarrow> tool_returned env ?rid t ?now raw ?s3)"
    by (simp add: run_tool_def Let_def 2 r)
  have "quiet s s2"
    using quiet_trans [OF quiet_trans [OF quietI announce_quiet [of ?s0 env ?rid "tl_name t" ?now]]
        scoped_prior_quiet [of ?s1 env job], of s] 2 by simp
  then obtain v where v: "set v \<subseteq> {Verdict}" "ex_log s2 = ex_log s @ v" "ex_refused s2 = (ex_refused s \<or> v \<noteq> [])"
      "ex_statuses s2 = ex_statuses s" "ex_lost s2 = ex_lost s" unfolding quiet_def by blast
  have "\<exists>s4 st. ex_log s4 = ex_log ?s3 \<and> ex_statuses s4 = ex_statuses ?s3 @ [st] \<and> ex_lost s4 = ex_lost ?s3
      \<and> ex_refused s4 = ex_refused ?s3 \<and> concludes (tl_name t) s4 (run_tool env job t s)"
  proof (cases result)
    case (Inl message)
    let ?s4 = "?s3\<lparr>ex_statuses := ex_statuses ?s3 @ [''failed'']\<rparr>"
    have "quiet ?s4 ?s4" by (rule quietI) simp_all
    then have "concludes (tl_name t) ?s4 (run_tool env job t s)"
      unfolding e Inl sum.case tool_raised_def by (intro resilient_concludes [of ?s4]) simp_all
    then show ?thesis by (intro exI [of _ ?s4] exI [of _ "''failed''"]) simp
  next
    case (Inr raw)
    let ?s4 = "?s3\<lparr>ex_statuses := ex_statuses ?s3 @ [run_status env t raw],
        ex_discovered := ex_discovered ?s3 @ run_findings env t raw\<rparr>"
    have "concludes (tl_name t) ?s4 (run_tool env job t s)"
      unfolding e Inr sum.case tool_returned_def by (intro report_run_concludes [OF assms]) simp
    then show ?thesis by (intro exI [of _ ?s4] exI [of _ "run_status env t raw"]) simp
  qed
  then obtain s4 st4 where s4: "ex_log s4 = ex_log s @ v @ [Ran (tl_name t) prior]"
      "ex_statuses s4 = ex_statuses s @ [st4]" "ex_lost s4 = ex_lost s" "ex_refused s4 = (ex_refused s \<or> v \<noteq> [])"
      "concludes (tl_name t) s4 (run_tool env job t s)" using v by auto
  from s4(5) obtain x u st q where "set x \<subseteq> {Verdict}" "set u \<subseteq> {Verdict}"
      "ex_log (run_tool env job t s) = ex_log s4 @ x @ Concluded (tl_name t) st q # u"
      "ex_statuses (run_tool env job t s) = butlast (ex_statuses s4) @ [st]"
      "ex_lost (run_tool env job t s) = ex_lost s4 + (if q then 0 else 1)"
      "ex_refused (run_tool env job t s) = (ex_refused s4 \<or> x \<noteq> [] \<or> u \<noteq> [])" unfolding concludes_def by blast
  with v(1) s4(1-4) 2 show ?thesis
    unfolding announced_def by (intro exI [of _ v] exI [of _ prior] exI [of _ x] exI [of _ u] exI [of _ st] exI [of _ q]) auto
qed

section \<open>The pipeline\<close>

definition applicable :: "wire_job \<Rightarrow> tool list \<Rightarrow> string list" where
  "applicable job ts = map tl_name (filter (\<lambda>t. applies_to t (target_type_of job)) ts)"

text \<open>What the pipeline adds to the log, with the counters that go with it.\<close>

definition pipeline :: "wire_job \<Rightarrow> tool list \<Rightarrow> 'w exec \<Rightarrow> 'w exec \<Rightarrow> bool" where
  "pipeline job ts s s' \<longleftrightarrow>
     (\<exists>new. ex_log s' = ex_log s @ new
        \<and> (\<exists>k. ran_tools new = take k (applicable job ts))
        \<and> (stops new = [] \<longrightarrow> ran_tools new = applicable job ts)
        \<and> map fst (conclusions new) = ran_tools new
        \<and> ex_statuses s' = ex_statuses s @ map (\<lambda>c. fst (snd c)) (conclusions new)
        \<and> ex_lost s' = ex_lost s + length (filter (\<lambda>c. \<not> snd (snd c)) (conclusions new))
        \<and> length (stops new) \<le> 1
        \<and> (ex_refused s \<longrightarrow> ran_tools new = [])
        \<and> length (ran_after_verdict new) \<le> 1)"

lemma pipeline_stop:
  "ex_statuses s' = ex_statuses s \<Longrightarrow> ex_lost s' = ex_lost s \<Longrightarrow> ex_log s' = ex_log s @ [Stopped r] \<Longrightarrow>
    pipeline job ts s s'"
  unfolding pipeline_def
  by (intro exI [of _ "[Stopped r]"]) (auto simp: ran_after_none intro: exI [of _ 0])

lemma pipeline_skip:
  "\<not> applies_to t (target_type_of job) \<Longrightarrow> pipeline job ts s s' \<Longrightarrow> pipeline job (t # ts) s s'"
  by (simp add: pipeline_def applicable_def)

lemma pipeline_from:
  "ex_log t = ex_log s \<Longrightarrow> ex_refused t = ex_refused s \<Longrightarrow> ex_statuses t = ex_statuses s \<Longrightarrow> ex_lost t = ex_lost s \<Longrightarrow>
    pipeline job ts t s' \<Longrightarrow> pipeline job ts s s'"
  by (simp add: pipeline_def)

lemma pipeline_step:
  assumes rep: "xe_reporting env" and app: "applies_to t (target_type_of job)" and ref: "\<not> ex_refused s"
    and rest: "pipeline job ts (run_tool env job t s) s'"
  shows "pipeline job (t # ts) s s'"
proof -
  let ?m = "run_tool env job t s"
  from run_tool_log [OF rep, of job t s] obtain v p x u st q where
    vs: "set v \<subseteq> {Verdict}" "set x \<subseteq> {Verdict}" "set u \<subseteq> {Verdict}"
    and m: "ex_log ?m = ex_log s @ v @ Ran (tl_name t) p # x @ Concluded (tl_name t) st q # u"
      "ex_statuses ?m = ex_statuses s @ [st]" "ex_lost ?m = ex_lost s + (if q then 0 else 1)"
      "ex_refused ?m \<longleftrightarrow> ex_refused s \<or> v \<noteq> [] \<or> x \<noteq> [] \<or> u \<noteq> []" by blast
  let ?one = "v @ Ran (tl_name t) p # x @ Concluded (tl_name t) st q # u"
  note none = only_verdicts [OF vs(1)] only_verdicts [OF vs(2)] only_verdicts [OF vs(3)]
  have verdict: "Verdict \<in> set ?one \<longleftrightarrow> ex_refused ?m"
    using vs m(4) ref by (cases v; cases x; cases u) auto
  have one: "ran_tools ?one = [tl_name t]" "conclusions ?one = [(tl_name t, st, q)]" "stops ?one = []"
    using none by simp_all
  have le: "length (ran_after_verdict ?one) \<le> 1"
    using ran_after_le [of ?one] unfolding one(1) by simp
  from rest obtain new k where new: "ex_log s' = ex_log ?m @ new" "ran_tools new = take k (applicable job ts)"
      "stops new = [] \<longrightarrow> ran_tools new = applicable job ts" "map fst (conclusions new) = ran_tools new"
      "ex_statuses s' = ex_statuses ?m @ map (\<lambda>c. fst (snd c)) (conclusions new)"
      "ex_lost s' = ex_lost ?m + length (filter (\<lambda>c. \<not> snd (snd c)) (conclusions new))"
      "length (stops new) \<le> 1" "ex_refused ?m \<longrightarrow> ran_tools new = []" "length (ran_after_verdict new) \<le> 1"
    unfolding pipeline_def by blast
  have "length (ran_after_verdict (?one @ new)) \<le> 1"
    using ran_after_append [of ?one new] verdict new(8,9) le by (metis append_Nil2)
  moreover have all: "ran_tools (?one @ new) = tl_name t # ran_tools new" "stops (?one @ new) = stops new"
    "conclusions (?one @ new) = (tl_name t, st, q) # conclusions new" "ex_log s' = ex_log s @ (?one @ new)"
    using one new(1) m(1) by simp_all
  moreover have "applicable job (t # ts) = tl_name t # applicable job ts" using app by (simp add: applicable_def)
  moreover have "\<exists>k'. tl_name t # take k (applicable job ts) = take k' (tl_name t # applicable job ts)"
    by (intro exI [of _ "Suc k"]) simp
  moreover have "stops new = [] \<longrightarrow> take k (applicable job ts) = applicable job ts"
    using new(2,3) by simp
  ultimately show ?thesis
    unfolding pipeline_def
    by (intro exI [of _ "?one @ new"]) (simp only: new(2,4-7) ref m(2,3) list.map fst_conv snd_conv filter.simps, simp)
qed

lemma run_tools_pipeline:
  assumes "xe_reporting env"
  shows "pipeline job ts s (run_tools env job ts s)"
proof (induction ts arbitrary: s)
  case Nil
  then show ?case
    unfolding pipeline_def by (intro exI [of _ "[]"]) (simp add: applicable_def ran_after_none)
next
  case (Cons t ts)
  obtain r s1 where r: "stop_reason env s = (r, s1)" by fastforce
  have s1: "ex_log s1 = ex_log s" "ex_refused s1 = ex_refused s" "ex_statuses s1 = ex_statuses s" "ex_lost s1 = ex_lost s"
    using stop_reason_log [of env s] stop_reason_quiet [of s env] r by (auto simp: quiet_def)
  show ?case
  proof (cases r)
    case (Some reason)
    then show ?thesis by (simp add: r s1 pipeline_stop [of _ _ reason])
  next
    case None
    then have ref: "\<not> ex_refused s1"
      using r s1(2) by (auto simp: stop_reason_def split: if_splits)
    show ?thesis
    proof (cases "applies_to t (target_type_of job)")
      case True
      then show ?thesis
        using pipeline_from [OF s1 pipeline_step [OF assms True ref Cons.IH]] by (simp add: r None)
    next
      case False
      then show ?thesis
        using pipeline_from [OF s1 pipeline_skip [OF False Cons.IH]] by (simp add: r None)
    qed
  qed
qed

section \<open>Outages\<close>

text \<open>A manager whose failures are all outages, and whose probe never says to stop.\<close>

definition never_refuses :: "('w, 'v) exec_env \<Rightarrow> bool" where
  "never_refuses env \<longleftrightarrow>
     (\<forall>sub w. case fst (xe_submit env sub w) of None \<Rightarrow> True | Some e \<Rightarrow> \<not> is_authoritative_refusal e)
     \<and> (case xe_probe env of None \<Rightarrow> True | Some probe \<Rightarrow> \<forall>w. read_stop_reason (fst (probe w)) = None)"

lemma submit_not_refused:
  assumes "never_refuses env"
  shows "ex_refused (snd (submit env sub s)) = ex_refused s"
proof -
  obtain e w where e: "xe_submit env sub (ex_world s) = (e, w)" by fastforce
  moreover have "case fst (xe_submit env sub (ex_world s)) of None \<Rightarrow> True | Some e \<Rightarrow> \<not> is_authoritative_refusal e"
    using assms unfolding never_refuses_def by blast
  ultimately show ?thesis by (auto simp: submit_def absorb_def split: option.splits)
qed

lemma resilient_not_refused:
  "never_refuses env \<Longrightarrow> ex_refused (submit_tool_result_resilient env name st sub s) = ex_refused s"
  using submit_not_refused [of env sub s]
  by (auto simp: submit_tool_result_resilient_def conclude_def split: prod.split)

lemma screenshots_refused: "ex_refused (snd (capture_and_submit_screenshots env rid t raw st s)) = ex_refused s"
  by (auto simp: capture_and_submit_screenshots_def Let_def split: prod.split option.split)

lemma raw_output_not_refused:
  "never_refuses env \<Longrightarrow> ex_refused (snd (submit_raw_output env rid name raw st s)) = ex_refused s"
  using submit_not_refused [of env "EvidenceOf rid (ro_stdout raw) ''text/plain'' (Some name) None" s]
  by (auto simp: submit_raw_output_def split: prod.split)

lemma run_tool_not_refused:
  assumes "never_refuses env"
  shows "ex_refused (run_tool env job t s) = ex_refused s"
proof -
  have "ex_refused (announce_start env rid n now u) = ex_refused u" for rid n now u
    using submit_not_refused [OF assms] by (simp add: announce_start_def)
  moreover have "ex_refused (snd (scoped_prior env job u)) = ex_refused u" for u
    by (simp add: scoped_prior_def split: prod.split)
  ultimately have "ex_refused s2 = ex_refused s"
    if "scoped_prior env job (announce_start env rid n now (s\<lparr>ex_runs := k\<rparr>)) = (p, s2)" for rid n now k p s2
    using that by (metis (no_types, lifting) exec.select_convs(5) exec.surjective exec.update_convs(7) snd_conv)
  moreover have "ex_refused (report_run env rid t started raw u) = ex_refused u" for rid started raw u
    using raw_output_not_refused [OF assms, of rid "tl_name t" raw "run_status env t raw" u]
    by (auto simp: report_run_def screenshots_refused resilient_not_refused [OF assms] split: prod.split)
  ultimately show ?thesis
    by (auto simp: run_tool_def tool_raised_def tool_returned_def resilient_not_refused [OF assms] Let_def
        split: prod.split sum.split)
qed

lemma run_tools_no_stop:
  assumes "xe_reporting env" and "never_refuses env"
  shows "\<not> ex_refused s \<Longrightarrow> stops (ex_log (run_tools env job ts s)) = stops (ex_log s)"
proof (induction ts arbitrary: s)
  case (Cons t ts)
  obtain r s1 where r: "stop_reason env s = (r, s1)" by fastforce
  have "r = None"
    using r Cons.prems assms(2) by (auto simp: stop_reason_def never_refuses_def case_prod_beta split: option.splits)
  moreover have s1: "ex_log s1 = ex_log s" "\<not> ex_refused s1"
    using stop_reason_log [of env s] r Cons.prems by auto
  moreover have "stops (ex_log (run_tool env job t s1)) = stops (ex_log s1)"
    using run_tool_log [OF assms(1), of job t s1] by (auto dest!: only_verdicts)
  ultimately show ?case
    using Cons.IH [OF s1(2)] Cons.IH [of "run_tool env job t s1"] run_tool_not_refused [OF assms(2)] r by simp
qed simp

section \<open>Scope\<close>

definition scope_roots :: "('w, 'v) exec_env \<Rightarrow> wire_job \<Rightarrow> scope_finding list \<Rightarrow> string list" where
  "scope_roots env job found =
     (if target_type_of job = ''domain'' then pure_roots (xe_settings env) (xe_lookup env) (target_value_of job) found else [])"

definition in_job_scope :: "('w, 'v) exec_env \<Rightarrow> wire_job \<Rightarrow> scope_finding list \<Rightarrow> scope_finding \<Rightarrow> bool" where
  "in_job_scope env job found f =
     in_scope (xe_settings env) (xe_lookup env) (target_type_of job) (target_value_of job) (scope_roots env job found)
       (extract_host f)"

lemma scoped_prior_scope:
  assumes "stable (xe_lookup env)" and "cache_ok (xe_lookup env) (ex_scope s)" and "xe_enforce_scope env"
  shows "fst (scoped_prior env job s) = filter (in_job_scope env job (ex_discovered s)) (ex_discovered s)
    \<and> cache_ok (xe_lookup env) (ex_scope (snd (scoped_prior env job s)))"
proof -
  let ?st = "xe_settings env" and ?l = "xe_lookup env" and ?ty = "target_type_of job" and ?tv = "target_value_of job"
  let ?D = "ex_discovered s"
  obtain roots c1 where 1: "derived_scope_roots ?st ?l ?ty ?tv ?D (ex_scope s) = (roots, c1)" by fastforce
  have roots: "set roots = set (scope_roots env job ?D)" and c1: "cache_ok ?l c1"
    using 1 roots_from_stable [OF assms(1,2), of ?st ?tv "[]" ?D] assms(2)
    by (auto simp: derived_scope_roots_def scope_roots_def split: if_splits)
  obtain parts c2 where 2: "partition_from ?st ?l ?ty ?tv roots ?D c1 = (parts, c2)" by fastforce
  note p = partition_from_stable [OF assms(1) c1 2]
  have "in_scope ?st ?l ?ty ?tv roots = in_scope ?st ?l ?ty ?tv (scope_roots env job ?D)"
    by (rule in_scope_cong_extra [OF roots])
  then have "filter (\<lambda>f. in_scope ?st ?l ?ty ?tv roots (extract_host f)) ?D = filter (in_job_scope env job ?D) ?D"
    by (simp add: in_job_scope_def [abs_def])
  then show ?thesis
    using p assms(3) 1 2 by (simp add: scoped_prior_def partition_in_scope_def)
qed

lemma submit_frame:
  "ex_scope (snd (submit env sub s)) = ex_scope s \<and> ex_discovered (snd (submit env sub s)) = ex_discovered s"
  by (simp add: submit_def absorb_def note_refusal_def split: prod.split option.split)

lemma announced_frame: "ex_scope (announced env t s) = ex_scope s \<and> ex_discovered (announced env t s) = ex_discovered s"
  using submit_frame [of env _ "s\<lparr>ex_runs := Suc (ex_runs s)\<rparr>"] by (simp add: announced_def announce_start_def)

lemma resilient_scope: "ex_scope (submit_tool_result_resilient env name st sub s) = ex_scope s"
  using submit_frame [of env sub s]
  by (auto simp: submit_tool_result_resilient_def conclude_def split: prod.split)

lemma raw_output_scope: "ex_scope (snd (submit_raw_output env rid name raw st s)) = ex_scope s"
  using submit_frame [of env "EvidenceOf rid (ro_stdout raw) ''text/plain'' (Some name) None" s]
  by (auto simp: submit_raw_output_def split: prod.split)

lemma report_run_scope: "ex_scope (report_run env rid t started raw s) = ex_scope s"
proof -
  have "ex_scope (snd (capture_and_submit_screenshots env rid t raw st u)) = ex_scope u" for st u
    by (auto simp: capture_and_submit_screenshots_def Let_def split: prod.split option.split)
  then show ?thesis
    using raw_output_scope [of env rid "tl_name t" raw "run_status env t raw" s]
    by (auto simp: report_run_def resilient_scope split: prod.split)
qed

lemma run_tool_scope: "ex_scope (run_tool env job t s) = ex_scope (snd (scoped_prior env job (announced env t s)))"
  by (auto simp: run_tool_def announced_def tool_raised_def tool_returned_def resilient_scope report_run_scope Let_def
      split: prod.split sum.split)

text \<open>What a tool may be given: those findings of a list that are within the job's scope.\<close>

definition given_in_scope :: "('w, 'v) exec_env \<Rightarrow> wire_job \<Rightarrow> scope_finding list \<Rightarrow> bool" where
  "given_in_scope env job p \<longleftrightarrow> (\<exists>found. p = filter (in_job_scope env job found) found)"

lemma run_tools_scope:
  assumes "xe_reporting env" and "stable (xe_lookup env)" and "xe_enforce_scope env"
  shows "cache_ok (xe_lookup env) (ex_scope s) \<Longrightarrow> Ran n p \<in> set (ex_log (run_tools env job ts s)) \<Longrightarrow>
    Ran n p \<in> set (ex_log s) \<or> given_in_scope env job p"
proof (induction ts arbitrary: s)
  case (Cons t ts)
  obtain r s1 where r: "stop_reason env s = (r, s1)" by fastforce
  have s1: "ex_log s1 = ex_log s" "ex_scope s1 = ex_scope s"
    using stop_reason_log [of env s] r by (auto simp: stop_reason_def split: if_splits option.splits prod.splits)
  note sp = scoped_prior_scope [OF assms(2) _ assms(3), of "announced env t s1" job]
  have ok: "cache_ok (xe_lookup env) (ex_scope (run_tool env job t s1))"
    using sp Cons.prems(1) s1 by (simp add: run_tool_scope announced_frame)
  have given: "given_in_scope env job (fst (scoped_prior env job (announced env t s1)))"
    using sp Cons.prems(1) s1 by (auto simp: announced_frame given_in_scope_def)
  have one: "Ran n p \<in> set (ex_log s1) \<or> given_in_scope env job p" if "Ran n p \<in> set (ex_log (run_tool env job t s1))"
    using run_tool_log [OF assms(1), of job t s1] that given by auto
  show ?case
  proof (cases r)
    case (Some reason)
    with Cons.prems(2) r s1 show ?thesis by auto
  next
    case None
    show ?thesis
    proof (cases "applies_to t (target_type_of job)")
      case True
      with Cons.prems(2) r None have "Ran n p \<in> set (ex_log (run_tools env job ts (run_tool env job t s1)))" by simp
      from Cons.IH [OF ok this] one s1 show ?thesis by auto
    next
      case False
      with Cons.prems(2) r None have "Ran n p \<in> set (ex_log (run_tools env job ts s1))" by simp
      from Cons.IH [OF _ this] Cons.prems(1) s1 show ?thesis by auto
    qed
  qed
qed simp

end
