(* ===== verification/Executor_Properties.thy ===== *)
theory Executor_Properties
  imports Executor_Steps
begin

text \<open>
  The properties of the execution worker's pipeline (\<open>scanner_worker/executor.py\<close>), and an example: a job
  with three tools on a domain, a manager that accepts everything or has an outage, and a probe that
  stops the pipeline after a number of calls.
\<close>

section \<open>An example\<close>

definition ex_raw :: raw_output where
  "ex_raw = \<lparr>ro_command = ''tool'', ro_stdout = ''out'', ro_stderr = '''', ro_exit_code = 0, ro_timed_out = False\<rparr>"

definition ex_finding :: "string \<Rightarrow> scope_finding" where
  "ex_finding h = \<lparr>sf_host = Some h, sf_ip = None, sf_value = None\<rparr>"

definition ex_pipe :: "worker_exc option \<Rightarrow> (nat \<Rightarrow> (worker_exc + string option) \<times> nat) option \<Rightarrow> (nat, unit) exec_env" where
  "ex_pipe failure prb =
     \<lparr>xe_reporting = True, xe_submit = (\<lambda>sub w. (failure, Suc w)), xe_probe = prb,
      xe_run = (\<lambda>t v c p w. (Inr ex_raw, w)),
      xe_parse = (\<lambda>t raw. Some [ex_finding ''a.ex.org'', ex_finding ''other.net'']),
      xe_parse_vulns = (\<lambda>t raw. Some []), xe_hard_failure = (\<lambda>t raw. False), xe_benign = (\<lambda>t. []),
      xe_capture = (\<lambda>v w. (None, w)),
      xe_settings = \<lparr>st_allow_private = False, st_allowed_cidrs = [], st_scope_excludes = []\<rparr>,
      xe_enforce_scope = True, xe_lookup = (\<lambda>n h. Inr []), xe_uuid4 = (\<lambda>n. 100 + n), xe_now = int\<rparr>"

definition ex_wire :: wire_job where
  "ex_wire = \<lparr>wj_scan_id = Some ''s'', wj_workspace_id = Some ''w'', wj_execution_token = Some ''t'',
     wj_network_zone = Some ''public'', wj_site_id = None, wj_worker_id = None, wj_pool_id = None,
     wj_target = Some (Some ''domain'', Some ''ex.org''),
     wj_requested_modules = [''nmap'', ''httpx'', ''rm'', ''subfinder''], wj_config = [],
     wj_authorized_cidrs = [], wj_dns_servers = [], wj_required_egress_mode = None\<rparr>"

definition ex_scope0 :: scope_state where
  "ex_scope0 = \<lparr>sc_cache = None, sc_lookups = []\<rparr>"

text \<open>The probe answers \<open>revoked\<close> once four calls have been made.\<close>

definition ex_stopping :: "nat \<Rightarrow> (worker_exc + string option) \<times> nat" where
  "ex_stopping w = (Inr (if w < 4 then None else Some ''revoked''), Suc w)"

lemma runners_ex: "runners ex_wire = [SubfinderRunner, HttpxRunner, NmapRunner]"
  by code_simp

section \<open>Properties\<close>

lemma exec_pipeline:
  assumes "xe_reporting env"
  shows "pipeline job (runners job) (exec_start scope w) (snd (execute_leased_job env job scope w))"
  using run_tools_pipeline [OF assms, of job "runners job" "exec_start scope w"]
  by (auto simp: execute_leased_job_def Let_def pipeline_def applicable_def)

lemma exec_status:
  assumes "xe_reporting env"
  shows "fst (execute_leased_job env job scope w) =
    (let concl = conclusions (ex_log (snd (execute_leased_job env job scope w)))
     in leased_status (map (\<lambda>c. fst (snd c)) concl) (length (filter (\<lambda>c. \<not> snd (snd c)) concl)))"
proof (cases "runners job = []")
  case True
  then show ?thesis by (simp add: execute_leased_job_def exec_start_def leased_status_def)
next
  case False
  then show ?thesis
    using exec_pipeline [OF assms, of job scope w]
    by (auto simp: execute_leased_job_def Let_def pipeline_def exec_start_def)
qed

lemma leased_completed:
  "leased_status sts lost = ''completed'' \<longleftrightarrow> sts \<noteq> [] \<and> lost = 0 \<and> (\<forall>st \<in> set sts. st \<notin> {''failed'', ''partial''})"
  by (auto simp: leased_status_def list_ex_iff list_all_iff)




text \<open>
  C40: An outage costs no tool: while the manager's failures are not refusals and its probe does not say to
  stop, every applicable requested tool runs, whether or not anything could be reported.
\<close>
theorem outage_costs_no_tool:
  assumes "xe_reporting env" and "never_refuses env"
  shows "ran_tools (ex_log (snd (execute_leased_job env job scope w))) = applicable job (runners job)"
proof -
  obtain new where n: "ex_log (snd (execute_leased_job env job scope w)) = new"
      "stops new = [] \<longrightarrow> ran_tools new = applicable job (runners job)"
    using exec_pipeline [OF assms(1), of job scope w] by (auto simp: pipeline_def exec_start_def)
  have "stops new = []"
    using run_tools_no_stop [OF assms, of "exec_start scope w" job "runners job"] n(1)
    by (auto simp: execute_leased_job_def Let_def exec_start_def split: if_splits)
  with n show ?thesis by simp
qed

theorem outage_costs_no_tool_witness:
  "ran_tools (ex_log (snd (execute_leased_job (ex_pipe (Some (HttpExc 500)) None) ex_wire ex_scope0 0)))
     = applicable ex_wire (runners ex_wire)"
  by (rule outage_costs_no_tool)
    (simp_all add: ex_pipe_def never_refuses_def is_authoritative_refusal_def)

text \<open>
  The worker reports \<open>completed\<close> exactly when some tool ran, no run was concluded as failed or partial,
  and the manager took every result; whatever happens, it reports one of three outcomes.
\<close>
theorem completed_means_recorded:
  assumes "xe_reporting env"
  shows "let (st, s) = execute_leased_job env job scope w in
     (st = ''completed'' \<longleftrightarrow> ran_tools (ex_log s) \<noteq> []
        \<and> list_all (\<lambda>(n, outcome, persisted). outcome \<notin> {''failed'', ''partial''} \<and> persisted) (conclusions (ex_log s)))
     \<and> st \<in> {''completed'', ''completed_with_errors'', ''failed''}"
proof -
  obtain st s where e: "execute_leased_job env job scope w = (st, s)" by fastforce
  let ?c = "conclusions (ex_log s)"
  have "map fst ?c = ran_tools (ex_log s)"
    using exec_pipeline [OF assms, of job scope w] e by (auto simp: pipeline_def exec_start_def)
  then have ne: "?c = [] \<longleftrightarrow> ran_tools (ex_log s) = []" by (metis map_is_Nil_conv)
  have st: "st = leased_status (map (\<lambda>c. fst (snd c)) ?c) (length (filter (\<lambda>c. \<not> snd (snd c)) ?c))"
    using exec_status [OF assms, of job scope w] e by (simp add: Let_def)
  then have "st \<in> {''completed'', ''completed_with_errors'', ''failed''}" by (simp add: leased_status_def)
  moreover have "st = ''completed'' \<longleftrightarrow> ?c \<noteq> []
      \<and> list_all (\<lambda>(n, outcome, persisted). outcome \<notin> {''failed'', ''partial''} \<and> persisted) ?c"
    unfolding st leased_completed by (auto simp: filter_empty_conv list_all_iff)
  ultimately show ?thesis using e ne by simp
qed

theorem completed_means_recorded_witness:
  "let (st, s) = execute_leased_job (ex_pipe None None) ex_wire ex_scope0 0 in
     (st = ''completed'' \<longleftrightarrow> ran_tools (ex_log s) \<noteq> []
        \<and> list_all (\<lambda>(n, outcome, persisted). outcome \<notin> {''failed'', ''partial''} \<and> persisted) (conclusions (ex_log s)))
     \<and> st \<in> {''completed'', ''completed_with_errors'', ''failed''}"
  by (rule completed_means_recorded) (simp add: ex_pipe_def)

text \<open>
  With answers of the resolver that do not change and enforcement on, a tool is only given findings whose
  host is within the authorized scope of the job.
\<close>
theorem tools_stay_in_scope:
  assumes "xe_reporting env" and "stable (xe_lookup env)" and "xe_enforce_scope env" and "sc_cache scope = None"
    and "Ran n p \<in> set (ex_log (snd (execute_leased_job env job scope w)))"
  shows "\<exists>found. p = filter (in_job_scope env job found) found"
proof -
  have "cache_ok (xe_lookup env) (ex_scope (exec_start scope w))"
    using assms(4) by (simp add: cache_ok_def exec_start_def)
  from run_tools_scope [OF assms(1-3) this, of n p job "runners job"] assms(5) show ?thesis
    by (auto simp: execute_leased_job_def Let_def exec_start_def given_in_scope_def split: if_splits)
qed

theorem tools_stay_in_scope_witness:
  "\<exists>found. [ex_finding ''a.ex.org''] = filter (in_job_scope (ex_pipe None None) ex_wire found) found"
proof (rule tools_stay_in_scope)
  show "Ran ''httpx'' [ex_finding ''a.ex.org''] \<in> set (ex_log (snd (execute_leased_job (ex_pipe None None) ex_wire ex_scope0 0)))"
    by code_simp
qed (simp_all add: ex_pipe_def stable_def ex_scope0_def)

text \<open>
  The worker's aggregation of tool outcomes is that of the control plane's executor, lowered when a result
  was lost; but with no tool run at all the worker says \<open>failed\<close> where the control plane says \<open>completed\<close>.
\<close>
theorem planes_agree_on_status:
  "leased_status sts lost =
     (if sts = [] then ''failed''
      else if aggregate_status sts = ''completed'' \<and> lost \<noteq> 0 then ''completed_with_errors''
      else aggregate_status sts) \<and> aggregate_status [] = ''completed''"
  by (auto simp: leased_status_def aggregate_status_def)

text \<open>
  A pipeline that is stopped after some tools reports \<open>completed\<close> although the others never ran: here the
  probe revokes the execution after the first of three tools.
\<close>
theorem stopped_scan_reports_completed:
  "let (st, s) = execute_leased_job (ex_pipe None (Some ex_stopping)) ex_wire ex_scope0 0 in
     st = ''completed'' \<and> ran_tools (ex_log s) = [''subfinder''] \<and> stops (ex_log s) = [''revoked'']
     \<and> applicable ex_wire (runners ex_wire) = [''subfinder'', ''httpx'', ''nmap'']"
  by code_simp

end
