(* ===== verification/Lease_Loop.thy ===== *)
theory Lease_Loop
  imports Tool_Executor
begin

text \<open>
  The lease loop of the execution worker (\<open>scanner_worker/lease_loop.py\<close>): back-off, the reporting of a
  terminal state, one leased job from validation to its report, one poll, and the loop. The manager, the
  probes, the executor and the clock are parameters, called in the state of the world; the heartbeats that
  run beside a scan are part of what the executor does to the world. \<open>run\<close> is given for a number of
  iterations (\<open>max_iterations\<close>); the deployed loop has no bound.
\<close>

section \<open>The loop's surroundings and state\<close>

record 'w loop_env =
  le_identity :: worker_identity
  le_parse_uuid :: "string \<Rightarrow> uuid option"
  le_egress :: egress_settings
  le_handshake_setting :: "int option"
  le_tunnel_probe :: "('w \<Rightarrow> (string + tunnel_status) \<times> 'w) option"
  le_egress_probe :: "('w \<Rightarrow> (string + egress_status) \<times> 'w) option"
  le_executor :: "(wire_job \<Rightarrow> net_policy \<Rightarrow> 'w \<Rightarrow> (worker_exc + string) \<times> 'w) option"
  le_rechecks :: "wire_job \<Rightarrow> 'w \<Rightarrow> (string + egress_status) list"
     \<comment> \<open>what the watchdog observes before the scan would end\<close>
  le_cancelled :: "wire_job \<Rightarrow> 'w \<Rightarrow> 'w"
  le_lease :: "'w \<Rightarrow> (worker_exc + wire_job list) \<times> 'w"
  le_complete :: "wire_job \<Rightarrow> string \<Rightarrow> worker_exc option \<Rightarrow> 'w \<Rightarrow> (worker_exc + bool) \<times> 'w"
     \<comment> \<open>whether the manager accepted\<close>
  le_heartbeat :: "string \<times> int option \<times> health_detail option \<Rightarrow> 'w \<Rightarrow> worker_exc option \<times> 'w"
  le_uniform :: "nat \<Rightarrow> real \<Rightarrow> real"
     \<comment> \<open>the n-th draw from an interval that starts at 0\<close>
  le_monotonic :: "'w \<Rightarrow> real"
  le_stopping :: "'w \<Rightarrow> bool"
  le_base_seconds :: real
  le_max_seconds :: real
  le_idle_seconds :: real
  le_heartbeat_seconds :: real

record loop_stats =
  lst_leased :: nat
  lst_completed :: nat
  lst_failed :: nat
  lst_rejected :: nat
  lst_idle :: nat

record 'w loop =
  ll_world :: 'w
  ll_attempt :: nat
  ll_draws :: nat
  ll_sleeps :: "real list"
  ll_stats :: loop_stats
  ll_fatal :: "lease_reason option"
  ll_last_beat :: real

section \<open>Back-off\<close>

definition next_delay_bound :: "'w loop_env \<Rightarrow> nat \<Rightarrow> real" where
  "next_delay_bound env attempt = min (le_max_seconds env) (le_base_seconds env * 2 ^ attempt)"

definition sleep_backoff :: "'w loop_env \<Rightarrow> 'w loop \<Rightarrow> 'w loop" where
  "sleep_backoff env s =
     s\<lparr>ll_sleeps := ll_sleeps s @ [le_uniform env (ll_draws s) (next_delay_bound env (ll_attempt s))],
       ll_attempt := Suc (ll_attempt s), ll_draws := Suc (ll_draws s)\<rparr>"

definition reset_backoff :: "'w loop \<Rightarrow> 'w loop" where
  "reset_backoff s = s\<lparr>ll_attempt := 0\<rparr>"

section \<open>Reporting a terminal state\<close>

text \<open>\<open>left\<close> attempts remain; \<open>Inl\<close> for a \<open>LeaseError\<close> that is raised again.\<close>

fun complete_attempts ::
  "'w loop_env \<Rightarrow> wire_job \<Rightarrow> string \<Rightarrow> worker_exc option \<Rightarrow> nat \<Rightarrow> 'w loop \<Rightarrow> (worker_exc + bool) \<times> 'w loop" where
  "complete_attempts env job st reason 0 s = (Inr False, s)"
| "complete_attempts env job st reason (Suc left) s =
     (case le_complete env job st reason (ll_world s) of
        (Inl (LeaseErr r), w) \<Rightarrow>
          (if List.member [WORKER_AUTH_FAILED, MANAGER_REQUEST_REJECTED] r then Inr False else Inl (LeaseErr r),
           s\<lparr>ll_world := w\<rparr>)
      | (Inl e, w) \<Rightarrow>
          if left = 0 then (Inr False, s\<lparr>ll_world := w\<rparr>)
          else complete_attempts env job st reason left (sleep_backoff env (s\<lparr>ll_world := w\<rparr>))
      | (Inr accepted, w) \<Rightarrow>
          if \<not> accepted then (Inr False, s\<lparr>ll_world := w\<rparr>)
          else (Inr True, reset_backoff (s\<lparr>ll_world := w\<rparr>)))"

definition safe_complete ::
  "'w loop_env \<Rightarrow> wire_job \<Rightarrow> string \<Rightarrow> worker_exc option \<Rightarrow> 'w loop \<Rightarrow> (worker_exc + bool) \<times> 'w loop" where
  "safe_complete env job st reason s = complete_attempts env job st reason 3 s"

section \<open>One job\<close>

definition tunnel_gate :: "'w loop_env \<Rightarrow> wire_job \<Rightarrow> 'w \<Rightarrow> (gate_error + unit) \<times> 'w" where
  "tunnel_gate env job w =
     (if zone_of (wj_network_zone job) \<noteq> ''private'' then (preflight_private_job job None, w)
      else (case le_tunnel_probe env of
              None \<Rightarrow> (preflight_private_job job None, w)
            | Some prb \<Rightarrow> (let (obs, w1) = prb w in (preflight_private_job job (Some obs), w1))))"

definition egress_gate :: "'w loop_env \<Rightarrow> 'w \<Rightarrow> (gate_error + unit) \<times> 'w" where
  "egress_gate env w =
     (if \<not> is_vpn_egress (le_identity env) then (preflight_egress_job (le_egress env) (le_identity env) None, w)
      else (case le_egress_probe env of
              None \<Rightarrow> (preflight_egress_job (le_egress env) (le_identity env) None, w)
            | Some prb \<Rightarrow>
                (let (obs, w1) = prb w in (preflight_egress_job (le_egress env) (le_identity env) (Some obs), w1))))"

definition job_gates :: "'w loop_env \<Rightarrow> wire_job \<Rightarrow> 'w \<Rightarrow> (gate_error + unit) \<times> 'w" where
  "job_gates env job w =
     (case gate (validate_leased_job (le_parse_uuid env) job (le_identity env)) of
        Inl e \<Rightarrow> (Inl e, w)
      | Inr _ \<Rightarrow>
          (case tunnel_gate env job w of
             (Inl e, w1) \<Rightarrow> (Inl e, w1)
           | (Inr _, w1) \<Rightarrow> egress_gate env w1))"

fun watch_egress :: "egress_settings \<Rightarrow> (string + egress_status) list \<Rightarrow> worker_exc option" where
  "watch_egress eg [] = None"
| "watch_egress eg (obs # rest) = (case egress_watch eg obs of None \<Rightarrow> watch_egress eg rest | Some e \<Rightarrow> Some e)"

definition execute_under_watch ::
  "'w loop_env \<Rightarrow> wire_job \<Rightarrow> net_policy \<Rightarrow> 'w \<Rightarrow> (worker_exc + string) \<times> 'w" where
  "execute_under_watch env job policy w =
     (case le_executor env of
        None \<Rightarrow> (Inl (LeaseErr NO_EXECUTOR), w)
      | Some execute \<Rightarrow>
          if is_vpn_egress (le_identity env) \<and> le_egress_probe env \<noteq> None
          then (case watch_egress (le_egress env) (le_rechecks env job w) of
                  None \<Rightarrow> execute job policy w
                | Some e \<Rightarrow> (Inl e, le_cancelled env job w))
          else execute job policy w)"

definition bump :: "(loop_stats \<Rightarrow> loop_stats) \<Rightarrow> 'w loop \<Rightarrow> 'w loop" where
  "bump f s = s\<lparr>ll_stats := f (ll_stats s)\<rparr>"

definition is_completed :: "string \<Rightarrow> bool" where
  "is_completed st = List.member [''completed'', ''completed_with_errors''] st"

text \<open>The terminal report of an executed job, and the counters.\<close>

definition report_outcome ::
  "'w loop_env \<Rightarrow> wire_job \<Rightarrow> worker_exc + string \<Rightarrow> 'w loop \<Rightarrow> worker_exc option \<times> 'w loop" where
  "report_outcome env job outcome s =
     (let st = (case outcome of Inl _ \<Rightarrow> ''failed'' | Inr x \<Rightarrow> x);
          reason = (case outcome of Inl e \<Rightarrow> Some e | Inr _ \<Rightarrow> None)
      in (case safe_complete env job st reason s of
            (Inl e, s1) \<Rightarrow> (Some e, s1)
          | (Inr accepted, s1) \<Rightarrow>
              (None,
               if accepted \<and> is_completed st then bump (\<lambda>t. t\<lparr>lst_completed := Suc (lst_completed t)\<rparr>) s1
               else if \<not> is_completed st then bump (\<lambda>t. t\<lparr>lst_failed := Suc (lst_failed t)\<rparr>) s1
               else s1)))"

text \<open>The first component is an exception that leaves the handler.\<close>

definition handle_job :: "'w loop_env \<Rightarrow> wire_job \<Rightarrow> 'w loop \<Rightarrow> worker_exc option \<times> 'w loop" where
  "handle_job env job s =
     (case job_gates env job (ll_world s) of
        (Inl (Refused r), w) \<Rightarrow>
          (case safe_complete env job ''failed'' (Some (LeaseErr r))
                  (bump (\<lambda>t. t\<lparr>lst_rejected := Suc (lst_rejected t)\<rparr>) (s\<lparr>ll_world := w\<rparr>)) of
             (Inl e, s1) \<Rightarrow> (Some e, s1)
           | (Inr _, s1) \<Rightarrow> (None, s1))
      | (Inl (Escaped e), w) \<Rightarrow> (Some (OtherExc e), s\<lparr>ll_world := w\<rparr>)
      | (Inr _, w) \<Rightarrow>
          (case build_policy_for_job (le_parse_uuid env) job of
             None \<Rightarrow> (Some (OtherExc ''ValueError''), s\<lparr>ll_world := w\<rparr>)
           | Some policy \<Rightarrow>
               (let (outcome, w1) = execute_under_watch env job policy w
                in report_outcome env job outcome (s\<lparr>ll_world := w1\<rparr>))))"

section \<open>One poll\<close>

fun handle_jobs :: "'w loop_env \<Rightarrow> wire_job list \<Rightarrow> 'w loop \<Rightarrow> worker_exc option \<times> 'w loop" where
  "handle_jobs env [] s = (None, s)"
| "handle_jobs env (job # jobs) s =
     (case handle_job env job s of (Some e, s1) \<Rightarrow> (Some e, s1) | (None, s1) \<Rightarrow> handle_jobs env jobs s1)"

definition run_once :: "'w loop_env \<Rightarrow> 'w loop \<Rightarrow> (worker_exc + nat) \<times> 'w loop" where
  "run_once env s =
     (case le_lease env (ll_world s) of
        (Inl e, w) \<Rightarrow> (Inl e, s\<lparr>ll_world := w\<rparr>)
      | (Inr jobs, w) \<Rightarrow>
          if jobs = [] then (Inr 0, bump (\<lambda>t. t\<lparr>lst_idle := Suc (lst_idle t)\<rparr>) (s\<lparr>ll_world := w\<rparr>))
          else (case handle_jobs env jobs
                       (bump (\<lambda>t. t\<lparr>lst_leased := lst_leased t + length jobs\<rparr>) (s\<lparr>ll_world := w\<rparr>)) of
                  (Some e, s1) \<Rightarrow> (Inl e, s1)
                | (None, s1) \<Rightarrow> (Inr (length jobs), s1)))"

section \<open>The loop\<close>

definition observe :: "'w loop_env \<Rightarrow> 'w \<Rightarrow> (string \<times> int option \<times> health_detail option) \<times> 'w" where
  "observe env w =
     (case le_tunnel_probe env of
        None \<Rightarrow> (observe_tunnel_health (le_identity env) (le_handshake_setting env) None, w)
      | Some prb \<Rightarrow>
          if \<not> is_private_worker (le_identity env)
          then (observe_tunnel_health (le_identity env) (le_handshake_setting env) None, w)
          else (let (obs, w1) = prb w
                in (observe_tunnel_health (le_identity env) (le_handshake_setting env) (Some obs), w1)))"

text \<open>Every error of the report is swallowed.\<close>

definition report_health :: "'w loop_env \<Rightarrow> 'w loop \<Rightarrow> 'w loop" where
  "report_health env s =
     (let (health, w) = observe env (ll_world s) in s\<lparr>ll_world := snd (le_heartbeat env health w)\<rparr>)"

definition beat_if_due :: "'w loop_env \<Rightarrow> 'w loop \<Rightarrow> 'w loop" where
  "beat_if_due env s =
     (if le_heartbeat_seconds env \<le> le_monotonic env (ll_world s) - ll_last_beat s
      then report_health env (s\<lparr>ll_last_beat := le_monotonic env (ll_world s)\<rparr>) else s)"

text \<open>One iteration, and whether the loop goes on.\<close>

definition iteration :: "'w loop_env \<Rightarrow> 'w loop \<Rightarrow> bool \<times> 'w loop" where
  "iteration env s =
     (case run_once env s of
        (Inl (LeaseErr r), s1) \<Rightarrow>
          if r = WORKER_AUTH_FAILED then (False, s1\<lparr>ll_fatal := Some r\<rparr>) else (True, sleep_backoff env s1)
      | (Inl e, s1) \<Rightarrow> (True, sleep_backoff env s1)
      | (Inr handled, s1) \<Rightarrow>
          (let s2 = beat_if_due env (reset_backoff s1) in
           (True, if handled = 0 then s2\<lparr>ll_sleeps := ll_sleeps s2 @ [le_idle_seconds env]\<rparr> else s2)))"

fun run_iterations :: "'w loop_env \<Rightarrow> nat \<Rightarrow> 'w loop \<Rightarrow> 'w loop" where
  "run_iterations env 0 s = s"
| "run_iterations env (Suc n) s =
     (if le_stopping env (ll_world s) then s
      else (case iteration env s of (False, s1) \<Rightarrow> s1 | (True, s1) \<Rightarrow> run_iterations env n s1))"

definition loop_start :: "'w \<Rightarrow> 'w loop" where
  "loop_start w =
     \<lparr>ll_world = w, ll_attempt = 0, ll_draws = 0, ll_sleeps = [],
      ll_stats = \<lparr>lst_leased = 0, lst_completed = 0, lst_failed = 0, lst_rejected = 0, lst_idle = 0\<rparr>,
      ll_fatal = None, ll_last_beat = 0\<rparr>"

definition run :: "'w loop_env \<Rightarrow> nat \<Rightarrow> 'w \<Rightarrow> 'w loop" where
  "run env max_iterations w =
     (let s = report_health env (loop_start w) in
      run_iterations env max_iterations (s\<lparr>ll_last_beat := le_monotonic env (ll_world s)\<rparr>))"

end
