(* ===== verification/Tunnel_Properties.thy ===== *)
theory Tunnel_Properties
  imports Leased_Job
begin

text \<open>
  What the tunnels of a worker guarantee for a scan that passes the gates of \<open>lease_loop.py\<close>: that a private
  scan reaches everything it may reach through the site's tunnel, and that a scan which must leave over the VPN
  does (\<open>wireguard.py\<close>, \<open>vpn_egress.py\<close>).
\<close>

section \<open>The private tunnel\<close>

lemma parse_net_Nil: "parse_net [] = None"
  by code_simp

lemma parse_cidrs_from_set:
  "set (parse_cidrs_from nets cs) = set nets \<union> {n. \<exists>c \<in> set cs. parse_net (py_strip c) = Some n}"
proof (induction nets cs rule: parse_cidrs_from.induct)
  case (2 nets raw rest)
  show ?case
  proof (cases "parse_net (py_strip raw)")
    case None
    with 2 show ?thesis by (auto simp: Let_def)
  next
    case (Some net)
    then have "py_strip raw \<noteq> []" using parse_net_Nil by auto
    with 2 Some show ?thesis by (auto simp: Let_def)
  qed
qed simp

lemma policy_for_private_job:
  assumes "build_policy_for_job pu job = Some p" and "zone_of (wj_network_zone job) = ''private''"
  shows "allows_private_ip p ip \<longleftrightarrow> (\<exists>c \<in> set (wj_authorized_cidrs job). \<exists>n. parse_net (py_strip c) = Some n \<and> in_net ip n)"
proof -
  have p: "np_network_zone p = ''private''" "np_authorized_cidrs p = parse_cidrs (wj_authorized_cidrs job)"
    using assms by (auto simp: build_policy_for_job_def Option.bind_eq_Some_conv)
  then show ?thesis
    using in_net_version [of ip]
    by (auto simp: allows_private_ip_def is_private_policy_def list_ex_iff parse_cidrs_def parse_cidrs_from_set)
qed

text \<open>
  C24: A private scan starts only with every address that its policy permits routed by a tunnel that is up, with a
  handshake of the last three minutes, and through a route that is not a default route.
\<close>
theorem private_scan_fully_tunnelled:
  assumes "preflight_private_job job prb = Inr ()" and "zone_of (wj_network_zone job) = ''private''"
    and "build_policy_for_job pu job = Some p" and "allows_private_ip p ip"
  shows "\<exists>status age net. prb = Some (Inr status) \<and> ts_interface_up status \<and> ts_handshake_age status = Some age
    \<and> age \<le> 180 \<and> RouteNet net \<in> set (ts_routes status) \<and> in_net ip net \<and> prefixlen net \<noteq> 0"
proof -
  from assms(1,2) obtain status where s: "prb = Some (Inr status)"
      "assert_tunnel_healthy status (build_allowed_ips (wj_authorized_cidrs job)) DEFAULT_MAX_HANDSHAKE_AGE_S True = Inr ()"
    unfolding preflight_private_job_iff by blast
  from s(2) obtain age nets where h: "ts_interface_up status" "ts_handshake_age status = Some age" "age \<le> 180"
      "build_allowed_ips (wj_authorized_cidrs job) = Inr nets" "\<forall>n \<in> set nets. RouteNet n \<in> set (ts_routes status)"
    unfolding assert_tunnel_healthy_iff DEFAULT_MAX_HANDSHAKE_AGE_S_def by blast
  from assms(4) obtain c n where n: "c \<in> set (wj_authorized_cidrs job)" "parse_net (py_strip c) = Some n" "in_net ip n"
    unfolding policy_for_private_job [OF assms(3,2)] by blast
  then have "n \<in> set nets" using build_allowed_ips_Inr(4) [OF h(4)] by blast
  then have "RouteNet n \<in> set (ts_routes status)" "prefixlen n \<noteq> 0"
    using h(5) build_allowed_ips_Inr(3) [OF h(4)] by blast+
  with s(1) h(1-3) n(3) show ?thesis by blast
qed

definition ex_private_wire :: wire_job where
  "ex_private_wire = \<lparr>wj_scan_id = None, wj_workspace_id = None, wj_execution_token = Some ''t'',
     wj_network_zone = Some ''private'', wj_site_id = Some ''s'', wj_worker_id = None, wj_pool_id = None,
     wj_target = Some (Some ''ip_range'', Some ''10.1.2.0/24''), wj_requested_modules = [], wj_config = [],
     wj_authorized_cidrs = ['' 10.1.2.0/24''], wj_dns_servers = [], wj_required_egress_mode = None\<rparr>"

definition ex_tunnel :: "int \<Rightarrow> tunnel_status" where
  "ex_tunnel age = \<lparr>ts_interface_up = True, ts_handshake_age = Some age, ts_routes = [RouteNet (Net4 (ip4 10 1 2 0) 24)],
     ts_dns_ok = True, ts_peer_reachable = True, ts_detail = None, ts_mtu = None\<rparr>"

theorem private_scan_fully_tunnelled_witness:
  "\<exists>status age net. Some (Inr (ex_tunnel 20)) = Some (Inr status :: string + tunnel_status) \<and> ts_interface_up status
    \<and> ts_handshake_age status = Some age \<and> age \<le> 180 \<and> RouteNet net \<in> set (ts_routes status)
    \<and> in_net (V4 (ip4 10 1 2 3)) net \<and> prefixlen net \<noteq> 0"
proof (rule private_scan_fully_tunnelled)
  show "preflight_private_job ex_private_wire (Some (Inr (ex_tunnel 20))) = Inr ()" by code_simp
  show "build_policy_for_job (\<lambda>s. Some 7) ex_private_wire = Some (the (build_policy_for_job (\<lambda>s. Some 7) ex_private_wire))"
    by code_simp
  show "allows_private_ip (the (build_policy_for_job (\<lambda>s. Some 7) ex_private_wire)) (V4 (ip4 10 1 2 3))" by code_simp
  show "zone_of (wj_network_zone ex_private_wire) = ''private''" by code_simp
qed

text \<open>
  The tunnel that is configured for a site carries exactly the addresses of its authorized CIDRs: none is a
  default route, none is lost to normalization, and the configuration can be rendered.
\<close>
theorem tunnel_carries_exactly_the_site:
  assumes "describe_config site cidrs peer host port dns address keepalive = Inr c" and "key \<noteq> []"
  shows "(list_ex (in_net ip) (tc_allowed_ips c) \<longleftrightarrow>
            list_ex (\<lambda>x. case parse_net (py_strip x) of None \<Rightarrow> False | Some n \<Rightarrow> in_net ip n) cidrs)
    \<and> list_all (\<lambda>n. prefixlen n \<noteq> 0 \<and> wf_net n) (tc_allowed_ips c) \<and> is_ok (render_worker_config c key)"
proof -
  have b: "build_allowed_ips cidrs = Inr (tc_allowed_ips c)"
    using assms(1) by (auto simp: describe_config_def res_bind_Inr_iff)
  note B = build_allowed_ips_Inr [OF b]
  have "\<not> has_default_route c" using B(3) by (auto simp: has_default_route_def list_ex_iff)
  then have "is_ok (render_worker_config c key)" using assms(2) by (simp add: render_worker_config_def)
  moreover have "list_ex (in_net ip) (tc_allowed_ips c) \<longleftrightarrow>
      list_ex (\<lambda>x. case parse_net (py_strip x) of None \<Rightarrow> False | Some n \<Rightarrow> in_net ip n) cidrs"
    unfolding list_ex_iff B(4) by (auto split: option.splits)
  ultimately show ?thesis using B(3) by (simp add: list_all_iff)
qed

theorem tunnel_carries_exactly_the_site_witness:
  "\<exists>c. describe_config ''s'' [''10.1.2.9/24'', '' '', ''10.1.2.0/24''] None None None [] None None = Inr c
    \<and> (list_ex (in_net (V4 (ip4 10 1 2 3))) (tc_allowed_ips c) \<longleftrightarrow>
         list_ex (\<lambda>x. case parse_net (py_strip x) of None \<Rightarrow> False | Some n \<Rightarrow> in_net (V4 (ip4 10 1 2 3)) n)
           [''10.1.2.9/24'', '' '', ''10.1.2.0/24''])
    \<and> list_all (\<lambda>n. prefixlen n \<noteq> 0 \<and> wf_net n) (tc_allowed_ips c) \<and> is_ok (render_worker_config c ''k'')"
proof -
  have "is_ok (describe_config ''s'' [''10.1.2.9/24'', '' '', ''10.1.2.0/24''] None None None [] None None)" by code_simp
  then obtain c where c: "describe_config ''s'' [''10.1.2.9/24'', '' '', ''10.1.2.0/24''] None None None [] None None = Inr c"
    by (auto simp: is_ok_iff)
  from tunnel_carries_exactly_the_site [OF c, of "''k''" "V4 (ip4 10 1 2 3)"] c show ?thesis by blast
qed

text \<open>
  The heartbeat and the gate of a private job judge the same tunnel by different limits when the setting is
  not the default: with a handshake older than 180 seconds and within the setting, the worker reports itself
  healthy and refuses every private job.
\<close>
theorem healthy_worker_refuses_jobs:
  assumes "is_private_worker identity" and "zone_of (wj_network_zone job) = ''private''"
    and "180 < age" and "age \<le> limit"
  shows "fst (observe_tunnel_health identity (Some limit) (Some (Inr (ex_tunnel age)))) = ''healthy''
    \<and> preflight_private_job job (Some (Inr (ex_tunnel age))) = Inl (Refused (TunnelReason HANDSHAKE_STALE))"
proof -
  have "collect_allowed [] (map route_entry (ts_routes (ex_tunnel age))) = Inr [Net4 (ip4 10 1 2 0) 24]"
    by (simp add: ex_tunnel_def allowed_net_def)
  then show ?thesis
    using assms
    by (simp add: observe_tunnel_health_def preflight_private_job_def tunnel_preflight_def assert_tunnel_healthy_def
        routes_present_def max_handshake_age_s_def DEFAULT_MAX_HANDSHAKE_AGE_S_def ex_tunnel_def)
qed

definition ex_identity :: worker_identity where
  "ex_identity = \<lparr>wi_worker_id = ''w'', wi_pool_id = ''p'', wi_site_id = Some ''s'', wi_manager_url = '''',
     wi_token = '''', wi_egress_mode = ''direct''\<rparr>"

theorem healthy_worker_refuses_jobs_witness:
  "fst (observe_tunnel_health ex_identity (Some 300) (Some (Inr (ex_tunnel 200)))) = ''healthy''
    \<and> preflight_private_job ex_private_wire (Some (Inr (ex_tunnel 200))) = Inl (Refused (TunnelReason HANDSHAKE_STALE))"
  by (rule healthy_worker_refuses_jobs)
    (simp_all add: ex_identity_def is_private_worker_def ex_private_wire_def zone_of_def)

section \<open>The egress tunnel\<close>

lemma assert_exit_ip_iff:
  "assert_exit_ip status expected forbidden limit = Inr () \<longleftrightarrow>
     (\<exists>ip. es_observed_exit_ip status = Some ip \<and> ip \<noteq> [] \<and> \<not> older_than limit (es_exit_ip_age status)
        \<and> (truthy expected \<longrightarrow> py_strip ip = py_strip (or_empty expected))
        \<and> py_strip ip \<notin> py_strip ` set forbidden)"
  by (cases "es_observed_exit_ip status") (auto simp: assert_exit_ip_def Let_def)

lemma egress_verdict_iff:
  "egress_verdict eg status = Inr status' \<longleftrightarrow> status' = status
     \<and> assert_egress_healthy status (if truthy (eg_expected_exit_ip eg) then eg_expected_exit_ip eg else None)
         (eg_forbidden_exit_ips eg) (eg_max_handshake_age_s eg) DEFAULT_MAX_EXIT_IP_AGE_S True = Inr ()"
  by (auto simp: egress_verdict_def egress_preflight_def res_bind_Inr_iff)

text \<open>
  A worker that must egress over the VPN starts a scan only when it has observed, over a tunnel with its route, rule
  and kill switch in place and the control path untouched, an exit address that is the pinned one, if any is
  pinned, and none of the platform's own.
\<close>
theorem vpn_scan_leaves_from_the_exit:
  assumes "is_vpn_egress identity"
  shows "preflight_egress_job eg identity prb = Inr () \<longleftrightarrow>
    (\<exists>status ip age. prb = Some (Inr status) \<and> es_interface_up status
       \<and> es_handshake_age status = Some age \<and> age \<le> eg_max_handshake_age_s eg
       \<and> es_default_route_in_table status \<and> es_policy_rule_present status \<and> es_main_table_untouched status
       \<and> es_killswitch_active status \<and> es_observed_exit_ip status = Some ip \<and> ip \<noteq> []
       \<and> \<not> older_than 120 (es_exit_ip_age status)
       \<and> (if truthy (eg_expected_exit_ip eg) then py_strip ip = py_strip (or_empty (eg_expected_exit_ip eg)) else True)
       \<and> py_strip ip \<notin> py_strip ` set (eg_forbidden_exit_ips eg))"
  using assms
  by (auto simp: preflight_egress_job_iff egress_verdict_iff assert_egress_healthy_iff assert_exit_ip_iff
      DEFAULT_MAX_EXIT_IP_AGE_S_def)

definition ex_vpn_identity :: worker_identity where
  "ex_vpn_identity = ex_identity\<lparr>wi_site_id := None, wi_egress_mode := '' VPN''\<rparr>"

definition ex_egress :: egress_settings where
  "ex_egress = \<lparr>eg_expected_exit_ip = None, eg_forbidden_exit_ips = [''8.8.8.8''], eg_max_handshake_age_s = 180\<rparr>"

theorem vpn_scan_leaves_from_the_exit_witness:
  "preflight_egress_job ex_egress ex_vpn_identity None = Inr () \<longleftrightarrow>
    (\<exists>status ip age. None = Some (Inr status :: string + egress_status) \<and> es_interface_up status
       \<and> es_handshake_age status = Some age \<and> age \<le> eg_max_handshake_age_s ex_egress
       \<and> es_default_route_in_table status \<and> es_policy_rule_present status \<and> es_main_table_untouched status
       \<and> es_killswitch_active status \<and> es_observed_exit_ip status = Some ip \<and> ip \<noteq> []
       \<and> \<not> older_than 120 (es_exit_ip_age status)
       \<and> (if truthy (eg_expected_exit_ip ex_egress) then py_strip ip = py_strip (or_empty (eg_expected_exit_ip ex_egress)) else True)
       \<and> py_strip ip \<notin> py_strip ` set (eg_forbidden_exit_ips ex_egress))"
proof (rule vpn_scan_leaves_from_the_exit)
  show "is_vpn_egress ex_vpn_identity" by code_simp
qed

end
