(* ===== verification/Lease_Properties.thy ===== *)
theory Lease_Properties
  imports Lease_Loop Tunnel_Properties Manager_Properties
begin

text \<open>
  Properties of the lease loop: a terminal state is reported in at most three attempts and never again after
  a verdict, a scan that lost its egress path is never reported completed, the loop's counters and waits are bounded, and
  how the jobs that the manager hands out fare with the worker's own checks.
\<close>

section \<open>Reporting a terminal state\<close>

text \<open>The n-th call of \<open>complete\<close> when nothing else happens in between.\<close>

fun nth_complete :: "'w loop_env \<Rightarrow> wire_job \<Rightarrow> string \<Rightarrow> worker_exc option \<Rightarrow> nat \<Rightarrow> 'w \<Rightarrow> (worker_exc + bool) \<times> 'w" where
  "nth_complete env job st reason 0 w = le_complete env job st reason w"
| "nth_complete env job st reason (Suc n) w = nth_complete env job st reason n (snd (le_complete env job st reason w))"

definition is_transport_failure :: "worker_exc + bool \<Rightarrow> bool" where
  "is_transport_failure r = (case r of Inl (LeaseErr _) \<Rightarrow> False | Inl _ \<Rightarrow> True | Inr _ \<Rightarrow> False)"

text \<open>What a reply makes of the report.\<close>

definition completion_verdict :: "worker_exc + bool \<Rightarrow> worker_exc + bool" where
  "completion_verdict r =
     (case r of
        Inl (LeaseErr e) \<Rightarrow> if e \<in> {WORKER_AUTH_FAILED, MANAGER_REQUEST_REJECTED} then Inr False else r
      | Inl _ \<Rightarrow> Inr False
      | Inr accepted \<Rightarrow> Inr accepted)"

lemma sleep_backoff_simps [simp]:
  "ll_world (sleep_backoff env s) = ll_world s" "length (ll_sleeps (sleep_backoff env s)) = Suc (length (ll_sleeps s))"
  "ll_stats (sleep_backoff env s) = ll_stats s" "ll_fatal (sleep_backoff env s) = ll_fatal s"
  by (simp_all add: sleep_backoff_def)

lemma reset_backoff_simps [simp]:
  "ll_world (reset_backoff s) = ll_world s" "ll_sleeps (reset_backoff s) = ll_sleeps s"
  "ll_stats (reset_backoff s) = ll_stats s" "ll_fatal (reset_backoff s) = ll_fatal s"
  by (simp_all add: reset_backoff_def)

text \<open>The report after \<open>n\<close> transport failures: the verdict of the next reply, or none if attempts ran out.\<close>

definition reported_after ::
  "'w loop_env \<Rightarrow> wire_job \<Rightarrow> string \<Rightarrow> worker_exc option \<Rightarrow> nat \<Rightarrow> nat \<Rightarrow> 'w loop \<Rightarrow> (worker_exc + bool) \<times> 'w loop \<Rightarrow> bool" where
  "reported_after env job st reason left n s res \<longleftrightarrow>
     n \<le> left \<and> (\<forall>i<n. is_transport_failure (fst (nth_complete env job st reason i (ll_world s))))
     \<and> (n < left \<longrightarrow> \<not> is_transport_failure (fst (nth_complete env job st reason n (ll_world s))))
     \<and> fst res = completion_verdict (fst (nth_complete env job st reason n (ll_world s)))
     \<and> ll_world (snd res) = snd (nth_complete env job st reason n (ll_world s))
     \<and> length (ll_sleeps (snd res)) = length (ll_sleeps s) + n
     \<and> ll_stats (snd res) = ll_stats s \<and> ll_fatal (snd res) = ll_fatal s"

lemma complete_attempts_spec:
  "\<exists>n. reported_after env job st reason left n s (complete_attempts env job st reason (Suc left) s)"
proof (induction left arbitrary: s)
  case 0
  obtain r w where r: "le_complete env job st reason (ll_world s) = (r, w)" by fastforce
  have "reported_after env job st reason 0 0 s (complete_attempts env job st reason (Suc 0) s)"
    by (auto simp: reported_after_def r completion_verdict_def split: sum.split worker_exc.split)
  then show ?case by blast
next
  case (Suc left)
  obtain r w where r: "le_complete env job st reason (ll_world s) = (r, w)" by fastforce
  show ?case
  proof (cases "is_transport_failure r")
    case True
    let ?s = "sleep_backoff env (s\<lparr>ll_world := w\<rparr>)"
    have e: "complete_attempts env job st reason (Suc (Suc left)) s = complete_attempts env job st reason (Suc left) ?s"
      using True r by (auto simp: is_transport_failure_def split: sum.splits worker_exc.splits)
    from Suc.IH [of ?s] obtain n where
      n: "reported_after env job st reason left n ?s (complete_attempts env job st reason (Suc left) ?s)" by blast
    have all: "\<forall>i<Suc n. is_transport_failure (fst (nth_complete env job st reason i (ll_world s)))"
    proof (intro allI impI)
      fix i assume "i < Suc n"
      then show "is_transport_failure (fst (nth_complete env job st reason i (ll_world s)))"
        using n True r by (cases i) (auto simp: reported_after_def)
    qed
    have "reported_after env job st reason (Suc left) (Suc n) s (complete_attempts env job st reason (Suc (Suc left)) s)"
      using n all unfolding e reported_after_def by (simp add: r)
    then show ?thesis by blast
  next
    case False
    then have "reported_after env job st reason (Suc left) 0 s (complete_attempts env job st reason (Suc (Suc left)) s)"
      by (auto simp: reported_after_def r completion_verdict_def is_transport_failure_def
          split: sum.split worker_exc.split sum.splits worker_exc.splits)
    then show ?thesis by blast
  qed
qed

lemma safe_complete_spec:
  "\<exists>n \<le> 2. reported_after env job st reason 2 n s (safe_complete env job st reason s)"
  using complete_attempts_spec [of env job st reason 2 s]
  by (auto simp: safe_complete_def numeral_3_eq_3 numeral_2_eq_2 reported_after_def)

text \<open>
  C37: Reporting the end of a scan makes at most three requests: it goes on only after transport failures, and
  the last reply decides. The scan counts as reported only if the manager accepted it, and a refusal of the
  worker or of the request is not retried.
\<close>
theorem completion_report_bounded:
  "\<exists>n \<le> 2. (let (r, s') = safe_complete env job st reason s; reply = fst (nth_complete env job st reason n (ll_world s))
     in list_all (\<lambda>i. is_transport_failure (fst (nth_complete env job st reason i (ll_world s)))) [0..<n]
      \<and> (n = 2 \<or> is_transport_failure reply = False)
      \<and> r = completion_verdict reply \<and> ll_world s' = snd (nth_complete env job st reason n (ll_world s))
      \<and> length (ll_sleeps s') = length (ll_sleeps s) + n)"
proof -
  obtain r s' where e: "safe_complete env job st reason s = (r, s')" by fastforce
  from safe_complete_spec [of env job st reason s] obtain n where "n \<le> 2"
      "reported_after env job st reason 2 n s (r, s')" by (auto simp: e)
  then show ?thesis
    by (intro exI [of _ n]) (auto simp: e reported_after_def list_all_iff)
qed

section \<open>The loop's accounts\<close>

text \<open>Every leased job is counted at most once; the worker stops for good only on a refused identity.\<close>

definition settled :: "loop_stats \<Rightarrow> nat" where
  "settled t = lst_completed t + lst_failed t + lst_rejected t"

lemma safe_complete_keeps:
  "ll_stats (snd (safe_complete env job st reason s)) = ll_stats s"
  "ll_fatal (snd (safe_complete env job st reason s)) = ll_fatal s"
  using safe_complete_spec [of env job st reason s] by (auto simp: reported_after_def)

lemma report_outcome_keeps:
  "settled (ll_stats (snd (report_outcome env job outcome s))) \<le> Suc (settled (ll_stats s))
   \<and> lst_leased (ll_stats (snd (report_outcome env job outcome s))) = lst_leased (ll_stats s)
   \<and> ll_fatal (snd (report_outcome env job outcome s)) = ll_fatal s"
proof -
  let ?st = "case outcome of Inl _ \<Rightarrow> ''failed'' | Inr x \<Rightarrow> x" and ?reason = "case outcome of Inl e \<Rightarrow> Some e | Inr _ \<Rightarrow> None"
  obtain r s1 where "safe_complete env job ?st ?reason s = (r, s1)" by fastforce
  then show ?thesis
    using safe_complete_keeps [of env job ?st ?reason s]
    by (cases r) (auto simp: report_outcome_def Let_def bump_def settled_def)
qed

lemma handle_job_keeps:
  "settled (ll_stats (snd (handle_job env job s))) \<le> Suc (settled (ll_stats s))
   \<and> lst_leased (ll_stats (snd (handle_job env job s))) = lst_leased (ll_stats s)
   \<and> ll_fatal (snd (handle_job env job s)) = ll_fatal s"
proof -
  obtain g w where g: "job_gates env job (ll_world s) = (g, w)" by fastforce
  show ?thesis
  proof (cases g)
    case (Inl e)
    show ?thesis
    proof (cases e)
      case (Refused r)
      let ?b = "bump (\<lambda>t. t\<lparr>lst_rejected := Suc (lst_rejected t)\<rparr>) (s\<lparr>ll_world := w\<rparr>)"
      obtain x s1 where x: "safe_complete env job ''failed'' (Some (LeaseErr r)) ?b = (x, s1)" by fastforce
      then show ?thesis
        using safe_complete_keeps [of env job "''failed''" "Some (LeaseErr r)" ?b] g Inl Refused
        by (cases x) (auto simp: handle_job_def bump_def settled_def)
    next
      case (Escaped m)
      with g Inl show ?thesis by (simp add: handle_job_def)
    qed
  next
    case (Inr u)
    show ?thesis
    proof (cases "build_policy_for_job (le_parse_uuid env) job")
      case None
      with g Inr show ?thesis by (simp add: handle_job_def)
    next
      case (Some p)
      obtain o1 w1 where "execute_under_watch env job p w = (o1, w1)" by fastforce
      with g Inr Some show ?thesis
        using report_outcome_keeps [of env job o1 "s\<lparr>ll_world := w1\<rparr>"] by (simp add: handle_job_def)
    qed
  qed
qed

lemma handle_jobs_keeps:
  "settled (ll_stats (snd (handle_jobs env jobs s))) \<le> settled (ll_stats s) + length jobs
   \<and> lst_leased (ll_stats (snd (handle_jobs env jobs s))) = lst_leased (ll_stats s)
   \<and> ll_fatal (snd (handle_jobs env jobs s)) = ll_fatal s"
proof (induction jobs arbitrary: s)
  case (Cons job jobs)
  obtain e s1 where e: "handle_job env job s = (e, s1)" by fastforce
  then show ?case
    using handle_job_keeps [of env job s] Cons.IH [of s1] by (cases e) auto
qed simp

definition accounts_ok :: "'w loop \<Rightarrow> bool" where
  "accounts_ok s \<longleftrightarrow> settled (ll_stats s) \<le> lst_leased (ll_stats s) \<and> ll_fatal s \<in> {None, Some WORKER_AUTH_FAILED}"

lemma run_once_accounts:
  assumes "accounts_ok s"
  shows "accounts_ok (snd (run_once env s)) \<and> ll_fatal (snd (run_once env s)) = ll_fatal s"
proof -
  obtain r w where r: "le_lease env (ll_world s) = (r, w)" by fastforce
  show ?thesis
  proof (cases r)
    case (Inl e)
    with r assms show ?thesis by (simp add: run_once_def accounts_ok_def)
  next
    case (Inr jobs)
    let ?s = "bump (\<lambda>t. t\<lparr>lst_leased := lst_leased t + length jobs\<rparr>) (s\<lparr>ll_world := w\<rparr>)"
    obtain x s1 where "handle_jobs env jobs ?s = (x, s1)" by fastforce
    with r Inr assms show ?thesis
      using handle_jobs_keeps [of env jobs ?s]
      by (cases x) (auto simp: run_once_def accounts_ok_def settled_def bump_def)
  qed
qed

lemma report_health_simps [simp]:
  "ll_stats (report_health env s) = ll_stats s" "ll_fatal (report_health env s) = ll_fatal s"
  "ll_sleeps (report_health env s) = ll_sleeps s" "ll_attempt (report_health env s) = ll_attempt s"
  "ll_draws (report_health env s) = ll_draws s"
  by (simp_all add: report_health_def split: prod.split)

lemma beat_simps [simp]:
  "ll_stats (beat_if_due env s) = ll_stats s" "ll_fatal (beat_if_due env s) = ll_fatal s"
  "ll_sleeps (beat_if_due env s) = ll_sleeps s"
  by (simp_all add: beat_if_due_def)

lemma iteration_cases:
  obtains (fatal) s1 where "run_once env s = (Inl (LeaseErr WORKER_AUTH_FAILED), s1)"
      and "iteration env s = (False, s1\<lparr>ll_fatal := Some WORKER_AUTH_FAILED\<rparr>)"
  | (back_off) e s1 where "run_once env s = (Inl e, s1)" and "e \<noteq> LeaseErr WORKER_AUTH_FAILED"
      and "iteration env s = (True, sleep_backoff env s1)"
  | (handled) n s1 where "run_once env s = (Inr n, s1)"
      and "iteration env s = (True, let s2 = beat_if_due env (reset_backoff s1) in
             if n = 0 then s2\<lparr>ll_sleeps := ll_sleeps s2 @ [le_idle_seconds env]\<rparr> else s2)"
proof -
  obtain r s1 where r: "run_once env s = (r, s1)" by fastforce
  show thesis
  proof (cases r)
    case (Inl e)
    show thesis
    proof (cases "e = LeaseErr WORKER_AUTH_FAILED")
      case True
      with r Inl fatal show thesis by (simp add: iteration_def)
    next
      case False
      with r Inl show thesis
        by (intro back_off [of e s1]) (auto simp: iteration_def split: worker_exc.split)
    qed
  next
    case (Inr n)
    with r show thesis by (intro handled [of n s1]) (simp_all add: iteration_def Let_def)
  qed
qed

lemma iteration_accounts:
  assumes "accounts_ok s" and "ll_fatal s = None"
  shows "accounts_ok (snd (iteration env s)) \<and> (ll_fatal (snd (iteration env s)) = None \<longleftrightarrow> fst (iteration env s))"
proof (cases rule: iteration_cases [of env s])
  case (fatal s1)
  with run_once_accounts [OF assms(1), of env] show ?thesis by (simp add: accounts_ok_def)
next
  case (back_off e s1)
  with run_once_accounts [OF assms(1), of env] assms(2) show ?thesis by (simp add: accounts_ok_def)
next
  case (handled n s1)
  with run_once_accounts [OF assms(1), of env] assms(2) show ?thesis by (simp add: accounts_ok_def Let_def)
qed

lemma run_iterations_accounts:
  "accounts_ok s \<Longrightarrow> ll_fatal s = None \<Longrightarrow> accounts_ok (run_iterations env n s)"
proof (induction n arbitrary: s)
  case (Suc n)
  obtain b s1 where b: "iteration env s = (b, s1)" by fastforce
  have i: "accounts_ok s1" "ll_fatal s1 = None \<longleftrightarrow> b"
    using iteration_accounts [OF Suc.prems, of env] b by simp_all
  show ?case
  proof (cases b)
    case True
    with Suc.IH [OF i(1)] i(2) Suc.prems b show ?thesis by simp
  next
    case False
    with i(1) Suc.prems b show ?thesis by simp
  qed
qed simp

text \<open>
  Whatever the manager, the tools and the probes do, and for any number of iterations, the loop's counters
  never count a job twice, and the only reason to stop for good is that the manager refused the worker itself.
\<close>
theorem loop_accounts:
  "settled (ll_stats (run env n w)) \<le> lst_leased (ll_stats (run env n w))
   \<and> ll_fatal (run env n w) \<in> {None, Some WORKER_AUTH_FAILED}"
proof -
  let ?s = "report_health env (loop_start w)"
  have "accounts_ok (run_iterations env n (?s\<lparr>ll_last_beat := le_monotonic env (ll_world ?s)\<rparr>))"
    by (rule run_iterations_accounts) (simp_all add: accounts_ok_def loop_start_def settled_def)
  then show ?thesis by (simp add: run_def Let_def accounts_ok_def)
qed

section \<open>The loop's waits\<close>

definition sane :: "'w loop_env \<Rightarrow> bool" where
  "sane env \<longleftrightarrow> 0 \<le> le_base_seconds env \<and> 0 \<le> le_max_seconds env \<and> 0 \<le> le_idle_seconds env
     \<and> (\<forall>k d. 0 \<le> d \<longrightarrow> 0 \<le> le_uniform env k d \<and> le_uniform env k d \<le> d)"

definition waits_ok :: "'w loop_env \<Rightarrow> 'w loop \<Rightarrow> bool" where
  "waits_ok env s \<longleftrightarrow> (\<forall>d \<in> set (ll_sleeps s). 0 \<le> d \<and> d \<le> max (le_max_seconds env) (le_idle_seconds env))"

lemma sleep_backoff_waits:
  assumes "sane env" and "waits_ok env s"
  shows "waits_ok env (sleep_backoff env s)"
proof -
  let ?d = "next_delay_bound env (ll_attempt s)" and ?x = "le_uniform env (ll_draws s) (next_delay_bound env (ll_attempt s))"
  have "0 \<le> ?d" using assms(1) by (simp add: sane_def next_delay_bound_def)
  then have "0 \<le> ?x \<and> ?x \<le> ?d" using assms(1) unfolding sane_def by blast
  moreover have "?d \<le> le_max_seconds env" by (simp add: next_delay_bound_def)
  ultimately show ?thesis using assms(2) by (auto simp: waits_ok_def sleep_backoff_def)
qed

lemma waits_ok_cong: "ll_sleeps s = ll_sleeps t \<Longrightarrow> waits_ok env s = waits_ok env t"
  by (simp add: waits_ok_def)

lemma waits_bump [simp]: "waits_ok env (bump f s) = waits_ok env s"
  by (simp add: waits_ok_def bump_def)

lemma waits_world [simp]: "waits_ok env (s\<lparr>ll_world := w\<rparr>) = waits_ok env s"
  by (simp add: waits_ok_def)

lemma complete_attempts_waits:
  "sane env \<Longrightarrow> waits_ok env s \<Longrightarrow> waits_ok env (snd (complete_attempts env job st reason n s))"
proof (induction n arbitrary: s)
  case (Suc n)
  obtain r w where r: "le_complete env job st reason (ll_world s) = (r, w)" by fastforce
  have "waits_ok env (sleep_backoff env (s\<lparr>ll_world := w\<rparr>))"
    by (rule sleep_backoff_waits [OF Suc.prems(1)]) (use Suc.prems(2) in \<open>simp add: waits_ok_def\<close>)
  from Suc.IH [OF Suc.prems(1) this] Suc.prems(2) r show ?case
    by (auto simp: waits_ok_def split: sum.split worker_exc.split)
qed simp

lemma handle_job_waits:
  assumes "sane env" and "waits_ok env s"
  shows "waits_ok env (snd (handle_job env job s))"
proof -
  have sc: "waits_ok env (snd (safe_complete env job st reason t))" if "ll_sleeps t = ll_sleeps s" for st reason t
    unfolding safe_complete_def
    by (rule complete_attempts_waits [OF assms(1)]) (simp add: assms(2) waits_ok_cong [OF that])
  have ro: "waits_ok env (snd (report_outcome env job out t))" if "ll_sleeps t = ll_sleeps s" for out t
  proof -
    let ?st = "case out of Inl _ \<Rightarrow> ''failed'' | Inr x \<Rightarrow> x" and ?reason = "case out of Inl e \<Rightarrow> Some e | Inr _ \<Rightarrow> None"
    obtain r s1 where r: "safe_complete env job ?st ?reason t = (r, s1)" by fastforce
    then have "waits_ok env s1" using sc [OF that, of ?st ?reason] by simp
    with r show ?thesis by (cases r) (simp_all add: report_outcome_def Let_def)
  qed
  have here: "waits_ok env (s\<lparr>ll_world := w\<rparr>)" for w
    using assms(2) by simp
  obtain g w where g: "job_gates env job (ll_world s) = (g, w)" by fastforce
  show ?thesis
  proof (cases g)
    case (Inl e)
    show ?thesis
    proof (cases e)
      case (Refused r)
      let ?b = "bump (\<lambda>t. t\<lparr>lst_rejected := Suc (lst_rejected t)\<rparr>) (s\<lparr>ll_world := w\<rparr>)"
      obtain x s1 where x: "safe_complete env job ''failed'' (Some (LeaseErr r)) ?b = (x, s1)" by fastforce
      moreover have "waits_ok env (snd (safe_complete env job ''failed'' (Some (LeaseErr r)) ?b))"
        by (rule sc) (simp add: bump_def)
      ultimately show ?thesis using g Inl Refused by (cases x) (simp_all add: handle_job_def)
    next
      case (Escaped m)
      with g Inl here show ?thesis by (simp add: handle_job_def)
    qed
  next
    case (Inr u)
    show ?thesis
    proof (cases "build_policy_for_job (le_parse_uuid env) job")
      case None
      with g Inr here show ?thesis by (simp add: handle_job_def)
    next
      case (Some p)
      obtain o1 w1 where "execute_under_watch env job p w = (o1, w1)" by fastforce
      with g Inr Some ro [of "s\<lparr>ll_world := w1\<rparr>" o1] show ?thesis by (simp add: handle_job_def)
    qed
  qed
qed

lemma handle_jobs_waits: "sane env \<Longrightarrow> waits_ok env s \<Longrightarrow> waits_ok env (snd (handle_jobs env jobs s))"
proof (induction jobs arbitrary: s)
  case (Cons job jobs)
  obtain e s1 where e: "handle_job env job s = (e, s1)" by fastforce
  then have "waits_ok env s1" using handle_job_waits [OF Cons.prems, of job] by simp
  with Cons e show ?case by (cases e) auto
qed simp

lemma run_once_waits:
  assumes "sane env" and "waits_ok env s"
  shows "waits_ok env (snd (run_once env s))"
proof -
  obtain r w where r: "le_lease env (ll_world s) = (r, w)" by fastforce
  show ?thesis
  proof (cases r)
    case (Inl e)
    with r assms(2) show ?thesis by (simp add: run_once_def)
  next
    case (Inr jobs)
    let ?s = "bump (\<lambda>t. t\<lparr>lst_leased := lst_leased t + length jobs\<rparr>) (s\<lparr>ll_world := w\<rparr>)"
    obtain x s1 where "handle_jobs env jobs ?s = (x, s1)" by fastforce
    moreover have "waits_ok env ?s" using assms(2) by simp
    ultimately have "waits_ok env s1" using handle_jobs_waits [OF assms(1), of ?s jobs] by simp
    with r Inr assms(2) \<open>handle_jobs env jobs ?s = (x, s1)\<close> show ?thesis
      by (cases x) (simp_all add: run_once_def)
  qed
qed

lemma iteration_waits:
  assumes "sane env" and "waits_ok env s"
  shows "waits_ok env (snd (iteration env s))"
proof (cases rule: iteration_cases [of env s])
  case (fatal s1)
  with run_once_waits [OF assms] show ?thesis by (simp add: waits_ok_def)
next
  case (back_off e s1)
  with run_once_waits [OF assms] sleep_backoff_waits [OF assms(1), of s1] show ?thesis by simp
next
  case (handled n s1)
  have "0 \<le> le_idle_seconds env" using assms(1) by (simp add: sane_def)
  moreover have "waits_ok env (beat_if_due env (reset_backoff s1))"
    using handled(1) run_once_waits [OF assms] waits_ok_cong [of "beat_if_due env (reset_backoff s1)" s1 env] by simp
  ultimately have "waits_ok env (beat_if_due env (reset_backoff s1)
      \<lparr>ll_sleeps := ll_sleeps (beat_if_due env (reset_backoff s1)) @ [le_idle_seconds env]\<rparr>)"
    unfolding waits_ok_def by (simp add: ball_Un del: beat_simps)
  with handled(2) \<open>waits_ok env (beat_if_due env (reset_backoff s1))\<close> show ?thesis by (simp add: Let_def)
qed

lemma run_iterations_waits: "sane env \<Longrightarrow> waits_ok env s \<Longrightarrow> waits_ok env (run_iterations env n s)"
proof (induction n arbitrary: s)
  case (Suc n)
  obtain b s1 where b: "iteration env s = (b, s1)" by fastforce
  then have "waits_ok env s1" using iteration_waits [OF Suc.prems] by simp
  with Suc b show ?case by (cases b) auto
qed simp

text \<open>
  However long the manager is unreachable, no wait of the loop exceeds the configured maximum (or the idle
  interval), since the exponential back-off is capped.
\<close>
theorem waits_bounded:
  assumes "sane env" and "d \<in> set (ll_sleeps (run env n w))"
  shows "0 \<le> d \<and> d \<le> max (le_max_seconds env) (le_idle_seconds env)"
proof -
  let ?s = "report_health env (loop_start w)"
  have "waits_ok env (run_iterations env n (?s\<lparr>ll_last_beat := le_monotonic env (ll_world ?s)\<rparr>))"
    by (rule run_iterations_waits [OF assms(1)]) (simp add: waits_ok_def loop_start_def)
  then show ?thesis using assms(2) by (auto simp: run_def Let_def waits_ok_def)
qed

definition ex_loop :: "nat loop_env" where
  "ex_loop = \<lparr>le_identity = ex_vpn_identity, le_parse_uuid = (\<lambda>s. Some 7), le_egress = ex_egress,
     le_handshake_setting = None, le_tunnel_probe = None, le_egress_probe = None, le_executor = None,
     le_rechecks = (\<lambda>j w. []), le_cancelled = (\<lambda>j w. w), le_lease = (\<lambda>w. (Inl (OtherExc ''timeout''), Suc w)),
     le_complete = (\<lambda>j st r w. (Inl (OtherExc ''timeout''), Suc w)), le_heartbeat = (\<lambda>h w. (None, w)),
     le_uniform = (\<lambda>k d. d), le_monotonic = real, le_stopping = (\<lambda>w. False),
     le_base_seconds = 1, le_max_seconds = 60, le_idle_seconds = 5, le_heartbeat_seconds = 30\<rparr>"

theorem waits_bounded_witness:
  "0 \<le> (2::real) \<and> 2 \<le> max (le_max_seconds ex_loop) (le_idle_seconds ex_loop)"
proof (rule waits_bounded [where w = 0 and n = 2])
  show "sane ex_loop" by (simp add: sane_def ex_loop_def)
  show "(2::real) \<in> set (ll_sleeps (run ex_loop 2 0))"
    by (simp add: run_def report_health_def observe_def numeral_2_eq_2 iteration_def run_once_def sleep_backoff_def
        next_delay_bound_def loop_start_def ex_loop_def)
qed

section \<open>Losing the egress path\<close>

lemma watch_egress_eq:
  "watch_egress eg obs = (if list_ex (\<lambda>x. egress_watch eg x \<noteq> None) obs then Some (LeaseErr VPN_EGRESS_LOST_MIDSCAN) else None)"
  by (induction obs) (auto simp: egress_watch_def split: sum.split option.split)

text \<open>
  A scan of a VPN worker during which one check of the egress path fails, or cannot be made, is
  cancelled and reported as failed, never as completed, whatever the executor would have returned.
\<close>
theorem lost_egress_never_completed:
  assumes "job_gates env job (ll_world s) = (Inr (), w)" and "build_policy_for_job (le_parse_uuid env) job = Some p"
    and "le_executor env \<noteq> None" and "is_vpn_egress (le_identity env)" and "le_egress_probe env \<noteq> None"
    and "list_ex (\<lambda>x. egress_watch (le_egress env) x \<noteq> None) (le_rechecks env job w)"
  shows "ll_world (snd (handle_job env job s)) =
      ll_world (snd (safe_complete env job ''failed'' (Some (LeaseErr VPN_EGRESS_LOST_MIDSCAN)) (s\<lparr>ll_world := le_cancelled env job w\<rparr>)))
    \<and> lst_completed (ll_stats (snd (handle_job env job s))) = lst_completed (ll_stats s)"
proof -
  let ?s = "s\<lparr>ll_world := le_cancelled env job w\<rparr>" and ?e = "LeaseErr VPN_EGRESS_LOST_MIDSCAN"
  have x: "execute_under_watch env job p w = (Inl ?e, le_cancelled env job w)"
    using assms(3-6) by (auto simp: execute_under_watch_def watch_egress_eq)
  obtain r s1 where r: "safe_complete env job ''failed'' (Some ?e) ?s = (r, s1)" by fastforce
  have "ll_stats s1 = ll_stats s" using safe_complete_keeps(1) [of env job "''failed''" "Some ?e" ?s] r by simp
  with r show ?thesis
    by (cases r) (simp_all add: handle_job_def assms(1,2) x report_outcome_def Let_def is_completed_def bump_def)
qed

definition ex_vpn_loop :: "nat loop_env" where
  "ex_vpn_loop = ex_loop\<lparr>le_egress_probe := Some (\<lambda>w. (Inr \<lparr>es_interface_up = True, es_handshake_age = Some 3,
       es_default_route_in_table = True, es_policy_rule_present = True, es_main_table_untouched = True,
       es_observed_exit_ip = Some ''9.9.9.9'', es_exit_ip_age = None, es_killswitch_active = True, es_mtu = None,
       es_detail = None\<rparr>, w)),
     le_executor := Some (\<lambda>j p w. (Inr ''completed'', w)), le_rechecks := (\<lambda>j w. [Inl ''timeout'']),
     le_complete := (\<lambda>j st r w. (Inr True, w + (if st = ''completed'' then 100 else 1)))\<rparr>"

definition ex_leased_wire :: wire_job where
  "ex_leased_wire = ex_private_wire\<lparr>wj_scan_id := Some ''c'', wj_network_zone := None, wj_site_id := None\<rparr>"

theorem lost_egress_never_completed_witness:
  "ll_world (snd (handle_job ex_vpn_loop ex_leased_wire (loop_start 0))) =
      ll_world (snd (safe_complete ex_vpn_loop ex_leased_wire ''failed'' (Some (LeaseErr VPN_EGRESS_LOST_MIDSCAN))
        ((loop_start 0)\<lparr>ll_world := le_cancelled ex_vpn_loop ex_leased_wire 0\<rparr>)))
    \<and> lst_completed (ll_stats (snd (handle_job ex_vpn_loop ex_leased_wire (loop_start 0)))) =
      lst_completed (ll_stats (loop_start (0 :: nat)))"
proof (rule lost_egress_never_completed)
  show "job_gates ex_vpn_loop ex_leased_wire (ll_world (loop_start 0)) = (Inr (), 0)" by code_simp
  show "build_policy_for_job (le_parse_uuid ex_vpn_loop) ex_leased_wire
      = Some (the (build_policy_for_job (le_parse_uuid ex_vpn_loop) ex_leased_wire))" by code_simp
  show "is_vpn_egress (le_identity ex_vpn_loop)" by code_simp
  show "list_ex (\<lambda>x. egress_watch (le_egress ex_vpn_loop) x \<noteq> None) (le_rechecks ex_vpn_loop ex_leased_wire 0)" by code_simp
qed (simp_all add: ex_vpn_loop_def)

section \<open>What the manager leases and what the worker takes\<close>

text \<open>Every job of a lease is the payload of a row that was granted to the worker.\<close>

definition payload_inv :: "'v conf \<Rightarrow> bool \<Rightarrow> worker \<Rightarrow> 'v mgr \<Rightarrow> job list \<Rightarrow> 'v mgr \<Rightarrow> bool" where
  "payload_inv conf disabled w m jobs n =
     (mg_sites n = mg_sites m \<and> mg_targets n = mg_targets m
      \<and> (\<forall>j \<in> set jobs. \<exists>s (n' :: 'v mgr) site token. j = build_job_payload n' s site token \<and> mg_targets n' = mg_targets m
           \<and> granted_from conf disabled w m j s))"

lemma lease_payloads:
  assumes "lease_jobs conf env w k m = (Inr jobs, m')"
  shows "payload_inv conf (fst (emergency_check conf env m)) w m jobs m'"
  using assms
proof (cases rule: lease_jobs_cases)
  case (loop m1)
  let ?I = "payload_inv conf (fst (emergency_check conf env m)) w m"
  have "\<exists>js. ?I js m' \<and> (\<forall>js'. Inr jobs = (Inr js' :: mgr_error + job list) \<longrightarrow> js' = js)"
  proof (rule lease_rows_rule [where I = ?I and R = "{s \<in> set (mg_scans m). leasable s}", OF _ _ loop(5)])
    show "set (lease_candidates w k (mg_scans m)) \<subseteq> {s \<in> set (mg_scans m). leasable s}" by (rule candidates_sub)
    show "?I [] m1" by (simp add: payload_inv_def loop(4))
  next
    fix s site js n
    assume I: "?I js n" and s: "s \<in> {s \<in> set (mg_scans m). leasable s}"
      and check: "lease_check conf (fst (emergency_check conf env m)) w s n = Inr (Some site)"
    then show "?I js (claimed (rq_now env) s n)" by (simp add: payload_inv_def claimed_def)
    let ?n = "claimed (rq_now env) s n"
    have t: "mg_targets ?n = mg_targets m" "mg_sites ?n = mg_sites m" using I by (simp_all add: payload_inv_def claimed_def)
    have g: "granted_from conf (fst (emergency_check conf env m)) w m (build_job_payload ?n s site (mg_next n)) s"
      using lease_check_grants [OF check, of m] I s by (simp add: payload_inv_def)
    show "?I (js @ [build_job_payload ?n s site (mg_next n)]) ?n"
      using I t g unfolding payload_inv_def by (auto intro!: exI [of _ s])
  qed
  then show ?thesis by auto
qed simp

text \<open>The worker that the row describes, in the text of its environment.\<close>

definition mirrors :: "(uuid \<Rightarrow> string) \<Rightarrow> string list \<Rightarrow> worker \<Rightarrow> worker_identity \<Rightarrow> bool" where
  "mirrors uid pools w identity \<longleftrightarrow>
     wi_site_id identity = map_option uid (wk_site_id w) \<and> wi_pool_id identity = wk_pool_id w
     \<and> own_egress_mode identity = worker_egress_mode pools w"

definition pools_agree :: "string option \<Rightarrow> string \<Rightarrow> bool" where
  "pools_agree job_pool own = (truthy job_pool \<and> own \<noteq> [] \<longrightarrow> job_pool = Some own)"

text \<open>
  C30: Of the jobs that the manager leases to a worker, the worker whose environment mirrors its row accepts
  exactly those whose site has no pool or the worker's own, some authorized CIDR (when private) and a target: the
  binding to site and egress mode is checked twice and never disagrees, the pool is checked by the worker
  alone.
\<close>
theorem worker_takes_what_fits_its_pool:
  assumes "lease_jobs (conf :: 'v conf) env w k m = (Inr jobs, m')" and "j \<in> set jobs"
    and "mirrors uid (mc_vpn_pools conf) w identity"
    and "\<And>u. parse_uuid (uid u) = Some u" and "\<And>u. uid u \<noteq> []"
  shows "validate_leased_job parse_uuid (wire_of_job uid j) identity = Inr () \<longleftrightarrow>
    pools_agree (jb_pool_id j) (wk_pool_id w) \<and> (jb_site_id j = None \<or> jb_authorized_cidrs j \<noteq> [])
    \<and> (case jb_target j of None \<Rightarrow> False | Some t \<Rightarrow> snd t \<noteq> [])"
proof -
  from lease_payloads [OF assms(1)] assms(2) obtain s site token and n' :: "'v mgr" where
    j: "j = build_job_payload n' s site token" and g: "granted_from conf (fst (emergency_check conf env m)) w m j s"
    unfolding payload_inv_def by blast
  have site: "wk_site_id w = jb_site_id j" using g by (simp add: granted_from_def bound_to_def)
  have zone: "jb_network_zone j = (if jb_site_id j = None then ''public'' else ''private'')"
    by (simp add: j build_job_payload_def)
  have "is_ok (assert_worker_egress_mode (mc_vpn_pools conf) w (jb_required_egress_mode j))"
    using g by (simp add: granted_from_def j build_job_payload_def)
  then have egress: "let required = py_lower (py_strip (or_empty (jb_required_egress_mode j)))
      in required = [] \<or> required = own_egress_mode identity"
    using assms(3) by (auto simp: assert_worker_egress_mode_def mirrors_def Let_def split: if_splits)
  let ?job = "wire_of_job uid j"
  have z: "zone_of (wj_network_zone ?job) = (if jb_site_id j = None then ''public'' else ''private'')"
    by (simp add: wire_of_job_def zone_of_def zone)
  have match: "assert_job_matches_worker (Some (zone_of (wj_network_zone ?job))) (wj_site_id ?job) (wi_site_id identity)
      (Some (wi_pool_id identity)) (wj_pool_id ?job) = Inr () \<longleftrightarrow> pools_agree (jb_pool_id j) (wk_pool_id w)"
    unfolding z using assms(3,5) site
    by (auto simp: assert_job_matches_worker_def wire_of_job_def mirrors_def pools_agree_def zone_of_def Let_def)
  have fields: "wj_scan_id ?job = Some (uid (jb_scan_id j))" "wj_execution_token ?job = Some (uid (jb_execution_token j))"
    "wj_required_egress_mode ?job = jb_required_egress_mode j" "wj_authorized_cidrs ?job = jb_authorized_cidrs j"
    "target_value_of ?job = (case jb_target j of None \<Rightarrow> [] | Some t \<Rightarrow> snd t)"
    by (simp_all add: wire_of_job_def target_value_of_def split: option.split)
  show ?thesis
    unfolding validate_leased_job_iff match
    unfolding z fields using egress assms(4,5) by (auto split: option.splits)
qed

definition ex_text :: "uuid \<Rightarrow> string" where "ex_text u = replicate (Suc u) CHR ''u''"
definition ex_parse :: "string \<Rightarrow> uuid option" where "ex_parse s = Some (length s - 1)"

definition ex_public_identity :: worker_identity where
  "ex_public_identity = ex_identity\<lparr>wi_site_id := None, wi_pool_id := ''public''\<rparr>"

theorem worker_takes_what_fits_its_pool_witness:
  "validate_leased_job ex_parse (wire_of_job ex_text (hd (the_jobs (fst ex_lease)))) ex_public_identity = Inr () \<longleftrightarrow>
    pools_agree (jb_pool_id (hd (the_jobs (fst ex_lease)))) (wk_pool_id ex_worker)
    \<and> (jb_site_id (hd (the_jobs (fst ex_lease))) = None \<or> jb_authorized_cidrs (hd (the_jobs (fst ex_lease))) \<noteq> [])
    \<and> (case jb_target (hd (the_jobs (fst ex_lease))) of None \<Rightarrow> False | Some t \<Rightarrow> snd t \<noteq> [])"
proof (rule worker_takes_what_fits_its_pool [OF ex_lease_ok])
  show "hd (the_jobs (fst ex_lease)) \<in> set (the_jobs (fst ex_lease))"
    using ex_lease_one by (intro hd_in_set) auto
  show "mirrors ex_text (mc_vpn_pools ex_conf) ex_worker ex_public_identity" by code_simp
qed (simp_all add: ex_text_def ex_parse_def)

text \<open>A site with a pool of its own, a worker of the site in another pool, and a queued scan of the site.\<close>

definition ex_pool_site :: private_site where
  "ex_pool_site = \<lparr>ps_id = 5, ps_workspace_id = 10, ps_name = ''s'', ps_authorized_cidrs = [''10.1.2.0/24''],
     ps_dns_servers = [], ps_scanner_pool_id = Some ''gold'', ps_status = ''active'', ps_created_at = 0\<rparr>"

definition ex_silver_worker :: worker where
  "ex_silver_worker = ex_worker\<lparr>wk_pool_id := ''silver'', wk_site_id := Some 5, wk_workspace_id := Some 10\<rparr>"

definition ex_pool_mgr :: "unit mgr" where
  "ex_pool_mgr = ex_mgr\<lparr>mg_sites := [ex_pool_site], mg_scans := [ex_scan\<lparr>sn_config := [(''site_id'', uuid_text 5)]\<rparr>],
     mg_targets := [\<lparr>tg_id = 30, tg_project_id = 20, tg_type = ''ip_range'', tg_value = ''10.1.2.0/24'',
       tg_criticality = ''low'', tg_network_zone = ''private'', tg_site_id = Some 5\<rparr>]\<rparr>"

definition ex_silver_identity :: worker_identity where
  "ex_silver_identity = ex_identity\<lparr>wi_site_id := Some (ex_text 5), wi_pool_id := ''silver''\<rparr>"

text \<open>
  The pool of a site is not checked when a scan is leased, only by the worker afterwards: a worker of the site in another pool
  claims the queued scan, refuses it, and by reporting its refusal fails the scan for good.
\<close>
theorem wrong_pool_burns_the_scan:
  "(case lease_jobs ex_conf ex_env ex_silver_worker 1 ex_pool_mgr of
      (Inr [j], m1) \<Rightarrow>
        mirrors ex_text (mc_vpn_pools ex_conf) ex_silver_worker ex_silver_identity
        \<and> validate_leased_job ex_parse (wire_of_job ex_text j) ex_silver_identity = Inl POOL_MISMATCH
        \<and> (case complete_lease ex_conf ex_env ex_silver_worker (jb_scan_id j) (jb_execution_token j) ''failed'' m1 of
             (Inr (Accepted st), m2) \<Rightarrow> map sn_status (mg_scans m2) = [''failed'']
                \<and> fst (lease_jobs ex_conf ex_env (ex_silver_worker\<lparr>wk_pool_id := ''gold''\<rparr>) 1 m2) = Inr []
           | _ \<Rightarrow> False)
    | _ \<Rightarrow> False)"
  by code_simp

end
