(* ===== verification/Location_Normalize.thy ===== *)
theory Location_Normalize
  imports Egress_Guard
begin

text \<open>
  \<open>scanner_engine/location_normalize.py\<close>: the normal form of the locations that identify
  vulnerabilities. \<open>urlsplit\<close> and \<open>urlunsplit\<close> of the standard library are modelled on ASCII
  text; a port has fewer digits than \<open>int\<close> refuses (4300).
\<close>

section \<open>The parts of a URL\<close>

definition url_scheme :: "string \<Rightarrow> string" where
  "url_scheme url =
     (case partition_char (CHR '':'') (url_clean url) of
        (scheme, Some rest) \<Rightarrow>
          if scheme \<noteq> [] \<and> is_alpha (hd scheme) \<and> list_all is_scheme_char scheme then py_lower scheme else []
      | (_, None) \<Rightarrow> [])"

definition is_delim :: "char \<Rightarrow> bool" where
  "is_delim c = (c \<in> {CHR ''/'', CHR ''?'', CHR ''#''})"

definition url_rest :: "string \<Rightarrow> string" where
  "url_rest url =
     (let u = url_after_scheme (url_clean url) in
      takeWhile (\<lambda>c. c \<noteq> CHR ''#'')
        (if py_startswith u ''//'' then dropWhile (\<lambda>c. \<not> is_delim c) (drop 2 u) else u))"

definition url_path :: "string \<Rightarrow> string" where
  "url_path url = before_char (CHR ''?'') (url_rest url)"

definition url_query :: "string \<Rightarrow> string" where
  "url_query url = or_empty (snd (partition_char (CHR ''?'') (url_rest url)))"

text \<open>\<open>urlunsplit\<close> for the schemes http and https, with no fragment.\<close>

definition url_unsplit :: "string \<Rightarrow> string \<Rightarrow> string \<Rightarrow> string \<Rightarrow> string" where
  "url_unsplit scheme netloc path query =
     scheme @ ''://'' @ netloc @ (if path \<noteq> [] \<and> hd path \<noteq> CHR ''/'' then ''/'' else []) @ path
       @ (if query = [] then [] else CHR ''?'' # query)"

section \<open>Normalisation\<close>

definition is_hex :: "char \<Rightarrow> bool" where
  "is_hex c = (hex_digit c \<noteq> None)"

fun lowercase_percent_escapes :: "string \<Rightarrow> string" where
  "lowercase_percent_escapes (c # a # b # s) =
     (if c = CHR ''%'' \<and> is_hex a \<and> is_hex b
      then CHR ''%'' # lower_char a # lower_char b # lowercase_percent_escapes s
      else c # lowercase_percent_escapes (a # b # s))"
| "lowercase_percent_escapes s = s"

definition DEFAULT_PORTS :: "(string \<times> int) list" where
  "DEFAULT_PORTS = [(''http'', 80), (''https'', 443)]"

definition effective_port :: "string \<Rightarrow> string option \<Rightarrow> string option" where
  "effective_port scheme port =
     (if truthy port \<and> all_digits (or_empty port) \<and> map_of DEFAULT_PORTS scheme = Some (dec_value (or_empty port))
      then None else port)"

definition with_port :: "string \<Rightarrow> string option \<Rightarrow> string" where
  "with_port host port = (if truthy port then host @ CHR '':'' # or_empty port else host)"

text \<open>\<open>rpartition(c)\<close> on a text that contains \<open>c\<close>.\<close>

definition before_last_char :: "char \<Rightarrow> string \<Rightarrow> string" where
  "before_last_char c s = rev (tl (dropWhile (\<lambda>x. x \<noteq> c) (rev s)))"

definition userinfo_of :: "string \<Rightarrow> string" where
  "userinfo_of netloc =
     (if CHR ''@'' \<in> set netloc then before_last_char (CHR ''@'') netloc @ ''@'' else [])"

definition host_and_port :: "string \<Rightarrow> string \<times> string option" where
  "host_and_port hostport =
     (if CHR '':'' \<in> set hostport
      then (before_last_char (CHR '':'') hostport, Some (after_last_char (CHR '':'') hostport))
      else (hostport, None))"

definition normalize_authority :: "string \<Rightarrow> string \<Rightarrow> string" where
  "normalize_authority netloc scheme =
     (let hostport = netloc_hostinfo netloc in
      userinfo_of netloc @
        (if py_startswith hostport ''[''
         then (case partition_char (CHR '']'') hostport of
                 (_, None) \<Rightarrow> hostport
               | (h, Some rest) \<Rightarrow>
                   with_port (py_lower (h @ '']''))
                     (effective_port scheme
                        (if py_startswith rest '':'' then Some (tl rest) else if rest = [] then None else Some rest)))
         else (case host_and_port hostport of
                 (host, port) \<Rightarrow> with_port (py_lower host) (effective_port scheme port))))"

definition normalize_url :: "string \<Rightarrow> string" where
  "normalize_url value =
     (if \<not> netloc_ok (url_netloc value) then value
      else if map_of DEFAULT_PORTS (url_scheme value) = None \<or> url_netloc value = [] then value
      else (let path = lowercase_percent_escapes (url_path value) in
            url_unsplit (url_scheme value) (normalize_authority (url_netloc value) (url_scheme value))
              (if path = [] then ''/'' else path) (lowercase_percent_escapes (url_query value))))"

definition normalize_host_port :: "string \<Rightarrow> string" where
  "normalize_host_port value =
     (if value = [] then value
      else if py_startswith value ''[''
      then (case partition_char (CHR '']'') value of
              (_, None) \<Rightarrow> value
            | (h, Some rest) \<Rightarrow> py_lower (h @ '']'') @ rest)
      else py_lower (before_char (CHR '':'') value) @ dropWhile (\<lambda>c. c \<noteq> CHR '':'') value)"

text \<open>
  \<open>_SOURCE_LOCATION\<close>: the path, line and column. The path holds no colon, so it ends at the first one;
  \<open>$\<close> also matches before one line break at the end.
\<close>

definition match_source :: "string \<Rightarrow> (string \<times> string \<times> string option) option" where
  "match_source value =
     (case partition_char (CHR '':'') value of
        (_, None) \<Rightarrow> None
      | (path, Some rest) \<Rightarrow>
          (let r = (if rest \<noteq> [] \<and> last rest = CHR 0x0A then butlast rest else rest);
               (line, col) = partition_char (CHR '':'') r
           in if list_ex (\<lambda>c. c = CHR ''/'' \<or> c = CHR 0x5C) path \<and> list_all (\<lambda>c. \<not> is_space c) path
                 \<and> all_digits line \<and> (case col of None \<Rightarrow> True | Some d \<Rightarrow> all_digits d)
              then Some (path, line, col) else None))"

definition looks_like_source_location :: "string \<Rightarrow> bool" where
  "looks_like_source_location value = (value \<noteq> [] \<and> match_source value \<noteq> None)"

fun strip_dot_slash :: "string \<Rightarrow> string" where
  "strip_dot_slash (a # b # s) = (if a = CHR ''.'' \<and> b = CHR ''/'' then strip_dot_slash s else a # b # s)"
| "strip_dot_slash s = s"

definition normalize_source_location :: "string \<Rightarrow> string" where
  "normalize_source_location value =
     (case match_source value of
        None \<Rightarrow> value
      | Some (path, line, col) \<Rightarrow>
          strip_dot_slash (map (\<lambda>c. if c = CHR 0x5C then CHR ''/'' else c) path) @ CHR '':'' # line
            @ (case col of None \<Rightarrow> [] | Some d \<Rightarrow> CHR '':'' # d))"

definition normalize_location :: "string option \<Rightarrow> string option" where
  "normalize_location value =
     (if \<not> truthy value then value
      else let v = or_empty value in
        Some (if py_contains ''://'' v then normalize_url v
              else if looks_like_source_location v then normalize_source_location v
              else normalize_host_port v))"

end
