(* ===== verification/Location_Properties.thy ===== *)
theory Location_Properties
  imports Location_Normalize
begin

text \<open>
  Properties of \<open>normalize_location\<close>: which URLs it identifies, against a specification that speaks of
  their parts; where it is idempotent; and where it is not.
\<close>

section \<open>Characters\<close>

lemma lower_char_other: "lower_char c = d \<Longrightarrow> \<not> (97 \<le> (of_char d :: nat) \<and> of_char d \<le> (122 :: nat)) \<Longrightarrow> c = d"
proof -
  have "of_char (char_of (of_char c + (32 :: nat)) :: char) = of_char c + (32 :: nat)"
    if "of_char c \<le> (90 :: nat)"
    using that by (simp add: take_bit_nat_eq_self)
  then show "lower_char c = d \<Longrightarrow> \<not> (97 \<le> (of_char d :: nat) \<and> of_char d \<le> (122 :: nat)) \<Longrightarrow> c = d"
    by (auto simp: lower_char_def split: if_splits)
qed

text \<open>The characters that split a URL; none is a letter, so no case mapping produces or removes one.\<close>

definition url_special :: "char \<Rightarrow> bool" where
  "url_special c = (c \<in> {CHR ''/'', CHR ''?'', CHR ''#'', CHR '':'', CHR ''@'', CHR ''['', CHR '']'',
      CHR 0x09, CHR 0x0A, CHR 0x0D})"

lemma lower_special [simp]: "url_special (lower_char c) = url_special c" "url_special c \<Longrightarrow> lower_char c = c"
proof -
  have k: "lower_char d = d" if "url_special d" for d
    using that unfolding url_special_def by (elim insertE emptyE) (simp_all add: lower_char_def)
  then show "url_special c \<Longrightarrow> lower_char c = c" .
  show "url_special (lower_char c) = url_special c"
    using k [of c] lower_char_other [of c "lower_char c"] by (auto simp: url_special_def)
qed

lemma special_in_lower: "url_special d \<Longrightarrow> d \<in> set (py_lower s) \<longleftrightarrow> d \<in> set s"
  unfolding py_lower_def using lower_special by (metis (no_types, lifting) image_iff list.set_map)

lemma length_escapes [simp]: "length (lowercase_percent_escapes s) = length s"
  by (induction s rule: lowercase_percent_escapes.induct) auto

lemma escapes_Nil_iff [simp]: "lowercase_percent_escapes s = [] \<longleftrightarrow> s = []"
  by (metis length_0_conv length_escapes)

lemma hd_escapes: "s \<noteq> [] \<Longrightarrow> hd (lowercase_percent_escapes s) = hd s"
  by (cases s rule: lowercase_percent_escapes.cases) auto

lemma special_in_escapes: "url_special d \<Longrightarrow> d \<in> set (lowercase_percent_escapes s) \<longleftrightarrow> d \<in> set s"
proof (induction s rule: lowercase_percent_escapes.induct)
  case (1 c a b s)
  have "lower_char x = d \<longleftrightarrow> x = d" for x using 1(3) lower_special [of x] lower_special [of d] by metis
  with 1 show ?case by auto
qed auto

lemma is_hex_iff:
  "is_hex c \<longleftrightarrow> (let n = (of_char c :: nat) in (48 \<le> n \<and> n \<le> 57) \<or> (65 \<le> n \<and> n \<le> 70) \<or> (97 \<le> n \<and> n \<le> 102))"
proof -
  have "(of_char c :: int) = int (of_char c)" by (simp only: of_nat_of_char)
  then show ?thesis unfolding is_hex_def hex_digit_def Let_def by auto
qed

lemma is_hex_lower [simp]: "is_hex c \<Longrightarrow> is_hex (lower_char c)"
proof (cases "65 \<le> (of_char c :: nat) \<and> (of_char c :: nat) \<le> 90")
  case True
  assume h: "is_hex c"
  have "(of_char (char_of (of_char c + (32 :: nat)) :: char) :: nat) = of_char c + 32"
    using True by (simp add: take_bit_nat_eq_self)
  with True h show ?thesis by (auto simp: is_hex_iff Let_def lower_char_def)
qed (auto simp: lower_char_def)

lemma escapes_Cons: "a \<noteq> CHR ''%'' \<Longrightarrow> lowercase_percent_escapes (a # t) = a # lowercase_percent_escapes t"
  by (cases "a # t" rule: lowercase_percent_escapes.cases) auto

lemma escapes_idem [simp]: "lowercase_percent_escapes (lowercase_percent_escapes s) = lowercase_percent_escapes s"
proof (induction s rule: lowercase_percent_escapes.induct)
  case (1 c a b s)
  show ?case
  proof (cases "c = CHR ''%'' \<and> is_hex a \<and> is_hex b")
    case False
    let ?t = "lowercase_percent_escapes (a # b # s)"
    obtain x y z where t: "?t = x # y # z"
      using length_escapes [of "a # b # s"] by (metis Suc_length_conv length_Cons)
    have x: "x = a" using hd_escapes [of "a # b # s"] t by simp
    have "c = CHR ''%'' \<and> is_hex x \<and> is_hex y \<Longrightarrow> False"
    proof -
      assume h: "c = CHR ''%'' \<and> is_hex x \<and> is_hex y"
      then have "a \<noteq> CHR ''%''" using x by (auto simp: is_hex_iff Let_def)
      from escapes_Cons [OF this, of "b # s"] t have "y # z = lowercase_percent_escapes (b # s)" by simp
      then have "y = b" using hd_escapes [of "b # s"] by (metis list.discI list.sel(1))
      with h x False show False by simp
    qed
    then show ?thesis using 1(2) [OF False] False t by auto
  qed (use 1 in auto)
qed auto

section \<open>Authorities\<close>

lemma while_not [simp]:
  "c \<notin> set y \<Longrightarrow> takeWhile (\<lambda>x. x \<noteq> c) (y @ c # z) = y"
  "c \<notin> set y \<Longrightarrow> dropWhile (\<lambda>x. x \<noteq> c) (y @ c # z) = c # z"
  "c \<notin> set y \<Longrightarrow> takeWhile (\<lambda>x. x \<noteq> c) y = y"
  by (induction y) auto

lemma before_last_char [simp]: "c \<notin> set y \<Longrightarrow> before_last_char c (x @ c # y) = x"
  by (simp add: before_last_char_def)

lemma after_last_char [simp]: "c \<notin> set y \<Longrightarrow> after_last_char c (x @ c # y) = y" "c \<notin> set y \<Longrightarrow> after_last_char c y = y"
  by (simp_all add: after_last_char_def)

lemma split_last: "c \<in> set s \<Longrightarrow> s = before_last_char c s @ c # after_last_char c s \<and> c \<notin> set (after_last_char c s)"
  by (auto dest!: split_list_last)

text \<open>An authority that is not an IPv6 literal and has a host and at most one colon.\<close>

definition authority_host :: "string \<Rightarrow> string" where
  "authority_host netloc = fst (host_and_port (netloc_hostinfo netloc))"

definition authority_port :: "string \<Rightarrow> string option" where
  "authority_port netloc = snd (host_and_port (netloc_hostinfo netloc))"

definition plain_authority :: "string \<Rightarrow> bool" where
  "plain_authority netloc =
     (CHR ''['' \<notin> set netloc \<and> CHR '']'' \<notin> set netloc \<and> authority_host netloc \<noteq> []
      \<and> CHR '':'' \<notin> set (authority_host netloc))"

definition port_text :: "string option \<Rightarrow> string option" where
  "port_text port = (if truthy port then port else None)"

lemma authority_split:
  "netloc = userinfo_of netloc @ netloc_hostinfo netloc"
  "CHR ''@'' \<notin> set (netloc_hostinfo netloc)"
  "userinfo_of netloc = [] \<or> (\<exists>x. userinfo_of netloc = x @ ''@'')"
  using split_last [of "CHR ''@''" netloc] after_last_char(2) [of "CHR ''@''" netloc]
  by (cases "CHR ''@'' \<in> set netloc"; simp add: userinfo_of_def netloc_hostinfo_def)+

lemma host_split:
  "netloc_hostinfo netloc = authority_host netloc @ (case authority_port netloc of None \<Rightarrow> [] | Some p \<Rightarrow> CHR '':'' # p)"
  "CHR '':'' \<notin> set (or_empty (authority_port netloc))"
  using split_last [of "CHR '':''" "netloc_hostinfo netloc"]
  by (auto simp: authority_host_def authority_port_def host_and_port_def)

lemma host_no_at: "CHR ''@'' \<notin> set (authority_host netloc)" "CHR ''@'' \<notin> set (or_empty (authority_port netloc))"
  using authority_split(2) [of netloc] host_split(1) [of netloc] by (auto split: option.splits)

text \<open>An assembled authority is taken apart again.\<close>

lemma assembled:
  assumes "ui = [] \<or> (\<exists>x. ui = x @ ''@'')" and "CHR ''@'' \<notin> set h" "CHR '':'' \<notin> set h"
    and "CHR ''@'' \<notin> set (or_empty p)" "CHR '':'' \<notin> set (or_empty p)"
  shows "userinfo_of (ui @ with_port h p) = ui" "authority_host (ui @ with_port h p) = h"
    "authority_port (ui @ with_port h p) = port_text p"
proof -
  have w: "CHR ''@'' \<notin> set (with_port h p)" using assms by (auto simp: with_port_def)
  then have i: "netloc_hostinfo (ui @ with_port h p) = with_port h p"
    using assms(1) by (auto simp: netloc_hostinfo_def)
  show "userinfo_of (ui @ with_port h p) = ui" using assms(1) w by (auto simp: userinfo_of_def)
  have "host_and_port (with_port h p) = (h, port_text p)"
    using assms(3,5) by (cases p) (auto simp: host_and_port_def with_port_def port_text_def)
  then show "authority_host (ui @ with_port h p) = h" "authority_port (ui @ with_port h p) = port_text p"
    by (simp_all add: authority_host_def authority_port_def i)
qed

lemma effective_port_sub: "effective_port s p = p \<or> effective_port s p = None"
  by (simp add: effective_port_def)

lemma effective_port_idem [simp]: "effective_port s (port_text (effective_port s p)) = port_text (effective_port s p)"
  by (auto simp: effective_port_def port_text_def)

lemma normalize_plain:
  assumes "plain_authority n"
  shows "normalize_authority n s =
    userinfo_of n @ with_port (py_lower (authority_host n)) (effective_port s (authority_port n))"
proof -
  have "\<not> py_startswith (netloc_hostinfo n) ''[''"
    using assms authority_split(1) [of n] unfolding plain_authority_def py_startswith_iff
    by (metis Un_iff append_Cons list.set_intros(1) set_append)
  then show ?thesis
    by (simp add: normalize_authority_def Let_def authority_host_def authority_port_def split: prod.split)
qed

lemma authority_parts_sub:
  "set (userinfo_of n) \<subseteq> set n" "set (authority_host n) \<subseteq> set n" "set (or_empty (authority_port n)) \<subseteq> set n"
proof -
  have n: "set n = set (userinfo_of n) \<union> set (netloc_hostinfo n)"
    using authority_split(1) [of n] by (metis set_append)
  then show "set (userinfo_of n) \<subseteq> set n" by simp
  show "set (authority_host n) \<subseteq> set n" "set (or_empty (authority_port n)) \<subseteq> set n"
    unfolding n using host_split(1) [of n] by (auto split: option.splits)
qed

lemma authority_chars:
  assumes "plain_authority n" and "url_special d" and "d \<notin> set n" and "d \<noteq> CHR '':''"
  shows "d \<notin> set (normalize_authority n s)"
  using authority_parts_sub [of n] assms effective_port_sub [of s "authority_port n"]
  by (auto simp: normalize_plain with_port_def special_in_lower)

lemma normalized_authority:
  assumes "plain_authority n"
  shows "userinfo_of (normalize_authority n s) = userinfo_of n"
    and "authority_host (normalize_authority n s) = py_lower (authority_host n)"
    and "authority_port (normalize_authority n s) = port_text (effective_port s (authority_port n))"
    and "plain_authority (normalize_authority n s)"
proof -
  let ?h = "py_lower (authority_host n)" and ?p = "effective_port s (authority_port n)"
  have p: "CHR ''@'' \<notin> set (or_empty ?p)" "CHR '':'' \<notin> set (or_empty ?p)"
    using effective_port_sub [of s "authority_port n"] host_split(2) [of n] host_no_at(2) [of n] by auto
  have h: "CHR ''@'' \<notin> set ?h" "CHR '':'' \<notin> set ?h"
    using assms host_no_at(1) [of n] by (simp_all add: special_in_lower url_special_def plain_authority_def)
  note A = assembled [OF authority_split(3) [of n] h p]
  note N = normalize_plain [OF assms, of s]
  show "userinfo_of (normalize_authority n s) = userinfo_of n"
    and H: "authority_host (normalize_authority n s) = ?h"
    and "authority_port (normalize_authority n s) = port_text ?p"
    unfolding N by (rule A)+
  show "plain_authority (normalize_authority n s)"
    using assms h authority_chars [OF assms, of _ s] by (auto simp: plain_authority_def H url_special_def)
qed

section \<open>URLs\<close>

text \<open>What \<open>urlsplit\<close> returns: no part holds a character that ends it.\<close>

lemma clean_chars: "d \<in> {CHR 0x09, CHR 0x0A, CHR 0x0D} \<Longrightarrow> d \<notin> set (url_clean u)"
  by (auto simp: url_clean_def)

lemma after_scheme_sub: "set (url_after_scheme v) \<subseteq> set v"
proof -
  have "snd (partition_char c v) = Some r \<Longrightarrow> set r \<subseteq> set v" for c r
    by (induction c v arbitrary: r rule: partition_char.induct) (auto simp: Let_def split: if_splits prod.splits)
  note sub = this [of "CHR '':''"]
  obtain a r where "partition_char (CHR '':'') v = (a, r)" by fastforce
  with sub show ?thesis by (cases r) (auto simp: url_after_scheme_def)
qed

lemma part_subs:
  "set (url_netloc u) \<subseteq> set (url_clean u)" "set (url_rest u) \<subseteq> set (url_clean u)"
  "set (url_path u) \<subseteq> set (url_rest u)" "set (url_query u) \<subseteq> set (url_rest u)"
proof -
  note a = subsetD [OF after_scheme_sub [of "url_clean u"]]
  show "set (url_netloc u) \<subseteq> set (url_clean u)"
    unfolding url_netloc_def Let_def by (auto dest: set_takeWhileD in_set_dropD intro!: a)
  show "set (url_rest u) \<subseteq> set (url_clean u)"
    unfolding url_rest_def Let_def by (auto dest!: set_takeWhileD set_dropWhileD in_set_dropD intro!: a split: if_splits)
  show "set (url_path u) \<subseteq> set (url_rest u)"
    unfolding url_path_def before_char_def by (auto dest: set_takeWhileD)
  have "set (or_empty (snd (partition_char c v))) \<subseteq> set v" for c v
    by (induction c v rule: partition_char.induct) (auto simp: Let_def split: prod.splits)
  then show "set (url_query u) \<subseteq> set (url_rest u)" unfolding url_query_def .
qed

lemma part_ends:
  "is_delim d \<Longrightarrow> d \<notin> set (url_netloc u)" "CHR ''#'' \<notin> set (url_rest u)" "CHR ''?'' \<notin> set (url_path u)"
  by (auto simp: url_netloc_def url_rest_def url_path_def before_char_def is_delim_def Let_def dest: set_takeWhileD split: if_splits)

lemma no_controls:
  "d \<in> {CHR 0x09, CHR 0x0A, CHR 0x0D} \<Longrightarrow> d \<notin> set (url_netloc u) \<and> d \<notin> set (url_path u) \<and> d \<notin> set (url_query u)"
  using clean_chars [of d u] part_subs [of u] by blast

lemma path_starts:
  assumes "url_netloc u \<noteq> []" and "url_path u \<noteq> []"
  shows "hd (url_path u) = CHR ''/''"
proof -
  let ?v = "url_after_scheme (url_clean u)" and ?d = "dropWhile (\<lambda>c. \<not> is_delim c) (drop 2 (url_after_scheme (url_clean u)))"
  have v: "py_startswith ?v ''//''" using assms(1) by (auto simp: url_netloc_def Let_def split: if_splits)
  then have p: "url_path u = takeWhile (\<lambda>c. c \<noteq> CHR ''?'') (takeWhile (\<lambda>c. c \<noteq> CHR ''#'') ?d)"
    by (simp add: url_path_def url_rest_def Let_def before_char_def)
  with assms(2) obtain c r where d: "?d = c # r" by (cases ?d) auto
  then have "is_delim c" using hd_dropWhile [of "\<lambda>c. \<not> is_delim c" "drop 2 ?v"] by simp
  with p d assms(2) show ?thesis by (auto simp: is_delim_def split: if_splits)
qed

text \<open>The round trip: a URL that is put together from such parts is taken apart into them.\<close>

lemma split_unsplit:
  assumes scheme: "scheme \<in> {''http'', ''https''}" and n: "\<And>d. is_delim d \<Longrightarrow> d \<notin> set n"
    and path: "path \<noteq> []" "hd path = CHR ''/''" "CHR ''?'' \<notin> set path" "CHR ''#'' \<notin> set path"
    and query: "CHR ''#'' \<notin> set query"
    and controls: "\<And>d. d \<in> {CHR 0x09, CHR 0x0A, CHR 0x0D} \<Longrightarrow> d \<notin> set n \<and> d \<notin> set path \<and> d \<notin> set query"
  shows "url_scheme (url_unsplit scheme n path query) = scheme"
    and "url_netloc (url_unsplit scheme n path query) = n"
    and "url_path (url_unsplit scheme n path query) = path"
    and "url_query (url_unsplit scheme n path query) = query"
proof -
  let ?q = "if query = [] then [] else CHR ''?'' # query"
  let ?u = "url_unsplit scheme n path query"
  have u: "?u = scheme @ ''://'' @ n @ path @ ?q" using path(2) by (simp add: url_unsplit_def)
  have "\<not> is_url_space (hd ?u)" "?u \<noteq> []" using scheme by (auto simp: u is_url_space_def)
  then have "dropWhile is_url_space ?u = ?u" by (cases ?u) auto
  moreover have "(of_char c :: nat) \<notin> {9, 10, 13}" if "c \<in> set ?u" for c
  proof -
    have "c \<notin> {CHR 0x09, CHR 0x0A, CHR 0x0D}"
      using that controls [of c] scheme unfolding u by (auto split: if_splits)
    moreover have "(of_char c :: nat) = of_char d \<Longrightarrow> c = d" for d by simp
    from this [of "CHR 0x09"] this [of "CHR 0x0A"] this [of "CHR 0x0D"]
    have "(of_char c :: nat) \<in> {9, 10, 13} \<Longrightarrow> c \<in> {CHR 0x09, CHR 0x0A, CHR 0x0D}" by auto
    ultimately show ?thesis by blast
  qed
  ultimately have clean: "url_clean ?u = ?u" unfolding url_clean_def by (simp add: filter_id_conv)
  have part: "partition_char (CHR '':'') ?u = (scheme, Some (''//'' @ n @ path @ ?q))"
    using scheme by (auto simp: u)
  have sc: "scheme \<noteq> []" "is_alpha (hd scheme)" "list_all is_scheme_char scheme" "py_lower scheme = scheme"
    using scheme by (auto simp: is_alpha_def is_scheme_char_def Let_def py_lower_def lower_char_def)
  then show "url_scheme ?u = scheme" by (simp add: url_scheme_def clean part)
  have after: "url_after_scheme ?u = ''//'' @ n @ path @ ?q"
    using sc by (simp add: url_after_scheme_def part)
  obtain r where r: "path = CHR ''/'' # r" using path(1,2) by (cases path) auto
  have tw: "takeWhile (\<lambda>c. \<not> is_delim c) (n @ path @ ?q) = n" "dropWhile (\<lambda>c. \<not> is_delim c) (n @ path @ ?q) = path @ ?q"
  proof -
    have "\<forall>c \<in> set n. \<not> is_delim c" using n by blast
    then show "takeWhile (\<lambda>c. \<not> is_delim c) (n @ path @ ?q) = n" "dropWhile (\<lambda>c. \<not> is_delim c) (n @ path @ ?q) = path @ ?q"
      by (simp_all add: r takeWhile_append2 dropWhile_append2 is_delim_def)
  qed
  have nd: "(\<lambda>c. c \<notin> {CHR ''/'', CHR ''?'', CHR ''#''}) = (\<lambda>c. \<not> is_delim c)" by (simp add: is_delim_def [abs_def])
  show "url_netloc ?u = n" using tw(1) unfolding url_netloc_def clean after Let_def nd by simp
  have rest: "url_rest ?u = path @ ?q"
    using tw(2) path(4) query unfolding url_rest_def clean after Let_def by (simp add: takeWhile_append2)
  show "url_path ?u = path" using path(3) unfolding url_path_def rest before_char_def by (simp add: takeWhile_append2)
  have "partition_char (CHR ''?'') (path @ CHR ''?'' # query) = (path, Some query)"
       "partition_char (CHR ''?'') path = (path, None)"
    using path(3) by (induction path) auto
  then show "url_query ?u = query" unfolding url_query_def rest by simp
qed

section \<open>Which URLs are one location\<close>

text \<open>An http(s) URL whose authority has a host, no IPv6 literal and at most one colon.\<close>

definition plain_url :: "string \<Rightarrow> bool" where
  "plain_url u = (List.member [''http'', ''https''] (url_scheme u) \<and> plain_authority (url_netloc u))"

text \<open>
  The specification, after the rule table of the module: scheme and host without case, a default port
  equal to none, an empty path equal to the root, escapes without case, no fragment, and everything else
  (user info, other ports, the rest of path and query) as it is.
\<close>

definition same_location :: "string \<Rightarrow> string \<Rightarrow> bool" where
  "same_location u v =
     (url_scheme u = url_scheme v \<and> userinfo_of (url_netloc u) = userinfo_of (url_netloc v)
      \<and> py_lower (authority_host (url_netloc u)) = py_lower (authority_host (url_netloc v))
      \<and> port_text (effective_port (url_scheme u) (authority_port (url_netloc u)))
         = port_text (effective_port (url_scheme v) (authority_port (url_netloc v)))
      \<and> lowercase_percent_escapes (if url_path u = [] then ''/'' else url_path u)
         = lowercase_percent_escapes (if url_path v = [] then ''/'' else url_path v)
      \<and> lowercase_percent_escapes (url_query u) = lowercase_percent_escapes (url_query v))"

lemma plain_urlD:
  assumes "plain_url u"
  shows "netloc_ok (url_netloc u)" "url_netloc u \<noteq> []" "map_of DEFAULT_PORTS (url_scheme u) \<noteq> None"
    "url_scheme u \<in> {''http'', ''https''}" "plain_authority (url_netloc u)"
proof -
  show p: "plain_authority (url_netloc u)" and "url_scheme u \<in> {''http'', ''https''}"
    using assms by (auto simp: plain_url_def)
  then show "map_of DEFAULT_PORTS (url_scheme u) \<noteq> None" by (auto simp: DEFAULT_PORTS_def)
  show "netloc_ok (url_netloc u)" using p by (simp add: netloc_ok_def plain_authority_def)
  show "url_netloc u \<noteq> []"
    using p authority_parts_sub(2) [of "url_netloc u"] by (auto simp: plain_authority_def)
qed

lemma normalize_plain_url:
  assumes "plain_url u"
  shows "normalize_url u = url_unsplit (url_scheme u) (normalize_authority (url_netloc u) (url_scheme u))
    (lowercase_percent_escapes (if url_path u = [] then ''/'' else url_path u)) (lowercase_percent_escapes (url_query u))"
proof -
  have "(if lowercase_percent_escapes x = [] then ''/'' else lowercase_percent_escapes x)
      = lowercase_percent_escapes (if x = [] then ''/'' else x)" for x by simp
  then show ?thesis using plain_urlD [OF assms] by (simp only: normalize_url_def Let_def) simp
qed

lemma normalized_url_parts:
  assumes "plain_url u"
  shows "url_scheme (normalize_url u) = url_scheme u"
    and "url_netloc (normalize_url u) = normalize_authority (url_netloc u) (url_scheme u)"
    and "url_path (normalize_url u) = (if url_path u = [] then ''/'' else lowercase_percent_escapes (url_path u))"
    and "url_query (normalize_url u) = lowercase_percent_escapes (url_query u)"
proof -
  note P = plain_urlD [OF assms]
  let ?n = "normalize_authority (url_netloc u) (url_scheme u)"
  let ?p = "if url_path u = [] then ''/'' else lowercase_percent_escapes (url_path u)"
  let ?q = "lowercase_percent_escapes (url_query u)"
  have N: "normalize_url u = url_unsplit (url_scheme u) ?n ?p ?q"
    unfolding normalize_plain_url [OF assms] by simp
  have n: "d \<notin> set ?n" if "url_special d" "d \<notin> set (url_netloc u)" "d \<noteq> CHR '':''" for d
    using authority_chars [OF P(5)] that by blast
  have sp: "url_special d" if "is_delim d \<or> d \<in> {CHR 0x09, CHR 0x0A, CHR 0x0D}" for d
    using that by (auto simp: is_delim_def url_special_def)
  have 1: "d \<notin> set ?n" if "is_delim d" for d
    using n [of d] sp [of d] that part_ends(1) [OF that, of u] by (auto simp: is_delim_def)
  have 2: "?p \<noteq> []" "hd ?p = CHR ''/''"
    using path_starts [OF P(2)] by (auto simp: hd_escapes)
  have 3: "CHR ''?'' \<notin> set ?p" "CHR ''#'' \<notin> set ?p" "CHR ''#'' \<notin> set ?q"
    using part_ends(2,3) [of u] part_subs(3,4) [of u] by (auto simp: special_in_escapes url_special_def)
  have 4: "d \<notin> set ?n \<and> d \<notin> set ?p \<and> d \<notin> set ?q" if "d \<in> {CHR 0x09, CHR 0x0A, CHR 0x0D}" for d
    using no_controls [OF that, of u] n [of d] sp [of d] that
    by (auto simp: special_in_escapes)
  note S = split_unsplit [OF P(4) 1 2 3 4]
  show "url_scheme (normalize_url u) = url_scheme u" unfolding N by (rule S(1))
  show "url_netloc (normalize_url u) = ?n" unfolding N by (rule S(2))
  show "url_path (normalize_url u) = ?p" unfolding N by (rule S(3))
  show "url_query (normalize_url u) = ?q" unfolding N by (rule S(4))
qed

lemma escapes_root [simp]: "lowercase_percent_escapes ''/'' = ''/''"
  by simp

lemma normalize_same:
  assumes "plain_url u" and "plain_url v" and "same_location u v"
  shows "normalize_url u = normalize_url v"
proof -
  note P = plain_urlD [OF assms(1)] and Q = plain_urlD [OF assms(2)]
  have w: "with_port h p = with_port h (port_text p)" for h p by (simp add: with_port_def port_text_def)
  have "normalize_authority (url_netloc u) (url_scheme u) = normalize_authority (url_netloc v) (url_scheme v)"
    unfolding normalize_plain [OF P(5)] normalize_plain [OF Q(5)] using assms(3) w unfolding same_location_def by metis
  then show ?thesis
    using assms(3) unfolding normalize_plain_url [OF assms(1)] normalize_plain_url [OF assms(2)] same_location_def by simp
qed

text \<open>
  Two plain URLs have the same normal form exactly when they are the same location by the rules.
\<close>
theorem normal_form_identifies_location:
  assumes "plain_url u" and "plain_url v"
  shows "normalize_url u = normalize_url v \<longleftrightarrow> same_location u v"
proof
  assume e: "normalize_url u = normalize_url v"
  note A = normalized_url_parts [OF assms(1), unfolded e] and B = normalized_url_parts [OF assms(2)]
  have n: "normalize_authority (url_netloc u) (url_scheme u) = normalize_authority (url_netloc v) (url_scheme v)"
    using A(2) B(2) by simp
  note C = normalized_authority [OF plain_urlD(5) [OF assms(1)], of "url_scheme u", unfolded n]
    and D = normalized_authority [OF plain_urlD(5) [OF assms(2)], of "url_scheme v"]
  have "lowercase_percent_escapes (if url_path u = [] then ''/'' else url_path u)
         = lowercase_percent_escapes (if url_path v = [] then ''/'' else url_path v)"
    using A(3) B(3) by (simp split: if_splits)
  with A(1,4) B(1,4) C(1-3) D(1-3) show "same_location u v" unfolding same_location_def by simp
qed (rule normalize_same [OF assms])

theorem normal_form_identifies_location_witness:
  "normalize_url ''HTTPS://EX.com:443/%2Fa?q=1#f'' = normalize_url ''https://ex.com/%2fa?q=1'' \<longleftrightarrow>
     same_location ''HTTPS://EX.com:443/%2Fa?q=1#f'' ''https://ex.com/%2fa?q=1''"
  by (rule normal_form_identifies_location) code_simp+

section \<open>Idempotence\<close>

lemma port_text_idem: "port_text (port_text p) = port_text p"
  by (simp add: port_text_def)

lemma normalize_url_idem:
  assumes "plain_url u"
  shows "normalize_url (normalize_url u) = normalize_url u"
proof -
  note N = normalized_url_parts [OF assms] and P = plain_urlD [OF assms]
  note A = normalized_authority [OF P(5), of "url_scheme u"]
  have "plain_url (normalize_url u)" using assms A(4) by (simp add: plain_url_def N)
  moreover have "same_location (normalize_url u) u"
    by (simp add: same_location_def N A port_text_idem)
  ultimately show ?thesis using normalize_same assms by blast
qed

lemma py_lower_append: "py_lower (a @ b) = py_lower a @ py_lower b"
  by (simp add: py_lower_def)

lemma partition_join: "partition_char c v = (h, Some rest) \<Longrightarrow> v = h @ c # rest \<and> c \<notin> set h"
  by (induction c v arbitrary: h rest rule: partition_char.induct) (auto split: if_splits prod.splits)

lemma partition_split: "c \<notin> set h \<Longrightarrow> partition_char c (h @ c # rest) = (h, Some rest)" "c \<notin> set h \<Longrightarrow> partition_char c h = (h, None)"
  by (induction h) auto

lemma while_stop:
  assumes "c \<notin> set x" and "y = [] \<or> (\<exists>r. y = c # r)"
  shows "takeWhile (\<lambda>d. d \<noteq> c) (x @ y) = x \<and> dropWhile (\<lambda>d. d \<noteq> c) (x @ y) = y"
  using assms by (induction x) auto

lemma host_port_cases:
  obtains (same) "normalize_host_port v = v" "normalize_host_port (normalize_host_port v) = normalize_host_port v"
  | (host) a b where "v = a @ b" "normalize_host_port v = py_lower a @ b"
      "normalize_host_port (py_lower a @ b) = py_lower a @ b"
proof (cases "py_startswith v ''['' \<or> v = []")
  case True
  show thesis
  proof (cases "v = [] \<or> snd (partition_char (CHR '']'') v) = None")
    case True
    then have "normalize_host_port v = v"
      using \<open>py_startswith v ''['' \<or> v = []\<close>
      by (cases "partition_char (CHR '']'') v") (auto simp: normalize_host_port_def)
    then show thesis by (intro same) simp_all
  next
    case False
    then obtain h r where p: "partition_char (CHR '']'') v = (h, Some r)"
      by (cases "partition_char (CHR '']'') v") auto
    from partition_join [OF p] have v: "v = h @ CHR '']'' # r" "CHR '']'' \<notin> set h" by auto
    have b: "py_startswith v ''[''" using True False by simp
    then obtain t where t: "h = CHR ''['' # t" using v by (cases h) (auto simp: py_startswith_iff)
    have l: "py_lower (h @ '']'') = CHR ''['' # py_lower t @ '']''" "CHR '']'' \<notin> set (py_lower t)"
      using v(2) by (simp_all add: t special_in_lower url_special_def) (simp add: py_lower_def lower_char_def)
    have "partition_char (CHR '']'') (py_lower (h @ '']'') @ r) = (CHR ''['' # py_lower t, Some r)"
      using partition_split(1) [of "CHR '']''" "CHR ''['' # py_lower t" r] l by simp
    then have "normalize_host_port (py_lower (h @ '']'') @ r) = py_lower (h @ '']'') @ r"
      using l by (simp add: normalize_host_port_def py_startswith_iff py_lower_append)
        (simp add: py_lower_def lower_char_def)
    then show thesis using v(1) p b by (intro host [of "h @ '']''" r]) (auto simp: normalize_host_port_def)
  qed
next
  case False
  let ?a = "before_char (CHR '':'') v" and ?b = "dropWhile (\<lambda>c. c \<noteq> CHR '':'') v"
  have v: "v = ?a @ ?b" by (simp add: before_char_def)
  have "CHR '':'' \<notin> set ?a" by (auto simp: before_char_def dest: set_takeWhileD)
  then have a: "CHR '':'' \<notin> set (py_lower ?a)" by (simp add: special_in_lower url_special_def)
  have b: "?b = [] \<or> (\<exists>r. ?b = CHR '':'' # r)" using hd_dropWhile [of "\<lambda>c. c \<noteq> CHR '':''" v] by (cases ?b) auto
  have s: "\<not> py_startswith (py_lower ?a @ ?b) ''['' \<and> py_lower ?a @ ?b \<noteq> []"
  proof (cases ?a)
    case Nil
    with False v show ?thesis by simp
  next
    case (Cons c r)
    then have "c \<noteq> CHR ''[''" using False v by (cases v) auto
    then have "lower_char c \<noteq> CHR ''[''" using lower_char_other [of c "CHR ''[''"] by auto
    then show ?thesis by (simp add: Cons py_lower_def)
  qed
  have "before_char (CHR '':'') (py_lower ?a @ ?b) = py_lower ?a" "dropWhile (\<lambda>c. c \<noteq> CHR '':'') (py_lower ?a @ ?b) = ?b"
    using while_stop [OF a b] unfolding before_char_def by blast+
  then have "normalize_host_port (py_lower ?a @ ?b) = py_lower ?a @ ?b"
    using s by (simp add: normalize_host_port_def)
  with False show thesis by (intro host [OF v]) (auto simp: normalize_host_port_def)
qed

lemma host_port_idem: "normalize_host_port (normalize_host_port v) = normalize_host_port v"
  by (cases v rule: host_port_cases) simp_all

lemma host_port_lower: "py_lower (normalize_host_port v) = py_lower v"
  by (cases v rule: host_port_cases) (simp_all add: py_lower_append)

text \<open>Whether a text is a URL or a source location does not depend on the case of its letters.\<close>

lemma partition_lower:
  "url_special c \<Longrightarrow> partition_char c (py_lower s) = (case partition_char c s of (a, r) \<Rightarrow> (py_lower a, map_option py_lower r))"
proof (induction s)
  case (Cons x s)
  have "lower_char x = c \<longleftrightarrow> x = c" using Cons.prems lower_special [of x] lower_special [of c] by metis
  with Cons show ?case by (auto simp: py_lower_def split: prod.splits)
qed (simp add: py_lower_def)

lemma startswith_lower:
  "list_all url_special p \<Longrightarrow> py_startswith (py_lower s) p = py_startswith s p"
proof (induction s p rule: py_startswith.induct)
  case (3 c s d p)
  have "lower_char c = d \<longleftrightarrow> c = d" using 3(2) lower_special [of c] lower_special [of d] by auto
  with 3 show ?case by (simp add: py_lower_def)
qed (auto simp: py_lower_def)

lemma contains_lower: "list_all url_special p \<Longrightarrow> py_contains p (py_lower s) = py_contains p s"
proof (induction s)
  case (Cons c s)
  have "py_lower (c # s) = lower_char c # py_lower s" by (simp add: py_lower_def)
  with Cons startswith_lower [of p "c # s"] show ?case by simp
qed simp

lemma lower_class [simp]:
  "is_digit_char (lower_char c) = is_digit_char c" "is_space (lower_char c) = is_space c"
  "lower_char c = CHR ''/'' \<longleftrightarrow> c = CHR ''/''" "lower_char c = CHR 0x5C \<longleftrightarrow> c = CHR 0x5C"
  "lower_char c = CHR 0x0A \<longleftrightarrow> c = CHR 0x0A"
proof -
  show "is_space (lower_char c) = is_space c" by (rule is_space_lower)
  have "65 \<le> (of_char c :: nat) \<and> (of_char c :: nat) \<le> 90 \<Longrightarrow> (of_char (lower_char c) :: nat) = of_char c + 32"
    by (simp add: lower_char_def take_bit_nat_eq_self)
  then show "is_digit_char (lower_char c) = is_digit_char c"
    by (cases "65 \<le> (of_char c :: nat) \<and> (of_char c :: nat) \<le> 90") (auto simp: is_digit_char_def lower_char_def)
  show "lower_char c = CHR ''/'' \<longleftrightarrow> c = CHR ''/''" "lower_char c = CHR 0x5C \<longleftrightarrow> c = CHR 0x5C"
    "lower_char c = CHR 0x0A \<longleftrightarrow> c = CHR 0x0A"
    using lower_char_other [of c "CHR ''/''"] lower_char_other [of c "CHR 0x5C"] lower_char_other [of c "CHR 0x0A"]
    by (auto simp: lower_char_def)
qed

lemma all_digits_lower [simp]: "all_digits (py_lower s) = all_digits s"
  by (simp add: all_digits_def py_lower_def list_all_iff)

lemma match_source_lower: "match_source (py_lower s) = None \<longleftrightarrow> match_source s = None"
proof -
  have l: "(if py_lower r \<noteq> [] \<and> last (py_lower r) = CHR 0x0A then butlast (py_lower r) else py_lower r)
      = py_lower (if r \<noteq> [] \<and> last r = CHR 0x0A then butlast r else r)" for r
    by (auto simp: py_lower_def last_map map_butlast)
  have c: "url_special (CHR '':'')" by (simp add: url_special_def)
  have p: "list_ex (\<lambda>c. c = CHR ''/'' \<or> c = CHR 0x5C) (py_lower x) = list_ex (\<lambda>c. c = CHR ''/'' \<or> c = CHR 0x5C) x"
    "list_all (\<lambda>c. \<not> is_space c) (py_lower x) = list_all (\<lambda>c. \<not> is_space c) x" for x
    by (simp_all add: py_lower_def list_ex_iff list_all_iff)
  obtain x y where xy: "partition_char (CHR '':'') s = (x, y)" by fastforce
  show ?thesis
  proof (cases y)
    case None
    then show ?thesis by (simp add: match_source_def partition_lower [OF c] xy)
  next
    case (Some r)
    define r' where "r' = (if r \<noteq> [] \<and> last r = CHR 0x0A then butlast r else r)"
    obtain line col where lc: "partition_char (CHR '':'') r' = (line, col)" by fastforce
    have "match_source s = None \<longleftrightarrow> \<not> (list_ex (\<lambda>c. c = CHR ''/'' \<or> c = CHR 0x5C) x \<and> list_all (\<lambda>c. \<not> is_space c) x
        \<and> all_digits line \<and> (case col of None \<Rightarrow> True | Some d \<Rightarrow> all_digits d))"
      unfolding match_source_def xy Some option.case prod.case r'_def [symmetric] Let_def lc by simp
    moreover have "match_source (py_lower s) = None \<longleftrightarrow> \<not> (list_ex (\<lambda>c. c = CHR ''/'' \<or> c = CHR 0x5C) (py_lower x)
        \<and> list_all (\<lambda>c. \<not> is_space c) (py_lower x) \<and> all_digits (py_lower line)
        \<and> (case map_option py_lower col of None \<Rightarrow> True | Some d \<Rightarrow> all_digits d))"
      unfolding match_source_def partition_lower [OF c] xy Some option.map option.case prod.case l r'_def [symmetric] Let_def lc
      by simp
    ultimately show ?thesis by (cases col) (simp_all add: p)
  qed
qed

lemma looks_like_lower: "looks_like_source_location (py_lower s) = looks_like_source_location s"
  by (simp add: looks_like_source_location_def match_source_lower)

section \<open>Idempotence of the entry point\<close>

lemma strip_dot_slash_idem: "strip_dot_slash (strip_dot_slash s) = strip_dot_slash s"
  by (induction s rule: strip_dot_slash.induct) auto

lemma strip_dot_slash_sub: "set (strip_dot_slash s) \<subseteq> set s"
  by (induction s rule: strip_dot_slash.induct) auto

definition source_path :: "string \<Rightarrow> string" where
  "source_path path = strip_dot_slash (map (\<lambda>c. if c = CHR 0x5C then CHR ''/'' else c) path)"

lemma match_sourceD:
  assumes "match_source v = Some (path, line, col)"
  shows "CHR '':'' \<notin> set path" "list_all (\<lambda>c. \<not> is_space c) path" "all_digits line"
    "case col of None \<Rightarrow> True | Some d \<Rightarrow> all_digits d"
proof -
  obtain r where p: "partition_char (CHR '':'') v = (path, Some r)"
    using assms by (cases "partition_char (CHR '':'') v"; cases "snd (partition_char (CHR '':'') v)")
      (auto simp: match_source_def Let_def split: prod.splits if_splits)
  from partition_join [OF this] show "CHR '':'' \<notin> set path" by blast
  show "list_all (\<lambda>c. \<not> is_space c) path" "all_digits line" "case col of None \<Rightarrow> True | Some d \<Rightarrow> all_digits d"
    using assms p by (auto simp: match_source_def Let_def split: prod.splits if_splits option.splits)
qed

lemma digits_plain: "all_digits d \<Longrightarrow> CHR '':'' \<notin> set d \<and> last d \<noteq> CHR 0x0A \<and> d \<noteq> [] \<and> hd d \<noteq> CHR ''/''"
proof -
  assume a: "all_digits d"
  have n: "\<not> is_digit_char (CHR '':'')" "\<not> is_digit_char (CHR 0x0A)" "\<not> is_digit_char (CHR ''/'')"
    by (simp_all add: is_digit_char_def)
  have h: "hd d \<in> set d" "last d \<in> set d" using a by (simp_all add: all_digits_def)
  have e: "is_digit_char c" if "c \<in> set d" for c using a that by (simp add: all_digits_def list_all_iff)
  have "CHR '':'' \<notin> set d" "last d \<noteq> CHR 0x0A" "hd d \<noteq> CHR ''/''"
    using n e [OF h(1)] e [OF h(2)] e by metis+
  with a show ?thesis by (simp add: all_digits_def)
qed

lemma match_source_built:
  assumes "CHR '':'' \<notin> set path" "list_all (\<lambda>c. \<not> is_space c) path" "all_digits line"
    and "case col of None \<Rightarrow> True | Some d \<Rightarrow> all_digits d" and "CHR ''/'' \<in> set path"
  shows "match_source (path @ CHR '':'' # line @ (case col of None \<Rightarrow> [] | Some d \<Rightarrow> CHR '':'' # d)) = Some (path, line, col)"
proof -
  let ?r = "line @ (case col of None \<Rightarrow> [] | Some d \<Rightarrow> CHR '':'' # d)"
  have l: "\<not> (?r \<noteq> [] \<and> last ?r = CHR 0x0A)"
    using digits_plain [OF assms(3)] assms(4) digits_plain by (auto split: option.splits)
  have "partition_char (CHR '':'') ?r = (line, col)"
    using digits_plain [OF assms(3)] partition_split by (auto split: option.splits)
  then show ?thesis
    using assms l partition_split(1) [OF assms(1), of ?r]
    by (auto simp: match_source_def Let_def list_ex_iff)
qed

text \<open>The locations whose normal form keeps its kind.\<close>

definition steady_location :: "string \<Rightarrow> bool" where
  "steady_location v =
     (if py_contains ''://'' v then plain_url v
      else (case match_source v of Some (path, line, col) \<Rightarrow> CHR ''/'' \<in> set (source_path path) | None \<Rightarrow> True))"

lemma normalized_has_scheme:
  assumes "plain_url v"
  shows "py_contains ''://'' (normalize_url v)"
  unfolding normalize_plain_url [OF assms] url_unsplit_def py_contains_iff by (metis append.assoc)

lemma source_not_url:
  assumes "CHR '':'' \<notin> set path" "all_digits line" "case col of None \<Rightarrow> True | Some d \<Rightarrow> all_digits d"
  shows "\<not> py_contains ''://'' (path @ CHR '':'' # line @ (case col of None \<Rightarrow> [] | Some d \<Rightarrow> CHR '':'' # d))"
proof -
  have a: "py_contains ''://'' (x @ y) = py_contains ''://'' y" if "CHR '':'' \<notin> set x" for x y
    using that by (induction x) auto
  have n: "\<not> py_contains ''://'' x" if "CHR '':'' \<notin> set x" for x using that by (induction x) auto
  have s: "\<not> py_startswith (CHR '':'' # d @ y) ''://''" if "all_digits d" for d y
    using digits_plain [OF that] by (cases d) auto
  have "\<not> py_contains ''://'' (line @ (case col of None \<Rightarrow> [] | Some d \<Rightarrow> CHR '':'' # d))"
    using digits_plain [OF assms(2)] assms(3) digits_plain s [of _ "[]"] n by (auto simp: a split: option.splits)
  then show ?thesis
    using s [OF assms(2), of "case col of None \<Rightarrow> [] | Some d \<Rightarrow> CHR '':'' # d"] by (simp add: a [OF assms(1)])
qed

text \<open>
  Normalisation is idempotent on every location whose normal form keeps its kind: plain URLs, host and
  port, and source paths that keep a separator.
\<close>
theorem normalization_idempotent:
  assumes "steady_location v"
  shows "normalize_location (normalize_location (Some v)) = normalize_location (Some v)"
proof -
  consider (url) "py_contains ''://'' v"
    | (source) path line col where "\<not> py_contains ''://'' v" "match_source v = Some (path, line, col)"
    | (host) "\<not> py_contains ''://'' v" "match_source v = None" by (cases "match_source v") auto
  then show ?thesis
  proof cases
    case url
    then have p: "plain_url v" "v \<noteq> []" using assms by (auto simp: steady_location_def)
    have n: "normalize_url v \<noteq> []" using normalized_has_scheme [OF p(1)] by auto
    show ?thesis
      using url normalized_has_scheme [OF p(1)] n p(2) normalize_url_idem [OF p(1)] by (simp add: normalize_location_def Let_def)
  next
    case source
    note m = match_sourceD [OF source(2)]
    let ?p = "source_path path" and ?e = "line @ (case col of None \<Rightarrow> [] | Some d \<Rightarrow> CHR '':'' # d)"
    have s: "CHR ''/'' \<in> set ?p" using assms source by (simp add: steady_location_def)
    have bs: "CHR 0x5C \<notin> set ?p" "CHR '':'' \<notin> set ?p" "list_all (\<lambda>c. \<not> is_space c) ?p"
      using m(1,2) strip_dot_slash_sub [of "map (\<lambda>c. if c = CHR 0x5C then CHR ''/'' else c) path"]
      by (auto simp: source_path_def list_all_iff is_space_def dest!: subsetD split: if_splits)
    have i: "source_path ?p = ?p"
    proof -
      have "map (\<lambda>c. if c = CHR 0x5C then CHR ''/'' else c) ?p = ?p" using bs(1) by (intro map_idI) auto
      then show ?thesis unfolding source_path_def using strip_dot_slash_idem by metis
    qed
    have N: "normalize_source_location v = ?p @ CHR '':'' # ?e"
      by (simp add: normalize_source_location_def source(2) source_path_def)
    have M: "match_source (?p @ CHR '':'' # ?e) = Some (?p, line, col)"
      by (rule match_source_built [OF bs(2,3) m(3,4) s])
    have "v \<noteq> []" using source(2) by (auto simp: match_source_def)
    then have 1: "normalize_location (Some v) = Some (?p @ CHR '':'' # ?e)"
      using source by (simp add: normalize_location_def Let_def looks_like_source_location_def N)
    have 2: "normalize_source_location (?p @ CHR '':'' # ?e) = ?p @ CHR '':'' # ?e"
      unfolding normalize_source_location_def M using i by (simp add: source_path_def)
    show ?thesis
      unfolding 1 using source_not_url [OF bs(2) m(3,4)] M 2
      by (simp add: normalize_location_def Let_def looks_like_source_location_def)
  next
    case host
    have k: "py_contains ''://'' (normalize_host_port v) = py_contains ''://'' v"
        "looks_like_source_location (normalize_host_port v) = looks_like_source_location v"
      using contains_lower [of "''://''" v] contains_lower [of "''://''" "normalize_host_port v"]
        looks_like_lower [of v] looks_like_lower [of "normalize_host_port v"]
      by (simp_all add: host_port_lower url_special_def)
    show ?thesis
      using host k host_port_idem [of v]
      by (auto simp: normalize_location_def Let_def looks_like_source_location_def)
  qed
qed

theorem normalization_idempotent_witness:
  "normalize_location (normalize_location (Some ''http://u@H.ex:8080?q=%AB'')) = normalize_location (Some ''http://u@H.ex:8080?q=%AB'')"
  by (rule normalization_idempotent) code_simp

text \<open>
  The module says that normalisation is idempotent on every value. It is not: a second pass strips a second
  default port, and folds the case of a file whose directory was only \<open>./\<close>, so that two different
  source files get one normal form.
\<close>
theorem normalization_not_idempotent:
  "normalize_location (Some ''http://h:80:80/'') = Some ''http://h:80/''
   \<and> normalize_location (normalize_location (Some ''http://h:80:80/'')) = Some ''http://h/''
   \<and> normalize_location (Some ''./Main.java:1'') = Some ''Main.java:1''
   \<and> normalize_location (normalize_location (Some ''./Main.java:1'')) = Some ''main.java:1''
   \<and> normalize_location (normalize_location (Some ''./main.java:1'')) = Some ''main.java:1''"
  by code_simp

end
