(* ===== verification/Vuln_Taxonomy.thy ===== *)
theory Vuln_Taxonomy
  imports Issue_Classification Ip_Address
begin

text \<open>
  \<open>modules/vulnerabilities/taxonomy.py\<close>: the canonical severity, CWE and CVE vocabulary that is
  enforced where a finding enters the database. A reported value is an optional string (\<open>str(value or '')\<close>).
\<close>

section \<open>Severity\<close>

definition SEVERITIES :: "string list" where
  "SEVERITIES = [''critical'', ''high'', ''medium'', ''low'', ''info'']"

definition UNKNOWN_SEVERITY_FALLBACK :: string where
  "UNKNOWN_SEVERITY_FALLBACK = ''medium''"

definition SEVERITY_ALIASES :: "(string \<times> string) list" where
  "SEVERITY_ALIASES =
     [(''informational'', ''info''), (''information'', ''info''), (''none'', ''info''),
      (''unknown'', UNKNOWN_SEVERITY_FALLBACK), (''moderate'', ''medium''), (''important'', ''high''),
      (''severe'', ''high'')]"

definition norm_text :: "string option \<Rightarrow> string" where
  "norm_text value = py_lower (py_strip (or_empty value))"

definition normalize_severity :: "string option \<Rightarrow> string" where
  "normalize_severity value =
     (let t = norm_text value in
      if List.member SEVERITIES t then t
      else (case map_of SEVERITY_ALIASES t of Some s \<Rightarrow> s | None \<Rightarrow> UNKNOWN_SEVERITY_FALLBACK))"

definition severity_is_canonical :: "string option \<Rightarrow> bool" where
  "severity_is_canonical value =
     (List.member SEVERITIES (norm_text value)
      \<and> (case value of None \<Rightarrow> False | Some s \<Rightarrow> s = py_lower (py_strip s)))"

section \<open>CWE\<close>

text \<open>\<open>_CWE_RE\<close> and \<open>_BARE_CWE_RE\<close> on stripped lower-case text: the digits of the id.\<close>

definition is_id_sep :: "char \<Rightarrow> bool" where
  "is_id_sep c = (c = CHR ''-'' \<or> c = CHR ''_'' \<or> c = CHR '' '')"

definition skip_sep :: "string \<Rightarrow> string" where
  "skip_sep s = (case s of [] \<Rightarrow> [] | c # rest \<Rightarrow> if is_id_sep c then rest else s)"

definition match_cwe :: "string \<Rightarrow> string option" where
  "match_cwe t =
     (let digits = skip_sep (drop 3 t) in
      if py_startswith t ''cwe'' \<and> all_digits digits then Some digits
      else if all_digits t then Some t else None)"

definition canonical_cwe :: "string option \<Rightarrow> string option" where
  "canonical_cwe value =
     (let t = norm_text value in
      if t = [] then None
      else (case match_cwe t of
              None \<Rightarrow> None
            | Some digits \<Rightarrow>
                (let number = dropWhile (\<lambda>c. c = CHR ''0'') digits in
                 if number = [] then None else Some (''cwe-'' @ number))))"

definition cwe_is_canonical :: "string option \<Rightarrow> bool" where
  "cwe_is_canonical value = (or_empty value \<noteq> [] \<and> Some (or_empty value) = canonical_cwe (Some (or_empty value)))"

section \<open>CVE\<close>

text \<open>\<open>_CVE_RE\<close> at both ends: four digits of the year, then four to seven of the sequence.\<close>

definition match_cve_id :: "string \<Rightarrow> (string \<times> string) option" where
  "match_cve_id t =
     (let year = take 4 (skip_sep (drop 3 t)); number = skip_sep (drop 4 (skip_sep (drop 3 t))) in
      if py_startswith t ''cve'' \<and> length year = 4 \<and> all_digits year
         \<and> 4 \<le> length number \<and> length number \<le> 7 \<and> all_digits number
      then Some (year, number) else None)"

definition canonical_cve :: "string option \<Rightarrow> string option" where
  "canonical_cve value =
     (let t = norm_text value in
      if t = [] then None
      else map_option (\<lambda>(year, number). ''CVE-'' @ year @ ''-'' @ number) (match_cve_id t))"

definition cve_is_canonical :: "string option \<Rightarrow> bool" where
  "cve_is_canonical value = (or_empty value \<noteq> [] \<and> Some (or_empty value) = canonical_cve (Some (or_empty value)))"

section \<open>Laws\<close>

text \<open>What a canonical CWE looks like, without reference to the normaliser.\<close>

definition cwe_shape :: "string \<Rightarrow> bool" where
  "cwe_shape s = (\<exists>c ds. s = ''cwe-'' @ c # ds \<and> c \<noteq> CHR ''0'' \<and> list_all is_digit_char (c # ds))"

lemma normalize_severity_in: "normalize_severity v \<in> set SEVERITIES"
proof (cases "map_of SEVERITY_ALIASES (norm_text v)")
  case None
  then show ?thesis
    by (auto simp: normalize_severity_def Let_def UNKNOWN_SEVERITY_FALLBACK_def SEVERITIES_def)
next
  case (Some s)
  then have "s \<in> snd ` set SEVERITY_ALIASES" by (force dest: map_of_SomeD)
  then have "s \<in> set SEVERITIES"
    by (auto simp: SEVERITY_ALIASES_def UNKNOWN_SEVERITY_FALLBACK_def SEVERITIES_def)
  with Some show ?thesis by (auto simp: normalize_severity_def Let_def)
qed

lemma digit_not_space: "is_digit_char c \<Longrightarrow> \<not> is_space c"
  by (auto simp: is_digit_char_def is_space_def Let_def)

lemma lower_digit: "is_digit_char c \<Longrightarrow> lower_char c = c"
  by (auto simp: is_digit_char_def lower_char_def)

lemma strip_id: "s \<noteq> [] \<Longrightarrow> \<not> is_space (hd s) \<Longrightarrow> \<not> is_space (last s) \<Longrightarrow> py_strip s = s"
proof -
  assume a: "s \<noteq> []" "\<not> is_space (hd s)" "\<not> is_space (last s)"
  have d: "xs \<noteq> [] \<Longrightarrow> \<not> P (hd xs) \<Longrightarrow> dropWhile P xs = xs" for P and xs :: string by (cases xs) auto
  show "py_strip s = s" unfolding py_strip_def py_lstrip_def using a by (simp add: d hd_rev)
qed

lemma match_cwe_digits: "match_cwe t = Some ds \<Longrightarrow> list_all is_digit_char ds \<and> ds \<noteq> []"
  by (auto simp: match_cwe_def all_digits_def Let_def split: if_splits)

lemma dropWhile_zeros:
  assumes "dropWhile (\<lambda>c. c = CHR ''0'') ds = c # rest" and "list_all is_digit_char ds"
  shows "c \<noteq> CHR ''0'' \<and> list_all is_digit_char (c # rest)"
proof -
  have "c \<noteq> CHR ''0''" using assms(1) hd_dropWhile [of "\<lambda>c. c = CHR ''0''" ds] by force
  moreover have "set (c # rest) \<subseteq> set ds" using assms(1) set_dropWhileD [of _ "\<lambda>c. c = CHR ''0''" ds] by auto
  ultimately show ?thesis using assms(2) by (auto simp: list_all_iff)
qed

lemma canonical_cwe_shape: "canonical_cwe v = Some s \<Longrightarrow> cwe_shape s"
proof -
  assume "canonical_cwe v = Some s"
  then obtain digits where d: "match_cwe (norm_text v) = Some digits"
      and n: "dropWhile (\<lambda>c. c = CHR ''0'') digits \<noteq> []" "s = ''cwe-'' @ dropWhile (\<lambda>c. c = CHR ''0'') digits"
    by (auto simp: canonical_cwe_def Let_def split: if_splits option.splits)
  obtain c rest where e: "dropWhile (\<lambda>c. c = CHR ''0'') digits = c # rest" using n(1) by (cases "dropWhile (\<lambda>c. c = CHR ''0'') digits") auto
  from dropWhile_zeros [OF e] match_cwe_digits [OF d] n(2) e show "cwe_shape s" unfolding cwe_shape_def by auto
qed

lemma canonical_cwe_fix:
  assumes "cwe_shape s"
  shows "canonical_cwe (Some s) = Some s"
proof -
  from assms obtain c ds where s: "s = ''cwe-'' @ c # ds" "c \<noteq> CHR ''0''" "list_all is_digit_char (c # ds)"
    by (auto simp: cwe_shape_def)
  have "\<not> is_space (last s)" using s(1,3) digit_not_space by (auto simp: list_all_iff)
  moreover have "\<not> is_space (hd s)" using s(1) by (simp add: is_space_def)
  ultimately have "py_strip s = s" using s(1) by (intro strip_id) auto
  moreover have "py_lower s = s"
  proof -
    have "map lower_char (c # ds) = c # ds" using s(3) by (auto simp: list_all_iff lower_digit intro!: map_idI)
    then show ?thesis unfolding s(1) py_lower_def by (simp add: lower_char_def)
  qed
  ultimately have n: "norm_text (Some s) = s" by (simp add: norm_text_def)
  have "skip_sep (drop 3 s) = c # ds" by (simp add: s(1) skip_sep_def is_id_sep_def)
  then have "match_cwe s = Some (c # ds)"
    using s(3) by (simp add: match_cwe_def all_digits_def s(1))
  moreover have "dropWhile (\<lambda>c. c = CHR ''0'') (c # ds) = c # ds" using s(2) by simp
  moreover have "s \<noteq> []" "''cwe-'' @ c # ds = s" using s(1) by auto
  ultimately show ?thesis unfolding canonical_cwe_def n Let_def by (simp del: append.simps dropWhile.simps)
qed

lemma cwe_is_canonical_iff: "cwe_is_canonical (Some s) \<longleftrightarrow> cwe_shape s"
proof -
  have "s \<noteq> []" if "cwe_shape s" using that by (auto simp: cwe_shape_def)
  then show ?thesis
    using canonical_cwe_shape [of "Some s" s] canonical_cwe_fix [of s] by (auto simp: cwe_is_canonical_def)
qed

text \<open>
  The comment on \<open>_CVE_RE\<close> says that this module and the classifier cannot disagree about what a CVE
  looks like. They do: spaces and missing separators are accepted here and not recognised there.
\<close>

theorem cve_readers_disagree:
  "canonical_cve (Some ''CVE 2021 41773'') = Some ''CVE-2021-41773'' \<and> recover_cve [Some ''CVE 2021 41773''] = None
   \<and> canonical_cve (Some ''cve202141773'') = Some ''CVE-2021-41773'' \<and> recover_cve [Some ''cve202141773''] = None"
  by code_simp

end
