(* ===== verification/Vulnerability_Store.thy ===== *)
theory Vulnerability_Store
  imports Vuln_Taxonomy Location_Normalize Remediation_Service
begin

text \<open>
  \<open>modules/vulnerabilities/service.py\<close> and \<open>lineage.py\<close> over the rows of \<open>models.py\<close>: the
  deduplication of findings, their content history and lineage, and the status set by an analyst. The
  remediation tables that the ingest path also writes are a field of the state. \<open>same_text\<close> is the
  comparison of the database's collation (\<open>utf8mb4_unicode_ci\<close>), which the queries use on text.
\<close>

section \<open>Rows\<close>

record vulnerability =
  vn_id :: uuid
  vn_project_id :: uuid
  vn_asset_id :: "uuid option"
  vn_first_detected_scan_id :: "uuid option"
  vn_last_seen_scan_id :: "uuid option"
  vn_fingerprint :: string
  vn_title :: string
  vn_category :: "string option"
  vn_description :: "string option"
  vn_severity :: string
  vn_cvss_vector :: "string option"
  vn_cvss_score :: "real option"
  vn_status :: string
  vn_status_justification :: "fstring option"
  vn_status_changed_by :: "uuid option"
  vn_status_changed_at :: "time option"
  vn_created_at :: time

record vulnerability_evidence =
  ve_vulnerability_id :: uuid
  ve_evidence_id :: uuid
  ve_tool_run_id :: uuid

record vulnerability_history =
  vh_project_id :: uuid
  vh_vulnerability_id :: uuid
  vh_scan_id :: uuid
  vh_tool_run_id :: uuid
  vh_fingerprint :: string
  vh_title :: string
  vh_category :: "string option"
  vh_description :: "string option"
  vh_severity :: string
  vh_cvss_vector :: "string option"
  vh_cvss_score :: "real option"
  vh_change_reason :: string

record vulnerability_lineage =
  vl_project_id :: uuid
  vl_old_vulnerability_id :: uuid
  vl_new_vulnerability_id :: uuid
  vl_match_rule :: string
  vl_matched_location :: "string option"
  vl_inherited_status :: "string option"

record vuln_db =
  vb_vulns :: "vulnerability list"
  vb_links :: "vulnerability_evidence list"
  vb_history :: "vulnerability_history list"
  vb_lineage :: "vulnerability_lineage list"
  vb_next :: uuid
  vb_rem :: rem_db

text \<open>A finding as a tool reports it.\<close>

record vulnerability_finding =
  fd_fingerprint :: string
  fd_title :: string
  fd_severity :: "string option"
  fd_category :: "string option"
  fd_description :: "string option"
  fd_cvss_vector :: "string option"
  fd_cvss_score :: "real option"

section \<open>Statuses\<close>

definition SETTABLE_STATUSES :: "string list" where
  "SETTABLE_STATUSES = [''open'', ''confirmed'', ''false_positive'', ''fixed'', ''accepted_risk'']"

definition STICKY_STATUSES :: "string list" where
  "STICKY_STATUSES = [''false_positive'', ''accepted_risk'']"

definition LEGAL_STATUS_TRANSITIONS :: "(string \<times> string list) list" where
  "LEGAL_STATUS_TRANSITIONS =
     [(''open'', [''confirmed'', ''false_positive'', ''fixed'', ''accepted_risk'']),
      (''confirmed'', [''open'', ''false_positive'', ''fixed'', ''accepted_risk'']),
      (''reopened'', [''open'', ''confirmed'', ''false_positive'', ''fixed'', ''accepted_risk'']),
      (''fixed'', [''open'', ''confirmed'']),
      (''false_positive'', [''open'', ''confirmed'']),
      (''accepted_risk'', [''open'', ''confirmed''])]"

definition legal_status_targets :: "string \<Rightarrow> string list" where
  "legal_status_targets current =
     (case map_of LEGAL_STATUS_TRANSITIONS current of Some ts \<Rightarrow> ts | None \<Rightarrow> SETTABLE_STATUSES)"

section \<open>Scores, keys and history\<close>

definition SEVERITY_SCORE :: "(string \<times> real) list" where
  "SEVERITY_SCORE =
     [(''info'', 0), (''low'', 31 / 10), (''medium'', 55 / 10), (''high'', 75 / 10), (''critical'', 95 / 10)]"

definition score_for :: "vulnerability_finding \<Rightarrow> real option" where
  "score_for f =
     (case fd_cvss_score f of
        Some v \<Rightarrow> Some v
      | None \<Rightarrow> (case fd_severity f of None \<Rightarrow> None | Some s \<Rightarrow> map_of SEVERITY_SCORE s))"

definition workspace_for_project :: "uuid \<Rightarrow> rem_db \<Rightarrow> uuid option" where
  "workspace_for_project project db = map_option snd (List.find (\<lambda>p. fst p = project) (db_projects db))"

text \<open>\<open>_issue_key_for\<close>: the row it builds carries a template id and a title only.\<close>

definition issue_key_for :: "vulnerability \<Rightarrow> string" where
  "issue_key_for v =
     issue_key \<lparr>f_template_id = fst (parse_fingerprint (Some (vn_fingerprint v))), f_title = Some (vn_title v),
                f_severity = None, f_status = None, f_matched_at = None, f_cvss_score = None,
                f_final_risk_score = None, f_category = None, f_tags = None, f_cve = None\<rparr>"

definition content_changed :: "vulnerability \<Rightarrow> vulnerability_finding \<Rightarrow> real option \<Rightarrow> bool" where
  "content_changed v f new_score =
     (vn_title v \<noteq> fd_title f \<or> vn_description v \<noteq> fd_description f
      \<or> vn_severity v \<noteq> normalize_severity (fd_severity f) \<or> vn_cvss_vector v \<noteq> fd_cvss_vector f
      \<or> vn_cvss_score v \<noteq> new_score)"

definition snapshot :: "vulnerability \<Rightarrow> uuid \<Rightarrow> uuid \<Rightarrow> uuid \<Rightarrow> string \<Rightarrow> vulnerability_history" where
  "snapshot v project scan run reason =
     \<lparr>vh_project_id = project, vh_vulnerability_id = vn_id v, vh_scan_id = scan, vh_tool_run_id = run,
      vh_fingerprint = vn_fingerprint v, vh_title = vn_title v, vh_category = vn_category v,
      vh_description = vn_description v, vh_severity = vn_severity v, vh_cvss_vector = vn_cvss_vector v,
      vh_cvss_score = vn_cvss_score v, vh_change_reason = reason\<rparr>"

definition record_history ::
  "vulnerability \<Rightarrow> uuid \<Rightarrow> uuid \<Rightarrow> uuid \<Rightarrow> string \<Rightarrow> vuln_db \<Rightarrow> vuln_db" where
  "record_history v project scan run reason db =
     db\<lparr>vb_history := vb_history db @ [snapshot v project scan run reason]\<rparr>"

text \<open>A dirty row of the session, flushed by its primary key.\<close>

definition put_vuln :: "vulnerability \<Rightarrow> vuln_db \<Rightarrow> vuln_db" where
  "put_vuln v db = db\<lparr>vb_vulns := update_where (\<lambda>r. vn_id r = vn_id v) (\<lambda>_. v) (vb_vulns db)\<rparr>"

section \<open>Lineage\<close>

definition MATCH_RULE_TEMPLATE_AND_LOCATION :: string where
  "MATCH_RULE_TEMPLATE_AND_LOCATION = ''template_id+normalized_location''"

definition matches_lineage :: "string option \<Rightarrow> string option \<Rightarrow> vulnerability \<Rightarrow> bool" where
  "matches_lineage template_id normalized_new v =
     (case parse_fingerprint (Some (vn_fingerprint v)) of
        (template, _, matched_at) \<Rightarrow>
          template = template_id \<and> truthy (normalize_location matched_at)
          \<and> normalize_location matched_at = normalized_new)"

definition find_ancestor ::
  "(string \<Rightarrow> string \<Rightarrow> bool) \<Rightarrow> uuid \<Rightarrow> string option \<Rightarrow> string option \<Rightarrow> string \<Rightarrow> vuln_db
   \<Rightarrow> (vulnerability \<times> string option) option" where
  "find_ancestor same_text project template_id matched_at exclude_fingerprint db =
     (if \<not> truthy template_id \<or> \<not> truthy matched_at then None
      else (let normalized_new = normalize_location matched_at in
            if \<not> truthy normalized_new then None
            else (case filter (matches_lineage template_id normalized_new)
                         (filter (\<lambda>v. vn_project_id v = project \<and> \<not> same_text (vn_fingerprint v) exclude_fingerprint)
                            (vb_vulns db)) of
                    [v] \<Rightarrow> Some (v, normalized_new)
                  | _ \<Rightarrow> None)))"

definition sticky_status_to_inherit :: "string \<Rightarrow> string option" where
  "sticky_status_to_inherit st = (if List.member STICKY_STATUSES st then Some st else None)"

definition record_lineage :: "vulnerability_lineage \<Rightarrow> vuln_db \<Rightarrow> vuln_db" where
  "record_lineage l db =
     (if list_ex (\<lambda>x. vl_new_vulnerability_id x = vl_new_vulnerability_id l) (vb_lineage db) then db
      else db\<lparr>vb_lineage := vb_lineage db @ [l]\<rparr>)"

section \<open>Ingest\<close>

definition frags_truthy :: "fstring \<Rightarrow> bool" where
  "frags_truthy fs = list_ex (\<lambda>x. case x of Lit s \<Rightarrow> s \<noteq> [] | _ \<Rightarrow> True) fs"

definition inherited_justification :: "vulnerability \<Rightarrow> fstring" where
  "inherited_justification a =
     [Lit ''Inherited from a prior finding with a different fingerprint (vulnerability '', Uid (vn_id a),
      Lit ''), deterministically matched by template + normalized location. Original justification: '']
     @ (case vn_status_justification a of
          Some fs \<Rightarrow> if frags_truthy fs then fs else [Lit ''(none recorded)'']
        | None \<Rightarrow> [Lit ''(none recorded)''])"

definition new_vulnerability ::
  "time \<Rightarrow> uuid \<Rightarrow> uuid \<Rightarrow> uuid option \<Rightarrow> vulnerability_finding \<Rightarrow> uuid \<Rightarrow> vulnerability" where
  "new_vulnerability now project scan asset f i =
     \<lparr>vn_id = i, vn_project_id = project, vn_asset_id = asset, vn_first_detected_scan_id = Some scan,
      vn_last_seen_scan_id = Some scan, vn_fingerprint = fd_fingerprint f, vn_title = fd_title f,
      vn_category = canonical_cwe (fd_category f), vn_description = fd_description f,
      vn_severity = normalize_severity (fd_severity f), vn_cvss_vector = fd_cvss_vector f,
      vn_cvss_score = score_for f, vn_status = ''open'', vn_status_justification = None,
      vn_status_changed_by = None, vn_status_changed_at = None, vn_created_at = now\<rparr>"

text \<open>The lineage of a new row: what it inherits, and the link.\<close>

definition inherit :: "vulnerability \<Rightarrow> vulnerability \<Rightarrow> vulnerability" where
  "inherit a v =
     (case sticky_status_to_inherit (vn_status a) of
        None \<Rightarrow> v
      | Some st \<Rightarrow>
          v\<lparr>vn_status := st, vn_status_justification := Some (inherited_justification a),
            vn_status_changed_by := vn_status_changed_by a, vn_status_changed_at := vn_status_changed_at a\<rparr>)"

definition link_ancestor ::
  "(string \<Rightarrow> string \<Rightarrow> bool) \<Rightarrow> uuid \<Rightarrow> vulnerability_finding \<Rightarrow> vulnerability \<Rightarrow> vuln_db \<Rightarrow> vulnerability \<times> vuln_db" where
  "link_ancestor same_text project f v db =
     (case parse_fingerprint (Some (fd_fingerprint f)) of
        (template_id, _, matched_at) \<Rightarrow>
          (case find_ancestor same_text project template_id matched_at (fd_fingerprint f) db of
             None \<Rightarrow> (v, db)
           | Some (a, location) \<Rightarrow>
               (inherit a v,
                record_lineage
                  \<lparr>vl_project_id = project, vl_old_vulnerability_id = vn_id a, vl_new_vulnerability_id = vn_id v,
                   vl_match_rule = MATCH_RULE_TEMPLATE_AND_LOCATION, vl_matched_location = location,
                   vl_inherited_status = sticky_status_to_inherit (vn_status a)\<rparr>
                  (put_vuln (inherit a v) db))))"

definition create_vulnerability ::
  "(string \<Rightarrow> string \<Rightarrow> bool) \<Rightarrow> time \<Rightarrow> uuid \<Rightarrow> uuid \<Rightarrow> uuid option \<Rightarrow> uuid \<Rightarrow> vulnerability_finding \<Rightarrow> vuln_db
   \<Rightarrow> vulnerability \<times> vuln_db" where
  "create_vulnerability same_text now project scan asset run f db =
     (let v = new_vulnerability now project scan asset f (vb_next db);
          db1 = db\<lparr>vb_vulns := vb_vulns db @ [v], vb_next := vb_next db + 1\<rparr>
      in link_ancestor same_text project f v (record_history v project scan run ''created'' db1))"

definition refreshed ::
  "uuid \<Rightarrow> uuid option \<Rightarrow> vulnerability_finding \<Rightarrow> vulnerability \<Rightarrow> vulnerability" where
  "refreshed scan asset f v =
     (let v1 = v\<lparr>vn_last_seen_scan_id := Some scan, vn_title := fd_title f, vn_description := fd_description f,
                 vn_severity := normalize_severity (fd_severity f), vn_cvss_vector := fd_cvss_vector f,
                 vn_cvss_score := score_for f\<rparr>;
          v2 = (case asset of None \<Rightarrow> v1 | Some a \<Rightarrow> v1\<lparr>vn_asset_id := Some a\<rparr>)
      in if vn_status v2 = ''fixed'' then v2\<lparr>vn_status := ''reopened''\<rparr> else v2)"

text \<open>The regression of a fixed finding moves its remediation item; an error there is swallowed.\<close>

definition reopen_item :: "time \<Rightarrow> uuid \<Rightarrow> vulnerability \<Rightarrow> rem_db \<Rightarrow> rem_db" where
  "reopen_item now project v db =
     (case workspace_for_project project db of
        None \<Rightarrow> db
      | Some ws \<Rightarrow>
          (case reopen_for_regression now ws project (issue_key_for v) db of Inl _ \<Rightarrow> db | Inr (_, db') \<Rightarrow> db'))"

definition refresh_vulnerability ::
  "time \<Rightarrow> uuid \<Rightarrow> uuid \<Rightarrow> uuid option \<Rightarrow> uuid \<Rightarrow> vulnerability_finding \<Rightarrow> vulnerability \<Rightarrow> vuln_db
   \<Rightarrow> vulnerability \<times> vuln_db" where
  "refresh_vulnerability now project scan asset run f v db =
     (let v' = refreshed scan asset f v;
          db1 = (if content_changed v f (score_for f) then record_history v' project scan run ''observed'' db else db);
          db2 = put_vuln v' db1
      in (v', if vn_status v = ''fixed'' then db2\<lparr>vb_rem := reopen_item now project v' (vb_rem db2)\<rparr> else db2))"

text \<open>Insert-or-ignore on the primary key (vulnerability, evidence).\<close>

definition link_evidence :: "uuid \<Rightarrow> uuid \<Rightarrow> uuid \<Rightarrow> vuln_db \<Rightarrow> vuln_db" where
  "link_evidence v evidence run db =
     (if list_ex (\<lambda>l. ve_vulnerability_id l = v \<and> ve_evidence_id l = evidence) (vb_links db) then db
      else db\<lparr>vb_links := vb_links db @
                [\<lparr>ve_vulnerability_id = v, ve_evidence_id = evidence, ve_tool_run_id = run\<rparr>]\<rparr>)"

definition existing_vulnerability ::
  "(string \<Rightarrow> string \<Rightarrow> bool) \<Rightarrow> uuid \<Rightarrow> string \<Rightarrow> vuln_db \<Rightarrow> vulnerability option" where
  "existing_vulnerability same_text project fingerprint db =
     find_row (\<lambda>v. vn_project_id v = project \<and> same_text (vn_fingerprint v) fingerprint) (vb_vulns db)"

definition ingest_finding ::
  "(string \<Rightarrow> string \<Rightarrow> bool) \<Rightarrow> time \<Rightarrow> uuid \<Rightarrow> uuid \<Rightarrow> vulnerability_finding \<Rightarrow> uuid \<Rightarrow> uuid \<Rightarrow> uuid option \<Rightarrow> vuln_db
   \<Rightarrow> vulnerability \<times> vuln_db" where
  "ingest_finding same_text now project scan f run evidence asset db =
     (let (v, db') =
            (case existing_vulnerability same_text project (fd_fingerprint f) db of
               None \<Rightarrow> create_vulnerability same_text now project scan asset run f db
             | Some v \<Rightarrow> refresh_vulnerability now project scan asset run f v db)
      in (v, link_evidence (vn_id v) evidence run db'))"

section \<open>Requests\<close>

text \<open>\<open>get_vulnerability\<close>, with the workspace filter that the ORM adds through the project.\<close>

definition get_vuln :: "uuid \<Rightarrow> uuid \<Rightarrow> uuid \<Rightarrow> vuln_db \<Rightarrow> http_error + vulnerability" where
  "get_vuln workspace project i db =
     (case find_row (\<lambda>v. vn_id v = i \<and> vn_project_id v = project
               \<and> List.member (db_projects (vb_rem db)) (project, workspace)) (vb_vulns db) of
        None \<Rightarrow> Inl (Http404 ''Vulnerability not found'')
      | Some v \<Rightarrow> Inr v)"

definition set_vulnerability_status ::
  "time \<Rightarrow> uuid \<Rightarrow> uuid \<Rightarrow> uuid \<Rightarrow> string \<Rightarrow> string \<Rightarrow> uuid \<Rightarrow> vuln_db \<Rightarrow> http_error + vulnerability \<times> vuln_db" where
  "set_vulnerability_status now workspace project i new_status justification changed_by db =
     (if \<not> List.member SETTABLE_STATUSES new_status then Inl (Http400 ''Status must be one of'')
      else res_bind (get_vuln workspace project i db) (\<lambda>v.
        if \<not> List.member (legal_status_targets (vn_status v)) new_status
        then Inl (Http409 ''Illegal status transition'')
        else (let v' = v\<lparr>vn_status := new_status, vn_status_justification := Some [Lit justification],
                         vn_status_changed_by := Some changed_by, vn_status_changed_at := Some now\<rparr>;
                  db1 = put_vuln v' db
              in Inr (v', db1\<lparr>vb_rem :=
                   audit_record workspace (Some changed_by) ''vulnerability.status_changed'' ''vulnerability'' (Some i)
                     (Some [Lit (vn_status v), Lit '' -> '', Lit new_status, Lit '': '', Lit justification]) None
                     (vb_rem db1)\<rparr>))))"

text \<open>
  A page of a list: \<open>NULL\<close> scores last, then by creation and id. The total counts what the filters keep.
\<close>

definition list_key :: "vulnerability \<Rightarrow> bool \<times> real \<times> time \<times> uuid" where
  "list_key v =
     (vn_cvss_score v = None, (case vn_cvss_score v of None \<Rightarrow> 0 | Some s \<Rightarrow> - s), vn_created_at v, vn_id v)"

definition keeps :: "(string \<Rightarrow> string \<Rightarrow> bool) \<Rightarrow> string option \<Rightarrow> string \<Rightarrow> bool" where
  "keeps same_text wanted s = (if truthy wanted then same_text s (or_empty wanted) else True)"

definition paginate :: "nat \<Rightarrow> nat \<Rightarrow> 'a list \<Rightarrow> 'a list \<times> nat" where
  "paginate limit offset rows = (take limit (drop offset rows), length rows)"

definition list_vulnerabilities ::
  "(string \<Rightarrow> string \<Rightarrow> bool) \<Rightarrow> uuid \<Rightarrow> uuid \<Rightarrow> string option \<Rightarrow> string option \<Rightarrow> nat \<Rightarrow> nat \<Rightarrow> vuln_db
   \<Rightarrow> http_error + vulnerability list \<times> nat" where
  "list_vulnerabilities same_text workspace project severity status_filter limit offset db =
     res_bind (get_project workspace project (vb_rem db)) (\<lambda>_.
       Inr (paginate limit offset
              (sort_key list_key
                 (filter (\<lambda>v. vn_project_id v = project \<and> keeps same_text severity (vn_severity v)
                            \<and> keeps same_text status_filter (vn_status v)) (vb_vulns db)))))"

end
