(* ===== verification/Vulnerability_System.thy ===== *)
theory Vulnerability_System
  imports Vulnerability_Store Remediation_System
begin

text \<open>
  The vulnerability tables under every operation that writes them, at any time and in any order: the
  ingest of findings, an analyst's status, and the steps of the remediation workflow. The invariant, and
  how a row moves.
\<close>

section \<open>Steps\<close>

inductive vuln_step :: "(string \<Rightarrow> string \<Rightarrow> bool) \<Rightarrow> vuln_db \<Rightarrow> vuln_db \<Rightarrow> bool" for same_text where
  ingest: "ingest_finding same_text now project scan f run evidence asset db = (v, db') \<Longrightarrow> vuln_step same_text db db'"
| status: "set_vulnerability_status now ws project i st justification actor db = Inr (v, db') \<Longrightarrow> vuln_step same_text db db'"
| workflow: "rem_step (vb_rem db) r \<Longrightarrow> vuln_step same_text db (db\<lparr>vb_rem := r\<rparr>)"

section \<open>The invariant\<close>

definition VULNERABILITY_STATUSES :: "string list" where
  "VULNERABILITY_STATUSES = [''open'', ''confirmed'', ''false_positive'', ''fixed'', ''accepted_risk'', ''reopened'']"

definition typed_vulnerability :: "vulnerability \<Rightarrow> bool" where
  "typed_vulnerability v =
     (vn_severity v \<in> set SEVERITIES \<and> vn_status v \<in> set VULNERABILITY_STATUSES
      \<and> (case vn_category v of None \<Rightarrow> True | Some c \<Rightarrow> cwe_shape c))"

definition one_row_per_issue :: "(string \<Rightarrow> string \<Rightarrow> bool) \<Rightarrow> vuln_db \<Rightarrow> bool" where
  "one_row_per_issue same_text db =
     (unique_key vn_id (vb_vulns db) \<and> (\<forall>v \<in> set (vb_vulns db). vn_id v < vb_next db)
      \<and> (\<forall>v \<in> set (vb_vulns db). \<forall>w \<in> set (vb_vulns db).
           vn_project_id v = vn_project_id w \<and> same_text (vn_fingerprint v) (vn_fingerprint w) \<longrightarrow> v = w))"

definition latest_snapshot :: "uuid \<Rightarrow> vulnerability_history list \<Rightarrow> vulnerability_history option" where
  "latest_snapshot i hs = List.find (\<lambda>h. vh_vulnerability_id h = i) (rev hs)"

definition shows_content :: "vulnerability \<Rightarrow> vulnerability_history \<Rightarrow> bool" where
  "shows_content v h =
     (vh_title h = vn_title v \<and> vh_description h = vn_description v \<and> vh_severity h = vn_severity v
      \<and> vh_cvss_vector h = vn_cvss_vector v \<and> vh_cvss_score h = vn_cvss_score v
      \<and> vh_category h = vn_category v \<and> vh_fingerprint h = vn_fingerprint v)"

definition history_current :: "vuln_db \<Rightarrow> bool" where
  "history_current db =
     ((\<forall>h \<in> set (vb_history db). vh_vulnerability_id h < vb_next db)
      \<and> (\<forall>v \<in> set (vb_vulns db). \<exists>h. latest_snapshot (vn_id v) (vb_history db) = Some h \<and> shows_content v h))"

definition lineage_sound :: "vuln_db \<Rightarrow> bool" where
  "lineage_sound db =
     (unique_key vl_new_vulnerability_id (vb_lineage db)
      \<and> (\<forall>l \<in> set (vb_lineage db). \<exists>a \<in> set (vb_vulns db). \<exists>v \<in> set (vb_vulns db).
           vn_id a = vl_old_vulnerability_id l \<and> vn_id v = vl_new_vulnerability_id l \<and> vn_id a < vn_id v
           \<and> vn_project_id a = vl_project_id l \<and> vn_project_id v = vl_project_id l))"

definition links_sound :: "vuln_db \<Rightarrow> bool" where
  "links_sound db =
     (unique_key (\<lambda>l. (ve_vulnerability_id l, ve_evidence_id l)) (vb_links db)
      \<and> ve_vulnerability_id ` set (vb_links db) \<subseteq> vn_id ` set (vb_vulns db))"

definition vuln_inv :: "(string \<Rightarrow> string \<Rightarrow> bool) \<Rightarrow> vuln_db \<Rightarrow> bool" where
  "vuln_inv same_text db =
     (one_row_per_issue same_text db \<and> history_current db \<and> lineage_sound db \<and> links_sound db)"

section \<open>What the operations do to the tables\<close>

lemma inherit_simps [simp]:
  "vn_id (inherit a v) = vn_id v" "vn_project_id (inherit a v) = vn_project_id v"
  "vn_fingerprint (inherit a v) = vn_fingerprint v" "vn_category (inherit a v) = vn_category v"
  "vn_severity (inherit a v) = vn_severity v" "shows_content (inherit a v) = shows_content v"
  "vn_last_seen_scan_id (inherit a v) = vn_last_seen_scan_id v"
  by (auto simp: inherit_def shows_content_def split: option.split)

lemma refreshed_simps [simp]:
  "vn_id (refreshed scan asset f v) = vn_id v" "vn_project_id (refreshed scan asset f v) = vn_project_id v"
  "vn_fingerprint (refreshed scan asset f v) = vn_fingerprint v" "vn_category (refreshed scan asset f v) = vn_category v"
  "vn_severity (refreshed scan asset f v) = normalize_severity (fd_severity f)"
  "vn_title (refreshed scan asset f v) = fd_title f" "vn_description (refreshed scan asset f v) = fd_description f"
  "vn_cvss_vector (refreshed scan asset f v) = fd_cvss_vector f" "vn_cvss_score (refreshed scan asset f v) = score_for f"
  "vn_last_seen_scan_id (refreshed scan asset f v) = Some scan"
  "vn_status (refreshed scan asset f v) = (if vn_status v = ''fixed'' then ''reopened'' else vn_status v)"
  by (auto simp: refreshed_def Let_def split: option.split)

lemma link_evidence_simps [simp]:
  "vb_vulns (link_evidence i e r db) = vb_vulns db" "vb_history (link_evidence i e r db) = vb_history db"
  "vb_lineage (link_evidence i e r db) = vb_lineage db" "vb_next (link_evidence i e r db) = vb_next db"
  "vb_rem (link_evidence i e r db) = vb_rem db"
  by (simp_all add: link_evidence_def)

lemma update_last:
  "(\<And>v. v \<in> set vs \<Longrightarrow> vn_id v \<noteq> vn_id x) \<Longrightarrow> vn_id y = vn_id x \<Longrightarrow>
    update_where (\<lambda>r. vn_id r = vn_id y) (\<lambda>_. y) (vs @ [x]) = vs @ [y]"
  by (induction vs) (auto simp: update_where_def)

lemma find_ancestor_in:
  assumes "find_ancestor same_text project t m fp db = Some (a, loc)"
  shows "a \<in> set (vb_vulns db)" "vn_project_id a = project" "\<not> same_text (vn_fingerprint a) fp"
proof -
  obtain n where "filter (matches_lineage t n)
      (filter (\<lambda>v. vn_project_id v = project \<and> \<not> same_text (vn_fingerprint v) fp) (vb_vulns db)) = [a]"
    using assms by (auto simp: find_ancestor_def Let_def split: if_splits list.splits)
  then have "a \<in> set (filter (matches_lineage t n)
      (filter (\<lambda>v. vn_project_id v = project \<and> \<not> same_text (vn_fingerprint v) fp) (vb_vulns db)))" by simp
  then show "a \<in> set (vb_vulns db)" "vn_project_id a = project" "\<not> same_text (vn_fingerprint a) fp" by auto
qed

definition new_lineage :: "uuid \<Rightarrow> vulnerability \<Rightarrow> string option \<Rightarrow> uuid \<Rightarrow> vulnerability_lineage" where
  "new_lineage project a location i =
     \<lparr>vl_project_id = project, vl_old_vulnerability_id = vn_id a, vl_new_vulnerability_id = i,
      vl_match_rule = MATCH_RULE_TEMPLATE_AND_LOCATION, vl_matched_location = location,
      vl_inherited_status = sticky_status_to_inherit (vn_status a)\<rparr>"

text \<open>The ancestor that an ingest of a new fingerprint finds among the rows before it.\<close>

definition ancestor_of ::
  "(string \<Rightarrow> string \<Rightarrow> bool) \<Rightarrow> uuid \<Rightarrow> string \<Rightarrow> vuln_db \<Rightarrow> (vulnerability \<times> string option) option" where
  "ancestor_of same_text project fp db =
     (case parse_fingerprint (Some fp) of (t, _, m) \<Rightarrow> find_ancestor same_text project t m fp db)"

inductive ingested ::
  "(string \<Rightarrow> string \<Rightarrow> bool) \<Rightarrow> time \<Rightarrow> uuid \<Rightarrow> uuid \<Rightarrow> vulnerability_finding \<Rightarrow> uuid \<Rightarrow> uuid option \<Rightarrow> vuln_db
   \<Rightarrow> vulnerability \<Rightarrow> vuln_db \<Rightarrow> bool"
  for same_text now project scan f run asset db where
  plain: "existing_vulnerability same_text project (fd_fingerprint f) db = None \<Longrightarrow>
    ancestor_of same_text project (fd_fingerprint f) db = None \<Longrightarrow>
    v = new_vulnerability now project scan asset f (vb_next db) \<Longrightarrow>
    vb_vulns db' = vb_vulns db @ [v] \<Longrightarrow> vb_next db' = vb_next db + 1 \<Longrightarrow>
    vb_history db' = vb_history db @ [snapshot v project scan run ''created''] \<Longrightarrow>
    vb_lineage db' = vb_lineage db \<Longrightarrow> vb_rem db' = vb_rem db \<Longrightarrow>
    ingested same_text now project scan f run asset db v db'"
| linked: "existing_vulnerability same_text project (fd_fingerprint f) db = None \<Longrightarrow>
    ancestor_of same_text project (fd_fingerprint f) db = Some (a, location) \<Longrightarrow>
    v0 = new_vulnerability now project scan asset f (vb_next db) \<Longrightarrow> v = inherit a v0 \<Longrightarrow>
    vb_vulns db' = vb_vulns db @ [v] \<Longrightarrow> vb_next db' = vb_next db + 1 \<Longrightarrow>
    vb_history db' = vb_history db @ [snapshot v0 project scan run ''created''] \<Longrightarrow>
    vb_lineage db' = vb_lineage db @ [new_lineage project a location (vn_id v)] \<Longrightarrow> vb_rem db' = vb_rem db \<Longrightarrow>
    ingested same_text now project scan f run asset db v db'"
| seen: "existing_vulnerability same_text project (fd_fingerprint f) db = Some w \<Longrightarrow>
    v = refreshed scan asset f w \<Longrightarrow>
    vb_vulns db' = update_where (\<lambda>r. vn_id r = vn_id w) (\<lambda>_. v) (vb_vulns db) \<Longrightarrow> vb_next db' = vb_next db \<Longrightarrow>
    vb_history db' = vb_history db
      @ (if content_changed w f (score_for f) then [snapshot v project scan run ''observed''] else []) \<Longrightarrow>
    vb_lineage db' = vb_lineage db \<Longrightarrow>
    vb_rem db' = (if vn_status w = ''fixed'' then reopen_item now project v (vb_rem db) else vb_rem db) \<Longrightarrow>
    ingested same_text now project scan f run asset db v db'"

inductive_cases ingestedE: "ingested same_text now project scan f run asset db v db'"

lemma new_vulnerability_simps [simp]:
  "vn_id (new_vulnerability now project scan asset f i) = i"
  "vn_project_id (new_vulnerability now project scan asset f i) = project"
  "vn_fingerprint (new_vulnerability now project scan asset f i) = fd_fingerprint f"
  "vn_category (new_vulnerability now project scan asset f i) = canonical_cwe (fd_category f)"
  "vn_severity (new_vulnerability now project scan asset f i) = normalize_severity (fd_severity f)"
  "vn_status (new_vulnerability now project scan asset f i) = ''open''"
  by (simp_all add: new_vulnerability_def)

lemma shows_snapshot [simp]: "shows_content v (snapshot v p s r reason)" "vh_vulnerability_id (snapshot v p s r reason) = vn_id v"
  by (simp_all add: shows_content_def snapshot_def)

lemma ingest_ingested:
  assumes i: "ingest_finding same_text now project scan f run evidence asset db = (v, db')"
    and fresh: "\<forall>v \<in> set (vb_vulns db). vn_id v < vb_next db"
    and lin: "\<forall>l \<in> set (vb_lineage db). vl_new_vulnerability_id l < vb_next db"
    and same_refl: "\<And>s. same_text s s"
  shows "ingested same_text now project scan f run asset db v db'
    \<and> vb_links db' = vb_links (link_evidence (vn_id v) evidence run db)"
proof (cases "existing_vulnerability same_text project (fd_fingerprint f) db")
  case (Some w)
  let ?v = "refreshed scan asset f w"
  have v: "v = ?v" "db' = link_evidence (vn_id ?v) evidence run (snd (refresh_vulnerability now project scan asset run f w db))"
    using i Some by (auto simp: ingest_finding_def refresh_vulnerability_def Let_def)
  have "ingested same_text now project scan f run asset db v db'"
    by (rule seen [OF Some v(1)]) (simp_all add: v refresh_vulnerability_def Let_def put_vuln_def record_history_def)
  then show ?thesis
    by (simp add: v refresh_vulnerability_def Let_def put_vuln_def record_history_def link_evidence_def)
next
  case None
  let ?v = "new_vulnerability now project scan asset f (vb_next db)"
  let ?db = "record_history ?v project scan run ''created'' (db\<lparr>vb_vulns := vb_vulns db @ [?v], vb_next := Suc (vb_next db)\<rparr>)"
  have r: "(v, db') = (let (v, d) = link_ancestor same_text project f ?v ?db in (v, link_evidence (vn_id v) evidence run d))"
    using i None by (simp add: ingest_finding_def create_vulnerability_def Let_def)
  obtain t x m where p: "parse_fingerprint (Some (fd_fingerprint f)) = (t, x, m)" by (metis prod_cases3)
  have a: "find_ancestor same_text project t m (fd_fingerprint f) ?db = ancestor_of same_text project (fd_fingerprint f) db"
    using same_refl by (simp add: ancestor_of_def p record_history_def find_ancestor_def Let_def)
  show ?thesis
  proof (cases "ancestor_of same_text project (fd_fingerprint f) db")
    case No: None
    then have v: "v = ?v" "db' = link_evidence (vn_id ?v) evidence run ?db"
      using r by (auto simp: link_ancestor_def p a)
    have "ingested same_text now project scan f run asset db v db'"
      by (rule plain [OF None No v(1)]) (simp_all add: v record_history_def)
    then show ?thesis by (simp add: v record_history_def link_evidence_def)
  next
    case (Some al)
    obtain an loc where al: "al = (an, loc)" by fastforce
    let ?w = "inherit an ?v"
    have u: "update_where (\<lambda>r. vn_id r = vn_id ?w) (\<lambda>_. ?w) (vb_vulns db @ [?v]) = vb_vulns db @ [?w]"
      by (rule update_last) (use fresh in auto)
    have nl: "\<not> list_ex (\<lambda>x. vl_new_vulnerability_id x = vb_next db) (vb_lineage db)"
      using lin by (auto simp: list_ex_iff)
    have v: "v = ?w" "db' = link_evidence (vn_id ?w) evidence run
        (record_lineage (new_lineage project an loc (vn_id ?v)) (put_vuln ?w ?db))"
      using r Some by (auto simp: link_ancestor_def p a al new_lineage_def)
    have "ingested same_text now project scan f run asset db v db'"
      by (rule linked [OF None Some [unfolded al] refl v(1)])
        (use u nl in \<open>simp_all add: v record_history_def record_lineage_def put_vuln_def new_lineage_def\<close>)
    then show ?thesis
      using nl by (simp add: v record_history_def record_lineage_def put_vuln_def link_evidence_def new_lineage_def)
  qed
qed

section \<open>The invariant is kept\<close>

lemma one_row_update:
  assumes "one_row_per_issue same_text db" and w: "w \<in> set (vb_vulns db)"
    and v: "vn_id v = vn_id w" "vn_project_id v = vn_project_id w" "vn_fingerprint v = vn_fingerprint w"
    and db': "vb_vulns db' = update_where (\<lambda>r. vn_id r = vn_id w) (\<lambda>_. v) (vb_vulns db)" "vb_next db' = vb_next db"
  shows "one_row_per_issue same_text db'"
proof -
  have u: "unique_key vn_id (vb_vulns db)" and n: "\<forall>x \<in> set (vb_vulns db). vn_id x < vb_next db"
    and o: "\<And>x y. x \<in> set (vb_vulns db) \<Longrightarrow> y \<in> set (vb_vulns db) \<Longrightarrow> vn_project_id x = vn_project_id y \<Longrightarrow>
        same_text (vn_fingerprint x) (vn_fingerprint y) \<Longrightarrow> x = y"
    using assms(1) unfolding one_row_per_issue_def by blast+
  let ?g = "\<lambda>r. if vn_id r = vn_id w then v else r"
  have g: "vn_id (?g x) = vn_id x \<and> vn_project_id (?g x) = vn_project_id x \<and> vn_fingerprint (?g x) = vn_fingerprint x"
    if "x \<in> set (vb_vulns db)" for x
    using unique_key_eq [OF u that w] v by auto
  have vs: "set (vb_vulns db') = ?g ` set (vb_vulns db)" unfolding db'(1) by (rule set_update_where)
  have "unique_key vn_id (vb_vulns db')"
    using u unfolding db'(1) by (subst unique_key_update_where) (simp_all add: v(1))
  moreover have "vn_id x < vb_next db'" if x: "x \<in> set (vb_vulns db')" for x
  proof -
    obtain x0 where "x0 \<in> set (vb_vulns db)" "x = ?g x0" using x unfolding vs by blast
    with g [of x0] n db'(2) show ?thesis by simp
  qed
  moreover have "\<forall>x \<in> set (vb_vulns db'). \<forall>y \<in> set (vb_vulns db').
      vn_project_id x = vn_project_id y \<and> same_text (vn_fingerprint x) (vn_fingerprint y) \<longrightarrow> x = y"
  proof (intro ballI impI, elim conjE)
    fix x y assume "x \<in> set (vb_vulns db')" "y \<in> set (vb_vulns db')"
      and p: "vn_project_id x = vn_project_id y" "same_text (vn_fingerprint x) (vn_fingerprint y)"
    then obtain x0 y0 where x0: "x0 \<in> set (vb_vulns db)" "x = ?g x0" and y0: "y0 \<in> set (vb_vulns db)" "y = ?g y0"
      unfolding vs by blast
    have "x0 = y0" using p g [OF x0(1)] g [OF y0(1)] by (intro o [OF x0(1) y0(1)]) (simp_all only: x0(2) y0(2))
    then show "x = y" using x0 y0 by simp
  qed
  ultimately show ?thesis unfolding one_row_per_issue_def by blast
qed

lemma one_row_append:
  assumes "one_row_per_issue same_text db" and e: "equivp same_text"
    and new: "existing_vulnerability same_text (vn_project_id v) (vn_fingerprint v) db = None" "vn_id v = vb_next db"
    and db': "vb_vulns db' = vb_vulns db @ [v]" "vb_next db' = vb_next db + 1"
  shows "one_row_per_issue same_text db'"
proof -
  have n: "\<not> (vn_project_id x = vn_project_id v \<and> same_text (vn_fingerprint x) (vn_fingerprint v))"
    if "x \<in> set (vb_vulns db)" for x
    using new(1) that by (auto simp: existing_vulnerability_def find_row_None)
  have "same_text b a" if "same_text a b" for a b using e that by (rule equivp_symp)
  then have n': "\<not> (vn_project_id v = vn_project_id x \<and> same_text (vn_fingerprint v) (vn_fingerprint x))"
    if "x \<in> set (vb_vulns db)" for x
    using n [OF that] by metis
  have "unique_key vn_id (vb_vulns db')" "\<forall>x \<in> set (vb_vulns db'). vn_id x < vb_next db'"
    using assms(1) new(2) by (auto simp: db' unique_key_append one_row_per_issue_def)
  moreover have "x = y" if "x \<in> set (vb_vulns db')" "y \<in> set (vb_vulns db')"
      "vn_project_id x = vn_project_id y" "same_text (vn_fingerprint x) (vn_fingerprint y)" for x y
    using that n [of x] n' [of y] assms(1) unfolding db'(1) one_row_per_issue_def by auto
  ultimately show ?thesis unfolding one_row_per_issue_def by blast
qed

lemma latest_append: "latest_snapshot i (hs @ [h]) = (if vh_vulnerability_id h = i then Some h else latest_snapshot i hs)"
  by (simp add: latest_snapshot_def)

lemma latest_none: "\<forall>h \<in> set hs. vh_vulnerability_id h \<noteq> i \<Longrightarrow> latest_snapshot i hs = None"
  by (simp add: latest_snapshot_def find_None_iff)

lemma existing_in:
  "existing_vulnerability same_text project fp db = Some w \<Longrightarrow>
    w \<in> set (vb_vulns db) \<and> vn_project_id w = project \<and> same_text (vn_fingerprint w) fp"
  unfolding existing_vulnerability_def by (drule find_row_Some) blast

text \<open>Tables that refer to rows by id survive a change that keeps every row, or replaces it under its id.\<close>

lemma lineage_more:
  assumes "lineage_sound db" and "vb_lineage db' = vb_lineage db"
    and "\<And>x. x \<in> set (vb_vulns db) \<Longrightarrow> \<exists>y \<in> set (vb_vulns db'). vn_id y = vn_id x \<and> vn_project_id y = vn_project_id x"
  shows "lineage_sound db'"
  unfolding lineage_sound_def assms(2)
proof (intro conjI ballI)
  show "unique_key vl_new_vulnerability_id (vb_lineage db)" using assms(1) by (simp add: lineage_sound_def)
  fix l assume "l \<in> set (vb_lineage db)"
  then obtain a v where "a \<in> set (vb_vulns db)" "v \<in> set (vb_vulns db)" and
    r: "vn_id a = vl_old_vulnerability_id l" "vn_id v = vl_new_vulnerability_id l" "vn_id a < vn_id v"
      "vn_project_id a = vl_project_id l" "vn_project_id v = vl_project_id l"
    using assms(1) unfolding lineage_sound_def by blast
  with assms(3) [of a] assms(3) [of v] obtain b w where "b \<in> set (vb_vulns db')" "w \<in> set (vb_vulns db')"
      "vn_id b = vn_id a" "vn_project_id b = vn_project_id a" "vn_id w = vn_id v" "vn_project_id w = vn_project_id v" by blast
  with r show "\<exists>a \<in> set (vb_vulns db'). \<exists>v \<in> set (vb_vulns db'). vn_id a = vl_old_vulnerability_id l
      \<and> vn_id v = vl_new_vulnerability_id l \<and> vn_id a < vn_id v
      \<and> vn_project_id a = vl_project_id l \<and> vn_project_id v = vl_project_id l" by metis
qed

lemma links_more:
  assumes "links_sound db" and "vb_links db' = vb_links (link_evidence i ev r db)"
    and "vn_id ` set (vb_vulns db) \<subseteq> vn_id ` set (vb_vulns db')" and "i \<in> vn_id ` set (vb_vulns db')"
  shows "links_sound db'"
proof (cases "list_ex (\<lambda>l. ve_vulnerability_id l = i \<and> ve_evidence_id l = ev) (vb_links db)")
  case True
  then have "vb_links db' = vb_links db" by (simp add: assms(2) link_evidence_def)
  with assms(1,3) show ?thesis unfolding links_sound_def by (simp only:) (blast intro: subset_trans)
next
  case False
  then have l: "vb_links db' = vb_links db @ [\<lparr>ve_vulnerability_id = i, ve_evidence_id = ev, ve_tool_run_id = r\<rparr>]"
    by (simp add: assms(2) link_evidence_def)
  have sub: "ve_vulnerability_id ` set (vb_links db) \<subseteq> vn_id ` set (vb_vulns db')"
    using assms(1,3) unfolding links_sound_def by (blast intro: subset_trans)
  have "(i, ev) \<notin> (\<lambda>l. (ve_vulnerability_id l, ve_evidence_id l)) ` set (vb_links db)"
    using False by (auto simp: list_ex_iff)
  then show ?thesis
    using sub assms(1,4) by (simp add: links_sound_def l unique_key_append)
qed

lemma update_rows:
  assumes "x \<in> set vs" and "\<And>y. y \<in> set vs \<Longrightarrow> vn_id y = vn_id v \<Longrightarrow> vn_project_id v = vn_project_id y"
  shows "\<exists>y \<in> set (update_where (\<lambda>r. vn_id r = vn_id v) (\<lambda>_. v) vs). vn_id y = vn_id x \<and> vn_project_id y = vn_project_id x"
  using assms by (cases "vn_id x = vn_id v") (force simp: set_update_where)+

lemma update_ids: "vn_id v = i \<Longrightarrow> vn_id ` set (update_where (\<lambda>r. vn_id r = i) (\<lambda>_. v) vs) = vn_id ` set vs"
proof -
  assume "vn_id v = i"
  then have "map vn_id (update_where (\<lambda>r. vn_id r = i) (\<lambda>_. v) vs) = map vn_id vs" by (intro map_update_where_key) simp
  then show ?thesis by (metis list.set_map)
qed

lemma ingest_inv:
  assumes inv: "vuln_inv same_text db" and e: "equivp same_text"
    and i: "ingest_finding same_text now project scan f run evidence asset db = (v, db')"
  shows "vuln_inv same_text db'"
proof -
  have one: "one_row_per_issue same_text db" and hist: "history_current db" and lin: "lineage_sound db"
    and links: "links_sound db" using inv by (simp_all add: vuln_inv_def)
  have fresh: "\<forall>x \<in> set (vb_vulns db). vn_id x < vb_next db" and u: "unique_key vn_id (vb_vulns db)"
    using one by (simp_all add: one_row_per_issue_def)
  have lf: "\<forall>l \<in> set (vb_lineage db). vl_new_vulnerability_id l < vb_next db"
    using lin fresh unfolding lineage_sound_def by metis
  have hf: "\<forall>h \<in> set (vb_history db). vh_vulnerability_id h < vb_next db" using hist by (simp add: history_current_def)
  have hc: "\<exists>h. latest_snapshot (vn_id x) (vb_history db) = Some h \<and> shows_content x h" if "x \<in> set (vb_vulns db)" for x
    using hist that by (simp add: history_current_def)
  from ingest_ingested [OF i fresh lf] e have I: "ingested same_text now project scan f run asset db v db'"
    and L: "vb_links db' = vb_links (link_evidence (vn_id v) evidence run db)" by (simp_all add: equivp_reflp)
  from I show ?thesis
  proof (cases rule: ingested.cases)
    case plain
    have "one_row_per_issue same_text db'"
      by (rule one_row_append [OF one e _ _ plain(4,5)]) (simp_all add: plain)
    moreover have "history_current db'"
      using hf hc fresh plain(3-6) by (auto simp: history_current_def latest_append less_Suc_eq)
    moreover have "lineage_sound db'" by (rule lineage_more [OF lin plain(7)]) (auto simp: plain(4))
    moreover have "links_sound db'" by (rule links_more [OF links L]) (auto simp: plain(4))
    ultimately show ?thesis by (simp add: vuln_inv_def)
  next
    case (linked a location v0)
    have v: "vn_id v = vb_next db" "vn_project_id v = project" by (simp_all add: linked)
    have "one_row_per_issue same_text db'"
      by (rule one_row_append [OF one e _ _ linked(5,6)]) (simp_all add: linked)
    moreover have "history_current db'"
      using hf hc fresh linked(3-7) by (auto simp: history_current_def latest_append less_Suc_eq)
    moreover have "lineage_sound db'"
    proof -
      obtain t x m where p: "parse_fingerprint (Some (fd_fingerprint f)) = (t, x, m)" by (metis prod_cases3)
      from linked(2) have "find_ancestor same_text project t m (fd_fingerprint f) db = Some (a, location)"
        by (simp add: ancestor_of_def p)
      from find_ancestor_in [OF this] fresh have a: "a \<in> set (vb_vulns db)" "vn_project_id a = project" "vn_id a < vb_next db"
        by auto
      have "lineage_sound (db'\<lparr>vb_lineage := vb_lineage db\<rparr>)" by (rule lineage_more [OF lin]) (auto simp: linked(5))
      then show ?thesis
        using a v lf by (auto simp: lineage_sound_def linked(5,8) unique_key_append new_lineage_def)
    qed
    moreover have "links_sound db'" by (rule links_more [OF links L]) (auto simp: linked(5))
    ultimately show ?thesis by (simp add: vuln_inv_def)
  next
    case (seen w)
    note w = existing_in [OF seen(1)]
    have vi: "vn_id v = vn_id w" "vn_project_id v = vn_project_id w" "vn_fingerprint v = vn_fingerprint w"
      by (simp_all add: seen(2))
    have only: "y = w" if "y \<in> set (vb_vulns db)" "vn_id y = vn_id w" for y using unique_key_eq [OF u] that w by blast
    have "one_row_per_issue same_text db'"
      using w by (intro one_row_update [OF one _ vi seen(3,4)]) simp
    moreover have "history_current db'"
    proof -
      have "\<exists>h. latest_snapshot (vn_id x) (vb_history db') = Some h \<and> shows_content x h" if x: "x \<in> set (vb_vulns db')" for x
      proof (cases "vn_id x = vn_id w")
        case True
        then have xv: "x = v" using x vi(1) unfolding seen(3) set_update_where by auto
        show ?thesis
        proof (cases "content_changed w f (score_for f)")
          case True
          then show ?thesis unfolding seen(5) by (simp add: latest_append xv)
        next
          case False
          moreover obtain h where "latest_snapshot (vn_id w) (vb_history db) = Some h" "shows_content w h" using hc w by blast
          ultimately show ?thesis unfolding seen(5) xv seen(2) by (auto simp: shows_content_def content_changed_def)
        qed
      next
        case False
        then have "x \<in> set (vb_vulns db)" using x vi(1) unfolding seen(3) set_update_where by (auto split: if_splits)
        from hc [OF this] False vi(1) show ?thesis unfolding seen(5) by (auto simp: latest_append)
      qed
      moreover have "\<forall>h \<in> set (vb_history db'). vh_vulnerability_id h < vb_next db'"
        using hf fresh w vi(1) unfolding seen(4,5) by auto
      ultimately show ?thesis by (simp add: history_current_def)
    qed
    moreover have "lineage_sound db'"
      by (rule lineage_more [OF lin seen(6)], unfold seen(3) vi(1) [symmetric], erule update_rows)
        (metis only vi(1,2))
    moreover have "links_sound db'"
      by (rule links_more [OF links L]) (use w vi(1) in \<open>auto simp: seen(3) update_ids\<close>)
    ultimately show ?thesis by (simp add: vuln_inv_def)
  qed
qed

lemma set_status_okE:
  assumes "set_vulnerability_status now ws project i st justification actor db = Inr (v', db')"
  obtains v where "v \<in> set (vb_vulns db)" "vn_id v = i" "vn_project_id v = project"
    "st \<in> set SETTABLE_STATUSES" "st \<in> set (legal_status_targets (vn_status v))"
    "v' = v\<lparr>vn_status := st, vn_status_justification := Some [Lit justification],
            vn_status_changed_by := Some actor, vn_status_changed_at := Some now\<rparr>"
    "vb_vulns db' = update_where (\<lambda>r. vn_id r = i) (\<lambda>_. v') (vb_vulns db)" "vb_next db' = vb_next db"
    "vb_history db' = vb_history db" "vb_lineage db' = vb_lineage db" "vb_links db' = vb_links db"
    "List.member (db_projects (vb_rem db)) (project, ws)"
  using assms
  by (auto simp: set_vulnerability_status_def get_vuln_def res_bind_Inr_iff Let_def put_vuln_def
      split: if_splits option.splits dest!: find_row_Some)

lemma status_inv:
  assumes inv: "vuln_inv same_text db" and s: "set_vulnerability_status now ws project i st justification actor db = Inr (v', db')"
  shows "vuln_inv same_text db'"
  using s
proof (rule set_status_okE)
  fix v assume v: "v \<in> set (vb_vulns db)" "vn_id v = i" "vn_project_id v = project"
    and v': "v' = v\<lparr>vn_status := st, vn_status_justification := Some [Lit justification],
            vn_status_changed_by := Some actor, vn_status_changed_at := Some now\<rparr>"
    and db': "vb_vulns db' = update_where (\<lambda>r. vn_id r = i) (\<lambda>_. v') (vb_vulns db)" "vb_next db' = vb_next db"
      "vb_history db' = vb_history db" "vb_lineage db' = vb_lineage db" "vb_links db' = vb_links db"
  have one: "one_row_per_issue same_text db" and hist: "history_current db" and lin: "lineage_sound db"
    and links: "links_sound db" using inv by (simp_all add: vuln_inv_def)
  have u: "unique_key vn_id (vb_vulns db)" using one by (simp add: one_row_per_issue_def)
  have only: "y = v" if "y \<in> set (vb_vulns db)" "vn_id y = i" for y using unique_key_eq [OF u] that v by blast
  have k: "vn_id v' = vn_id v" "vn_project_id v' = vn_project_id v" "vn_fingerprint v' = vn_fingerprint v"
    "shows_content v' = shows_content v" by (simp_all add: v' shows_content_def fun_eq_iff)
  have "one_row_per_issue same_text db'"
    by (rule one_row_update [OF one v(1) k(1-3) _ db'(2)]) (simp add: v(2) db'(1))
  moreover have "history_current db'"
  proof -
    have "\<exists>h. latest_snapshot (vn_id x) (vb_history db') = Some h \<and> shows_content x h" if x: "x \<in> set (vb_vulns db')" for x
    proof -
      obtain y where y: "y \<in> set (vb_vulns db)" "x = (if vn_id y = i then v' else y)"
        using x unfolding db'(1) set_update_where by blast
      obtain h where "latest_snapshot (vn_id y) (vb_history db) = Some h" "shows_content y h"
        using hist y(1) by (auto simp: history_current_def)
      then show ?thesis using y(2) only [OF y(1)] k(1,4) unfolding db'(3) by (cases "vn_id y = i") auto
    qed
    then show ?thesis using hist unfolding history_current_def db'(2,3) by blast
  qed
  moreover have "lineage_sound db'"
  proof (rule lineage_more [OF lin db'(4)])
    fix x assume x: "x \<in> set (vb_vulns db)"
    have "vn_project_id v' = vn_project_id y" if "y \<in> set (vb_vulns db)" "vn_id y = vn_id v'" for y
      using only [OF that(1)] that(2) k(1,2) v(2) by metis
    from update_rows [OF x this] show "\<exists>y \<in> set (vb_vulns db'). vn_id y = vn_id x \<and> vn_project_id y = vn_project_id x"
      by (simp add: db'(1) k(1) v(2))
  qed
  moreover have "links_sound db'"
    using links unfolding links_sound_def db'(1,5) by (simp add: update_ids k(1) v(2))
  ultimately show ?thesis by (simp add: vuln_inv_def)
qed

lemma inv_kept:
  assumes "vuln_step same_text db db'" and "vuln_inv same_text db" and "equivp same_text"
  shows "vuln_inv same_text db'"
  using assms(1)
proof cases
  case (workflow r)
  with assms(2) show ?thesis
    by (simp add: vuln_inv_def one_row_per_issue_def history_current_def lineage_sound_def links_sound_def)
next
  case (ingest now project scan f run evidence asset v)
  show ?thesis by (rule ingest_inv [OF assms(2,3) ingest])
next
  case (status now ws project i st justification actor v)
  show ?thesis by (rule status_inv [OF assms(2) status])
qed

section \<open>How a row moves\<close>

text \<open>The engine moves a status only from \<open>fixed\<close> to \<open>reopened\<close>; an analyst along the table.\<close>

definition status_moves :: "string \<Rightarrow> string \<Rightarrow> bool" where
  "status_moves a b =
     (a = b \<or> (a = ''fixed'' \<and> b = ''reopened'')
      \<or> (b \<in> set SETTABLE_STATUSES \<and> b \<in> set (legal_status_targets a)))"

definition vuln_next :: "vulnerability \<Rightarrow> vulnerability \<Rightarrow> bool" where
  "vuln_next v v' =
     (vn_id v' = vn_id v \<and> vn_project_id v' = vn_project_id v \<and> vn_fingerprint v' = vn_fingerprint v
      \<and> vn_category v' = vn_category v \<and> status_moves (vn_status v) (vn_status v')
      \<and> (vn_severity v' = vn_severity v \<or> vn_severity v' \<in> set SEVERITIES))"

definition inv_step :: "(string \<Rightarrow> string \<Rightarrow> bool) \<Rightarrow> vuln_db \<Rightarrow> vuln_db \<Rightarrow> bool" where
  "inv_step same_text db db' = (vuln_step same_text db db' \<and> vuln_inv same_text db \<and> equivp same_text)"

lemma vuln_next_refl [simp]: "vuln_next v v"
  by (simp add: vuln_next_def status_moves_def)

lemma settable_vocabulary: "set SETTABLE_STATUSES \<subseteq> set VULNERABILITY_STATUSES"
  by (auto simp: SETTABLE_STATUSES_def VULNERABILITY_STATUSES_def)

lemma next_typed:
  assumes "vuln_next v v'" and "typed_vulnerability v"
  shows "typed_vulnerability v'"
proof -
  have "vn_status v' \<in> set VULNERABILITY_STATUSES"
  proof -
    have "''reopened'' \<in> set VULNERABILITY_STATUSES" by (simp add: VULNERABILITY_STATUSES_def)
    then show ?thesis
      using assms settable_vocabulary unfolding vuln_next_def status_moves_def typed_vulnerability_def by (metis subsetD)
  qed
  then show ?thesis using assms by (auto simp: vuln_next_def typed_vulnerability_def)
qed

lemma new_typed: "typed_vulnerability (new_vulnerability now project scan asset f i)"
  using canonical_cwe_shape [of "fd_category f"] normalize_severity_in [of "fd_severity f"]
  by (auto simp: typed_vulnerability_def VULNERABILITY_STATUSES_def split: option.split)

lemma inherit_typed: "typed_vulnerability v \<Longrightarrow> typed_vulnerability (inherit a v)"
  by (auto simp: typed_vulnerability_def inherit_def sticky_status_to_inherit_def STICKY_STATUSES_def
      VULNERABILITY_STATUSES_def split: option.split)

lemma refreshed_next: "vuln_next w (refreshed scan asset f w)"
  by (simp add: vuln_next_def status_moves_def normalize_severity_in)

lemma row_map:
  assumes "unique_key vn_id vs" and "w \<in> set vs" and "vuln_next w v"
  shows "\<forall>r \<in> set vs. vuln_next r (if vn_id r = vn_id w then v else r)"
  using assms unique_key_eq [OF assms(1) _ assms(2)] by auto

lemma step_moves_rows:
  assumes "inv_step same_text db db'"
  shows "\<exists>g new. vb_vulns db' = map g (vb_vulns db) @ new \<and> (\<forall>r \<in> set (vb_vulns db). vuln_next r (g r))
      \<and> (\<forall>r \<in> set new. typed_vulnerability r \<and> vn_id r \<notin> vn_id ` set (vb_vulns db)) \<and> unique_key vn_id new"
proof -
  from assms have s: "vuln_step same_text db db'" and inv: "vuln_inv same_text db" and e: "equivp same_text"
    by (simp_all add: inv_step_def)
  have u: "unique_key vn_id (vb_vulns db)" and fresh: "\<forall>x \<in> set (vb_vulns db). vn_id x < vb_next db"
    using inv by (simp_all add: vuln_inv_def one_row_per_issue_def)
  have lf: "\<forall>l \<in> set (vb_lineage db). vl_new_vulnerability_id l < vb_next db"
    using inv fresh unfolding vuln_inv_def lineage_sound_def by metis
  show ?thesis
    using s
  proof cases
    case (ingest now project scan f run evidence asset v)
    have "ingested same_text now project scan f run asset db v db'"
      using ingest_ingested [OF ingest fresh lf] e by (simp add: equivp_reflp)
    then show ?thesis
    proof cases
      case plain
      then show ?thesis using fresh new_typed
        by (intro exI [of _ id] exI [of _ "[v]"]) (auto simp: unique_key_def)
    next
      case linked
      then show ?thesis using fresh inherit_typed [OF new_typed]
        by (intro exI [of _ id] exI [of _ "[v]"]) (auto simp: unique_key_def)
    next
      case (seen w)
      have "\<forall>r \<in> set (vb_vulns db). vuln_next r (if vn_id r = vn_id w then v else r)"
        using row_map [OF u conjunct1 [OF existing_in [OF seen(1)]] refreshed_next] unfolding seen(2) .
      with seen(3) show ?thesis
        by (intro exI [of _ "\<lambda>r. if vn_id r = vn_id w then v else r"] exI [of _ "[]"])
          (auto simp: update_where_def unique_key_def split: if_splits)
    qed
  next
    case (status now ws project i st justification actor v')
    from status show ?thesis
    proof (rule set_status_okE)
      fix v assume v: "v \<in> set (vb_vulns db)" "vn_id v = i" "st \<in> set SETTABLE_STATUSES"
          "st \<in> set (legal_status_targets (vn_status v))"
          "v' = v\<lparr>vn_status := st, vn_status_justification := Some [Lit justification],
            vn_status_changed_by := Some actor, vn_status_changed_at := Some now\<rparr>"
        and db': "vb_vulns db' = update_where (\<lambda>r. vn_id r = i) (\<lambda>_. v') (vb_vulns db)"
      have "vuln_next v v'" using v(3-5) by (simp add: vuln_next_def status_moves_def)
      from row_map [OF u v(1) this] show ?thesis
        by (intro exI [of _ "\<lambda>r. if vn_id r = vn_id v then v' else r"] exI [of _ "[]"])
          (simp add: db' update_where_def v(2) unique_key_def)
    qed
  next
    case (workflow r)
    then show ?thesis by (intro exI [of _ id] exI [of _ "[]"]) (simp add: unique_key_def)
  qed
qed

interpretation vulns: keyed_rows vb_vulns vn_id vuln_next typed_vulnerability "inv_step same_text" for same_text
proof
  fix db db' :: vuln_db and v v' :: vulnerability
  show "inv_step same_text db db' \<Longrightarrow> \<exists>f new. vb_vulns db' = map f (vb_vulns db) @ new
      \<and> (\<forall>r \<in> set (vb_vulns db). vuln_next r (f r))
      \<and> (\<forall>r \<in> set new. typed_vulnerability r \<and> vn_id r \<notin> vn_id ` set (vb_vulns db)) \<and> unique_key vn_id new"
    by (rule step_moves_rows)
  show "vuln_next v v' \<Longrightarrow> vn_id v' = vn_id v" by (simp add: vuln_next_def)
  show "vuln_next v v' \<Longrightarrow> typed_vulnerability v \<Longrightarrow> typed_vulnerability v'" by (rule next_typed)
qed

lemma inv_run:
  assumes "(vuln_step same_text)\<^sup>*\<^sup>* db db'" and "vuln_inv same_text db" and "equivp same_text"
  shows "(inv_step same_text)\<^sup>*\<^sup>* db db' \<and> vuln_inv same_text db'"
  using assms(1)
proof (induction rule: rtranclp_induct)
  case (step a b)
  then have "inv_step same_text a b" using assms(3) by (simp add: inv_step_def)
  with step inv_kept [OF step.hyps(2) _ assms(3)] show ?case by (meson rtranclp.rtrancl_into_rtrancl)
qed (simp add: assms(2))

end
