(* ===== verification/Vulnerability_Properties.thy ===== *)
theory Vulnerability_Properties
  imports Vulnerability_System
begin

text \<open>The properties of the vulnerability tables, over single operations and over runs of all of them.\<close>

section \<open>Runs\<close>

text \<open>
  C38: Over any run of ingests, analyst decisions and workflow steps, every vulnerability has a severity and a
  status of the vocabulary and a canonical CWE or none, whatever the tools reported.
\<close>
theorem vulnerability_columns_typed:
  assumes "(vuln_step same_text)\<^sup>*\<^sup>* db db'" and "vuln_inv same_text db" and "equivp same_text"
    and "\<forall>v \<in> set (vb_vulns db). typed_vulnerability v"
  shows "\<forall>v \<in> set (vb_vulns db'). typed_vulnerability v"
  using inv_run [OF assms(1-3)] vulns.run_ok assms(4) by blast

text \<open>
  C15: Over any run there stays one row per project and fingerprint, the last history snapshot of every row
  shows its present content, a row has at most one ancestor, an older row of its project, and a finding is
  linked to each evidence once.
\<close>
theorem vulnerability_tables_consistent:
  assumes "(vuln_step same_text)\<^sup>*\<^sup>* db db'" and "vuln_inv same_text db" and "equivp same_text"
  shows "vuln_inv same_text db'"
  using inv_run [OF assms] by blast

text \<open>
  A vulnerability is never deleted, keeps its identity, and its status moves only as the engine (a fixed
  finding reopens) or the analysts' table allows.
\<close>
theorem vulnerabilities_move_legally:
  assumes "(vuln_step same_text)\<^sup>*\<^sup>* db db'" and "vuln_inv same_text db" and "equivp same_text"
    and "find_row (\<lambda>x. vn_id x = i) (vb_vulns db) = Some v"
  shows "\<exists>v'. find_row (\<lambda>x. vn_id x = i) (vb_vulns db') = Some v' \<and> vn_project_id v' = vn_project_id v
    \<and> vn_fingerprint v' = vn_fingerprint v \<and> vn_category v' = vn_category v
    \<and> status_moves\<^sup>*\<^sup>* (vn_status v) (vn_status v')"
proof -
  have path: "vuln_next\<^sup>*\<^sup>* a b \<Longrightarrow> vn_project_id b = vn_project_id a \<and> vn_fingerprint b = vn_fingerprint a
      \<and> vn_category b = vn_category a \<and> status_moves\<^sup>*\<^sup>* (vn_status a) (vn_status b)" for a b
    by (induction rule: rtranclp_induct) (auto simp: vuln_next_def intro: rtranclp.rtrancl_into_rtrancl)
  have "unique_key vn_id (vb_vulns db)" using assms(2) by (simp add: vuln_inv_def one_row_per_issue_def)
  from vulns.run_find [OF conjunct1 [OF inv_run [OF assms(1-3)]] this assms(4)] path show ?thesis by blast
qed



lemma set_status_rem:
  assumes "set_vulnerability_status now ws project i st justification actor db = Inr (v, db')"
  shows "\<exists>d. vb_rem db' = audit_record ws (Some actor) ''vulnerability.status_changed'' ''vulnerability'' (Some i) d None (vb_rem db)"
  using assms by (auto simp: set_vulnerability_status_def res_bind_Inr_iff Let_def put_vuln_def split: if_splits)



section \<open>One ingest\<close>

lemma ingest_facts:
  assumes "vuln_inv same_text db" and "equivp same_text"
    and "ingest_finding same_text now project scan f run evidence asset db = (v, db')"
  shows "ingested same_text now project scan f run asset db v db'"
    and "vb_links db' = vb_links (link_evidence (vn_id v) evidence run db)"
    and "unique_key vn_id (vb_vulns db)" and "\<forall>x \<in> set (vb_vulns db). vn_id x < vb_next db"
proof -
  show f: "\<forall>x \<in> set (vb_vulns db). vn_id x < vb_next db" and "unique_key vn_id (vb_vulns db)"
    using assms(1) by (simp_all add: vuln_inv_def one_row_per_issue_def)
  have "\<forall>l \<in> set (vb_lineage db). vl_new_vulnerability_id l < vb_next db"
    using assms(1) f unfolding vuln_inv_def lineage_sound_def by metis
  from ingest_ingested [OF assms(3) f this] assms(2)
  show "ingested same_text now project scan f run asset db v db'"
    and "vb_links db' = vb_links (link_evidence (vn_id v) evidence run db)" by (simp_all add: equivp_reflp)
qed

text \<open>The status that an ingest leaves: the engine's rule, and what a new row inherits.\<close>

definition ingest_status :: "(string \<Rightarrow> string \<Rightarrow> bool) \<Rightarrow> uuid \<Rightarrow> string \<Rightarrow> vuln_db \<Rightarrow> string" where
  "ingest_status same_text project fp db =
     (case existing_vulnerability same_text project fp db of
        Some w \<Rightarrow> if vn_status w = ''fixed'' then ''reopened'' else vn_status w
      | None \<Rightarrow>
          (case ancestor_of same_text project fp db of
             Some (a, _) \<Rightarrow> if List.member STICKY_STATUSES (vn_status a) then vn_status a else ''open''
           | None \<Rightarrow> ''open''))"

text \<open>
  C12: After an ingest the row of the finding is in the table, with the finding's content, last seen by this
  scan and linked to its evidence; its status is that of the engine's rule or inherited; and every other row
  is as it was.
\<close>
theorem ingest_outcome:
  assumes "vuln_inv same_text db" and "equivp same_text"
    and "ingest_finding same_text now project scan f run evidence asset db = (v, db')"
  shows "v \<in> set (vb_vulns db') \<and> vn_project_id v = project \<and> same_text (vn_fingerprint v) (fd_fingerprint f)
    \<and> vn_title v = fd_title f \<and> vn_description v = fd_description f \<and> vn_cvss_score v = score_for f
    \<and> vn_severity v = normalize_severity (fd_severity f) \<and> vn_last_seen_scan_id v = Some scan
    \<and> vn_status v = ingest_status same_text project (fd_fingerprint f) db
    \<and> list_ex (\<lambda>l. ve_vulnerability_id l = vn_id v \<and> ve_evidence_id l = evidence) (vb_links db')
    \<and> filter (\<lambda>x. vn_id x \<noteq> vn_id v) (vb_vulns db') = filter (\<lambda>x. vn_id x \<noteq> vn_id v) (vb_vulns db)"
proof -
  note F = ingest_facts [OF assms]
  have links: "list_ex (\<lambda>l. ve_vulnerability_id l = vn_id v \<and> ve_evidence_id l = evidence) (vb_links db')"
    unfolding F(2) by (simp add: link_evidence_def)
  have ref: "same_text s s" for s using assms(2) by (simp add: equivp_reflp)
  have others: "filter (\<lambda>x. vn_id x \<noteq> i) (update_where (\<lambda>r. vn_id r = i) (\<lambda>_. w) vs) = filter (\<lambda>x. vn_id x \<noteq> i) vs"
    if "vn_id w = i" for i w vs using that by (induction vs) (auto simp: update_where_def)
  from F(1) show ?thesis
  proof cases
    case plain
    then show ?thesis using links ref by (simp add: ingest_status_def) (simp add: new_vulnerability_def)
  next
    case (linked a location v0)
    then show ?thesis
      using links ref
      by (simp add: ingest_status_def inherit_def sticky_status_to_inherit_def)
        (simp add: new_vulnerability_def)
  next
    case (seen w)
    have "v \<in> set (vb_vulns db')"
      using existing_in [OF seen(1)] by (auto simp: seen(3) set_update_where)
    then show ?thesis
      using links existing_in [OF seen(1)] others [of v "vn_id w" "vb_vulns db"] seen
      by (simp add: ingest_status_def)
  qed
qed

text \<open>
  C23: Detecting the same finding again, at any later time but by the same scan and run, changes nothing at
  all: no second row, no history, no link, no status.
\<close>
theorem redetection_idempotent:
  assumes "vuln_inv same_text db" and "equivp same_text"
    and "ingest_finding same_text now project scan f run evidence asset db = (v, db')"
  shows "ingest_finding same_text now' project scan f run evidence asset db' = (v, db')"
proof -
  note F = ingest_facts [OF assms]
  have inv': "vuln_inv same_text db'" by (rule ingest_inv [OF assms])
  then have one: "x = y" if "x \<in> set (vb_vulns db')" "y \<in> set (vb_vulns db')" "vn_project_id x = vn_project_id y"
      "same_text (vn_fingerprint x) (vn_fingerprint y)" for x y
    using that by (simp add: vuln_inv_def one_row_per_issue_def)
  have u: "unique_key vn_id (vb_vulns db')" using inv' by (simp add: vuln_inv_def one_row_per_issue_def)
  have ref: "same_text s s" for s using assms(2) by (simp add: equivp_reflp)
  have sym: "same_text a b \<Longrightarrow> same_text b a" for a b using assms(2) by (rule equivp_symp)
  have trans: "same_text a b \<Longrightarrow> same_text b c \<Longrightarrow> same_text a c" for a b c using assms(2) by (rule equivp_transp)
  have row: "v \<in> set (vb_vulns db') \<and> vn_project_id v = project \<and> same_text (vn_fingerprint v) (fd_fingerprint f)
      \<and> refreshed scan asset f v = v \<and> vn_status v \<noteq> ''fixed'' \<and> \<not> content_changed v f (score_for f)"
    using F(1)
  proof cases
    case plain
    then show ?thesis using ref
      by (auto simp: refreshed_def new_vulnerability_def content_changed_def Let_def split: option.split)
  next
    case (linked a location v0)
    then show ?thesis using ref
      by (auto simp: refreshed_def inherit_def new_vulnerability_def content_changed_def Let_def
          sticky_status_to_inherit_def STICKY_STATUSES_def split: option.split)
  next
    case (seen w)
    have "v \<in> set (vb_vulns db')"
      using existing_in [OF seen(1)] by (auto simp: seen(3) set_update_where)
    moreover have "refreshed scan asset f v = v"
      by (simp add: seen(2) refreshed_def Let_def split: option.split)
    ultimately show ?thesis using existing_in [OF seen(1)] seen(2) by (simp add: content_changed_def)
  qed
  have "existing_vulnerability same_text project (fd_fingerprint f) db' \<noteq> None"
    using row by (auto simp: existing_vulnerability_def find_row_None)
  then obtain w where w: "existing_vulnerability same_text project (fd_fingerprint f) db' = Some w" by blast
  have "w = v"
    using existing_in [OF w] row by (intro one) (auto intro: trans sym)
  have put: "put_vuln v db' = db'"
  proof -
    have "update_where (\<lambda>r. vn_id r = vn_id v) (\<lambda>_. v) (vb_vulns db') = vb_vulns db'"
      unfolding update_where_def by (rule map_idI) (use unique_key_eq [OF u] row in auto)
    then show ?thesis by (simp add: put_vuln_def)
  qed
  have "link_evidence (vn_id v) evidence run db' = db'"
    using F(2) by (simp add: link_evidence_def split: if_splits)
  then show ?thesis
    using w row put \<open>w = v\<close> by (simp add: ingest_finding_def refresh_vulnerability_def Let_def)
qed

section \<open>Inheritance across fingerprints\<close>

text \<open>
  The rows that are the same issue as a fingerprint by the documented rule: other rows of the project with the
  same template, at the same location after normalisation.
\<close>

definition same_issue :: "string \<Rightarrow> string \<Rightarrow> bool" where
  "same_issue fp fp' =
     (case (parse_fingerprint (Some fp), parse_fingerprint (Some fp')) of
        ((t, _, m), (t', _, m')) \<Rightarrow>
          truthy t \<and> truthy m \<and> t' = t \<and> truthy (normalize_location m)
          \<and> normalize_location m' = normalize_location m)"

definition candidates :: "(string \<Rightarrow> string \<Rightarrow> bool) \<Rightarrow> uuid \<Rightarrow> string \<Rightarrow> vuln_db \<Rightarrow> vulnerability set" where
  "candidates same_text project fp db =
     {x \<in> set (vb_vulns db). vn_project_id x = project \<and> \<not> same_text (vn_fingerprint x) fp
        \<and> same_issue fp (vn_fingerprint x)}"

lemma filter_singleton:
  assumes "distinct xs"
  shows "filter P xs = [a] \<longleftrightarrow> {x \<in> set xs. P x} = {a}"
proof
  assume "filter P xs = [a]"
  then show "{x \<in> set xs. P x} = {a}" by (metis list.set(1) list.simps(15) set_filter)
next
  assume "{x \<in> set xs. P x} = {a}"
  then have "set (filter P xs) = set [a]" by simp
  moreover have "distinct (filter P xs)" using assms by simp
  ultimately show "filter P xs = [a]"
    by (metis distinct.simps(2) distinct_singleton insertI1 length_0_conv list.simps(15) list.size(3)
        neq_Nil_conv set_ConsD empty_iff list.set(1) insert_iff list.set_intros(1))
qed

lemma case_singleton: "(case xs of [v] \<Rightarrow> Some (f v) | _ \<Rightarrow> None) = Some y \<longleftrightarrow> (\<exists>v. xs = [v] \<and> y = f v)"
  by (cases xs rule: list.exhaust; cases "tl xs") (auto split: list.splits)

lemma ancestor_iff:
  assumes "unique_key vn_id (vb_vulns db)"
  shows "ancestor_of same_text project fp db = Some (a, loc) \<longleftrightarrow>
    candidates same_text project fp db = {a} \<and> loc = normalize_location (snd (snd (parse_fingerprint (Some fp))))"
proof -
  obtain t x m where p: "parse_fingerprint (Some fp) = (t, x, m)" by (metis prod_cases3)
  have d: "distinct (vb_vulns db)" using assms by (simp add: unique_key_def distinct_map)
  show ?thesis
  proof (cases "truthy t \<and> truthy m \<and> truthy (normalize_location m)")
    case True
    let ?P = "\<lambda>x. matches_lineage t (normalize_location m) x \<and> vn_project_id x = project \<and> \<not> same_text (vn_fingerprint x) fp"
    have c: "{x \<in> set (vb_vulns db). ?P x} = candidates same_text project fp db"
      using True by (auto simp: candidates_def same_issue_def matches_lineage_def p split: prod.splits)
    have f: "filter (matches_lineage t (normalize_location m))
        (filter (\<lambda>v. vn_project_id v = project \<and> \<not> same_text (vn_fingerprint v) fp) (vb_vulns db)) = filter ?P (vb_vulns db)"
      by (simp add: conj_commute)
    have "ancestor_of same_text project fp db = Some (a, loc) \<longleftrightarrow> (\<exists>v. filter ?P (vb_vulns db) = [v] \<and> (a, loc) = (v, normalize_location m))"
      using True unfolding ancestor_of_def p prod.case find_ancestor_def Let_def f by (simp add: case_singleton)
    also have "\<dots> \<longleftrightarrow> candidates same_text project fp db = {a} \<and> loc = normalize_location m"
      unfolding filter_singleton [OF d] c by auto
    finally show ?thesis by (simp add: p)
  next
    case False
    then have "candidates same_text project fp db = {}" by (auto simp: candidates_def same_issue_def p split: prod.splits)
    moreover have "ancestor_of same_text project fp db = None"
      using False by (auto simp: ancestor_of_def p find_ancestor_def Let_def)
    ultimately show ?thesis by simp
  qed
qed

text \<open>
  C27: A finding with a new fingerprint inherits a decision only when exactly one other row of its project is
  the same issue, and that row was dismissed or accepted by an analyst; otherwise it starts open.
\<close>
theorem inheritance_is_certain:
  assumes "vuln_inv same_text db" and "equivp same_text"
    and "existing_vulnerability same_text project (fd_fingerprint f) db = None"
    and "ingest_finding same_text now project scan f run evidence asset db = (v, db')"
  shows "let C = candidates same_text project (fd_fingerprint f) db;
             certain = (\<exists>a. C = {a} \<and> List.member STICKY_STATUSES (vn_status a))
         in vn_status v = (if certain then vn_status (the_elem C) else ''open'')
          \<and> vn_status_changed_by v = (if certain then vn_status_changed_by (the_elem C) else None)
          \<and> length (vb_lineage db') = length (vb_lineage db) + (if \<exists>a. C = {a} then 1 else 0)"
proof -
  note F = ingest_facts [OF assms(1,2,4)]
  note A = ancestor_iff [OF F(3), of same_text project "fd_fingerprint f"]
  from F(1) show ?thesis
  proof cases
    case plain
    then have "\<nexists>a. candidates same_text project (fd_fingerprint f) db = {a}" using A by fastforce
    with plain show ?thesis by (simp add: new_vulnerability_def Let_def)
  next
    case (linked a location v0)
    then have "candidates same_text project (fd_fingerprint f) db = {a}" using A by blast
    with linked show ?thesis
      by (simp add: inherit_def sticky_status_to_inherit_def new_vulnerability_def Let_def)
  next
    case (seen w)
    with assms(3) show ?thesis by simp
  qed
qed

section \<open>Regressions\<close>

text \<open>
  When a fixed finding is detected again and its issue has a remediation item of the workspace from whose
  status reopening is legal, the ingest reopens that item, whatever else is in the tables.
\<close>
theorem regression_reopens_item:
  assumes "vuln_inv same_text db" and "equivp same_text" and "db_wf (vb_rem db)"
    and "existing_vulnerability same_text project (fd_fingerprint f) db = Some w" and "vn_status w = ''fixed''"
    and "ingest_finding same_text now project scan f run evidence asset db = (v, db')"
    and "workspace_for_project project (vb_rem db) = Some ws" and "r \<in> set (db_items (vb_rem db))"
    and "ri_project_id r = project" and "ri_workspace_id r = ws" and "ri_issue_key r = issue_key_for v"
    and "is_legal (ri_status r) STATUS_REOPENED"
  shows "vn_status v = ''reopened'' \<and> map_option ri_status (item_row (vb_rem db') (ri_id r)) = Some STATUS_REOPENED
    \<and> map_option ri_version (item_row (vb_rem db') (ri_id r)) = Some (ri_version r + 1)"
proof -
  note F = ingest_facts [OF assms(1,2,6)]
  have u: "unique_key ri_id (db_items (vb_rem db))" "unique_key (\<lambda>r. (ri_project_id r, ri_issue_key r)) (db_items (vb_rem db))"
    using assms(3) by (simp_all add: db_wf_def)
  have row: "item_row (vb_rem db) (ri_id r) = Some r"
    using find_row_key [OF u(1) assms(8)] by (simp add: item_row_def)
  have "find_row (\<lambda>x. ri_project_id x = project \<and> ri_workspace_id x = ws \<and> ri_issue_key x = issue_key_for v)
      (db_items (vb_rem db)) = Some r"
  proof -
    let ?P = "\<lambda>x. ri_project_id x = project \<and> ri_workspace_id x = ws \<and> ri_issue_key x = issue_key_for v"
    have "find_row ?P (db_items (vb_rem db)) \<noteq> None" using assms(8-11) by (auto simp: find_row_None)
    then obtain x where x: "find_row ?P (db_items (vb_rem db)) = Some x" by blast
    from find_row_Some [OF x] have "x = r"
      using unique_key_eq [OF u(2), of x r] assms(8-11) by simp
    with x show ?thesis by simp
  qed
  then have k: "reopen_for_regression now ws project (issue_key_for v) (vb_rem db) =
      Inr (Some (stamp now (ri_version r) (set_status now STATUS_REOPENED r)),
           transition_result now r None STATUS_REOPENED (Some [Lit ''re-detected by a scan''])
             ''remediation.reopened'' ''transition'' (vb_rem db))"
    using assms(12) by (simp add: reopen_for_regression_def apply_transition_current [OF u(1) row])
  from F(1) show ?thesis
  proof cases
    case (seen x)
    have xw: "x = w" using seen(1) assms(4) by simp
    then have st: "vn_status v = ''reopened''" using assms(5) seen(2) by simp
    have "vb_rem db' = reopen_item now project v (vb_rem db)" using seen(7) assms(5) xw by simp
    then show ?thesis using st by (simp add: reopen_item_def assms(7) k transition_result_rows [OF row] stamp_def)
  qed (use assms(4) in simp_all)
qed

section \<open>Analysts\<close>

text \<open>The table of human transitions, in words: live findings may go anywhere else, decided ones only back to life.\<close>

definition may_set :: "string \<Rightarrow> string \<Rightarrow> bool" where
  "may_set current new =
     (new \<noteq> current \<and> (current \<in> {''open'', ''confirmed'', ''reopened''} \<or> new \<in> {''open'', ''confirmed''}))"

lemma legal_targets_iff:
  "a \<in> set VULNERABILITY_STATUSES \<Longrightarrow> b \<in> set SETTABLE_STATUSES \<Longrightarrow> b \<in> set (legal_status_targets a) \<longleftrightarrow> may_set a b"
  unfolding VULNERABILITY_STATUSES_def SETTABLE_STATUSES_def legal_status_targets_def LEGAL_STATUS_TRANSITIONS_def may_set_def
  by (simp only: set_simps insert_iff empty_iff simp_thms) (elim disjE; simp)

text \<open>
  An analyst's status change succeeds exactly for a settable status that the current one may go to, on a
  finding of the project in the caller's workspace; then it changes that row alone and leaves one audit row.
\<close>
theorem status_change_outcome:
  assumes "vuln_inv same_text db" and "list_all typed_vulnerability (vb_vulns db)"
  shows "case set_vulnerability_status now ws project i st justification actor db of
      Inr (v', db') \<Rightarrow>
        st \<in> set SETTABLE_STATUSES \<and> List.member (db_projects (vb_rem db)) (project, ws)
        \<and> list_ex (\<lambda>v. vn_id v = i \<and> vn_project_id v = project \<and> may_set (vn_status v) st) (vb_vulns db)
        \<and> find_row (\<lambda>v. vn_id v = i) (vb_vulns db') = Some v' \<and> vn_status v' = st \<and> vn_status_changed_by v' = Some actor
        \<and> filter (\<lambda>x. vn_id x \<noteq> i) (vb_vulns db') = filter (\<lambda>x. vn_id x \<noteq> i) (vb_vulns db)
        \<and> vb_history db' = vb_history db \<and> length (db_audits (vb_rem db')) = length (db_audits (vb_rem db)) + 1
    | Inl e \<Rightarrow>
        \<not> (st \<in> set SETTABLE_STATUSES \<and> List.member (db_projects (vb_rem db)) (project, ws)
           \<and> list_ex (\<lambda>v. vn_id v = i \<and> vn_project_id v = project \<and> may_set (vn_status v) st) (vb_vulns db))"
proof (cases "set_vulnerability_status now ws project i st justification actor db")
  case (Inr x)
  obtain v' db' where x: "x = (v', db')" by fastforce
  have u: "unique_key vn_id (vb_vulns db)" using assms(1) by (simp add: vuln_inv_def one_row_per_issue_def)
  from set_status_rem [OF Inr [unfolded x]] have "length (db_audits (vb_rem db')) = length (db_audits (vb_rem db)) + 1"
    by (auto simp: audit_record_def)
  moreover note Inr [unfolded x]
  then obtain v where v: "v \<in> set (vb_vulns db)" "vn_id v = i" "vn_project_id v = project"
      "st \<in> set SETTABLE_STATUSES" "st \<in> set (legal_status_targets (vn_status v))"
    and v': "v' = v\<lparr>vn_status := st, vn_status_justification := Some [Lit justification],
            vn_status_changed_by := Some actor, vn_status_changed_at := Some now\<rparr>"
    and db': "vb_vulns db' = update_where (\<lambda>r. vn_id r = i) (\<lambda>_. v') (vb_vulns db)" "vb_history db' = vb_history db"
      "List.member (db_projects (vb_rem db)) (project, ws)"
    by (rule set_status_okE)
  have "find_row (\<lambda>r. vn_id r = i) (vb_vulns db') = Some v'"
    using find_row_update_where_key [of "\<lambda>r. vn_id r = i" vn_id "\<lambda>_. v'" i "vb_vulns db"] find_row_key [OF u v(1)]
    by (simp add: db'(1) v(2) v')
  moreover have "filter (\<lambda>x. vn_id x \<noteq> i) (vb_vulns db') = filter (\<lambda>x. vn_id x \<noteq> i) (vb_vulns db)"
  proof -
    have "vn_id v' = i" by (simp add: v' v(2))
    then have "filter (\<lambda>x. vn_id x \<noteq> i) (update_where (\<lambda>r. vn_id r = i) (\<lambda>_. v') vs) = filter (\<lambda>x. vn_id x \<noteq> i) vs" for vs
      by (induction vs) (auto simp: update_where_def)
    then show ?thesis by (simp add: db'(1))
  qed
  moreover have "may_set (vn_status v) st"
    using assms(2) v(1,4,5) legal_targets_iff by (auto simp: list_all_iff typed_vulnerability_def)
  ultimately show ?thesis using v db' by (auto simp: Inr x list_ex_iff v')
next
  case (Inl e)
  have "\<not> may_set (vn_status v) st" if m: "st \<in> set SETTABLE_STATUSES" "List.member (db_projects (vb_rem db)) (project, ws)"
      "v \<in> set (vb_vulns db)" "vn_id v = i" "vn_project_id v = project" for v
  proof -
    have u: "unique_key vn_id (vb_vulns db)" using assms(1) by (simp add: vuln_inv_def one_row_per_issue_def)
    have "find_row (\<lambda>x. vn_id x = i \<and> vn_project_id x = project) (vb_vulns db) \<noteq> None" using m by (auto simp: find_row_None)
    then obtain w where w: "find_row (\<lambda>x. vn_id x = i \<and> vn_project_id x = project) (vb_vulns db) = Some w" by blast
    have "w = v" using find_row_Some [OF w] unique_key_eq [OF u, of w v] m by simp
    then have "\<not> st \<in> set (legal_status_targets (vn_status v))"
      using Inl w m(1,2) by (auto simp: set_vulnerability_status_def get_vuln_def Let_def split: if_splits)
    then show ?thesis
      using assms(2) m(1,3) legal_targets_iff by (auto simp: list_all_iff typed_vulnerability_def)
  qed
  then show ?thesis by (auto simp: Inl list_ex_iff)
qed

section \<open>Examples\<close>

text \<open>
  A fixed finding whose remediation item is verified, and a dismissed one; a re-detection of the first, and a
  detection at the location of the second under a new fingerprint. Text is compared without case.
\<close>

definition ci :: "string \<Rightarrow> string \<Rightarrow> bool" where
  "ci a b = (py_lower a = py_lower b)"

definition ex_fixed :: vulnerability where
  "ex_fixed = \<lparr>vn_id = 2, vn_project_id = 20, vn_asset_id = None, vn_first_detected_scan_id = Some 30,
     vn_last_seen_scan_id = Some 30, vn_fingerprint = ''sqli|m|https://a/'', vn_title = ''SQL injection'',
     vn_category = Some ''cwe-89'', vn_description = None, vn_severity = ''high'', vn_cvss_vector = None,
     vn_cvss_score = None, vn_status = ''fixed'', vn_status_justification = Some [Lit ''patched''],
     vn_status_changed_by = Some 7, vn_status_changed_at = Some 40, vn_created_at = 5\<rparr>"

definition ex_dismissed :: vulnerability where
  "ex_dismissed = ex_fixed\<lparr>vn_id := 1, vn_fingerprint := ''xss|old|http://b:80/x'', vn_status := ''false_positive''\<rparr>"

definition ex_vuln_db :: vuln_db where
  "ex_vuln_db = \<lparr>vb_vulns = [ex_dismissed, ex_fixed], vb_links = [],
     vb_history = [snapshot ex_dismissed 20 30 40 ''created'', snapshot ex_fixed 20 30 40 ''created''],
     vb_lineage = [], vb_next = 3, vb_rem = snd ex_verdict\<rparr>"

definition ex_found :: vulnerability_finding where
  "ex_found = \<lparr>fd_fingerprint = ''sqli|m|https://a/'', fd_title = ''SQL injection'', fd_severity = Some ''HIGH '',
     fd_category = Some ''CWE_089'', fd_description = Some ''again'', fd_cvss_vector = None, fd_cvss_score = None\<rparr>"

definition ex_moved :: vulnerability_finding where
  "ex_moved = ex_found\<lparr>fd_fingerprint := ''xss|new|HTTP://B/x''\<rparr>"

definition ex_ingest :: "vulnerability_finding \<Rightarrow> vulnerability \<times> vuln_db" where
  "ex_ingest f = ingest_finding ci 90 20 31 f 41 51 None ex_vuln_db"

lemma ci_equivp: "equivp ci"
  by (auto simp: ci_def [abs_def] intro!: equivpI reflpI sympI transpI)

lemma ex_vuln_inv: "vuln_inv ci ex_vuln_db"
  by (simp add: vuln_inv_def one_row_per_issue_def history_current_def lineage_sound_def links_sound_def unique_key_def
      ex_vuln_db_def ex_dismissed_def ex_fixed_def latest_snapshot_def snapshot_def shows_content_def ci_def py_lower_def
      lower_char_def)

lemma ex_ingest_eq: "ingest_finding ci 90 20 31 f 41 51 None ex_vuln_db = (fst (ex_ingest f), snd (ex_ingest f))"
  by (simp add: ex_ingest_def)

lemma ex_ingest_run: "(vuln_step ci)\<^sup>*\<^sup>* ex_vuln_db (snd (ex_ingest f))"
  using vuln_step.ingest [OF ex_ingest_eq] by (rule r_into_rtranclp)

lemma ex_typed: "\<forall>v \<in> set (vb_vulns ex_vuln_db). typed_vulnerability v"
  by (auto simp: ex_vuln_db_def ex_dismissed_def ex_fixed_def typed_vulnerability_def SEVERITIES_def
      VULNERABILITY_STATUSES_def cwe_shape_def is_digit_char_def)

lemma ex_rem_inv: "system_inv (vb_rem ex_vuln_db)"
  using system_inv_run [OF ex_verdict_run ex_system_inv] by (simp add: ex_vuln_db_def)

theorem vulnerability_columns_typed_witness:
  "list_all typed_vulnerability (vb_vulns (snd (ex_ingest ex_moved)))"
  using vulnerability_columns_typed [OF ex_ingest_run ex_vuln_inv ci_equivp ex_typed] by (simp add: list_all_iff)

theorem vulnerability_tables_consistent_witness: "vuln_inv ci (snd (ex_ingest ex_moved))"
  by (rule vulnerability_tables_consistent [OF ex_ingest_run ex_vuln_inv ci_equivp])

theorem vulnerabilities_move_legally_witness:
  "\<exists>v'. find_row (\<lambda>x. vn_id x = 2) (vb_vulns (snd (ex_ingest ex_found))) = Some v' \<and> vn_project_id v' = 20
    \<and> vn_fingerprint v' = ''sqli|m|https://a/'' \<and> vn_category v' = Some ''cwe-89''
    \<and> status_moves\<^sup>*\<^sup>* ''fixed'' (vn_status v')"
  using vulnerabilities_move_legally [OF ex_ingest_run ex_vuln_inv ci_equivp, of 2 ex_fixed ex_found]
  by (simp add: ex_vuln_db_def find_row_def ex_dismissed_def ex_fixed_def)


theorem ingest_outcome_witness:
  "fst (ex_ingest ex_moved) \<in> set (vb_vulns (snd (ex_ingest ex_moved)))
    \<and> vn_severity (fst (ex_ingest ex_moved)) = normalize_severity (Some ''HIGH '')
    \<and> vn_status (fst (ex_ingest ex_moved)) = ingest_status ci 20 ''xss|new|HTTP://B/x'' ex_vuln_db"
  using ingest_outcome [OF ex_vuln_inv ci_equivp ex_ingest_eq, of ex_moved] by (simp add: ex_moved_def ex_found_def)

theorem redetection_idempotent_witness:
  "ingest_finding ci 95 20 31 ex_moved 41 51 None (snd (ex_ingest ex_moved)) = ex_ingest ex_moved"
  using redetection_idempotent [OF ex_vuln_inv ci_equivp ex_ingest_eq, of 95 ex_moved] by simp

theorem inheritance_is_certain_witness:
  "let C = candidates ci 20 ''xss|new|HTTP://B/x'' ex_vuln_db;
       certain = (\<exists>a. C = {a} \<and> List.member STICKY_STATUSES (vn_status a))
   in vn_status (fst (ex_ingest ex_moved)) = (if certain then vn_status (the_elem C) else ''open'')
    \<and> vn_status_changed_by (fst (ex_ingest ex_moved)) = (if certain then vn_status_changed_by (the_elem C) else None)
    \<and> length (vb_lineage (snd (ex_ingest ex_moved))) = length (vb_lineage ex_vuln_db) + (if \<exists>a. C = {a} then 1 else 0)"
proof -
  have e: "existing_vulnerability ci 20 (fd_fingerprint ex_moved) ex_vuln_db = None" by code_simp
  have f: "fd_fingerprint ex_moved = ''xss|new|HTTP://B/x''" by (simp add: ex_moved_def)
  from inheritance_is_certain [OF ex_vuln_inv ci_equivp e ex_ingest_eq, unfolded f] show ?thesis .
qed

lemma ex_inherited: "vn_status (fst (ex_ingest ex_moved)) = ''false_positive''"
  by code_simp

theorem regression_reopens_item_witness:
  "vn_status (fst (ex_ingest ex_found)) = ''reopened''
    \<and> map_option ri_status (item_row (vb_rem (snd (ex_ingest ex_found))) 11) = Some STATUS_REOPENED
    \<and> map_option ri_version (item_row (vb_rem (snd (ex_ingest ex_found))) 11)
        = Some (ri_version (hd (db_items (snd ex_verdict))) + 1)"
proof -
  let ?r = "hd (db_items (snd ex_verdict))"
  have wf: "db_wf (vb_rem ex_vuln_db)" using ex_rem_inv by (simp add: system_inv_def)
  have w: "existing_vulnerability ci 20 (fd_fingerprint ex_found) ex_vuln_db = Some ex_fixed"
    by (simp add: existing_vulnerability_def find_row_def ex_vuln_db_def ex_dismissed_def ex_fixed_def ex_found_def ci_def
        py_lower_def lower_char_def)
  have s: "vn_status ex_fixed = ''fixed''" by (simp add: ex_fixed_def)
  have p: "workspace_for_project 20 (vb_rem ex_vuln_db) = Some 10" by code_simp
  have r: "?r \<in> set (db_items (vb_rem ex_vuln_db))" "ri_project_id ?r = 20" "ri_workspace_id ?r = 10"
      "ri_issue_key ?r = issue_key_for (fst (ex_ingest ex_found))" "is_legal (ri_status ?r) STATUS_REOPENED" "ri_id ?r = 11"
    by (simp add: ex_vuln_db_def, (code_simp+))
  from regression_reopens_item [OF ex_vuln_inv ci_equivp wf w s ex_ingest_eq p r(1-5)] r(6) show ?thesis by simp
qed

theorem status_change_outcome_witness:
  "case set_vulnerability_status 60 10 20 2 ''open'' ''not fixed'' 7 ex_vuln_db of
     Inr (v', db') \<Rightarrow> vn_status v' = ''open'' \<and> find_row (\<lambda>v. vn_id v = 2) (vb_vulns db') = Some v'
   | Inl e \<Rightarrow> \<not> (''open'' \<in> set SETTABLE_STATUSES \<and> List.member (db_projects (vb_rem ex_vuln_db)) (20, 10)
       \<and> list_ex (\<lambda>v. vn_id v = 2 \<and> vn_project_id v = 20 \<and> may_set (vn_status v) ''open'') (vb_vulns ex_vuln_db))"
proof -
  have "list_all typed_vulnerability (vb_vulns ex_vuln_db)" using ex_typed by (simp add: list_all_iff)
  from status_change_outcome [OF ex_vuln_inv this, where now = 60 and ws = 10 and project = 20 and i = 2
      and st = "''open''" and justification = "''not fixed''" and actor = 7] show ?thesis
    by (auto split: sum.splits)
qed

text \<open>
  The module that normalises locations never touches a path, because its case can be significant. The
  database compares fingerprints without case, so two endpoints that differ in case are one row, and a
  dismissal of the first dismisses the second, whose fingerprint is not even stored.
\<close>
theorem case_twins_are_one_vulnerability:
  "(case ingest_finding ci 90 20 31 (ex_found\<lparr>fd_fingerprint := ''xss|old|HTTP://B/X''\<rparr>) 41 51 None
          (ex_vuln_db\<lparr>vb_vulns := [ex_dismissed\<lparr>vn_fingerprint := ''xss|old|http://b/x''\<rparr>]\<rparr>) of
      (v, db') \<Rightarrow> vn_status v = ''false_positive'' \<and> map vn_fingerprint (vb_vulns db') = [''xss|old|http://b/x''])
   \<and> normalize_location (Some ''HTTP://B/X'') = Some ''http://b/X''
   \<and> normalize_location (Some ''http://b/x'') = Some ''http://b/x''"
  by code_simp

end
