(* ===== verification/Auth_Service.thy ===== *)
theory Auth_Service
  imports Row_Interfaces
begin

text \<open>
  Authentication: \<open>core/security.py\<close>, \<open>core/mfa.py\<close>, \<open>modules/auth/mfa_guard.py\<close> and
  \<open>modules/auth/service.py\<close> over the rows of \<open>modules/users/models.py\<close> and
  \<open>modules/auth/models.py\<close>. The cryptography (bcrypt, SHA-256, Fernet, TOTP, JWT) and the random
  secrets are parameters, and so is whether Redis answers. A request returns its outcome with the state it
  leaves: what it committed, and the failure counters of Redis.
\<close>

section \<open>Rows and state\<close>

record user =
  us_id :: uuid
  us_email :: string
  us_password_hash :: string
  us_full_name :: string
  us_mfa_enabled :: bool
  us_mfa_secret_encrypted :: "string option"
  us_mfa_enabled_at :: "time option"
  us_status :: string
  us_last_login_at :: "time option"

record refresh_token =
  rt_id :: uuid
  rt_user_id :: uuid
  rt_token_hash :: string
  rt_expires_at :: time
  rt_revoked_at :: "time option"
  rt_replaced_by_id :: "uuid option"

record mfa_recovery_code =
  rc_user_id :: uuid
  rc_code_hash :: string
  rc_used_at :: "time option"

record api_key =
  ak_id :: uuid
  ak_workspace_id :: uuid
  ak_created_by :: uuid
  ak_name :: string
  ak_prefix :: string
  ak_key_hash :: string
  ak_revoked :: bool
  ak_last_used_at :: "time option"

record auth_db =
  ad_users :: "user list"
  ad_tokens :: "refresh_token list"
  ad_codes :: "mfa_recovery_code list"
  ad_keys :: "api_key list"
  ad_failures :: "uuid \<Rightarrow> (nat \<times> time) option"   \<comment> \<open>Redis: the count and when it expires\<close>
  ad_next :: uuid

text \<open>The claims of a token.\<close>

record claims =
  cl_sub :: uuid
  cl_type :: string
  cl_iat :: time
  cl_exp :: time

text \<open>
  Settings and cryptography. \<open>None\<close> stands for an exception: \<open>bcrypt.checkpw\<close> on a malformed hash,
  \<open>decrypt_secret\<close> on a wrong key or corrupt data, \<open>pyotp\<close> on a malformed secret, \<open>jwt.decode\<close> on an
  invalid or expired token. Settings that are durations are in microseconds.
\<close>

record auth_env =
  av_same_text :: "string \<Rightarrow> string \<Rightarrow> bool"
  av_hashpw :: "string \<Rightarrow> string \<Rightarrow> string"
  av_checkpw :: "string \<Rightarrow> string \<Rightarrow> bool option"
  av_sha256 :: "string \<Rightarrow> string"
  av_encrypt :: "string \<Rightarrow> string"
  av_decrypt :: "string \<Rightarrow> string option"
  av_totp :: "string \<Rightarrow> string \<Rightarrow> nat \<Rightarrow> time \<Rightarrow> bool option"
  av_jwt_encode :: "claims \<Rightarrow> string"
  av_jwt_decode :: "time \<Rightarrow> string \<Rightarrow> claims option"
  av_redis_up :: "time \<Rightarrow> bool"
  av_access_ttl :: time
  av_refresh_ttl :: time
  av_mfa_challenge_ttl :: time
  av_mfa_max_attempts :: nat
  av_mfa_lockout :: time

datatype auth_error = AuthErr nat string | AuthCrash string

section \<open>Passwords and tokens\<close>

definition BCRYPT_MAX_BYTES :: nat where "BCRYPT_MAX_BYTES = 72"

definition pw_bytes :: "string \<Rightarrow> string" where "pw_bytes password = take BCRYPT_MAX_BYTES password"

definition hash_password :: "auth_env \<Rightarrow> string \<Rightarrow> string \<Rightarrow> string" where
  "hash_password env salt password = av_hashpw env salt (pw_bytes password)"

definition verify_password :: "auth_env \<Rightarrow> string \<Rightarrow> string \<Rightarrow> bool" where
  "verify_password env password password_hash = (av_checkpw env (pw_bytes password) password_hash = Some True)"

definition create_access_token :: "auth_env \<Rightarrow> time \<Rightarrow> uuid \<Rightarrow> string" where
  "create_access_token env now user_id =
     av_jwt_encode env \<lparr>cl_sub = user_id, cl_type = ''access'', cl_iat = now, cl_exp = now + av_access_ttl env\<rparr>"

definition create_mfa_challenge_token :: "auth_env \<Rightarrow> time \<Rightarrow> uuid \<Rightarrow> string" where
  "create_mfa_challenge_token env now user_id =
     av_jwt_encode env \<lparr>cl_sub = user_id, cl_type = ''mfa'', cl_iat = now, cl_exp = now + av_mfa_challenge_ttl env\<rparr>"

definition decode_typed :: "string \<Rightarrow> auth_env \<Rightarrow> time \<Rightarrow> string \<Rightarrow> claims option" where
  "decode_typed type env now token =
     (case av_jwt_decode env now token of
        None \<Rightarrow> None | Some payload \<Rightarrow> if cl_type payload \<noteq> type then None else Some payload)"

definition decode_access_token :: "auth_env \<Rightarrow> time \<Rightarrow> string \<Rightarrow> claims option" where
  "decode_access_token = decode_typed ''access''"

definition decode_mfa_challenge_token :: "auth_env \<Rightarrow> time \<Rightarrow> string \<Rightarrow> claims option" where
  "decode_mfa_challenge_token = decode_typed ''mfa''"

definition hash_refresh_token :: "auth_env \<Rightarrow> string \<Rightarrow> string" where
  "hash_refresh_token env raw = av_sha256 env raw"

section \<open>Second factors\<close>

definition RECOVERY_CODE_COUNT :: nat where "RECOVERY_CODE_COUNT = 10"

definition verify_totp :: "auth_env \<Rightarrow> time \<Rightarrow> string \<Rightarrow> string \<Rightarrow> bool" where
  "verify_totp env now secret code =
     (let c = py_strip code in
      if c = [] \<or> \<not> list_all is_digit_char c then False else av_totp env secret c 1 now = Some True)"

fun chunks4 :: "string \<Rightarrow> string list" where
  "chunks4 (a # b # c # d # s) = [a, b, c, d] # chunks4 s"
| "chunks4 [] = []"
| "chunks4 s = [s]"

text \<open>The codes made of the random hexadecimal texts that \<open>secrets.token_hex\<close> returned.\<close>

definition recovery_codes :: "string list \<Rightarrow> string list" where
  "recovery_codes raws = map (\<lambda>raw. py_join ''-'' (chunks4 raw)) raws"

definition normalize_recovery_code :: "string \<Rightarrow> string" where
  "normalize_recovery_code code = filter (\<lambda>c. c \<noteq> CHR ''-'' \<and> c \<noteq> CHR '' '') (py_lower (py_strip code))"

definition hash_recovery_code :: "auth_env \<Rightarrow> string \<Rightarrow> string" where
  "hash_recovery_code env code = av_sha256 env (normalize_recovery_code code)"

section \<open>The lockout\<close>

definition failure_count :: "time \<Rightarrow> auth_db \<Rightarrow> uuid \<Rightarrow> nat" where
  "failure_count now db u =
     (case ad_failures db u of None \<Rightarrow> 0 | Some (n, expires) \<Rightarrow> if now < expires then n else 0)"

definition assert_not_locked :: "auth_env \<Rightarrow> time \<Rightarrow> uuid \<Rightarrow> auth_db \<Rightarrow> auth_error + unit" where
  "assert_not_locked env now u db =
     (if \<not> av_redis_up env now then Inr ()
      else if failure_count now db u \<noteq> 0 \<and> av_mfa_max_attempts env \<le> failure_count now db u
      then Inl (AuthErr 429 ''Too many MFA attempts; try again later'') else Inr ())"

definition record_failure :: "auth_env \<Rightarrow> time \<Rightarrow> uuid \<Rightarrow> auth_db \<Rightarrow> auth_db" where
  "record_failure env now u db =
     (if \<not> av_redis_up env now then db
      else db\<lparr>ad_failures := (ad_failures db)(u \<mapsto> (failure_count now db u + 1, now + av_mfa_lockout env))\<rparr>)"

definition clear_failures :: "auth_env \<Rightarrow> time \<Rightarrow> uuid \<Rightarrow> auth_db \<Rightarrow> auth_db" where
  "clear_failures env now u db =
     (if \<not> av_redis_up env now then db else db\<lparr>ad_failures := (ad_failures db)(u := None)\<rparr>)"

section \<open>Accounts\<close>

definition user_by_email :: "auth_env \<Rightarrow> string \<Rightarrow> auth_db \<Rightarrow> user option" where
  "user_by_email env email db = find_row (\<lambda>u. av_same_text env (us_email u) email) (ad_users db)"

definition user_by_id :: "uuid \<Rightarrow> auth_db \<Rightarrow> user option" where
  "user_by_id i db = find_row (\<lambda>u. us_id u = i) (ad_users db)"

definition put_user :: "user \<Rightarrow> auth_db \<Rightarrow> auth_db" where
  "put_user u db = db\<lparr>ad_users := update_where (\<lambda>r. us_id r = us_id u) (\<lambda>_. u) (ad_users db)\<rparr>"

definition register_user ::
  "auth_env \<Rightarrow> string \<Rightarrow> string \<Rightarrow> string \<Rightarrow> string \<Rightarrow> auth_db \<Rightarrow> (auth_error + user) \<times> auth_db" where
  "register_user env salt email password full_name db =
     (if user_by_email env email db \<noteq> None then (Inl (AuthErr 409 ''Email already registered''), db)
      else (let u = \<lparr>us_id = ad_next db, us_email = email, us_password_hash = hash_password env salt password,
                     us_full_name = full_name, us_mfa_enabled = False, us_mfa_secret_encrypted = None,
                     us_mfa_enabled_at = None, us_status = ''active'', us_last_login_at = None\<rparr>
            in (Inr u, db\<lparr>ad_users := ad_users db @ [u], ad_next := ad_next db + 1\<rparr>)))"

definition authenticate_user :: "auth_env \<Rightarrow> string \<Rightarrow> string \<Rightarrow> auth_db \<Rightarrow> auth_error + user" where
  "authenticate_user env email password db =
     (case user_by_email env email db of
        None \<Rightarrow> Inl (AuthErr 401 ''Incorrect email or password'')
      | Some u \<Rightarrow>
          if \<not> verify_password env password (us_password_hash u) then Inl (AuthErr 401 ''Incorrect email or password'')
          else if us_status u \<noteq> ''active'' then Inl (AuthErr 403 ''Account is not active'')
          else Inr u)"

section \<open>Sessions\<close>

definition new_refresh_token :: "auth_env \<Rightarrow> time \<Rightarrow> string \<Rightarrow> uuid \<Rightarrow> auth_db \<Rightarrow> refresh_token" where
  "new_refresh_token env now raw u db =
     \<lparr>rt_id = ad_next db, rt_user_id = u, rt_token_hash = hash_refresh_token env raw,
      rt_expires_at = now + av_refresh_ttl env, rt_revoked_at = None, rt_replaced_by_id = None\<rparr>"

definition add_token :: "refresh_token \<Rightarrow> auth_db \<Rightarrow> auth_db" where
  "add_token t db = db\<lparr>ad_tokens := ad_tokens db @ [t], ad_next := ad_next db + 1\<rparr>"

text \<open>The unique index on the hash; a collision fails the whole request.\<close>

definition hash_taken :: "string \<Rightarrow> auth_db \<Rightarrow> bool" where
  "hash_taken h db = list_ex (\<lambda>t. rt_token_hash t = h) (ad_tokens db)"

definition issue_token_pair ::
  "auth_env \<Rightarrow> time \<Rightarrow> string \<Rightarrow> uuid \<Rightarrow> auth_db \<Rightarrow> auth_error + (string \<times> string) \<times> auth_db" where
  "issue_token_pair env now raw u db =
     (if hash_taken (hash_refresh_token env raw) db then Inl (AuthCrash ''IntegrityError'')
      else Inr ((create_access_token env now u, raw), add_token (new_refresh_token env now raw u db) db))"

definition MAX_FAMILY_HOPS :: nat where "MAX_FAMILY_HOPS = 100"

definition token_by_id :: "uuid \<Rightarrow> refresh_token list \<Rightarrow> refresh_token option" where
  "token_by_id i ts = find_row (\<lambda>t. rt_id t = i) ts"

definition revoke_at :: "time \<Rightarrow> uuid \<Rightarrow> refresh_token list \<Rightarrow> refresh_token list" where
  "revoke_at now i ts =
     update_where (\<lambda>t. rt_id t = i \<and> rt_revoked_at t = None) (\<lambda>t. t\<lparr>rt_revoked_at := Some now\<rparr>) ts"

fun revoke_token_family ::
  "nat \<Rightarrow> time \<Rightarrow> uuid list \<Rightarrow> refresh_token option \<Rightarrow> refresh_token list \<Rightarrow> nat \<times> refresh_token list" where
  "revoke_token_family 0 now seen cursor ts = (0, ts)"
| "revoke_token_family (Suc hops) now seen None ts = (0, ts)"
| "revoke_token_family (Suc hops) now seen (Some t) ts =
     (if List.member seen (rt_id t) then (0, ts)
      else (let newly = (if rt_revoked_at t = None then 1 else 0); ts1 = revoke_at now (rt_id t) ts
            in case rt_replaced_by_id t of
                 None \<Rightarrow> (newly, ts1)
               | Some i \<Rightarrow>
                   (case revoke_token_family hops now (rt_id t # seen) (token_by_id i ts1) ts1 of
                      (n, ts2) \<Rightarrow> (newly + n, ts2))))"

definition token_by_hash :: "string \<Rightarrow> auth_db \<Rightarrow> refresh_token option" where
  "token_by_hash h db = find_row (\<lambda>t. rt_token_hash t = h) (ad_tokens db)"

text \<open>\<open>rotate_refresh_token\<close>, as its reads and its writes: no lock is taken between them.\<close>

definition rotate_reads :: "auth_env \<Rightarrow> time \<Rightarrow> string \<Rightarrow> auth_db \<Rightarrow> (auth_error + refresh_token) \<times> auth_db" where
  "rotate_reads env now raw db =
     (case token_by_hash (hash_refresh_token env raw) db of
        None \<Rightarrow> (Inl (AuthErr 401 ''Invalid or expired refresh token''), db)
      | Some t \<Rightarrow>
          if rt_revoked_at t \<noteq> None
          then (Inl (AuthErr 401 ''Invalid or expired refresh token''),
                db\<lparr>ad_tokens := snd (revoke_token_family MAX_FAMILY_HOPS now [] (Some t) (ad_tokens db))\<rparr>)
          else if rt_expires_at t < now then (Inl (AuthErr 401 ''Invalid or expired refresh token''), db)
          else (case user_by_id (rt_user_id t) db of
                  None \<Rightarrow> (Inl (AuthErr 401 ''User not found or inactive''), db)
                | Some u \<Rightarrow>
                    if us_status u \<noteq> ''active'' then (Inl (AuthErr 401 ''User not found or inactive''), db)
                    else (Inr t, db)))"

definition rotate_writes ::
  "auth_env \<Rightarrow> time \<Rightarrow> string \<Rightarrow> refresh_token \<Rightarrow> auth_db \<Rightarrow> (auth_error + string \<times> string) \<times> auth_db" where
  "rotate_writes env now new_raw t db =
     (if hash_taken (hash_refresh_token env new_raw) db then (Inl (AuthCrash ''IntegrityError''), db)
      else (let n = new_refresh_token env now new_raw (rt_user_id t) db;
                db1 = add_token n db
            in (Inr (create_access_token env now (rt_user_id t), new_raw),
                db1\<lparr>ad_tokens := update_where (\<lambda>x. rt_id x = rt_id t)
                      (\<lambda>x. x\<lparr>rt_revoked_at := Some now, rt_replaced_by_id := Some (rt_id n)\<rparr>) (ad_tokens db1)\<rparr>)))"

definition rotate_refresh_token ::
  "auth_env \<Rightarrow> time \<Rightarrow> string \<Rightarrow> string \<Rightarrow> auth_db \<Rightarrow> (auth_error + string \<times> string) \<times> auth_db" where
  "rotate_refresh_token env now new_raw raw db =
     (case rotate_reads env now raw db of
        (Inl e, db1) \<Rightarrow> (Inl e, db1)
      | (Inr t, db1) \<Rightarrow> rotate_writes env now new_raw t db1)"

definition revoke_refresh_token :: "auth_env \<Rightarrow> time \<Rightarrow> string \<Rightarrow> auth_db \<Rightarrow> auth_db" where
  "revoke_refresh_token env now raw db =
     (case token_by_hash (hash_refresh_token env raw) db of
        None \<Rightarrow> db
      | Some t \<Rightarrow> if rt_revoked_at t = None then db\<lparr>ad_tokens := revoke_at now (rt_id t) (ad_tokens db)\<rparr> else db)"

section \<open>Logins with and without a second factor\<close>

datatype login_response = LoggedIn string string | MfaRequired string

definition begin_login ::
  "auth_env \<Rightarrow> time \<Rightarrow> string \<Rightarrow> string \<Rightarrow> string \<Rightarrow> auth_db \<Rightarrow> (auth_error + login_response) \<times> auth_db" where
  "begin_login env now raw email password db =
     (case authenticate_user env email password db of
        Inl e \<Rightarrow> (Inl e, db)
      | Inr u \<Rightarrow>
          if us_mfa_enabled u then (Inr (MfaRequired (create_mfa_challenge_token env now (us_id u))), db)
          else (case issue_token_pair env now raw (us_id u) (put_user (u\<lparr>us_last_login_at := Some now\<rparr>) db) of
                  Inl e \<Rightarrow> (Inl e, db)
                | Inr ((access, refresh), db') \<Rightarrow> (Inr (LoggedIn access refresh), db')))"

definition start_mfa_enrollment ::
  "auth_env \<Rightarrow> string \<Rightarrow> user \<Rightarrow> auth_db \<Rightarrow> (auth_error + string) \<times> auth_db" where
  "start_mfa_enrollment env secret u db =
     (if us_mfa_enabled u then (Inl (AuthErr 409 ''MFA is already enabled''), db)
      else (Inr secret, put_user (u\<lparr>us_mfa_secret_encrypted := Some (av_encrypt env secret)\<rparr>) db))"

definition new_codes :: "auth_env \<Rightarrow> uuid \<Rightarrow> string list \<Rightarrow> mfa_recovery_code list" where
  "new_codes env u codes =
     map (\<lambda>c. \<lparr>rc_user_id = u, rc_code_hash = hash_recovery_code env c, rc_used_at = None\<rparr>) codes"

definition verify_and_enable_mfa ::
  "auth_env \<Rightarrow> time \<Rightarrow> string list \<Rightarrow> user \<Rightarrow> string \<Rightarrow> auth_db \<Rightarrow> (auth_error + string list) \<times> auth_db" where
  "verify_and_enable_mfa env now raws u code db =
     (if us_mfa_enabled u then (Inl (AuthErr 409 ''MFA is already enabled''), db)
      else if \<not> truthy (us_mfa_secret_encrypted u)
      then (Inl (AuthErr 400 ''Start enrollment via /auth/mfa/enable first''), db)
      else (case assert_not_locked env now (us_id u) db of
              Inl e \<Rightarrow> (Inl e, db)
            | Inr _ \<Rightarrow>
                (case av_decrypt env (or_empty (us_mfa_secret_encrypted u)) of
                   None \<Rightarrow> (Inl (AuthCrash ''ValueError''), db)
                 | Some secret \<Rightarrow>
                     if \<not> verify_totp env now secret code
                     then (Inl (AuthErr 401 ''Invalid MFA code''), record_failure env now (us_id u) db)
                     else (let db1 = clear_failures env now (us_id u) db; codes = recovery_codes raws;
                               rows = ad_codes db @ new_codes env (us_id u) codes
                           in if \<not> distinct (map rc_code_hash rows) then (Inl (AuthCrash ''IntegrityError''), db1)
                              else (Inr codes,
                                    (put_user (u\<lparr>us_mfa_enabled := True, us_mfa_enabled_at := Some now\<rparr>) db1)
                                      \<lparr>ad_codes := rows\<rparr>)))))"

definition consume_recovery_code :: "auth_env \<Rightarrow> time \<Rightarrow> uuid \<Rightarrow> string \<Rightarrow> auth_db \<Rightarrow> bool \<times> auth_db" where
  "consume_recovery_code env now u code db =
     (let P = (\<lambda>r. rc_user_id r = u \<and> rc_code_hash r = hash_recovery_code env code \<and> rc_used_at r = None)
      in if \<not> list_ex P (ad_codes db) then (False, db)
         else (True, db\<lparr>ad_codes := update_where P (\<lambda>r. r\<lparr>rc_used_at := Some now\<rparr>) (ad_codes db)\<rparr>))"

text \<open>
  The second factor: a valid TOTP, or an unused recovery code, which is then used. \<open>None\<close> when the stored
  secret cannot be decrypted. Codes have unique hashes, so at most one row is used.
\<close>

definition second_factor :: "auth_env \<Rightarrow> time \<Rightarrow> user \<Rightarrow> string \<Rightarrow> auth_db \<Rightarrow> (bool \<times> auth_db) option" where
  "second_factor env now u code db =
     (case (if truthy (us_mfa_secret_encrypted u) then av_decrypt env (or_empty (us_mfa_secret_encrypted u)) else Some []) of
        None \<Rightarrow> None
      | Some secret \<Rightarrow>
          Some (if secret \<noteq> [] \<and> verify_totp env now secret code then (True, db)
                else consume_recovery_code env now (us_id u) code db))"

definition complete_mfa_login ::
  "auth_env \<Rightarrow> time \<Rightarrow> string \<Rightarrow> string \<Rightarrow> string \<Rightarrow> auth_db \<Rightarrow> (auth_error + string \<times> string) \<times> auth_db" where
  "complete_mfa_login env now raw mfa_token code db =
     (case decode_mfa_challenge_token env now mfa_token of
        None \<Rightarrow> (Inl (AuthErr 401 ''Invalid or expired MFA challenge''), db)
      | Some payload \<Rightarrow>
          (case user_by_id (cl_sub payload) db of
             None \<Rightarrow> (Inl (AuthErr 401 ''Invalid MFA state''), db)
           | Some u \<Rightarrow>
               if us_status u \<noteq> ''active'' \<or> \<not> us_mfa_enabled u then (Inl (AuthErr 401 ''Invalid MFA state''), db)
               else (case assert_not_locked env now (us_id u) db of
                       Inl e \<Rightarrow> (Inl e, db)
                     | Inr _ \<Rightarrow>
                         (case second_factor env now u code db of
                            None \<Rightarrow> (Inl (AuthCrash ''ValueError''), db)
                          | Some (False, _) \<Rightarrow>
                              (Inl (AuthErr 401 ''Invalid MFA code''), record_failure env now (us_id u) db)
                          | Some (True, db1) \<Rightarrow>
                              (let db2 = clear_failures env now (us_id u) db1
                               in case issue_token_pair env now raw (us_id u)
                                         (put_user (u\<lparr>us_last_login_at := Some now\<rparr>) db2) of
                                    Inl e \<Rightarrow> (Inl e, db\<lparr>ad_failures := ad_failures db2\<rparr>)
                                  | Inr (pair, db') \<Rightarrow> (Inr pair, db'))))))"

definition disable_mfa ::
  "auth_env \<Rightarrow> time \<Rightarrow> user \<Rightarrow> string \<Rightarrow> string \<Rightarrow> auth_db \<Rightarrow> (auth_error + unit) \<times> auth_db" where
  "disable_mfa env now u password code db =
     (if \<not> us_mfa_enabled u then (Inl (AuthErr 400 ''MFA is not enabled''), db)
      else if \<not> verify_password env password (us_password_hash u) then (Inl (AuthErr 401 ''Incorrect password''), db)
      else (case second_factor env now u code db of
              None \<Rightarrow> (Inl (AuthCrash ''ValueError''), db)
            | Some (False, _) \<Rightarrow> (Inl (AuthErr 401 ''Invalid MFA code''), db)
            | Some (True, db1) \<Rightarrow>
                (Inr (),
                 (put_user (u\<lparr>us_mfa_enabled := False, us_mfa_secret_encrypted := None, us_mfa_enabled_at := None\<rparr>) db1)
                   \<lparr>ad_codes := filter (\<lambda>r. rc_user_id r \<noteq> us_id u) (ad_codes db1)\<rparr>)))"

section \<open>API keys and erasure\<close>

definition KEY_PREFIX :: string where "KEY_PREFIX = ''mbsk_''"

definition create_key ::
  "auth_env \<Rightarrow> string \<Rightarrow> uuid \<Rightarrow> uuid \<Rightarrow> string \<Rightarrow> auth_db \<Rightarrow> (auth_error + api_key \<times> string) \<times> auth_db" where
  "create_key env random ws creator name db =
     (let raw = KEY_PREFIX @ random;
          k = \<lparr>ak_id = ad_next db, ak_workspace_id = ws, ak_created_by = creator, ak_name = name, ak_prefix = take 12 raw,
               ak_key_hash = av_sha256 env raw, ak_revoked = False, ak_last_used_at = None\<rparr>
      in if list_ex (\<lambda>x. ak_key_hash x = ak_key_hash k) (ad_keys db) then (Inl (AuthCrash ''IntegrityError''), db)
         else (Inr (k, raw), db\<lparr>ad_keys := ad_keys db @ [k], ad_next := ad_next db + 1\<rparr>))"

definition revoke_key :: "uuid \<Rightarrow> uuid \<Rightarrow> auth_db \<Rightarrow> (auth_error + unit) \<times> auth_db" where
  "revoke_key ws i db =
     (if find_row (\<lambda>k. ak_id k = i \<and> ak_workspace_id k = ws) (ad_keys db) = None
      then (Inl (AuthErr 404 ''API key not found''), db)
      else (Inr (), db\<lparr>ad_keys := update_where (\<lambda>k. ak_id k = i \<and> ak_workspace_id k = ws) (\<lambda>k. k\<lparr>ak_revoked := True\<rparr>) (ad_keys db)\<rparr>))"

definition authenticate_key :: "auth_env \<Rightarrow> time \<Rightarrow> string \<Rightarrow> auth_db \<Rightarrow> api_key option \<times> auth_db" where
  "authenticate_key env now raw db =
     (case find_row (\<lambda>k. ak_key_hash k = av_sha256 env raw \<and> \<not> ak_revoked k) (ad_keys db) of
        None \<Rightarrow> (None, db)
      | Some k \<Rightarrow>
          (Some k, db\<lparr>ad_keys := update_where (\<lambda>x. ak_id x = ak_id k) (\<lambda>x. x\<lparr>ak_last_used_at := Some now\<rparr>) (ad_keys db)\<rparr>))"

text \<open>\<open>erase_user\<close>; the audit rows it anonymises are not part of this state. \<open>tombstone\<close> prints the id.\<close>

definition erase_user ::
  "auth_env \<Rightarrow> string \<Rightarrow> string \<Rightarrow> (uuid \<Rightarrow> string) \<Rightarrow> user \<Rightarrow> string \<Rightarrow> auth_db \<Rightarrow> (auth_error + unit) \<times> auth_db" where
  "erase_user env salt random tombstone u password db =
     (if \<not> verify_password env password (us_password_hash u) then (Inl (AuthErr 401 ''Incorrect password''), db)
      else (Inr (),
            (put_user (u\<lparr>us_email := ''deleted+'' @ tombstone (us_id u) @ ''@deleted.invalid'', us_full_name := ''Deleted User'',
                        us_password_hash := hash_password env salt random, us_mfa_enabled := False,
                        us_mfa_secret_encrypted := None, us_mfa_enabled_at := None, us_status := ''deleted''\<rparr>) db)
              \<lparr>ad_tokens := filter (\<lambda>t. rt_user_id t \<noteq> us_id u) (ad_tokens db),
               ad_codes := filter (\<lambda>r. rc_user_id r \<noteq> us_id u) (ad_codes db),
               ad_keys := update_where (\<lambda>k. ak_created_by k = us_id u) (\<lambda>k. k\<lparr>ak_revoked := True\<rparr>) (ad_keys db)\<rparr>))"

end
