(* ===== verification/Access_Control.thy ===== *)
theory Access_Control
  imports Auth_Service
begin

text \<open>
  Who may do what: the request dependencies of \<open>core/deps.py\<close> (bearer token or API key, workspace
  membership, the deletion gate, permissions) and the membership operations of
  \<open>modules/workspaces/service.py\<close> over the rows of \<open>modules/users/models.py\<close> and
  \<open>modules/workspaces/models.py\<close>. Email addresses and role names are compared by the collation
  \<open>av_same_text\<close>.
\<close>

section \<open>Rows and state\<close>

record role =
  ro_id :: uuid
  ro_workspace_id :: "uuid option"
  ro_name :: string

record workspace_member =
  wm_id :: uuid
  wm_workspace_id :: uuid
  wm_user_id :: uuid
  wm_role_id :: uuid
  wm_joined_at :: "time option"

record workspace =
  wk_id :: uuid
  wk_name :: string
  wk_owner_user_id :: uuid
  wk_status :: string

record access_db =
  cd_auth :: auth_db
  cd_roles :: "role list"
  cd_role_permissions :: "(uuid \<times> string) list"   \<comment> \<open>role and permission key\<close>
  cd_members :: "workspace_member list"
  cd_workspaces :: "workspace list"
  cd_next :: uuid

section \<open>The caller\<close>

text \<open>The user a request acts as, and the workspace its API key is bound to.\<close>

definition get_current_user ::
  "auth_env \<Rightarrow> time \<Rightarrow> string option \<Rightarrow> auth_db \<Rightarrow> (auth_error + user \<times> uuid option) \<times> auth_db" where
  "get_current_user env now credentials db =
     (case credentials of
        None \<Rightarrow> (Inl (AuthErr 401 ''Missing bearer token''), db)
      | Some token \<Rightarrow>
          if py_startswith token KEY_PREFIX
          then (case authenticate_key env now token db of
                  (None, db1) \<Rightarrow> (Inl (AuthErr 401 ''Invalid or revoked API key''), db1)
                | (Some k, db1) \<Rightarrow>
                    (case user_by_id (ak_created_by k) db1 of
                       None \<Rightarrow> (Inl (AuthErr 401 ''API key owner not found or inactive''), db1)
                     | Some u \<Rightarrow>
                         if us_status u \<noteq> ''active'' then (Inl (AuthErr 401 ''API key owner not found or inactive''), db1)
                         else (Inr (u, Some (ak_workspace_id k)), db1)))
          else (case decode_access_token env now token of
                  None \<Rightarrow> (Inl (AuthErr 401 ''Invalid or expired token''), db)
                | Some payload \<Rightarrow>
                    (case user_by_id (cl_sub payload) db of
                       None \<Rightarrow> (Inl (AuthErr 401 ''User not found or inactive''), db)
                     | Some u \<Rightarrow>
                         if us_status u \<noteq> ''active'' then (Inl (AuthErr 401 ''User not found or inactive''), db)
                         else (Inr (u, None), db))))"

section \<open>The workspace\<close>

record workspace_context =
  wc_workspace_id :: uuid
  wc_member :: workspace_member
  wc_permissions :: "string list"

definition find_member :: "uuid \<Rightarrow> uuid \<Rightarrow> access_db \<Rightarrow> workspace_member option" where
  "find_member ws u db = find_row (\<lambda>m. wm_workspace_id m = ws \<and> wm_user_id m = u) (cd_members db)"

definition workspace_by_id :: "uuid \<Rightarrow> access_db \<Rightarrow> workspace option" where
  "workspace_by_id ws db = find_row (\<lambda>w. wk_id w = ws) (cd_workspaces db)"

definition role_by_id :: "uuid \<Rightarrow> access_db \<Rightarrow> role option" where
  "role_by_id i db = find_row (\<lambda>r. ro_id r = i) (cd_roles db)"

definition permissions_of :: "uuid \<Rightarrow> access_db \<Rightarrow> string list" where
  "permissions_of role db =
     (if role_by_id role db = None then [] else map snd (filter (\<lambda>p. fst p = role) (cd_role_permissions db)))"

definition get_workspace_context ::
  "string \<Rightarrow> uuid \<Rightarrow> user \<Rightarrow> uuid option \<Rightarrow> access_db \<Rightarrow> auth_error + workspace_context" where
  "get_workspace_context method ws u key_ws db =
     (if key_ws \<noteq> None \<and> key_ws \<noteq> Some ws then Inl (AuthErr 403 ''API key is not valid for this workspace'')
      else (case find_member ws (us_id u) db of
              None \<Rightarrow> Inl (AuthErr 403 ''Not a member of this workspace'')
            | Some m \<Rightarrow>
                if \<not> List.member [''GET'', ''HEAD'', ''OPTIONS''] method
                   \<and> map_option wk_status (workspace_by_id ws db) = Some ''deleting'' \<and> method \<noteq> ''DELETE''
                then Inl (AuthErr 409 ''Workspace is being deleted'')
                else Inr \<lparr>wc_workspace_id = ws, wc_member = m, wc_permissions = permissions_of (wm_role_id m) db\<rparr>))"

definition require_permission :: "string \<Rightarrow> workspace_context \<Rightarrow> auth_error + workspace_context" where
  "require_permission permission ctx =
     (if \<not> List.member (wc_permissions ctx) permission then Inl (AuthErr 403 (''Missing permission: '' @ permission))
      else Inr ctx)"

text \<open>The dependencies of an endpoint \<open>/workspaces/{workspace_id}/...\<close> that requires a permission.\<close>

definition endpoint_access ::
  "auth_env \<Rightarrow> time \<Rightarrow> string option \<Rightarrow> string \<Rightarrow> uuid \<Rightarrow> string \<Rightarrow> access_db
   \<Rightarrow> (auth_error + user \<times> workspace_context) \<times> access_db" where
  "endpoint_access env now credentials method ws permission db =
     (case get_current_user env now credentials (cd_auth db) of
        (r, a) \<Rightarrow>
          (res_bind r (\<lambda>(u, key_ws).
             res_bind (get_workspace_context method ws u key_ws (db\<lparr>cd_auth := a\<rparr>)) (\<lambda>ctx.
             res_bind (require_permission permission ctx) (\<lambda>ctx. Inr (u, ctx)))),
           db\<lparr>cd_auth := a\<rparr>))"

section \<open>Members\<close>

definition get_system_role_by_name :: "auth_env \<Rightarrow> string \<Rightarrow> access_db \<Rightarrow> auth_error + role" where
  "get_system_role_by_name env name db =
     (case find_row (\<lambda>r. ro_workspace_id r = None \<and> av_same_text env (ro_name r) name) (cd_roles db) of
        None \<Rightarrow> Inl (AuthErr 400 (''Unknown role: '' @ name)) | Some r \<Rightarrow> Inr r)"

definition create_workspace ::
  "auth_env \<Rightarrow> time \<Rightarrow> user \<Rightarrow> string \<Rightarrow> access_db \<Rightarrow> auth_error + workspace \<times> access_db" where
  "create_workspace env now owner name db =
     res_bind (get_system_role_by_name env ''owner'' db) (\<lambda>owner_role.
       let w = \<lparr>wk_id = cd_next db, wk_name = name, wk_owner_user_id = us_id owner, wk_status = ''active''\<rparr>;
           m = \<lparr>wm_id = cd_next db + 1, wm_workspace_id = wk_id w, wm_user_id = us_id owner,
                wm_role_id = ro_id owner_role, wm_joined_at = Some now\<rparr>
       in Inr (w, db\<lparr>cd_workspaces := cd_workspaces db @ [w], cd_members := cd_members db @ [m],
                    cd_next := cd_next db + 2\<rparr>))"

definition invite_member ::
  "auth_env \<Rightarrow> time \<Rightarrow> uuid \<Rightarrow> string \<Rightarrow> string \<Rightarrow> access_db \<Rightarrow> auth_error + workspace_member \<times> access_db" where
  "invite_member env now ws email role_name db =
     (case user_by_email env email (cd_auth db) of
        None \<Rightarrow> Inl (AuthErr 404 ''No registered user with that email'')
      | Some u \<Rightarrow>
          if find_member ws (us_id u) db \<noteq> None
          then Inl (AuthErr 409 ''User is already a member of this workspace'')
          else res_bind (get_system_role_by_name env role_name db) (\<lambda>r.
                 let m = \<lparr>wm_id = cd_next db, wm_workspace_id = ws, wm_user_id = us_id u, wm_role_id = ro_id r,
                          wm_joined_at = Some now\<rparr>
                 in Inr (m, db\<lparr>cd_members := cd_members db @ [m], cd_next := cd_next db + 1\<rparr>)))"

definition count_owners :: "auth_env \<Rightarrow> uuid \<Rightarrow> access_db \<Rightarrow> auth_error + nat" where
  "count_owners env ws db =
     res_bind (get_system_role_by_name env ''owner'' db) (\<lambda>r.
       Inr (count_where (\<lambda>m. wm_workspace_id m = ws \<and> wm_role_id m = ro_id r) (cd_members db)))"

text \<open>The check that an owner who leaves is not the last one; \<open>leaves\<close> is whether the change takes the role away.\<close>

definition last_owner_check ::
  "auth_env \<Rightarrow> uuid \<Rightarrow> role option \<Rightarrow> bool \<Rightarrow> access_db \<Rightarrow> auth_error + unit" where
  "last_owner_check env ws current leaves db =
     (if map_option ro_name current = Some ''owner'' \<and> leaves
      then res_bind (count_owners env ws db) (\<lambda>n.
             if n \<le> 1 then Inl (AuthErr 400 ''Workspace must have at least one owner'') else Inr ())
      else Inr ())"

definition set_member_role :: "uuid \<Rightarrow> uuid \<Rightarrow> access_db \<Rightarrow> access_db" where
  "set_member_role i role db =
     db\<lparr>cd_members := update_where (\<lambda>m. wm_id m = i) (\<lambda>m. m\<lparr>wm_role_id := role\<rparr>) (cd_members db)\<rparr>"

definition update_role_reads ::
  "auth_env \<Rightarrow> uuid \<Rightarrow> uuid \<Rightarrow> string \<Rightarrow> access_db \<Rightarrow> auth_error + workspace_member \<times> role" where
  "update_role_reads env ws target role_name db =
     (case find_member ws target db of
        None \<Rightarrow> Inl (AuthErr 404 ''Member not found'')
      | Some m \<Rightarrow>
          res_bind (get_system_role_by_name env role_name db) (\<lambda>new_role.
          res_bind (last_owner_check env ws (role_by_id (wm_role_id m) db) (ro_name new_role \<noteq> ''owner'') db) (\<lambda>_.
            Inr (m, new_role))))"

text \<open>The role is committed before the user is looked up, so the 404 of a user without a row comes too late to undo it.\<close>

definition update_member_role ::
  "auth_env \<Rightarrow> uuid \<Rightarrow> uuid \<Rightarrow> string \<Rightarrow> access_db \<Rightarrow> (auth_error + workspace_member) \<times> access_db" where
  "update_member_role env ws target role_name db =
     (case update_role_reads env ws target role_name db of
        Inl e \<Rightarrow> (Inl e, db)
      | Inr (m, new_role) \<Rightarrow>
          (let db1 = set_member_role (wm_id m) (ro_id new_role) db
           in (if user_by_id target (cd_auth db) = None then Inl (AuthErr 404 ''Member not found'')
               else Inr (m\<lparr>wm_role_id := ro_id new_role\<rparr>), db1)))"

definition remove_member_reads :: "auth_env \<Rightarrow> uuid \<Rightarrow> uuid \<Rightarrow> access_db \<Rightarrow> auth_error + workspace_member" where
  "remove_member_reads env ws target db =
     (case find_member ws target db of
        None \<Rightarrow> Inl (AuthErr 404 ''Member not found'')
      | Some m \<Rightarrow>
          res_bind (last_owner_check env ws (role_by_id (wm_role_id m) db) True db) (\<lambda>_. Inr m))"

definition delete_member :: "uuid \<Rightarrow> access_db \<Rightarrow> access_db" where
  "delete_member i db = db\<lparr>cd_members := filter (\<lambda>m. wm_id m \<noteq> i) (cd_members db)\<rparr>"

definition remove_member :: "auth_env \<Rightarrow> uuid \<Rightarrow> uuid \<Rightarrow> access_db \<Rightarrow> auth_error + access_db" where
  "remove_member env ws target db =
     res_bind (remove_member_reads env ws target db) (\<lambda>m. Inr (delete_member (wm_id m) db))"

definition list_workspaces_for_user :: "uuid \<Rightarrow> access_db \<Rightarrow> workspace list" where
  "list_workspaces_for_user u db =
     filter (\<lambda>w. list_ex (\<lambda>m. wm_workspace_id m = wk_id w \<and> wm_user_id m = u) (cd_members db)) (cd_workspaces db)"

section \<open>Members as a system\<close>

text \<open>
  One membership request after another, whatever the callers ask, in a workspace that exists; accounts may
  change as they please in between (\<open>accounts\<close>), and so may the status of a workspace on its way to deletion.
\<close>

inductive member_step :: "auth_env \<Rightarrow> access_db \<Rightarrow> access_db \<Rightarrow> bool" for env where
  create: "create_workspace env now owner name db = Inr (w, db') \<Longrightarrow> member_step env db db'"
| invite: "workspace_by_id ws db \<noteq> None \<Longrightarrow> invite_member env now ws email role_name db = Inr (m, db') \<Longrightarrow>
    member_step env db db'"
| change: "update_member_role env ws target role_name db = (r, db') \<Longrightarrow> member_step env db db'"
| remove: "remove_member env ws target db = Inr db' \<Longrightarrow> member_step env db db'"
| accounts: "member_step env db (db\<lparr>cd_auth := a\<rparr>)"
| deleting: "member_step env db (db\<lparr>cd_workspaces :=
      update_where (\<lambda>w. wk_id w = ws) (\<lambda>w. w\<lparr>wk_status := ''deleting''\<rparr>) (cd_workspaces db)\<rparr>)"

text \<open>The seeded roles: one system role is called owner, by any spelling, and no other role is.\<close>

definition owner_role :: "auth_env \<Rightarrow> access_db \<Rightarrow> role option" where
  "owner_role env db =
     find_row (\<lambda>r. ro_workspace_id r = None \<and> av_same_text env (ro_name r) ''owner'') (cd_roles db)"

definition roles_seeded :: "auth_env \<Rightarrow> access_db \<Rightarrow> bool" where
  "roles_seeded env db =
     (unique_key ro_id (cd_roles db)
      \<and> (case owner_role env db of
           None \<Rightarrow> False
         | Some o' \<Rightarrow> ro_name o' = ''owner'' \<and> (\<forall>r \<in> set (cd_roles db). ro_name r = ''owner'' \<longrightarrow> r = o')))"

definition is_owner :: "auth_env \<Rightarrow> access_db \<Rightarrow> workspace_member \<Rightarrow> bool" where
  "is_owner env db m = (Some (wm_role_id m) = map_option ro_id (owner_role env db))"

definition owned :: "auth_env \<Rightarrow> access_db \<Rightarrow> bool" where
  "owned env db = (\<forall>w \<in> set (cd_workspaces db). \<exists>m \<in> set (cd_members db). wm_workspace_id m = wk_id w \<and> is_owner env db m)"

definition members_ok :: "access_db \<Rightarrow> bool" where
  "members_ok db =
     (unique_key wm_id (cd_members db) \<and> unique_key (\<lambda>m. (wm_workspace_id m, wm_user_id m)) (cd_members db)
      \<and> (\<forall>m \<in> set (cd_members db). wm_id m < cd_next db \<and> wm_workspace_id m < cd_next db)
      \<and> unique_key wk_id (cd_workspaces db) \<and> (\<forall>w \<in> set (cd_workspaces db). wk_id w < cd_next db))"

definition access_inv :: "auth_env \<Rightarrow> access_db \<Rightarrow> bool" where
  "access_inv env db = (roles_seeded env db \<and> members_ok db \<and> owned env db)"

inductive_cases member_stepE: "member_step env db db'"

lemma roles_seededE:
  assumes "roles_seeded env db"
  obtains r where "owner_role env db = Some r" "ro_name r = ''owner''" "r \<in> set (cd_roles db)"
    "get_system_role_by_name env ''owner'' db = Inr r"
    "\<And>x. x \<in> set (cd_roles db) \<Longrightarrow> ro_name x = ''owner'' \<Longrightarrow> x = r"
    "role_by_id (ro_id r) db = Some r"
proof -
  from assms obtain r where r: "owner_role env db = Some r" "ro_name r = ''owner''"
    "\<forall>x \<in> set (cd_roles db). ro_name x = ''owner'' \<longrightarrow> x = r" "unique_key ro_id (cd_roles db)"
    by (auto simp: roles_seeded_def split: option.splits)
  have "r \<in> set (cd_roles db)" using find_row_Some [OF r(1) [unfolded owner_role_def]] by simp
  moreover from this have "role_by_id (ro_id r) db = Some r"
    using find_row_key [OF r(4)] by (simp add: role_by_id_def)
  moreover have "get_system_role_by_name env ''owner'' db = Inr r"
    using r(1) by (simp add: get_system_role_by_name_def owner_role_def)
  ultimately show thesis using that r by blast
qed

lemma owner_role_system:
  "roles_seeded env db \<Longrightarrow> get_system_role_by_name env ''owner'' db = Inr r \<Longrightarrow> owner_role env db = Some r"
  by (metis roles_seededE sum.inject(2))

lemma owner_role_named:
  "roles_seeded env db \<Longrightarrow> r \<in> set (cd_roles db) \<Longrightarrow> ro_name r = ''owner'' \<Longrightarrow> owner_role env db = Some r"
  by (metis roles_seededE)

lemma system_role_in:
  "get_system_role_by_name env name db = Inr r \<Longrightarrow> r \<in> set (cd_roles db)"
  by (auto simp: get_system_role_by_name_def dest: find_row_Some split: option.splits)

lemma another_of_two:
  assumes "unique_key wm_id ms" and "1 < count_where P ms"
  shows "\<exists>x \<in> set ms. P x \<and> wm_id x \<noteq> k"
proof (rule ccontr)
  assume "\<not> ?thesis"
  then have "filter P ms = filter (\<lambda>m. wm_id m = k \<and> P m) ms" by (intro filter_cong) auto
  then have "count_where P ms = count_where (\<lambda>m. wm_id m = k \<and> P m) ms" by (simp add: count_where_def)
  with count_where_key_le1 [OF assms(1), of k P] assms(2) show False by simp
qed

text \<open>A member whose role is taken away by a request that passed the check leaves another owner behind.\<close>

lemma last_owner_check_leaves_one:
  assumes "access_inv env db" and "m \<in> set (cd_members db)" and "wm_workspace_id m = ws"
    and "last_owner_check env ws (role_by_id (wm_role_id m) db) leaves db = Inr ()"
    and "is_owner env db m" and "leaves"
  shows "\<exists>x \<in> set (cd_members db). wm_workspace_id x = ws \<and> is_owner env db x \<and> wm_id x \<noteq> wm_id m"
proof -
  from assms(1) obtain r where r: "owner_role env db = Some r" "ro_name r = ''owner''"
    "get_system_role_by_name env ''owner'' db = Inr r" "role_by_id (ro_id r) db = Some r"
    unfolding access_inv_def by (blast elim: roles_seededE)
  from assms(5) r(1) have "wm_role_id m = ro_id r" by (simp add: is_owner_def)
  with assms(4,6) r(2-4)
  have "1 < count_where (\<lambda>x. wm_workspace_id x = ws \<and> wm_role_id x = ro_id r) (cd_members db)"
    by (simp add: last_owner_check_def count_owners_def split: if_splits)
  from another_of_two [OF _ this, of "wm_id m"] assms(1) show ?thesis
    using r(1) by (auto simp: access_inv_def members_ok_def is_owner_def)
qed

lemma find_member_in:
  "find_member ws u db = Some m \<Longrightarrow> m \<in> set (cd_members db) \<and> wm_workspace_id m = ws \<and> wm_user_id m = u"
  using find_row_Some by (fastforce simp: find_member_def)

lemma owner_role_cong [simp]:
  "owner_role env (db\<lparr>cd_members := ms\<rparr>) = owner_role env db"
  "owner_role env (db\<lparr>cd_members := ms, cd_next := n\<rparr>) = owner_role env db"
  "owner_role env (db\<lparr>cd_workspaces := ws\<rparr>) = owner_role env db"
  "owner_role env (db\<lparr>cd_workspaces := ws, cd_members := ms, cd_next := n\<rparr>) = owner_role env db"
  "owner_role env (db\<lparr>cd_auth := a\<rparr>) = owner_role env db"
  by (simp_all add: owner_role_def)

lemma roles_seeded_same:
  "cd_roles db' = cd_roles db \<Longrightarrow> roles_seeded env db \<Longrightarrow> roles_seeded env db'"
  by (simp add: roles_seeded_def owner_role_def cong: option.case_cong)

lemma is_owner_same: "cd_roles db' = cd_roles db \<Longrightarrow> is_owner env db' = is_owner env db"
  by (simp add: is_owner_def owner_role_def fun_eq_iff)

lemma add_member_ok:
  assumes "members_ok db" and "cd_next db \<le> wm_id m" and "wm_workspace_id m < Suc (wm_id m)"
    and "\<And>x. x \<in> set (cd_members db) \<Longrightarrow> \<not> (wm_workspace_id x = wm_workspace_id m \<and> wm_user_id x = wm_user_id m)"
  shows "members_ok (db\<lparr>cd_members := cd_members db @ [m], cd_next := Suc (wm_id m)\<rparr>)"
proof -
  have "unique_key wm_id (cd_members db @ [m])"
    unfolding unique_key_append using assms(1,2) by (auto simp: members_ok_def)
  moreover have "unique_key (\<lambda>m. (wm_workspace_id m, wm_user_id m)) (cd_members db @ [m])"
  proof -
    have "(wm_workspace_id m, wm_user_id m) \<notin> (\<lambda>m. (wm_workspace_id m, wm_user_id m)) ` set (cd_members db)"
    proof
      assume "(wm_workspace_id m, wm_user_id m) \<in> (\<lambda>m. (wm_workspace_id m, wm_user_id m)) ` set (cd_members db)"
      then obtain x where "x \<in> set (cd_members db)" "wm_workspace_id x = wm_workspace_id m" "wm_user_id x = wm_user_id m"
        by (metis (no_types, lifting) Pair_inject imageE)
      with assms(4) show False by blast
    qed
    then show ?thesis using assms(1) by (simp add: unique_key_append members_ok_def)
  qed
  ultimately show ?thesis using assms(1-3) by (auto simp: members_ok_def)
qed

lemma create_workspace_inv:
  assumes "access_inv env db" and "create_workspace env now owner name db = Inr (w, db')"
  shows "access_inv env db'"
proof -
  from assms(2) obtain r where r: "get_system_role_by_name env ''owner'' db = Inr r"
    and db': "db' = db\<lparr>cd_workspaces := cd_workspaces db @ [\<lparr>wk_id = cd_next db, wk_name = name,
          wk_owner_user_id = us_id owner, wk_status = ''active''\<rparr>],
        cd_members := cd_members db @ [\<lparr>wm_id = cd_next db + 1, wm_workspace_id = cd_next db, wm_user_id = us_id owner,
          wm_role_id = ro_id r, wm_joined_at = Some now\<rparr>], cd_next := cd_next db + 2\<rparr>"
    by (auto simp: create_workspace_def Let_def res_bind_Inr_iff)
  from assms(1) r have o: "owner_role env db = Some r" by (simp add: access_inv_def owner_role_system)
  have "roles_seeded env db'" using assms(1) roles_seeded_same [of db' db] by (simp add: access_inv_def db')
  moreover have "members_ok db'"
  proof -
    let ?m = "\<lparr>wm_id = cd_next db + 1, wm_workspace_id = cd_next db, wm_user_id = us_id owner,
          wm_role_id = ro_id r, wm_joined_at = Some now\<rparr>"
    have ok: "members_ok db" using assms(1) by (simp add: access_inv_def)
    then have "\<forall>x \<in> set (cd_members db). wm_workspace_id x \<noteq> cd_next db" by (auto simp: members_ok_def)
    then have "members_ok (db\<lparr>cd_members := cd_members db @ [?m], cd_next := Suc (cd_next db + 1)\<rparr>)"
      using add_member_ok [OF ok, of ?m] by simp
    moreover have "unique_key wk_id (cd_workspaces db')"
      unfolding db' using ok by (auto simp: members_ok_def unique_key_append)
    moreover have "\<forall>w \<in> set (cd_workspaces db'). wk_id w < cd_next db'"
      unfolding db' using ok by (auto simp: members_ok_def)
    ultimately show ?thesis by (simp add: members_ok_def db')
  qed
  moreover have "owned env db'"
    using assms(1) o by (auto simp: access_inv_def owned_def is_owner_def db')
  ultimately show ?thesis by (simp add: access_inv_def)
qed

lemma invite_member_inv:
  assumes "access_inv env db" and "workspace_by_id ws db \<noteq> None"
    and "invite_member env now ws email role_name db = Inr (m, db')"
  shows "access_inv env db'"
proof -
  from assms(3) obtain u :: user and r :: role where u: "find_member ws (us_id u) db = None"
    and db': "db' = db\<lparr>cd_members := cd_members db @ [\<lparr>wm_id = cd_next db, wm_workspace_id = ws, wm_user_id = us_id u,
          wm_role_id = ro_id r, wm_joined_at = Some now\<rparr>], cd_next := Suc (cd_next db)\<rparr>"
  proof -
    from assms(3) obtain u :: user where "user_by_email env email (cd_auth db) = Some u"
      by (cases "user_by_email env email (cd_auth db)") (auto simp: invite_member_def)
    moreover from this assms(3) obtain r :: role where "get_system_role_by_name env role_name db = Inr r"
      by (cases "get_system_role_by_name env role_name db") (auto simp: invite_member_def split: if_splits)
    ultimately show thesis using assms(3)
      by (intro that [of u r]) (auto simp: invite_member_def Let_def split: if_splits)
  qed
  have ws: "ws < cd_next db"
    using assms(1,2) by (auto simp: workspace_by_id_def access_inv_def members_ok_def dest!: find_row_Some)
  have "roles_seeded env db'" using assms(1) roles_seeded_same [of db' db] by (simp add: access_inv_def db')
  moreover have "members_ok db'"
    using add_member_ok [of db "\<lparr>wm_id = cd_next db, wm_workspace_id = ws, wm_user_id = us_id u,
          wm_role_id = ro_id r, wm_joined_at = Some now\<rparr>"] assms(1) u ws
    by (simp add: access_inv_def db' find_member_def find_row_None)
  moreover have "owned env db'"
    using assms(1) by (auto simp: access_inv_def owned_def is_owner_def db')
  ultimately show ?thesis by (simp add: access_inv_def)
qed

lemma set_member_role_owned:
  assumes inv: "access_inv env db" and m: "m \<in> set (cd_members db)"
    and chk: "last_owner_check env (wm_workspace_id m) (role_by_id (wm_role_id m) db) (ro_name r \<noteq> ''owner'') db = Inr ()"
    and r: "r \<in> set (cd_roles db)"
  shows "owned env (set_member_role (wm_id m) (ro_id r) db)"
  unfolding owned_def
proof
  let ?db = "set_member_role (wm_id m) (ro_id r) db"
  let ?f = "\<lambda>x. if wm_id x = wm_id m then x\<lparr>wm_role_id := ro_id r\<rparr> else x"
  fix w assume "w \<in> set (cd_workspaces ?db)"
  then have w: "w \<in> set (cd_workspaces db)" by (simp add: set_member_role_def)
  have f: "x \<in> set (cd_members db) \<Longrightarrow> ?f x \<in> set (cd_members ?db)" for x
    by (auto simp: set_member_role_def set_update_where)
  have own: "is_owner env ?db = is_owner env db" by (rule is_owner_same) (simp add: set_member_role_def)
  from inv w obtain x where x: "x \<in> set (cd_members db)" "wm_workspace_id x = wk_id w" "is_owner env db x"
    by (auto simp: access_inv_def owned_def)
  show "\<exists>m \<in> set (cd_members ?db). wm_workspace_id m = wk_id w \<and> is_owner env ?db m"
  proof (cases "wm_id x = wm_id m")
    case False
    then show ?thesis using f [OF x(1)] x own by auto
  next
    case True
    then have xm: "x = m" using unique_key_eq [of wm_id] inv x(1) m by (auto simp: access_inv_def members_ok_def)
    show ?thesis
    proof (cases "ro_name r = ''owner''")
      case True
      then have "owner_role env db = Some r" using inv r by (simp add: access_inv_def owner_role_named)
      then show ?thesis using f [OF x(1)] x xm own by (intro bexI [of _ "?f x"]) (auto simp: is_owner_def)
    next
      case False
      from last_owner_check_leaves_one [OF inv m refl chk] x xm False obtain y where
        "y \<in> set (cd_members db)" "wm_workspace_id y = wm_workspace_id m" "is_owner env db y" "wm_id y \<noteq> wm_id m" by auto
      then show ?thesis using f [of y] x xm own by auto
    qed
  qed
qed

lemma update_member_role_inv:
  assumes inv: "access_inv env db" and "update_member_role env ws target role_name db = (r, db')"
  shows "access_inv env db'"
proof (cases "update_role_reads env ws target role_name db")
  case (Inl e)
  then show ?thesis using assms by (simp add: update_member_role_def)
next
  case (Inr p)
  obtain m nr where p: "p = (m, nr)" by force
  have db': "db' = set_member_role (wm_id m) (ro_id nr) db"
    using assms(2) Inr p by (simp add: update_member_role_def Let_def)
  from Inr p have m: "find_member ws target db = Some m" "get_system_role_by_name env role_name db = Inr nr"
    "last_owner_check env ws (role_by_id (wm_role_id m) db) (ro_name nr \<noteq> ''owner'') db = Inr ()"
    by (auto simp: update_role_reads_def res_bind_Inr_iff split: option.splits)
  have "owned env db'"
    unfolding db' using set_member_role_owned [OF inv] find_member_in [OF m(1)] m(3) system_role_in [OF m(2)] by auto
  moreover have "members_ok db'"
    using inv by (auto simp: access_inv_def members_ok_def db' set_member_role_def unique_key_update_where update_where_ball)
  moreover have "roles_seeded env db'"
    using inv roles_seeded_same [of db' db] by (simp add: access_inv_def db' set_member_role_def)
  ultimately show ?thesis by (simp add: access_inv_def)
qed

lemma unique_key_filter: "unique_key key rows \<Longrightarrow> unique_key key (filter P rows)"
  by (simp add: unique_key_def distinct_map_filter)

lemma remove_member_inv:
  assumes inv: "access_inv env db" and "remove_member env ws target db = Inr db'"
  shows "access_inv env db'"
proof -
  from assms(2) obtain m where m: "find_member ws target db = Some m"
    "last_owner_check env ws (role_by_id (wm_role_id m) db) True db = Inr ()" and db': "db' = delete_member (wm_id m) db"
    by (auto simp: remove_member_def remove_member_reads_def res_bind_Inr_iff split: option.splits)
  note mm = find_member_in [OF m(1)]
  have uniq: "unique_key wm_id (cd_members db)" using inv by (simp add: access_inv_def members_ok_def)
  have "owned env db'"
    unfolding owned_def
  proof
    fix w assume "w \<in> set (cd_workspaces db')"
    then have "w \<in> set (cd_workspaces db)" by (simp add: db' delete_member_def)
    with inv obtain x where x: "x \<in> set (cd_members db)" "wm_workspace_id x = wk_id w" "is_owner env db x"
      by (auto simp: access_inv_def owned_def)
    have own: "is_owner env db' = is_owner env db" by (rule is_owner_same) (simp add: db' delete_member_def)
    have "\<exists>y \<in> set (cd_members db). wm_workspace_id y = wk_id w \<and> is_owner env db y \<and> wm_id y \<noteq> wm_id m"
    proof (cases "wm_id x = wm_id m")
      case True
      then have "x = m" using unique_key_eq [OF uniq] x mm by auto
      then show ?thesis using last_owner_check_leaves_one [OF inv, of m ws True] mm m(2) x by auto
    qed (use x in auto)
    then show "\<exists>m \<in> set (cd_members db'). wm_workspace_id m = wk_id w \<and> is_owner env db' m"
      unfolding own by (auto simp: db' delete_member_def)
  qed
  moreover have "members_ok db'"
    using inv by (auto simp: access_inv_def members_ok_def db' delete_member_def unique_key_filter)
  moreover have "roles_seeded env db'"
    using inv roles_seeded_same [of db' db] by (simp add: access_inv_def db' delete_member_def)
  ultimately show ?thesis by (simp add: access_inv_def)
qed

lemma member_step_inv: "member_step env db db' \<Longrightarrow> access_inv env db \<Longrightarrow> access_inv env db'"
proof (induction rule: member_step.induct)
  case (accounts db a)
  then show ?case
    by (auto simp: access_inv_def members_ok_def owned_def is_owner_def intro: roles_seeded_same [of _ db])
next
  case (deleting db ws)
  then show ?case
    by (auto simp: access_inv_def members_ok_def owned_def is_owner_def unique_key_update_where update_where_ball
        intro: roles_seeded_same [of _ db])
qed (auto intro: create_workspace_inv invite_member_inv update_member_role_inv remove_member_inv)

lemma member_run_inv: "(member_step env)\<^sup>*\<^sup>* db db' \<Longrightarrow> access_inv env db \<Longrightarrow> access_inv env db'"
  by (induction rule: rtranclp_induct) (auto intro: member_step_inv)

end
