(* ===== verification/Auth_Writes.thy ===== *)
theory Auth_Writes
  imports Access_Control
begin

text \<open>
  The accounts, sessions, recovery codes and API keys under the writes of any request. The state carries the
  hashes of all secrets that were ever handed out: a random secret is never one that was handed out before.
  Each write keeps the invariant, an erased account stays erased, and a spent secret stays spent.
\<close>

record auth_system =
  as_db :: auth_db
  as_issued :: "string set"

definition signed_in :: "user \<Rightarrow> auth_db \<Rightarrow> bool" where
  "signed_in u db = (user_by_id (us_id u) db = Some u \<and> us_status u = ''active'')"

section \<open>Writes\<close>

definition typed_user :: "user \<Rightarrow> bool" where
  "typed_user u = (us_status u \<in> {''active'', ''deleted''} \<and> (us_mfa_enabled u \<longrightarrow> truthy (us_mfa_secret_encrypted u)))"

text \<open>What is left of an account that is not active: no session, no recovery code, no usable key.\<close>

definition holds_nothing :: "uuid \<Rightarrow> auth_db \<Rightarrow> bool" where
  "holds_nothing u db =
     ((\<forall>t \<in> set (ad_tokens db). rt_user_id t \<noteq> u) \<and> (\<forall>r \<in> set (ad_codes db). rc_user_id r \<noteq> u)
      \<and> (\<forall>k \<in> set (ad_keys db). ak_created_by k = u \<longrightarrow> ak_revoked k))"

definition active_user :: "uuid \<Rightarrow> auth_db \<Rightarrow> bool" where
  "active_user u db = (\<exists>w. user_by_id u db = Some w \<and> us_status w = ''active'')"

inductive auth_write :: "auth_system \<Rightarrow> auth_system \<Rightarrow> bool" where
  add_user: "us_id u = ad_next (as_db s) \<Longrightarrow> typed_user u \<Longrightarrow> us_status u = ''active'' \<Longrightarrow>
    auth_write s (s\<lparr>as_db := (as_db s)\<lparr>ad_users := ad_users (as_db s) @ [u], ad_next := ad_next (as_db s) + 1\<rparr>\<rparr>)"
| put_user: "active_user (us_id u) (as_db s) \<Longrightarrow> typed_user u \<Longrightarrow>
    (us_status u \<noteq> ''active'' \<Longrightarrow> holds_nothing (us_id u) (as_db s) \<and> \<not> us_mfa_enabled u) \<Longrightarrow>
    auth_write s (s\<lparr>as_db := put_user u (as_db s)\<rparr>)"
| add_token: "active_user (rt_user_id t) (as_db s) \<Longrightarrow> rt_id t = ad_next (as_db s) \<Longrightarrow> rt_token_hash t \<notin> as_issued s \<Longrightarrow>
    rt_replaced_by_id t = None \<Longrightarrow>
    auth_write s (s\<lparr>as_db := add_token t (as_db s), as_issued := insert (rt_token_hash t) (as_issued s)\<rparr>)"
| revoke_token: "t0 \<in> set (ad_tokens (as_db s)) \<Longrightarrow> rt_revoked_at t0 = None \<Longrightarrow>
    (\<And>j. by = Some j \<Longrightarrow> rt_id t0 < j \<and> j < ad_next (as_db s)) \<Longrightarrow>
    auth_write s (s\<lparr>as_db := (as_db s)\<lparr>ad_tokens := update_where (\<lambda>x. rt_id x = rt_id t0)
       (\<lambda>x. x\<lparr>rt_revoked_at := Some now, rt_replaced_by_id := by\<rparr>) (ad_tokens (as_db s))\<rparr>\<rparr>)"
| drop_tokens: "auth_write s (s\<lparr>as_db := (as_db s)\<lparr>ad_tokens := filter P (ad_tokens (as_db s))\<rparr>\<rparr>)"
| add_codes: "active_user u (as_db s) \<Longrightarrow> distinct (map rc_code_hash cs) \<Longrightarrow> (\<forall>c \<in> set cs. rc_user_id c = u) \<Longrightarrow>
    rc_code_hash ` set cs \<inter> as_issued s = {} \<Longrightarrow>
    auth_write s (s\<lparr>as_db := (as_db s)\<lparr>ad_codes := ad_codes (as_db s) @ cs\<rparr>, as_issued := rc_code_hash ` set cs \<union> as_issued s\<rparr>)"
| use_code: "(\<And>r. C r \<Longrightarrow> rc_used_at r = None) \<Longrightarrow>
    auth_write s (s\<lparr>as_db := (as_db s)\<lparr>ad_codes := update_where C (\<lambda>r. r\<lparr>rc_used_at := Some now\<rparr>) (ad_codes (as_db s))\<rparr>\<rparr>)"
| drop_codes: "auth_write s (s\<lparr>as_db := (as_db s)\<lparr>ad_codes := filter C (ad_codes (as_db s))\<rparr>\<rparr>)"
| add_key: "active_user (ak_created_by k) (as_db s) \<Longrightarrow> ak_id k = ad_next (as_db s) \<Longrightarrow> ak_key_hash k \<notin> as_issued s \<Longrightarrow>
    auth_write s (s\<lparr>as_db := (as_db s)\<lparr>ad_keys := ad_keys (as_db s) @ [k], ad_next := ad_next (as_db s) + 1\<rparr>,
      as_issued := insert (ak_key_hash k) (as_issued s)\<rparr>)"
| revoke_keys: "auth_write s (s\<lparr>as_db := (as_db s)\<lparr>ad_keys := update_where K (\<lambda>k. k\<lparr>ak_revoked := True\<rparr>) (ad_keys (as_db s))\<rparr>\<rparr>)"
| stamp_keys: "auth_write s (s\<lparr>as_db := (as_db s)\<lparr>ad_keys := update_where K (\<lambda>k. k\<lparr>ak_last_used_at := Some now\<rparr>) (ad_keys (as_db s))\<rparr>\<rparr>)"
| failures: "auth_write s (s\<lparr>as_db := (as_db s)\<lparr>ad_failures := F\<rparr>\<rparr>)"
| issued: "U \<supseteq> as_issued s \<Longrightarrow> auth_write s (s\<lparr>as_issued := U\<rparr>)"

section \<open>The invariant\<close>

definition users_ok :: "auth_db \<Rightarrow> bool" where
  "users_ok db =
     (unique_key us_id (ad_users db) \<and> (\<forall>u \<in> set (ad_users db). us_id u < ad_next db \<and> typed_user u
        \<and> (us_status u \<noteq> ''active'' \<longrightarrow> holds_nothing (us_id u) db \<and> \<not> us_mfa_enabled u)))"

definition link_ok :: "uuid \<Rightarrow> refresh_token \<Rightarrow> bool" where
  "link_ok n t =
     (case rt_replaced_by_id t of None \<Rightarrow> True
      | Some j \<Rightarrow> rt_revoked_at t \<noteq> None \<and> rt_id t < j \<and> j < n)"

lemma link_ok_mono: "link_ok n t \<Longrightarrow> n \<le> m \<Longrightarrow> link_ok m t"
  by (auto simp: link_ok_def split: option.splits)

definition tokens_ok :: "auth_system \<Rightarrow> bool" where
  "tokens_ok s =
     (unique_key rt_id (ad_tokens (as_db s)) \<and> unique_key rt_token_hash (ad_tokens (as_db s))
      \<and> (\<forall>t \<in> set (ad_tokens (as_db s)). rt_id t < ad_next (as_db s) \<and> rt_token_hash t \<in> as_issued s
           \<and> link_ok (ad_next (as_db s)) t))"

definition codes_ok :: "auth_system \<Rightarrow> bool" where
  "codes_ok s = (unique_key rc_code_hash (ad_codes (as_db s)) \<and> rc_code_hash ` set (ad_codes (as_db s)) \<subseteq> as_issued s)"

definition keys_ok :: "auth_system \<Rightarrow> bool" where
  "keys_ok s =
     (unique_key ak_id (ad_keys (as_db s)) \<and> unique_key ak_key_hash (ad_keys (as_db s))
      \<and> (\<forall>k \<in> set (ad_keys (as_db s)). ak_id k < ad_next (as_db s) \<and> ak_key_hash k \<in> as_issued s))"

definition auth_inv :: "auth_system \<Rightarrow> bool" where
  "auth_inv s = (users_ok (as_db s) \<and> tokens_ok s \<and> codes_ok s \<and> keys_ok s)"

lemma active_user_iff:
  assumes "unique_key us_id (ad_users db)"
  shows "active_user u db \<longleftrightarrow> (\<exists>w \<in> set (ad_users db). us_id w = u \<and> us_status w = ''active'')"
  unfolding active_user_def user_by_id_def find_row_key_iff [OF assms] by blast

lemma active_not_erased:
  "users_ok db \<Longrightarrow> active_user u db \<Longrightarrow> w \<in> set (ad_users db) \<Longrightarrow> us_id w = u \<Longrightarrow> us_status w = ''active''"
  by (metis active_user_iff unique_key_eq users_ok_def)

lemma users_ok_more:
  assumes "users_ok db" and "ad_users db' = ad_users db" and "ad_next db \<le> ad_next db'"
    and "\<And>v. v \<in> set (ad_users db) \<Longrightarrow> us_status v \<noteq> ''active'' \<Longrightarrow> holds_nothing (us_id v) db \<Longrightarrow> holds_nothing (us_id v) db'"
  shows "users_ok db'"
  using assms unfolding users_ok_def by (metis order_less_le_trans)

lemma write_users_ok:
  assumes "auth_write s s'" and ok: "users_ok (as_db s)"
  shows "users_ok (as_db s')"
  using assms(1)
proof cases
  case (add_user u)
  have "unique_key us_id (ad_users (as_db s) @ [u])"
    using ok add_user(2) by (auto simp: users_ok_def unique_key_append)
  then show ?thesis using ok add_user by (auto simp: users_ok_def holds_nothing_def less_Suc_eq)
next
  case (put_user u)
  have uniq: "unique_key us_id (ad_users (as_db s'))"
    using ok unique_key_update_where [of "\<lambda>r. us_id r = us_id u" us_id "\<lambda>_. u"]
    by (simp add: put_user(1) put_user_def users_ok_def)
  have "us_id u < ad_next (as_db s)" using ok put_user(2)
    by (auto simp: users_ok_def active_user_iff)
  with uniq show ?thesis using ok put_user
    by (auto simp: users_ok_def put_user_def update_where_ball holds_nothing_def)
next
  case (add_token t)
  then show ?thesis using active_not_erased [OF ok add_token(2)]
    by (auto intro!: users_ok_more [OF ok] simp: add_token_def holds_nothing_def)
next
  case (add_codes u cs)
  then show ?thesis using active_not_erased [OF ok add_codes(2)]
    by (auto intro!: users_ok_more [OF ok] simp: holds_nothing_def)
next
  case (add_key k)
  then show ?thesis using active_not_erased [OF ok add_key(2)]
    by (auto intro!: users_ok_more [OF ok] simp: holds_nothing_def)
qed (auto intro!: users_ok_more [OF ok] simp: holds_nothing_def update_where_ball)

lemma write_issued: "auth_write s s' \<Longrightarrow> as_issued s \<subseteq> as_issued s'"
  by (induction rule: auth_write.induct) auto

lemma tokens_ok_more:
  assumes "tokens_ok s" and "ad_tokens (as_db s') = ad_tokens (as_db s)" and "ad_next (as_db s) \<le> ad_next (as_db s')"
    and "as_issued s \<subseteq> as_issued s'"
  shows "tokens_ok s'"
  using assms unfolding tokens_ok_def by (metis link_ok_mono order_less_le_trans subsetD)

lemma unique_key_filter': "unique_key key rows \<Longrightarrow> unique_key key (filter P rows)"
  by (simp add: unique_key_def distinct_map_filter)

lemma write_tokens_ok:
  assumes "auth_write s s'" and ok: "tokens_ok s"
  shows "tokens_ok s'"
  using assms(1)
proof cases
  case (add_token t)
  have "tokens_ok (s\<lparr>as_db := (as_db s)\<lparr>ad_next := Suc (ad_next (as_db s))\<rparr>,
      as_issued := insert (rt_token_hash t) (as_issued s)\<rparr>)"
    by (rule tokens_ok_more [OF ok]) auto
  moreover have "unique_key rt_id (ad_tokens (as_db s) @ [t])" "unique_key rt_token_hash (ad_tokens (as_db s) @ [t])"
    using ok add_token by (auto simp: tokens_ok_def unique_key_append)
  ultimately show ?thesis using add_token by (auto simp: tokens_ok_def add_token_def link_ok_def)
next
  case (revoke_token t0 "by" now)
  then show ?thesis
    using ok by (auto simp: tokens_ok_def unique_key_update_where update_where_ball link_ok_def split: option.splits)
next
  case (drop_tokens P)
  then show ?thesis using ok by (simp add: tokens_ok_def unique_key_filter')
qed (auto intro!: tokens_ok_more [OF ok] simp: put_user_def)

lemma codes_ok_more:
  "codes_ok s \<Longrightarrow> ad_codes (as_db s') = ad_codes (as_db s) \<Longrightarrow> as_issued s \<subseteq> as_issued s' \<Longrightarrow> codes_ok s'"
  by (auto simp: codes_ok_def)

lemma write_codes_ok:
  assumes "auth_write s s'" and ok: "codes_ok s"
  shows "codes_ok s'"
  using assms(1)
proof cases
  case (add_codes u cs)
  then have "unique_key rc_code_hash (ad_codes (as_db s) @ cs)"
    using ok by (auto simp: codes_ok_def unique_key_def)
  then show ?thesis using ok add_codes by (auto simp: codes_ok_def)
next
  case (use_code C now)
  then show ?thesis using ok by (auto simp: codes_ok_def unique_key_update_where set_update_where)
next
  case (drop_codes C)
  then show ?thesis using ok by (auto simp: codes_ok_def unique_key_filter')
qed (auto intro!: codes_ok_more [OF ok] simp: put_user_def add_token_def)

lemma keys_ok_more:
  assumes "keys_ok s" and "ad_keys (as_db s') = ad_keys (as_db s)" and "ad_next (as_db s) \<le> ad_next (as_db s')"
    and "as_issued s \<subseteq> as_issued s'"
  shows "keys_ok s'"
  using assms unfolding keys_ok_def by (metis order_less_le_trans subsetD)

lemma write_keys_ok:
  assumes "auth_write s s'" and ok: "keys_ok s"
  shows "keys_ok s'"
  using assms(1)
proof cases
  case (add_key k)
  then have "unique_key ak_id (ad_keys (as_db s) @ [k])" "unique_key ak_key_hash (ad_keys (as_db s) @ [k])"
    using ok by (auto simp: keys_ok_def unique_key_append)
  then show ?thesis using ok add_key by (auto simp: keys_ok_def less_Suc_eq)
next
  case (revoke_keys K)
  then show ?thesis using ok by (auto simp: keys_ok_def unique_key_update_where update_where_ball)
next
  case (stamp_keys K now)
  then show ?thesis using ok by (auto simp: keys_ok_def unique_key_update_where update_where_ball)
qed (auto intro!: keys_ok_more [OF ok] simp: put_user_def add_token_def)

lemma write_inv: "auth_write s s' \<Longrightarrow> auth_inv s \<Longrightarrow> auth_inv s'"
  by (simp add: auth_inv_def write_users_ok write_tokens_ok write_codes_ok write_keys_ok)

lemma writes_inv: "auth_write\<^sup>*\<^sup>* s s' \<Longrightarrow> auth_inv s \<Longrightarrow> auth_inv s'"
  by (induction rule: rtranclp_induct) (auto intro: write_inv)

section \<open>What becomes of a row\<close>

text \<open>Accounts and keys are never deleted: the shared interface of tables applies.\<close>

definition user_next :: "user \<Rightarrow> user \<Rightarrow> bool" where
  "user_next u u' = (us_id u' = us_id u)"

definition key_next :: "api_key \<Rightarrow> api_key \<Rightarrow> bool" where
  "key_next k k' = (ak_id k' = ak_id k \<and> ak_key_hash k' = ak_key_hash k \<and> ak_created_by k' = ak_created_by k
     \<and> ak_workspace_id k' = ak_workspace_id k \<and> (ak_revoked k \<longrightarrow> ak_revoked k'))"

definition safe_write :: "auth_system \<Rightarrow> auth_system \<Rightarrow> bool" where
  "safe_write s s' = (auth_inv s \<and> auth_write s s')"

lemma writes_safe: "auth_write\<^sup>*\<^sup>* s s' \<Longrightarrow> auth_inv s \<Longrightarrow> safe_write\<^sup>*\<^sup>* s s'"
proof (induction rule: rtranclp_induct)
  case (step t u)
  then have "safe_write t u" using writes_inv by (auto simp: safe_write_def)
  with step show ?case by auto
qed simp

lemma key_next_id [simp]: "key_next k k" "ak_revoked k' \<Longrightarrow> key_next k (k'\<lparr>ak_revoked := b\<rparr>) \<longleftrightarrow> key_next k k' \<and> (ak_revoked k \<longrightarrow> b)"
  by (auto simp: key_next_def)

lemma write_key_rows:
  assumes "safe_write s s'"
  shows "\<exists>f new. ad_keys (as_db s') = map f (ad_keys (as_db s)) @ new \<and> (\<forall>k \<in> set (ad_keys (as_db s)). key_next k (f k))
      \<and> (\<forall>k \<in> set new. True \<and> ak_id k \<notin> ak_id ` set (ad_keys (as_db s))) \<and> unique_key ak_id new"
  using assms[unfolded safe_write_def, THEN conjunct2]
proof cases
  case (add_key k)
  then show ?thesis using assms
    by (intro exI [of _ id] exI [of _ "[k]"]) (auto simp: safe_write_def auth_inv_def keys_ok_def unique_key_def)
next
  case (revoke_keys K)
  then show ?thesis
    by (intro exI [of _ "\<lambda>k. if K k then k\<lparr>ak_revoked := True\<rparr> else k"] exI [of _ "[]"])
      (auto simp: update_where_def key_next_def unique_key_def)
next
  case (stamp_keys K now)
  then show ?thesis
    by (intro exI [of _ "\<lambda>k. if K k then k\<lparr>ak_last_used_at := Some now\<rparr> else k"] exI [of _ "[]"])
      (auto simp: update_where_def key_next_def unique_key_def)
qed (intro exI [of _ id] exI [of _ "[]"]; simp add: unique_key_def key_next_def put_user_def add_token_def)+

interpretation keys: keyed_rows "\<lambda>s. ad_keys (as_db s)" ak_id key_next "\<lambda>_. True" safe_write
  by unfold_locales (use write_key_rows in \<open>auto simp: key_next_def\<close>)

text \<open>
  An account whose status is no longer active stays so. A secret that was handed out and is not live,
  in the table of sessions or of recovery codes, is never live again.
\<close>

definition inactive :: "uuid \<Rightarrow> auth_db \<Rightarrow> bool" where
  "inactive u db = (\<exists>w \<in> set (ad_users db). us_id w = u \<and> us_status w \<noteq> ''active'')"

lemma write_inactive:
  assumes "auth_write s s'" and ok: "users_ok (as_db s)" and i: "inactive u (as_db s)"
  shows "inactive u (as_db s')"
  using assms(1)
proof cases
  case (put_user w)
  have "us_id w \<noteq> u" using active_not_erased [OF ok put_user(2)] i by (auto simp: inactive_def)
  then show ?thesis using i put_user by (auto simp: inactive_def put_user_def set_update_where)
qed (use i in \<open>auto simp: inactive_def add_token_def\<close>)

lemma writes_inactive:
  "auth_write\<^sup>*\<^sup>* s s' \<Longrightarrow> auth_inv s \<Longrightarrow> inactive u (as_db s) \<Longrightarrow> inactive u (as_db s')"
proof (induction rule: rtranclp_induct)
  case (step t w)
  have "auth_inv t" using writes_inv step by blast
  with step show ?case by (auto intro: write_inactive simp: auth_inv_def)
qed simp

definition live_token :: "string \<Rightarrow> auth_db \<Rightarrow> bool" where
  "live_token h db = (\<exists>t \<in> set (ad_tokens db). rt_token_hash t = h \<and> rt_revoked_at t = None)"

definition live_code :: "string \<Rightarrow> auth_db \<Rightarrow> bool" where
  "live_code h db = (\<exists>r \<in> set (ad_codes db). rc_code_hash r = h \<and> rc_used_at r = None)"

definition spent_token :: "string \<Rightarrow> auth_system \<Rightarrow> bool" where
  "spent_token h s = (h \<in> as_issued s \<and> \<not> live_token h (as_db s))"

definition spent_code :: "string \<Rightarrow> auth_system \<Rightarrow> bool" where
  "spent_code h s = (h \<in> as_issued s \<and> \<not> live_code h (as_db s))"

lemma write_spent_token: "auth_write s s' \<Longrightarrow> spent_token h s \<Longrightarrow> spent_token h s'"
  by (induction rule: auth_write.induct)
    (auto simp: spent_token_def live_token_def put_user_def add_token_def set_update_where split: if_splits)

lemma write_spent_code:
  assumes "auth_write s s'" and "spent_code h s"
  shows "spent_code h s'"
  using assms(1)
proof cases
  case (add_codes u cs)
  then have "h \<notin> rc_code_hash ` set cs" using assms(2) by (auto simp: spent_code_def)
  then show ?thesis using assms(2) add_codes by (auto simp: spent_code_def live_code_def)
qed (use assms(2) in \<open>auto simp: spent_code_def live_code_def put_user_def add_token_def set_update_where split: if_splits\<close>)

lemma writes_spent_token: "auth_write\<^sup>*\<^sup>* s s' \<Longrightarrow> spent_token h s \<Longrightarrow> spent_token h s'"
  by (induction rule: rtranclp_induct) (auto intro: write_spent_token)

lemma writes_spent_code: "auth_write\<^sup>*\<^sup>* s s' \<Longrightarrow> spent_code h s \<Longrightarrow> spent_code h s'"
  by (induction rule: rtranclp_induct) (auto intro: write_spent_code)

end
