(* ===== verification/Auth_System.thy ===== *)
theory Auth_System
  imports Auth_Writes
begin

text \<open>
  Every request that changes accounts, sessions, recovery codes or API keys, one after another, with any
  inputs and at any time. A request is a sequence of writes, so the invariant holds after any run.
\<close>

section \<open>Requests\<close>

inductive auth_step :: "auth_env \<Rightarrow> auth_system \<Rightarrow> auth_system \<Rightarrow> bool" for env where
  register: "register_user env salt email password full_name (as_db s) = (r, db) \<Longrightarrow>
    auth_step env s (s\<lparr>as_db := db\<rparr>)"
| register_session: "user_by_id u (as_db s) = Some w \<Longrightarrow> us_status w = ''active'' \<Longrightarrow> \<not> us_mfa_enabled w \<Longrightarrow>
    hash_refresh_token env raw \<notin> as_issued s \<Longrightarrow> issue_token_pair env now raw u (as_db s) = Inr (pair, db) \<Longrightarrow>
    auth_step env s (s\<lparr>as_db := db, as_issued := insert (hash_refresh_token env raw) (as_issued s)\<rparr>)"
| login: "hash_refresh_token env raw \<notin> as_issued s \<Longrightarrow> begin_login env now raw email password (as_db s) = (r, db) \<Longrightarrow>
    auth_step env s (s\<lparr>as_db := db, as_issued := insert (hash_refresh_token env raw) (as_issued s)\<rparr>)"
| mfa_login: "hash_refresh_token env raw \<notin> as_issued s \<Longrightarrow> complete_mfa_login env now raw token code (as_db s) = (r, db) \<Longrightarrow>
    auth_step env s (s\<lparr>as_db := db, as_issued := insert (hash_refresh_token env raw) (as_issued s)\<rparr>)"
| refresh: "hash_refresh_token env new_raw \<notin> as_issued s \<Longrightarrow> rotate_refresh_token env now new_raw raw (as_db s) = (r2, db) \<Longrightarrow>
    auth_step env s (s\<lparr>as_db := db, as_issued := insert (hash_refresh_token env new_raw) (as_issued s)\<rparr>)"
| logout: "auth_step env s (s\<lparr>as_db := revoke_refresh_token env now raw (as_db s)\<rparr>)"
| enroll: "signed_in u (as_db s) \<Longrightarrow> start_mfa_enrollment env secret u (as_db s) = (r3, db) \<Longrightarrow>
    auth_step env s (s\<lparr>as_db := db\<rparr>)"
| verify: "signed_in u (as_db s) \<Longrightarrow> hash_recovery_code env ` set (recovery_codes raws) \<inter> as_issued s = {} \<Longrightarrow>
    verify_and_enable_mfa env now raws u code (as_db s) = (r4, db) \<Longrightarrow>
    auth_step env s (s\<lparr>as_db := db, as_issued := hash_recovery_code env ` set (recovery_codes raws) \<union> as_issued s\<rparr>)"
| disable: "signed_in u (as_db s) \<Longrightarrow> disable_mfa env now u password code (as_db s) = (r5, db) \<Longrightarrow>
    auth_step env s (s\<lparr>as_db := db\<rparr>)"
| new_key: "signed_in u (as_db s) \<Longrightarrow> av_sha256 env (KEY_PREFIX @ random) \<notin> as_issued s \<Longrightarrow>
    create_key env random ws (us_id u) name (as_db s) = (r6, db) \<Longrightarrow>
    auth_step env s (s\<lparr>as_db := db, as_issued := insert (av_sha256 env (KEY_PREFIX @ random)) (as_issued s)\<rparr>)"
| drop_key: "revoke_key ws i (as_db s) = (r5, db) \<Longrightarrow> auth_step env s (s\<lparr>as_db := db\<rparr>)"
| use_key: "authenticate_key env now raw (as_db s) = (k, db) \<Longrightarrow> auth_step env s (s\<lparr>as_db := db\<rparr>)"
| erase: "signed_in u (as_db s) \<Longrightarrow> erase_user env salt random tombstone u password (as_db s) = (r5, db) \<Longrightarrow>
    auth_step env s (s\<lparr>as_db := db\<rparr>)"

section \<open>A request is a sequence of writes\<close>

lemma auth_invD:
  "auth_inv s \<Longrightarrow> unique_key us_id (ad_users (as_db s))" "auth_inv s \<Longrightarrow> unique_key rt_id (ad_tokens (as_db s))"
  "auth_inv s \<Longrightarrow> unique_key rt_token_hash (ad_tokens (as_db s))" "auth_inv s \<Longrightarrow> unique_key ak_id (ad_keys (as_db s))"
  "auth_inv s \<Longrightarrow> unique_key ak_key_hash (ad_keys (as_db s))" "auth_inv s \<Longrightarrow> unique_key rc_code_hash (ad_codes (as_db s))"
  by (simp_all add: auth_inv_def users_ok_def tokens_ok_def codes_ok_def keys_ok_def)

lemma auth_inv_typed: "auth_inv s \<Longrightarrow> u \<in> set (ad_users (as_db s)) \<Longrightarrow> typed_user u"
  by (simp add: auth_inv_def users_ok_def)

definition with_tokens :: "refresh_token list \<Rightarrow> auth_system \<Rightarrow> auth_system" where
  "with_tokens ts s = s\<lparr>as_db := (as_db s)\<lparr>ad_tokens := ts\<rparr>\<rparr>"

lemma with_tokens_simps [simp]:
  "with_tokens ts (with_tokens us s) = with_tokens ts s" "ad_tokens (as_db (with_tokens ts s)) = ts"
  "with_tokens (ad_tokens (as_db s)) s = s"
  by (simp_all add: with_tokens_def)

lemma revoke_at_live:
  assumes "auth_inv s" and "t \<in> set (ad_tokens (as_db s))" and "rt_revoked_at t = None"
  shows "revoke_at now (rt_id t) (ad_tokens (as_db s)) =
    update_where (\<lambda>x. rt_id x = rt_id t) (\<lambda>x. x\<lparr>rt_revoked_at := Some now, rt_replaced_by_id := None\<rparr>) (ad_tokens (as_db s))"
proof -
  have "link_ok (ad_next (as_db s)) t" using assms(1,2) by (simp add: auth_inv_def tokens_ok_def)
  then have "rt_replaced_by_id t = None" using assms(3) by (auto simp: link_ok_def split: option.splits)
  moreover have "x = t" if "x \<in> set (ad_tokens (as_db s))" "rt_id x = rt_id t" for x
    using unique_key_eq [OF auth_invD(2)] assms(1,2) that by blast
  moreover have "t\<lparr>rt_revoked_at := Some now\<rparr> = t\<lparr>rt_revoked_at := Some now, rt_replaced_by_id := None\<rparr>"
    using \<open>rt_replaced_by_id t = None\<close> by (cases t) simp
  ultimately show ?thesis unfolding revoke_at_def using assms(3) by (intro update_where_cong) metis
qed

lemma revoke_at_dead:
  assumes "auth_inv s" and "t \<in> set (ad_tokens (as_db s))" and "rt_revoked_at t \<noteq> None"
  shows "revoke_at now (rt_id t) (ad_tokens (as_db s)) = ad_tokens (as_db s)"
  unfolding revoke_at_def
proof (rule update_where_none, rule ballI)
  fix x assume "x \<in> set (ad_tokens (as_db s))"
  then show "\<not> (rt_id x = rt_id t \<and> rt_revoked_at x = None)"
    using unique_key_eq [OF auth_invD(2) [OF assms(1)], of x t] assms(2,3) by auto
qed

lemma revoke_at_writes:
  assumes "auth_inv s" and "t \<in> set (ad_tokens (as_db s))"
  shows "auth_write\<^sup>*\<^sup>* s (with_tokens (revoke_at now (rt_id t) (ad_tokens (as_db s))) s)"
proof (cases "rt_revoked_at t = None")
  case True
  have "auth_write s (with_tokens (update_where (\<lambda>x. rt_id x = rt_id t)
      (\<lambda>x. x\<lparr>rt_revoked_at := Some now, rt_replaced_by_id := None\<rparr>) (ad_tokens (as_db s))) s)"
    unfolding with_tokens_def by (rule auth_write.revoke_token [OF assms(2) True]) simp
  then show ?thesis by (simp add: revoke_at_live [OF assms True])
qed (simp add: revoke_at_dead [OF assms])

lemma revoke_family_writes:
  assumes "auth_inv s" and "\<And>t. cursor = Some t \<Longrightarrow> t \<in> set (ad_tokens (as_db s))"
  shows "auth_write\<^sup>*\<^sup>* s (with_tokens (snd (revoke_token_family n now seen cursor (ad_tokens (as_db s)))) s)"
  using assms
proof (induction n arbitrary: s seen cursor)
  case (Suc n)
  show ?case
  proof (cases cursor)
    case (Some t)
    let ?s1 = "with_tokens (revoke_at now (rt_id t) (ad_tokens (as_db s))) s"
    have t: "t \<in> set (ad_tokens (as_db s))" using Suc.prems(2) Some by simp
    note w = revoke_at_writes [OF Suc.prems(1) t, of now]
    show ?thesis
    proof (cases "List.member seen (rt_id t)")
      case False
      show ?thesis
      proof (cases "rt_replaced_by_id t")
        case None
        then show ?thesis using w Some False by (simp add: Let_def)
      next
        case (Some i)
        let ?c = "token_by_id i (ad_tokens (as_db ?s1))"
        have "auth_write\<^sup>*\<^sup>* ?s1
            (with_tokens (snd (revoke_token_family n now (rt_id t # seen) ?c (ad_tokens (as_db ?s1)))) ?s1)"
          by (rule Suc.IH [OF writes_inv [OF w Suc.prems(1)]])
            (use find_row_Some in \<open>fastforce simp: token_by_id_def\<close>)
        then show ?thesis using w \<open>cursor = Some t\<close> Some False
          by (auto simp: Let_def split_beta elim: rtranclp_trans)
      qed
    qed (simp add: Some)
  qed simp
qed simp

text \<open>Each request, as its writes.\<close>

lemma put_active:
  assumes "active_user (us_id u) (as_db s)" and "typed_user u" and "us_status u = ''active''"
  shows "auth_write\<^sup>*\<^sup>* s (s\<lparr>as_db := put_user u (as_db s)\<rparr>)"
  using auth_write.put_user [OF assms(1,2)] assms(3) by auto

lemma signed_inD:
  assumes "signed_in u (as_db s)" and "auth_inv s"
  shows "active_user (us_id u) (as_db s)" "typed_user u" "us_status u = ''active''" "u \<in> set (ad_users (as_db s))"
proof -
  show u: "u \<in> set (ad_users (as_db s))"
    using assms(1) find_row_Some by (fastforce simp: signed_in_def user_by_id_def)
  then show "typed_user u" using auth_inv_typed [OF assms(2)] by simp
  show "active_user (us_id u) (as_db s)" "us_status u = ''active''"
    using assms(1) by (auto simp: signed_in_def active_user_def)
qed

lemma issue_writes:
  assumes "issue_token_pair env now raw u (as_db s) = Inr (pair, db)" and "active_user u (as_db s)"
    and "hash_refresh_token env raw \<notin> as_issued s"
  shows "auth_write\<^sup>*\<^sup>* s (s\<lparr>as_db := db, as_issued := insert (hash_refresh_token env raw) (as_issued s)\<rparr>)"
proof -
  let ?t = "new_refresh_token env now raw u (as_db s)"
  have "auth_write s (s\<lparr>as_db := add_token ?t (as_db s), as_issued := insert (rt_token_hash ?t) (as_issued s)\<rparr>)"
    by (rule auth_write.add_token) (use assms in \<open>simp_all add: new_refresh_token_def\<close>)
  moreover have "db = add_token ?t (as_db s)" using assms(1) by (auto simp: issue_token_pair_def split: if_splits)
  ultimately show ?thesis by (simp add: new_refresh_token_def)
qed

lemma issued_writes: "as_issued s \<subseteq> U \<Longrightarrow> auth_write\<^sup>*\<^sup>* s (s\<lparr>as_issued := U\<rparr>)"
  using auth_write.issued by blast

lemma issued_only:
  "auth_write\<^sup>*\<^sup>* s (s\<lparr>as_db := as_db s, as_issued := insert h (as_issued s)\<rparr>)"
  using issued_writes [of s "insert h (as_issued s)"] by auto

lemma failures_writes: "auth_write\<^sup>*\<^sup>* s (s\<lparr>as_db := (as_db s)\<lparr>ad_failures := F\<rparr>\<rparr>)"
  using auth_write.failures by blast

lemma record_failure_writes: "auth_write\<^sup>*\<^sup>* s (s\<lparr>as_db := record_failure env now u (as_db s)\<rparr>)"
  using failures_writes [of s] by (simp add: record_failure_def)

lemma clear_failures_writes: "auth_write\<^sup>*\<^sup>* s (s\<lparr>as_db := clear_failures env now u (as_db s)\<rparr>)"
  using failures_writes [of s] by (simp add: clear_failures_def)

lemma consume_writes:
  "consume_recovery_code env now u code (as_db s) = (b, db) \<Longrightarrow> auth_write\<^sup>*\<^sup>* s (s\<lparr>as_db := db\<rparr>)"
  using auth_write.use_code [of "\<lambda>r. rc_user_id r = u \<and> rc_code_hash r = hash_recovery_code env code \<and> rc_used_at r = None" s now]
  by (auto simp: consume_recovery_code_def Let_def split: if_splits)

lemma second_factor_writes:
  "second_factor env now u code (as_db s) = Some (b, db) \<Longrightarrow> auth_write\<^sup>*\<^sup>* s (s\<lparr>as_db := db\<rparr>)"
  using consume_writes [of env now "us_id u" code s b db]
  by (auto simp: second_factor_def split: option.splits if_splits)

lemma revoke_keys_writes:
  "auth_write\<^sup>*\<^sup>* s (s\<lparr>as_db := (as_db s)\<lparr>ad_keys := update_where K (\<lambda>k. k\<lparr>ak_revoked := True\<rparr>) (ad_keys (as_db s))\<rparr>\<rparr>)"
  using auth_write.revoke_keys by blast

lemma user_by_email_in: "user_by_email env email db = Some u \<Longrightarrow> u \<in> set (ad_users db)"
  using find_row_Some by (fastforce simp: user_by_email_def)

lemma user_by_id_in: "user_by_id i db = Some u \<Longrightarrow> u \<in> set (ad_users db) \<and> us_id u = i"
  using find_row_Some by (fastforce simp: user_by_id_def)

lemma member_signed_in:
  "auth_inv s \<Longrightarrow> u \<in> set (ad_users (as_db s)) \<Longrightarrow> us_status u = ''active'' \<Longrightarrow> signed_in u (as_db s)"
  using find_row_key [OF auth_invD(1)] by (fastforce simp: signed_in_def user_by_id_def)

text \<open>A login completes: the time of the login is stored and a session issued.\<close>

lemma session_writes:
  assumes inv: "auth_inv s" and u: "signed_in u (as_db s)" and fresh: "hash_refresh_token env raw \<notin> as_issued s"
    and iss: "issue_token_pair env now raw (us_id u) (put_user (u\<lparr>us_last_login_at := Some now\<rparr>) (as_db s)) = Inr (pair, db)"
  shows "auth_write\<^sup>*\<^sup>* s (s\<lparr>as_db := db, as_issued := insert (hash_refresh_token env raw) (as_issued s)\<rparr>)"
proof -
  let ?u = "u\<lparr>us_last_login_at := Some now\<rparr>" let ?s1 = "s\<lparr>as_db := put_user ?u (as_db s)\<rparr>"
  note du = signed_inD [OF u inv]
  have "typed_user ?u" using du(2) by (simp add: typed_user_def)
  then have w: "auth_write\<^sup>*\<^sup>* s ?s1" using du by (intro put_active) simp_all
  have "unique_key us_id (ad_users (as_db ?s1))" using auth_invD(1) [OF writes_inv [OF w inv]] .
  moreover have "?u \<in> set (ad_users (as_db ?s1))" using du(4) by (auto simp: put_user_def set_update_where)
  ultimately have "active_user (us_id u) (as_db ?s1)" 
    using du(3) by (auto simp: active_user_iff intro!: bexI [of _ ?u])
  from issue_writes [of env now raw "us_id u" ?s1 pair db] iss this fresh have
    "auth_write\<^sup>*\<^sup>* ?s1 (s\<lparr>as_db := db, as_issued := insert (hash_refresh_token env raw) (as_issued s)\<rparr>)" by simp
  with w show ?thesis by (rule rtranclp_trans)
qed

lemma register_writes:
  assumes "register_user env salt email password full_name (as_db s) = (r, db)"
  shows "auth_write\<^sup>*\<^sup>* s (s\<lparr>as_db := db\<rparr>)"
proof (cases "user_by_email env email (as_db s)")
  case None
  let ?u = "\<lparr>us_id = ad_next (as_db s), us_email = email, us_password_hash = hash_password env salt password,
      us_full_name = full_name, us_mfa_enabled = False, us_mfa_secret_encrypted = None,
      us_mfa_enabled_at = None, us_status = ''active'', us_last_login_at = None\<rparr>"
  have "auth_write s (s\<lparr>as_db := (as_db s)\<lparr>ad_users := ad_users (as_db s) @ [?u], ad_next := ad_next (as_db s) + 1\<rparr>\<rparr>)"
    by (rule auth_write.add_user) (simp_all add: typed_user_def)
  with None assms show ?thesis by (auto simp: register_user_def Let_def)
qed (use assms in \<open>auto simp: register_user_def\<close>)

lemma login_writes:
  assumes "auth_inv s" and "hash_refresh_token env raw \<notin> as_issued s"
    and "begin_login env now raw email password (as_db s) = (r, db)"
  shows "auth_write\<^sup>*\<^sup>* s (s\<lparr>as_db := db, as_issued := insert (hash_refresh_token env raw) (as_issued s)\<rparr>)"
proof (cases "db = as_db s")
  case True
  then show ?thesis by (simp only: issued_only)
next
  case False
  then obtain u pair where u: "authenticate_user env email password (as_db s) = Inr u"
    "issue_token_pair env now raw (us_id u) (put_user (u\<lparr>us_last_login_at := Some now\<rparr>) (as_db s)) = Inr (pair, db)"
    using assms(3) by (auto simp: begin_login_def split: sum.splits if_splits)
  from u(1) have "u \<in> set (ad_users (as_db s))" "us_status u = ''active''"
    by (auto simp: authenticate_user_def dest: user_by_email_in split: option.splits if_splits)
  then show ?thesis using session_writes [OF assms(1) _ assms(2) u(2)] member_signed_in [OF assms(1)] by blast
qed

lemma rotate_writes_writes:
  assumes inv: "auth_inv s" and t: "t \<in> set (ad_tokens (as_db s))" "rt_revoked_at t = None"
    and act: "active_user (rt_user_id t) (as_db s)" and fresh: "hash_refresh_token env new_raw \<notin> as_issued s"
    and w: "rotate_writes env now new_raw t (as_db s) = (Inr p, db)"
  shows "auth_write\<^sup>*\<^sup>* s (s\<lparr>as_db := db, as_issued := insert (hash_refresh_token env new_raw) (as_issued s)\<rparr>)"
proof -
  let ?n = "new_refresh_token env now new_raw (rt_user_id t) (as_db s)"
  let ?s1 = "s\<lparr>as_db := add_token ?n (as_db s), as_issued := insert (hash_refresh_token env new_raw) (as_issued s)\<rparr>"
  have "auth_write s (s\<lparr>as_db := add_token ?n (as_db s), as_issued := insert (rt_token_hash ?n) (as_issued s)\<rparr>)"
    by (rule auth_write.add_token) (use act fresh in \<open>simp_all add: new_refresh_token_def\<close>)
  then have 1: "auth_write s ?s1" by (simp add: new_refresh_token_def)
  have "rt_id t < ad_next (as_db s)" using inv t(1) by (simp add: auth_inv_def tokens_ok_def)
  then have 2: "auth_write ?s1 (?s1\<lparr>as_db := (as_db ?s1)\<lparr>ad_tokens := update_where (\<lambda>x. rt_id x = rt_id t)
      (\<lambda>x. x\<lparr>rt_revoked_at := Some now, rt_replaced_by_id := Some (rt_id ?n)\<rparr>) (ad_tokens (as_db ?s1))\<rparr>\<rparr>)"
    using t by (intro auth_write.revoke_token) (auto simp: add_token_def new_refresh_token_def)
  have "db = (as_db ?s1)\<lparr>ad_tokens := update_where (\<lambda>x. rt_id x = rt_id t)
      (\<lambda>x. x\<lparr>rt_revoked_at := Some now, rt_replaced_by_id := Some (rt_id ?n)\<rparr>) (ad_tokens (as_db ?s1))\<rparr>"
    using w by (auto simp: rotate_writes_def Let_def split: if_splits)
  with 2 have "auth_write ?s1 (?s1\<lparr>as_db := db\<rparr>)" by simp
  moreover have "?s1\<lparr>as_db := db\<rparr> = s\<lparr>as_db := db, as_issued := insert (hash_refresh_token env new_raw) (as_issued s)\<rparr>"
    by simp
  ultimately show ?thesis using 1 by (metis converse_rtranclp_into_rtranclp r_into_rtranclp)
qed

text \<open>What a refresh found when it goes on to write.\<close>

lemma rotate_reads_Inr:
  assumes "rotate_reads env now raw db = (Inr t, db1)"
  shows "db1 = db" "t \<in> set (ad_tokens db)" "rt_token_hash t = hash_refresh_token env raw" "rt_revoked_at t = None"
    "now \<le> rt_expires_at t" "active_user (rt_user_id t) db"
proof -
  from assms show "db1 = db" "rt_revoked_at t = None" "now \<le> rt_expires_at t" "active_user (rt_user_id t) db"
    by (auto simp: rotate_reads_def active_user_def split: option.splits if_splits)
  from assms have "token_by_hash (hash_refresh_token env raw) db = Some t"
    by (auto simp: rotate_reads_def split: option.splits if_splits)
  then show "t \<in> set (ad_tokens db)" "rt_token_hash t = hash_refresh_token env raw"
    using find_row_Some by (fastforce simp: token_by_hash_def)+
qed

lemma rotate_reads_Inl:
  assumes "rotate_reads env now raw db = (Inl e, db1)"
  shows "db1 = db \<or> (\<exists>t. token_by_hash (hash_refresh_token env raw) db = Some t \<and>
    db1 = db\<lparr>ad_tokens := snd (revoke_token_family MAX_FAMILY_HOPS now [] (Some t) (ad_tokens db))\<rparr>)"
  using assms by (auto simp: rotate_reads_def split: option.splits if_splits)

lemma refresh_writes:
  assumes inv: "auth_inv s" and fresh: "hash_refresh_token env new_raw \<notin> as_issued s"
    and "rotate_refresh_token env now new_raw raw (as_db s) = (r, db)"
  shows "auth_write\<^sup>*\<^sup>* s (s\<lparr>as_db := db, as_issued := insert (hash_refresh_token env new_raw) (as_issued s)\<rparr>)"
proof (cases "rotate_reads env now raw (as_db s)")
  case (Pair res db1)
  show ?thesis
  proof (cases res)
    case (Inl e)
    then have db: "db = db1" using assms(3) Pair by (simp add: rotate_refresh_token_def)
    have iss: "auth_write\<^sup>*\<^sup>* s' (s'\<lparr>as_issued := insert (hash_refresh_token env new_raw) (as_issued s')\<rparr>)" for s'
      by (rule issued_writes) auto
    from rotate_reads_Inl [OF Pair [unfolded Inl]] show ?thesis
    proof (elim disjE exE conjE)
      fix t assume t: "token_by_hash (hash_refresh_token env raw) (as_db s) = Some t"
        and db1: "db1 = (as_db s)\<lparr>ad_tokens := snd (revoke_token_family MAX_FAMILY_HOPS now [] (Some t) (ad_tokens (as_db s)))\<rparr>"
      have "t \<in> set (ad_tokens (as_db s))" using t find_row_Some by (fastforce simp: token_by_hash_def)
      from revoke_family_writes [OF inv, of "Some t" MAX_FAMILY_HOPS now "[]"] this
      have "auth_write\<^sup>*\<^sup>* s (s\<lparr>as_db := db\<rparr>)" by (simp add: with_tokens_def db db1)
      from rtranclp_trans [OF this iss] show ?thesis by simp
    qed (use iss [of s] in \<open>simp add: db\<close>)
  next
    case (Inr t)
    note rd = rotate_reads_Inr [OF Pair [unfolded Inr]]
    have w: "rotate_writes env now new_raw t (as_db s) = (r, db)"
      using assms(3) Pair Inr rd(1) by (simp add: rotate_refresh_token_def)
    show ?thesis
    proof (cases r)
      case (Inl e)
      then have "db = as_db s" using w by (auto simp: rotate_writes_def Let_def split: if_splits)
      then show ?thesis by (simp only: issued_only)
    next
      case (Inr p)
      then show ?thesis using rotate_writes_writes [OF inv rd(2,4,6) fresh] w by blast
    qed
  qed
qed

lemma logout_writes:
  assumes "auth_inv s"
  shows "auth_write\<^sup>*\<^sup>* s (s\<lparr>as_db := revoke_refresh_token env now raw (as_db s)\<rparr>)"
proof (cases "token_by_hash (hash_refresh_token env raw) (as_db s)")
  case (Some t)
  then have "t \<in> set (ad_tokens (as_db s))" using find_row_Some by (fastforce simp: token_by_hash_def)
  from revoke_at_writes [OF assms this, of now] Some show ?thesis
    by (auto simp: revoke_refresh_token_def with_tokens_def)
qed (simp add: revoke_refresh_token_def)

text \<open>A login with a second factor either opens a session or leaves all but the failure counters alone.\<close>

lemma complete_mfa_login_cases:
  assumes "complete_mfa_login env now raw token code db = (r, db')"
  obtains (refused) e F where "r = Inl e" "db' = db\<lparr>ad_failures := F\<rparr>"
  | (session) p u db1 pair where "decode_mfa_challenge_token env now token = Some p" "user_by_id (cl_sub p) db = Some u"
      "us_status u = ''active''" "us_mfa_enabled u" "assert_not_locked env now (us_id u) db = Inr ()"
      "second_factor env now u code db = Some (True, db1)"
      "issue_token_pair env now raw (us_id u) (put_user (u\<lparr>us_last_login_at := Some now\<rparr>)
         (clear_failures env now (us_id u) db1)) = Inr (pair, db')" "r = Inr pair"
proof -
  have same: thesis if "r = Inl e" "db' = db" for e
    using that refused [of e "ad_failures db"] by simp
  show thesis
  proof (cases "decode_mfa_challenge_token env now token")
    case None
    then show thesis using assms by (intro same) (auto simp: complete_mfa_login_def)
  next
    case dec: (Some p)
    show thesis
    proof (cases "user_by_id (cl_sub p) db")
      case None
      then show thesis using assms dec by (intro same) (auto simp: complete_mfa_login_def)
    next
      case us: (Some u)
      show thesis
      proof (cases "us_status u \<noteq> ''active'' \<or> \<not> us_mfa_enabled u")
        case True
        then show thesis using assms dec us by (intro same) (auto simp: complete_mfa_login_def)
      next
        case act: False
        show thesis
        proof (cases "assert_not_locked env now (us_id u) db")
          case (Inl e)
          then show thesis using assms dec us act by (intro same) (auto simp: complete_mfa_login_def)
        next
          case nl: (Inr x)
          show thesis
          proof (cases "second_factor env now u code db")
            case None
            then show thesis using assms dec us act nl by (intro same) (auto simp: complete_mfa_login_def)
          next
            case sf: (Some bd)
            obtain b db1 where bd: "bd = (b, db1)" by force
            show thesis
            proof (cases b)
              case False
              then have "r = Inl (AuthErr 401 ''Invalid MFA code'')" "db' = record_failure env now (us_id u) db"
                using assms dec us act nl sf bd by (simp_all add: complete_mfa_login_def)
              moreover have "record_failure env now (us_id u) db
                  = db\<lparr>ad_failures := ad_failures (record_failure env now (us_id u) db)\<rparr>"
                by (simp add: record_failure_def)
              ultimately show thesis using refused by metis
            next
              case True
              let ?iss = "issue_token_pair env now raw (us_id u) (put_user (u\<lparr>us_last_login_at := Some now\<rparr>)
                 (clear_failures env now (us_id u) db1))"
              show thesis
              proof (cases ?iss)
                case (Inl e)
                then have "r = Inl e" "db' = db\<lparr>ad_failures := ad_failures (clear_failures env now (us_id u) db1)\<rparr>"
                  using True assms dec us act nl sf bd by (simp_all add: complete_mfa_login_def Let_def)
                then show thesis by (rule refused)
              next
                case (Inr q)
                obtain pr dbx where q: "q = (pr, dbx)" by (cases q)
                have "r = Inr pr" "db' = dbx"
                  using Inr q True assms dec us act nl sf bd by (simp_all add: complete_mfa_login_def Let_def)
                then show thesis using session [OF dec us] act nl sf bd True Inr q by simp
              qed
            qed
          qed
        qed
      qed
    qed
  qed
qed

lemma complete_mfa_login_writes:
  assumes inv: "auth_inv s" and fresh: "hash_refresh_token env raw \<notin> as_issued s"
    and "complete_mfa_login env now raw token code (as_db s) = (r, db)"
  shows "auth_write\<^sup>*\<^sup>* s (s\<lparr>as_db := db, as_issued := insert (hash_refresh_token env raw) (as_issued s)\<rparr>)"
proof -
  have fails: "auth_write\<^sup>*\<^sup>* s (s\<lparr>as_db := (as_db s)\<lparr>ad_failures := F\<rparr>, as_issued := insert (hash_refresh_token env raw) (as_issued s)\<rparr>)" for F
    using rtranclp_trans [OF failures_writes [of s F] issued_writes [of _ "insert (hash_refresh_token env raw) (as_issued s)"]]
    by auto
  from assms(3) show ?thesis
  proof (cases rule: complete_mfa_login_cases)
    case (refused e F)
    then show ?thesis using fails by blast
  next
    case (session p u db1 pair)
    have u: "u \<in> set (ad_users (as_db s))" "us_status u = ''active''"
      using user_by_id_in [OF session(2)] session(3) by simp_all
    note sf = session(6) and iss = session(7)
    let ?s1 = "s\<lparr>as_db := db1\<rparr>" and ?s2 = "s\<lparr>as_db := clear_failures env now (us_id u) db1\<rparr>"
    have w1: "auth_write\<^sup>*\<^sup>* s ?s1" by (rule second_factor_writes [OF sf])
    have w2: "auth_write\<^sup>*\<^sup>* s ?s2" using rtranclp_trans [OF w1 clear_failures_writes [of ?s1 env now "us_id u"]] by simp
    have inv2: "auth_inv ?s2" by (rule writes_inv [OF w2 inv])
    have "ad_users db1 = ad_users (as_db s)"
      using sf by (auto simp: second_factor_def consume_recovery_code_def Let_def split: option.splits if_splits)
    then have "signed_in u (as_db ?s2)" using member_signed_in [OF inv2] u by (simp add: clear_failures_def)
    from session_writes [OF inv2 this _ , of env raw now pair db] fresh iss w2 show ?thesis
      by (auto elim: rtranclp_trans)
  qed
qed

lemma enroll_writes:
  assumes "auth_inv s" and "signed_in u (as_db s)" and "start_mfa_enrollment env secret u (as_db s) = (r, db)"
  shows "auth_write\<^sup>*\<^sup>* s (s\<lparr>as_db := db\<rparr>)"
proof (cases "us_mfa_enabled u")
  case False
  note u = signed_inD [OF assms(2,1)]
  have "auth_write\<^sup>*\<^sup>* s (s\<lparr>as_db := put_user (u\<lparr>us_mfa_secret_encrypted := Some (av_encrypt env secret)\<rparr>) (as_db s)\<rparr>)"
    using u False by (intro put_active) (auto simp: typed_user_def)
  with False assms(3) show ?thesis by (auto simp: start_mfa_enrollment_def)
qed (use assms(3) in \<open>auto simp: start_mfa_enrollment_def\<close>)

lemma active_user_same: "ad_users db' = ad_users db \<Longrightarrow> active_user u db' = active_user u db"
  by (simp add: active_user_def user_by_id_def)

lemma active_after_put:
  assumes "unique_key us_id (ad_users db)" and "v \<in> set (ad_users db)" and "us_id v = us_id u"
    and "us_status u = ''active''"
  shows "active_user (us_id u) (put_user u db)"
proof -
  have "unique_key us_id (ad_users (put_user u db))"
    using assms(1) unique_key_update_where [of "\<lambda>r. us_id r = us_id u" us_id "\<lambda>_. u"] by (simp add: put_user_def)
  moreover have "u \<in> set (ad_users (put_user u db))"
    using assms(2,3) by (force simp: put_user_def set_update_where)
  ultimately show ?thesis using assms(4) by (auto simp: active_user_iff)
qed

lemma verify_writes:
  assumes inv: "auth_inv s" and u: "signed_in u (as_db s)"
    and fresh: "hash_recovery_code env ` set (recovery_codes raws) \<inter> as_issued s = {}"
    and "verify_and_enable_mfa env now raws u code (as_db s) = (r, db)"
  shows "auth_write\<^sup>*\<^sup>* s (s\<lparr>as_db := db, as_issued := hash_recovery_code env ` set (recovery_codes raws) \<union> as_issued s\<rparr>)"
proof (cases "\<exists>F. db = (as_db s)\<lparr>ad_failures := F\<rparr>")
  case True
  then obtain F where "db = (as_db s)\<lparr>ad_failures := F\<rparr>" by blast
  then show ?thesis
    using rtranclp_trans [OF failures_writes [of s F]
        issued_writes [of _ "hash_recovery_code env ` set (recovery_codes raws) \<union> as_issued s"]] by auto
next
  case False
  let ?cs = "new_codes env (us_id u) (recovery_codes raws)"
  let ?u = "u\<lparr>us_mfa_enabled := True, us_mfa_enabled_at := Some now\<rparr>"
  let ?s1 = "s\<lparr>as_db := clear_failures env now (us_id u) (as_db s)\<rparr>"
  let ?s2 = "?s1\<lparr>as_db := put_user ?u (as_db ?s1)\<rparr>"
  have "db \<noteq> as_db s" "db \<noteq> record_failure env now i (as_db s)" "db \<noteq> clear_failures env now i (as_db s)" for i
    using False [unfolded not_ex, THEN spec, of "ad_failures (as_db s)"] False
    by (auto simp: record_failure_def clear_failures_def)
  then have ne: "\<And>i. db \<noteq> record_failure env now i (as_db s)" "\<And>i. db \<noteq> clear_failures env now i (as_db s)" "db \<noteq> as_db s"
    by simp_all
  note v = assms(4) [unfolded verify_and_enable_mfa_def Let_def]
  have 1: "\<not> us_mfa_enabled u" "truthy (us_mfa_secret_encrypted u)" using v ne(3) by (auto split: if_splits)
  have 2: "assert_not_locked env now (us_id u) (as_db s) = Inr ()" using v 1 ne(3) by (cases "assert_not_locked env now (us_id u) (as_db s)") auto
  obtain secret where 3: "av_decrypt env (or_empty (us_mfa_secret_encrypted u)) = Some secret" "verify_totp env now secret code"
    using v 1 2 ne by (cases "av_decrypt env (or_empty (us_mfa_secret_encrypted u))") (auto split: if_splits)
  have 4: "distinct (map rc_code_hash (ad_codes (as_db s) @ ?cs))"
  proof (rule ccontr)
    assume "\<not> ?thesis"
    then show False using v 1 2 3 ne(2) by auto
  qed
  have db: "db = (put_user ?u (as_db ?s1))\<lparr>ad_codes := ad_codes (as_db s) @ ?cs\<rparr>"
    using v 1 2 3 4 by simp
  note r = 1(2) 4
  note ud = signed_inD [OF u inv]
  have w1: "auth_write\<^sup>*\<^sup>* s ?s1" by (rule clear_failures_writes)
  have inv1: "auth_inv ?s1" by (rule writes_inv [OF w1 inv])
  have usr: "ad_users (as_db ?s1) = ad_users (as_db s)" by (simp add: clear_failures_def)
  have act1: "active_user (us_id u) (as_db ?s1)"
    using ud(1) by (simp only: active_user_same [OF usr])
  have w2: "auth_write\<^sup>*\<^sup>* ?s1 ?s2"
    using act1 r(1) ud by (intro put_active) (simp_all add: typed_user_def)
  have act2: "active_user (us_id u) (as_db ?s2)"
  proof -
    have "u \<in> set (ad_users (as_db ?s1))" using ud(4) by (simp only: usr)
    from active_after_put [OF auth_invD(1) [OF inv1] this, of ?u] ud(3) show ?thesis by simp
  qed
  have hashes: "rc_code_hash ` set ?cs = hash_recovery_code env ` set (recovery_codes raws)"
    by (simp add: new_codes_def image_image)
  have "auth_write ?s2 (?s2\<lparr>as_db := (as_db ?s2)\<lparr>ad_codes := ad_codes (as_db ?s2) @ ?cs\<rparr>,
      as_issued := rc_code_hash ` set ?cs \<union> as_issued ?s2\<rparr>)"
    by (rule auth_write.add_codes [OF act2]) (use r(2) fresh hashes in \<open>simp_all add: new_codes_def\<close>)
  moreover have "ad_codes (as_db ?s2) = ad_codes (as_db s)" by (simp add: put_user_def clear_failures_def)
  ultimately have "auth_write ?s2
      (s\<lparr>as_db := db, as_issued := hash_recovery_code env ` set (recovery_codes raws) \<union> as_issued s\<rparr>)"
    using hashes by (simp add: db)
  with w1 w2 show ?thesis by (meson rtranclp.rtrancl_into_rtrancl rtranclp_trans)
qed

lemma drop_codes_writes:
  "auth_write\<^sup>*\<^sup>* s (s\<lparr>as_db := (as_db s)\<lparr>ad_codes := filter C (ad_codes (as_db s))\<rparr>\<rparr>)"
  using auth_write.drop_codes by blast

lemma drop_tokens_writes:
  "auth_write\<^sup>*\<^sup>* s (s\<lparr>as_db := (as_db s)\<lparr>ad_tokens := filter P (ad_tokens (as_db s))\<rparr>\<rparr>)"
  using auth_write.drop_tokens by blast

lemma second_factor_users:
  "second_factor env now u code db = Some (b, db1) \<Longrightarrow> ad_users db1 = ad_users db"
  by (auto simp: second_factor_def consume_recovery_code_def Let_def split: option.splits if_splits)

lemma disable_writes:
  assumes inv: "auth_inv s" and u: "signed_in u (as_db s)"
    and "disable_mfa env now u password code (as_db s) = (r, db)"
  shows "auth_write\<^sup>*\<^sup>* s (s\<lparr>as_db := db\<rparr>)"
proof (cases "db = as_db s")
  case False
  let ?u = "u\<lparr>us_mfa_enabled := False, us_mfa_secret_encrypted := None, us_mfa_enabled_at := None\<rparr>"
  from False assms(3) obtain db1 where sf: "second_factor env now u code (as_db s) = Some (True, db1)"
    and db: "db = (put_user ?u db1)\<lparr>ad_codes := filter (\<lambda>r. rc_user_id r \<noteq> us_id u) (ad_codes db1)\<rparr>"
    by (auto simp: disable_mfa_def split: if_splits option.splits bool.splits)
  let ?s1 = "s\<lparr>as_db := db1\<rparr>" and ?s2 = "s\<lparr>as_db := put_user ?u db1\<rparr>"
  note ud = signed_inD [OF u inv]
  have w1: "auth_write\<^sup>*\<^sup>* s ?s1" by (rule second_factor_writes [OF sf])
  have "auth_write\<^sup>*\<^sup>* ?s1 (?s1\<lparr>as_db := put_user ?u (as_db ?s1)\<rparr>)"
    using ud by (intro put_active) (simp_all add: typed_user_def active_user_same [OF second_factor_users [OF sf]])
  then have w2: "auth_write\<^sup>*\<^sup>* ?s1 ?s2" by simp
  have "auth_write\<^sup>*\<^sup>* ?s2 (s\<lparr>as_db := db\<rparr>)"
    using drop_codes_writes [of ?s2 "\<lambda>r. rc_user_id r \<noteq> us_id u"] by (simp add: db put_user_def)
  with w1 w2 show ?thesis by (meson rtranclp_trans)
qed simp

lemma create_key_writes:
  assumes inv: "auth_inv s" and u: "signed_in u (as_db s)" and fresh: "av_sha256 env (KEY_PREFIX @ random) \<notin> as_issued s"
    and "create_key env random ws (us_id u) name (as_db s) = (r, db)"
  shows "auth_write\<^sup>*\<^sup>* s (s\<lparr>as_db := db, as_issued := insert (av_sha256 env (KEY_PREFIX @ random)) (as_issued s)\<rparr>)"
proof (cases "db = as_db s")
  case True
  then show ?thesis by (simp only: issued_only)
next
  case False
  let ?k = "\<lparr>ak_id = ad_next (as_db s), ak_workspace_id = ws, ak_created_by = us_id u, ak_name = name,
      ak_prefix = take 12 (KEY_PREFIX @ random), ak_key_hash = av_sha256 env (KEY_PREFIX @ random),
      ak_revoked = False, ak_last_used_at = None\<rparr>"
  have "auth_write s (s\<lparr>as_db := (as_db s)\<lparr>ad_keys := ad_keys (as_db s) @ [?k], ad_next := ad_next (as_db s) + 1\<rparr>,
      as_issued := insert (ak_key_hash ?k) (as_issued s)\<rparr>)"
    by (rule auth_write.add_key) (use signed_inD(1) [OF u inv] fresh in simp_all)
  moreover have "db = (as_db s)\<lparr>ad_keys := ad_keys (as_db s) @ [?k], ad_next := ad_next (as_db s) + 1\<rparr>"
    using assms(4) False by (auto simp: create_key_def Let_def split: if_splits)
  ultimately show ?thesis by simp
qed

lemma authenticate_key_writes:
  assumes "authenticate_key env now raw (as_db s) = (k, db)"
  shows "auth_write\<^sup>*\<^sup>* s (s\<lparr>as_db := db\<rparr>)"
  using assms auth_write.stamp_keys [of s _ now]
  by (auto simp: authenticate_key_def split: option.splits)

lemma revoke_key_writes:
  assumes "revoke_key ws i (as_db s) = (r, db)"
  shows "auth_write\<^sup>*\<^sup>* s (s\<lparr>as_db := db\<rparr>)"
  using assms revoke_keys_writes [of s] by (auto simp: revoke_key_def split: if_splits)

text \<open>Erasure: the credentials go before the account is closed.\<close>

lemma erase_writes:
  assumes inv: "auth_inv s" and u: "signed_in u (as_db s)"
    and "erase_user env salt random tombstone u password (as_db s) = (r, db)"
  shows "auth_write\<^sup>*\<^sup>* s (s\<lparr>as_db := db\<rparr>)"
proof (cases "db = as_db s")
  case False
  let ?u = "u\<lparr>us_email := ''deleted+'' @ tombstone (us_id u) @ ''@deleted.invalid'', us_full_name := ''Deleted User'',
      us_password_hash := hash_password env salt random, us_mfa_enabled := False,
      us_mfa_secret_encrypted := None, us_mfa_enabled_at := None, us_status := ''deleted''\<rparr>"
  let ?T = "filter (\<lambda>t. rt_user_id t \<noteq> us_id u) (ad_tokens (as_db s))"
  let ?C = "filter (\<lambda>r. rc_user_id r \<noteq> us_id u) (ad_codes (as_db s))"
  let ?K = "update_where (\<lambda>k. ak_created_by k = us_id u) (\<lambda>k. k\<lparr>ak_revoked := True\<rparr>) (ad_keys (as_db s))"
  let ?s1 = "s\<lparr>as_db := (as_db s)\<lparr>ad_tokens := ?T\<rparr>\<rparr>"
  let ?s2 = "s\<lparr>as_db := (as_db s)\<lparr>ad_tokens := ?T, ad_codes := ?C\<rparr>\<rparr>"
  let ?s3 = "s\<lparr>as_db := (as_db s)\<lparr>ad_tokens := ?T, ad_codes := ?C, ad_keys := ?K\<rparr>\<rparr>"
  have w1: "auth_write\<^sup>*\<^sup>* s ?s1" by (rule drop_tokens_writes)
  have w2: "auth_write\<^sup>*\<^sup>* ?s1 ?s2" using drop_codes_writes [of ?s1 "\<lambda>r. rc_user_id r \<noteq> us_id u"] by simp
  have w3: "auth_write\<^sup>*\<^sup>* ?s2 ?s3" using revoke_keys_writes [of ?s2 "\<lambda>k. ak_created_by k = us_id u"] by simp
  have act: "active_user (us_id u) (as_db ?s3)"
    using signed_inD(1) [OF u inv] by (simp add: active_user_def user_by_id_def)
  have "holds_nothing (us_id u) (as_db ?s3)"
    by (auto simp: holds_nothing_def set_update_where)
  then have w4: "auth_write ?s3 (?s3\<lparr>as_db := put_user ?u (as_db ?s3)\<rparr>)"
    using act by (intro auth_write.put_user) (simp_all add: typed_user_def)
  have "verify_password env password (us_password_hash u)"
    using assms(3) False by (auto simp: erase_user_def split: if_splits)
  then have "db = (put_user ?u (as_db s))\<lparr>ad_tokens := ?T, ad_codes := ?C, ad_keys := ?K\<rparr>"
    using assms(3) by (auto simp: erase_user_def)
  moreover have "(put_user ?u (as_db s))\<lparr>ad_tokens := ?T, ad_codes := ?C, ad_keys := ?K\<rparr> = put_user ?u (as_db ?s3)"
    by (simp add: put_user_def)
  ultimately have "db = put_user ?u (as_db ?s3)" by simp
  then have "auth_write ?s3 (s\<lparr>as_db := db\<rparr>)" using w4 by simp
  with w1 w2 w3 show ?thesis by (meson rtranclp.rtrancl_into_rtrancl rtranclp_trans)
qed simp

lemma auth_step_writes: "auth_step env s s' \<Longrightarrow> auth_inv s \<Longrightarrow> auth_write\<^sup>*\<^sup>* s s'"
proof (induction rule: auth_step.induct)
  case (register_session u s w raw now pair db)
  then show ?case by (intro issue_writes) (auto simp: active_user_def)
qed (auto intro: register_writes login_writes complete_mfa_login_writes refresh_writes logout_writes enroll_writes
    verify_writes disable_writes create_key_writes revoke_key_writes authenticate_key_writes erase_writes)

lemma auth_run_writes: "(auth_step env)\<^sup>*\<^sup>* s s' \<Longrightarrow> auth_inv s \<Longrightarrow> auth_write\<^sup>*\<^sup>* s s'"
proof (induction rule: rtranclp_induct)
  case (step t u)
  then have "auth_inv t" using writes_inv by blast
  then have "auth_write\<^sup>*\<^sup>* t u" using auth_step_writes step.hyps(2) by blast
  with step show ?case by (meson rtranclp_trans)
qed simp

lemma auth_run_inv: "(auth_step env)\<^sup>*\<^sup>* s s' \<Longrightarrow> auth_inv s \<Longrightarrow> auth_inv s'"
  using auth_run_writes writes_inv by blast

end
