(* ===== verification/Token_Families.thy ===== *)
theory Token_Families
  imports Auth_System
begin

text \<open>
  The family of a refresh token: the chain of \<open>replaced_by_id\<close>. What a replay revokes of it, and what it
  does not reach. Repeated guesses of a second factor, and the counter that bounds them.
\<close>

section \<open>The chain\<close>

definition next_id :: "refresh_token list \<Rightarrow> uuid \<Rightarrow> uuid option" where
  "next_id ts i = Option.bind (token_by_id i ts) rt_replaced_by_id"

fun descendant :: "nat \<Rightarrow> refresh_token list \<Rightarrow> uuid \<Rightarrow> uuid option" where
  "descendant 0 ts i = Some i"
| "descendant (Suc k) ts i = (case next_id ts i of None \<Rightarrow> None | Some j \<Rightarrow> descendant k ts j)"

definition links_forward :: "refresh_token list \<Rightarrow> bool" where
  "links_forward ts =
     (unique_key rt_id ts
      \<and> (\<forall>t \<in> set ts. case rt_replaced_by_id t of None \<Rightarrow> True | Some j \<Rightarrow> rt_id t < j))"

definition in_family :: "nat \<Rightarrow> refresh_token list \<Rightarrow> uuid \<Rightarrow> refresh_token \<Rightarrow> bool" where
  "in_family n ts i x = (\<exists>k < n. descendant k ts i = Some (rt_id x))"

lemma tokens_ok_links: "tokens_ok s \<Longrightarrow> links_forward (ad_tokens (as_db s))"
  by (auto simp: tokens_ok_def links_forward_def link_ok_def split: option.splits)

lemma token_by_id_iff:
  "links_forward ts \<Longrightarrow> token_by_id i ts = Some t \<longleftrightarrow> t \<in> set ts \<and> rt_id t = i"
  by (simp add: token_by_id_def links_forward_def find_row_key_iff)

lemma next_id_revoke_at [simp]: "next_id (revoke_at now j ts) i = next_id ts i"
  by (cases "find_row (\<lambda>t. rt_id t = i) ts")
    (simp_all add: next_id_def token_by_id_def revoke_at_def find_row_update_where_key)

lemma descendant_revoke_at [simp]: "descendant k (revoke_at now j ts) i = descendant k ts i"
  by (induction k arbitrary: i) (auto split: option.splits)

lemma links_forward_revoke_at [simp]: "links_forward (revoke_at now j ts) = links_forward ts"
proof -
  have "unique_key rt_id (revoke_at now j ts) = unique_key rt_id ts"
    by (simp add: revoke_at_def unique_key_update_where)
  moreover have "(\<forall>t \<in> set (revoke_at now j ts). case rt_replaced_by_id t of None \<Rightarrow> True | Some k \<Rightarrow> rt_id t < k)
      = (\<forall>t \<in> set ts. case rt_replaced_by_id t of None \<Rightarrow> True | Some k \<Rightarrow> rt_id t < k)"
    unfolding revoke_at_def update_where_ball by (intro ball_cong refl) (auto split: option.splits)
  ultimately show ?thesis by (simp add: links_forward_def)
qed

lemma next_id_less: "links_forward ts \<Longrightarrow> next_id ts i = Some j \<Longrightarrow> i < j"
  by (auto simp: next_id_def links_forward_def token_by_id_def bind_eq_Some_conv dest!: find_row_Some split: option.splits)

lemma descendant_le: "links_forward ts \<Longrightarrow> descendant k ts i = Some j \<Longrightarrow> i + k \<le> j"
proof (induction k arbitrary: i)
  case (Suc k)
  then obtain m where m: "next_id ts i = Some m" "descendant k ts m = Some j" by (auto split: option.splits)
  with next_id_less [OF Suc.prems(1) m(1)] Suc.IH [OF Suc.prems(1) m(2)] show ?case by linarith
qed simp

lemma descendant_add:
  "descendant (k + m) ts i = Option.bind (descendant k ts i) (descendant m ts)"
  by (induction k arbitrary: i) (auto split: option.splits)

lemma descendant_inj:
  assumes "links_forward ts" and "descendant k ts i = Some j" and "descendant m ts i = Some j"
  shows "k = m"
proof (rule ccontr)
  have less: "descendant b ts i \<noteq> Some j" if "descendant a ts i = Some j" "a < b" for a b
  proof
    assume "descendant b ts i = Some j"
    with that descendant_add [of a "b - a" ts i] have "descendant (b - a) ts j = Some j" by simp
    from descendant_le [OF assms(1) this] that(2) show False by simp
  qed
  assume "k \<noteq> m"
  then show False using less assms(2,3) by (metis nat_neq_iff)
qed

text \<open>The loop of \<open>_revoke_token_family\<close> revokes exactly the live tokens within its bound on the chain.\<close>

lemma family_none [simp]: "revoke_token_family n now seen None ts = (0, ts)"
  by (cases n) simp_all

lemma in_family_Suc:
  "in_family (Suc n) ts i x \<longleftrightarrow> rt_id x = i \<or> (\<exists>j. next_id ts i = Some j \<and> in_family n ts j x)"
proof -
  have "in_family (Suc n) ts i x \<longleftrightarrow>
      descendant 0 ts i = Some (rt_id x) \<or> (\<exists>k < n. descendant (Suc k) ts i = Some (rt_id x))"
    unfolding in_family_def by (metis Suc_less_eq gr0_implies_Suc not_gr_zero zero_less_Suc)
  then show ?thesis by (auto simp: in_family_def split: option.splits)
qed

lemma in_family_revoke_at [simp]: "in_family n (revoke_at now j ts) i = in_family n ts i"
  by (simp add: in_family_def fun_eq_iff)

lemma no_row_no_family:
  assumes "token_by_id j ts = None" and "x \<in> set ts"
  shows "\<not> in_family n ts j x"
proof
  assume "in_family n ts j x"
  moreover have "next_id ts j = None" using assms(1) by (simp add: next_id_def)
  ultimately have "rt_id x = j" by (cases n) (auto simp: in_family_Suc in_family_def [of 0])
  with assms show False by (simp add: token_by_id_def find_row_None)
qed

lemma revoke_token_family_exact:
  assumes "links_forward ts" and "t \<in> set ts" and "\<forall>i \<in> set seen. i < rt_id t"
  shows "snd (revoke_token_family n now seen (Some t) ts) =
    update_where (\<lambda>x. rt_revoked_at x = None \<and> in_family n ts (rt_id t) x) (\<lambda>x. x\<lparr>rt_revoked_at := Some now\<rparr>) ts"
  using assms
proof (induction n arbitrary: t ts seen)
  case 0
  then show ?case by (simp add: in_family_def update_where_def)
next
  case (Suc n)
  let ?ts1 = "revoke_at now (rt_id t) ts"
  have fresh: "\<not> List.member seen (rt_id t)" using Suc.prems(3) by auto
  have tb: "token_by_id (rt_id t) ts = Some t" using Suc.prems(1,2) by (simp add: token_by_id_iff)
  then have nx: "next_id ts (rt_id t) = rt_replaced_by_id t" by (simp add: next_id_def)
  show ?case
  proof (cases "rt_replaced_by_id t")
    case None
    then show ?thesis using fresh nx
      by (auto simp: Let_def revoke_at_def in_family_Suc intro!: update_where_cong)
  next
    case (Some j)
    have tj: "rt_id t < j" using next_id_less [OF Suc.prems(1)] nx Some by simp
    show ?thesis
    proof (cases "token_by_id j ?ts1")
      case None
      then have "token_by_id j ts = None"
        by (auto simp: token_by_id_def revoke_at_def find_row_update_where_key)
      from no_row_no_family [OF this] show ?thesis using fresh nx Some None
        by (auto simp: Let_def revoke_at_def in_family_Suc intro!: update_where_cong)
    next
      case t': (Some t')
      then have t1: "t' \<in> set ?ts1" "rt_id t' = j"
        using token_by_id_iff [of ?ts1] Suc.prems(1) by auto
      have "snd (revoke_token_family (Suc n) now seen (Some t) ts)
          = snd (revoke_token_family n now (rt_id t # seen) (Some t') ?ts1)"
        using fresh Some t' by (simp add: Let_def split_beta)
      also have "\<dots> = update_where (\<lambda>x. rt_revoked_at x = None \<and> in_family n ?ts1 (rt_id t') x)
          (\<lambda>x. x\<lparr>rt_revoked_at := Some now\<rparr>) ?ts1"
        by (rule Suc.IH) (use Suc.prems t1 tj in auto)
      also have "\<dots> = update_where (\<lambda>x. rt_revoked_at x = None \<and> in_family (Suc n) ts (rt_id t) x)
          (\<lambda>x. x\<lparr>rt_revoked_at := Some now\<rparr>) ts"
        unfolding in_family_revoke_at in_family_Suc nx Some t1(2)
        by (auto simp: update_where_def revoke_at_def in_family_def)
      finally show ?thesis .
    qed
  qed
qed

section \<open>Guessing a second factor\<close>

text \<open>A sequence of attempts to complete a login: the time, the new random session secret, the challenge and the code.\<close>

fun mfa_attempts ::
  "auth_env \<Rightarrow> (time \<times> string \<times> string \<times> string) list \<Rightarrow> auth_db \<Rightarrow> (auth_error + string \<times> string) list \<times> auth_db" where
  "mfa_attempts env [] db = ([], db)"
| "mfa_attempts env ((now, raw, token, code) # as) db =
     (case complete_mfa_login env now raw token code db of
        (r, db1) \<Rightarrow> (case mfa_attempts env as db1 of (rs, db2) \<Rightarrow> (r # rs, db2)))"

definition evaluated :: "(auth_error + string \<times> string) list \<Rightarrow> nat" where
  "evaluated rs = length (filter (\<lambda>r. r = Inl (AuthErr 401 ''Invalid MFA code'')) rs)"

lemma evaluated_simps [simp]:
  "evaluated [] = 0"
  "evaluated (r # rs) = (if r = Inl (AuthErr 401 ''Invalid MFA code'') then Suc (evaluated rs) else evaluated rs)"
  by (simp_all add: evaluated_def)

text \<open>One attempt that does not succeed either is not evaluated, and then changes nothing, or counts.\<close>

lemma failed_attempt:
  assumes "complete_mfa_login env now raw token code db = (Inl e, db')"
    and up: "av_redis_up env now" and tok: "map_option cl_sub (decode_mfa_challenge_token env now token) = Some u"
    and nocrash: "\<And>c. e \<noteq> AuthCrash c"
  shows "(e \<noteq> AuthErr 401 ''Invalid MFA code'' \<and> db' = db)
    \<or> (e = AuthErr 401 ''Invalid MFA code'' \<and> db' = record_failure env now u db
       \<and> (failure_count now db u = 0 \<or> failure_count now db u < av_mfa_max_attempts env))"
proof -
  from tok obtain p where p: "decode_mfa_challenge_token env now token = Some p" "cl_sub p = u" by auto
  show ?thesis
  proof (cases "user_by_id u db")
    case None
    then show ?thesis using assms(1) p by (auto simp: complete_mfa_login_def)
  next
    case us: (Some w)
    have w: "us_id w = u" using user_by_id_in [OF us] by simp
    show ?thesis
    proof (cases "us_status w \<noteq> ''active'' \<or> \<not> us_mfa_enabled w")
      case True
      then show ?thesis using assms(1) p us by (auto simp: complete_mfa_login_def)
    next
      case act: False
      show ?thesis
      proof (cases "assert_not_locked env now u db")
        case (Inl e')
        then have "e = AuthErr 429 ''Too many MFA attempts; try again later''"
          using assms(1) p us act w by (auto simp: complete_mfa_login_def assert_not_locked_def split: if_splits)
        then show ?thesis using assms(1) p us act w Inl by (auto simp: complete_mfa_login_def)
      next
        case nl: (Inr x)
        then have few: "failure_count now db u = 0 \<or> failure_count now db u < av_mfa_max_attempts env"
          using up by (auto simp: assert_not_locked_def split: if_splits)
        show ?thesis
        proof (cases "second_factor env now w code db")
          case None
          then show ?thesis using assms(1) p us act w nl nocrash by (auto simp: complete_mfa_login_def)
        next
          case sf: (Some bd)
          obtain b db1 where bd: "bd = (b, db1)" by (cases bd)
          show ?thesis
          proof (cases b)
            case False
            then show ?thesis using assms(1) p us act w nl sf bd few by (auto simp: complete_mfa_login_def)
          next
            case True
            then have "\<exists>c. e = AuthCrash c" using assms(1) p us act w nl sf bd
              by (auto simp: complete_mfa_login_def Let_def issue_token_pair_def split: if_splits)
            then show ?thesis using nocrash by blast
          qed
        qed
      qed
    qed
  qed
qed

definition all_refused :: "(auth_error + string \<times> string) list \<Rightarrow> bool" where
  "all_refused rs = list_all (\<lambda>r. case r of Inl (AuthErr c m) \<Rightarrow> True | _ \<Rightarrow> False) rs"

text \<open>The attempts of a window no longer than the lockout, all for one user, while Redis answers.\<close>

definition guesses_within ::
  "auth_env \<Rightarrow> uuid \<Rightarrow> time \<Rightarrow> (time \<times> string \<times> string \<times> string) list \<Rightarrow> bool" where
  "guesses_within env u t0 as =
     list_all (\<lambda>(now, raw, token, code). t0 \<le> now \<and> now < t0 + av_mfa_lockout env \<and> av_redis_up env now
        \<and> map_option cl_sub (decode_mfa_challenge_token env now token) = Some u) as"

lemma attempts_after_failure:
  assumes "guesses_within env u t0 as" and "all_refused (fst (mfa_attempts env as db))"
    and "ad_failures db u = Some (n, e)" and "t0 + av_mfa_lockout env \<le> e" and "n \<noteq> 0"
  shows "evaluated (fst (mfa_attempts env as db)) \<le> av_mfa_max_attempts env - n"
  using assms
proof (induction as arbitrary: db n e)
  case (Cons a as)
  obtain now raw token code where a: "a = (now, raw, token, code)" by (cases a)
  obtain r db1 where r: "complete_mfa_login env now raw token code db = (r, db1)" by force
  obtain rs db2 where rs: "mfa_attempts env as db1 = (rs, db2)" by force
  have run: "fst (mfa_attempts env (a # as) db) = r # rs" by (simp add: a r rs)
  from Cons.prems(1) have w: "t0 \<le> now" "now < t0 + av_mfa_lockout env" "av_redis_up env now"
    "map_option cl_sub (decode_mfa_challenge_token env now token) = Some u" "guesses_within env u t0 as"
    by (auto simp: guesses_within_def a)
  from Cons.prems(2) obtain c m where e: "r = Inl (AuthErr c m)" and rest: "all_refused rs"
    unfolding run by (auto simp: all_refused_def split: sum.splits auth_error.splits)
  have fc: "failure_count now db u = n" using Cons.prems(3,4) w(2) by (simp add: failure_count_def)
  from failed_attempt [OF r [unfolded e] w(3,4)]
  consider "r \<noteq> Inl (AuthErr 401 ''Invalid MFA code'')" "db1 = db"
    | "r = Inl (AuthErr 401 ''Invalid MFA code'')" "db1 = record_failure env now u db" "n < av_mfa_max_attempts env"
    using fc Cons.prems(5) e by auto
  then show ?case
  proof cases
    case 1
    then have "evaluated rs \<le> av_mfa_max_attempts env - n"
      using Cons.IH [OF w(5), of db n e] Cons.prems(3-5) rest rs by simp
    then show ?thesis unfolding run using 1 by simp
  next
    case 2
    then have "ad_failures db1 u = Some (Suc n, now + av_mfa_lockout env)"
      using w(3) fc by (simp add: record_failure_def)
    then have "evaluated rs \<le> av_mfa_max_attempts env - Suc n"
      using Cons.IH [OF w(5), of db1] rest rs w(1) by simp
    then show ?thesis unfolding run using 2 by simp
  qed
qed simp

end
