(* ===== verification/Auth_Properties.thy ===== *)
theory Auth_Properties
  imports Token_Families
begin

text \<open>
  What authentication and access control promise: sessions, second factors, recovery codes, lockout, API
  keys, erasure, workspace access and ownership.
\<close>

section \<open>A concrete deployment, for the witnesses\<close>

definition toy_env :: auth_env where
  "toy_env = \<lparr>av_same_text = (\<lambda>a b. py_lower a = py_lower b), av_hashpw = (\<lambda>salt p. salt @ p),
     av_checkpw = (\<lambda>p h. Some (h = ''s'' @ p)), av_sha256 = id, av_encrypt = id, av_decrypt = Some,
     av_totp = (\<lambda>secret code w now. Some (code = secret)), av_jwt_encode = (\<lambda>c. cl_type c),
     av_jwt_decode = (\<lambda>now s. if s = ''m'' then Some \<lparr>cl_sub = 9, cl_type = ''mfa'', cl_iat = 0, cl_exp = 9\<rparr>
        else if s = ''a'' then Some \<lparr>cl_sub = 9, cl_type = ''access'', cl_iat = 0, cl_exp = 9\<rparr> else None),
     av_redis_up = (\<lambda>_. True), av_access_ttl = 5, av_refresh_ttl = 100, av_mfa_challenge_ttl = 5,
     av_mfa_max_attempts = 2, av_mfa_lockout = 50\<rparr>"

definition toy_user :: "bool \<Rightarrow> user" where
  "toy_user mfa = \<lparr>us_id = 9, us_email = ''e'', us_password_hash = ''sp'', us_full_name = ''n'', us_mfa_enabled = mfa,
     us_mfa_secret_encrypted = (if mfa then Some ''123'' else None), us_mfa_enabled_at = None, us_status = ''active'',
     us_last_login_at = None\<rparr>"

definition toy_auth :: "bool \<Rightarrow> refresh_token list \<Rightarrow> auth_db" where
  "toy_auth mfa ts = \<lparr>ad_users = [toy_user mfa], ad_tokens = ts,
     ad_codes = (if mfa then [\<lparr>rc_user_id = 9, rc_code_hash = ''c'', rc_used_at = None\<rparr>] else []),
     ad_keys = [\<lparr>ak_id = 2, ak_workspace_id = 7, ak_created_by = 9, ak_name = ''k'', ak_prefix = ''mbsk_k'', ak_key_hash = ''mbsk_k'',
       ak_revoked = False, ak_last_used_at = None\<rparr>], ad_failures = (\<lambda>_. None), ad_next = 500\<rparr>"

definition toy_token :: "uuid \<Rightarrow> string \<Rightarrow> time option \<Rightarrow> uuid option \<Rightarrow> refresh_token" where
  "toy_token i h revoked by = \<lparr>rt_id = i, rt_user_id = 9, rt_token_hash = h, rt_expires_at = 100, rt_revoked_at = revoked,
     rt_replaced_by_id = by\<rparr>"

definition toy_system :: "bool \<Rightarrow> refresh_token list \<Rightarrow> auth_system" where
  "toy_system mfa ts = \<lparr>as_db = toy_auth mfa ts, as_issued = insert ''mbsk_k'' (insert ''c'' (rt_token_hash ` set ts))\<rparr>"

lemmas toy_defs = toy_env_def toy_user_def toy_auth_def toy_token_def toy_system_def

lemma toy_inv:
  "auth_inv (toy_system mfa [])" "auth_inv (toy_system mfa [toy_token 3 ''r'' None None])"
  by (auto simp: toy_defs auth_inv_def users_ok_def tokens_ok_def codes_ok_def keys_ok_def typed_user_def link_ok_def
      unique_key_def holds_nothing_def)

section \<open>Sessions\<close>

lemma revoked_rotation_fails:
  assumes "auth_inv s" and "spent_token (hash_refresh_token env raw) s"
  shows "fst (rotate_refresh_token env now new_raw raw (as_db s)) = Inl (AuthErr 401 ''Invalid or expired refresh token'')"
proof (cases "token_by_hash (hash_refresh_token env raw) (as_db s)")
  case None
  then show ?thesis by (simp add: rotate_refresh_token_def rotate_reads_def)
next
  case (Some t)
  then have "t \<in> set (ad_tokens (as_db s))" "rt_token_hash t = hash_refresh_token env raw"
    using find_row_Some by (fastforce simp: token_by_hash_def)+
  then have "rt_revoked_at t \<noteq> None" using assms(2) by (auto simp: spent_token_def live_token_def)
  then show ?thesis using Some by (simp add: rotate_refresh_token_def rotate_reads_def)
qed

text \<open>
  C11: A refresh token works once. After it was exchanged, whatever requests follow, presenting it again is refused
  with the error of an unknown token.
\<close>
theorem refresh_token_works_once:
  assumes "auth_inv s" and "hash_refresh_token env new_raw \<notin> as_issued s"
    and "rotate_refresh_token env now new_raw raw (as_db s) = (Inr pair, db)"
    and "(auth_step env)\<^sup>*\<^sup>* (s\<lparr>as_db := db, as_issued := insert (hash_refresh_token env new_raw) (as_issued s)\<rparr>) s'"
  shows "fst (rotate_refresh_token env now' new_raw' raw (as_db s')) =
    Inl (AuthErr 401 ''Invalid or expired refresh token'')"
proof -
  let ?s1 = "s\<lparr>as_db := db, as_issued := insert (hash_refresh_token env new_raw) (as_issued s)\<rparr>"
  have step: "auth_write\<^sup>*\<^sup>* s ?s1" by (rule refresh_writes [OF assms(1,2,3)])
  have inv1: "auth_inv ?s1" by (rule writes_inv [OF step assms(1)])
  obtain t where rd: "rotate_reads env now raw (as_db s) = (Inr t, as_db s)"
    and wr: "rotate_writes env now new_raw t (as_db s) = (Inr pair, db)"
    using assms(3) rotate_reads_Inr(1)
    by (fastforce simp: rotate_refresh_token_def split: prod.splits sum.splits)
  note t = rotate_reads_Inr [OF rd]
  have hash: "hash_refresh_token env raw \<in> as_issued s" "hash_refresh_token env new_raw \<noteq> hash_refresh_token env raw"
    using assms(1,2) t(2,3) by (auto simp: auth_inv_def tokens_ok_def)
  have "x = t" if "x \<in> set (ad_tokens (as_db s))" "rt_token_hash x = hash_refresh_token env raw" for x
    using unique_key_eq [OF auth_invD(3) [OF assms(1)] that(1) t(2)] that(2) t(3) by simp
  then have "\<not> live_token (hash_refresh_token env raw) db"
    using wr hash(2) by (auto simp: live_token_def rotate_writes_def Let_def add_token_def new_refresh_token_def
        set_update_where split: if_splits)
  then have "spent_token (hash_refresh_token env raw) ?s1" using hash(1) by (simp add: spent_token_def)
  then have "spent_token (hash_refresh_token env raw) s'"
    using writes_spent_token auth_run_writes [OF assms(4) inv1] by blast
  then show ?thesis using revoked_rotation_fails auth_run_inv [OF assms(4) inv1] by blast
qed

theorem refresh_token_works_once_witness:
  "fst (rotate_refresh_token toy_env 11 ''x'' ''r'' (snd (rotate_refresh_token toy_env 10 ''n'' ''r'' (toy_auth False [toy_token 3 ''r'' None None])))) =
    Inl (AuthErr 401 ''Invalid or expired refresh token'')"
proof -
  let ?s = "toy_system False [toy_token 3 ''r'' None None]"
  obtain p db where r: "rotate_refresh_token toy_env 10 ''n'' ''r'' (as_db ?s) = (Inr p, db)"
    by (simp add: toy_defs rotate_refresh_token_def rotate_reads_def rotate_writes_def token_by_hash_def
        hash_refresh_token_def find_row_def user_by_id_def hash_taken_def Let_def)
  have "hash_refresh_token toy_env ''n'' \<notin> as_issued ?s" by (simp add: toy_defs hash_refresh_token_def)
  from refresh_token_works_once [OF toy_inv(2) this r rtranclp.rtrancl_refl, of 11 "''x''"] r
  show ?thesis by (simp add: toy_system_def)
qed

text \<open>
  A replayed refresh token takes its descendants down: after an exchanged token is presented again, no token
  within \<open>_MAX_FAMILY_HOPS\<close> exchanges of it is live, every other session is untouched, and no session is opened.
\<close>

theorem replay_revokes_family:
  assumes "auth_inv s" and "t \<in> set (ad_tokens (as_db s))" and "rt_token_hash t = hash_refresh_token env raw"
    and "rt_revoked_at t \<noteq> None"
  shows "rotate_refresh_token env now new_raw raw (as_db s) =
    (Inl (AuthErr 401 ''Invalid or expired refresh token''),
     (as_db s)\<lparr>ad_tokens := map (\<lambda>x. if rt_revoked_at x = None \<and> in_family MAX_FAMILY_HOPS (ad_tokens (as_db s)) (rt_id t) x
        then x\<lparr>rt_revoked_at := Some now\<rparr> else x) (ad_tokens (as_db s))\<rparr>)"
proof -
  have lf: "links_forward (ad_tokens (as_db s))" using assms(1) tokens_ok_links by (simp add: auth_inv_def)
  have "token_by_hash (hash_refresh_token env raw) (as_db s) = Some t"
    using find_row_key [OF auth_invD(3) [OF assms(1)] assms(2)] assms(3) by (simp add: token_by_hash_def)
  then show ?thesis using revoke_token_family_exact [OF lf assms(2), of "[]" MAX_FAMILY_HOPS now] assms(4)
    by (simp add: rotate_refresh_token_def rotate_reads_def update_where_def)
qed

definition toy_family :: "refresh_token list" where
  "toy_family = [toy_token 3 ''r'' (Some 1) (Some 4), toy_token 4 ''n'' None None]"

theorem replay_revokes_family_witness:
  "rotate_refresh_token toy_env 10 ''x'' ''r'' (toy_auth False toy_family) =
    (Inl (AuthErr 401 ''Invalid or expired refresh token''),
     (toy_auth False toy_family)\<lparr>ad_tokens := map (\<lambda>x. if rt_revoked_at x = None \<and> in_family MAX_FAMILY_HOPS toy_family 3 x
        then x\<lparr>rt_revoked_at := Some 10\<rparr> else x) toy_family\<rparr>)"
proof -
  have "auth_inv (toy_system False toy_family)"
    by (auto simp: toy_family_def toy_defs auth_inv_def users_ok_def tokens_ok_def codes_ok_def keys_ok_def typed_user_def
        link_ok_def unique_key_def holds_nothing_def)
  from replay_revokes_family [OF this, of "toy_token 3 ''r'' (Some 1) (Some 4)" toy_env "''r''" 10 "''x''"]
  show ?thesis by (simp add: toy_system_def toy_auth_def) (simp add: toy_family_def toy_token_def hash_refresh_token_def toy_env_def)
qed

text \<open>
  The bound is a hole for a long session: a token that is exactly \<open>_MAX_FAMILY_HOPS\<close> exchanges away from the
  replayed one survives the replay, and can be exchanged afterwards.
\<close>

theorem long_family_survives_replay:
  assumes "auth_inv s" and "t \<in> set (ad_tokens (as_db s))" and "rt_token_hash t = hash_refresh_token env raw"
    and "rt_revoked_at t \<noteq> None"
    and "x \<in> set (ad_tokens (as_db s))" and "descendant MAX_FAMILY_HOPS (ad_tokens (as_db s)) (rt_id t) = Some (rt_id x)"
    and "rt_token_hash x = hash_refresh_token env raw_x" and "rt_revoked_at x = None" and "later \<le> rt_expires_at x"
    and "active_user (rt_user_id x) (as_db s)"
  shows "rotate_reads env later raw_x (snd (rotate_refresh_token env now new_raw raw (as_db s))) =
    (Inr x, snd (rotate_refresh_token env now new_raw raw (as_db s)))"
proof -
  let ?ts = "ad_tokens (as_db s)"
  have lf: "links_forward ?ts" using assms(1) tokens_ok_links by (simp add: auth_inv_def)
  have tb: "token_by_hash (hash_refresh_token env raw) (as_db s) = Some t"
    using find_row_key [OF auth_invD(3) [OF assms(1)] assms(2)] assms(3) by (simp add: token_by_hash_def)
  have notin: "\<not> in_family MAX_FAMILY_HOPS ?ts (rt_id t) x"
    using descendant_inj [OF lf _ assms(6)] by (auto simp: in_family_def)
  let ?P = "\<lambda>x. rt_revoked_at x = None \<and> in_family MAX_FAMILY_HOPS ?ts (rt_id t) x"
  have db: "snd (rotate_refresh_token env now new_raw raw (as_db s)) =
      (as_db s)\<lparr>ad_tokens := update_where ?P (\<lambda>x. x\<lparr>rt_revoked_at := Some now\<rparr>) ?ts\<rparr>"
    using revoke_token_family_exact [OF lf assms(2), of "[]" MAX_FAMILY_HOPS now] tb assms(4)
    by (simp add: rotate_refresh_token_def rotate_reads_def)
  have "find_row (\<lambda>y. rt_token_hash y = hash_refresh_token env raw_x) ?ts = Some x"
    using find_row_key [OF auth_invD(3) [OF assms(1)] assms(5)] assms(7) by simp
  then have "token_by_hash (hash_refresh_token env raw_x) (snd (rotate_refresh_token env now new_raw raw (as_db s))) = Some x"
    unfolding db token_by_hash_def
    using find_row_update_where_key [of ?P rt_token_hash "\<lambda>x. x\<lparr>rt_revoked_at := Some now\<rparr>"] notin by simp
  moreover obtain u where "user_by_id (rt_user_id x) (snd (rotate_refresh_token env now new_raw raw (as_db s))) = Some u"
      "us_status u = ''active''"
    using assms(10) unfolding db by (auto simp: active_user_def user_by_id_def)
  ultimately show ?thesis using assms(8,9) by (simp add: rotate_reads_def)
qed

definition long_chain :: "nat \<Rightarrow> refresh_token list" where
  "long_chain n = map (\<lambda>i. toy_token i (replicate i CHR ''r'') (if i < n then Some 1 else None)
     (if i < n then Some (Suc i) else None)) [0..<Suc n]"

lemma long_chain_descendant: "i + k \<le> n \<Longrightarrow> descendant k (long_chain n) i = Some (i + k)"
proof (induction k arbitrary: i)
  case (Suc k)
  have uniq: "unique_key rt_id (long_chain n)" by (simp add: long_chain_def unique_key_def toy_token_def comp_def)
  have "token_by_id i (long_chain n) = Some (toy_token i (replicate i CHR ''r'') (Some 1) (Some (Suc i)))"
    unfolding token_by_id_def find_row_key_iff [OF uniq] using Suc.prems
    by (auto simp: long_chain_def toy_token_def image_iff intro!: bexI [of _ i])
  then show ?case using Suc.IH [of "Suc i"] Suc.prems by (simp add: next_id_def toy_token_def)
qed simp

lemma long_chain_inv: "n < 500 \<Longrightarrow> auth_inv (toy_system False (long_chain n))"
  by (auto simp: long_chain_def toy_defs auth_inv_def users_ok_def tokens_ok_def codes_ok_def keys_ok_def typed_user_def
      link_ok_def unique_key_def holds_nothing_def comp_def distinct_map inj_on_def)

lemma long_chain_mem:
  "i \<le> n \<Longrightarrow> toy_token i (replicate i CHR ''r'') (if i < n then Some 1 else None) (if i < n then Some (Suc i) else None)
    \<in> set (long_chain n)"
  unfolding long_chain_def set_map by (rule imageI) auto

theorem long_family_survives_replay_witness:
  "fst (rotate_reads toy_env 20 (replicate 100 CHR ''r'')
     (snd (rotate_refresh_token toy_env 10 ''x'' '''' (toy_auth False (long_chain 100))))) =
    Inr (toy_token 100 (replicate 100 CHR ''r'') None None)"
proof -
  let ?s = "toy_system False (long_chain 100)"
  let ?t = "toy_token 0 [] (Some 1) (Some 1)" and ?x = "toy_token 100 (replicate 100 CHR ''r'') None None"
  have t: "?t \<in> set (ad_tokens (as_db ?s))" "?x \<in> set (ad_tokens (as_db ?s))"
    using long_chain_mem [of 0 100] long_chain_mem [of 100 100] by (simp_all add: toy_system_def toy_auth_def)
  have "descendant MAX_FAMILY_HOPS (ad_tokens (as_db ?s)) 0 = Some 100"
    using long_chain_descendant [of 0 100 100] by (simp add: MAX_FAMILY_HOPS_def toy_system_def toy_auth_def)
  with long_family_survives_replay [OF long_chain_inv t(1) _ _ t(2), of toy_env "[]" "replicate 100 CHR ''r''" 20 10 "''x''"]
  show ?thesis
    by (simp add: hash_refresh_token_def active_user_def user_by_id_def find_row_def toy_system_def)
      (simp add: toy_defs)
qed

text \<open>
  Two concurrent exchanges of one refresh token, each of which read it before the other wrote, both succeed:
  two live sessions come out of one token, and a replay of the old token then revokes only one of them.
\<close>

theorem concurrent_refresh_forks:
  assumes "auth_inv s" and "rotate_reads env now raw (as_db s) = (Inr t, as_db s)"
    and "hash_refresh_token env rawa \<notin> as_issued s" and "hash_refresh_token env rawb \<notin> as_issued s"
    and "hash_refresh_token env rawa \<noteq> hash_refresh_token env rawb"
    and "rotate_writes env nowa rawa t (as_db s) = (r1, db1)" and "rotate_writes env nowb rawb t db1 = (r2, db2)"
  shows "is_ok r1 \<and> is_ok r2 \<and> live_token (hash_refresh_token env rawa) db2 \<and> live_token (hash_refresh_token env rawb) db2
    \<and> live_token (hash_refresh_token env rawa) (snd (rotate_refresh_token env nowc rawc raw db2))"
proof -
  note rd = rotate_reads_Inr [OF assms(2)]
  let ?n1 = "new_refresh_token env nowa rawa (rt_user_id t) (as_db s)"
  let ?h1 = "hash_refresh_token env rawa" and ?h2 = "hash_refresh_token env rawb" and ?h = "hash_refresh_token env raw"
  let ?mark = "\<lambda>now j x. if rt_id x = rt_id t then x\<lparr>rt_revoked_at := Some now, rt_replaced_by_id := Some j\<rparr> else x"
  let ?ts = "ad_tokens (as_db s)" and ?i = "ad_next (as_db s)"
  have ids: "\<And>x. x \<in> set ?ts \<Longrightarrow> rt_id x < ?i" and hs: "\<And>x. x \<in> set ?ts \<Longrightarrow> rt_token_hash x \<in> as_issued s"
    using assms(1) by (auto simp: auth_inv_def tokens_ok_def)
  have nt: "rt_id t \<noteq> ?i" "rt_id t \<noteq> Suc ?i" using ids [OF rd(2)] by auto
  have free1: "\<not> hash_taken ?h1 (as_db s)" using hs assms(3) by (metis (mono_tags, lifting) hash_taken_def list_ex_iff)
  have r1: "is_ok r1" and db1: "db1 = (as_db s)\<lparr>ad_tokens := map (?mark nowa ?i) ?ts @ [?n1], ad_next := Suc ?i\<rparr>"
    using assms(6) free1 nt by (auto simp: rotate_writes_def Let_def add_token_def new_refresh_token_def update_where_def)
  let ?n2 = "new_refresh_token env nowb rawb (rt_user_id t) db1"
  have "rt_token_hash x \<noteq> ?h2" if "x \<in> set ?ts" for x using hs [OF that] assms(4) by auto
  then have free2: "\<not> hash_taken ?h2 db1" using assms(5)
    by (auto simp: hash_taken_def list_ex_iff db1 new_refresh_token_def)
  let ?ts2 = "map (?mark nowb (Suc ?i)) (map (?mark nowa ?i) ?ts) @ [?n1, ?n2]"
  have r2: "is_ok r2" and db2: "db2 = db1\<lparr>ad_tokens := ?ts2, ad_next := Suc (Suc ?i)\<rparr>"
    using assms(7) free2 nt by (auto simp: rotate_writes_def Let_def add_token_def new_refresh_token_def update_where_def db1)
  have live: "live_token ?h1 db2" "live_token ?h2 db2"
    by (auto simp: live_token_def db2 new_refresh_token_def)
  \<comment> \<open>the second write has replaced the link to the first child\<close>
  have uniq: "unique_key rt_id ?ts" using auth_invD(2) [OF assms(1)] .
  have lf: "links_forward ?ts2"
  proof -
    have "map rt_id ?ts2 = map rt_id ?ts @ [?i, Suc ?i]" by (auto simp: new_refresh_token_def db1)
    moreover have "distinct (map rt_id ?ts @ [?i, Suc ?i])" using uniq by (auto simp: unique_key_def dest!: ids)
    ultimately have "unique_key rt_id ?ts2" by (simp only: unique_key_def)
    moreover have "links_forward ?ts" using assms(1) tokens_ok_links by (simp add: auth_inv_def)
    ultimately show ?thesis using ids [OF rd(2)]
      by (auto simp: links_forward_def new_refresh_token_def split: option.splits)
  qed
  have t2: "?mark nowb (Suc ?i) (?mark nowa ?i t) \<in> set ?ts2" using rd(2) by auto
  have "token_by_id (rt_id t) ?ts2 = Some (?mark nowb (Suc ?i) (?mark nowa ?i t))"
    using token_by_id_iff [OF lf] t2 by simp
  then have n1: "next_id ?ts2 (rt_id t) = Some (Suc ?i)" by (simp add: next_id_def)
  have "token_by_id (Suc ?i) ?ts2 = Some ?n2"
    using token_by_id_iff [OF lf, of "Suc ?i" ?n2] by (simp add: new_refresh_token_def db1)
  then have n2: "next_id ?ts2 (Suc ?i) = None" by (simp add: next_id_def new_refresh_token_def)
  have out: "\<not> in_family n ?ts2 (rt_id t) ?n1" for n
    using n1 n2 nt by (cases n; cases "n - 1") (auto simp: in_family_Suc in_family_def [of 0] new_refresh_token_def)
  have hash2: "unique_key rt_token_hash ?ts2"
  proof -
    have "map rt_token_hash ?ts2 = map rt_token_hash ?ts @ [?h1, ?h2]" by (auto simp: new_refresh_token_def)
    moreover have "distinct (map rt_token_hash ?ts @ [?h1, ?h2])"
      using auth_invD(3) [OF assms(1)] assms(3-5) by (auto simp: unique_key_def dest!: hs)
    ultimately show ?thesis by (simp only: unique_key_def)
  qed
  have "token_by_hash ?h db2 = Some (?mark nowb (Suc ?i) (?mark nowa ?i t))"
    using find_row_key [OF hash2 t2] rd(3) by (simp add: token_by_hash_def db2)
  then have "ad_tokens (snd (rotate_refresh_token env nowc rawc raw db2)) =
      update_where (\<lambda>x. rt_revoked_at x = None \<and> in_family MAX_FAMILY_HOPS ?ts2 (rt_id t) x)
        (\<lambda>x. x\<lparr>rt_revoked_at := Some nowc\<rparr>) ?ts2"
    using revoke_token_family_exact [OF lf t2, of "[]" MAX_FAMILY_HOPS nowc]
    by (simp add: rotate_refresh_token_def rotate_reads_def db2)
  moreover have "?n1 \<in> set ?ts2" by simp
  ultimately have "?n1 \<in> set (ad_tokens (snd (rotate_refresh_token env nowc rawc raw db2)))"
    using out by (auto simp: set_update_where image_iff)
  then have "live_token ?h1 (snd (rotate_refresh_token env nowc rawc raw db2))"
    unfolding live_token_def by (rule bexI [rotated]) (simp add: new_refresh_token_def)
  with live r1 r2 show ?thesis by simp
qed

theorem concurrent_refresh_forks_witness:
  "let db1 = snd (rotate_writes toy_env 10 ''x'' (toy_token 3 ''r'' None None) (toy_auth False [toy_token 3 ''r'' None None]));
       db2 = snd (rotate_writes toy_env 11 ''y'' (toy_token 3 ''r'' None None) db1)
   in live_token ''x'' db2 \<and> live_token ''y'' db2 \<and> live_token ''x'' (snd (rotate_refresh_token toy_env 12 ''z'' ''r'' db2))"
proof -
  let ?s = "toy_system False [toy_token 3 ''r'' None None]"
  have "rotate_reads toy_env 9 ''r'' (as_db ?s) = (Inr (toy_token 3 ''r'' None None), as_db ?s)"
    by (simp add: toy_defs rotate_reads_def token_by_hash_def hash_refresh_token_def find_row_def user_by_id_def)
  moreover have "hash_refresh_token toy_env ''x'' \<notin> as_issued ?s" "hash_refresh_token toy_env ''y'' \<notin> as_issued ?s"
    "hash_refresh_token toy_env ''x'' \<noteq> hash_refresh_token toy_env ''y''"
    by (simp_all add: toy_defs hash_refresh_token_def)
  ultimately show ?thesis
    using concurrent_refresh_forks [OF toy_inv(2), where env = toy_env and now = 9 and raw = "''r''"
        and t = "toy_token 3 ''r'' None None" and rawa = "''x''" and rawb = "''y''" and nowa = 10 and nowb = 11
        and nowc = 12 and rawc = "''z''"]
    by (simp add: Let_def prod_eq_iff toy_system_def hash_refresh_token_def) (simp add: toy_env_def)
qed

section \<open>Second factors\<close>






lemma revoke_at_hashes [simp]: "rt_token_hash ` set (revoke_at now i ts) = rt_token_hash ` set ts"
  unfolding revoke_at_def set_update_where image_image by (intro image_cong) auto





text \<open>
  A recovery code works once. After a request of the account's owner redeemed it, whatever requests follow,
  no account can redeem it again.
\<close>

theorem recovery_code_works_once:
  assumes "auth_inv s" and "consume_recovery_code env now u code (as_db s) = (True, db)"
    and "(auth_step env)\<^sup>*\<^sup>* (s\<lparr>as_db := db\<rparr>) s'"
  shows "consume_recovery_code env now' v code (as_db s') = (False, as_db s')"
proof -
  let ?h = "hash_recovery_code env code" and ?s1 = "s\<lparr>as_db := db\<rparr>"
  have w: "auth_write\<^sup>*\<^sup>* s ?s1" by (rule consume_writes [OF assms(2)])
  have inv1: "auth_inv ?s1" by (rule writes_inv [OF w assms(1)])
  let ?P = "\<lambda>r. rc_user_id r = u \<and> rc_code_hash r = ?h \<and> rc_used_at r = None"
  obtain c where c: "c \<in> set (ad_codes (as_db s))" "rc_user_id c = u" "rc_code_hash c = ?h"
    using assms(2) by (auto simp: consume_recovery_code_def Let_def list_ex_iff split: if_splits)
  have db: "ad_codes db = update_where ?P (\<lambda>r. r\<lparr>rc_used_at := Some now\<rparr>) (ad_codes (as_db s))"
    using assms(2) by (auto simp: consume_recovery_code_def Let_def split: if_splits)
  have only: "x = c" if "x \<in> set (ad_codes (as_db s))" "rc_code_hash x = ?h" for x
    using unique_key_eq [OF auth_invD(6) [OF assms(1)] that(1) c(1)] that(2) c(3) by simp
  have "\<not> live_code ?h db"
  proof
    assume "live_code ?h db"
    then obtain x where x: "x \<in> set (ad_codes (as_db s))" "rc_code_hash x = ?h"
      "rc_used_at (if ?P x then x\<lparr>rc_used_at := Some now\<rparr> else x) = None"
      unfolding live_code_def db set_update_where by (fastforce split: if_splits)
    from only [OF x(1,2)] c have "?P x \<or> rc_used_at x \<noteq> None" by auto
    with x(3) show False by auto
  qed
  moreover have "?h \<in> as_issued s" using assms(1) c by (auto simp: auth_inv_def codes_ok_def)
  ultimately have "spent_code ?h s'"
    using writes_spent_code [OF auth_run_writes [OF assms(3) inv1], of ?h] by (simp add: spent_code_def)
  then show ?thesis by (auto simp: consume_recovery_code_def list_ex_iff spent_code_def live_code_def)
qed

theorem recovery_code_works_once_witness:
  "fst (consume_recovery_code toy_env 5 9 ''C'' (toy_auth True [])) \<and>
   \<not> fst (consume_recovery_code toy_env 6 9 ''c'' (snd (consume_recovery_code toy_env 5 9 ''c'' (toy_auth True []))))"
proof -
  have h: "hash_recovery_code toy_env ''C'' = ''c''" "hash_recovery_code toy_env ''c'' = ''c''"
    by code_simp+
  obtain db where r: "consume_recovery_code toy_env 5 9 ''c'' (as_db (toy_system True [])) = (True, db)"
    by (simp add: consume_recovery_code_def h) (simp add: toy_defs)
  have inv: "auth_inv (toy_system True [])"
    by (auto simp: toy_defs auth_inv_def users_ok_def tokens_ok_def codes_ok_def keys_ok_def typed_user_def
        unique_key_def holds_nothing_def)
  from recovery_code_works_once [OF inv r rtranclp.rtrancl_refl, of 6 9] r
  show ?thesis by (simp add: toy_system_def) (simp add: consume_recovery_code_def h toy_auth_def)
qed



text \<open>
  The lockout does not cover disabling the second factor: a caller who holds a session and the password may guess
  without limit, also while the account is locked out, and one right code then removes the second factor.
\<close>

theorem disable_mfa_ignores_lockout:
  assumes "us_mfa_enabled u" and "verify_password env password (us_password_hash u)"
    and "\<forall>code \<in> set wrong. second_factor env now u code db = Some (False, db)"
    and "second_factor env now u right db = Some (True, db1)"
    and "assert_not_locked env now (us_id u) db = Inl e"
  shows "map (\<lambda>code. disable_mfa env now u password code db) wrong =
      map (\<lambda>code. (Inl (AuthErr 401 ''Invalid MFA code''), db)) wrong \<and>
    fst (disable_mfa env now u password right (foldl (\<lambda>d code. snd (disable_mfa env now u password code d)) db wrong)) = Inr ()"
proof -
  have one: "disable_mfa env now u password code db = (Inl (AuthErr 401 ''Invalid MFA code''), db)" if "code \<in> set wrong" for code
    using that assms(1-3) by (simp add: disable_mfa_def)
  then have "foldl (\<lambda>d code. snd (disable_mfa env now u password code d)) db cs = db" if "set cs \<subseteq> set wrong" for cs
    using that by (induction cs) auto
  then show ?thesis using one assms(1,2,4) by (simp add: disable_mfa_def)
qed

definition locked_auth :: auth_db where
  "locked_auth = (toy_auth True [])\<lparr>ad_failures := (\<lambda>_. Some (2, 50))\<rparr>"

theorem disable_mfa_ignores_lockout_witness:
  "fst (disable_mfa toy_env 5 (toy_user True) ''p'' ''123''
     (foldl (\<lambda>d code. snd (disable_mfa toy_env 5 (toy_user True) ''p'' code d)) locked_auth [''1'', ''2'', ''3''])) = Inr ()"
proof -
  have t: "\<not> verify_totp toy_env 5 ''123'' ''1''" "\<not> verify_totp toy_env 5 ''123'' ''2''" "\<not> verify_totp toy_env 5 ''123'' ''3''"
    "verify_totp toy_env 5 ''123'' ''123''" by code_simp+
  have h: "hash_recovery_code toy_env ''1'' = ''1''" "hash_recovery_code toy_env ''2'' = ''2''"
    "hash_recovery_code toy_env ''3'' = ''3''" by code_simp+
  have d: "us_mfa_secret_encrypted (toy_user True) = Some ''123''" "av_decrypt toy_env ''123'' = Some ''123''"
    "us_id (toy_user True) = 9" "ad_codes locked_auth = [\<lparr>rc_user_id = 9, rc_code_hash = ''c'', rc_used_at = None\<rparr>]"
    by (simp_all add: toy_user_def toy_env_def locked_auth_def toy_auth_def)
  have w: "\<forall>code \<in> set [''1'', ''2'', ''3'']. second_factor toy_env 5 (toy_user True) code locked_auth = Some (False, locked_auth)"
    by (simp add: second_factor_def consume_recovery_code_def d t h)
  have r: "second_factor toy_env 5 (toy_user True) ''123'' locked_auth = Some (True, locked_auth)"
    by (simp add: second_factor_def d t)
  have l: "assert_not_locked toy_env 5 (us_id (toy_user True)) locked_auth = Inl (AuthErr 429 ''Too many MFA attempts; try again later'')"
    by (simp add: assert_not_locked_def failure_count_def locked_auth_def) (simp add: toy_defs)
  have "us_mfa_enabled (toy_user True)" "verify_password toy_env ''p'' (us_password_hash (toy_user True))"
    by (simp_all add: toy_defs verify_password_def pw_bytes_def BCRYPT_MAX_BYTES_def)
  from disable_mfa_ignores_lockout [OF this w r l] show ?thesis by (rule conjunct2)
qed

end
