(* ===== verification/Access_Properties.thy ===== *)
theory Access_Properties
  imports Auth_Properties
begin

text \<open>
  What accounts and workspaces promise: what it takes to reach an endpoint, what is left of an erased account, dead API
  keys, and that a workspace has an owner.
\<close>

section \<open>Accounts\<close>

definition no_accounts :: auth_system where
  "no_accounts = \<lparr>as_db = \<lparr>ad_users = [], ad_tokens = [], ad_codes = [], ad_keys = [], ad_failures = (\<lambda>_. None), ad_next = 0\<rparr>,
     as_issued = {}\<rparr>"

lemma no_accounts_inv: "auth_inv no_accounts"
  by (simp add: no_accounts_def auth_inv_def users_ok_def tokens_ok_def codes_ok_def keys_ok_def unique_key_def)

text \<open>
  C13: From an empty platform, after any requests: accounts, sessions, recovery codes and keys have unique ids and hashes;
  an exchanged token is revoked and its successor is younger; an account that is not active is deleted, has no second
  factor, no session, no recovery code and no usable key; and a second factor always has a secret.
\<close>
theorem auth_tables_consistent:
  assumes "(auth_step env)\<^sup>*\<^sup>* no_accounts s"
  shows "auth_inv s"
  using auth_run_inv [OF assms no_accounts_inv] .

theorem auth_tables_consistent_witness:
  "auth_inv (no_accounts\<lparr>as_db := snd (register_user toy_env ''s'' ''e'' ''p'' ''n'' (as_db no_accounts))\<rparr>)"
proof (rule auth_tables_consistent [of toy_env])
  show "(auth_step toy_env)\<^sup>*\<^sup>* no_accounts
      (no_accounts\<lparr>as_db := snd (register_user toy_env ''s'' ''e'' ''p'' ''n'' (as_db no_accounts))\<rparr>)"
    by (rule r_into_rtranclp, rule auth_step.register) (rule prod.collapse [symmetric])
qed

lemma update_where_const: "v \<in> set vs \<Longrightarrow> P v \<Longrightarrow> c \<in> set (update_where P (\<lambda>_. c) vs)"
  by (force simp: set_update_where)

lemma inactive_unique:
  assumes "users_ok db" and "inactive i db" and "w \<in> set (ad_users db)" and "us_status w = ''active''"
  shows "us_id w \<noteq> i"
proof
  assume "us_id w = i"
  moreover obtain v where "v \<in> set (ad_users db)" "us_id v = i" "us_status v \<noteq> ''active''"
    using assms(2) by (auto simp: inactive_def)
  ultimately have "v = w" using unique_key_eq [of us_id] assms(1,3) by (auto simp: users_ok_def)
  then show False using assms(4) \<open>us_status v \<noteq> ''active''\<close> by simp
qed

text \<open>
  C16: Erasure is final. Once an account was erased, whatever requests follow, no password, refresh token, second factor,
  access token or API key gets anyone in as this account, and it holds no session, recovery code or usable key.
\<close>
theorem erased_account_is_locked_out:
  assumes "auth_inv s" and "signed_in u (as_db s)"
    and "erase_user env salt random tombstone u password (as_db s) = (Inr (), db)"
    and "(auth_step env)\<^sup>*\<^sup>* (s\<lparr>as_db := db\<rparr>) s'"
  shows "holds_nothing (us_id u) (as_db s')
    \<and> (\<forall>email pw w. authenticate_user env email pw (as_db s') = Inr w \<longrightarrow> us_id w \<noteq> us_id u)
    \<and> (\<forall>now raw t d. rotate_reads env now raw (as_db s') = (Inr t, d) \<longrightarrow> rt_user_id t \<noteq> us_id u)
    \<and> (\<forall>now raw token code p d c. complete_mfa_login env now raw token code (as_db s') = (Inr p, d)
         \<longrightarrow> decode_mfa_challenge_token env now token = Some c \<longrightarrow> cl_sub c \<noteq> us_id u)
    \<and> (\<forall>now cred w kw d. get_current_user env now cred (as_db s') = (Inr (w, kw), d) \<longrightarrow> us_id w \<noteq> us_id u)"
proof -
  let ?s1 = "s\<lparr>as_db := db\<rparr>"
  have w1: "auth_write\<^sup>*\<^sup>* s ?s1" by (rule erase_writes [OF assms(1,2,3)])
  have inv1: "auth_inv ?s1" by (rule writes_inv [OF w1 assms(1)])
  have "inactive (us_id u) db"
  proof -
    let ?u = "u\<lparr>us_email := ''deleted+'' @ tombstone (us_id u) @ ''@deleted.invalid'', us_full_name := ''Deleted User'',
      us_password_hash := hash_password env salt random, us_mfa_enabled := False,
      us_mfa_secret_encrypted := None, us_mfa_enabled_at := None, us_status := ''deleted''\<rparr>"
    have "ad_users db = update_where (\<lambda>r. us_id r = us_id u) (\<lambda>_. ?u) (ad_users (as_db s))"
      using assms(3) by (auto simp: erase_user_def put_user_def split: if_splits)
    then have "?u \<in> set (ad_users db)"
      using update_where_const [OF signed_inD(4) [OF assms(2,1)]] by simp
    then show ?thesis unfolding inactive_def by (rule bexI [rotated]) simp
  qed
  then have ia: "inactive (us_id u) (as_db s')"
    using writes_inactive [OF auth_run_writes [OF assms(4) inv1] inv1, of "us_id u"] by simp
  have ok: "users_ok (as_db s')" using auth_run_inv [OF assms(4) inv1] by (simp add: auth_inv_def)
  note out = inactive_unique [OF ok ia]
  have none: "active_user (us_id u) (as_db s') \<Longrightarrow> False"
    using out ok by (auto simp: active_user_iff users_ok_def)
  have "holds_nothing (us_id u) (as_db s')" using ok ia by (auto simp: users_ok_def inactive_def)
  moreover have "us_id w \<noteq> us_id u" if "authenticate_user env email pw (as_db s') = Inr w" for email pw w
    using that out by (auto simp: authenticate_user_def dest: user_by_email_in split: option.splits if_splits)
  moreover have "rt_user_id t \<noteq> us_id u" if "rotate_reads env now raw (as_db s') = (Inr t, d)" for now raw t d
    using rotate_reads_Inr(6) [OF that] none by auto
  moreover have "cl_sub c \<noteq> us_id u" if "complete_mfa_login env now raw token code (as_db s') = (Inr p, d)"
      "decode_mfa_challenge_token env now token = Some c" for now raw token code p d c
    using that(1)
  proof (cases rule: complete_mfa_login_cases)
    case (session q w db1 pair)
    then show ?thesis using that(2) out user_by_id_in by fastforce
  qed simp
  moreover have "us_id w \<noteq> us_id u" if "get_current_user env now cred (as_db s') = (Inr (w, kw), d)" for now cred w kw d
  proof -
    have "w \<in> set (ad_users (as_db s')) \<and> us_status w = ''active''"
      using that by (auto simp: get_current_user_def authenticate_key_def user_by_id_def
          dest!: find_row_Some split: option.splits if_splits prod.splits)
    then show ?thesis using out by blast
  qed
  ultimately show ?thesis by blast
qed

theorem erased_account_is_locked_out_witness:
  "holds_nothing 9 (snd (erase_user toy_env ''z'' ''q'' (\<lambda>_. ''9'') (toy_user False) ''p'' (toy_auth False [toy_token 3 ''r'' None None])))"
proof -
  let ?s = "toy_system False [toy_token 3 ''r'' None None]"
  have si: "signed_in (toy_user False) (as_db ?s)"
    by (simp add: signed_in_def user_by_id_def find_row_def toy_system_def toy_auth_def toy_user_def)
  have "verify_password toy_env ''p'' (us_password_hash (toy_user False))"
    by (simp add: toy_defs verify_password_def pw_bytes_def BCRYPT_MAX_BYTES_def)
  then obtain db where e: "erase_user toy_env ''z'' ''q'' (\<lambda>_. ''9'') (toy_user False) ''p'' (as_db ?s) = (Inr (), db)"
    by (simp add: erase_user_def)
  from erased_account_is_locked_out [OF toy_inv(2) si e rtranclp.rtrancl_refl] e
  show ?thesis by (simp add: toy_system_def toy_user_def)
qed

text \<open>
  A revoked API key is dead. After it was revoked, whatever requests follow, its secret authenticates nobody.
\<close>

theorem revoked_key_is_dead:
  assumes "auth_inv s" and "k \<in> set (ad_keys (as_db s))" and "ak_key_hash k = av_sha256 env raw"
    and "revoke_key (ak_workspace_id k) (ak_id k) (as_db s) = (r, db)"
    and "(auth_step env)\<^sup>*\<^sup>* (s\<lparr>as_db := db\<rparr>) s'"
  shows "r = Inr () \<and> authenticate_key env now raw (as_db s') = (None, as_db s')"
proof -
  let ?s1 = "s\<lparr>as_db := db\<rparr>"
  have w1: "auth_write\<^sup>*\<^sup>* s ?s1" by (rule revoke_key_writes [OF assms(4)])
  have inv1: "auth_inv ?s1" by (rule writes_inv [OF w1 assms(1)])
  have found: "find_row (\<lambda>x. ak_id x = ak_id k \<and> ak_workspace_id x = ak_workspace_id k) (ad_keys (as_db s)) \<noteq> None"
    using assms(2) by (auto simp: find_row_None)
  then have r: "r = Inr ()" and db: "db = (as_db s)\<lparr>ad_keys := update_where (\<lambda>x. ak_id x = ak_id k \<and> ak_workspace_id x = ak_workspace_id k)
      (\<lambda>k. k\<lparr>ak_revoked := True\<rparr>) (ad_keys (as_db s))\<rparr>"
    using assms(4) by (auto simp: revoke_key_def)
  let ?k1 = "k\<lparr>ak_revoked := True\<rparr>"
  have "?k1 \<in> set (ad_keys (as_db ?s1))"
    using assms(2) by (simp add: db set_update_where) (rule disjI1, rule imageI, simp)?
  with writes_safe [OF auth_run_writes [OF assms(5) inv1] inv1] obtain k' where
    k': "k' \<in> set (ad_keys (as_db s'))" "key_next\<^sup>*\<^sup>* ?k1 k'" using keys.run_row by blast
  have "ak_revoked k' \<and> ak_key_hash k' = ak_key_hash k"
    using k'(2) by (induction rule: rtranclp_induct) (auto simp: key_next_def)
  moreover have "unique_key ak_key_hash (ad_keys (as_db s'))"
    using auth_run_inv [OF assms(5) inv1] auth_invD(5) by blast
  ultimately have "\<not> (ak_key_hash x = av_sha256 env raw \<and> \<not> ak_revoked x)" if "x \<in> set (ad_keys (as_db s'))" for x
    using unique_key_eq [of ak_key_hash _ x k'] that k'(1) assms(3) by auto
  then have "find_row (\<lambda>k. ak_key_hash k = av_sha256 env raw \<and> \<not> ak_revoked k) (ad_keys (as_db s')) = None"
    by (simp add: find_row_None)
  then show ?thesis using r by (simp add: authenticate_key_def)
qed

theorem revoked_key_is_dead_witness:
  "fst (authenticate_key toy_env 5 ''mbsk_k'' (toy_auth False [])) \<noteq> None \<and>
   fst (authenticate_key toy_env 5 ''mbsk_k'' (snd (revoke_key 7 2 (toy_auth False [])))) = None"
proof -
  let ?k = "\<lparr>ak_id = 2, ak_workspace_id = 7, ak_created_by = 9, ak_name = ''k'', ak_prefix = ''mbsk_k'', ak_key_hash = ''mbsk_k'',
       ak_revoked = False, ak_last_used_at = None\<rparr>"
  obtain r db where r: "revoke_key (ak_workspace_id ?k) (ak_id ?k) (as_db (toy_system False [])) = (r, db)" by force
  have "?k \<in> set (ad_keys (as_db (toy_system False [])))" "ak_key_hash ?k = av_sha256 toy_env ''mbsk_k''"
    by (simp_all add: toy_defs)
  from revoked_key_is_dead [OF toy_inv(1) this r rtranclp.rtrancl_refl, of 5] r
  have "fst (authenticate_key toy_env 5 ''mbsk_k'' (snd (revoke_key 7 2 (toy_auth False [])))) = None"
    by (simp add: toy_system_def)
  moreover have "fst (authenticate_key toy_env 5 ''mbsk_k'' (toy_auth False [])) \<noteq> None"
    by (simp add: authenticate_key_def find_row_def toy_auth_def toy_env_def)
  ultimately show ?thesis by simp
qed

section \<open>Workspaces\<close>

text \<open>Whom a credential identifies: an access token its subject; a usable key its creator, for the workspace of the key.\<close>

definition identified :: "auth_env \<Rightarrow> time \<Rightarrow> string \<Rightarrow> auth_db \<Rightarrow> uuid \<Rightarrow> uuid option \<Rightarrow> bool" where
  "identified env now token db u key_ws =
     (if py_startswith token KEY_PREFIX
      then (\<exists>k \<in> set (ad_keys db). ak_key_hash k = av_sha256 env token \<and> \<not> ak_revoked k \<and> ak_created_by k = u
              \<and> key_ws = Some (ak_workspace_id k))
      else key_ws = None \<and> (\<exists>c. decode_access_token env now token = Some c \<and> cl_sub c = u))"

lemma current_user_iff:
  assumes "unique_key us_id (ad_users db)" and "unique_key ak_key_hash (ad_keys db)"
  shows "fst (get_current_user env now (Some token) db) = Inr (u, kw) \<longleftrightarrow>
    u \<in> set (ad_users db) \<and> us_status u = ''active'' \<and> identified env now token db (us_id u) kw"
proof -
  have by_id: "user_by_id i db = Some u \<longleftrightarrow> u \<in> set (ad_users db) \<and> us_id u = i" for i u
    by (simp add: user_by_id_def find_row_key_iff [OF assms(1)])
  have same: "user_by_id i (db\<lparr>ad_keys := ks\<rparr>) = user_by_id i db" for i ks by (simp add: user_by_id_def)
  show ?thesis
  proof (cases "py_startswith token KEY_PREFIX")
    case True
    let ?P = "\<lambda>k. ak_key_hash k = av_sha256 env token \<and> \<not> ak_revoked k"
    show ?thesis
    proof (cases "find_row ?P (ad_keys db)")
      case None
      then have "\<not> identified env now token db (us_id u) kw"
        using True by (auto simp: identified_def find_row_None)
      then show ?thesis using True None by (simp add: get_current_user_def authenticate_key_def)
    next
      case (Some k)
      have k: "k \<in> set (ad_keys db)" "ak_key_hash k = av_sha256 env token" "\<not> ak_revoked k"
        using find_row_Some [OF Some] by auto
      have "x = k" if "x \<in> set (ad_keys db)" "ak_key_hash x = av_sha256 env token" for x
        using unique_key_eq [OF assms(2) that(1) k(1)] that(2) k(2) by simp
      then have id: "identified env now token db i kw \<longleftrightarrow> ak_created_by k = i \<and> kw = Some (ak_workspace_id k)" for i
        using True k unfolding identified_def by metis
      show ?thesis
      proof (cases "user_by_id (ak_created_by k) db")
        case None
        then have "\<not> (u \<in> set (ad_users db) \<and> ak_created_by k = us_id u)" using by_id [of "us_id u" u] by auto
        then show ?thesis unfolding id using True Some None
          by (simp add: get_current_user_def authenticate_key_def same) blast
      next
        case w: (Some w)
        then have "u \<in> set (ad_users db) \<and> ak_created_by k = us_id u \<longleftrightarrow> u = w"
          using by_id [of "us_id u" u] by_id [of "ak_created_by k" w] by auto
        then show ?thesis unfolding id using True Some w
          by (simp add: get_current_user_def authenticate_key_def same) blast
      qed
    qed
  next
    case False
    show ?thesis
    proof (cases "decode_access_token env now token")
      case None
      then show ?thesis using False by (simp add: get_current_user_def identified_def)
    next
      case (Some c)
      show ?thesis
      proof (cases "user_by_id (cl_sub c) db")
        case None
        then have "\<not> (u \<in> set (ad_users db) \<and> cl_sub c = us_id u)" using by_id [of "us_id u" u] by auto
        then show ?thesis using False Some None by (auto simp: get_current_user_def identified_def)
      next
        case w: (Some w)
        then have "u \<in> set (ad_users db) \<and> cl_sub c = us_id u \<longleftrightarrow> u = w"
          using by_id [of "us_id u" u] by_id [of "cl_sub c" w] by auto
        then show ?thesis using False Some w by (auto simp: get_current_user_def identified_def)
      qed
    qed
  qed
qed

lemma context_cd_auth [simp]:
  "find_member ws i (db\<lparr>cd_auth := a\<rparr>) = find_member ws i db" "workspace_by_id ws (db\<lparr>cd_auth := a\<rparr>) = workspace_by_id ws db"
  "permissions_of r (db\<lparr>cd_auth := a\<rparr>) = permissions_of r db"
  by (simp_all add: find_member_def workspace_by_id_def permissions_of_def role_by_id_def)

lemma workspace_context_iff:
  "get_workspace_context method ws u kw db = Inr ctx \<longleftrightarrow>
    (kw = None \<or> kw = Some ws) \<and> (\<exists>m. find_member ws (us_id u) db = Some m
      \<and> \<not> (method \<notin> {''GET'', ''HEAD'', ''OPTIONS'', ''DELETE''} \<and> map_option wk_status (workspace_by_id ws db) = Some ''deleting'')
      \<and> ctx = \<lparr>wc_workspace_id = ws, wc_member = m, wc_permissions = permissions_of (wm_role_id m) db\<rparr>)"
proof (cases "find_member ws (us_id u) db")
  case (Some m)
  let ?del = "method \<notin> {''GET'', ''HEAD'', ''OPTIONS'', ''DELETE''} \<and> map_option wk_status (workspace_by_id ws db) = Some ''deleting''"
  have "(\<not> List.member [''GET'', ''HEAD'', ''OPTIONS''] method
      \<and> map_option wk_status (workspace_by_id ws db) = Some ''deleting'' \<and> method \<noteq> ''DELETE'') = ?del" by auto
  then show ?thesis unfolding get_workspace_context_def Some by (simp only: option.case) (cases ?del; auto)
qed (simp add: get_workspace_context_def)

text \<open>
  C8: A request gets through to an endpoint of a workspace exactly when its credential identifies an active user, an API
  key is for this workspace, the user is a member of it, the workspace is not being deleted under a change, and the
  member's role has the permission; every other combination is refused.
\<close>
theorem endpoint_access_iff:
  assumes "auth_inv s" and "cd_auth db = as_db s" and "members_ok db"
  shows "fst (endpoint_access env now (Some token) method ws permission db) = Inr (u, ctx) \<longleftrightarrow>
    (\<exists>key_ws m. u \<in> set (ad_users (as_db s)) \<and> us_status u = ''active'' \<and> identified env now token (as_db s) (us_id u) key_ws
       \<and> (key_ws = None \<or> key_ws = Some ws)
       \<and> m \<in> set (cd_members db) \<and> wm_workspace_id m = ws \<and> wm_user_id m = us_id u
       \<and> \<not> (method \<notin> {''GET'', ''HEAD'', ''OPTIONS'', ''DELETE''} \<and> map_option wk_status (workspace_by_id ws db) = Some ''deleting'')
       \<and> permission \<in> set (permissions_of (wm_role_id m) db)
       \<and> ctx = \<lparr>wc_workspace_id = ws, wc_member = m, wc_permissions = permissions_of (wm_role_id m) db\<rparr>)"
proof -
  have mem: "find_member ws i db = Some m \<longleftrightarrow> m \<in> set (cd_members db) \<and> wm_workspace_id m = ws \<and> wm_user_id m = i" for i m
  proof -
    have "unique_key (\<lambda>m. (wm_workspace_id m, wm_user_id m)) (cd_members db)" using assms(3) by (simp add: members_ok_def)
    from find_row_key_iff [OF this, of "(ws, i)" m] show ?thesis by (simp add: find_member_def)
  qed
  obtain r a where r: "get_current_user env now (Some token) (cd_auth db) = (r, a)" by force
  have ctx: "get_workspace_context method ws u kw (db\<lparr>cd_auth := a\<rparr>) = get_workspace_context method ws u kw db" for u kw
    unfolding get_workspace_context_def context_cd_auth ..
  have "fst (endpoint_access env now (Some token) method ws permission db) = Inr (u, ctx) \<longleftrightarrow>
      (\<exists>kw. r = Inr (u, kw) \<and> get_workspace_context method ws u kw db = Inr ctx \<and> permission \<in> set (wc_permissions ctx))"
    by (auto simp: endpoint_access_def r ctx res_bind_Inr_iff require_permission_def)
  also have "\<dots> \<longleftrightarrow> (\<exists>kw m. r = Inr (u, kw) \<and> (kw = None \<or> kw = Some ws) \<and> find_member ws (us_id u) db = Some m
       \<and> \<not> (method \<notin> {''GET'', ''HEAD'', ''OPTIONS'', ''DELETE''} \<and> map_option wk_status (workspace_by_id ws db) = Some ''deleting'')
       \<and> permission \<in> set (permissions_of (wm_role_id m) db)
       \<and> ctx = \<lparr>wc_workspace_id = ws, wc_member = m, wc_permissions = permissions_of (wm_role_id m) db\<rparr>)"
    unfolding workspace_context_iff by (intro ex_cong1) (metis (no_types, lifting) workspace_context.select_convs(3))
  finally show ?thesis using current_user_iff [OF auth_invD(1,5) [OF assms(1)], of env now token u] r assms(2)
    by (simp add: mem)
qed

definition toy_access :: access_db where
  "toy_access = \<lparr>cd_auth = toy_auth False [], cd_roles = [\<lparr>ro_id = 3, ro_workspace_id = None, ro_name = ''owner''\<rparr>,
       \<lparr>ro_id = 4, ro_workspace_id = None, ro_name = ''viewer''\<rparr>],
     cd_role_permissions = [(3, ''workspace:manage'')],
     cd_members = [\<lparr>wm_id = 10, wm_workspace_id = 7, wm_user_id = 9, wm_role_id = 3, wm_joined_at = None\<rparr>,
       \<lparr>wm_id = 11, wm_workspace_id = 7, wm_user_id = 8, wm_role_id = 3, wm_joined_at = None\<rparr>],
     cd_workspaces = [\<lparr>wk_id = 7, wk_name = ''w'', wk_owner_user_id = 9, wk_status = ''active''\<rparr>], cd_next = 12\<rparr>"

lemma toy_access_inv: "access_inv toy_env toy_access"
  by (simp add: access_inv_def roles_seeded_def owner_role_def members_ok_def owned_def is_owner_def unique_key_def
      find_row_def toy_access_def toy_env_def py_lower_def lower_char_def)

theorem endpoint_access_iff_witness:
  "fst (endpoint_access toy_env 5 (Some ''mbsk_k'') ''POST'' 7 ''workspace:manage'' toy_access) =
    Inr (toy_user False, \<lparr>wc_workspace_id = 7, wc_member = \<lparr>wm_id = 10, wm_workspace_id = 7, wm_user_id = 9, wm_role_id = 3,
      wm_joined_at = None\<rparr>, wc_permissions = [''workspace:manage'']\<rparr>)"
proof -
  let ?m = "\<lparr>wm_id = 10, wm_workspace_id = 7, wm_user_id = 9, wm_role_id = 3, wm_joined_at = None\<rparr> :: workspace_member"
  have u: "toy_user False \<in> set (ad_users (as_db (toy_system False [])))" "us_status (toy_user False) = ''active''"
    "us_id (toy_user False) = 9" by (simp_all add: toy_system_def toy_auth_def toy_user_def)
  have i: "identified toy_env 5 ''mbsk_k'' (as_db (toy_system False [])) 9 (Some 7)"
    by (simp add: identified_def KEY_PREFIX_def toy_system_def toy_auth_def) (simp add: py_startswith_iff toy_env_def)
  have p: "permissions_of 3 toy_access = [''workspace:manage'']"
    by (simp add: permissions_of_def role_by_id_def find_row_def toy_access_def)
  have w: "map_option wk_status (workspace_by_id 7 toy_access) = Some ''active''"
    by (simp add: workspace_by_id_def find_row_def toy_access_def)
  have m: "?m \<in> set (cd_members toy_access)" by (simp add: toy_access_def)
  have a: "cd_auth toy_access = as_db (toy_system False [])" by (simp add: toy_access_def toy_system_def)
  have ok: "members_ok toy_access" using toy_access_inv by (simp add: access_inv_def)
  show ?thesis
    unfolding endpoint_access_iff [OF toy_inv(1) a ok]
    by (intro exI [of _ "Some 7"] exI [of _ ?m]) (simp add: u i p w m)
qed



text \<open>
  Interleaved, the guarantee fails: two removals that each passed the check before the other deleted its row leave
  a workspace with two owners without any.
\<close>

theorem concurrent_removals_orphan_workspace:
  assumes "access_inv env db" and "a \<noteq> b"
    and "find_member ws a db = Some ma" and "find_member ws b db = Some mb" and "is_owner env db ma" and "is_owner env db mb"
    and "count_owners env ws db = Inr 2"
  shows "remove_member_reads env ws a db = Inr ma \<and> remove_member_reads env ws b db = Inr mb
    \<and> count_owners env ws (delete_member (wm_id mb) (delete_member (wm_id ma) db)) = Inr 0"
proof -
  from assms(1) obtain r where r: "owner_role env db = Some r" "ro_name r = ''owner''"
    "get_system_role_by_name env ''owner'' db = Inr r" "role_by_id (ro_id r) db = Some r"
    unfolding access_inv_def by (blast elim: roles_seededE)
  have roles: "wm_role_id ma = ro_id r" "wm_role_id mb = ro_id r" using assms(5,6) r(1) by (simp_all add: is_owner_def)
  then have reads: "remove_member_reads env ws a db = Inr ma" "remove_member_reads env ws b db = Inr mb"
    using assms(3,4,7) r by (simp_all add: remove_member_reads_def last_owner_check_def)
  note m = find_member_in [OF assms(3)] find_member_in [OF assms(4)]
  let ?P = "\<lambda>m. wm_workspace_id m = ws \<and> wm_role_id m = ro_id r"
  have uniq: "unique_key wm_id (cd_members db)" using assms(1) by (simp add: access_inv_def members_ok_def)
  have ne: "ma \<noteq> mb" using m assms(2) by auto
  have "length (filter ?P (cd_members db)) = 2"
    using assms(7) r(3) by (simp add: count_owners_def count_where_def)
  moreover have "distinct (filter ?P (cd_members db))"
    using uniq by (auto simp: unique_key_def distinct_map)
  ultimately have "card (set (filter ?P (cd_members db))) = 2" by (metis distinct_card)
  moreover have "{ma, mb} \<subseteq> set (filter ?P (cd_members db))" using m roles by auto
  ultimately have two: "set (filter ?P (cd_members db)) = {ma, mb}"
    using ne card_subset_eq [of "set (filter ?P (cd_members db))" "{ma, mb}"] by simp
  have "get_system_role_by_name env ''owner'' (delete_member (wm_id mb) (delete_member (wm_id ma) db)) = Inr r"
    using r(3) by (simp add: get_system_role_by_name_def delete_member_def)
  moreover have "count_where ?P (cd_members (delete_member (wm_id mb) (delete_member (wm_id ma) db))) = 0"
  proof -
    have "\<not> ?P x" if "x \<in> set (cd_members db)" "wm_id x \<noteq> wm_id ma" "wm_id x \<noteq> wm_id mb" for x
    proof
      assume "?P x"
      then have "x \<in> {ma, mb}" using two that(1) by (metis (mono_tags, lifting) filter_set mem_Collect_eq set_filter)
      then show False using that by auto
    qed
    then show ?thesis by (auto simp: count_where_0 delete_member_def)
  qed
  ultimately show ?thesis using reads by (simp add: count_owners_def)
qed

theorem concurrent_removals_orphan_workspace_witness:
  "count_owners toy_env 7 (delete_member 11 (delete_member 10 toy_access)) = Inr 0"
proof -
  let ?a = "\<lparr>wm_id = 10, wm_workspace_id = 7, wm_user_id = 9, wm_role_id = 3, wm_joined_at = None\<rparr> :: workspace_member"
  let ?b = "\<lparr>wm_id = 11, wm_workspace_id = 7, wm_user_id = 8, wm_role_id = 3, wm_joined_at = None\<rparr> :: workspace_member"
  have "find_member 7 9 toy_access = Some ?a" "find_member 7 8 toy_access = Some ?b"
    "is_owner toy_env toy_access ?a" "is_owner toy_env toy_access ?b"
    "count_owners toy_env 7 toy_access = Inr 2"
    by (simp_all add: find_member_def find_row_def is_owner_def owner_role_def count_owners_def get_system_role_by_name_def
        count_where_def res_bind_def toy_access_def toy_env_def py_lower_def lower_char_def)
  from concurrent_removals_orphan_workspace [OF toy_access_inv _ this] show ?thesis by simp
qed

end
