(* ===== verification/Calendar_Months.thy ===== *)
theory Calendar_Months
  imports Mbs_Prelude
begin

text \<open>
  \<open>datetime(now.year, now.month, 1, tzinfo=timezone.utc)\<close> on timestamps: the first instant of the month
  that holds a timestamp, in the proleptic Gregorian calendar of Python's \<open>datetime\<close>. Months are counted
  from March of the year 0, so that the leap day ends a year: month \<open>12 y + p\<close> is the \<open>p\<close>-th month of
  the year that begins in March of \<open>y\<close>.
\<close>

section \<open>First days of months\<close>

definition USEC_PER_DAY :: int where "USEC_PER_DAY = 86400000000"

text \<open>Days from 0000-03-01 to the first of the month, and to the epoch.\<close>

definition month_begin :: "int \<Rightarrow> int" where
  "month_begin k =
     (let y = k div 12; p = k mod 12 in
      365 * y + y div 4 - y div 100 + y div 400 + (153 * p + 2) div 5)"

definition EPOCH_DAYS :: int where "EPOCH_DAYS = 719468"

text \<open>The mean month has \<open>146097 / 4800\<close> days; the quotient is off by one month at most.\<close>

definition month_index :: "int \<Rightarrow> int" where
  "month_index d =
     (let k = d * 4800 div 146097 in
      if month_begin (k + 1) \<le> d then k + 1 else if month_begin k \<le> d then k else k - 1)"

definition month_start :: "time \<Rightarrow> time" where
  "month_start now =
     (month_begin (month_index (now div USEC_PER_DAY + EPOCH_DAYS)) - EPOCH_DAYS) * USEC_PER_DAY"

section \<open>The month of a day\<close>

lemma div_bounds:
  fixes a :: int
  assumes "0 < b"
  shows "b * (a div b) \<le> a" and "a \<le> b * (a div b) + b - 1"
proof -
  have "b * (a div b) + a mod b = a" by simp
  moreover have "0 \<le> a mod b" and "a mod b < b" using assms by simp_all
  ultimately show "b * (a div b) \<le> a" and "a \<le> b * (a div b) + b - 1" by linarith+
qed

text \<open>The first of a month is within four days of its mean place.\<close>

lemma month_begin_bounds:
  shows "146097 * k - 19200 \<le> 4800 * month_begin k" and "4800 * month_begin k \<le> 146097 * k + 19200"
proof -
  define y where "y = k div 12"
  define p where "p = k mod 12"
  have k: "k = 12 * y + p" by (simp add: y_def p_def)
  have p: "0 \<le> p" "p \<le> 11" by (simp_all add: p_def)
  have m: "month_begin k = 365 * y + y div 4 - y div 100 + y div 400 + (153 * p + 2) div 5"
    by (simp add: month_begin_def Let_def y_def p_def)
  note b = div_bounds [of 4 y] div_bounds [of 100 y] div_bounds [of 400 y] div_bounds [of 5 "153 * p + 2"]
  show "146097 * k - 19200 \<le> 4800 * month_begin k" using b p m k by simp
  show "4800 * month_begin k \<le> 146097 * k + 19200" using b p m k by simp
qed

lemma month_begin_mono:
  assumes "j \<le> k" shows "month_begin j \<le> month_begin k"
proof -
  have step: "month_begin i \<le> month_begin (i + 1)" for i
  proof -
    define y where "y = i div 12"
    define p where "p = i mod 12"
    have i: "i = 12 * y + p" by (simp add: y_def p_def)
    have p: "0 \<le> p" "p \<le> 11" by (simp_all add: p_def)
    have n: "(i + 1) div 12 = (if p = 11 then y + 1 else y)" "(i + 1) mod 12 = (if p = 11 then 0 else p + 1)"
      using p unfolding i by presburger+
    have y: "y div 4 \<le> (y + 1) div 4" "(y + 1) div 100 \<le> y div 100 + 1" "y div 400 \<le> (y + 1) div 400"
      by (simp_all add: zdiv_mono1) 
    have m: "month_begin i = 365 * y + y div 4 - y div 100 + y div 400 + (153 * p + 2) div 5"
      by (simp add: month_begin_def Let_def y_def p_def)
    have d: "(153 * p + 2) div 5 \<le> (153 * (p + 1) + 2) div 5" by (intro zdiv_mono1) simp_all
    show ?thesis
    proof (cases "p = 11")
      case True
      then have "month_begin (i + 1) = 365 * (y + 1) + (y + 1) div 4 - (y + 1) div 100 + (y + 1) div 400"
        by (simp add: month_begin_def Let_def n)
      with True m y show ?thesis by simp
    next
      case False
      then have "month_begin (i + 1) = 365 * y + y div 4 - y div 100 + y div 400 + (153 * (p + 1) + 2) div 5"
        by (simp add: month_begin_def Let_def n)
      with m d show ?thesis by simp
    qed
  qed
  have "month_begin j \<le> month_begin (j + int n)" for n
  proof (induction n)
    case (Suc n)
    then show ?case using step [of "j + int n"] by (simp add: algebra_simps)
  qed simp
  from this [of "nat (k - j)"] assms show ?thesis by simp
qed

lemma month_index_holds: "month_begin (month_index d) \<le> d" "d < month_begin (month_index d + 1)"
proof -
  let ?k = "d * 4800 div 146097"
  have k: "146097 * ?k \<le> d * 4800" "d * 4800 \<le> 146097 * ?k + 146096"
    using div_bounds [of 146097 "d * 4800"] by simp_all
  have lo: "month_begin (?k - 1) \<le> d" and hi: "d < month_begin (?k + 2)"
    using month_begin_bounds [of "?k - 1"] month_begin_bounds [of "?k + 2"] k by simp_all
  have e: "?k + 1 + 1 = ?k + 2" "?k - 1 + 1 = ?k" by simp_all
  note ac = add.commute [of 2]
  from lo show "month_begin (month_index d) \<le> d" by (auto simp: month_index_def Let_def)
  from hi show "d < month_begin (month_index d + 1)" by (auto simp: month_index_def Let_def e ac)
qed

lemma month_index_mono: "a \<le> b \<Longrightarrow> month_index a \<le> month_index b"
proof (rule ccontr)
  assume "a \<le> b" and "\<not> month_index a \<le> month_index b"
  then have "month_begin (month_index b + 1) \<le> month_begin (month_index a)" by (intro month_begin_mono) simp
  with \<open>a \<le> b\<close> month_index_holds(1) [of a] month_index_holds(2) [of b] show False by simp
qed

section \<open>The start of the month\<close>

lemma month_start_le: "month_start now \<le> now"
proof -
  let ?d = "now div USEC_PER_DAY"
  have "USEC_PER_DAY * ?d \<le> now" by (rule div_bounds) (simp add: USEC_PER_DAY_def)
  moreover have "(month_begin (month_index (?d + EPOCH_DAYS)) - EPOCH_DAYS) * USEC_PER_DAY \<le> ?d * USEC_PER_DAY"
    using month_index_holds(1) [of "?d + EPOCH_DAYS"]
    by (intro mult_right_mono) (simp_all add: USEC_PER_DAY_def)
  ultimately show ?thesis by (simp add: month_start_def mult.commute)
qed

lemma month_start_mono: "s \<le> t \<Longrightarrow> month_start s \<le> month_start t"
  unfolding month_start_def
  by (intro mult_right_mono diff_right_mono month_begin_mono month_index_mono add_right_mono zdiv_mono1)
    (simp_all add: USEC_PER_DAY_def)

text \<open>17 September 2026, 29 February 2000 and 1 January 1970 belong to the months that begin on those days.\<close>

lemma month_start_samples:
  "month_start (20713 * USEC_PER_DAY + 9) = 20697 * USEC_PER_DAY"
  "month_start (11016 * USEC_PER_DAY) = 10988 * USEC_PER_DAY"
  "month_start 0 = 0"
  by (simp_all add: month_start_def month_index_def month_begin_def Let_def USEC_PER_DAY_def EPOCH_DAYS_def)

end
