(* ===== verification/Workspace_Data.thy ===== *)
theory Workspace_Data
  imports Calendar_Months Remediation_Store Scanner_Manager Access_Control
begin

text \<open>
  What a workspace owns before anything is scanned: its plan (\<open>modules/billing\<close>), projects and targets
  (\<open>modules/projects\<close>), authorization scopes (\<open>modules/authorization_scope\<close>), queued scans
  (\<open>modules/scans\<close>) and schedules (\<open>modules/schedules\<close>), in one database state, with the quotas of
  \<open>modules/billing/service.py\<close>. \<open>bd_next\<close> is the next unused primary key.
\<close>

section \<open>Rows and state\<close>

record tenant = workspace +
  wk_plan_tier :: string

record project =
  pj_id :: uuid
  pj_workspace_id :: uuid
  pj_name :: string
  pj_description :: "string option"
  pj_status :: string
  pj_created_by :: uuid
  pj_created_at :: time

record target_row = target +
  tg_added_by :: uuid
  tg_created_at :: time

record authorization_scope =
  sp_id :: uuid
  sp_target_id :: uuid
  sp_proof_type :: string
  sp_proof_reference :: string
  sp_verified :: bool
  sp_verified_by :: "uuid option"
  sp_verified_at :: "time option"
  sp_active_testing_allowed :: bool
  sp_scope_notes :: "string option"
  sp_expires_at :: "time option"
  sp_created_at :: time

record scan_schedule =
  sd_id :: uuid
  sd_workspace_id :: uuid
  sd_project_id :: uuid
  sd_target_id :: uuid
  sd_created_by :: uuid
  sd_scan_type :: string
  sd_requested_modules :: "string list"
  sd_use_ai_planner :: bool
  sd_interval_minutes :: int
  sd_enabled :: bool
  sd_next_run_at :: time
  sd_last_run_at :: "time option"
  sd_last_scan_id :: "uuid option"
  sd_last_error :: "string option"
  sd_created_at :: time

record adm_db =
  bd_tenants :: "tenant list"
  bd_projects :: "project list"
  bd_targets :: "target_row list"
  bd_sites :: "private_site list"
  bd_scopes :: "authorization_scope list"
  bd_scans :: "scan list"
  bd_schedules :: "scan_schedule list"
  bd_audits :: "audit_row list"
  bd_next :: uuid

datatype adm_error =
    AdmErr nat string
  | AdmSite site_refusal        \<comment> \<open>403 with the reason of \<open>PrivateSiteNotAuthorized\<close>\<close>
  | AdmTarget target_refusal    \<comment> \<open>403 for the site, 400 for the address\<close>
  | AdmCrash string             \<comment> \<open>an exception that no handler catches\<close>

definition record_audit ::
  "uuid \<Rightarrow> uuid option \<Rightarrow> string \<Rightarrow> string \<Rightarrow> uuid option \<Rightarrow> fstring option \<Rightarrow> string option \<Rightarrow> adm_db \<Rightarrow> adm_db" where
  "record_audit ws actor action rtype rid detail outcome db =
     db\<lparr>bd_audits := bd_audits db @
          [\<lparr>au_workspace_id = ws, au_actor_user_id = actor, au_action = action, au_resource_type = rtype,
            au_resource_id = rid, au_detail = detail, au_outcome = outcome\<rparr>]\<rparr>"

section \<open>Plans\<close>

record plan =
  pl_tier :: string
  pl_name :: string
  pl_max_projects :: "nat option"
  pl_max_targets :: "nat option"
  pl_max_scans_per_month :: "nat option"
  pl_price_usd_month :: nat

definition mk_plan :: "string \<Rightarrow> string \<Rightarrow> nat option \<Rightarrow> nat option \<Rightarrow> nat option \<Rightarrow> nat \<Rightarrow> plan" where
  "mk_plan tier name projects targets scans price =
     \<lparr>pl_tier = tier, pl_name = name, pl_max_projects = projects, pl_max_targets = targets,
      pl_max_scans_per_month = scans, pl_price_usd_month = price\<rparr>"

definition DEFAULT_TIER :: string where "DEFAULT_TIER = ''pilot''"

definition PLANS :: "(string \<times> plan) list" where
  "PLANS =
     [(''free'', mk_plan ''free'' ''Free'' (Some 2) (Some 5) (Some 10) 0),
      (''pro'', mk_plan ''pro'' ''Professional'' (Some 25) (Some 200) (Some 500) 99),
      (''enterprise'', mk_plan ''enterprise'' ''Enterprise'' None None None 0),
      (''pilot'', mk_plan ''pilot'' ''Pilot'' None None None 0)]"

definition SELECTABLE_TIERS :: "string list" where
  "SELECTABLE_TIERS = [''free'', ''pro'', ''enterprise'']"

text \<open>\<open>PLANS.get(tier or DEFAULT_TIER, PLANS[DEFAULT_TIER])\<close>.\<close>

definition get_plan :: "string option \<Rightarrow> plan" where
  "get_plan tier =
     (case map_of PLANS (if truthy tier then or_empty tier else DEFAULT_TIER) of
        Some p \<Rightarrow> p | None \<Rightarrow> mk_plan ''pilot'' ''Pilot'' None None None 0)"

definition tenant_by_id :: "uuid \<Rightarrow> adm_db \<Rightarrow> tenant option" where
  "tenant_by_id ws db = find_row (\<lambda>w. wk_id w = ws) (bd_tenants db)"

text \<open>\<open>_plan_for\<close>, and \<open>_plan_for_update\<close> in the state in which the lock was granted.\<close>

definition plan_for :: "uuid \<Rightarrow> adm_db \<Rightarrow> plan" where
  "plan_for ws db = get_plan (map_option wk_plan_tier (tenant_by_id ws db))"

section \<open>Usage and quotas\<close>

definition count_projects :: "uuid \<Rightarrow> adm_db \<Rightarrow> nat" where
  "count_projects ws db = count_where (\<lambda>p. pj_workspace_id p = ws) (bd_projects db)"

text \<open>The inner join: one row per pair of a target and its project.\<close>

definition count_targets :: "uuid \<Rightarrow> adm_db \<Rightarrow> nat" where
  "count_targets ws db =
     sum_list (map (\<lambda>t. count_where (\<lambda>p. pj_id p = tg_project_id t \<and> pj_workspace_id p = ws) (bd_projects db))
                (bd_targets db))"

definition count_scans_this_month :: "time \<Rightarrow> uuid \<Rightarrow> adm_db \<Rightarrow> nat" where
  "count_scans_this_month now ws db =
     count_where (\<lambda>s. sn_workspace_id s = ws \<and> month_start now \<le> sn_created_at s) (bd_scans db)"

definition over_limit :: "nat \<Rightarrow> nat option \<Rightarrow> bool" where
  "over_limit current limit = (case limit of None \<Rightarrow> False | Some n \<Rightarrow> n \<le> current)"

definition enforce_project_quota :: "uuid \<Rightarrow> adm_db \<Rightarrow> adm_error + unit" where
  "enforce_project_quota ws db =
     (if over_limit (count_projects ws db) (pl_max_projects (plan_for ws db))
      then Inl (AdmErr 402 ''Project limit reached'') else Inr ())"

definition enforce_target_quota :: "uuid \<Rightarrow> adm_db \<Rightarrow> adm_error + unit" where
  "enforce_target_quota ws db =
     (if over_limit (count_targets ws db) (pl_max_targets (plan_for ws db))
      then Inl (AdmErr 402 ''Target limit reached'') else Inr ())"

definition enforce_scan_quota :: "time \<Rightarrow> uuid \<Rightarrow> adm_db \<Rightarrow> adm_error + unit" where
  "enforce_scan_quota now ws db =
     (if over_limit (count_scans_this_month now ws db) (pl_max_scans_per_month (plan_for ws db))
      then Inl (AdmErr 402 ''Monthly scan limit reached'') else Inr ())"

record usage =
  ug_plan :: plan
  ug_projects :: nat
  ug_targets :: nat
  ug_scans_this_month :: nat

definition get_usage :: "time \<Rightarrow> uuid \<Rightarrow> adm_db \<Rightarrow> usage" where
  "get_usage now ws db =
     \<lparr>ug_plan = plan_for ws db, ug_projects = count_projects ws db, ug_targets = count_targets ws db,
      ug_scans_this_month = count_scans_this_month now ws db\<rparr>"

definition set_plan :: "time \<Rightarrow> uuid \<Rightarrow> string \<Rightarrow> uuid option \<Rightarrow> adm_db \<Rightarrow> (adm_error + usage) \<times> adm_db" where
  "set_plan now ws tier actor db =
     (if \<not> List.member SELECTABLE_TIERS tier then (Inl (AdmErr 400 ''Plan must be selectable''), db)
      else (case tenant_by_id ws db of
              None \<Rightarrow> (Inl (AdmErr 404 ''Workspace not found''), db)
            | Some w \<Rightarrow>
                let db1 = db\<lparr>bd_tenants := update_where (\<lambda>x. wk_id x = ws) (\<lambda>x. x\<lparr>wk_plan_tier := tier\<rparr>)
                                 (bd_tenants db)\<rparr>;
                    db2 = record_audit ws actor ''plan.changed'' ''workspace'' (Some ws)
                            (Some [Lit (wk_plan_tier w), Lit '' -> '', Lit tier]) None db1
                in (Inr (get_usage now ws db2), db2)))"

text \<open>\<open>plan_catalog\<close>: the plans of the selectable tiers; the pairs hold the whole plan.\<close>

definition plan_catalog :: "plan list" where
  "plan_catalog = map (\<lambda>t. get_plan (Some t)) SELECTABLE_TIERS"

section \<open>Facts\<close>

lemma record_audit_simps [simp]:
  "bd_tenants (record_audit w a ac rt ri d oc db) = bd_tenants db"
  "bd_projects (record_audit w a ac rt ri d oc db) = bd_projects db"
  "bd_targets (record_audit w a ac rt ri d oc db) = bd_targets db"
  "bd_sites (record_audit w a ac rt ri d oc db) = bd_sites db"
  "bd_scopes (record_audit w a ac rt ri d oc db) = bd_scopes db"
  "bd_scans (record_audit w a ac rt ri d oc db) = bd_scans db"
  "bd_schedules (record_audit w a ac rt ri d oc db) = bd_schedules db"
  "bd_next (record_audit w a ac rt ri d oc db) = bd_next db"
  by (simp_all add: record_audit_def)

lemma over_limit_iff: "\<not> over_limit n limit \<longleftrightarrow> (\<forall>m. limit = Some m \<longrightarrow> n < m)"
  by (auto simp: over_limit_def split: option.splits)

lemma count_where_mono:
  "(\<And>r. r \<in> set rows \<Longrightarrow> P r \<Longrightarrow> Q r) \<Longrightarrow> count_where P rows \<le> count_where Q rows"
  by (induction rows) (auto simp: count_where_def le_Suc_eq)

lemma count_where_append: "count_where P (xs @ ys) = count_where P xs + count_where P ys"
  by (simp add: count_where_def)

lemma count_where_filter: "count_where P (filter Q rows) \<le> count_where P rows"
  by (induction rows) (auto simp: count_where_def)

lemma count_where_update:
  "(\<And>r. P r \<Longrightarrow> Q (f r) = Q r) \<Longrightarrow> count_where Q (update_where P f rows) = count_where Q rows"
  by (induction rows) (auto simp: count_where_def update_where_def)

lemma count_scans_mono: "s \<le> t \<Longrightarrow> count_scans_this_month t ws db \<le> count_scans_this_month s ws db"
  unfolding count_scans_this_month_def
  by (rule count_where_mono) (use month_start_mono [of s t] in auto)

end
