(* ===== verification/Target_Admission.thy ===== *)
theory Target_Admission
  imports Workspace_Data
begin

text \<open>
  Projects and targets (\<open>modules/projects/service.py\<close>) and the authorization scopes of targets
  (\<open>modules/authorization_scope/service.py\<close>). A request that takes the workspace's row lock reads first and
  writes later: \<open>r\<close> is the state its reads saw, \<open>d\<close> the state in which it holds the lock and commits. Its
  quota is counted in \<open>d\<close>. The foreign keys of an inserted row are checked in \<open>d\<close>. Rows that other modules
  keep for a project (findings, assets, reports) are not part of this state.
\<close>

record adm_env =
  ae_settings :: settings
  ae_os :: os_resolver
  ae_dns :: dns_backend
  ae_supported :: "string list"                            \<comment> \<open>\<open>supported_target_types\<close>\<close>
  ae_ai_enabled :: bool
  ae_dev_auto_authorize :: bool
  ae_celery_dispatch :: bool                               \<comment> \<open>\<open>celery_scan_dispatch_enabled\<close>\<close>
  ae_enqueue :: "uuid \<Rightarrow> string \<Rightarrow> string option"          \<comment> \<open>the broker: a task id, or an exception\<close>
  ae_uid :: "uuid \<Rightarrow> string"

section \<open>Projects\<close>

definition project_by_id :: "uuid \<Rightarrow> adm_db \<Rightarrow> project option" where
  "project_by_id pid db = find_row (\<lambda>p. pj_id p = pid) (bd_projects db)"

definition get_project_row :: "uuid \<Rightarrow> uuid \<Rightarrow> adm_db \<Rightarrow> adm_error + project" where
  "get_project_row ws pid db =
     (case find_row (\<lambda>p. pj_id p = pid \<and> pj_workspace_id p = ws) (bd_projects db) of
        None \<Rightarrow> Inl (AdmErr 404 ''Project not found'') | Some p \<Rightarrow> Inr p)"

definition create_project ::
  "time \<Rightarrow> uuid \<Rightarrow> uuid \<Rightarrow> string \<Rightarrow> string option \<Rightarrow> adm_db \<Rightarrow> (adm_error + project) \<times> adm_db" where
  "create_project now ws creator name description d =
     (case enforce_project_quota ws d of
        Inl e \<Rightarrow> (Inl e, d)
      | Inr _ \<Rightarrow>
          if tenant_by_id ws d = None then (Inl (AdmCrash ''IntegrityError''), d)
          else (let p = \<lparr>pj_id = bd_next d, pj_workspace_id = ws, pj_name = name, pj_description = description,
                         pj_status = ''active'', pj_created_by = creator, pj_created_at = now\<rparr>
                in (Inr p, d\<lparr>bd_projects := bd_projects d @ [p], bd_next := bd_next d + 1\<rparr>)))"

definition set_opt :: "'a option \<Rightarrow> 'a \<Rightarrow> 'a" where
  "set_opt new old = (case new of None \<Rightarrow> old | Some v \<Rightarrow> v)"

definition update_project ::
  "uuid \<Rightarrow> uuid \<Rightarrow> string option \<Rightarrow> string option \<Rightarrow> string option \<Rightarrow> adm_db \<Rightarrow> (adm_error + project) \<times> adm_db" where
  "update_project ws pid name description status d =
     (case get_project_row ws pid d of
        Inl e \<Rightarrow> (Inl e, d)
      | Inr p \<Rightarrow>
          let f = (\<lambda>x. x\<lparr>pj_name := set_opt name (pj_name x),
                         pj_description := (if description = None then pj_description x else description),
                         pj_status := set_opt status (pj_status x)\<rparr>)
          in (Inr (f p), d\<lparr>bd_projects := update_where (\<lambda>x. pj_id x = pid) f (bd_projects d)\<rparr>))"

text \<open>The row goes, and with it what references it with \<open>ON DELETE CASCADE\<close>.\<close>

definition delete_project :: "uuid \<Rightarrow> uuid \<Rightarrow> adm_db \<Rightarrow> (adm_error + unit) \<times> adm_db" where
  "delete_project ws pid d =
     (case get_project_row ws pid d of
        Inl e \<Rightarrow> (Inl e, d)
      | Inr _ \<Rightarrow>
          let gone = map tg_id (filter (\<lambda>t. tg_project_id t = pid) (bd_targets d)) in
          (Inr (), d\<lparr>bd_projects := filter (\<lambda>p. pj_id p \<noteq> pid) (bd_projects d),
                     bd_targets := filter (\<lambda>t. tg_project_id t \<noteq> pid) (bd_targets d),
                     bd_scopes := filter (\<lambda>s. \<not> List.member gone (sp_target_id s)) (bd_scopes d),
                     bd_scans := filter (\<lambda>s. sn_project_id s \<noteq> pid \<and> \<not> List.member gone (sn_target_id s)) (bd_scans d),
                     bd_schedules := filter (\<lambda>s. sd_project_id s \<noteq> pid \<and> \<not> List.member gone (sd_target_id s))
                                       (bd_schedules d)\<rparr>))"

section \<open>Targets\<close>

definition get_target :: "uuid \<Rightarrow> uuid \<Rightarrow> uuid \<Rightarrow> adm_db \<Rightarrow> adm_error + target_row" where
  "get_target ws pid tid db =
     res_bind (get_project_row ws pid db) (\<lambda>_.
       case find_row (\<lambda>t. tg_id t = tid \<and> tg_project_id t = pid) (bd_targets db) of
         None \<Rightarrow> Inl (AdmErr 404 ''Target not found'') | Some t \<Rightarrow> Inr t)"

definition create_target ::
  "adm_env \<Rightarrow> time \<Rightarrow> uuid \<Rightarrow> uuid \<Rightarrow> uuid \<Rightarrow> string \<Rightarrow> string \<Rightarrow> string \<Rightarrow> uuid option \<Rightarrow> adm_db \<Rightarrow> adm_db
   \<Rightarrow> (adm_error + target_row) \<times> adm_db" where
  "create_target env now ws pid added_by ty val criticality site r d =
     (case get_project_row ws pid r of
        Inl e \<Rightarrow> (Inl e, d)
      | Inr _ \<Rightarrow>
          (case create_target_context (ae_settings env) (ae_os env) (ae_dns env) (bd_sites r) ws ty val site of
             Inl e \<Rightarrow> (Inl (AdmTarget e), d)
           | Inr (zone, site_id) \<Rightarrow>
               (case enforce_target_quota ws d of
                  Inl e \<Rightarrow> (Inl e, d)
                | Inr _ \<Rightarrow>
                    if project_by_id pid d = None then (Inl (AdmCrash ''IntegrityError''), d)
                    else (let t = \<lparr>tg_id = bd_next d, tg_project_id = pid, tg_type = ty, tg_value = val,
                                   tg_criticality = criticality, tg_network_zone = zone, tg_site_id = site_id,
                                   tg_added_by = added_by, tg_created_at = now\<rparr>
                          in (Inr t, d\<lparr>bd_targets := bd_targets d @ [t], bd_next := bd_next d + 1\<rparr>)))))"

definition update_target_criticality ::
  "uuid \<Rightarrow> uuid \<Rightarrow> uuid \<Rightarrow> string \<Rightarrow> adm_db \<Rightarrow> (adm_error + target_row) \<times> adm_db" where
  "update_target_criticality ws pid tid criticality d =
     (case get_target ws pid tid d of
        Inl e \<Rightarrow> (Inl e, d)
      | Inr t \<Rightarrow>
          (Inr (t\<lparr>tg_criticality := criticality\<rparr>),
           d\<lparr>bd_targets := update_where (\<lambda>x. tg_id x = tid) (\<lambda>x. x\<lparr>tg_criticality := criticality\<rparr>) (bd_targets d)\<rparr>))"

section \<open>Authorization scopes\<close>

definition submit_scope ::
  "time \<Rightarrow> uuid \<Rightarrow> uuid \<Rightarrow> uuid \<Rightarrow> string \<Rightarrow> string \<Rightarrow> string option \<Rightarrow> time option \<Rightarrow> adm_db
   \<Rightarrow> (adm_error + authorization_scope) \<times> adm_db" where
  "submit_scope now ws pid tid proof_type proof_reference notes expires d =
     (case get_target ws pid tid d of
        Inl e \<Rightarrow> (Inl e, d)
      | Inr _ \<Rightarrow>
          let s = \<lparr>sp_id = bd_next d, sp_target_id = tid, sp_proof_type = proof_type,
                   sp_proof_reference = proof_reference, sp_verified = False, sp_verified_by = None,
                   sp_verified_at = None, sp_active_testing_allowed = False, sp_scope_notes = notes,
                   sp_expires_at = expires, sp_created_at = now\<rparr>
          in (Inr s, d\<lparr>bd_scopes := bd_scopes d @ [s], bd_next := bd_next d + 1\<rparr>))"

text \<open>\<open>ORDER BY created_at DESC LIMIT 1\<close>; between rows of one microsecond the database may choose.\<close>

definition latest_scope :: "uuid \<Rightarrow> adm_db \<Rightarrow> authorization_scope option" where
  "latest_scope tid db =
     (case filter (\<lambda>s. sp_target_id s = tid) (bd_scopes db) of
        [] \<Rightarrow> None | s # ss \<Rightarrow> Some (py_max_by sp_created_at s ss))"

definition get_current_scope :: "uuid \<Rightarrow> uuid \<Rightarrow> uuid \<Rightarrow> adm_db \<Rightarrow> adm_error + authorization_scope" where
  "get_current_scope ws pid tid db =
     res_bind (get_target ws pid tid db) (\<lambda>_.
       case latest_scope tid db of
         None \<Rightarrow> Inl (AdmErr 404 ''No authorization scope submitted for this target'') | Some s \<Rightarrow> Inr s)"

definition verify_scope ::
  "time \<Rightarrow> uuid \<Rightarrow> uuid \<Rightarrow> uuid \<Rightarrow> uuid \<Rightarrow> bool \<Rightarrow> time option \<Rightarrow> string option \<Rightarrow> adm_db
   \<Rightarrow> (adm_error + authorization_scope) \<times> adm_db" where
  "verify_scope now ws pid tid verifier active expires notes d =
     (case get_current_scope ws pid tid d of
        Inl e \<Rightarrow> (Inl e, d)
      | Inr s \<Rightarrow>
          let f = (\<lambda>x. x\<lparr>sp_verified := True, sp_verified_by := Some verifier, sp_verified_at := Some now,
                         sp_active_testing_allowed := active,
                         sp_expires_at := (if expires = None then sp_expires_at x else expires),
                         sp_scope_notes := (if notes = None then sp_scope_notes x else notes)\<rparr>)
          in (Inr (f s), d\<lparr>bd_scopes := update_where (\<lambda>x. sp_id x = sp_id s) f (bd_scopes d)\<rparr>))"

text \<open>The local-development escape hatch.\<close>

definition dev_auto_authorize :: "time \<Rightarrow> uuid \<Rightarrow> adm_db \<Rightarrow> authorization_scope \<times> adm_db" where
  "dev_auto_authorize now tid d =
     (let f = (\<lambda>x. x\<lparr>sp_verified := True, sp_verified_at := Some now, sp_active_testing_allowed := True,
                     sp_expires_at := None\<rparr>)
      in case latest_scope tid d of
           Some s \<Rightarrow> (f s, d\<lparr>bd_scopes := update_where (\<lambda>x. sp_id x = sp_id s) f (bd_scopes d)\<rparr>)
         | None \<Rightarrow>
             let s = f \<lparr>sp_id = bd_next d, sp_target_id = tid, sp_proof_type = ''dev_auto'',
                        sp_proof_reference = ''DEV_AUTO_AUTHORIZE_TARGETS'', sp_verified = False,
                        sp_verified_by = None, sp_verified_at = None, sp_active_testing_allowed = False,
                        sp_scope_notes = None, sp_expires_at = None, sp_created_at = now\<rparr>
             in (s, d\<lparr>bd_scopes := bd_scopes d @ [s], bd_next := bd_next d + 1\<rparr>))"

text \<open>
  The guardrail. Every 404 of the lookup becomes the same 403. Without the escape hatch it only reads; with it,
  it writes to and commits \<open>d\<close>.
\<close>

definition require_verified_target ::
  "adm_env \<Rightarrow> time \<Rightarrow> uuid \<Rightarrow> uuid \<Rightarrow> uuid \<Rightarrow> adm_db \<Rightarrow> adm_db \<Rightarrow> (adm_error + authorization_scope) \<times> adm_db" where
  "require_verified_target env now ws pid tid r d =
     (if ae_dev_auto_authorize env then (let (s, d1) = dev_auto_authorize now tid d in (Inr s, d1))
      else (case get_current_scope ws pid tid r of
              Inl e \<Rightarrow> (Inl (AdmErr 403 ''No authorization scope has been submitted for this target''), d)
            | Inr s \<Rightarrow>
                if \<not> sp_verified s then (Inl (AdmErr 403 ''This target's authorization scope is not verified''), d)
                else if (case sp_expires_at s of None \<Rightarrow> False | Some t \<Rightarrow> t < now)
                then (Inl (AdmErr 403 ''This target's authorization scope has expired''), d)
                else (Inr s, d)))"

end
