(* ===== verification/Scan_Admission.thy ===== *)
theory Scan_Admission
  imports Target_Admission
begin

text \<open>
  The creation of a scan (\<open>create_scan\<close> in \<open>modules/scans/service.py\<close>) and the recurring scans of
  \<open>modules/schedules/service.py\<close>. \<open>create_scan\<close> reads the target, its scope and its site in \<open>r\<close>, counts the
  month's scans in \<open>c\<close> and commits in \<open>d\<close>: while the request holds the workspace's row lock from the count to
  the commit, \<open>c\<close> and \<open>d\<close> agree on what other requests under the same lock write. The second commit (task id
  and audit row) belongs to the same step.
\<close>

section \<open>What a request may ask for\<close>

record scan_request =
  sq_workspace_id :: uuid
  sq_project_id :: uuid
  sq_initiated_by :: uuid
  sq_target_id :: uuid
  sq_scan_type :: string
  sq_requested_modules :: "string list"
  sq_use_ai_planner :: bool
  sq_use_agent :: bool
  sq_exploitation_enabled :: bool
  sq_approved_hosts :: "string list"
  sq_tool_config :: dict

definition unknown_modules :: "string list \<Rightarrow> string list" where
  "unknown_modules ms = filter (\<lambda>m. find_tool m = None) ms"

definition active_modules :: "string list \<Rightarrow> string list" where
  "active_modules ms =
     filter (\<lambda>m. case find_tool m of None \<Rightarrow> False | Some t \<Rightarrow> tl_requires_active_testing t) ms"

definition unknown_tool_config :: "dict \<Rightarrow> string list" where
  "unknown_tool_config cfg = filter (\<lambda>k. \<not> List.member ALLOWED_TOOL_CONFIG_KEYS k) (map fst cfg)"

text \<open>The keys after the caller's knobs always win the merge.\<close>

definition orchestration_config :: "scan_request \<Rightarrow> string \<Rightarrow> uuid option \<Rightarrow> dict" where
  "orchestration_config rq zone site =
     [(''requested_modules'', JArr (map JStr (sq_requested_modules rq))),
      (''use_ai_planner'', JBool (sq_use_ai_planner rq)),
      (''use_agent'', JBool (sq_use_agent rq)),
      (''exploitation_enabled'', JBool (sq_exploitation_enabled rq)),
      (''approved_hosts'', JArr (map JStr (sq_approved_hosts rq))),
      (''network_zone'', JStr zone),
      (''site_id'', (case site of None \<Rightarrow> JNull | Some s \<Rightarrow> uuid_text s))]"

definition scan_config :: "scan_request \<Rightarrow> string \<Rightarrow> uuid option \<Rightarrow> dict" where
  "scan_config rq zone site = dict_merge (sq_tool_config rq) (orchestration_config rq zone site)"

section \<open>Creation\<close>

definition new_scan :: "time \<Rightarrow> scan_request \<Rightarrow> string \<Rightarrow> uuid option \<Rightarrow> uuid \<Rightarrow> scan" where
  "new_scan now rq zone site i =
     \<lparr>sn_id = i, sn_workspace_id = sq_workspace_id rq, sn_project_id = sq_project_id rq,
      sn_target_id = sq_target_id rq, sn_initiated_by = sq_initiated_by rq, sn_scan_type = sq_scan_type rq,
      sn_status = ''queued'', sn_config = scan_config rq zone site, sn_celery_task_id = None,
      sn_execution_token = None, sn_queued_at = Some now, sn_started_at = None, sn_last_heartbeat_at = None,
      sn_completed_at = None, sn_created_at = now\<rparr>"

text \<open>The checks of the request that need no scope.\<close>

definition check_scan_request :: "adm_env \<Rightarrow> scan_request \<Rightarrow> adm_error + unit" where
  "check_scan_request env rq =
     (if unknown_modules (sq_requested_modules rq) \<noteq> [] then Inl (AdmErr 400 ''Unknown tool module(s)'')
      else if unknown_tool_config (sq_tool_config rq) \<noteq> [] then Inl (AdmErr 400 ''Unknown tool_config key(s)'')
      else if sq_use_ai_planner rq \<and> \<not> ae_ai_enabled env then Inl (AdmErr 400 ''AI planner requires an API key'')
      else Inr ())"

text \<open>The zone and site come from the target's row; a private target needs the whole chain of its site.\<close>

definition target_zone :: "target_row \<Rightarrow> string" where
  "target_zone t = (if tg_network_zone t = [] then ''public'' else tg_network_zone t)"

definition check_zone :: "uuid \<Rightarrow> target_row \<Rightarrow> adm_db \<Rightarrow> adm_error + unit" where
  "check_zone ws t r =
     (if target_zone t = ''private''
      then (case build_scan_network_policy (bd_sites r) ws None ''private'' (tg_site_id t) None None of
              Inl e \<Rightarrow> Inl (AdmSite e) | Inr _ \<Rightarrow> Inr ())
      else Inr ())"

text \<open>After the first commit: the broker (when a control-plane executor is deployed) and the audit row.\<close>

definition dispatch_scan :: "adm_env \<Rightarrow> scan_request \<Rightarrow> target_row \<Rightarrow> scan \<Rightarrow> adm_db \<Rightarrow> (adm_error + scan) \<times> adm_db" where
  "dispatch_scan env rq t s db =
     (let audited = (\<lambda>d. record_audit (sq_workspace_id rq) (Some (sq_initiated_by rq)) ''scan.created'' ''scan''
            (Some (sn_id s)) (Some [Lit (sq_scan_type rq), Lit '': '', Lit (py_join '', '' (sq_requested_modules rq))])
            (Some OUTCOME_SUCCESS) d)
      in if \<not> ae_celery_dispatch env then (Inr s, audited db)
         else (case queue_for_scan (Some (target_zone t)) (map_option (ae_uid env) (tg_site_id t)) of
                 None \<Rightarrow> (Inl (AdmCrash ''ValueError''), db)
               | Some q \<Rightarrow>
                   (case ae_enqueue env (sn_id s) q of
                      None \<Rightarrow> (Inl (AdmCrash ''broker unavailable''), db)
                    | Some task \<Rightarrow>
                        (Inr (s\<lparr>sn_celery_task_id := Some task\<rparr>),
                         audited (db\<lparr>bd_scans := update_where (\<lambda>x. sn_id x = sn_id s)
                                      (\<lambda>x. x\<lparr>sn_celery_task_id := Some task\<rparr>) (bd_scans db)\<rparr>)))))"

definition insert_scan ::
  "adm_env \<Rightarrow> time \<Rightarrow> scan_request \<Rightarrow> target_row \<Rightarrow> adm_db \<Rightarrow> (adm_error + scan) \<times> adm_db" where
  "insert_scan env now rq t d =
     (if tenant_by_id (sq_workspace_id rq) d = None \<or> project_by_id (sq_project_id rq) d = None
         \<or> find_row (\<lambda>x. tg_id x = sq_target_id rq) (bd_targets d) = None
      then (Inl (AdmCrash ''IntegrityError''), d)
      else (let s = new_scan now rq (target_zone t) (tg_site_id t) (bd_next d)
            in dispatch_scan env rq t s (d\<lparr>bd_scans := bd_scans d @ [s], bd_next := bd_next d + 1\<rparr>)))"

definition create_scan ::
  "adm_env \<Rightarrow> time \<Rightarrow> scan_request \<Rightarrow> adm_db \<Rightarrow> adm_db \<Rightarrow> adm_db \<Rightarrow> (adm_error + scan) \<times> adm_db" where
  "create_scan env now rq r c d =
     (case get_target (sq_workspace_id rq) (sq_project_id rq) (sq_target_id rq) r of
        Inl e \<Rightarrow> (Inl e, d)
      | Inr t \<Rightarrow>
          if \<not> is_supported (ae_supported env) (tg_type t)
          then (Inl (AdmErr 400 ''Target type is not supported for scanning yet''), d)
          else (case res_bind (enforce_scan_quota now (sq_workspace_id rq) c) (\<lambda>_. check_scan_request env rq) of
                  Inl e \<Rightarrow> (Inl e, d)
                | Inr _ \<Rightarrow>
                    (case require_verified_target env now (sq_workspace_id rq) (sq_project_id rq) (sq_target_id rq) r d of
                       (Inl e, d1) \<Rightarrow> (Inl e, d1)
                     | (Inr scope, d1) \<Rightarrow>
                         if \<not> sp_active_testing_allowed scope \<and> active_modules (sq_requested_modules rq) \<noteq> []
                         then (Inl (AdmErr 403 ''Active testing not authorized for this target''), d1)
                         else (case check_zone (sq_workspace_id rq) t r of
                                 Inl e \<Rightarrow> (Inl e, d1)
                               | Inr _ \<Rightarrow> insert_scan env now rq t d1))))"

section \<open>Schedules\<close>

definition MIN_INTERVAL_MINUTES :: int where "MIN_INTERVAL_MINUTES = 5"
definition MAX_INTERVAL_MINUTES :: int where "MAX_INTERVAL_MINUTES = 43200"

definition USEC_PER_MINUTE :: int where "USEC_PER_MINUTE = 60000000"

definition compute_next_run :: "time \<Rightarrow> int \<Rightarrow> time" where
  "compute_next_run from_time minutes = from_time + minutes * USEC_PER_MINUTE"

definition interval_ok :: "int \<Rightarrow> bool" where
  "interval_ok m = (MIN_INTERVAL_MINUTES \<le> m \<and> m \<le> MAX_INTERVAL_MINUTES)"

definition create_schedule ::
  "time \<Rightarrow> uuid \<Rightarrow> uuid \<Rightarrow> uuid \<Rightarrow> uuid \<Rightarrow> string \<Rightarrow> string list \<Rightarrow> int \<Rightarrow> bool \<Rightarrow> adm_db
   \<Rightarrow> (adm_error + scan_schedule) \<times> adm_db" where
  "create_schedule now ws pid creator tid ty modules minutes ai d =
     (if \<not> interval_ok minutes then (Inl (AdmErr 400 ''interval_minutes out of range''), d)
      else (case get_target ws pid tid d of
              Inl e \<Rightarrow> (Inl e, d)
            | Inr _ \<Rightarrow>
                let s = \<lparr>sd_id = bd_next d, sd_workspace_id = ws, sd_project_id = pid, sd_target_id = tid,
                         sd_created_by = creator, sd_scan_type = ty, sd_requested_modules = modules,
                         sd_use_ai_planner = ai, sd_interval_minutes = minutes, sd_enabled = True,
                         sd_next_run_at = compute_next_run now minutes, sd_last_run_at = None,
                         sd_last_scan_id = None, sd_last_error = None, sd_created_at = now\<rparr>
                in (Inr s, d\<lparr>bd_schedules := bd_schedules d @ [s], bd_next := bd_next d + 1\<rparr>)))"

definition get_schedule :: "uuid \<Rightarrow> uuid \<Rightarrow> uuid \<Rightarrow> adm_db \<Rightarrow> adm_error + scan_schedule" where
  "get_schedule ws pid i d =
     (case find_row (\<lambda>s. sd_id s = i \<and> sd_workspace_id s = ws \<and> sd_project_id s = pid) (bd_schedules d) of
        None \<Rightarrow> Inl (AdmErr 404 ''Schedule not found'') | Some s \<Rightarrow> Inr s)"

definition update_schedule ::
  "time \<Rightarrow> uuid \<Rightarrow> uuid \<Rightarrow> uuid \<Rightarrow> bool option \<Rightarrow> int option \<Rightarrow> adm_db \<Rightarrow> (adm_error + scan_schedule) \<times> adm_db" where
  "update_schedule now ws pid i enabled minutes d =
     (case get_schedule ws pid i d of
        Inl e \<Rightarrow> (Inl e, d)
      | Inr s \<Rightarrow>
          if (case minutes of None \<Rightarrow> False | Some m \<Rightarrow> \<not> interval_ok m)
          then (Inl (AdmErr 400 ''interval_minutes out of range''), d)
          else (let f = (\<lambda>x. let x1 = x\<lparr>sd_interval_minutes := set_opt minutes (sd_interval_minutes x),
                                       sd_enabled := set_opt enabled (sd_enabled x)\<rparr>
                            in if enabled = Some True
                               then x1\<lparr>sd_next_run_at := compute_next_run now (sd_interval_minutes x1)\<rparr> else x1)
                in (Inr (f s), d\<lparr>bd_schedules := update_where (\<lambda>x. sd_id x = i) f (bd_schedules d)\<rparr>)))"

definition delete_schedule :: "uuid \<Rightarrow> uuid \<Rightarrow> uuid \<Rightarrow> adm_db \<Rightarrow> (adm_error + unit) \<times> adm_db" where
  "delete_schedule ws pid i d =
     (case get_schedule ws pid i d of
        Inl e \<Rightarrow> (Inl e, d)
      | Inr _ \<Rightarrow> (Inr (), d\<lparr>bd_schedules := filter (\<lambda>s. sd_id s \<noteq> i) (bd_schedules d)\<rparr>))"

section \<open>The beat's tick\<close>

definition due_schedules :: "time \<Rightarrow> adm_db \<Rightarrow> scan_schedule list" where
  "due_schedules now d =
     filter (\<lambda>s. sd_enabled s \<and> sd_next_run_at s \<le> now
               \<and> list_ex (\<lambda>w. wk_id w = sd_workspace_id s \<and> wk_status w \<noteq> ''deleting'') (bd_tenants d))
       (bd_schedules d)"

text \<open>The atomic claim: one conditional \<open>UPDATE\<close>; \<open>next\<close> is computed from the row as it was read.\<close>

definition claim_schedule :: "time \<Rightarrow> time \<Rightarrow> uuid \<Rightarrow> adm_db \<Rightarrow> bool \<times> adm_db" where
  "claim_schedule now next i d =
     (let P = (\<lambda>s. sd_id s = i \<and> (sd_enabled s \<and> sd_next_run_at s \<le> now)) in
      (count_where P (bd_schedules d) = 1,
       d\<lparr>bd_schedules := update_where P (\<lambda>s. s\<lparr>sd_last_run_at := Some now, sd_next_run_at := next\<rparr>) (bd_schedules d)\<rparr>))"

definition schedule_request :: "scan_schedule \<Rightarrow> scan_request" where
  "schedule_request s =
     \<lparr>sq_workspace_id = sd_workspace_id s, sq_project_id = sd_project_id s, sq_initiated_by = sd_created_by s,
      sq_target_id = sd_target_id s, sq_scan_type = sd_scan_type s, sq_requested_modules = sd_requested_modules s,
      sq_use_ai_planner = sd_use_ai_planner s, sq_use_agent = False, sq_exploitation_enabled = False,
      sq_approved_hosts = [], sq_tool_config = []\<rparr>"

text \<open>The text of the exception, and the two raw updates of the claimed row.\<close>

definition error_text :: "adm_error \<Rightarrow> string" where
  "error_text e =
     (case e of AdmErr n t \<Rightarrow> t | AdmSite _ \<Rightarrow> ''site refused'' | AdmTarget _ \<Rightarrow> ''target refused'' | AdmCrash t \<Rightarrow> t)"

definition note_launched :: "uuid \<Rightarrow> uuid \<Rightarrow> adm_db \<Rightarrow> adm_db" where
  "note_launched i sid d =
     d\<lparr>bd_schedules := update_where (\<lambda>s. sd_id s = i)
         (\<lambda>s. s\<lparr>sd_last_scan_id := Some sid, sd_last_error := None\<rparr>) (bd_schedules d)\<rparr>"

definition note_failed :: "uuid \<Rightarrow> string \<Rightarrow> adm_db \<Rightarrow> adm_db" where
  "note_failed i err d =
     d\<lparr>bd_schedules := update_where (\<lambda>s. sd_id s = i) (\<lambda>s. s\<lparr>sd_last_error := Some (take 1000 err)\<rparr>) (bd_schedules d)\<rparr>"

datatype fired = NotClaimed | Launched uuid | Skipped adm_error

text \<open>The claim uses the clock of the tick, the scan's creation the clock \<open>now\<close> of its own request.\<close>

definition fire_schedule :: "adm_env \<Rightarrow> time \<Rightarrow> time \<Rightarrow> scan_schedule \<Rightarrow> adm_db \<Rightarrow> fired \<times> adm_db" where
  "fire_schedule env tick now s d =
     (case claim_schedule tick (compute_next_run tick (sd_interval_minutes s)) (sd_id s) d of
        (False, d1) \<Rightarrow> (NotClaimed, d1)
      | (True, d1) \<Rightarrow>
          (case create_scan env now (schedule_request s) d1 d1 d1 of
             (Inr scan, d2) \<Rightarrow> (Launched (sn_id scan), note_launched (sd_id s) (sn_id scan) d2)
           | (Inl e, d2) \<Rightarrow> (Skipped e, note_failed (sd_id s) (error_text e) d2)))"

text \<open>
  The loop over the rows read at the start. A failure rolls the session back, and \<open>expires\<close> says whether
  the objects read before can no longer be read after that (the documented behaviour of SQLAlchemy's
  \<open>rollback\<close> on an asyncio session): then the next iteration's \<open>sched.id\<close> raises outside the handler.
\<close>

fun fire_all ::
  "adm_env \<Rightarrow> bool \<Rightarrow> time \<Rightarrow> time \<Rightarrow> bool \<Rightarrow> nat \<Rightarrow> scan_schedule list \<Rightarrow> adm_db \<Rightarrow> (adm_error + nat) \<times> adm_db" where
  "fire_all env expires tick now stale n [] d = (Inr n, d)"
| "fire_all env expires tick now stale n (s # ss) d =
     (if stale then (Inl (AdmCrash ''MissingGreenlet''), d)
      else (case fire_schedule env tick now s d of
              (NotClaimed, d1) \<Rightarrow> fire_all env expires tick now False n ss d1
            | (Launched i, d1) \<Rightarrow> fire_all env expires tick now False (n + 1) ss d1
            | (Skipped e, d1) \<Rightarrow> fire_all env expires tick now expires n ss d1))"

definition run_due_schedules :: "adm_env \<Rightarrow> bool \<Rightarrow> time \<Rightarrow> time \<Rightarrow> adm_db \<Rightarrow> (adm_error + nat) \<times> adm_db" where
  "run_due_schedules env expires tick now d = fire_all env expires tick now False 0 (due_schedules tick d) d"

end
