(* ===== verification/Admission_System.thy ===== *)
theory Admission_System
  imports Scan_Admission
begin

text \<open>
  The requests of projects, targets, scopes, scans, plans and schedules as operations on one database, in
  any order and with reads that may be older than the writes; what every operation does to each table; and
  the histories of a platform, in which other parts of it change rows that they own.
\<close>

section \<open>Operations\<close>

datatype adm_op =
    OpCreateProject uuid uuid string "string option"
  | OpUpdateProject uuid uuid "string option" "string option" "string option"
  | OpDeleteProject uuid uuid
  | OpCreateTarget uuid uuid uuid string string string "uuid option"
  | OpCriticality uuid uuid uuid string
  | OpSubmitScope uuid uuid uuid string string "string option" "time option"
  | OpVerifyScope uuid uuid uuid uuid bool "time option" "string option"
  | OpCreateScan scan_request
  | OpSetPlan uuid string "uuid option"
  | OpCreateSchedule uuid uuid uuid uuid string "string list" int bool
  | OpUpdateSchedule uuid uuid uuid "bool option" "int option"
  | OpDeleteSchedule uuid uuid uuid
  | OpFire time scan_schedule        \<comment> \<open>one iteration of a tick, with the row as it was read\<close>

fun adm_apply :: "adm_env \<Rightarrow> time \<Rightarrow> adm_op \<Rightarrow> adm_db \<Rightarrow> adm_db \<Rightarrow> adm_db \<Rightarrow> adm_db" where
  "adm_apply env now (OpCreateProject ws u n desc) r c d = snd (create_project now ws u n desc d)"
| "adm_apply env now (OpUpdateProject ws pid n desc st) r c d = snd (update_project ws pid n desc st d)"
| "adm_apply env now (OpDeleteProject ws pid) r c d = snd (delete_project ws pid d)"
| "adm_apply env now (OpCreateTarget ws pid u ty val crit site) r c d =
     snd (create_target env now ws pid u ty val crit site r d)"
| "adm_apply env now (OpCriticality ws pid tid crit) r c d = snd (update_target_criticality ws pid tid crit d)"
| "adm_apply env now (OpSubmitScope ws pid tid ty proof notes til) r c d =
     snd (submit_scope now ws pid tid ty proof notes til d)"
| "adm_apply env now (OpVerifyScope ws pid tid u active til notes) r c d =
     snd (verify_scope now ws pid tid u active til notes d)"
| "adm_apply env now (OpCreateScan rq) r c d = snd (create_scan env now rq r c d)"
| "adm_apply env now (OpSetPlan ws tier u) r c d = snd (set_plan now ws tier u d)"
| "adm_apply env now (OpCreateSchedule ws pid u tid ty ms mins ai) r c d =
     snd (create_schedule now ws pid u tid ty ms mins ai d)"
| "adm_apply env now (OpUpdateSchedule ws pid i en mins) r c d = snd (update_schedule now ws pid i en mins d)"
| "adm_apply env now (OpDeleteSchedule ws pid i) r c d = snd (delete_schedule ws pid i d)"
| "adm_apply env now (OpFire tick s) r c d = snd (fire_schedule env tick now s d)"

section \<open>One table under one operation\<close>

text \<open>
  Rows are removed, rewritten without changing their fixed part, and at most one row is added: its key is
  at least \<open>n\<close> and below \<open>m\<close> (the unused keys before and after), and it has the property \<open>new\<close>.
\<close>

definition table_step ::
  "('r \<Rightarrow> uuid) \<Rightarrow> ('r \<Rightarrow> 'k) \<Rightarrow> ('r \<Rightarrow> bool) \<Rightarrow> uuid \<Rightarrow> uuid \<Rightarrow> 'r list \<Rightarrow> 'r list \<Rightarrow> bool" where
  "table_step key fixed new n m rows rows' \<longleftrightarrow>
     (\<exists>P f added. rows' = map f (filter P rows) @ added \<and> (\<forall>x. fixed (f x) = fixed x \<and> key (f x) = key x)
        \<and> (added = [] \<or> (\<exists>x. added = [x] \<and> n \<le> key x \<and> key x < m \<and> new x)))"

lemma table_step_same [intro, simp]: "table_step key fixed new n m rows rows"
  unfolding table_step_def by (rule exI [of _ "\<lambda>_. True"], rule exI [of _ id], rule exI [of _ "[]"]) simp

lemma table_step_update:
  "(\<And>x. fixed (f x) = fixed x) \<Longrightarrow> (\<And>x. key (f x) = key x) \<Longrightarrow>
    table_step key fixed new n m rows (update_where P f rows)"
  unfolding table_step_def update_where_def
  by (rule exI [of _ "\<lambda>_. True"], rule exI [of _ "\<lambda>r. if P r then f r else r"], rule exI [of _ "[]"]) simp

lemma table_step_filter: "table_step key fixed new n m rows (filter P rows)"
  unfolding table_step_def by (rule exI [of _ P], rule exI [of _ id], rule exI [of _ "[]"]) simp

lemma table_step_add:
  "n \<le> key x \<Longrightarrow> key x < m \<Longrightarrow> new x \<Longrightarrow> table_step key fixed new n m rows (rows @ [x])"
  unfolding table_step_def by (rule exI [of _ "\<lambda>_. True"], rule exI [of _ id], rule exI [of _ "[x]"]) simp

lemma table_step_add_update:
  assumes "n \<le> key x" and "key x < m" and "new (if P x then f x else x)" and "\<And>x. fixed (f x) = fixed x"
    and "\<And>x. key (f x) = key x"
  shows "table_step key fixed new n m rows (update_where P f (rows @ [x]))"
  unfolding table_step_def
  by (rule exI [of _ "\<lambda>_. True"], rule exI [of _ "\<lambda>r. if P r then f r else r"],
      rule exI [of _ "[if P x then f x else x]"]) (use assms in \<open>simp add: update_where_def\<close>)

lemma table_step_mono:
  "table_step key fixed new n m rows rows' \<Longrightarrow> (\<And>x. new x \<Longrightarrow> new' x) \<Longrightarrow> table_step key fixed new' n m rows rows'"
  unfolding table_step_def by blast

text \<open>What a later state of a table says about an earlier one: old keys name rows with the same fixed part.\<close>

definition table_evolves :: "('r \<Rightarrow> uuid) \<Rightarrow> ('r \<Rightarrow> 'k) \<Rightarrow> uuid \<Rightarrow> 'r list \<Rightarrow> 'r list \<Rightarrow> bool" where
  "table_evolves key fixed n rows rows' \<longleftrightarrow>
     (\<forall>x' \<in> set rows'. key x' < n \<longrightarrow> (\<exists>x \<in> set rows. key x = key x' \<and> fixed x = fixed x'))"

lemma table_step_evolves: "table_step key fixed new n m rows rows' \<Longrightarrow> table_evolves key fixed n rows rows'"
  unfolding table_step_def table_evolves_def by fastforce

lemma table_evolves_refl [simp]: "table_evolves key fixed n rows rows"
  by (auto simp: table_evolves_def)

lemma table_evolves_trans:
  assumes "table_evolves key fixed n a b" and "table_evolves key fixed m b c" and "n \<le> m"
  shows "table_evolves key fixed n a c"
  unfolding table_evolves_def
proof (intro ballI impI)
  fix z assume z: "z \<in> set c" "key z < n"
  then obtain y where y: "y \<in> set b" "key y = key z" "fixed y = fixed z"
    using assms(2,3) unfolding table_evolves_def by (meson order_less_le_trans)
  with z assms(1) obtain x where "x \<in> set a" "key x = key y" "fixed x = fixed y"
    unfolding table_evolves_def by force
  with y show "\<exists>x \<in> set a. key x = key z \<and> fixed x = fixed z" by auto
qed

definition keys_below :: "('r \<Rightarrow> uuid) \<Rightarrow> uuid \<Rightarrow> 'r list \<Rightarrow> bool" where
  "keys_below key n rows \<longleftrightarrow> unique_key key rows \<and> (\<forall>x \<in> set rows. key x < n)"

lemma table_step_keys:
  assumes "table_step key fixed new n m rows rows'" and "keys_below key n rows" and "n \<le> m"
  shows "keys_below key m rows'"
proof -
  from assms(1) obtain P f added where t: "rows' = map f (filter P rows) @ added" "\<And>x. key (f x) = key x"
    "added = [] \<or> (\<exists>x. added = [x] \<and> n \<le> key x \<and> key x < m \<and> new x)"
    unfolding table_step_def by blast
  have d: "distinct (map key (filter P rows))"
    using assms(2) by (simp add: keys_below_def unique_key_def distinct_map_filter)
  have b: "\<forall>x \<in> set (filter P rows). key x < n" using assms(2) by (simp add: keys_below_def)
  have "unique_key key rows'"
    using t(3) d b unfolding unique_key_def t(1) by (auto simp: t(2) comp_def)
  moreover have "\<forall>x \<in> set rows'. key x < m"
    using assms(3) b t by fastforce
  ultimately show ?thesis by (simp add: keys_below_def)
qed

text \<open>A count over the fixed part grows by one at most, and only when the added row is counted.\<close>

lemma table_step_count:
  assumes "table_step key fixed new n m rows rows'" and "\<And>x y. fixed x = fixed y \<Longrightarrow> Q x = Q y"
  shows "count_where Q rows' \<le> count_where Q rows + 1"
    and "(\<And>x. new x \<Longrightarrow> \<not> Q x) \<Longrightarrow> count_where Q rows' \<le> count_where Q rows"
proof -
  from assms(1) obtain P f added where t: "rows' = map f (filter P rows) @ added" "\<And>x. fixed (f x) = fixed x"
    "added = [] \<or> (\<exists>x. added = [x] \<and> new x)"
    unfolding table_step_def by blast
  have "Q (f x) = Q x" for x using assms(2) [OF t(2)] .
  then have c: "count_where Q (map f (filter P rows)) = count_where Q (filter P rows)"
    by (induction rows) (auto simp: count_where_def)
  have le: "count_where Q (map f (filter P rows)) \<le> count_where Q rows"
    unfolding c by (rule count_where_filter)
  show "count_where Q rows' \<le> count_where Q rows + 1"
    using t(3) le by (auto simp: t(1) count_where_append count_where_def)
  show "count_where Q rows' \<le> count_where Q rows" if "\<And>x. new x \<Longrightarrow> \<not> Q x"
    using t(3) le that by (auto simp: t(1) count_where_append count_where_def)
qed

section \<open>What admits a scan\<close>

text \<open>
  The abstract specification of an admission without the development escape hatch: what \<open>r\<close> must show of
  the target, its scope and its site, and \<open>c\<close> of the month's scans.
\<close>

definition scan_admissible ::
  "adm_env \<Rightarrow> time \<Rightarrow> scan_request \<Rightarrow> adm_db \<Rightarrow> adm_db \<Rightarrow> target_row \<Rightarrow> authorization_scope \<Rightarrow> bool" where
  "scan_admissible env now rq r c t scope \<longleftrightarrow>
     get_target (sq_workspace_id rq) (sq_project_id rq) (sq_target_id rq) r = Inr t
     \<and> is_supported (ae_supported env) (tg_type t)
     \<and> \<not> over_limit (count_scans_this_month now (sq_workspace_id rq) c)
           (pl_max_scans_per_month (plan_for (sq_workspace_id rq) c))
     \<and> (\<forall>m \<in> set (sq_requested_modules rq). find_tool m \<noteq> None)
     \<and> (\<forall>k \<in> fst ` set (sq_tool_config rq). k \<in> set ALLOWED_TOOL_CONFIG_KEYS)
     \<and> (sq_use_ai_planner rq \<longrightarrow> ae_ai_enabled env)
     \<and> latest_scope (sq_target_id rq) r = Some scope \<and> sp_verified scope
     \<and> (\<forall>till. sp_expires_at scope = Some till \<longrightarrow> now \<le> till)
     \<and> (active_modules (sq_requested_modules rq) \<noteq> [] \<longrightarrow> sp_active_testing_allowed scope)
     \<and> check_zone (sq_workspace_id rq) t r = Inr ()"

lemma unknown_modules_empty: "unknown_modules ms = [] \<longleftrightarrow> (\<forall>m \<in> set ms. find_tool m \<noteq> None)"
  by (auto simp: unknown_modules_def filter_empty_conv)

lemma unknown_tool_config_empty:
  "unknown_tool_config cfg = [] \<longleftrightarrow> (\<forall>k \<in> fst ` set cfg. k \<in> set ALLOWED_TOOL_CONFIG_KEYS)"
  by (auto simp: unknown_tool_config_def filter_empty_conv)

lemma get_current_scope_Inr:
  "get_target ws pid tid r = Inr t \<Longrightarrow>
    get_current_scope ws pid tid r = (case latest_scope tid r of
      None \<Rightarrow> Inl (AdmErr 404 ''No authorization scope submitted for this target'') | Some s \<Rightarrow> Inr s)"
  by (simp add: get_current_scope_def)

lemma check_scan_request_ok:
  "check_scan_request env rq = Inr () \<longleftrightarrow>
     (\<forall>m \<in> set (sq_requested_modules rq). find_tool m \<noteq> None)
     \<and> (\<forall>k \<in> fst ` set (sq_tool_config rq). k \<in> set ALLOWED_TOOL_CONFIG_KEYS)
     \<and> (sq_use_ai_planner rq \<longrightarrow> ae_ai_enabled env)"
  by (simp add: check_scan_request_def unknown_modules_empty unknown_tool_config_empty)

text \<open>An admissible request reaches the insertion; any other one is refused and changes nothing.\<close>

lemma create_scan_admissible:
  assumes "\<not> ae_dev_auto_authorize env" and "scan_admissible env now rq r c t scope"
  shows "create_scan env now rq r c d = insert_scan env now rq t d"
proof -
  note a = assms(2) [unfolded scan_admissible_def]
  have q: "res_bind (enforce_scan_quota now (sq_workspace_id rq) c) (\<lambda>_. check_scan_request env rq) = Inr ()"
    using a by (simp add: enforce_scan_quota_def check_scan_request_ok)
  have v: "require_verified_target env now (sq_workspace_id rq) (sq_project_id rq) (sq_target_id rq) r d = (Inr scope, d)"
    using a assms(1) by (auto simp: require_verified_target_def get_current_scope_Inr split: option.splits)
  show ?thesis using a by (auto simp: create_scan_def q v)
qed

lemma create_scan_refused:
  assumes "\<not> ae_dev_auto_authorize env" and "\<And>t scope. \<not> scan_admissible env now rq r c t scope"
  shows "\<exists>e. create_scan env now rq r c d = (Inl e, d)"
proof (cases "get_target (sq_workspace_id rq) (sq_project_id rq) (sq_target_id rq) r")
  case (Inl e)
  then show ?thesis by (simp add: create_scan_def)
next
  case t: (Inr t)
  show ?thesis
  proof (cases "is_supported (ae_supported env) (tg_type t)")
    case sup: True
    show ?thesis
    proof (cases "res_bind (enforce_scan_quota now (sq_workspace_id rq) c) (\<lambda>_. check_scan_request env rq)")
      case (Inl e)
      then show ?thesis by (simp add: create_scan_def t sup)
    next
      case q: (Inr u)
      then have q': "\<not> over_limit (count_scans_this_month now (sq_workspace_id rq) c)
           (pl_max_scans_per_month (plan_for (sq_workspace_id rq) c))" "check_scan_request env rq = Inr ()"
        by (auto simp: enforce_scan_quota_def split: if_splits)
      obtain v d1 where v: "require_verified_target env now (sq_workspace_id rq) (sq_project_id rq) (sq_target_id rq) r d
          = (v, d1)"
        by fastforce
      have d1: "d1 = d" using v assms(1)
        by (auto simp: require_verified_target_def split: sum.splits if_splits)
      show ?thesis
      proof (cases v)
        case (Inl e)
        then show ?thesis by (simp add: create_scan_def t sup q v d1)
      next
        case (Inr scope)
        with v assms(1) have sc: "latest_scope (sq_target_id rq) r = Some scope" "sp_verified scope"
          "\<forall>till. sp_expires_at scope = Some till \<longrightarrow> now \<le> till"
          by (auto simp: require_verified_target_def get_current_scope_Inr [OF t] split: option.splits if_splits)
        from assms(2) [of t scope] sc q' t sup
        have "(active_modules (sq_requested_modules rq) \<noteq> [] \<and> \<not> sp_active_testing_allowed scope)
            \<or> check_zone (sq_workspace_id rq) t r \<noteq> Inr ()"
          by (auto simp: scan_admissible_def check_scan_request_ok)
        then show ?thesis
          by (cases "check_zone (sq_workspace_id rq) t r") (auto simp: create_scan_def t sup q v d1 Inr)
      qed
    qed
  qed (simp add: create_scan_def t)
qed

text \<open>With or without the escape hatch: the state after a creation.\<close>

lemma create_scan_outcomes:
  "\<exists>d1. (d1 = d \<or> ae_dev_auto_authorize env \<and> d1 = snd (dev_auto_authorize now (sq_target_id rq) d))
     \<and> (snd (create_scan env now rq r c d) = d1
        \<or> (\<exists>t. get_target (sq_workspace_id rq) (sq_project_id rq) (sq_target_id rq) r = Inr t
            \<and> enforce_scan_quota now (sq_workspace_id rq) c = Inr ()
            \<and> snd (create_scan env now rq r c d) = snd (insert_scan env now rq t d1)))"
proof (cases "ae_dev_auto_authorize env")
  case False
  show ?thesis
  proof (cases "\<exists>t scope. scan_admissible env now rq r c t scope")
    case True
    then obtain t scope where a: "scan_admissible env now rq r c t scope" by blast
    from create_scan_admissible [OF False a] a show ?thesis
      by (intro exI [of _ d]) (auto simp: scan_admissible_def enforce_scan_quota_def)
  next
    case no: False
    then have "\<And>t scope. \<not> scan_admissible env now rq r c t scope" by blast
    from create_scan_refused [OF False this] obtain e where "create_scan env now rq r c d = (Inl e, d)" by blast
    then show ?thesis by (intro exI [of _ d]) simp
  qed
next
  case dev: True
  obtain s d1 where a: "dev_auto_authorize now (sq_target_id rq) d = (s, d1)" by fastforce
  show ?thesis
  proof (cases "get_target (sq_workspace_id rq) (sq_project_id rq) (sq_target_id rq) r")
    case (Inl e)
    then show ?thesis by (intro exI [of _ d]) (simp add: create_scan_def)
  next
    case t: (Inr t)
    show ?thesis
    proof (cases "is_supported (ae_supported env) (tg_type t)
        \<and> res_bind (enforce_scan_quota now (sq_workspace_id rq) c) (\<lambda>_. check_scan_request env rq) = Inr ()")
      case False
      then show ?thesis
        by (intro exI [of _ d]) (auto simp: create_scan_def t split: sum.splits)
    next
      case True
      then have q: "enforce_scan_quota now (sq_workspace_id rq) c = Inr ()"
        by (auto simp: res_bind_Inr_iff)
      have e: "create_scan env now rq r c d =
          (if \<not> sp_active_testing_allowed s \<and> active_modules (sq_requested_modules rq) \<noteq> []
           then (Inl (AdmErr 403 ''Active testing not authorized for this target''), d1)
           else (case check_zone (sq_workspace_id rq) t r of
                   Inl e \<Rightarrow> (Inl e, d1) | Inr _ \<Rightarrow> insert_scan env now rq t d1))"
        using True by (simp add: create_scan_def t require_verified_target_def dev a)
      have "snd (create_scan env now rq r c d) = d1
          \<or> snd (create_scan env now rq r c d) = snd (insert_scan env now rq t d1)"
        by (simp add: e split: sum.splits)
      with dev a t q show ?thesis by (intro exI [of _ d1]) auto
    qed
  qed
qed

section \<open>The tables under an operation\<close>

definition target_part :: "target_row \<Rightarrow> uuid \<times> string \<times> string \<times> string \<times> uuid option" where
  "target_part t = (tg_project_id t, tg_type t, tg_value t, tg_network_zone t, tg_site_id t)"

definition scope_part :: "authorization_scope \<Rightarrow> uuid \<times> string \<times> string \<times> time" where
  "scope_part s = (sp_target_id s, sp_proof_type s, sp_proof_reference s, sp_created_at s)"

definition scan_part :: "scan \<Rightarrow> uuid \<times> uuid \<times> uuid \<times> time" where
  "scan_part s = (sn_workspace_id s, sn_project_id s, sn_target_id s, sn_created_at s)"

definition schedule_part :: "scan_schedule \<Rightarrow> uuid \<times> uuid \<times> uuid" where
  "schedule_part s = (sd_workspace_id s, sd_project_id s, sd_target_id s)"

lemmas part_defs = target_part_def scope_part_def scan_part_def schedule_part_def

text \<open>When a row is added.\<close>

definition new_project :: "adm_db \<Rightarrow> project \<Rightarrow> bool" where
  "new_project d p \<longleftrightarrow> enforce_project_quota (pj_workspace_id p) d = Inr ()"

definition new_target :: "adm_env \<Rightarrow> adm_db \<Rightarrow> adm_db \<Rightarrow> target_row \<Rightarrow> bool" where
  "new_target env r d t \<longleftrightarrow>
     (\<exists>ws p site. get_project_row ws (tg_project_id t) r = Inr p \<and> project_by_id (tg_project_id t) d \<noteq> None
        \<and> enforce_target_quota ws d = Inr ()
        \<and> create_target_context (ae_settings env) (ae_os env) (ae_dns env) (bd_sites r) ws (tg_type t) (tg_value t) site
            = Inr (tg_network_zone t, tg_site_id t))"

definition new_scan_row :: "time \<Rightarrow> adm_db \<Rightarrow> adm_db \<Rightarrow> adm_db \<Rightarrow> scan \<Rightarrow> bool" where
  "new_scan_row now r c d s \<longleftrightarrow>
     enforce_scan_quota now (sn_workspace_id s) c = Inr () \<and> sn_created_at s = now
     \<and> (\<exists>t. get_target (sn_workspace_id s) (sn_project_id s) (sn_target_id s) r = Inr t)
     \<and> project_by_id (sn_project_id s) d \<noteq> None \<and> find_row (\<lambda>x. tg_id x = sn_target_id s) (bd_targets d) \<noteq> None"

section \<open>Single operations\<close>

lemma dispatch_scan_tables:
  "bd_tenants (snd (dispatch_scan env rq t s d)) = bd_tenants d"
  "bd_projects (snd (dispatch_scan env rq t s d)) = bd_projects d"
  "bd_targets (snd (dispatch_scan env rq t s d)) = bd_targets d"
  "bd_sites (snd (dispatch_scan env rq t s d)) = bd_sites d"
  "bd_scopes (snd (dispatch_scan env rq t s d)) = bd_scopes d"
  "bd_schedules (snd (dispatch_scan env rq t s d)) = bd_schedules d"
  "bd_next (snd (dispatch_scan env rq t s d)) = bd_next d"
  by (auto simp: dispatch_scan_def Let_def split: option.splits)

lemma dispatch_scan_scans:
  "bd_scans (snd (dispatch_scan env rq t s d)) = bd_scans d
   \<or> (\<exists>task. bd_scans (snd (dispatch_scan env rq t s d)) =
        update_where (\<lambda>x. sn_id x = sn_id s) (\<lambda>x. x\<lparr>sn_celery_task_id := Some task\<rparr>) (bd_scans d))"
  by (auto simp: dispatch_scan_def Let_def split: option.splits)

lemma insert_scan_tables:
  "bd_tenants (snd (insert_scan env now rq t d)) = bd_tenants d"
  "bd_projects (snd (insert_scan env now rq t d)) = bd_projects d"
  "bd_targets (snd (insert_scan env now rq t d)) = bd_targets d"
  "bd_sites (snd (insert_scan env now rq t d)) = bd_sites d"
  "bd_scopes (snd (insert_scan env now rq t d)) = bd_scopes d"
  "bd_schedules (snd (insert_scan env now rq t d)) = bd_schedules d"
  "bd_next d \<le> bd_next (snd (insert_scan env now rq t d))"
  by (simp_all add: insert_scan_def Let_def dispatch_scan_tables)

lemma insert_scan_scans:
  assumes "get_target (sq_workspace_id rq) (sq_project_id rq) (sq_target_id rq) r = Inr t"
    and "enforce_scan_quota now (sq_workspace_id rq) c = Inr ()"
    and "bd_projects d1 = bd_projects d" and "bd_targets d1 = bd_targets d" and "n \<le> bd_next d1"
  shows "table_step sn_id scan_part (new_scan_row now r c d) n (bd_next (snd (insert_scan env now rq t d1)))
    (bd_scans d1) (bd_scans (snd (insert_scan env now rq t d1)))"
proof -
  let ?d = "snd (insert_scan env now rq t d1)"
  let ?s = "new_scan now rq (target_zone t) (tg_site_id t) (bd_next d1)"
  show ?thesis
  proof (cases "tenant_by_id (sq_workspace_id rq) d1 = None \<or> project_by_id (sq_project_id rq) d1 = None
      \<or> find_row (\<lambda>x. tg_id x = sq_target_id rq) (bd_targets d1) = None")
    case True
    then have "?d = d1" by (simp add: insert_scan_def)
    then show ?thesis by simp
  next
    case False
    then have e: "?d = snd (dispatch_scan env rq t ?s (d1\<lparr>bd_scans := bd_scans d1 @ [?s], bd_next := bd_next d1 + 1\<rparr>))"
      by (simp only: insert_scan_def Let_def if_False)
    have n: "bd_next ?d = bd_next d1 + 1" by (simp add: e dispatch_scan_tables)
    have new: "new_scan_row now r c d ?s"
      using assms False by (simp add: new_scan_row_def new_scan_def project_by_id_def)
    have k: "n \<le> sn_id ?s" "sn_id ?s < bd_next d1 + 1" using assms(5) by (simp_all add: new_scan_def)
    have new': "new_scan_row now r c d (?s\<lparr>sn_celery_task_id := x\<rparr>)" for x
      using new by (simp add: new_scan_row_def)
    from dispatch_scan_scans [of env rq t ?s "d1\<lparr>bd_scans := bd_scans d1 @ [?s], bd_next := bd_next d1 + 1\<rparr>"]
    consider "bd_scans ?d = bd_scans d1 @ [?s]"
      | task where "bd_scans ?d = update_where (\<lambda>x. sn_id x = sn_id ?s) (\<lambda>x. x\<lparr>sn_celery_task_id := Some task\<rparr>)
          (bd_scans d1 @ [?s])"
      unfolding e by auto
    then show ?thesis
    proof cases
      case 1
      show ?thesis unfolding 1 n by (rule table_step_add) (rule k, rule k, rule new)
    next
      case 2
      show ?thesis unfolding 2 n
        by (rule table_step_add_update) (use k new' in \<open>simp_all add: part_defs\<close>)
    qed
  qed
qed

lemma dev_auto_authorize_tables:
  "bd_tenants (snd (dev_auto_authorize now tid d)) = bd_tenants d"
  "bd_projects (snd (dev_auto_authorize now tid d)) = bd_projects d"
  "bd_targets (snd (dev_auto_authorize now tid d)) = bd_targets d"
  "bd_sites (snd (dev_auto_authorize now tid d)) = bd_sites d"
  "bd_scans (snd (dev_auto_authorize now tid d)) = bd_scans d"
  "bd_schedules (snd (dev_auto_authorize now tid d)) = bd_schedules d"
  "bd_next d \<le> bd_next (snd (dev_auto_authorize now tid d))"
  by (auto simp: dev_auto_authorize_def Let_def split: option.splits)

text \<open>The five tables and the key counter after one operation.\<close>

lemmas adm_op_defs = create_project_def update_project_def delete_project_def create_target_def
  update_target_criticality_def submit_scope_def verify_scope_def set_plan_def create_schedule_def
  update_schedule_def delete_schedule_def

lemma create_scan_projects:
  "bd_projects (snd (create_scan env now rq r c d)) = bd_projects d"
  "bd_targets (snd (create_scan env now rq r c d)) = bd_targets d"
  "bd_tenants (snd (create_scan env now rq r c d)) = bd_tenants d"
  "bd_sites (snd (create_scan env now rq r c d)) = bd_sites d"
  "bd_schedules (snd (create_scan env now rq r c d)) = bd_schedules d"
  "bd_next d \<le> bd_next (snd (create_scan env now rq r c d))"
  using create_scan_outcomes [of d env now rq r c]
  by (auto simp: insert_scan_tables dev_auto_authorize_tables
      intro: order_trans [OF dev_auto_authorize_tables(7) insert_scan_tables(7)])

lemma create_scan_scans:
  "table_step sn_id scan_part (new_scan_row now r c d) (bd_next d) (bd_next (snd (create_scan env now rq r c d)))
    (bd_scans d) (bd_scans (snd (create_scan env now rq r c d)))"
proof -
  from create_scan_outcomes [of d env now rq r c]
  obtain d1 where d1: "d1 = d \<or> ae_dev_auto_authorize env \<and> d1 = snd (dev_auto_authorize now (sq_target_id rq) d)"
    and o: "snd (create_scan env now rq r c d) = d1
        \<or> (\<exists>t. get_target (sq_workspace_id rq) (sq_project_id rq) (sq_target_id rq) r = Inr t
            \<and> enforce_scan_quota now (sq_workspace_id rq) c = Inr ()
            \<and> snd (create_scan env now rq r c d) = snd (insert_scan env now rq t d1))"
    by blast
  have e: "bd_projects d1 = bd_projects d" "bd_targets d1 = bd_targets d" "bd_scans d1 = bd_scans d"
    "bd_next d \<le> bd_next d1"
    using d1 by (auto simp: dev_auto_authorize_tables)
  from o consider "snd (create_scan env now rq r c d) = d1"
    | t where "get_target (sq_workspace_id rq) (sq_project_id rq) (sq_target_id rq) r = Inr t"
        "enforce_scan_quota now (sq_workspace_id rq) c = Inr ()"
        "snd (create_scan env now rq r c d) = snd (insert_scan env now rq t d1)"
    by blast
  then show ?thesis
  proof cases
    case 1
    then show ?thesis by (simp add: e)
  next
    case 2
    from insert_scan_scans [OF 2(1,2) e(1,2,4)] show ?thesis by (simp add: 2(3) e(3))
  qed
qed

lemma claim_schedule_tables:
  "bd_tenants (snd (claim_schedule now next i d)) = bd_tenants d"
  "bd_projects (snd (claim_schedule now next i d)) = bd_projects d"
  "bd_targets (snd (claim_schedule now next i d)) = bd_targets d"
  "bd_sites (snd (claim_schedule now next i d)) = bd_sites d"
  "bd_scopes (snd (claim_schedule now next i d)) = bd_scopes d"
  "bd_scans (snd (claim_schedule now next i d)) = bd_scans d"
  "bd_next (snd (claim_schedule now next i d)) = bd_next d"
  by (simp_all add: claim_schedule_def Let_def)

lemma note_tables:
  "bd_tenants (note_launched i sid d) = bd_tenants d" "bd_tenants (note_failed i e d) = bd_tenants d"
  "bd_projects (note_launched i sid d) = bd_projects d" "bd_projects (note_failed i e d) = bd_projects d"
  "bd_targets (note_launched i sid d) = bd_targets d" "bd_targets (note_failed i e d) = bd_targets d"
  "bd_sites (note_launched i sid d) = bd_sites d" "bd_sites (note_failed i e d) = bd_sites d"
  "bd_scopes (note_launched i sid d) = bd_scopes d" "bd_scopes (note_failed i e d) = bd_scopes d"
  "bd_scans (note_launched i sid d) = bd_scans d" "bd_scans (note_failed i e d) = bd_scans d"
  "bd_next (note_launched i sid d) = bd_next d" "bd_next (note_failed i e d) = bd_next d"
  by (simp_all add: note_launched_def note_failed_def)

text \<open>A fired schedule: its claim, then a creation whose reads and count are of that state, then its note.\<close>

lemma fire_schedule_cases:
  obtains (idle) "\<not> fst (claim_schedule tick (compute_next_run tick (sd_interval_minutes s)) (sd_id s) d)"
      "snd (fire_schedule env tick now s d) = snd (claim_schedule tick (compute_next_run tick (sd_interval_minutes s)) (sd_id s) d)"
  | (launched) d1 sid where "d1 = snd (claim_schedule tick (compute_next_run tick (sd_interval_minutes s)) (sd_id s) d)"
      "fst (claim_schedule tick (compute_next_run tick (sd_interval_minutes s)) (sd_id s) d)"
      "snd (fire_schedule env tick now s d) =
         note_launched (sd_id s) sid (snd (create_scan env now (schedule_request s) d1 d1 d1))"
  | (skipped) d1 e where "d1 = snd (claim_schedule tick (compute_next_run tick (sd_interval_minutes s)) (sd_id s) d)"
      "fst (claim_schedule tick (compute_next_run tick (sd_interval_minutes s)) (sd_id s) d)"
      "snd (fire_schedule env tick now s d) =
         note_failed (sd_id s) e (snd (create_scan env now (schedule_request s) d1 d1 d1))"
proof -
  obtain won d1 where c: "claim_schedule tick (compute_next_run tick (sd_interval_minutes s)) (sd_id s) d = (won, d1)"
    by fastforce
  obtain res d2 where q: "create_scan env now (schedule_request s) d1 d1 d1 = (res, d2)" by fastforce
  show thesis
  proof (cases won)
    case False
    then show thesis using idle c by (simp add: fire_schedule_def)
  next
    case True
    then show thesis
      using c q launched [of d1] skipped [of d1] by (cases res) (auto simp: fire_schedule_def)
  qed
qed

lemma new_scan_row_cong:
  "bd_tenants r' = bd_tenants r \<Longrightarrow> bd_projects r' = bd_projects r \<Longrightarrow> bd_targets r' = bd_targets r \<Longrightarrow>
   bd_scans r' = bd_scans r \<Longrightarrow> new_scan_row now r' r' r' s = new_scan_row now r r r s"
  by (simp add: new_scan_row_def enforce_scan_quota_def count_scans_this_month_def plan_for_def tenant_by_id_def
      get_target_def get_project_row_def project_by_id_def)

lemma fire_schedule_tables:
  "bd_projects (snd (fire_schedule env tick now s d)) = bd_projects d"
  "bd_targets (snd (fire_schedule env tick now s d)) = bd_targets d"
  "bd_tenants (snd (fire_schedule env tick now s d)) = bd_tenants d"
  "bd_sites (snd (fire_schedule env tick now s d)) = bd_sites d"
  "bd_next d \<le> bd_next (snd (fire_schedule env tick now s d))"
  by (cases rule: fire_schedule_cases [of tick s d env now];
      simp add: note_tables create_scan_projects claim_schedule_tables;
      metis create_scan_projects(6) claim_schedule_tables(7))+

lemma fire_schedule_scans:
  "table_step sn_id scan_part (new_scan_row now d d d) (bd_next d) (bd_next (snd (fire_schedule env tick now s d)))
    (bd_scans d) (bd_scans (snd (fire_schedule env tick now s d)))"
proof -
  have creation: "table_step sn_id scan_part (new_scan_row now d d d) (bd_next d)
      (bd_next (snd (create_scan env now (schedule_request s) d1 d1 d1))) (bd_scans d)
      (bd_scans (snd (create_scan env now (schedule_request s) d1 d1 d1)))"
    if "d1 = snd (claim_schedule tick (compute_next_run tick (sd_interval_minutes s)) (sd_id s) d)" for d1
  proof -
    have e: "new_scan_row now d1 d1 d1 = new_scan_row now d d d"
      by (rule ext, rule new_scan_row_cong) (simp_all add: that claim_schedule_tables)
    show ?thesis
      using create_scan_scans [of now d1 d1 d1 env "schedule_request s"]
      by (simp add: e) (simp add: that claim_schedule_tables)
  qed
  show ?thesis
    by (cases rule: fire_schedule_cases [of tick s d env now])
      (simp_all add: note_tables claim_schedule_tables creation)
qed

lemma adm_next_mono: "bd_next d \<le> bd_next (adm_apply env now op r c d)"
  by (cases op)
    (auto simp: adm_op_defs create_scan_projects fire_schedule_tables Let_def split: sum.splits option.splits if_splits)

lemma adm_projects_step:
  "table_step pj_id pj_workspace_id (new_project d) (bd_next d) (bd_next (adm_apply env now op r c d))
    (bd_projects d) (bd_projects (adm_apply env now op r c d))"
proof (cases op)
  case (OpCreateProject ws u n desc)
  then show ?thesis
    by (auto simp: create_project_def new_project_def Let_def intro!: table_step_add split: sum.splits)
qed (auto simp: adm_op_defs create_scan_projects fire_schedule_tables Let_def
    intro!: table_step_update table_step_filter split: sum.splits option.splits if_splits)

lemma adm_targets_step:
  "table_step tg_id target_part (new_target env r d) (bd_next d) (bd_next (adm_apply env now op r c d))
    (bd_targets d) (bd_targets (adm_apply env now op r c d))"
proof (cases op)
  case (OpCreateTarget ws pid u ty val crit site)
  then show ?thesis
    by (auto simp: create_target_def new_target_def Let_def intro!: table_step_add exI split: sum.splits prod.splits)
qed (auto simp: adm_op_defs create_scan_projects fire_schedule_tables Let_def part_defs
    intro!: table_step_update table_step_filter split: sum.splits option.splits if_splits)

lemma adm_scans_step:
  "table_step sn_id scan_part (\<lambda>s. new_scan_row now r c d s \<or> new_scan_row now d d d s) (bd_next d)
    (bd_next (adm_apply env now op r c d)) (bd_scans d) (bd_scans (adm_apply env now op r c d))"
proof (cases op)
  case (OpCreateScan rq)
  then show ?thesis
    using table_step_mono [OF create_scan_scans [of now r c d env rq]] by simp
next
  case (OpFire tick s)
  then show ?thesis using table_step_mono [OF fire_schedule_scans [of now d env tick s]] by simp
qed (auto simp: adm_op_defs Let_def intro!: table_step_filter split: sum.splits option.splits if_splits)

section \<open>Well-formed states\<close>

text \<open>
  Keys are unique and below \<open>bd_next\<close>; a target has a project, and a target with a site is private and its
  site belongs to the project's workspace; a scan has a target of its own project, and its workspace is its
  project's.
\<close>

definition target_owned :: "adm_db \<Rightarrow> target_row \<Rightarrow> bool" where
  "target_owned d t \<longleftrightarrow>
     (\<exists>p \<in> set (bd_projects d). pj_id p = tg_project_id t
        \<and> (tg_network_zone t = ''private'' \<longleftrightarrow> tg_site_id t \<noteq> None)
        \<and> (\<forall>i. tg_site_id t = Some i \<longrightarrow>
              (\<exists>site \<in> set (bd_sites d). ps_id site = i \<and> ps_workspace_id site = pj_workspace_id p)))"

definition scan_owned :: "adm_db \<Rightarrow> scan \<Rightarrow> bool" where
  "scan_owned d s \<longleftrightarrow>
     (\<exists>t \<in> set (bd_targets d). tg_id t = sn_target_id s \<and> tg_project_id t = sn_project_id s)
     \<and> (\<exists>p \<in> set (bd_projects d). pj_id p = sn_project_id s \<and> pj_workspace_id p = sn_workspace_id s)"

definition adm_ok :: "adm_db \<Rightarrow> bool" where
  "adm_ok d \<longleftrightarrow>
     keys_below pj_id (bd_next d) (bd_projects d) \<and> keys_below tg_id (bd_next d) (bd_targets d)
     \<and> keys_below sn_id (bd_next d) (bd_scans d)
     \<and> (\<forall>t \<in> set (bd_targets d). target_owned d t) \<and> (\<forall>s \<in> set (bd_scans d). scan_owned d s)"

text \<open>What the rest of the platform may change: sites, scans' progress, tenants' states, audit rows,
  and (when a tenant is deleted) the switch of a schedule.\<close>

definition elsewhere :: "adm_db \<Rightarrow> adm_db \<Rightarrow> bool" where
  "elsewhere d d' \<longleftrightarrow>
     bd_projects d' = bd_projects d \<and> bd_targets d' = bd_targets d \<and> bd_scopes d' = bd_scopes d
     \<and> (\<exists>P. bd_schedules d' = update_where P (\<lambda>s. s\<lparr>sd_enabled := False\<rparr>) (bd_schedules d))
     \<and> bd_next d \<le> bd_next d'
     \<and> table_step sn_id scan_part (\<lambda>_. False) (bd_next d) (bd_next d') (bd_scans d) (bd_scans d')
     \<and> (\<forall>ws. plan_for ws d' = plan_for ws d)
     \<and> (\<forall>s \<in> set (bd_sites d). \<exists>s' \<in> set (bd_sites d'). ps_id s' = ps_id s \<and> ps_workspace_id s' = ps_workspace_id s)"

section \<open>Histories\<close>

text \<open>
  The state in which the scans are counted is the one of the commit, because the row lock is held from the
  count to the commit; only with the escape hatch, whose commit in between releases the lock, can it be older.
\<close>

fun op_read :: "time \<Rightarrow> adm_op \<Rightarrow> adm_db \<Rightarrow> bool" where
  "op_read now (OpFire tick s) r = (s \<in> set (due_schedules tick r) \<and> tick \<le> now)"
| "op_read now _ r = True"

text \<open>
  Schedules have unique keys, an interval in range, and are not due again before the shortest interval after
  their last occurrence.
\<close>

definition MIN_GAP :: int where "MIN_GAP = MIN_INTERVAL_MINUTES * USEC_PER_MINUTE"

definition schedule_ok :: "time \<Rightarrow> scan_schedule \<Rightarrow> bool" where
  "schedule_ok t s \<longleftrightarrow> interval_ok (sd_interval_minutes s)
     \<and> (\<forall>u. sd_last_run_at s = Some u \<longrightarrow> u \<le> t \<and> u + MIN_GAP \<le> sd_next_run_at s)"

definition schedules_ok :: "time \<Rightarrow> adm_db \<Rightarrow> bool" where
  "schedules_ok t d \<longleftrightarrow> keys_below sd_id (bd_next d) (bd_schedules d) \<and> (\<forall>s \<in> set (bd_schedules d). schedule_ok t s)"

inductive adm_history :: "adm_env \<Rightarrow> (time \<times> adm_db) list \<Rightarrow> bool" for env where
  start: "adm_ok d \<Longrightarrow> schedules_ok t d \<Longrightarrow> adm_history env [(t, d)]"
| request: "adm_history env ((t, d) # h) \<Longrightarrow> t \<le> now \<Longrightarrow> (tr, r) \<in> set ((t, d) # h) \<Longrightarrow>
    (tc, c) \<in> set ((t, d) # h) \<Longrightarrow> (\<not> ae_dev_auto_authorize env \<Longrightarrow> c = d) \<Longrightarrow> op_read now op r \<Longrightarrow>
    adm_history env ((now, adm_apply env now op r c d) # (t, d) # h)"
| other: "adm_history env ((t, d) # h) \<Longrightarrow> t \<le> now \<Longrightarrow> elsewhere d d' \<Longrightarrow>
    adm_history env ((now, d') # (t, d) # h)"

inductive_cases adm_history_NilE: "adm_history env []"
inductive_cases adm_history_ConsE: "adm_history env (x # h)"

text \<open>What a read of an earlier state still says when the write happens.\<close>

definition adm_evolves :: "adm_db \<Rightarrow> adm_db \<Rightarrow> bool" where
  "adm_evolves r d \<longleftrightarrow>
     bd_next r \<le> bd_next d
     \<and> table_evolves pj_id pj_workspace_id (bd_next r) (bd_projects r) (bd_projects d)
     \<and> table_evolves tg_id target_part (bd_next r) (bd_targets r) (bd_targets d)
     \<and> (\<forall>s \<in> set (bd_sites r). \<exists>s' \<in> set (bd_sites d). ps_id s' = ps_id s \<and> ps_workspace_id s' = ps_workspace_id s)"

lemma adm_evolves_refl [simp]: "adm_evolves d d"
  by (auto simp: adm_evolves_def)

lemma adm_evolves_trans: "adm_evolves a b \<Longrightarrow> adm_evolves b c \<Longrightarrow> adm_evolves a c"
  unfolding adm_evolves_def
  by (intro conjI; (meson order_trans table_evolves_trans)?) (metis (no_types))

lemma adm_sites_step: "bd_sites (adm_apply env now op r c d) = bd_sites d"
  by (cases op)
    (auto simp: adm_op_defs create_scan_projects fire_schedule_tables Let_def split: sum.splits option.splits if_splits)

lemma adm_apply_evolves: "adm_evolves d (adm_apply env now op r c d)"
  using adm_next_mono table_step_evolves [OF adm_projects_step] table_step_evolves [OF adm_targets_step]
  by (auto simp: adm_evolves_def adm_sites_step)

lemma elsewhere_evolves: "elsewhere d d' \<Longrightarrow> adm_evolves d d'"
  by (simp add: elsewhere_def adm_evolves_def)

lemma history_evolves:
  "adm_history env ((t, d) # h) \<Longrightarrow> (tr, r) \<in> set ((t, d) # h) \<Longrightarrow> adm_evolves r d"
proof (induction "(t, d) # h" arbitrary: t d h rule: adm_history.induct)
  case (request t d h now tr' r' tc c op)
  show ?case
  proof (cases "(tr, r) \<in> set ((t, d) # h)")
    case True
    then show ?thesis using request(2) adm_evolves_trans [OF _ adm_apply_evolves] by blast
  qed (use request in auto)
next
  case (other t d h now d')
  show ?case
  proof (cases "(tr, r) \<in> set ((t, d) # h)")
    case True
    then show ?thesis using other(2) adm_evolves_trans [OF _ elsewhere_evolves [OF other(4)]] by blast
  qed (use other in auto)
qed auto

section \<open>Ownership is kept\<close>

lemma create_target_context_site:
  assumes "create_target_context st os backend sites ws ty val site = Inr (zone, site_id)"
  shows "(zone = ''private'' \<longleftrightarrow> site_id \<noteq> None)
    \<and> (\<forall>i. site_id = Some i \<longrightarrow> (\<exists>s \<in> set sites. ps_id s = i \<and> ps_workspace_id s = ws))"
proof (cases site)
  case None
  then show ?thesis using assms by (auto simp: create_target_context_def res_bind_Inr_iff)
next
  case (Some sid)
  with assms obtain s where s: "get_site_for_workspace sites sid ws = Inr s" "zone = ''private''" "site_id = Some (ps_id s)"
    by (auto simp: create_target_context_def res_bind_Inr_iff site_step_def split: sum.splits if_splits option.splits)
  then have "s \<in> set sites" "ps_workspace_id s = ws"
    by (auto simp: get_site_for_workspace_def dest: find_row_Some split: option.splits if_splits)
  with s show ?thesis by auto
qed

text \<open>Only the deletion of a project removes a project or a target.\<close>

definition rows_kept :: "('r \<Rightarrow> uuid) \<Rightarrow> ('r \<Rightarrow> 'k) \<Rightarrow> 'r list \<Rightarrow> 'r list \<Rightarrow> bool" where
  "rows_kept key fixed rows rows' \<longleftrightarrow> (\<forall>x \<in> set rows. \<exists>x' \<in> set rows'. key x' = key x \<and> fixed x' = fixed x)"

lemma rows_kept_intros [simp]:
  "rows_kept key fixed rows rows"
  "rows_kept key fixed rows (rows @ xs)"
  by (auto simp: rows_kept_def)

lemma rows_kept_update:
  assumes "\<And>x. key (f x) = key x" and "\<And>x. fixed (f x) = fixed x"
  shows "rows_kept key fixed rows (update_where P f rows)"
  unfolding rows_kept_def
proof
  fix x assume "x \<in> set rows"
  then have "(if P x then f x else x) \<in> set (update_where P f rows)" by (simp add: set_update_where)
  then show "\<exists>x' \<in> set (update_where P f rows). key x' = key x \<and> fixed x' = fixed x"
    by (rule bexI [rotated]) (simp add: assms)
qed

lemma adm_rows_kept:
  assumes "\<And>ws pid. op \<noteq> OpDeleteProject ws pid"
  shows "rows_kept pj_id pj_workspace_id (bd_projects d) (bd_projects (adm_apply env now op r c d))"
    and "rows_kept tg_id target_part (bd_targets d) (bd_targets (adm_apply env now op r c d))"
  using assms
  by (cases op; auto simp: adm_op_defs create_scan_projects fire_schedule_tables Let_def part_defs
      intro!: rows_kept_update split: sum.splits option.splits if_splits)+

lemma target_owned_kept:
  assumes "target_owned d t" and "rows_kept pj_id pj_workspace_id (bd_projects d) (bd_projects d')"
    and "\<forall>s \<in> set (bd_sites d). \<exists>s' \<in> set (bd_sites d'). ps_id s' = ps_id s \<and> ps_workspace_id s' = ps_workspace_id s"
    and "target_part t' = target_part t"
  shows "target_owned d' t'"
proof -
  from assms(1) obtain p where p: "p \<in> set (bd_projects d)" "pj_id p = tg_project_id t"
    "tg_network_zone t = ''private'' \<longleftrightarrow> tg_site_id t \<noteq> None"
    "\<forall>i. tg_site_id t = Some i \<longrightarrow> (\<exists>site \<in> set (bd_sites d). ps_id site = i \<and> ps_workspace_id site = pj_workspace_id p)"
    unfolding target_owned_def by blast
  from p(1) assms(2) obtain p' where p': "p' \<in> set (bd_projects d')" "pj_id p' = pj_id p" "pj_workspace_id p' = pj_workspace_id p"
    unfolding rows_kept_def by blast
  have t: "tg_project_id t' = tg_project_id t" "tg_network_zone t' = tg_network_zone t" "tg_site_id t' = tg_site_id t"
    using assms(4) by (simp_all add: target_part_def)
  have "\<exists>site \<in> set (bd_sites d'). ps_id site = i \<and> ps_workspace_id site = pj_workspace_id p'"
    if "tg_site_id t' = Some i" for i
    using that p(4) assms(3) p'(3) t(3) by metis
  with p' p(2,3) t show ?thesis unfolding target_owned_def by auto
qed

lemma scan_owned_kept:
  assumes "scan_owned d s" and "rows_kept pj_id pj_workspace_id (bd_projects d) (bd_projects d')"
    and "rows_kept tg_id target_part (bd_targets d) (bd_targets d')" and "scan_part s' = scan_part s"
  shows "scan_owned d' s'"
proof -
  have e: "sn_workspace_id s' = sn_workspace_id s" "sn_project_id s' = sn_project_id s" "sn_target_id s' = sn_target_id s"
    using assms(4) by (simp_all add: scan_part_def)
  from assms(1) obtain t p where tp: "t \<in> set (bd_targets d)" "tg_id t = sn_target_id s" "tg_project_id t = sn_project_id s"
    "p \<in> set (bd_projects d)" "pj_id p = sn_project_id s" "pj_workspace_id p = sn_workspace_id s"
    unfolding scan_owned_def by blast
  from tp(1) assms(3) obtain t' where "t' \<in> set (bd_targets d')" "tg_id t' = tg_id t" "tg_project_id t' = tg_project_id t"
    unfolding rows_kept_def target_part_def by (metis fst_conv)
  moreover from tp(4) assms(2) obtain p' where "p' \<in> set (bd_projects d')" "pj_id p' = pj_id p"
    "pj_workspace_id p' = pj_workspace_id p"
    unfolding rows_kept_def by metis
  ultimately show ?thesis using tp unfolding scan_owned_def e by metis
qed

lemma table_step_rows:
  assumes "table_step key fixed new n m rows rows'" and "x' \<in> set rows'"
  shows "(\<exists>x \<in> set rows. fixed x' = fixed x) \<or> new x'"
proof -
  from assms(1) obtain P f added where t: "rows' = map f (filter P rows) @ added" "\<And>x. fixed (f x) = fixed x"
    "added = [] \<or> (\<exists>x. added = [x] \<and> new x)"
    unfolding table_step_def by blast
  from assms(2) t show ?thesis by auto
qed

lemma project_by_id_Some: "project_by_id pid d = Some p \<Longrightarrow> p \<in> set (bd_projects d) \<and> pj_id p = pid"
  unfolding project_by_id_def by (drule find_row_Some) simp

lemma get_project_row_Inr:
  "get_project_row ws pid d = Inr p \<Longrightarrow> p \<in> set (bd_projects d) \<and> pj_id p = pid \<and> pj_workspace_id p = ws"
  by (auto simp: get_project_row_def dest: find_row_Some split: option.splits)

lemma get_target_Inr:
  assumes "get_target ws pid tid d = Inr t"
  shows "t \<in> set (bd_targets d) \<and> tg_id t = tid \<and> tg_project_id t = pid"
    and "\<exists>p. get_project_row ws pid d = Inr p"
  using assms by (auto simp: get_target_def res_bind_Inr_iff dest: find_row_Some split: option.splits)

text \<open>A project read earlier that still exists has the workspace it had.\<close>

lemma read_project:
  assumes "adm_ok r" and "adm_evolves r d" and "get_project_row ws pid r = Inr p" and "project_by_id pid d = Some q"
  shows "q \<in> set (bd_projects d) \<and> pj_id q = pid \<and> pj_workspace_id q = ws"
proof -
  from get_project_row_Inr [OF assms(3)] have p: "p \<in> set (bd_projects r)" "pj_id p = pid" "pj_workspace_id p = ws" by auto
  from project_by_id_Some [OF assms(4)] have q: "q \<in> set (bd_projects d)" "pj_id q = pid" by auto
  from assms(1) p have "pid < bd_next r" "unique_key pj_id (bd_projects r)"
    by (auto simp: adm_ok_def keys_below_def)
  with assms(2) q obtain p2 where "p2 \<in> set (bd_projects r)" "pj_id p2 = pj_id q" "pj_workspace_id p2 = pj_workspace_id q"
    unfolding adm_evolves_def table_evolves_def by metis
  with p q show ?thesis using unique_key_eq [OF \<open>unique_key pj_id (bd_projects r)\<close>] by metis
qed

lemma read_target:
  assumes "adm_ok r" and "adm_evolves r d" and "get_target ws pid tid r = Inr t"
    and "find_row (\<lambda>x. tg_id x = tid) (bd_targets d) = Some u"
  shows "u \<in> set (bd_targets d) \<and> tg_id u = tid \<and> target_part u = target_part t"
proof -
  from get_target_Inr(1) [OF assms(3)] have t: "t \<in> set (bd_targets r)" "tg_id t = tid" by auto
  from find_row_Some [OF assms(4)] have u: "u \<in> set (bd_targets d)" "tg_id u = tid" by auto
  from assms(1) t have "tid < bd_next r" and uk: "unique_key tg_id (bd_targets r)"
    by (auto simp: adm_ok_def keys_below_def)
  with assms(2) u obtain t2 where "t2 \<in> set (bd_targets r)" "tg_id t2 = tg_id u" "target_part t2 = target_part u"
    unfolding adm_evolves_def table_evolves_def by metis
  with t u show ?thesis using unique_key_eq [OF uk] by metis
qed

lemma new_target_owned:
  assumes "adm_ok r" and "adm_evolves r d" and "new_target env r d t"
  shows "target_owned d t"
proof -
  from assms(3) obtain ws p site q where n: "get_project_row ws (tg_project_id t) r = Inr p"
    "project_by_id (tg_project_id t) d = Some q"
    "create_target_context (ae_settings env) (ae_os env) (ae_dns env) (bd_sites r) ws (tg_type t) (tg_value t) site
      = Inr (tg_network_zone t, tg_site_id t)"
    unfolding new_target_def by blast
  have q: "q \<in> set (bd_projects d)" "pj_id q = tg_project_id t" "pj_workspace_id q = ws"
    using read_project [OF assms(1,2) n(1,2)] by auto
  note c = create_target_context_site [OF n(3)]
  have "\<exists>site \<in> set (bd_sites d). ps_id site = i \<and> ps_workspace_id site = pj_workspace_id q" if "tg_site_id t = Some i" for i
    using that c assms(2) q(3) unfolding adm_evolves_def by metis
  with q c show ?thesis unfolding target_owned_def by auto
qed

lemma new_scan_owned:
  assumes "adm_ok r" and "adm_evolves r d" and "new_scan_row now r c d s"
  shows "scan_owned d s"
proof -
  from assms(3) obtain t q u where n: "get_target (sn_workspace_id s) (sn_project_id s) (sn_target_id s) r = Inr t"
    "project_by_id (sn_project_id s) d = Some q" "find_row (\<lambda>x. tg_id x = sn_target_id s) (bd_targets d) = Some u"
    unfolding new_scan_row_def by blast
  from get_target_Inr [OF n(1)] obtain p where p: "get_project_row (sn_workspace_id s) (sn_project_id s) r = Inr p"
    "tg_project_id t = sn_project_id s" by blast
  from read_project [OF assms(1,2) p(1) n(2)] read_target [OF assms(1,2) n(1,3)] p(2)
  show ?thesis unfolding scan_owned_def target_part_def by auto
qed

lemma delete_project_ok:
  assumes ok: "adm_ok d"
  shows "adm_ok (snd (delete_project ws pid d))"
proof (cases "get_project_row ws pid d")
  case (Inl e)
  then show ?thesis using ok by (simp add: delete_project_def)
next
  case (Inr p)
  let ?d = "snd (delete_project ws pid d)"
  have e: "bd_projects ?d = filter (\<lambda>p. pj_id p \<noteq> pid) (bd_projects d)"
    "bd_targets ?d = filter (\<lambda>t. tg_project_id t \<noteq> pid) (bd_targets d)"
    "set (bd_scans ?d) \<subseteq> {s \<in> set (bd_scans d). sn_project_id s \<noteq> pid}" "bd_sites ?d = bd_sites d"
    by (auto simp: delete_project_def Inr Let_def)
  have keys: "keys_below pj_id (bd_next ?d) (bd_projects ?d)" "keys_below tg_id (bd_next ?d) (bd_targets ?d)"
    "keys_below sn_id (bd_next ?d) (bd_scans ?d)"
    using ok adm_projects_step [of d env now "OpDeleteProject ws pid" d d] adm_targets_step [of env d d now "OpDeleteProject ws pid" d]
      adm_scans_step [of now d d d env "OpDeleteProject ws pid"] adm_next_mono [of d env now "OpDeleteProject ws pid" d d]
    by (auto simp: adm_ok_def intro: table_step_keys)
  have "target_owned ?d t" if "t \<in> set (bd_targets ?d)" for t
  proof -
    from that e(2) have "t \<in> set (bd_targets d)" "tg_project_id t \<noteq> pid" by auto
    with ok have "target_owned d t" by (simp add: adm_ok_def)
    then obtain p where "p \<in> set (bd_projects d)" "pj_id p = tg_project_id t"
      "tg_network_zone t = ''private'' \<longleftrightarrow> tg_site_id t \<noteq> None"
      "\<forall>i. tg_site_id t = Some i \<longrightarrow> (\<exists>site \<in> set (bd_sites d). ps_id site = i \<and> ps_workspace_id site = pj_workspace_id p)"
      unfolding target_owned_def by blast
    with \<open>tg_project_id t \<noteq> pid\<close> show ?thesis
      unfolding target_owned_def e by (intro bexI [of _ p]) auto
  qed
  moreover have "scan_owned ?d s" if "s \<in> set (bd_scans ?d)" for s
  proof -
    from that e(3) have "s \<in> set (bd_scans d)" "sn_project_id s \<noteq> pid" by auto
    moreover from this ok have "scan_owned d s" by (simp add: adm_ok_def)
    ultimately show ?thesis unfolding scan_owned_def e by auto
  qed
  ultimately show ?thesis using keys by (simp add: adm_ok_def)
qed

lemma adm_apply_ok:
  assumes "adm_ok r" and "adm_evolves r d" and ok: "adm_ok d"
  shows "adm_ok (adm_apply env now op r c d)"
proof (cases "\<exists>ws pid. op = OpDeleteProject ws pid")
  case True
  then show ?thesis using delete_project_ok [OF ok] by auto
next
  case False
  then have no: "\<And>ws pid. op \<noteq> OpDeleteProject ws pid" by blast
  let ?d = "adm_apply env now op r c d"
  note kept = adm_rows_kept [OF no, of d env now r c]
  have sites: "\<forall>s \<in> set (bd_sites d). \<exists>s' \<in> set (bd_sites ?d). ps_id s' = ps_id s \<and> ps_workspace_id s' = ps_workspace_id s"
    by (auto simp: adm_sites_step)
  have "target_owned ?d t" if "t \<in> set (bd_targets ?d)" for t
    using table_step_rows [OF adm_targets_step that]
  proof (elim disjE bexE)
    fix u assume "u \<in> set (bd_targets d)" "target_part t = target_part u"
    with ok show ?thesis by (auto simp: adm_ok_def intro: target_owned_kept [OF _ kept(1) sites])
  next
    assume "new_target env r d t"
    from new_target_owned [OF assms(1,2) this] show ?thesis by (rule target_owned_kept [OF _ kept(1) sites]) simp
  qed
  moreover have "scan_owned ?d s" if "s \<in> set (bd_scans ?d)" for s
    using table_step_rows [OF adm_scans_step that]
  proof (elim disjE bexE)
    fix u assume "u \<in> set (bd_scans d)" "scan_part s = scan_part u"
    with ok show ?thesis by (auto simp: adm_ok_def intro: scan_owned_kept [OF _ kept])
  next
    assume "new_scan_row now r c d s"
    from new_scan_owned [OF assms(1,2) this] show ?thesis by (rule scan_owned_kept [OF _ kept]) simp
  next
    assume "new_scan_row now d d d s"
    from new_scan_owned [OF ok adm_evolves_refl this] show ?thesis by (rule scan_owned_kept [OF _ kept]) simp
  qed
  ultimately show ?thesis
    using ok adm_next_mono [of d env now op r c]
    by (auto simp: adm_ok_def intro: table_step_keys [OF adm_projects_step] table_step_keys [OF adm_targets_step]
        table_step_keys [OF adm_scans_step])
qed

lemma elsewhere_ok:
  assumes "elsewhere d d'" and "adm_ok d"
  shows "adm_ok d'"
proof -
  note e = assms(1) [unfolded elsewhere_def]
  have p: "rows_kept pj_id pj_workspace_id (bd_projects d) (bd_projects d')"
    and t: "rows_kept tg_id target_part (bd_targets d) (bd_targets d')" using e by simp_all
  have "target_owned d' x" if "x \<in> set (bd_targets d')" for x
    by (rule target_owned_kept [OF _ p]) (use that assms in \<open>auto simp: elsewhere_def adm_ok_def\<close>)
  moreover have "scan_owned d' s" if "s \<in> set (bd_scans d')" for s
  proof -
    from e have st: "table_step sn_id scan_part (\<lambda>_. False) (bd_next d) (bd_next d') (bd_scans d) (bd_scans d')" by blast
    from table_step_rows [OF st that] obtain u where "u \<in> set (bd_scans d)" "scan_part s = scan_part u" by blast
    with assms(2) show ?thesis by (auto simp: adm_ok_def intro: scan_owned_kept [OF _ p t])
  qed
  moreover have "keys_below sn_id (bd_next d') (bd_scans d')"
    using e assms(2) by (auto simp: adm_ok_def intro: table_step_keys)
  moreover have "keys_below pj_id (bd_next d') (bd_projects d')" "keys_below tg_id (bd_next d') (bd_targets d')"
    using e assms(2) by (auto simp: adm_ok_def keys_below_def)
  ultimately show ?thesis by (simp add: adm_ok_def)
qed

lemma history_ok: "adm_history env h \<Longrightarrow> (t, d) \<in> set h \<Longrightarrow> adm_ok d"
proof (induction arbitrary: t d rule: adm_history.induct)
  case (request t0 d0 h now tr r tc c op)
  have "adm_ok (adm_apply env now op r c d0)"
    by (rule adm_apply_ok) (use request history_evolves [OF request(1,3)] in auto)
  with request show ?case by auto
next
  case (other t0 d0 h now d')
  have "adm_ok d'" by (rule elsewhere_ok [OF other(3)]) (use other in auto)
  with other show ?case by auto
qed auto

section \<open>Quotas\<close>

text \<open>
  A target's row joins with exactly one project: the workspace's targets are those whose project is the
  workspace's.
\<close>

definition project_workspace :: "adm_db \<Rightarrow> uuid \<Rightarrow> uuid option" where
  "project_workspace d pid = map_option pj_workspace_id (project_by_id pid d)"

lemma join_count:
  assumes "unique_key pj_id (bd_projects d)"
  shows "count_where (\<lambda>p. pj_id p = pid \<and> pj_workspace_id p = ws) (bd_projects d)
    = (if project_workspace d pid = Some ws then 1 else 0)"
proof -
  have le: "count_where (\<lambda>p. pj_id p = pid \<and> pj_workspace_id p = ws) (bd_projects d) \<le> 1"
    by (rule count_where_key_le1 [OF assms])
  have one: "count_where (\<lambda>p. pj_id p = pid \<and> pj_workspace_id p = ws) (bd_projects d) = 1
      \<longleftrightarrow> project_workspace d pid = Some ws"
    unfolding count_where_key_1 [OF assms] project_workspace_def project_by_id_def
    by (auto simp: find_row_key_iff [OF assms])
  from le one show ?thesis by auto
qed

lemma count_targets_eq:
  assumes "adm_ok d"
  shows "count_targets ws d = count_where (\<lambda>t. project_workspace d (tg_project_id t) = Some ws) (bd_targets d)"
proof -
  have "unique_key pj_id (bd_projects d)" using assms by (simp add: adm_ok_def keys_below_def)
  note j = join_count [OF this]
  have "sum_list (map (\<lambda>t. if project_workspace d (tg_project_id t) = Some ws then 1 else (0::nat)) ts)
      = count_where (\<lambda>t. project_workspace d (tg_project_id t) = Some ws) ts" for ts
    by (induction ts) (auto simp: count_where_def)
  then show ?thesis by (simp add: count_targets_def j)
qed

definition within_quota :: "time \<Rightarrow> uuid \<Rightarrow> adm_db \<Rightarrow> bool" where
  "within_quota now ws d \<longleftrightarrow>
     (\<forall>n. pl_max_projects (plan_for ws d) = Some n \<longrightarrow> count_projects ws d \<le> n)
     \<and> (\<forall>n. pl_max_targets (plan_for ws d) = Some n \<longrightarrow> count_targets ws d \<le> n)
     \<and> (\<forall>n. pl_max_scans_per_month (plan_for ws d) = Some n \<longrightarrow> count_scans_this_month now ws d \<le> n)"

lemma adm_tenants_step:
  "(\<And>w tier u. op \<noteq> OpSetPlan w tier u) \<Longrightarrow> bd_tenants (adm_apply env now op r c d) = bd_tenants d"
  by (cases op)
    (auto simp: adm_op_defs create_scan_projects fire_schedule_tables Let_def split: sum.splits option.splits if_splits)

lemma plan_for_tenants: "bd_tenants d' = bd_tenants d \<Longrightarrow> plan_for ws d' = plan_for ws d"
  by (simp add: plan_for_def tenant_by_id_def)

text \<open>A count stays within a limit that is checked before a counted row is added.\<close>

lemma table_step_limit:
  assumes "table_step key fixed new n m rows rows'" and "\<And>x y. fixed x = fixed y \<Longrightarrow> Q x = Q y"
    and "\<And>x. new x \<Longrightarrow> Q x \<Longrightarrow> \<not> over_limit (count_where Q rows) limit"
    and "limit = Some k" and "count_where Q rows \<le> k"
  shows "count_where Q rows' \<le> k"
proof (cases "\<exists>x. new x \<and> Q x")
  case True
  then obtain x where "new x" "Q x" by blast
  from assms(3) [OF this] have "count_where Q rows < k" by (simp add: assms(4) over_limit_def)
  moreover have "count_where Q rows' \<le> count_where Q rows + 1"
    by (rule table_step_count(1) [OF assms(1)]) (rule assms(2))
  ultimately show ?thesis by linarith
next
  case False
  have "count_where Q rows' \<le> count_where Q rows"
    by (rule table_step_count(2) [OF assms(1)]) (use False assms(2) in blast)+
  with assms(5) show ?thesis by linarith
qed

lemma project_workspace_row:
  assumes "adm_ok d" and "p \<in> set (bd_projects d)"
  shows "project_workspace d (pj_id p) = Some (pj_workspace_id p)"
proof -
  have "unique_key pj_id (bd_projects d)" using assms(1) by (simp add: adm_ok_def keys_below_def)
  from find_row_key [OF this assms(2)] show ?thesis by (simp add: project_workspace_def project_by_id_def)
qed

lemma project_workspace_Some:
  assumes "project_workspace d pid = Some ws"
  shows "\<exists>p \<in> set (bd_projects d). pj_id p = pid \<and> pj_workspace_id p = ws"
proof -
  from assms obtain p where "project_by_id pid d = Some p" "pj_workspace_id p = ws"
    by (auto simp: project_workspace_def)
  with project_by_id_Some show ?thesis by blast
qed

lemma project_workspace_later:
  assumes "adm_ok d" and "adm_evolves d d'" and "project_by_id pid d \<noteq> None"
    and "project_workspace d' pid = Some ws"
  shows "project_workspace d pid = Some ws"
proof -
  from assms(3) obtain q where q: "q \<in> set (bd_projects d)" "pj_id q = pid" using project_by_id_Some by blast
  then have lt: "pid < bd_next d" using assms(1) by (auto simp: adm_ok_def keys_below_def)
  from project_workspace_Some [OF assms(4)] obtain p' where
    p': "p' \<in> set (bd_projects d')" "pj_id p' = pid" "pj_workspace_id p' = ws" by blast
  with assms(2) lt obtain p where "p \<in> set (bd_projects d)" "pj_id p = pid" "pj_workspace_id p = ws"
    unfolding adm_evolves_def table_evolves_def by metis
  with project_workspace_row [OF assms(1)] show ?thesis by metis
qed

lemma adm_quota_step:
  assumes r: "adm_ok r" "adm_evolves r d" and d: "adm_ok d" and op: "\<And>w tier u. op \<noteq> OpSetPlan w tier u"
    and q: "within_quota t ws d" and "t \<le> now"
  shows "within_quota now ws (adm_apply env now op r d d)"
proof -
  let ?d = "adm_apply env now op r d d"
  have plan: "plan_for ws ?d = plan_for ws d" by (rule plan_for_tenants, rule adm_tenants_step [OF op])
  have ok': "adm_ok ?d" by (rule adm_apply_ok [OF r d])
  have "count_projects ws ?d \<le> n" if n: "pl_max_projects (plan_for ws d) = Some n" for n
    unfolding count_projects_def
  proof (rule table_step_limit [OF adm_projects_step _ _ n])
    show "count_where (\<lambda>p. pj_workspace_id p = ws) (bd_projects d) \<le> n"
      using q n by (simp add: within_quota_def count_projects_def)
  qed (auto simp: new_project_def enforce_project_quota_def count_projects_def split: if_splits)
  moreover have "count_targets ws ?d \<le> n" if n: "pl_max_targets (plan_for ws d) = Some n" for n
  proof -
    let ?Q = "\<lambda>t. project_workspace d (tg_project_id t) = Some ws"
    have old: "count_where ?Q (bd_targets d) \<le> n"
      using q n by (simp add: within_quota_def count_targets_eq [OF d])
    have le: "count_where (\<lambda>t. project_workspace ?d (tg_project_id t) = Some ws) (bd_targets ?d)
        \<le> count_where ?Q (bd_targets ?d)"
    proof (rule count_where_mono)
      fix t assume t: "t \<in> set (bd_targets ?d)" "project_workspace ?d (tg_project_id t) = Some ws"
      have "project_by_id (tg_project_id t) d \<noteq> None"
        using table_step_rows [OF adm_targets_step t(1)]
      proof (elim disjE bexE)
        fix u assume "u \<in> set (bd_targets d)" "target_part t = target_part u"
        then have "target_owned d u" "tg_project_id u = tg_project_id t" using d by (auto simp: adm_ok_def target_part_def)
        then obtain p where "p \<in> set (bd_projects d)" "pj_id p = tg_project_id t" unfolding target_owned_def by metis
        with project_workspace_row [OF d] show ?thesis unfolding project_workspace_def by fastforce
      qed (auto simp: new_target_def)
      from project_workspace_later [OF d adm_apply_evolves this t(2)] show "?Q t" .
    qed
    have "count_where ?Q (bd_targets ?d) \<le> n"
    proof (rule table_step_limit [OF adm_targets_step _ _ n old])
      fix t assume new: "new_target env r d t" and t: "?Q t"
      from new obtain w p where w: "get_project_row w (tg_project_id t) r = Inr p"
        "enforce_target_quota w d = Inr ()" "project_by_id (tg_project_id t) d \<noteq> None"
        unfolding new_target_def by blast
      then obtain p' where "project_by_id (tg_project_id t) d = Some p'" by blast
      from read_project [OF r w(1) this] project_workspace_row [OF d] t have "w = ws" by force
      with w(2) show "\<not> over_limit (count_where ?Q (bd_targets d)) (pl_max_targets (plan_for ws d))"
        by (auto simp: enforce_target_quota_def count_targets_eq [OF d] split: if_splits)
    qed (simp add: target_part_def)
    with le show ?thesis unfolding count_targets_eq [OF ok'] by simp
  qed
  moreover have "count_scans_this_month now ws ?d \<le> n" if n: "pl_max_scans_per_month (plan_for ws d) = Some n" for n
    unfolding count_scans_this_month_def
  proof (rule table_step_limit [OF adm_scans_step _ _ n])
    show "count_where (\<lambda>s. sn_workspace_id s = ws \<and> month_start now \<le> sn_created_at s) (bd_scans d) \<le> n"
      using q n count_scans_mono [OF \<open>t \<le> now\<close>, of ws d] by (auto simp: within_quota_def count_scans_this_month_def)
  qed (auto simp: scan_part_def new_scan_row_def enforce_scan_quota_def count_scans_this_month_def split: if_splits)
  ultimately show ?thesis by (simp add: within_quota_def plan)
qed

lemma elsewhere_quota:
  assumes "elsewhere d d'" and "adm_ok d" and "within_quota t ws d" and "t \<le> now"
  shows "within_quota now ws d'"
proof -
  note e = assms(1) [unfolded elsewhere_def]
  from e have st: "table_step sn_id scan_part (\<lambda>_. False) (bd_next d) (bd_next d') (bd_scans d) (bd_scans d')" by blast
  have p: "bd_projects d' = bd_projects d" "bd_targets d' = bd_targets d" "plan_for ws d' = plan_for ws d" using e by auto
  have c: "count_projects ws d' = count_projects ws d" "count_targets ws d' = count_targets ws d"
    by (simp_all add: count_projects_def count_targets_def p)
  have "count_scans_this_month now ws d' \<le> count_scans_this_month now ws d"
    unfolding count_scans_this_month_def by (rule table_step_count(2) [OF st]) (auto simp: scan_part_def)
  with count_scans_mono [OF assms(4), of ws d] assms(3) show ?thesis
    by (auto simp: within_quota_def p c)
qed

section \<open>Schedules\<close>

lemma schedule_ok_mono: "schedule_ok t s \<Longrightarrow> t \<le> now \<Longrightarrow> schedule_ok now s"
  by (force simp: schedule_ok_def)

lemma next_run_gap: "interval_ok m \<Longrightarrow> from_time + MIN_GAP \<le> compute_next_run from_time m"
  by (simp add: interval_ok_def compute_next_run_def MIN_GAP_def USEC_PER_MINUTE_def)

lemma fire_schedule_schedules:
  "\<exists>f. (\<forall>x. sd_id (f x) = sd_id x \<and> sd_interval_minutes (f x) = sd_interval_minutes x
        \<and> sd_last_run_at (f x) = sd_last_run_at x \<and> sd_next_run_at (f x) = sd_next_run_at x
        \<and> sd_enabled (f x) = sd_enabled x \<and> schedule_part (f x) = schedule_part x)
     \<and> bd_schedules (snd (fire_schedule env tick now s d)) =
       map f (bd_schedules (snd (claim_schedule tick (compute_next_run tick (sd_interval_minutes s)) (sd_id s) d)))"
proof (cases rule: fire_schedule_cases [of tick s d env now])
  case idle
  then show ?thesis by (intro exI [of _ id]) simp
next
  case (launched d1 sid)
  then show ?thesis
    by (intro exI [of _ "\<lambda>x. if sd_id x = sd_id s then x\<lparr>sd_last_scan_id := Some sid, sd_last_error := None\<rparr> else x"])
      (auto simp: note_launched_def create_scan_projects update_where_def part_defs)
next
  case (skipped d1 e)
  then show ?thesis
    by (intro exI [of _ "\<lambda>x. if sd_id x = sd_id s then x\<lparr>sd_last_error := Some (take 1000 e)\<rparr> else x"])
      (auto simp: note_failed_def create_scan_projects update_where_def part_defs)
qed

lemma adm_schedules_step:
  "table_step sd_id schedule_part (\<lambda>_. True) (bd_next d) (bd_next (adm_apply env now op r c d))
    (bd_schedules d) (bd_schedules (adm_apply env now op r c d))"
proof (cases op)
  case (OpFire tick s)
  from fire_schedule_schedules [of env tick now s d] obtain f where f:
    "\<And>x. sd_id (f x) = sd_id x" "\<And>x. schedule_part (f x) = schedule_part x"
    "bd_schedules (snd (fire_schedule env tick now s d)) =
       map f (bd_schedules (snd (claim_schedule tick (compute_next_run tick (sd_interval_minutes s)) (sd_id s) d)))"
    by blast
  let ?P = "\<lambda>x. sd_id x = sd_id s \<and> (sd_enabled x \<and> sd_next_run_at x \<le> tick)"
  let ?g = "\<lambda>x. x\<lparr>sd_last_run_at := Some tick, sd_next_run_at := compute_next_run tick (sd_interval_minutes s)\<rparr>"
  have "bd_schedules (snd (fire_schedule env tick now s d)) = update_where (\<lambda>_. True) (\<lambda>x. f (if ?P x then ?g x else x)) (bd_schedules d)"
    by (simp add: f(3) claim_schedule_def Let_def update_where_def)
  moreover have "schedule_part (?g x) = schedule_part x" for x by (simp add: part_defs)
  ultimately show ?thesis
    by (simp only: OpFire adm_apply.simps) (rule table_step_update; simp add: f)
qed (auto simp: adm_op_defs create_scan_projects Let_def part_defs
    intro!: table_step_update table_step_filter table_step_add split: sum.splits option.splits if_splits)

lemma adm_schedules_ok:
  assumes "schedules_ok t d" and "t \<le> now" and "schedules_ok tr r" and "op_read now op r"
  shows "schedules_ok now (adm_apply env now op r c d)"
proof -
  let ?d = "adm_apply env now op r c d"
  have keys: "keys_below sd_id (bd_next ?d) (bd_schedules ?d)"
    using table_step_keys [OF adm_schedules_step _ adm_next_mono] assms(1) by (simp add: schedules_ok_def)
  have now: "schedule_ok now s" if "s \<in> set (bd_schedules d)" for s
    using that assms(1,2) schedule_ok_mono unfolding schedules_ok_def by blast
  have "schedule_ok now s" if "s \<in> set (bd_schedules ?d)" for s
  proof (cases op)
    case (OpCreateSchedule ws pid u tid ty ms mins ai)
    then show ?thesis
      using that now by (auto simp: create_schedule_def Let_def schedule_ok_def split: if_splits sum.splits)
  next
    case (OpUpdateSchedule ws pid i en mins)
    show ?thesis
    proof (cases "s \<in> set (bd_schedules d)")
      case False
      with that OpUpdateSchedule obtain x where x: "x \<in> set (bd_schedules d)"
        "case mins of None \<Rightarrow> True | Some m \<Rightarrow> interval_ok m"
        "s = (let x1 = x\<lparr>sd_interval_minutes := set_opt mins (sd_interval_minutes x), sd_enabled := set_opt en (sd_enabled x)\<rparr>
              in if en = Some True then x1\<lparr>sd_next_run_at := compute_next_run now (sd_interval_minutes x1)\<rparr> else x1)"
        by (auto simp: update_schedule_def Let_def set_update_where split: if_splits sum.splits option.splits)
      have i: "interval_ok (sd_interval_minutes s)"
        using now [OF x(1)] x(2) unfolding x(3) by (auto simp: Let_def set_opt_def schedule_ok_def split: option.splits)
      have l: "sd_last_run_at s = sd_last_run_at x" unfolding x(3) by (simp add: Let_def)
      have n: "sd_next_run_at s = (if en = Some True then compute_next_run now (sd_interval_minutes s) else sd_next_run_at x)"
        unfolding x(3) by (simp add: Let_def)
      show ?thesis
        using now [OF x(1)] i next_run_gap [OF i, of now] by (auto simp: schedule_ok_def l n)
    qed (rule now)
  next
    case (OpFire tick f)
    from assms(3,4) have i: "interval_ok (sd_interval_minutes f)" and le: "tick \<le> now"
      by (auto simp: OpFire schedules_ok_def schedule_ok_def due_schedules_def)
    from fire_schedule_schedules [of env tick now f d] obtain g where g:
      "\<And>x. sd_interval_minutes (g x) = sd_interval_minutes x" "\<And>x. sd_last_run_at (g x) = sd_last_run_at x"
      "\<And>x. sd_next_run_at (g x) = sd_next_run_at x"
      "bd_schedules (snd (fire_schedule env tick now f d)) =
         map g (bd_schedules (snd (claim_schedule tick (compute_next_run tick (sd_interval_minutes f)) (sd_id f) d)))"
      by blast
    from that OpFire g(4) obtain y where y: "s = g y"
      "y \<in> set (bd_schedules (snd (claim_schedule tick (compute_next_run tick (sd_interval_minutes f)) (sd_id f) d)))"
      by auto
    from y(2) obtain x where x: "x \<in> set (bd_schedules d)"
      "y = x \<or> y = x\<lparr>sd_last_run_at := Some tick, sd_next_run_at := compute_next_run tick (sd_interval_minutes f)\<rparr>"
      by (auto simp: claim_schedule_def Let_def set_update_where split: if_splits)
    have "schedule_ok now y"
      using now [OF x(1)] x(2) next_run_gap [OF i, of tick] le by (auto simp: schedule_ok_def)
    then show ?thesis by (simp add: schedule_ok_def y(1) g)
  qed (use that now in \<open>auto simp: adm_op_defs create_scan_projects Let_def split: sum.splits option.splits if_splits\<close>)
  with keys show ?thesis by (simp add: schedules_ok_def)
qed

lemma elsewhere_schedules:
  assumes "elsewhere d d'" and "schedules_ok t d" and "t \<le> now"
  shows "schedules_ok now d'"
proof -
  from assms(1) obtain P where P: "bd_schedules d' = update_where P (\<lambda>s. s\<lparr>sd_enabled := False\<rparr>) (bd_schedules d)"
    and n: "bd_next d \<le> bd_next d'" by (auto simp: elsewhere_def)
  have "table_step sd_id schedule_part (\<lambda>_. False) (bd_next d) (bd_next d') (bd_schedules d) (bd_schedules d')"
    unfolding P by (rule table_step_update) (simp_all add: part_defs)
  from table_step_keys [OF this _ n] assms(2) have "keys_below sd_id (bd_next d') (bd_schedules d')"
    by (simp add: schedules_ok_def)
  moreover have "schedule_ok now s" if s: "s \<in> set (bd_schedules d')" for s
  proof -
    from s obtain x where x: "x \<in> set (bd_schedules d)" "s = (if P x then x\<lparr>sd_enabled := False\<rparr> else x)"
      unfolding P set_update_where by blast
    have "schedule_ok now x" using x(1) assms(2,3) schedule_ok_mono unfolding schedules_ok_def by blast
    then show ?thesis by (simp add: x(2) schedule_ok_def)
  qed
  ultimately show ?thesis by (simp add: schedules_ok_def)
qed

lemma history_schedules: "adm_history env h \<Longrightarrow> (t, d) \<in> set h \<Longrightarrow> schedules_ok t d"
proof (induction arbitrary: t d rule: adm_history.induct)
  case (request t0 d0 h now tr r tc c op)
  have "schedules_ok now (adm_apply env now op r c d0)"
    by (rule adm_schedules_ok [of t0 _ _ tr]) (use request in auto)
  with request show ?case by auto
next
  case (other t0 d0 h now d')
  have "schedules_ok now d'" by (rule elsewhere_schedules [OF other(3)]) (use other in auto)
  with other show ?case by auto
qed auto

end
