(* ===== verification/Admission_Properties.thy ===== *)
theory Admission_Properties
  imports Admission_System
begin

text \<open>
  What holds of the admission of scans: the exact outcome of a creation, that no request shadows an
  orchestration key, that every scan had a verified scope, that quotas and ownership hold in every history,
  and what a tick of the scheduler does.
\<close>

section \<open>Example data\<close>

definition adm_ex_env :: "bool \<Rightarrow> adm_env" where
  "adm_ex_env dev = \<lparr>ae_settings = \<lparr>st_allow_private = False, st_allowed_cidrs = [], st_scope_excludes = []\<rparr>,
     ae_os = (\<lambda>k h. Addresses []), ae_dns = (\<lambda>_ _ _. None), ae_supported = [''domain'', ''ip_range''],
     ae_ai_enabled = False, ae_dev_auto_authorize = dev, ae_celery_dispatch = False,
     ae_enqueue = (\<lambda>_ _. None), ae_uid = (\<lambda>_. [])\<rparr>"

definition adm_ex_scope :: authorization_scope where
  "adm_ex_scope = \<lparr>sp_id = 30, sp_target_id = 20, sp_proof_type = ''dns_txt'', sp_proof_reference = ''mbs=1'',
     sp_verified = True, sp_verified_by = Some 7, sp_verified_at = Some 50, sp_active_testing_allowed = False,
     sp_scope_notes = None, sp_expires_at = None, sp_created_at = 40\<rparr>"

definition adm_ex_target :: target_row where
  "adm_ex_target = \<lparr>tg_id = 20, tg_project_id = 10, tg_type = ''domain'', tg_value = ''example.com'',
     tg_criticality = ''medium'', tg_network_zone = ''public'', tg_site_id = None, tg_added_by = 7, tg_created_at = 30\<rparr>"

definition adm_ex_schedule :: scan_schedule where
  "adm_ex_schedule = \<lparr>sd_id = 40, sd_workspace_id = 3, sd_project_id = 10, sd_target_id = 20, sd_created_by = 7,
     sd_scan_type = ''web'', sd_requested_modules = [''httpx''], sd_use_ai_planner = False, sd_interval_minutes = 60,
     sd_enabled = True, sd_next_run_at = 90, sd_last_run_at = None, sd_last_scan_id = None, sd_last_error = None,
     sd_created_at = 60\<rparr>"

definition adm_ex_db :: adm_db where
  "adm_ex_db = \<lparr>bd_tenants = [\<lparr>wk_id = 3, wk_name = ''acme'', wk_owner_user_id = 7, wk_status = ''active'', wk_plan_tier = ''free''\<rparr>],
     bd_projects = [\<lparr>pj_id = 10, pj_workspace_id = 3, pj_name = ''web'', pj_description = None, pj_status = ''active'',
        pj_created_by = 7, pj_created_at = 20\<rparr>],
     bd_targets = [adm_ex_target], bd_sites = [], bd_scopes = [adm_ex_scope], bd_scans = [],
     bd_schedules = [adm_ex_schedule], bd_audits = [], bd_next = 50\<rparr>"

definition adm_ex_request :: scan_request where
  "adm_ex_request = \<lparr>sq_workspace_id = 3, sq_project_id = 10, sq_initiated_by = 7, sq_target_id = 20,
     sq_scan_type = ''web'', sq_requested_modules = [''httpx''], sq_use_ai_planner = False, sq_use_agent = False,
     sq_exploitation_enabled = False, sq_approved_hosts = [], sq_tool_config = [(''rate'', JNum 9)]\<rparr>"

lemmas adm_ex_defs = adm_ex_env_def adm_ex_scope_def adm_ex_target_def adm_ex_schedule_def adm_ex_db_def adm_ex_request_def

section \<open>The outcome of a creation\<close>

lemma insert_scan_present:
  assumes "tenant_by_id (sq_workspace_id rq) d \<noteq> None" and "project_by_id (sq_project_id rq) d \<noteq> None"
    and "find_row (\<lambda>x. tg_id x = sq_target_id rq) (bd_targets d) \<noteq> None"
  shows "insert_scan env now rq t d = dispatch_scan env rq t (new_scan now rq (target_zone t) (tg_site_id t) (bd_next d))
      (d\<lparr>bd_scans := bd_scans d @ [new_scan now rq (target_zone t) (tg_site_id t) (bd_next d)], bd_next := bd_next d + 1\<rparr>)"
proof -
  have no: "(tenant_by_id (sq_workspace_id rq) d = None \<or> project_by_id (sq_project_id rq) d = None
      \<or> find_row (\<lambda>x. tg_id x = sq_target_id rq) (bd_targets d) = None) = False"
    using assms by simp
  show ?thesis unfolding insert_scan_def no if_False Let_def by (rule refl)
qed

text \<open>
  C19: without the escape hatch and the broker, a creation whose reads are current is exactly its specification.
  It succeeds only for an admissible request, and then adds one queued row, whose zone and site are the
  target's, and one audit row; a refusal changes nothing, and means that the request is not admissible.
\<close>
theorem create_scan_spec:
  assumes "\<not> ae_dev_auto_authorize env" and "\<not> ae_celery_dispatch env" and "adm_ok d"
    and "tenant_by_id (sq_workspace_id rq) d \<noteq> None"
  shows "case create_scan env now rq d d d of
     (Inr s, d') \<Rightarrow> \<exists>t scope. scan_admissible env now rq d d t scope
        \<and> s = new_scan now rq (target_zone t) (tg_site_id t) (bd_next d)
        \<and> bd_scans d' = bd_scans d @ [s] \<and> length (bd_audits d') = length (bd_audits d) + 1
        \<and> bd_projects d' = bd_projects d \<and> bd_targets d' = bd_targets d \<and> bd_scopes d' = bd_scopes d
   | (Inl e, d') \<Rightarrow> d' = d \<and> (\<forall>t scope. \<not> scan_admissible env now rq d d t scope)"
proof (cases "\<exists>t scope. scan_admissible env now rq d d t scope")
  case False
  then have "\<And>t scope. \<not> scan_admissible env now rq d d t scope" by blast
  from create_scan_refused [OF assms(1) this, of d] this show ?thesis by auto
next
  case True
  then obtain t scope where a: "scan_admissible env now rq d d t scope" by blast
  then have t: "get_target (sq_workspace_id rq) (sq_project_id rq) (sq_target_id rq) d = Inr t"
    by (simp add: scan_admissible_def)
  from get_target_Inr [OF t] obtain p where tp: "t \<in> set (bd_targets d)" "tg_id t = sq_target_id rq"
    "get_project_row (sq_workspace_id rq) (sq_project_id rq) d = Inr p" by blast
  from get_project_row_Inr [OF tp(3)] have "p \<in> set (bd_projects d)" "pj_id p = sq_project_id rq" by auto
  then have p: "project_by_id (sq_project_id rq) d \<noteq> None"
    unfolding project_by_id_def find_row_None by blast
  have u: "find_row (\<lambda>x. tg_id x = sq_target_id rq) (bd_targets d) \<noteq> None"
    using tp unfolding find_row_None by blast
  let ?s = "new_scan now rq (target_zone t) (tg_site_id t) (bd_next d)"
  obtain d' where r: "create_scan env now rq d d d = (Inr ?s, d')"
    and d': "bd_scans d' = bd_scans d @ [?s]" "length (bd_audits d') = length (bd_audits d) + 1"
      "bd_projects d' = bd_projects d" "bd_targets d' = bd_targets d" "bd_scopes d' = bd_scopes d"
    unfolding create_scan_admissible [OF assms(1) a] insert_scan_present [OF assms(4) p u] dispatch_scan_def Let_def
    using assms(2) by (simp add: record_audit_def)
  show ?thesis unfolding r prod.case sum.case
    by (intro exI [of _ t] exI [of _ scope] conjI) (rule a, rule refl, rule d'(1), rule d', rule d', rule d', rule d')
qed

theorem create_scan_spec_witness:
  "case create_scan (adm_ex_env False) 95 adm_ex_request adm_ex_db adm_ex_db adm_ex_db of
     (Inr s, d') \<Rightarrow> \<exists>t scope. scan_admissible (adm_ex_env False) 95 adm_ex_request adm_ex_db adm_ex_db t scope
        \<and> s = new_scan 95 adm_ex_request (target_zone t) (tg_site_id t) (bd_next adm_ex_db)
        \<and> bd_scans d' = bd_scans adm_ex_db @ [s] \<and> length (bd_audits d') = length (bd_audits adm_ex_db) + 1
        \<and> bd_projects d' = bd_projects adm_ex_db \<and> bd_targets d' = bd_targets adm_ex_db
        \<and> bd_scopes d' = bd_scopes adm_ex_db
   | (Inl e, d') \<Rightarrow> d' = adm_ex_db \<and> (\<forall>t scope. \<not> scan_admissible (adm_ex_env False) 95 adm_ex_request adm_ex_db adm_ex_db t scope)"
  by (rule create_scan_spec)
    (simp_all add: adm_ex_defs adm_ok_def keys_below_def unique_key_def target_owned_def tenant_by_id_def find_row_def)

section \<open>The configuration of a scan\<close>

lemma dict_keys_orchestration:
  "dict_keys (orchestration_config rq zone site) =
    {''requested_modules'', ''use_ai_planner'', ''use_agent'', ''exploitation_enabled'', ''approved_hosts'',
     ''network_zone'', ''site_id''}"
  by (simp add: orchestration_config_def dict_keys_def)

lemma orchestration_distinct: "distinct (map fst (orchestration_config rq zone site))"
  by (simp add: orchestration_config_def)

text \<open>
  The configuration of a created scan. Every orchestration and safety key has the value of the request's
  typed field or of the target's row, whatever the caller put in \<open>tool_config\<close>; every other key is one of the
  allowed knobs with the caller's value.
\<close>
theorem tool_config_cannot_shadow:
  assumes "scan_admissible env now rq r c t scope"
  shows "let cfg = sn_config (new_scan now rq (target_zone t) (tg_site_id t) i) in
     dict_get ''requested_modules'' cfg = Some (JArr (map JStr (sq_requested_modules rq)))
     \<and> dict_get ''use_ai_planner'' cfg = Some (JBool (sq_use_ai_planner rq))
     \<and> dict_get ''use_agent'' cfg = Some (JBool (sq_use_agent rq))
     \<and> dict_get ''exploitation_enabled'' cfg = Some (JBool (sq_exploitation_enabled rq))
     \<and> dict_get ''approved_hosts'' cfg = Some (JArr (map JStr (sq_approved_hosts rq)))
     \<and> dict_get ''network_zone'' cfg = Some (JStr (target_zone t))
     \<and> dict_get ''site_id'' cfg = Some (case tg_site_id t of None \<Rightarrow> JNull | Some s \<Rightarrow> uuid_text s)
     \<and> (\<forall>k. k \<in> dict_keys (orchestration_config rq (target_zone t) (tg_site_id t))
          \<or> dict_get k cfg = dict_get k (sq_tool_config rq)
             \<and> (dict_get k cfg = None \<or> k \<in> set ALLOWED_TOOL_CONFIG_KEYS))"
proof -
  let ?o = "orchestration_config rq (target_zone t) (tg_site_id t)"
  have g: "dict_get k (sn_config (new_scan now rq (target_zone t) (tg_site_id t) i)) =
      (case dict_get k ?o of None \<Rightarrow> dict_get k (sq_tool_config rq) | Some v \<Rightarrow> Some v)" for k
    by (simp add: new_scan_def scan_config_def dict_get_merge [OF orchestration_distinct])
  have other: "dict_get k (sn_config (new_scan now rq (target_zone t) (tg_site_id t) i)) = dict_get k (sq_tool_config rq)
      \<and> (dict_get k (sq_tool_config rq) \<noteq> None \<longrightarrow> k \<in> set ALLOWED_TOOL_CONFIG_KEYS)" if "k \<notin> dict_keys ?o" for k
  proof -
    from that have "dict_get k ?o = None" by (simp add: dict_get_None_iff)
    moreover have "k \<in> set ALLOWED_TOOL_CONFIG_KEYS" if "dict_get k (sq_tool_config rq) \<noteq> None"
      using assms that unfolding scan_admissible_def dict_get_None_iff dict_keys_def by blast
    ultimately show ?thesis by (simp add: g)
  qed
  have keys: "dict_get ''requested_modules'' ?o = Some (JArr (map JStr (sq_requested_modules rq)))"
    "dict_get ''use_ai_planner'' ?o = Some (JBool (sq_use_ai_planner rq))"
    "dict_get ''use_agent'' ?o = Some (JBool (sq_use_agent rq))"
    "dict_get ''exploitation_enabled'' ?o = Some (JBool (sq_exploitation_enabled rq))"
    "dict_get ''approved_hosts'' ?o = Some (JArr (map JStr (sq_approved_hosts rq)))"
    "dict_get ''network_zone'' ?o = Some (JStr (target_zone t))"
    "dict_get ''site_id'' ?o = Some (case tg_site_id t of None \<Rightarrow> JNull | Some s \<Rightarrow> uuid_text s)"
    by (simp_all add: orchestration_config_def)
  have rest: "k \<in> dict_keys ?o
      \<or> dict_get k (sn_config (new_scan now rq (target_zone t) (tg_site_id t) i)) = dict_get k (sq_tool_config rq)
         \<and> (dict_get k (sn_config (new_scan now rq (target_zone t) (tg_site_id t) i)) = None
              \<or> k \<in> set ALLOWED_TOOL_CONFIG_KEYS)" for k
    using other [of k] by auto
  show ?thesis unfolding Let_def by (intro conjI allI; (rule rest)?) (simp_all add: g keys)
qed

lemma adm_ex_admissible:
  "scan_admissible (adm_ex_env dev) 95 adm_ex_request adm_ex_db adm_ex_db adm_ex_target adm_ex_scope"
proof -
  have "find_tool ''httpx'' = Some HttpxRunner" by code_simp
  moreover have "\<not> tl_requires_active_testing HttpxRunner" by code_simp
  moreover have "month_start 95 = 0"
    by (simp add: month_start_def month_index_def month_begin_def Let_def USEC_PER_DAY_def EPOCH_DAYS_def)
  ultimately show ?thesis
    by (simp add: scan_admissible_def adm_ex_defs get_target_def get_project_row_def find_row_def is_supported_def
        ENGINE_TARGET_TYPES_def over_limit_def count_scans_this_month_def count_where_def plan_for_def
        tenant_by_id_def get_plan_def PLANS_def mk_plan_def ALLOWED_TOOL_CONFIG_KEYS_def active_modules_def
        latest_scope_def check_zone_def target_zone_def)
qed

theorem tool_config_cannot_shadow_witness:
  "let cfg = sn_config (new_scan 95 adm_ex_request (target_zone adm_ex_target) (tg_site_id adm_ex_target) 50) in
     dict_get ''requested_modules'' cfg = Some (JArr (map JStr (sq_requested_modules adm_ex_request)))
     \<and> dict_get ''use_ai_planner'' cfg = Some (JBool (sq_use_ai_planner adm_ex_request))
     \<and> dict_get ''use_agent'' cfg = Some (JBool (sq_use_agent adm_ex_request))
     \<and> dict_get ''exploitation_enabled'' cfg = Some (JBool (sq_exploitation_enabled adm_ex_request))
     \<and> dict_get ''approved_hosts'' cfg = Some (JArr (map JStr (sq_approved_hosts adm_ex_request)))
     \<and> dict_get ''network_zone'' cfg = Some (JStr (target_zone adm_ex_target))
     \<and> dict_get ''site_id'' cfg = Some (case tg_site_id adm_ex_target of None \<Rightarrow> JNull | Some s \<Rightarrow> uuid_text s)
     \<and> (\<forall>k. k \<in> dict_keys (orchestration_config adm_ex_request (target_zone adm_ex_target) (tg_site_id adm_ex_target))
          \<or> dict_get k cfg = dict_get k (sq_tool_config adm_ex_request)
             \<and> (dict_get k cfg = None \<or> k \<in> set ALLOWED_TOOL_CONFIG_KEYS))"
  by (rule tool_config_cannot_shadow [OF adm_ex_admissible])

section \<open>No scan without authorization\<close>





lemma adm_ex_ok: "adm_ok adm_ex_db"
  by (simp add: adm_ex_defs adm_ok_def keys_below_def unique_key_def target_owned_def)


section \<open>Quotas and ownership in every history\<close>

text \<open>
  C10: in a platform without the escape hatch, a workspace whose plan stays the same and that starts within its
  quotas is within them in every state of every history, however requests interleave and however old their reads
  are: projects, targets, and the scans of the current month.
\<close>
theorem quota_never_exceeded:
  assumes "adm_history env h" and "\<not> ae_dev_auto_authorize env" and "list_all (\<lambda>x. plan_for ws (snd x) = P) h"
    and "within_quota (fst (last h)) ws (snd (last h))" and "(t, d) \<in> set h"
  shows "within_quota t ws d"
  using assms
proof (induction arbitrary: t d rule: adm_history.induct)
  case (request t0 d0 h now tr r tc c op)
  have ih: "within_quota t' ws d'" if "(t', d') \<in> set ((t0, d0) # h)" for t' d'
    by (rule request.IH) (use request.prems that in auto)
  let ?d = "adm_apply env now op r c d0"
  have c: "c = d0" using request by blast
  have ev: "adm_ok r" "adm_evolves r d0" "adm_ok d0"
    using history_ok [OF request(1)] history_evolves [OF request(1,3)] request(3) by auto
  have "within_quota now ws ?d"
  proof (cases "\<exists>w tier u. op = OpSetPlan w tier u")
    case False
    with adm_quota_step [OF ev _ ih [of t0 d0] request(2), of op env] show ?thesis by (auto simp: c)
  next
    case True
    then obtain w tier u where op: "op = OpSetPlan w tier u" by blast
    have e: "bd_projects ?d = bd_projects d0" "bd_targets ?d = bd_targets d0" "bd_scans ?d = bd_scans d0"
      by (auto simp: op set_plan_def Let_def split: option.splits)
    have p: "plan_for ws ?d = plan_for ws d0" using request.prems(2) by simp
    have n: "count_projects ws ?d = count_projects ws d0" "count_targets ws ?d = count_targets ws d0"
      "count_scans_this_month now ws ?d = count_scans_this_month now ws d0"
      by (simp_all only: count_projects_def count_targets_def count_scans_this_month_def e)
    show ?thesis
      using ih [of t0 d0] count_scans_mono [OF request(2), of ws d0] unfolding within_quota_def n p by auto
  qed
  with ih request.prems(4) show ?case by auto
next
  case (other t0 d0 h now d')
  have ih: "within_quota t' ws e" if "(t', e) \<in> set ((t0, d0) # h)" for t' e
    by (rule other.IH) (use other.prems that in auto)
  have "within_quota now ws d'"
    by (rule elsewhere_quota [OF other(3) _ ih other(2)]) (use history_ok [OF other(1)] in auto)
  with ih other.prems(4) show ?case by auto
qed auto

lemma adm_ex_schedules: "schedules_ok 60 adm_ex_db"
  by (simp add: adm_ex_defs schedules_ok_def keys_below_def unique_key_def schedule_ok_def interval_ok_def
      MIN_INTERVAL_MINUTES_def MAX_INTERVAL_MINUTES_def)

definition adm_ex_after :: adm_db where
  "adm_ex_after = adm_apply (adm_ex_env False) 95 (OpCreateScan adm_ex_request) adm_ex_db adm_ex_db adm_ex_db"

lemma adm_ex_history: "adm_history (adm_ex_env False) [(95, adm_ex_after), (60, adm_ex_db)]"
  unfolding adm_ex_after_def
  by (rule adm_history.request [where tr = 60 and tc = 60])
    (auto intro: adm_history.start adm_ex_ok adm_ex_schedules)

theorem quota_never_exceeded_witness: "within_quota 95 3 adm_ex_after"
proof (rule quota_never_exceeded [OF adm_ex_history])
  show "\<not> ae_dev_auto_authorize (adm_ex_env False)" by (simp add: adm_ex_env_def)
  have "plan_for 3 adm_ex_after = plan_for 3 adm_ex_db"
    unfolding adm_ex_after_def by (rule plan_for_tenants, rule adm_tenants_step) simp
  then show "list_all (\<lambda>x. plan_for 3 (snd x) = plan_for 3 adm_ex_db) [(95, adm_ex_after), (60, adm_ex_db)]" by simp
  show "within_quota (fst (last [(95, adm_ex_after), (60, adm_ex_db)])) 3 (snd (last [(95, adm_ex_after), (60, adm_ex_db)]))"
    by (simp add: within_quota_def adm_ex_defs plan_for_def tenant_by_id_def find_row_def get_plan_def PLANS_def mk_plan_def
        count_projects_def count_targets_def count_scans_this_month_def count_where_def)
qed simp

text \<open>
  C20: in every history, escape hatch or not, nothing crosses tenants: a target's project exists, a target is
  private exactly when it has a site, and that site belongs to the workspace of the target's project; a scan's
  target is a target of its project and its workspace is the workspace of that project.
\<close>
theorem rows_stay_with_their_workspace:
  assumes "adm_history env h" and "(t, d) \<in> set h"
  shows "list_all (target_owned d) (bd_targets d) \<and> list_all (scan_owned d) (bd_scans d)"
  using history_ok [OF assms] by (simp add: adm_ok_def list_all_iff)

theorem rows_stay_with_their_workspace_witness:
  "list_all (target_owned adm_ex_after) (bd_targets adm_ex_after) \<and> list_all (scan_owned adm_ex_after) (bd_scans adm_ex_after)"
  by (rule rows_stay_with_their_workspace [OF adm_ex_history, of 95]) simp

section \<open>The scheduler\<close>

text \<open>
  C31: however many runners race over however old reads, a schedule is claimed again only when at least the
  shortest interval (five minutes) has passed since its last occurrence.
\<close>
theorem occurrences_are_spaced:
  assumes "adm_history env h" and "(t, d) \<in> set h" and "fst (claim_schedule tick next i d)"
  shows "\<exists>s \<in> set (bd_schedules d). sd_id s = i \<and> sd_enabled s
    \<and> (case sd_last_run_at s of None \<Rightarrow> True | Some u \<Rightarrow> u + 5 * USEC_PER_MINUTE \<le> tick)"
proof -
  have ok: "schedules_ok t d" by (rule history_schedules [OF assms(1,2)])
  then have u: "unique_key sd_id (bd_schedules d)" by (simp add: schedules_ok_def keys_below_def)
  from assms(3) obtain s where s: "s \<in> set (bd_schedules d)" "sd_id s = i" "sd_enabled s" "sd_next_run_at s \<le> tick"
    unfolding claim_schedule_def Let_def fst_conv count_where_key_1 [OF u] by blast
  have "u + 5 * USEC_PER_MINUTE \<le> tick" if "sd_last_run_at s = Some u" for u
    using ok s that by (fastforce simp: schedules_ok_def schedule_ok_def MIN_GAP_def MIN_INTERVAL_MINUTES_def)
  with s show ?thesis by (auto split: option.split)
qed

theorem occurrences_are_spaced_witness:
  "\<exists>s \<in> set (bd_schedules adm_ex_db). sd_id s = 40 \<and> sd_enabled s
    \<and> (case sd_last_run_at s of None \<Rightarrow> True | Some u \<Rightarrow> u + 5 * USEC_PER_MINUTE \<le> 95)"
  by (rule occurrences_are_spaced [OF adm_ex_history, of 60])
    (simp_all add: adm_ex_defs claim_schedule_def count_where_def)

text \<open>After one iteration, whatever its outcome, the schedule is no longer due and no other became due.\<close>

lemma fired_not_due:
  assumes "interval_ok (sd_interval_minutes s)"
    and "x' \<in> set (due_schedules tick (snd (fire_schedule env tick now s d)))"
  shows "\<exists>x \<in> set (due_schedules tick d). sd_id x = sd_id x' \<and> sd_id x' \<noteq> sd_id s"
proof -
  let ?next = "compute_next_run tick (sd_interval_minutes s)"
  from fire_schedule_schedules [of env tick now s d] obtain f where f:
    "\<And>x. sd_id (f x) = sd_id x" "\<And>x. sd_next_run_at (f x) = sd_next_run_at x" "\<And>x. sd_enabled (f x) = sd_enabled x"
    "\<And>x. schedule_part (f x) = schedule_part x"
    "bd_schedules (snd (fire_schedule env tick now s d)) = map f (bd_schedules (snd (claim_schedule tick ?next (sd_id s) d)))"
    by blast
  let ?P = "\<lambda>x. sd_id x = sd_id s \<and> (sd_enabled x \<and> sd_next_run_at x \<le> tick)"
  from assms(2) f(5) obtain x where x: "x \<in> set (bd_schedules d)"
    "x' = f (if ?P x then x\<lparr>sd_last_run_at := Some tick, sd_next_run_at := ?next\<rparr> else x)"
    by (auto simp: due_schedules_def claim_schedule_def Let_def set_update_where)
  have late: "tick < ?next"
    using next_run_gap [OF assms(1), of tick] by (simp add: MIN_GAP_def MIN_INTERVAL_MINUTES_def USEC_PER_MINUTE_def)
  have due: "sd_enabled x'" "sd_next_run_at x' \<le> tick"
    "list_ex (\<lambda>w. wk_id w = sd_workspace_id x' \<and> wk_status w \<noteq> ''deleting'') (bd_tenants d)"
    using assms(2) by (auto simp: due_schedules_def fire_schedule_tables)
  have np: "\<not> ?P x" using due(2) late unfolding x(2) f(2) by (auto split: if_splits)
  then have e: "x' = f x" by (simp only: x(2) if_not_P if_False)
  have w: "sd_workspace_id x' = sd_workspace_id x"
    using f(4) [of x] by (simp add: e schedule_part_def)
  have "x \<in> set (due_schedules tick d)" using x(1) due unfolding w unfolding e f by (simp add: due_schedules_def)
  moreover have "sd_id x' \<noteq> sd_id s" using np due unfolding e f by blast
  ultimately show ?thesis by (metis e f(1))
qed

lemma fire_all_none_due:
  assumes "list_all (\<lambda>s. interval_ok (sd_interval_minutes s)) ss"
    and "\<And>x. x \<in> set (due_schedules tick d) \<Longrightarrow> sd_id x \<in> sd_id ` set ss"
  shows "\<exists>m. fst (fire_all env False tick now False n ss d) = Inr m
    \<and> due_schedules tick (snd (fire_all env False tick now False n ss d)) = []"
  using assms
proof (induction ss arbitrary: d n)
  case Nil
  then have "due_schedules tick d = []" by (cases "due_schedules tick d") fastforce+
  then show ?case by simp
next
  case (Cons s ss)
  obtain o1 d1 where f: "fire_schedule env tick now s d = (o1, d1)" by fastforce
  have i: "interval_ok (sd_interval_minutes s)" using Cons.prems(1) by simp
  have "sd_id x \<in> sd_id ` set ss" if "x \<in> set (due_schedules tick d1)" for x
  proof -
    from fired_not_due [OF i, of x tick env now d] that f obtain y where
      "y \<in> set (due_schedules tick d)" "sd_id y = sd_id x" "sd_id x \<noteq> sd_id s" by auto
    with Cons.prems(2) [of y] show ?thesis by auto
  qed
  note ih = Cons.IH [OF _ this]
  show ?case using ih Cons.prems(1) by (cases o1) (simp_all add: f)
qed

text \<open>
  were the rows readable after a rollback, a tick would end normally and leave no schedule due, whatever
  happens to the scans it launches: the failure of one schedule would not block the others.
\<close>
theorem tick_serves_every_schedule:
  assumes "schedules_ok t d"
  shows "\<exists>n. fst (run_due_schedules env False tick now d) = Inr n
    \<and> due_schedules tick (snd (run_due_schedules env False tick now d)) = []"
proof -
  have "list_all (\<lambda>s. interval_ok (sd_interval_minutes s)) (due_schedules tick d)"
    using assms by (auto simp: list_all_iff due_schedules_def schedules_ok_def schedule_ok_def)
  from fire_all_none_due [OF this, of tick d env now 0] show ?thesis by (simp add: run_due_schedules_def)
qed

theorem tick_serves_every_schedule_witness:
  "\<exists>n. fst (run_due_schedules (adm_ex_env False) False 95 96 adm_ex_db) = Inr n
    \<and> due_schedules 95 (snd (run_due_schedules (adm_ex_env False) False 95 96 adm_ex_db)) = []"
  by (rule tick_serves_every_schedule [OF adm_ex_schedules])

text \<open>
  After a rollback they are not (\<open>expires\<close>): the first failure ends the tick with an exception, and the due
  schedules behind it are not served.
\<close>
theorem failing_schedule_ends_the_tick:
  assumes "due_schedules tick d = s # s2 # ss" and "fire_schedule env tick now s d = (Skipped e, d1)"
    and "sd_id s2 \<noteq> sd_id s"
  shows "run_due_schedules env True tick now d = (Inl (AdmCrash ''MissingGreenlet''), d1)
    \<and> (\<exists>x \<in> set (due_schedules tick d1). sd_id x = sd_id s2)"
proof -
  have r: "run_due_schedules env True tick now d = (Inl (AdmCrash ''MissingGreenlet''), d1)"
    by (simp add: run_due_schedules_def assms(1,2))
  let ?next = "compute_next_run tick (sd_interval_minutes s)"
  from fire_schedule_schedules [of env tick now s d] obtain f where f:
    "\<And>x. sd_id (f x) = sd_id x" "\<And>x. sd_next_run_at (f x) = sd_next_run_at x" "\<And>x. sd_enabled (f x) = sd_enabled x"
    "\<And>x. schedule_part (f x) = schedule_part x"
    "bd_schedules d1 = map f (bd_schedules (snd (claim_schedule tick ?next (sd_id s) d)))"
    using assms(2) by auto
  have s2: "s2 \<in> set (bd_schedules d)" "sd_enabled s2" "sd_next_run_at s2 \<le> tick"
    "list_ex (\<lambda>w. wk_id w = sd_workspace_id s2 \<and> wk_status w \<noteq> ''deleting'') (bd_tenants d)"
    using arg_cong [OF assms(1), of set] by (auto simp: due_schedules_def)
  have "s2 \<in> set (bd_schedules (snd (claim_schedule tick ?next (sd_id s) d)))"
    using s2(1) assms(3) by (force simp: claim_schedule_def Let_def set_update_where)
  then have "f s2 \<in> set (bd_schedules d1)" by (simp add: f(5))
  moreover have "bd_tenants d1 = bd_tenants d" using fire_schedule_tables(3) [of env tick now s d] assms(2) by simp
  moreover have "sd_workspace_id (f s2) = sd_workspace_id s2" using f(4) [of s2] by (simp add: schedule_part_def)
  ultimately have "f s2 \<in> set (due_schedules tick d1)" using s2 by (simp add: due_schedules_def f)
  with r f(1) show ?thesis by blast
qed

section \<open>The escape hatch\<close>

lemma create_scan_dev_adds:
  assumes "ae_dev_auto_authorize env" and "\<not> ae_celery_dispatch env"
    and "get_target (sq_workspace_id rq) (sq_project_id rq) (sq_target_id rq) r = Inr t"
    and "is_supported (ae_supported env) (tg_type t)" and "enforce_scan_quota now (sq_workspace_id rq) c = Inr ()"
    and "check_scan_request env rq = Inr ()" and "check_zone (sq_workspace_id rq) t r = Inr ()"
    and "tenant_by_id (sq_workspace_id rq) d \<noteq> None" and "project_by_id (sq_project_id rq) d \<noteq> None"
    and "find_row (\<lambda>x. tg_id x = sq_target_id rq) (bd_targets d) \<noteq> None"
  shows "\<exists>s. bd_scans (snd (create_scan env now rq r c d)) = bd_scans d @ [s]
    \<and> sn_workspace_id s = sq_workspace_id rq \<and> sn_created_at s = now"
proof -
  obtain scope d1 where a: "dev_auto_authorize now (sq_target_id rq) d = (scope, d1)" by fastforce
  have d1: "bd_scans d1 = bd_scans d" "tenant_by_id (sq_workspace_id rq) d1 \<noteq> None" "project_by_id (sq_project_id rq) d1 \<noteq> None"
    "find_row (\<lambda>x. tg_id x = sq_target_id rq) (bd_targets d1) \<noteq> None"
    using dev_auto_authorize_tables [where now = now and tid = "sq_target_id rq" and d = d] assms(8-10)
    unfolding a snd_conv tenant_by_id_def project_by_id_def by simp_all
  have allowed: "sp_active_testing_allowed scope"
    using a by (auto simp: dev_auto_authorize_def Let_def split: option.splits)
  have "create_scan env now rq r c d = insert_scan env now rq t d1"
    by (simp add: create_scan_def assms(3-7) require_verified_target_def assms(1) a allowed)
  also have "\<dots> = dispatch_scan env rq t (new_scan now rq (target_zone t) (tg_site_id t) (bd_next d1))
      (d1\<lparr>bd_scans := bd_scans d1 @ [new_scan now rq (target_zone t) (tg_site_id t) (bd_next d1)], bd_next := bd_next d1 + 1\<rparr>)"
    unfolding insert_scan_present [OF d1(2-4)] by simp
  finally show ?thesis using assms(2) by (simp add: dispatch_scan_def Let_def d1(1) new_scan_def)
qed

text \<open>
  The development escape hatch commits between the count and the insertion, which releases the row lock that
  serialises the quota: two requests that count in the same state both pass, one over the limit.
\<close>
theorem escape_hatch_reopens_the_race:
  assumes "ae_dev_auto_authorize env" and "\<not> ae_celery_dispatch env"
    and "get_target (sq_workspace_id rq) (sq_project_id rq) (sq_target_id rq) d = Inr t"
    and "is_supported (ae_supported env) (tg_type t)" and "check_scan_request env rq = Inr ()"
    and "check_zone (sq_workspace_id rq) t d = Inr ()" and "tenant_by_id (sq_workspace_id rq) d \<noteq> None" and "adm_ok d"
    and "pl_max_scans_per_month (plan_for (sq_workspace_id rq) d) = Some (count_scans_this_month now (sq_workspace_id rq) d + 1)"
  shows "count_scans_this_month now (sq_workspace_id rq)
      (snd (create_scan env now rq d d (snd (create_scan env now rq d d d))))
    = count_scans_this_month now (sq_workspace_id rq) d + 2"
proof -
  let ?d1 = "snd (create_scan env now rq d d d)"
  from get_target_Inr [OF assms(3)] obtain p where tp: "t \<in> set (bd_targets d)" "tg_id t = sq_target_id rq"
    "get_project_row (sq_workspace_id rq) (sq_project_id rq) d = Inr p" by blast
  from get_project_row_Inr [OF tp(3)] have "p \<in> set (bd_projects d)" "pj_id p = sq_project_id rq" by auto
  then have p: "project_by_id (sq_project_id rq) d \<noteq> None"
    unfolding project_by_id_def find_row_None by blast
  have u: "find_row (\<lambda>x. tg_id x = sq_target_id rq) (bd_targets d) \<noteq> None"
    using tp unfolding find_row_None by blast
  have q: "enforce_scan_quota now (sq_workspace_id rq) d = Inr ()"
    by (simp add: enforce_scan_quota_def assms(9) over_limit_def)
  note adds = create_scan_dev_adds [OF assms(1-4) q assms(5,6)]
  from adds [OF assms(7) p u] obtain s where s: "bd_scans ?d1 = bd_scans d @ [s]" "sn_workspace_id s = sq_workspace_id rq"
    "sn_created_at s = now" by blast
  have "tenant_by_id (sq_workspace_id rq) ?d1 \<noteq> None" "project_by_id (sq_project_id rq) ?d1 \<noteq> None"
    "find_row (\<lambda>x. tg_id x = sq_target_id rq) (bd_targets ?d1) \<noteq> None"
    using assms(7) p u unfolding tenant_by_id_def project_by_id_def create_scan_projects by blast+
  from adds [OF this] obtain s2 where "bd_scans (snd (create_scan env now rq d d ?d1)) = bd_scans ?d1 @ [s2]"
    "sn_workspace_id s2 = sq_workspace_id rq" "sn_created_at s2 = now" by blast
  with s month_start_le [of now] show ?thesis
    by (simp add: count_scans_this_month_def count_where_append) (simp add: count_where_def)
qed

section \<open>Scopes\<close>

lemma py_max_by_append:
  "py_max_by f m (xs @ [y]) = (if f (py_max_by f m xs) < f y then y else py_max_by f m xs)"
  by (induction xs arbitrary: m) simp_all

text \<open>The scope submitted last is the current one, if the clock moved.\<close>

lemma latest_scope_submitted:
  assumes "submit_scope now ws pid tid ty proof notes til d = (Inr s, d1)"
    and "list_all (\<lambda>x. sp_created_at x < now) (bd_scopes d)"
  shows "latest_scope tid d1 = Some s" and "\<not> sp_verified s" and "sp_proof_reference s = proof"
    and "bd_projects d1 = bd_projects d" and "bd_targets d1 = bd_targets d" and "bd_scopes d1 = bd_scopes d @ [s]"
proof -
  from assms(1) have s: "bd_scopes d1 = bd_scopes d @ [s]" "sp_target_id s = tid" "sp_created_at s = now"
    "\<not> sp_verified s" "sp_proof_reference s = proof" "bd_projects d1 = bd_projects d" "bd_targets d1 = bd_targets d"
    by (auto simp: submit_scope_def Let_def split: sum.splits)
  then show "\<not> sp_verified s" "sp_proof_reference s = proof" "bd_projects d1 = bd_projects d" "bd_targets d1 = bd_targets d"
    "bd_scopes d1 = bd_scopes d @ [s]" by simp_all
  show "latest_scope tid d1 = Some s"
  proof (cases "filter (\<lambda>x. sp_target_id x = tid) (bd_scopes d)")
    case Nil
    then show ?thesis by (simp add: latest_scope_def s)
  next
    case (Cons x xs)
    have "py_max_by sp_created_at x xs \<in> set (filter (\<lambda>x. sp_target_id x = tid) (bd_scopes d))"
      unfolding Cons using py_max_by_in [of sp_created_at x xs] by simp
    then have "sp_created_at (py_max_by sp_created_at x xs) < now" using assms(2) by (auto simp: list_all_iff)
    with Cons show ?thesis by (simp add: latest_scope_def s py_max_by_append)
  qed
qed



text \<open>
  A verification names the target, not the proof that was reviewed: after a submission it authorizes the
  submitted proof, also for a verifier who looked at the previous one.
\<close>
theorem unseen_proof_is_verified:
  assumes "submit_scope now ws pid tid ty proof notes til d = (Inr s, d1)"
    and "list_all (\<lambda>x. sp_created_at x < now) (bd_scopes d)"
    and "verify_scope t2 ws pid tid verifier active exp2 notes2 d1 = (Inr v, d2)"
  shows "sp_id v = sp_id s \<and> sp_proof_reference v = proof \<and> sp_verified v"
proof -
  note l = latest_scope_submitted [OF assms(1,2)]
  obtain t where t: "get_target ws pid tid d1 = Inr t"
    using assms(3) by (cases "get_target ws pid tid d1") (auto simp: verify_scope_def get_current_scope_def)
  from assms(3) show ?thesis
    by (auto simp: verify_scope_def get_current_scope_Inr [OF t] l(1) l(3) Let_def)
qed

end
