(* ===== verification/Surface_Coverage.thy ===== *)
theory Surface_Coverage
  imports Json_Data Tool_Registry Scope_Guard
begin

text \<open>
  What of the discovered surface has been tested (\<open>scanner_engine/coverage.py\<close>, with the labels of
  \<open>auth_state.py\<close> and the rest of \<open>capability_registry.py\<close>) and what to do next
  (\<open>scanner_engine/adaptive.py\<close>). Findings are asset type, value and metadata; empty strings stand for a
  missing type or value; the texts that explain a state to a reader are left out. The scope guard's lookups change the state of its cache, which is passed along.
\<close>

section \<open>Authentication states\<close>

definition AUTH_UNAUTH_OK :: string where "AUTH_UNAUTH_OK = ''unauthenticated_ok''"
definition AUTH_PROTECTED :: string where "AUTH_PROTECTED = ''protected''"
definition AUTH_LOGIN_REDIRECT :: string where "AUTH_LOGIN_REDIRECT = ''login_redirect''"
definition AUTH_SERVER_ERROR :: string where "AUTH_SERVER_ERROR = ''server_error''"
definition AUTH_UNKNOWN :: string where "AUTH_UNKNOWN = ''unknown''"

definition UNCROSSED_AUTH_STATES :: "string list" where
  "UNCROSSED_AUTH_STATES = [AUTH_PROTECTED, AUTH_LOGIN_REDIRECT]"

definition LOGIN_MARKERS :: "string list" where
  "LOGIN_MARKERS =
     [''/login'', ''/signin'', ''/sign-in'', ''/auth'', ''/sso'', ''/oauth'', ''/session/new'',
      ''/account/login'', ''/accounts/login'', ''/saml'', ''/adfs'', ''login.microsoftonline'',
      ''returnurl='', ''redirect_uri='', ''next=/'']"

definition LOGIN_TITLE_MARKERS :: "string list" where
  "LOGIN_TITLE_MARKERS = [''log in'', ''login'', ''sign in'', ''signin'', ''authentication required'']"

definition marked :: "string list \<Rightarrow> string option \<Rightarrow> bool" where
  "marked markers t = (truthy t \<and> list_ex (\<lambda>m. py_contains m (py_lower (or_empty t))) markers)"

definition looks_like_login :: "string option \<Rightarrow> string option \<Rightarrow> bool" where
  "looks_like_login location title = (marked LOGIN_MARKERS location \<or> marked LOGIN_MARKERS title)"

definition title_is_login :: "string option \<Rightarrow> bool" where
  "title_is_login title = marked LOGIN_TITLE_MARKERS title"

text \<open>\<open>code\<close> is the status code when it can be read as a number.\<close>

definition classify_auth_state :: "int option \<Rightarrow> string option \<Rightarrow> string option \<Rightarrow> string" where
  "classify_auth_state code location title =
     (case code of
        None \<Rightarrow> if title_is_login title then AUTH_LOGIN_REDIRECT else AUTH_UNKNOWN
      | Some c \<Rightarrow>
          if c = 401 \<or> c = 403 then AUTH_PROTECTED
          else if 500 \<le> c \<and> c \<le> 599 then AUTH_SERVER_ERROR
          else if 300 \<le> c \<and> c \<le> 399
          then (if looks_like_login location title then AUTH_LOGIN_REDIRECT else AUTH_UNAUTH_OK)
          else if 200 \<le> c \<and> c \<le> 299
          then (if title_is_login title \<or> looks_like_login location None then AUTH_LOGIN_REDIRECT else AUTH_UNAUTH_OK)
          else AUTH_UNKNOWN)"

definition auth_metadata :: "int option \<Rightarrow> string option \<Rightarrow> string option \<Rightarrow> dict" where
  "auth_metadata code location title =
     (let state = classify_auth_state code location title in
      if state = AUTH_UNKNOWN then []
      else [(''auth_state'', JStr state), (''inferred_keys'', JArr [JStr ''auth_state''])])"

section \<open>The capability registry\<close>

definition capability_for_tool :: "string \<Rightarrow> string option" where
  "capability_for_tool n = map_option tl_capability (find_tool n)"

definition capabilities :: "string list" where
  "capabilities = sort (remdups (map tl_capability TOOL_REGISTRY))"

definition CAPABILITY_CATEGORY :: "(string \<times> string) list" where
  "CAPABILITY_CATEGORY =
     [(''subdomain_discovery'', ''discovery''), (''web_service_discovery'', ''web''), (''web_crawling'', ''web''),
      (''content_discovery'', ''web''), (''parameter_discovery'', ''web''), (''vulnerability_detection'', ''web''),
      (''dast_fuzzing'', ''web''), (''port_discovery'', ''network''), (''service_fingerprinting'', ''network'')]"

definition category_for_capability :: "string \<Rightarrow> string" where
  "category_for_capability c = (case map_of CAPABILITY_CATEGORY c of None \<Rightarrow> ''uncategorized'' | Some k \<Rightarrow> k)"

section \<open>Coverage\<close>

record surface_finding =
  uf_asset_type :: string
  uf_value :: string
  uf_metadata :: dict

record tool_run_outcome =
  to_tool :: string
  to_status :: string

datatype cover_state =
  Discovered | OutOfScope | Unsupported | AttemptedFailed | PartiallyCovered | Covered | Verified | RequiresAuth

record surface_coverage =
  sv_asset_type :: string
  sv_value :: string
  sv_expected :: "string option"
  sv_state :: cover_state
  sv_in_scope :: bool

record coverage_projection =
  cp_surfaces :: "surface_coverage list"
  cp_debt :: "surface_coverage list"
  cp_capability_states :: "(string \<times> cover_state) list"

definition EXPECTED_CAPABILITY :: "(string \<times> string) list" where
  "EXPECTED_CAPABILITY =
     [(''subdomain'', ''web_service_discovery''), (''http_service'', ''web_crawling''),
      (''service'', ''service_fingerprinting''), (''port'', ''service_fingerprinting''),
      (''url'', ''parameter_discovery'')]"

definition expected_capability :: "string \<Rightarrow> string \<Rightarrow> string option" where
  "expected_capability asset_type v =
     (if asset_type = ''url'' \<and> List.member v (CHR ''?'') then Some ''dast_fuzzing''
      else map_of EXPECTED_CAPABILITY asset_type)"

text \<open>The code takes the target's type too, and does not read it.\<close>

definition capability_run_state :: "string \<Rightarrow> tool_run_outcome list \<Rightarrow> string \<Rightarrow> cover_state" where
  "capability_run_state capability outcomes target_type =
     (if tools_for_capability capability = [] then Unsupported
      else (let states = map to_status (filter (\<lambda>o1. capability_for_tool (to_tool o1) = Some capability) outcomes) in
            if states = [] then Discovered
            else if list_ex (\<lambda>s. s = ''completed'' \<or> s = ''completed_with_errors'') states then Covered
            else if list_ex (\<lambda>s. s = ''partial'') states then PartiallyCovered
            else if list_all (\<lambda>s. s = ''failed'' \<or> s = ''abandoned_revoked'') states then AttemptedFailed
            else Discovered))"

definition DEBT_STATES :: "cover_state list" where "DEBT_STATES = [Discovered, AttemptedFailed]"

text \<open>\<open>metadata.get("in_scope", True)\<close> as a truth value; \<open>metadata.get(k)\<close> of a text.\<close>

definition md_in_scope :: "dict \<Rightarrow> bool" where
  "md_in_scope md = (case dict_get ''in_scope'' md of None \<Rightarrow> True | Some v \<Rightarrow> json_truthy (Some v))"

definition md_text :: "string \<Rightarrow> dict \<Rightarrow> string option" where
  "md_text k md = (case dict_get k md of Some (JStr s) \<Rightarrow> Some s | _ \<Rightarrow> None)"

definition behind_auth :: "dict \<Rightarrow> bool" where
  "behind_auth md = (case md_text ''auth_state'' md of None \<Rightarrow> False | Some s \<Rightarrow> List.member UNCROSSED_AUTH_STATES s)"

definition usable :: "surface_finding \<Rightarrow> bool" where
  "usable f = (uf_asset_type f \<noteq> [] \<and> uf_value f \<noteq> [])"

text \<open>The state of a capability is computed once; the cache is the projection's \<open>capability_states\<close>.\<close>

definition cap_state ::
  "tool_run_outcome list \<Rightarrow> string \<Rightarrow> string \<Rightarrow> (string \<times> cover_state) list \<Rightarrow> cover_state \<times> (string \<times> cover_state) list" where
  "cap_state outcomes target_type cap cache =
     (case map_of cache cap of
        Some st \<Rightarrow> (st, cache)
      | None \<Rightarrow> (let st = capability_run_state cap outcomes target_type in (st, cache @ [(cap, st)])))"

definition surface_state ::
  "tool_run_outcome list \<Rightarrow> string \<Rightarrow> string list \<Rightarrow> surface_finding \<Rightarrow> (string \<times> cover_state) list
   \<Rightarrow> cover_state \<times> (string \<times> cover_state) list" where
  "surface_state outcomes target_type verified f cache =
     (if \<not> md_in_scope (uf_metadata f) then (OutOfScope, cache)
      else if List.member verified (uf_value f) then (Verified, cache)
      else if behind_auth (uf_metadata f) then (RequiresAuth, cache)
      else (case expected_capability (uf_asset_type f) (uf_value f) of
              None \<Rightarrow> (Unsupported, cache)
            | Some cap \<Rightarrow> cap_state outcomes target_type cap cache))"

fun cover_all ::
  "tool_run_outcome list \<Rightarrow> string \<Rightarrow> string list \<Rightarrow> surface_finding list \<Rightarrow> (string \<times> cover_state) list
   \<Rightarrow> surface_coverage list \<times> (string \<times> cover_state) list" where
  "cover_all outcomes target_type verified [] cache = ([], cache)"
| "cover_all outcomes target_type verified (f # fs) cache =
     (if \<not> usable f then cover_all outcomes target_type verified fs cache
      else (let (st, cache1) = surface_state outcomes target_type verified f cache;
                s = \<lparr>sv_asset_type = uf_asset_type f, sv_value = uf_value f,
                     sv_expected = expected_capability (uf_asset_type f) (uf_value f), sv_state = st,
                     sv_in_scope = md_in_scope (uf_metadata f)\<rparr>;
                (rest, cache2) = cover_all outcomes target_type verified fs cache1
            in (s # rest, cache2)))"

definition is_debt :: "surface_coverage \<Rightarrow> bool" where
  "is_debt s = (List.member DEBT_STATES (sv_state s) \<and> sv_in_scope s \<and> truthy (sv_expected s))"

definition build_coverage ::
  "surface_finding list \<Rightarrow> tool_run_outcome list \<Rightarrow> string \<Rightarrow> string list \<Rightarrow> coverage_projection" where
  "build_coverage findings outcomes target_type verified =
     (let (surfaces, cache) = cover_all outcomes target_type verified findings [] in
      \<lparr>cp_surfaces = surfaces, cp_debt = filter is_debt surfaces, cp_capability_states = cache\<rparr>)"

text \<open>\<open>debt_summary\<close>: the number of surfaces that await each capability, by capability.\<close>

definition debt_counts :: "coverage_projection \<Rightarrow> (string \<times> nat) list" where
  "debt_counts p =
     (let caps = map (\<lambda>s. if truthy (sv_expected s) then or_empty (sv_expected s) else ''?'') (cp_debt p) in
      map (\<lambda>c. (c, length (filter (\<lambda>x. x = c) caps))) (sort (remdups caps)))"

section \<open>Adaptive candidates\<close>

definition ACTIONABLE_COVERAGE :: "cover_state list" where
  "ACTIONABLE_COVERAGE = [Discovered, AttemptedFailed, PartiallyCovered]"

definition REASON_STRENGTH :: "string list" where
  "REASON_STRENGTH = [''discovered_parameter'', ''api_surface'', ''live_web_service'', ''incomplete_coverage'',
     ''attempted_failed_upstream'', ''partial_upstream'']"

text \<open>\<open>_REASON_RANK.get(r, len(_REASON_STRENGTH))\<close>.\<close>

definition reason_rank :: "string \<Rightarrow> nat" where
  "reason_rank r = length (takeWhile (\<lambda>x. x \<noteq> r) REASON_STRENGTH)"

record adaptive_candidate =
  ac_capability :: string
  ac_tool :: string
  ac_target :: string
  ac_reasons :: "string list"
  ac_provenance :: dict

definition tool_phase :: "string \<Rightarrow> nat" where
  "tool_phase n = (case find_tool n of None \<Rightarrow> 0 | Some t \<Rightarrow> tl_phase t)"

definition candidate_key :: "adaptive_candidate \<Rightarrow> nat \<times> nat \<times> string \<times> string" where
  "candidate_key c =
     (tool_phase (ac_tool c), Min (insert (length REASON_STRENGTH) (set (map reason_rank (ac_reasons c)))),
      ac_target c, ac_capability c)"

definition coverage_reason :: "cover_state \<Rightarrow> string" where
  "coverage_reason st =
     (if st = AttemptedFailed then ''attempted_failed_upstream''
      else if st = PartiallyCovered then ''partial_upstream'' else ''incomplete_coverage'')"

definition url_reasons :: "surface_finding \<Rightarrow> cover_state \<Rightarrow> string \<times> string list" where
  "url_reasons f st =
     (let api = (if json_truthy (dict_get ''is_api'' (uf_metadata f)) then [''api_surface''] else []);
          has_param = (json_truthy (dict_get ''params'' (uf_metadata f)) \<or> List.member (uf_value f) (CHR ''?''));
          reasons = (if has_param then ''discovered_parameter'' # api else api @ [''incomplete_coverage'']) @ [coverage_reason st]
      in (if has_param then ''dast_fuzzing'' else ''parameter_discovery'', rev (remdups (rev reasons))))"

definition http_service_reasons :: "cover_state \<Rightarrow> string \<times> string list" where
  "http_service_reasons st = (''web_crawling'', [''live_web_service'', coverage_reason st])"

definition derived_step :: "surface_finding \<Rightarrow> cover_state \<Rightarrow> (string \<times> string list) option" where
  "derived_step f st =
     (if uf_asset_type f = ''url'' then Some (url_reasons f st)
      else if uf_asset_type f = ''http_service'' then Some (http_service_reasons st) else None)"

text \<open>What the scope guard reads of a finding.\<close>

definition scope_view :: "surface_finding \<Rightarrow> scope_finding" where
  "scope_view f =
     \<lparr>sf_host = md_text ''host'' (uf_metadata f), sf_ip = md_text ''ip'' (uf_metadata f), sf_value = Some (uf_value f)\<rparr>"

text \<open>\<open>{s.value: s.state for s in surfaces}\<close>: the last surface with a value gives its state.\<close>

definition state_by_value :: "surface_coverage list \<Rightarrow> string \<Rightarrow> cover_state option" where
  "state_by_value surfaces v = map_option sv_state (find_row (\<lambda>s. sv_value s = v) (rev surfaces))"

definition provenance_of :: "surface_finding \<Rightarrow> dict" where
  "provenance_of f =
     (let md = uf_metadata f;
          get = (\<lambda>k. case dict_get k md of None \<Rightarrow> JNull | Some v \<Rightarrow> v)
      in [(''source'', get ''source''), (''asset_type'', JStr (uf_asset_type f))]
         @ (if json_truthy (dict_get ''raw_url'' md) then [(''raw_url'', get ''raw_url'')] else [])
         @ (if json_truthy (dict_get ''params'' md) then [(''params'', get ''params'')] else []))"

record planning =
  pg_target_type :: string
  pg_target_value :: string
  pg_active_testing_allowed :: bool
  pg_max_tier :: string
  pg_already_run :: "string list"
  pg_enforce_scope :: bool

definition candidate_for ::
  "planning \<Rightarrow> surface_finding \<Rightarrow> cover_state \<Rightarrow> (string \<times> string) list \<Rightarrow> adaptive_candidate option" where
  "candidate_for pg f st seen =
     (case derived_step f st of
        None \<Rightarrow> None
      | Some (capability, reasons) \<Rightarrow>
          (case resolve_capability capability (pg_target_type pg) (pg_active_testing_allowed pg) (pg_max_tier pg)
                  (pg_already_run pg) of
             None \<Rightarrow> None
           | Some tool \<Rightarrow>
               if List.member seen (capability, uf_value f) then None
               else Some \<lparr>ac_capability = capability, ac_tool = tool, ac_target = uf_value f, ac_reasons = reasons,
                          ac_provenance = provenance_of f\<rparr>))"

fun candidates_from ::
  "settings \<Rightarrow> lookup \<Rightarrow> planning \<Rightarrow> (string \<Rightarrow> cover_state option) \<Rightarrow> string list \<Rightarrow> (string \<times> string) list
   \<Rightarrow> surface_finding list \<Rightarrow> scope_state \<Rightarrow> adaptive_candidate list \<times> scope_state" where
  "candidates_from st live pg states extra seen [] s = ([], s)"
| "candidates_from st live pg states extra seen (f # fs) s =
     (let cov = (case states (uf_value f) of None \<Rightarrow> Discovered | Some c \<Rightarrow> c) in
      if \<not> usable f \<or> \<not> List.member ACTIONABLE_COVERAGE cov then candidates_from st live pg states extra seen fs s
      else (case (if pg_enforce_scope pg
                  then finding_in_scope st live (pg_target_type pg) (pg_target_value pg) extra (scope_view f) s
                  else (True, s)) of
              (False, s1) \<Rightarrow> candidates_from st live pg states extra seen fs s1
            | (True, s1) \<Rightarrow>
                (case candidate_for pg f cov seen of
                   None \<Rightarrow> candidates_from st live pg states extra seen fs s1
                 | Some c \<Rightarrow>
                     (case candidates_from st live pg states extra ((ac_capability c, ac_target c) # seen) fs s1 of
                        (cs, s2) \<Rightarrow> (c # cs, s2)))))"

definition select_adaptive_candidates ::
  "settings \<Rightarrow> lookup \<Rightarrow> planning \<Rightarrow> surface_finding list \<Rightarrow> tool_run_outcome list \<Rightarrow> scope_state
   \<Rightarrow> adaptive_candidate list \<times> scope_state" where
  "select_adaptive_candidates st live pg findings outcomes s =
     (let surfaces = cp_surfaces (build_coverage findings outcomes (pg_target_type pg) []);
          (extra, s1) = derived_scope_roots st live (pg_target_type pg) (pg_target_value pg) (map scope_view findings) s;
          (cs, s2) = candidates_from st live pg (state_by_value surfaces) extra [] findings s1
      in (sort_key candidate_key cs, s2))"

end
