(* ===== verification/Coverage_Properties.thy ===== *)
theory Coverage_Properties
  imports Surface_Coverage Admission_Properties
begin

text \<open>
  The read models of a scan (\<open>build_scan_coverage\<close> of \<open>coverage.py\<close>, \<open>build_scan_next_steps\<close> of \<open>adaptive.py\<close>)
  over stored rows, and what coverage and candidates say: the debt is exactly the untested surface, and a
  candidate is work that scope, rules of engagement and the registry allow.
\<close>

section \<open>Read models of a scan\<close>

definition asset_finding :: "asset \<Rightarrow> surface_finding" where
  "asset_finding a = \<lparr>uf_asset_type = as_asset_type a, uf_value = as_value a, uf_metadata = as_metadata a\<rparr>"

definition target_surface :: "uuid \<Rightarrow> asset list \<Rightarrow> surface_finding list" where
  "target_surface tid assets = map asset_finding (filter (\<lambda>a. as_target_id a = tid) assets)"

definition run_outcomes :: "uuid \<Rightarrow> tool_run list \<Rightarrow> tool_run_outcome list" where
  "run_outcomes sid runs =
     map (\<lambda>r. \<lparr>to_tool = tn_tool_name r, to_status = tn_status r\<rparr>) (filter (\<lambda>r. tn_scan_id r = sid) runs)"

text \<open>\<open>joined\<close>: status, last seen scan and asset value of the vulnerabilities that have an asset.\<close>

definition build_scan_coverage ::
  "scan \<Rightarrow> asset list \<Rightarrow> tool_run list \<Rightarrow> (string \<times> uuid \<times> string) list \<Rightarrow> adm_db \<Rightarrow> coverage_projection" where
  "build_scan_coverage sc assets runs joined d =
     (let ty = (case find_row (\<lambda>t. tg_id t = sn_target_id sc) (bd_targets d) of None \<Rightarrow> ''domain'' | Some t \<Rightarrow> tg_type t);
          verified = map (\<lambda>(st, sid, v). v)
            (filter (\<lambda>(st, sid, v). sid = sn_id sc \<and> st = ''confirmed'' \<and> v \<noteq> []) joined)
      in build_coverage (target_surface (sn_target_id sc) assets) (run_outcomes (sn_id sc) runs) ty verified)"

text \<open>\<open>RulesOfEngagement.from_config(scan.config)\<close>; the two settings are arguments.\<close>

definition scan_roe :: "string \<Rightarrow> bool \<Rightarrow> dict \<Rightarrow> rules_of_engagement" where
  "scan_roe limit deployment cfg =
     roe_from_config limit deployment (md_text ''safety_tier'' cfg) (json_truthy (dict_get ''exploitation_enabled'' cfg))
       (case dict_get ''require_approval'' cfg of None \<Rightarrow> True | Some v \<Rightarrow> json_truthy (Some v))"

definition used_tools :: "uuid \<Rightarrow> tool_run list \<Rightarrow> string list" where
  "used_tools sid runs =
     map tn_tool_name (filter (\<lambda>r. tn_scan_id r = sid
        \<and> List.member [''completed'', ''completed_with_errors'', ''partial''] (tn_status r)) runs)"

definition next_planning :: "string \<Rightarrow> bool \<Rightarrow> scan \<Rightarrow> target_row \<Rightarrow> authorization_scope \<Rightarrow> tool_run list \<Rightarrow> planning" where
  "next_planning limit deployment sc t scope runs =
     \<lparr>pg_target_type = tg_type t, pg_target_value = tg_value t,
      pg_active_testing_allowed = sp_active_testing_allowed scope,
      pg_max_tier = roe_max_tier (scan_roe limit deployment (sn_config sc)),
      pg_already_run = used_tools (sn_id sc) runs, pg_enforce_scope = True\<rparr>"

definition build_scan_next_steps ::
  "adm_env \<Rightarrow> lookup \<Rightarrow> string \<Rightarrow> bool \<Rightarrow> time \<Rightarrow> scan \<Rightarrow> asset list \<Rightarrow> tool_run list \<Rightarrow> adm_db \<Rightarrow> scope_state
   \<Rightarrow> (adaptive_candidate list \<times> scope_state) \<times> adm_db" where
  "build_scan_next_steps env live limit deployment now sc assets runs d s =
     (case find_row (\<lambda>t. tg_id t = sn_target_id sc) (bd_targets d) of
        None \<Rightarrow> (([], s), d)
      | Some t \<Rightarrow>
          (case require_verified_target env now (sn_workspace_id sc) (sn_project_id sc) (sn_target_id sc) d d of
             (Inl e, d1) \<Rightarrow> (([], s), d1)
           | (Inr scope, d1) \<Rightarrow>
               (select_adaptive_candidates (ae_settings env) live (next_planning limit deployment sc t scope runs)
                  (target_surface (sn_target_id sc) assets) (run_outcomes (sn_id sc) runs) s, d1)))"

section \<open>Coverage without the cache\<close>

definition pure_state :: "tool_run_outcome list \<Rightarrow> string \<Rightarrow> string list \<Rightarrow> surface_finding \<Rightarrow> cover_state" where
  "pure_state outcomes ty verified f =
     (if \<not> md_in_scope (uf_metadata f) then OutOfScope
      else if List.member verified (uf_value f) then Verified
      else if behind_auth (uf_metadata f) then RequiresAuth
      else (case expected_capability (uf_asset_type f) (uf_value f) of
              None \<Rightarrow> Unsupported | Some cap \<Rightarrow> capability_run_state cap outcomes ty))"

definition pure_surface :: "tool_run_outcome list \<Rightarrow> string \<Rightarrow> string list \<Rightarrow> surface_finding \<Rightarrow> surface_coverage" where
  "pure_surface outcomes ty verified f =
     \<lparr>sv_asset_type = uf_asset_type f, sv_value = uf_value f,
      sv_expected = expected_capability (uf_asset_type f) (uf_value f),
      sv_state = pure_state outcomes ty verified f, sv_in_scope = md_in_scope (uf_metadata f)\<rparr>"

definition cache_true :: "tool_run_outcome list \<Rightarrow> string \<Rightarrow> (string \<times> cover_state) list \<Rightarrow> bool" where
  "cache_true outcomes ty cache = (\<forall>c st. (c, st) \<in> set cache \<longrightarrow> st = capability_run_state c outcomes ty)"

lemma surface_state_pure:
  assumes "cache_true outcomes ty cache" and "surface_state outcomes ty verified f cache = (st, cache')"
  shows "st = pure_state outcomes ty verified f \<and> cache_true outcomes ty cache'"
  using assms
  by (auto simp: surface_state_def pure_state_def cap_state_def cache_true_def Let_def dest: map_of_SomeD
      split: if_splits option.splits)

lemma cover_all_pure:
  assumes "cache_true outcomes ty cache"
  shows "fst (cover_all outcomes ty verified fs cache) = map (pure_surface outcomes ty verified) (filter usable fs)
    \<and> cache_true outcomes ty (snd (cover_all outcomes ty verified fs cache))"
  using assms
proof (induction fs arbitrary: cache)
  case (Cons f fs)
  obtain st cache1 where s: "surface_state outcomes ty verified f cache = (st, cache1)" by fastforce
  obtain rest cache2 where r: "cover_all outcomes ty verified fs cache1 = (rest, cache2)" by fastforce
  from surface_state_pure [OF Cons.prems s] have st: "st = pure_state outcomes ty verified f" "cache_true outcomes ty cache1"
    by simp_all
  from Cons.IH [OF st(2)] r have "rest = map (pure_surface outcomes ty verified) (filter usable fs)" "cache_true outcomes ty cache2"
    by simp_all
  with Cons.IH [OF Cons.prems] show ?case by (simp add: s r st pure_surface_def)
qed simp

lemma build_coverage_pure:
  "cp_surfaces (build_coverage fs outcomes ty verified) = map (pure_surface outcomes ty verified) (filter usable fs)"
  "cp_debt (build_coverage fs outcomes ty verified) = filter is_debt (map (pure_surface outcomes ty verified) (filter usable fs))"
  "cache_true outcomes ty (cp_capability_states (build_coverage fs outcomes ty verified))"
  using cover_all_pure [of outcomes ty "[]" verified fs]
  by (auto simp: build_coverage_def cache_true_def split: prod.splits)

section \<open>The debt is exact\<close>

text \<open>Nothing has tested a surface's expected capability to a usable result.\<close>

definition untested :: "tool_run_outcome list \<Rightarrow> string list \<Rightarrow> surface_finding \<Rightarrow> bool" where
  "untested outcomes verified f \<longleftrightarrow>
     md_in_scope (uf_metadata f) \<and> uf_value f \<notin> set verified \<and> \<not> behind_auth (uf_metadata f)
     \<and> (\<exists>cap. expected_capability (uf_asset_type f) (uf_value f) = Some cap
          \<and> (\<forall>o1 \<in> set outcomes. capability_for_tool (to_tool o1) = Some cap \<longrightarrow>
                to_status o1 \<notin> {''completed'', ''completed_with_errors'', ''partial''}))"





text \<open>
  The docstring decides \<open>unsupported\<close> by the tools that apply to the target's type; the code does not look at
  the type: a page of a target of type \<open>api\<close> is debt for parameter discovery, which no tool could pay.
\<close>
theorem support_ignores_target_type:
  "capability_run_state ''parameter_discovery'' [] ''api'' = Discovered
    \<and> resolve_capability ''parameter_discovery'' ''api'' True ''intrusive'' [] = None"
  by (intro conjI; code_simp)

section \<open>Candidates are permitted work\<close>


lemma candidate_for_Some:
  assumes "candidate_for pg f cov seen = Some c"
  shows "(ac_capability c, ac_target c) \<notin> set seen \<and> ac_target c = uf_value f
    \<and> derived_step f cov = Some (ac_capability c, ac_reasons c)
    \<and> resolve_capability (ac_capability c) (pg_target_type pg) (pg_active_testing_allowed pg) (pg_max_tier pg)
         (pg_already_run pg) = Some (ac_tool c)"
  using assms by (auto simp: candidate_for_def split: option.splits if_splits)

abbreviation scope_step ::
  "settings \<Rightarrow> lookup \<Rightarrow> planning \<Rightarrow> string list \<Rightarrow> surface_finding \<Rightarrow> scope_state \<Rightarrow> bool \<times> scope_state" where
  "scope_step st live pg extra f s \<equiv>
     (if pg_enforce_scope pg
      then finding_in_scope st live (pg_target_type pg) (pg_target_value pg) extra (scope_view f) s else (True, s))"

abbreviation state_of :: "(string \<Rightarrow> cover_state option) \<Rightarrow> surface_finding \<Rightarrow> cover_state" where
  "state_of states f \<equiv> (case states (uf_value f) of None \<Rightarrow> Discovered | Some c \<Rightarrow> c)"

text \<open>One finding: it yields nothing, or one candidate that is remembered.\<close>

lemma candidates_from_step:
  obtains (skipped) s1 where "s1 = s \<or> s1 = snd (scope_step st live pg extra f s)"
      "candidates_from st live pg states extra seen (f # fs) s = candidates_from st live pg states extra seen fs s1"
  | (taken) c s1 where "usable f" "List.member ACTIONABLE_COVERAGE (state_of states f)"
      "scope_step st live pg extra f s = (True, s1)" "candidate_for pg f (state_of states f) seen = Some c"
      "fst (candidates_from st live pg states extra seen (f # fs) s)
         = c # fst (candidates_from st live pg states extra ((ac_capability c, ac_target c) # seen) fs s1)"
proof (cases "\<not> usable f \<or> \<not> List.member ACTIONABLE_COVERAGE (state_of states f)")
  case True
  then show thesis by (intro skipped [of s]) (simp_all only: candidates_from.simps Let_def if_True simp_thms)
next
  case False
  obtain ok s1 where sc: "scope_step st live pg extra f s = (ok, s1)" by fastforce
  show thesis
  proof (cases "ok \<and> candidate_for pg f (state_of states f) seen \<noteq> None")
    case no: False
    then have "candidates_from st live pg states extra seen (f # fs) s = candidates_from st live pg states extra seen fs s1"
      unfolding candidates_from.simps Let_def sc if_not_P [OF False] by (auto split: bool.splits option.splits)
    then show thesis using sc by (intro skipped [of s1]) auto
  next
    case yes: True
    then obtain c where c: "candidate_for pg f (state_of states f) seen = Some c" by blast
    have "fst (candidates_from st live pg states extra seen (f # fs) s)
        = c # fst (candidates_from st live pg states extra ((ac_capability c, ac_target c) # seen) fs s1)"
      unfolding candidates_from.simps Let_def sc if_not_P [OF False] using yes by (simp add: c split: prod.splits)
    then show thesis using False sc yes c by (intro taken) auto
  qed
qed

lemma candidates_from_distinct:
  "distinct (map (\<lambda>c. (ac_capability c, ac_target c)) (fst (candidates_from st live pg states extra seen fs s)))
   \<and> set (map (\<lambda>c. (ac_capability c, ac_target c)) (fst (candidates_from st live pg states extra seen fs s))) \<inter> set seen = {}"
proof (induction fs arbitrary: seen s)
  case (Cons f fs)
  show ?case
  proof (cases rule: candidates_from_step [where s = s and st = st and live = live and pg = pg and extra = extra and f = f and states = states and seen = seen and fs = fs])
    case (skipped s1)
    show ?thesis unfolding skipped(2) by (rule Cons.IH)
  next
    case (taken c s1)
    with candidate_for_Some [OF taken(4)] Cons.IH [of "(ac_capability c, ac_target c) # seen" s1] show ?thesis
      unfolding taken(5) by auto
  qed
qed simp








text \<open>
  the candidates are in the order of phase, strength of reason, target and capability, and no step is proposed
  twice.
\<close>
theorem candidates_ordered_once:
  "sorted (map candidate_key (fst (select_adaptive_candidates st live pg findings outcomes s)))
   \<and> distinct (map (\<lambda>c. (ac_capability c, ac_target c)) (fst (select_adaptive_candidates st live pg findings outcomes s)))"
proof -
  let ?surfaces = "cp_surfaces (build_coverage findings outcomes (pg_target_type pg) [])"
  obtain extra s1 where r: "derived_scope_roots st live (pg_target_type pg) (pg_target_value pg) (map scope_view findings) s
      = (extra, s1)" by fastforce
  let ?cs = "fst (candidates_from st live pg (state_by_value ?surfaces) extra [] findings s1)"
  have e: "fst (select_adaptive_candidates st live pg findings outcomes s) = sort_key candidate_key ?cs"
    by (simp add: select_adaptive_candidates_def r Let_def split: prod.splits)
  have m: "mset (map h (sort_key candidate_key ?cs)) = mset (map h ?cs)" for h :: "adaptive_candidate \<Rightarrow> string \<times> string"
    by simp
  have "distinct (map (\<lambda>c. (ac_capability c, ac_target c)) ?cs)"
    using candidates_from_distinct [of st live pg "state_by_value ?surfaces" extra "[]" findings s1] by simp
  then have "distinct (map (\<lambda>c. (ac_capability c, ac_target c)) (sort_key candidate_key ?cs))"
    using mset_eq_imp_distinct_iff [OF m] by blast
  then show ?thesis by (simp add: e)
qed

text \<open>
  Coverage is looked up by value alone, so the last surface with a value hides the others: an untested page whose
  value equals that of a crawled web service yields no candidate.
\<close>
theorem shadowed_surface_not_proposed:
  assumes "findings = [\<lparr>uf_asset_type = ''url'', uf_value = v, uf_metadata = []\<rparr>,
      \<lparr>uf_asset_type = ''http_service'', uf_value = v, uf_metadata = []\<rparr>]"
    and "v \<noteq> []" and "CHR ''?'' \<notin> set v" and "outcomes = [\<lparr>to_tool = ''katana'', to_status = ''completed''\<rparr>]"
  shows "untested outcomes [] (hd findings)
    \<and> fst (select_adaptive_candidates st live pg findings outcomes s) = []"
proof -
  have k: "capability_for_tool ''katana'' = Some ''web_crawling''" by code_simp
  have served: "tools_for_capability ''web_crawling'' \<noteq> []" by code_simp
  have c: "capability_run_state ''web_crawling'' outcomes ty = Covered" for ty
    using served by (simp add: capability_run_state_def assms(4) k)
  have st: "state_by_value (cp_surfaces (build_coverage findings outcomes ty [])) v = Some Covered" for ty
    using assms(2,3)
    by (simp add: build_coverage_pure state_by_value_def assms(1) usable_def pure_surface_def pure_state_def find_row_def
        md_in_scope_def behind_auth_def md_text_def expected_capability_def EXPECTED_CAPABILITY_def c)
  have none: "candidates_from st live pg (state_by_value (cp_surfaces (build_coverage findings outcomes ty []))) extra [] findings s1
      = ([], s1)" for ty extra s1
    by (simp add: assms(1) st [unfolded assms(1)] ACTIONABLE_COVERAGE_def Let_def)
  have "untested outcomes [] (hd findings)"
    using assms(3) by (simp add: untested_def assms(1,4) md_in_scope_def behind_auth_def md_text_def expected_capability_def
        EXPECTED_CAPABILITY_def k)
  then show ?thesis by (simp add: select_adaptive_candidates_def Let_def none split: prod.splits)
qed

section \<open>Next steps of a scan\<close>






text \<open>With the development escape hatch this read request writes: it verifies the target's scope.\<close>

theorem read_request_verifies_scope:
  assumes "ae_dev_auto_authorize env" and "find_row (\<lambda>x. tg_id x = sn_target_id sc) (bd_targets d) = Some t"
    and "latest_scope (sn_target_id sc) d = None"
  shows "\<exists>scope. bd_scopes (snd (build_scan_next_steps env live limit deployment now sc assets runs d s)) = bd_scopes d @ [scope]
    \<and> sp_verified scope \<and> sp_active_testing_allowed scope \<and> sp_target_id scope = sn_target_id sc"
  using assms by (simp add: build_scan_next_steps_def require_verified_target_def dev_auto_authorize_def Let_def)

section \<open>Witnesses\<close>












end
