(* ===== verification/Spec2Isabelle.thy ===== *)
theory Spec2Isabelle
  imports Remediation_Properties Evidence_Verification Worker_Properties Network_Properties Manager_Properties Executor_Properties Lease_Properties
    Location_Properties Vulnerability_Properties Access_Properties Admission_Properties Coverage_Properties
begin

text \<open>
  A verification development for MBS.CS, a multi-tenant penetration-testing platform (FastAPI control
  plane, Celery and isolated scanner workers, a MySQL database). All paths below are under
  \<open>src/apps/api\<close>.

  \<^bold>\<open>The program's parts.\<close> Scans are requested through the API (\<open>modules/scans\<close>), dispatched to a
  queue (\<open>scanner_engine/scan_routing.py\<close>), leased by a worker from the manager
  (\<open>scanner_manager/app.py\<close>, \<open>scanner_worker/lease_loop.py\<close>) and executed tool by tool
  (\<open>scanner_engine/orchestrator.py\<close>, \<open>tool_runners\<close>). Findings become vulnerabilities
  (\<open>modules/vulnerabilities\<close>), are scored and reported (\<open>modules/reports\<close>), and are worked on as
  remediation items (\<open>modules/remediation\<close>). Whether a worker may act is decided by its row
  (\<open>modules/scanner_workers\<close>); which addresses a scan may reach by the two-key rule of
  \<open>scanner_engine/net_policy.py\<close> and \<open>net_guard.py\<close> with the sites of \<open>modules/private_sites\<close>.

  \<^bold>\<open>Theories.\<close>
  \<^item> \<open>Mbs_Prelude\<close>: time stamps, ids, results of fallible code (\<open>Inl\<close> error, \<open>Inr\<close> value), Python's
    string operations, and database rows as lists with keyed lookup and conditional update.
  \<^item> \<open>Row_Interfaces\<close>: the locales \<open>versioned_rows\<close> (compare-and-set), \<open>append_only\<close> (logs) and
    \<open>claim_fence\<close> (one winner of a conditional update) and
    \<open>keyed_rows\<close> (rows that only move along a relation and are never deleted), with what their clients derive.
  \<^item> \<open>Issue_Classification\<close>, \<open>Issue_Scoring\<close>: \<open>modules/reports/classification.py\<close>, the fingerprint
    parser of \<open>modules/reports/data.py\<close>, and \<open>modules/reports/scoring.py\<close>, the latter with an
    order-free specification of the score.
  \<^item> \<open>Evidence_Verification\<close>: \<open>modules/reports/verification.py\<close>, with its properties.
  \<^item> \<open>Remediation_Lifecycle\<close>, \<open>Remediation_Store\<close>, \<open>Remediation_Service\<close>, \<open>Remediation_Commit\<close>,
    \<open>Risk_Acceptance\<close>, \<open>Remediation_Verification\<close>, \<open>Remediation_System\<close>, \<open>Remediation_Properties\<close>:
    \<open>modules/remediation\<close> as a whole: the transition table, the rows, each service function (what
    the ORM holds in memory, the conditional version update and the flush), risk acceptances, retest
    verification, all of them as the steps of one system (\<open>rem_step\<close>) in which anyone may act at
    any time, its invariant, and the properties.
  \<^item> \<open>Scanner_Workers\<close>, \<open>Worker_Properties\<close>: \<open>modules/scanner_workers/service.py\<close> and
    \<open>core/platform_uptime.py\<close>; the fleet as a transition system.
  \<^item> \<open>Ip_Address\<close>, \<open>Net_Guard\<close>, \<open>Private_Sites\<close>, \<open>Egress_Guard\<close>, \<open>Scope_Guard\<close>,
    \<open>Network_Properties\<close>: the standard library's addresses and networks; \<open>net_policy.py\<close>,
    \<open>net_guard.py\<close>, \<open>site_dns.py\<close>; \<open>modules/private_sites/service.py\<close> with the address part of
    \<open>create_target\<close> and \<open>scan_routing.py\<close>; \<open>egress_guard.py\<close>; \<open>scope_guard.py\<close>.
  \<^item> \<open>Json_Data\<close>: the JSON values of configurations and their casts.
  \<^item> \<open>Scan_Lifecycle\<close>, \<open>Scan_System\<close>, \<open>Scan_Properties\<close>: the scan rows of
    \<open>scanner_engine/orchestrator.py\<close>, \<open>celery_app/tasks/scan_tasks.py\<close> and \<open>modules/scans/service.py\<close>
    (claim, fenced finish, heartbeat, reaper, requeue, cancellation, tool-run reconciler), and all of
    them as the steps of one system.
  \<^item> \<open>Runtime_Flags\<close>, \<open>Evidence_Store\<close>, \<open>Asset_Inventory\<close>, \<open>Tool_Registry\<close>,
    \<open>Evidence_Properties\<close>: \<open>core/runtime_flags.py\<close>; \<open>result_sink.py\<close>, \<open>evidence_store.py\<close>,
    \<open>evidence_integrity.py\<close>; \<open>modules/assets/service.py\<close>; \<open>tool_registry.py\<close> with \<open>safety.py\<close>.
  \<^item> \<open>Scanner_Manager\<close>, \<open>Manager_Results\<close>, \<open>Manager_System\<close>, \<open>Manager_Steps\<close>,
    \<open>Manager_Properties\<close>: the handlers of \<open>scanner_manager/app.py\<close> (authentication, the gate, leasing,
    completion, announcements, results, evidence), the manager as a transition system, and its
    refinement of the scan lifecycle.
  \<^item> \<open>Tunnel_Health\<close>, \<open>Leased_Job\<close>, \<open>Tool_Executor\<close>, \<open>Executor_Steps\<close>, \<open>Lease_Loop\<close>, with
    \<open>Executor_Properties\<close>, \<open>Tunnel_Properties\<close>, \<open>Lease_Properties\<close>: the execution worker.
    \<open>scanner_worker/wireguard.py\<close> and \<open>vpn_egress.py\<close> (what is configured, what the probe reads, what
    counts as healthy); the checks of a leased job and the tool pipeline of \<open>executor.py\<close>; the lease
    loop of \<open>lease_loop.py\<close>. Every call to the manager, a tool or a probe is a function of an abstract
    world that it also changes, so the theorems hold for any manager, tool and network.

  \<^item> \<open>Vuln_Taxonomy\<close>, \<open>Location_Normalize\<close>, \<open>Vulnerability_Store\<close>, \<open>Vulnerability_System\<close>, with
    \<open>Location_Properties\<close>, \<open>Vulnerability_Properties\<close>: \<open>modules/vulnerabilities\<close>
    (\<open>taxonomy.py\<close>, \<open>lineage.py\<close>, \<open>service.py\<close>: ingest of findings with history, lineage and evidence
    links, analyst statuses) and \<open>scanner_engine/location_normalize.py\<close>; all writers of the tables,
    with the remediation workflow, as the steps of one system (\<open>vuln_step\<close>).
  \<^item> \<open>Auth_Service\<close>, \<open>Access_Control\<close>: \<open>core/security.py\<close>, \<open>core/mfa.py\<close>, \<open>core/deps.py\<close>,
    \<open>modules/auth\<close>, \<open>modules/api_keys\<close>, the erasure of \<open>modules/users/service.py\<close> and
    \<open>modules/workspaces/service.py\<close>. \<open>Auth_Writes\<close> has the single writes of these requests, the invariant of
    the tables and the fate of rows and secrets; \<open>Auth_System\<close> shows that every request (\<open>auth_step\<close>) is a
    sequence of such writes; \<open>Token_Families\<close> has the chain of refresh tokens and the lockout;
    \<open>Auth_Properties\<close> and \<open>Access_Properties\<close> what sessions, second factors, keys, erasure and
    workspaces promise. The state carries the hashes of all secrets handed out, and a new random secret is
    not among them.

  \<^item> \<open>Calendar_Months\<close>, \<open>Workspace_Data\<close>, \<open>Target_Admission\<close>, \<open>Scan_Admission\<close>: what leads to a
    scan: \<open>modules/billing\<close> (plans, quotas, the month of \<open>datetime\<close>), \<open>modules/projects\<close>,
    \<open>modules/authorization_scope\<close>, \<open>create_scan\<close> and \<open>modules/schedules\<close>. \<open>Admission_System\<close> has the
    effect of every operation on every table and the histories (\<open>adm_history\<close>) in which reads may be older
    than the writes; \<open>Admission_Properties\<close> what holds in all of them.
  \<^item> \<open>Surface_Coverage\<close>, \<open>Coverage_Properties\<close>: what of the discovered surface was tested and what
    to test next (\<open>coverage.py\<close>, \<open>adaptive.py\<close>, \<open>auth_state.py\<close>), with the two read models of a scan;
    the debt is the untested surface, and next steps need the scan's own authorization.

  \<^bold>\<open>Correspondence.\<close> Definitions keep the names of the Python functions (without a leading
  underscore). A database table is a list of records, a session's reads and writes are functions on
  the record of tables, a transaction that raises leaves the database as it was. A request that reads,
  and writes later, is split into its reads and its writes where other requests may come in between
  (\<open>accept_reads\<close>/\<open>accept_writes\<close>, \<open>complete_reads\<close>/\<open>complete_writes\<close>, \<open>reap_select\<close>/\<open>reap_update\<close>,
  \<open>rotate_reads\<close>/\<open>rotate_writes\<close>, \<open>remove_member_reads\<close>/\<open>delete_member\<close>,
  \<open>sync_body\<close>). Ids are natural numbers, time is an integer number of microseconds, scores are real
  numbers with Python's round-half-even at the end. Loops over retries are structural recursions over
  the attempts, so every operation is total. The lease loop of the worker has no end of its own: it runs
  for a given number of iterations (\<open>run_iterations\<close>, the \<open>max_iterations\<close> of the code), and its
  theorems hold for every number.

  \<^bold>\<open>Parameters.\<close> The OS resolver and the site-DNS backend (any answer at any attempt), the collation
  of the database (\<open>same_text\<close>, an equivalence), the digest of worker tokens, the cryptography and random secrets of accounts (\<open>auth_env\<close>), printed ids and their parser, settings, clocks, the manager as its worker sees it, the
  tools with their parsers, the probes of the tunnels (fields of \<open>conf\<close>, \<open>exec_env\<close>, \<open>loop_env\<close>).

  \<^bold>\<open>Not modelled.\<close> Text of messages, log lines and metrics; the rendering of reports; tool runners
  and subprocesses; retention, notifications and AI agents; the personal data export; migrations and
  the web front end. Strings are ASCII. The order of \<open>list_events\<close> within one microsecond is left out.
\<close>

end
